(* ===== verification/Prelude.thy ===== *)
theory Prelude
  imports Main "HOL-Library.AList" "HOL-Library.Sublist"
begin

text \<open>
  Shared ground of the development.  Results of fallible Go functions are
  values of \<open>'e + 'a\<close> (\<open>Inl\<close> the returned error, \<open>Inr\<close> the value), Go maps whose
  iteration can be observed are association lists (the list order is one
  possible iteration order) written with \<^const>\<open>AList.update\<close> and read with
  \<^const>\<open>map_of\<close>.  The theory holds the error-propagating list traversals the
  components share and the generic lemmas about them.
\<close>

named_theorems go_simps \<open>unfolding equations of small Go helpers\<close>
named_theorems ok_intros \<open>preservation lemmas of the components\<close>

section \<open>Results\<close>

type_synonym ('e, 'a) result = "'e + 'a"

definition isOk :: "('e, 'a) result \<Rightarrow> bool" where
  "isOk r = (case r of Inl _ \<Rightarrow> False | Inr _ \<Rightarrow> True)"

definition bindE :: "('e, 'a) result \<Rightarrow> ('a \<Rightarrow> ('e, 'b) result) \<Rightarrow> ('e, 'b) result" where
  "bindE r f = (case r of Inl e \<Rightarrow> Inl e | Inr a \<Rightarrow> f a)"

definition mapErr :: "('e \<Rightarrow> 'f) \<Rightarrow> ('e, 'a) result \<Rightarrow> ('f, 'a) result" where
  "mapErr g r = (case r of Inl e \<Rightarrow> Inl (g e) | Inr a \<Rightarrow> Inr a)"

lemma isOk_simps [simp]: "isOk (Inr a)" "\<not> isOk (Inl e)"
  by (simp_all add: isOk_def)

lemma isOk_iff: "isOk r \<longleftrightarrow> (\<exists>a. r = Inr a)"
  by (cases r) auto

lemma bindE_simps [simp]: "bindE (Inl e) f = Inl e" "bindE (Inr a) f = f a"
  by (simp_all add: bindE_def)

lemma bindE_eq_Inr: "bindE r f = Inr b \<longleftrightarrow> (\<exists>a. r = Inr a \<and> f a = Inr b)"
  by (cases r) auto

lemma mapErr_simps [simp]: "mapErr g (Inl e) = Inl (g e)" "mapErr g (Inr a) = Inr a"
  by (simp_all add: mapErr_def)

lemma mapErr_eq_Inr [simp]: "mapErr g r = Inr a \<longleftrightarrow> r = Inr a"
  by (cases r) auto

lemma isOk_mapErr [simp]: "isOk (mapErr g r) = isOk r"
  by (cases r) auto

text \<open>A loop that appends \<open>f x\<close> for each element and stops at the first error.\<close>

fun mapE :: "('a \<Rightarrow> ('e, 'b) result) \<Rightarrow> 'a list \<Rightarrow> ('e, 'b list) result" where
  "mapE f [] = Inr []"
| "mapE f (x # xs) = (case f x of Inl e \<Rightarrow> Inl e
     | Inr y \<Rightarrow> (case mapE f xs of Inl e \<Rightarrow> Inl e | Inr ys \<Rightarrow> Inr (y # ys)))"

lemma mapE_cong [fundef_cong]:
  "xs = ys \<Longrightarrow> (\<And>x. x \<in> set ys \<Longrightarrow> f x = g x) \<Longrightarrow> mapE f xs = mapE g ys"
  by (induction xs arbitrary: ys) (auto split: sum.splits)

lemma mapE_Inr: "mapE f xs = Inr ys \<longleftrightarrow> list_all2 (\<lambda>x y. f x = Inr y) xs ys"
proof (induction xs arbitrary: ys)
  case (Cons a xs)
  show ?case
  proof (cases "f a")
    case (Inr y)
    show ?thesis
      using Inr Cons.IH by (cases "mapE f xs") (auto simp: list_all2_Cons1)
  qed (simp add: list_all2_Cons1)
qed auto

lemma mapE_Inr_length: "mapE f xs = Inr ys \<Longrightarrow> length ys = length xs"
  by (auto simp: mapE_Inr dest: list_all2_lengthD)

lemma mapE_Inl: "mapE f xs = Inl e \<Longrightarrow> \<exists>x \<in> set xs. f x = Inl e"
  by (induction xs) (auto split: sum.splits)

lemma mapE_total: "(\<And>x. x \<in> set xs \<Longrightarrow> f x = Inr (g x)) \<Longrightarrow> mapE f xs = Inr (map g xs)"
  by (induction xs) auto

text \<open>The same over the values of a map.\<close>

fun mapVals :: "('a \<Rightarrow> ('e, 'b) result) \<Rightarrow> ('k \<times> 'a) list \<Rightarrow> ('e, ('k \<times> 'b) list) result" where
  "mapVals f [] = Inr []"
| "mapVals f ((k, x) # xs) = (case f x of Inl e \<Rightarrow> Inl e
     | Inr y \<Rightarrow> (case mapVals f xs of Inl e \<Rightarrow> Inl e | Inr ys \<Rightarrow> Inr ((k, y) # ys)))"

lemma mapVals_cong [fundef_cong]:
  assumes "xs = ys" "\<And>x. x \<in> set ys \<Longrightarrow> f (snd x) = g (snd x)"
  shows "mapVals f xs = mapVals g ys"
proof -
  have "\<forall>x \<in> set ys. f (snd x) = g (snd x) \<Longrightarrow> mapVals f ys = mapVals g ys"
    by (induction f ys rule: mapVals.induct) (auto split: sum.splits)
  then show ?thesis using assms by blast
qed

lemma mapVals_total:
  "\<forall>x \<in> set xs. f (h (snd x)) = Inr (snd x) \<Longrightarrow> mapVals f (map (\<lambda>x. (fst x, h (snd x))) xs) = Inr xs"
  by (induction xs) auto

text \<open>A loop that only checks: the first error is the result.\<close>

fun checkAll :: "('a \<Rightarrow> ('e, unit) result) \<Rightarrow> 'a list \<Rightarrow> ('e, unit) result" where
  "checkAll f [] = Inr ()"
| "checkAll f (x # xs) = (case f x of Inl e \<Rightarrow> Inl e | Inr _ \<Rightarrow> checkAll f xs)"

lemma checkAll_cong [fundef_cong]:
  "xs = ys \<Longrightarrow> (\<And>x. x \<in> set ys \<Longrightarrow> f x = g x) \<Longrightarrow> checkAll f xs = checkAll g ys"
  by (induction xs arbitrary: ys) (auto split: sum.splits)

lemma checkAll_ok [simp]: "checkAll f xs = Inr () \<longleftrightarrow> (\<forall>x \<in> set xs. f x = Inr ())"
  by (induction xs) (auto split: sum.splits)

lemma checkAll_Inl: "checkAll f xs = Inl e \<Longrightarrow> \<exists>x \<in> set xs. f x = Inl e"
  by (induction xs) (auto split: sum.splits)

text \<open>A loop that updates a state and stops at the first error.\<close>

fun foldE :: "('a \<Rightarrow> 's \<Rightarrow> ('e, 's) result) \<Rightarrow> 'a list \<Rightarrow> 's \<Rightarrow> ('e, 's) result" where
  "foldE f [] s = Inr s"
| "foldE f (x # xs) s = (case f x s of Inl e \<Rightarrow> Inl e | Inr s' \<Rightarrow> foldE f xs s')"

lemma foldE_cong [fundef_cong]:
  "xs = ys \<Longrightarrow> s = t \<Longrightarrow> (\<And>x s. x \<in> set ys \<Longrightarrow> f x s = g x s) \<Longrightarrow> foldE f xs s = foldE g ys t"
  by (induction xs arbitrary: ys s t) (auto split: sum.splits)

lemma foldE_inv:
  assumes "foldE f xs s = Inr t" "P s" "\<And>x s s'. x \<in> set xs \<Longrightarrow> P s \<Longrightarrow> f x s = Inr s' \<Longrightarrow> P s'"
  shows "P t"
  using assms
proof (induction xs arbitrary: s)
  case (Cons x xs)
  then obtain s' where s': "f x s = Inr s'" "foldE f xs s' = Inr t" by (auto split: sum.splits)
  then show ?case using Cons.IH[OF s'(2)] Cons.prems(2,3) by (metis list.set_intros)
qed simp

lemma foldE_append: "foldE f (xs @ ys) s = bindE (foldE f xs s) (foldE f ys)"
  by (induction xs arbitrary: s) (auto split: sum.split)

lemma foldE_map: "foldE (\<lambda>x. f (g x)) xs s = foldE f (map g xs) s"
  by (induction xs arbitrary: s) (auto split: sum.split)

section \<open>Association lists\<close>

lemma map_of_update [simp]: "map_of (AList.update k v al) = (map_of al)(k \<mapsto> v)"
  by (rule update_conv')

lemma keys_update [simp]: "fst ` set (AList.update k v al) = insert k (fst ` set al)"
  by (simp add: dom_update)

lemma distinct_keys_update [simp]:
  "distinct (map fst al) \<Longrightarrow> distinct (map fst (AList.update k v al))"
  by (rule distinct_update)

text \<open>The first key bound to a value, in iteration order.\<close>

definition keyOf :: "('k \<times> 'v) list \<Rightarrow> 'v \<Rightarrow> 'k option" where
  "keyOf al v = map_option fst (find (\<lambda>(k, w). w = v) al)"

lemma keyOf_Some_mem: "keyOf al v = Some k \<Longrightarrow> (k, v) \<in> set al"
  by (auto simp: keyOf_def find_Some_iff) (metis nth_mem)

lemma keyOf_Some_map_of:
  "keyOf al v = Some k \<Longrightarrow> distinct (map fst al) \<Longrightarrow> map_of al k = Some v"
  by (auto dest: keyOf_Some_mem)

lemma keyOf_None: "keyOf al v = None \<longleftrightarrow> v \<notin> snd ` set al"
  by (force simp: keyOf_def find_None_iff)

section \<open>Lists\<close>

lemma list_all2_same_map: "list_all2 (\<lambda>x y. y = f x) xs ys \<longleftrightarrow> ys = map f xs"
  by (induction xs arbitrary: ys) (auto simp: list_all2_Cons1)

lemma size_list_mem_less: "x \<in> set xs \<Longrightarrow> f x < Suc (size_list f xs)"
  by (induction xs) auto

end
