(* ===== verification/GoStrings.thy ===== *)
theory GoStrings
  imports Prelude
begin

text \<open>
  The part of Go's \<open>strings\<close>, \<open>strconv\<close>, \<open>unicode\<close> and \<open>fmt\<close> packages the program
  uses, on Go strings as byte strings (a \<^typ>\<open>string\<close> is a list of bytes).

  Case mapping is exact for every test the program makes on its result, all of
  which compare with ASCII text: the ASCII letters are mapped, and so are the
  only UTF-8 sequences whose simple case mapping is ASCII (U+0130 and U+212A for
  \<open>ToLower\<close>, U+0131 and U+017F for \<open>ToUpper\<close>); the other bytes from 0x80 on stay as
  they are and never become ASCII.  \<open>TrimSpace\<close> knows the ASCII white space and the UTF-8
  encodings of every other code point with the Unicode White-Space property.
\<close>

section \<open>Bytes\<close>

abbreviation byteOf :: "char \<Rightarrow> nat" where
  "byteOf c \<equiv> of_char c"

definition isUpper :: "char \<Rightarrow> bool" where
  "isUpper c = (65 \<le> byteOf c \<and> byteOf c \<le> 90)"

definition isLower :: "char \<Rightarrow> bool" where
  "isLower c = (97 \<le> byteOf c \<and> byteOf c \<le> 122)"

definition isDigit :: "char \<Rightarrow> bool" where
  "isDigit c = (48 \<le> byteOf c \<and> byteOf c \<le> 57)"

definition isLetter :: "char \<Rightarrow> bool" where
  "isLetter c = (isUpper c \<or> isLower c)"

definition lowerByte :: "char \<Rightarrow> char" where
  "lowerByte c = (if isUpper c then char_of (byteOf c + 32) else c)"

definition upperByte :: "char \<Rightarrow> char" where
  "upperByte c = (if isLower c then char_of (byteOf c - 32) else c)"

abbreviation isASCII :: "string \<Rightarrow> bool" where
  "isASCII s \<equiv> list_all (\<lambda>c. byteOf c < 128) s"

lemma byteOf_char_of [simp]: "n < 256 \<Longrightarrow> byteOf (char_of n) = (n::nat)"
  by simp

lemma lowerByte_upper [simp]: "isUpper c \<Longrightarrow> isLower (lowerByte c)"
  by (simp add: lowerByte_def isUpper_def isLower_def)

lemma upperByte_lower [simp]: "isLower c \<Longrightarrow> isUpper (upperByte c)"
  by (auto simp: upperByte_def isUpper_def isLower_def mod_less[of "byteOf c - 32"])

lemma lowerByte_not_upper [simp]: "\<not> isUpper (lowerByte c)"
  by (auto simp: lowerByte_def isUpper_def)

lemma upperByte_not_lower [simp]: "\<not> isLower (upperByte c)"
  by (auto simp: upperByte_def isLower_def)

lemma lowerByte_idem [simp]: "lowerByte (lowerByte c) = lowerByte c"
  by (simp add: lowerByte_def isUpper_def)

lemma isDigit_lowerByte [simp]: "isDigit (lowerByte c) = isDigit c"
  by (auto simp: lowerByte_def isUpper_def isDigit_def)

lemma lowerByte_ascii [simp]: "byteOf (lowerByte c) < 128 \<longleftrightarrow> byteOf c < 128"
  by (auto simp: lowerByte_def isUpper_def)

section \<open>Package strings\<close>

fun ToLower :: "string \<Rightarrow> string" where
  "ToLower [] = []"
| "ToLower (c # s) =
     (if c = CHR 0xC4 \<and> prefix [CHR 0xB0] s then CHR ''i'' # ToLower (drop 1 s)
      else if c = CHR 0xE2 \<and> prefix [CHR 0x84, CHR 0xAA] s then CHR ''k'' # ToLower (drop 2 s)
      else lowerByte c # ToLower s)"

fun ToUpper :: "string \<Rightarrow> string" where
  "ToUpper [] = []"
| "ToUpper (c # s) =
     (if c = CHR 0xC4 \<and> prefix [CHR 0xB1] s then CHR ''I'' # ToUpper (drop 1 s)
      else if c = CHR 0xC5 \<and> prefix [CHR 0xBF] s then CHR ''S'' # ToUpper (drop 1 s)
      else upperByte c # ToUpper s)"

text \<open>Simple case folding, as \<open>strings.EqualFold\<close>, \<open>(?i)\<close> patterns and JSON field names use it: ASCII letters, U+017F with s and U+212A
  with k.\<close>

fun foldCase :: "string \<Rightarrow> string" where
  "foldCase [] = []"
| "foldCase (c # s) =
     (if c = CHR 0xC5 \<and> prefix [CHR 0xBF] s then CHR ''s'' # foldCase (drop 1 s)
      else if c = CHR 0xE2 \<and> prefix [CHR 0x84, CHR 0xAA] s then CHR ''k'' # foldCase (drop 2 s)
      else lowerByte c # foldCase s)"

definition EqualFold :: "string \<Rightarrow> string \<Rightarrow> bool" where
  "EqualFold s t = (foldCase s = foldCase t)"

lemma EqualFold_refl [simp]: "EqualFold s s"
  by (simp add: EqualFold_def)

fun Contains :: "string \<Rightarrow> string \<Rightarrow> bool" where
  "Contains [] sub = (sub = [])"
| "Contains (c # s) sub = (prefix sub (c # s) \<or> Contains s sub)"

definition HasPrefix :: "string \<Rightarrow> string \<Rightarrow> bool" where
  "HasPrefix s p = prefix p s"

definition HasSuffix :: "string \<Rightarrow> string \<Rightarrow> bool" where
  "HasSuffix s p = suffix p s"

definition TrimPrefix :: "string \<Rightarrow> string \<Rightarrow> string" where
  "TrimPrefix s p = (if prefix p s then drop (length p) s else s)"

text \<open>\<open>Index\<close> and \<open>LastIndex\<close> of a one-byte needle; \<open>None\<close> is Go's -1.\<close>

fun IndexByte :: "string \<Rightarrow> char \<Rightarrow> nat option" where
  "IndexByte [] b = None"
| "IndexByte (c # s) b = (if c = b then Some 0 else map_option Suc (IndexByte s b))"

definition LastIndexByte :: "string \<Rightarrow> char \<Rightarrow> nat option" where
  "LastIndexByte s b = map_option (\<lambda>i. length s - 1 - i) (IndexByte (rev s) b)"

text \<open>\<open>Split\<close> at a one-byte separator, the only kind the program uses.\<close>

fun SplitByte :: "char \<Rightarrow> string \<Rightarrow> string list" where
  "SplitByte b [] = [[]]"
| "SplitByte b (c # s) =
     (if c = b then [] # SplitByte b s
      else (case SplitByte b s of [] \<Rightarrow> [[c]] | p # ps \<Rightarrow> (c # p) # ps))"

fun Join :: "string list \<Rightarrow> string \<Rightarrow> string" where
  "Join [] sep = []"
| "Join [s] sep = s"
| "Join (s # t # ss) sep = s @ sep @ Join (t # ss) sep"

definition spaceSeqs :: "string list" where
  "spaceSeqs =
    [[CHR 0x09], [CHR 0x0A], [CHR 0x0B], [CHR 0x0C], [CHR 0x0D], [CHR 0x20],
     [CHR 0xC2, CHR 0x85], [CHR 0xC2, CHR 0xA0], [CHR 0xE1, CHR 0x9A, CHR 0x80],
     [CHR 0xE2, CHR 0x80, CHR 0x80], [CHR 0xE2, CHR 0x80, CHR 0x81], [CHR 0xE2, CHR 0x80, CHR 0x82],
     [CHR 0xE2, CHR 0x80, CHR 0x83], [CHR 0xE2, CHR 0x80, CHR 0x84], [CHR 0xE2, CHR 0x80, CHR 0x85],
     [CHR 0xE2, CHR 0x80, CHR 0x86], [CHR 0xE2, CHR 0x80, CHR 0x87], [CHR 0xE2, CHR 0x80, CHR 0x88],
     [CHR 0xE2, CHR 0x80, CHR 0x89], [CHR 0xE2, CHR 0x80, CHR 0x8A], [CHR 0xE2, CHR 0x80, CHR 0xA8],
     [CHR 0xE2, CHR 0x80, CHR 0xA9], [CHR 0xE2, CHR 0x80, CHR 0xAF], [CHR 0xE2, CHR 0x81, CHR 0x9F],
     [CHR 0xE3, CHR 0x80, CHR 0x80]]"

text \<open>Dropping listed byte sequences from the front while one of them is there.\<close>

function trimSeqs :: "string list \<Rightarrow> string \<Rightarrow> string" where
  "trimSeqs seqs s = (case find (\<lambda>p. p \<noteq> [] \<and> prefix p s) seqs of
     None \<Rightarrow> s | Some p \<Rightarrow> trimSeqs seqs (drop (length p) s))"
  by pat_completeness auto
termination
  by (relation "measure (length \<circ> snd)") (auto simp: find_Some_iff prefix_def)

declare trimSeqs.simps [simp del]

definition TrimSpace :: "string \<Rightarrow> string" where
  "TrimSpace s = rev (trimSeqs (map rev spaceSeqs) (rev (trimSeqs spaceSeqs s)))"

section \<open>Package strconv and fmt: decimal integers\<close>

fun showNat :: "nat \<Rightarrow> string" where
  "showNat n = (if n < 10 then [char_of (48 + n)]
                else showNat (n div 10) @ [char_of (48 + n mod 10)])"

declare showNat.simps [simp del]

definition showInt :: "int \<Rightarrow> string" where
  "showInt i = (if i < 0 then CHR ''-'' # showNat (nat (- i)) else showNat (nat i))"

definition digitsVal :: "string \<Rightarrow> nat" where
  "digitsVal s = foldl (\<lambda>n c. 10 * n + (byteOf c - 48)) 0 s"

definition parseDigits :: "string \<Rightarrow> nat option" where
  "parseDigits s = (if s \<noteq> [] \<and> list_all isDigit s then Some (digitsVal s) else None)"

text \<open>\<open>strconv.ParseInt(s, 10, 64)\<close> and \<open>strconv.ParseUint(s, 10, 64)\<close>; every
  error (syntax or range) is \<open>None\<close>.\<close>

definition ParseInt64 :: "string \<Rightarrow> int option" where
  "ParseInt64 s =
     (let (neg, body) = (case s of [] \<Rightarrow> (False, [])
            | c # t \<Rightarrow> if c = CHR ''-'' then (True, t) else if c = CHR ''+'' then (False, t)
                       else (False, s))
      in case parseDigits body of None \<Rightarrow> None
         | Some n \<Rightarrow> (if neg then (if n \<le> 2 ^ 63 then Some (- int n) else None)
                     else (if n < 2 ^ 63 then Some (int n) else None)))"

definition ParseUint64 :: "string \<Rightarrow> nat option" where
  "ParseUint64 s = (case parseDigits s of None \<Rightarrow> None
     | Some n \<Rightarrow> (if n < 2 ^ 64 then Some n else None))"

text \<open>Evaluation of a byte given by its code.\<close>

lemmas char_eval = char_of_def bit_Suc_0_iff

section \<open>Lemmas\<close>

text \<open>Printable ASCII texts without a blank are left alone.\<close>

lemma trimSeqs_none:
  assumes "list_all (list_all (\<lambda>c. byteOf c \<le> 32 \<or> 128 \<le> byteOf c)) seqs" "list_all (\<lambda>c. 32 < byteOf c \<and> byteOf c < 128) s"
  shows "trimSeqs seqs s = s"
proof -
  have "\<not> (p \<noteq> [] \<and> prefix p s)" if "p \<in> set seqs" for p
  proof
    assume "p \<noteq> [] \<and> prefix p s"
    then have "hd p \<in> set p" "hd p \<in> set s" by (auto simp: prefix_def)
    then show False using that assms by (fastforce simp: list_all_iff)
  qed
  then have "find (\<lambda>p. p \<noteq> [] \<and> prefix p s) seqs = None" by (simp add: find_None_iff)
  then show ?thesis by (simp add: trimSeqs.simps)
qed

lemma TrimSpace_graphic: "list_all (\<lambda>c. 32 < byteOf c \<and> byteOf c < 128) s \<Longrightarrow> TrimSpace s = s"
  by (simp add: TrimSpace_def trimSeqs_none spaceSeqs_def)

lemma Contains_sublist: "Contains s sub \<longleftrightarrow> sublist sub s"
  by (induction s) (auto simp: sublist_Cons_right)

lemma Contains_singleton [simp]: "Contains s [c] \<longleftrightarrow> c \<in> set s"
  by (induction s) auto

lemma SplitByte_not_Nil [simp]: "SplitByte b s \<noteq> []"
  by (cases s) (auto split: list.splits)

lemma Join_Cons: "ss \<noteq> [] \<Longrightarrow> Join (s # ss) sep = s @ sep @ Join ss sep"
  by (cases ss) auto

lemma Join_SplitByte: "Join (SplitByte b s) [b] = s"
  by (induction s) (auto simp: Join_Cons split: list.splits, (metis Join.simps append_Cons list.exhaust)+)

lemma SplitByte_no_sep: "p \<in> set (SplitByte b s) \<Longrightarrow> b \<notin> set p"
  by (induction s arbitrary: p) (auto split: list.splits if_splits)

lemma SplitByte_chars: "p \<in> set (SplitByte b s) \<Longrightarrow> set p \<subseteq> set s"
proof (induction s arbitrary: p)
  case (Cons c s)
  then show ?case
    by (cases "SplitByte b s") (fastforce split: if_splits)+
qed simp

lemma SplitByte_covers: "c \<in> set s \<Longrightarrow> c = b \<or> (\<exists>p \<in> set (SplitByte b s). c \<in> set p)"
  by (induction s) (auto split: list.splits if_splits)

lemma ToLower_ASCII: "isASCII s \<Longrightarrow> ToLower s = map lowerByte s"
  by (induction s rule: ToLower.induct) auto

lemma ToUpper_ASCII: "isASCII s \<Longrightarrow> ToUpper s = map upperByte s"
  by (induction s rule: ToUpper.induct) auto

lemma IndexByte_Some: "IndexByte s b = Some i \<Longrightarrow> i < length s \<and> s ! i = b \<and> b \<notin> set (take i s)"
  by (induction s arbitrary: i) (auto split: if_splits)

lemma IndexByte_None: "IndexByte s b = None \<longleftrightarrow> b \<notin> set s"
  by (induction s) auto

lemma LastIndexByte_Some: "LastIndexByte s b = Some i \<Longrightarrow> i < length s \<and> s ! i = b"
  by (auto simp: LastIndexByte_def rev_nth dest!: IndexByte_Some)

lemma LastIndexByte_None: "LastIndexByte s b = None \<longleftrightarrow> b \<notin> set s"
  by (simp add: LastIndexByte_def IndexByte_None)

lemma isDigit_char_of [simp]: "n < 10 \<Longrightarrow> isDigit (char_of (48 + n :: nat))"
  by (simp add: isDigit_def)

lemma showNat_ne [simp]: "showNat n \<noteq> []"
  by (subst showNat.simps) simp

lemma showNat_digits [simp]: "list_all isDigit (showNat n)"
proof (induction n rule: showNat.induct)
  case (1 n)
  then show ?case by (subst showNat.simps) auto
qed

lemma digitsVal_snoc: "digitsVal (s @ [c]) = 10 * digitsVal s + (byteOf c - 48)"
  by (simp add: digitsVal_def)

lemma digitsVal_showNat [simp]: "digitsVal (showNat n) = n"
proof (induction n rule: showNat.induct)
  case (1 n)
  then show ?case
    by (subst showNat.simps) (auto simp: digitsVal_snoc, simp_all add: digitsVal_def)
qed

lemma parseDigits_showNat [simp]: "parseDigits (showNat n) = Some n"
  by (simp add: parseDigits_def)

lemma showNat_inj [simp]: "showNat m = showNat n \<longleftrightarrow> m = n"
  by (metis digitsVal_showNat)

lemma ParseUint64_showNat: "n < 2 ^ 64 \<Longrightarrow> ParseUint64 (showNat n) = Some n"
  by (simp add: ParseUint64_def)

lemma showNat_hd_digit: "showNat n = c # s \<Longrightarrow> isDigit c"
  using showNat_digits[of n] by simp

lemma ParseInt64_showInt:
  assumes "- (2 ^ 63) \<le> i" "i < 2 ^ 63"
  shows "ParseInt64 (showInt i) = Some i"
proof (cases "i < 0")
  case True
  then have "nat (- i) \<le> 2 ^ 63" using assms by simp
  then show ?thesis using True by (simp add: ParseInt64_def showInt_def)
next
  case False
  obtain c s where cs: "showNat (nat i) = c # s" by (cases "showNat (nat i)") auto
  then have c: "c \<noteq> CHR ''-''" "c \<noteq> CHR ''+''"
    using showNat_hd_digit[OF cs] by (auto simp: isDigit_def)
  have "parseDigits (c # s) = Some (nat i)" using cs parseDigits_showNat by metis
  then show ?thesis using False assms cs c by (auto simp: ParseInt64_def showInt_def)
qed

lemma ParseInt64_range: "ParseInt64 s = Some i \<Longrightarrow> - (2 ^ 63) \<le> i \<and> i < 2 ^ 63"
  by (auto simp: ParseInt64_def Let_def split: option.splits if_splits list.splits)

end
