(* ===== verification/GoReflect.thy ===== *)
theory GoReflect
  imports GoStrings
begin

text \<open>
  Go values as package \<open>reflect\<close> shows them: a type, and a value of that type.  The
  program is driven by type switches and by \<open>reflect.Kind\<close>, so types are kept
  apart as Go keeps them (\<open>int\<close> is not \<open>int64\<close>, a defined type such as
  \<open>type Status string\<close> is not its underlying type, \<open>[]any\<close> is not \<open>[]string\<close>), and
  \<open>any\<close> is an optional pair of a dynamic type and a value, \<open>None\<close> for \<open>nil\<close>.
  A nil slice or map is identified with the empty one (most of the code reads only the length; theory \<open>Marshal\<close>, whose code asks
  \<open>IsNil\<close>, has values of its own for nil),
  a float is its shortest decimal text (what \<open>%g\<close> prints) and a
  \<open>time.Time\<close> is its RFC 3339 text.  The theory also has DynamoDB's
  \<open>types.AttributeValue\<close>.
\<close>

section \<open>Types\<close>

datatype intsize = IntN | Int8 | Int16 | Int32 | Int64
datatype uintsize = UintN | Uint8 | Uint16 | Uint32 | Uint64

text \<open>\<open>reflect.StructField\<close>: name, whether it is exported and whether it is embedded, its \<open>theorydb\<close> and \<open>json\<close> tags, its type.\<close>

datatype 't sfield = SField (sfName: string) (sfExported: bool) (sfAnonymous: bool) (sfTag: string) (sfJson: string) (sfType: 't)

datatype gtype =
    TString
  | TInt intsize
  | TUint uintsize
  | TFloat32
  | TFloat64
  | TBool
  | TIface nat                     \<comment> \<open>interface type with that many methods; \<open>TIface 0\<close> is \<open>any\<close>\<close>
  | TTime                          \<comment> \<open>\<open>time.Time\<close>\<close>
  | TStruct string "gtype sfield list"
  | TSlice gtype
  | TArray nat gtype
  | TMap gtype gtype
  | TPtr gtype
  | TFunc | TChan | TUnsafePointer | TUintptr | TComplex
  | TNamed string gtype            \<comment> \<open>a defined type and its underlying type\<close>

abbreviation TAny :: gtype where
  "TAny \<equiv> TIface 0"

datatype gkind = KString | KInt | KUint | KUint8 | KFloat | KBool | KInterface | KStruct | KSlice
  | KArray | KMap | KPointer | KFunc | KChan | KUnsafePointer | KUintptr | KComplex

fun underlying :: "gtype \<Rightarrow> gtype" where
  "underlying (TNamed n t) = underlying t"
| "underlying t = t"

definition kindOf :: "gtype \<Rightarrow> gkind" where
  "kindOf t = (case underlying t of
      TString \<Rightarrow> KString | TInt _ \<Rightarrow> KInt | TUint u \<Rightarrow> (if u = Uint8 then KUint8 else KUint)
    | TFloat32 \<Rightarrow> KFloat | TFloat64 \<Rightarrow> KFloat | TBool \<Rightarrow> KBool | TIface _ \<Rightarrow> KInterface
    | TTime \<Rightarrow> KStruct | TStruct _ _ \<Rightarrow> KStruct | TSlice _ \<Rightarrow> KSlice | TArray _ _ \<Rightarrow> KArray
    | TMap _ _ \<Rightarrow> KMap | TPtr _ \<Rightarrow> KPointer | TFunc \<Rightarrow> KFunc | TChan \<Rightarrow> KChan
    | TUnsafePointer \<Rightarrow> KUnsafePointer | TUintptr \<Rightarrow> KUintptr | TComplex \<Rightarrow> KComplex
    | TNamed _ _ \<Rightarrow> KStruct)"

text \<open>\<open>Type.PkgPath() != ""\<close>: the type is a defined type of some package.\<close>

definition isDefined :: "gtype \<Rightarrow> bool" where
  "isDefined t = (case t of TNamed _ _ \<Rightarrow> True | TTime \<Rightarrow> True | TStruct n _ \<Rightarrow> n \<noteq> [] | _ \<Rightarrow> False)"

fun intBits :: "intsize \<Rightarrow> nat" where
  "intBits IntN = 64" | "intBits Int8 = 8" | "intBits Int16 = 16" | "intBits Int32 = 32" | "intBits Int64 = 64"

fun uintBits :: "uintsize \<Rightarrow> nat" where
  "uintBits UintN = 64" | "uintBits Uint8 = 8" | "uintBits Uint16 = 16" | "uintBits Uint32 = 32"
| "uintBits Uint64 = 64"

section \<open>Values\<close>

datatype gval =
    VString string
  | VInt int
  | VUint nat
  | VFloat string
  | VBool bool
  | VTime string
  | VIface "(gtype \<times> gval) option"
  | VStruct "gval list"            \<comment> \<open>the fields, in the order of the type\<close>
  | VSlice "gval list"
  | VBytes string                  \<comment> \<open>the value of a slice whose elements are of kind uint8\<close>
  | VArray "gval list"
  | VMap "(gval \<times> gval) list"
  | VPtr "gval option"
  | VOpaque                        \<comment> \<open>a value of a function, channel, \<open>unsafe.Pointer\<close>, \<open>uintptr\<close> or complex type\<close>

type_synonym goany = "(gtype \<times> gval) option"

text \<open>\<open>Value.Interface()\<close> of a value of static type \<open>t\<close>.\<close>

definition toInterface :: "gtype \<Rightarrow> gval \<Rightarrow> goany" where
  "toInterface t v = (case v of VIface d \<Rightarrow> d | _ \<Rightarrow> Some (t, v))"

text \<open>\<open>Value.Len()\<close> of strings, slices, arrays and maps.\<close>

definition lenOf :: "gval \<Rightarrow> nat" where
  "lenOf v = (case v of VString s \<Rightarrow> length s | VSlice xs \<Rightarrow> length xs | VBytes b \<Rightarrow> length b
     | VArray xs \<Rightarrow> length xs | VMap m \<Rightarrow> length m | _ \<Rightarrow> 0)"

definition elemOf :: "gtype \<Rightarrow> gtype" where
  "elemOf t = (case underlying t of TSlice e \<Rightarrow> e | TArray n e \<Rightarrow> e | TMap k e \<Rightarrow> e | TPtr e \<Rightarrow> e | _ \<Rightarrow> TAny)"

definition keyTypeOf :: "gtype \<Rightarrow> gtype" where
  "keyTypeOf t = (case underlying t of TMap k e \<Rightarrow> k | _ \<Rightarrow> TAny)"

definition structFields :: "gtype \<Rightarrow> gtype sfield list" where
  "structFields t = (case underlying t of TStruct n fs \<Rightarrow> fs | _ \<Rightarrow> [])"

section \<open>DynamoDB attribute values\<close>

datatype attrval =
    AVS string
  | AVN string
  | AVB string
  | AVBOOL bool
  | AVNULL bool
  | AVL "attrval list"
  | AVM "(string \<times> attrval) list"
  | AVSS "string list"
  | AVNS "string list"
  | AVBS "string list"

type_synonym item = "(string \<times> attrval) list"

definition isNullAttributeValue :: "attrval \<Rightarrow> bool" where
  "isNullAttributeValue av = (case av of AVNULL b \<Rightarrow> b | _ \<Rightarrow> False)"

lemma size_sfType_less [termination_simp]:
  "f \<in> set fs \<Longrightarrow> size (sfType f) < Suc (size_list (size_sfield size) fs)"
proof (induction fs)
  case (Cons g fs)
  then show ?case by (cases f; cases g) (auto simp: less_Suc_eq_le)
qed simp

section \<open>Well-typed values\<close>

text \<open>\<open>wt t v\<close>: \<open>v\<close> is a value Go can hold in a variable of type \<open>t\<close>.\<close>

fun wt :: "gtype \<Rightarrow> gval \<Rightarrow> bool" where
  "wt (TNamed n t) v = wt t v"
| "wt TString v = (case v of VString _ \<Rightarrow> True | _ \<Rightarrow> False)"
| "wt (TInt s) v = (case v of VInt i \<Rightarrow> - (2 ^ (intBits s - 1)) \<le> i \<and> i < 2 ^ (intBits s - 1) | _ \<Rightarrow> False)"
| "wt (TUint s) v = (case v of VUint n \<Rightarrow> n < 2 ^ uintBits s | _ \<Rightarrow> False)"
| "wt TFloat32 v = (case v of VFloat _ \<Rightarrow> True | _ \<Rightarrow> False)"
| "wt TFloat64 v = (case v of VFloat _ \<Rightarrow> True | _ \<Rightarrow> False)"
| "wt TBool v = (case v of VBool _ \<Rightarrow> True | _ \<Rightarrow> False)"
| "wt TTime v = (case v of VTime _ \<Rightarrow> True | _ \<Rightarrow> False)"
| "wt (TIface n) v = (case v of VIface None \<Rightarrow> True
     | VIface (Some (t, w)) \<Rightarrow> kindOf t \<noteq> KInterface \<and> wt t w | _ \<Rightarrow> False)"
| "wt (TStruct n fs) v = (case v of VStruct vs \<Rightarrow> list_all2 (\<lambda>f w. wt (sfType f) w) fs vs | _ \<Rightarrow> False)"
| "wt (TSlice e) v = (if kindOf e = KUint8 then (case v of VBytes _ \<Rightarrow> True | _ \<Rightarrow> False)
     else (case v of VSlice vs \<Rightarrow> list_all (wt e) vs | _ \<Rightarrow> False))"
| "wt (TArray n e) v = (case v of VArray vs \<Rightarrow> length vs = n \<and> list_all (wt e) vs | _ \<Rightarrow> False)"
| "wt (TMap k e) v = (case v of
     VMap m \<Rightarrow> list_all (\<lambda>p. wt k (fst p) \<and> wt e (snd p)) m \<and> distinct (map fst m) | _ \<Rightarrow> False)"
| "wt (TPtr e) v = (case v of VPtr None \<Rightarrow> True | VPtr (Some w) \<Rightarrow> wt e w | _ \<Rightarrow> False)"
| "wt TFunc v = (v = VOpaque)"
| "wt TChan v = (v = VOpaque)"
| "wt TUnsafePointer v = (v = VOpaque)"
| "wt TUintptr v = (v = VOpaque)"
| "wt TComplex v = (v = VOpaque)"

end
