(* ===== verification/Validation.thy ===== *)
theory Validation
  imports GoReflect
begin

text \<open>
  Package \<open>pkg/validation\<close>, the gate every user-supplied field name, operator, value,
  expression, table and index name passes.  One definition per function of
  \<open>field_validator.go\<close>, every branch with the error the code returns: a
  \<open>SecurityError\<close> with its type and detail (its \<open>Field\<close> is empty throughout the file),
  or the plain error of \<open>validateFieldPart\<close>.  The lemmas say what an accepted
  input looks like.
\<close>

datatype verror =
    SecurityError (seType: string) (seField: string) (seDetail: string)
  | Errorf string

type_synonym vresult = "(verror, unit) result"

definition MaxFieldNameLength :: nat where "MaxFieldNameLength = 255"
definition MaxOperatorLength :: nat where "MaxOperatorLength = 20"
definition MaxValueStringLength :: nat where "MaxValueStringLength = 400000"
definition MaxNestedDepth :: nat where "MaxNestedDepth = 32"
definition MaxExpressionLength :: nat where "MaxExpressionLength = 4096"

section \<open>Pattern tables\<close>

text \<open>The double quote byte, for the literals that contain it.\<close>

abbreviation dq :: char where "dq \<equiv> CHR 0x22"
abbreviation sq :: char where "sq \<equiv> CHR 0x27"

definition dangerousPatterns :: "string list" where
  "dangerousPatterns =
     [[sq], [dq], '';'', ''--'', ''/*'', ''*/'',
      ''<script'', ''</script'', ''eval('', ''expression('', ''import('', ''require('']"

definition sqlKeywords :: "string list" where
  "sqlKeywords =
     [''union'', ''select'', ''insert'', ''update'', ''delete'', ''drop'', ''alter'', ''exec'', ''execute'',
      ''script'', ''javascript'', ''vbscript'']"

text \<open>The case-insensitive patterns denote finite languages: stem, optional underscore, suffix.\<close>

definition stampNames :: "string list \<Rightarrow> string list \<Rightarrow> string list" where
  "stampNames stems sfxs = concat (map (\<lambda>st. concat (map (\<lambda>u. map (\<lambda>x. st @ u @ x) sfxs) [[], ''_''])) stems)"

definition legitimateFieldPatterns :: "string list list" where
  "legitimateFieldPatterns =
     [[''createdat'', ''updatedat''],
      stampNames [''created'', ''creater''] [''at'', ''time'', ''date''],
      stampNames [''updated'', ''updater''] [''at'', ''time'', ''date''],
      stampNames [''deleted'', ''deleter''] [''at'', ''time'', ''date'', ''flag''],
      stampNames [''inserted'', ''inserter''] [''at'', ''time'', ''date''],
      stampNames [''selected'', ''selector''] [''at'', ''time'', ''date'']]"

definition valueScriptPatterns :: "string list" where
  "valueScriptPatterns =
     [''<script'', ''</script'', ''eval('', ''expression('', ''import('', ''require('',
      ''javascript:'', ''vbscript:'', ''onload='', ''onerror='', ''onclick='']"

definition valueSQLInjectionPatterns :: "string list" where
  "valueSQLInjectionPatterns =
     [sq # ''; drop table'', sq # ''; delete from'', sq # ''; update '', sq # ''; insert into'',
      dq # ''; drop table'', dq # ''; delete from'', dq # ''; update '', dq # ''; insert into'',
      sq # '' or 1=1'', dq # '' or 1=1'',
      sq # '' or '' @ [sq] @ ''1'' @ [sq] @ ''='' @ [sq] @ ''1'',
      dq # '' or '' @ [dq] @ ''1'' @ [dq] @ ''='' @ [dq] @ ''1'',
      ''/**/union/**/select'', ''concat(0x'', ''char('', ''load_file('',
      ''--'']"

definition allowedOperators :: "string list" where
  "allowedOperators =
     [''='', ''!='', ''<>'', ''<'', ''<='', ''>'', ''>='', ''BETWEEN'', ''IN'', ''BEGINS_WITH'', ''CONTAINS'',
      ''EXISTS'', ''NOT_EXISTS'', ''ATTRIBUTE_EXISTS'', ''ATTRIBUTE_NOT_EXISTS'',
      ''EQ'', ''NE'', ''LT'', ''LE'', ''GT'', ''GE'']"

section \<open>Field names\<close>

definition containsAnySubstring :: "string \<Rightarrow> string list \<Rightarrow> bool" where
  "containsAnySubstring haystack needles = list_ex (\<lambda>n. Contains haystack n) needles"

definition validateFieldNameBasics :: "string \<Rightarrow> vresult" where
  "validateFieldNameBasics field =
     (if field = [] then Inl (SecurityError ''InvalidField'' [] ''field name cannot be empty'')
      else if length field > MaxFieldNameLength
        then Inl (SecurityError ''InvalidField'' [] ''field name exceeds maximum length'')
      else Inr ())"

definition isLegitimateFieldName :: "string \<Rightarrow> bool" where
  "isLegitimateFieldName field = list_ex (\<lambda>pattern. foldCase field \<in> set pattern) legitimateFieldPatterns"

definition isStandaloneOrSuspiciousKeyword :: "string \<Rightarrow> string \<Rightarrow> bool" where
  "isStandaloneOrSuspiciousKeyword fieldLower keyword =
     (fieldLower = keyword \<or>
      list_ex (\<lambda>p. Contains fieldLower p)
        [keyword @ '';'', '';'' @ keyword, keyword @ '' '', '' '' @ keyword,
         keyword @ ''.'', ''.'' @ keyword, keyword @ ''-'', ''-'' @ keyword])"

fun keywordLoop :: "string \<Rightarrow> string \<Rightarrow> string list \<Rightarrow> vresult" where
  "keywordLoop fieldLower field [] = Inr ()"
| "keywordLoop fieldLower field (keyword # ks) =
     (if \<not> Contains fieldLower keyword then keywordLoop fieldLower field ks
      else if isLegitimateFieldName field then keywordLoop fieldLower field ks
      else if isStandaloneOrSuspiciousKeyword fieldLower keyword
        then Inl (SecurityError ''InjectionAttempt'' [] ''field name contains suspicious content'')
      else keywordLoop fieldLower field ks)"

definition validateFieldNameKeywords :: "string \<Rightarrow> string \<Rightarrow> vresult" where
  "validateFieldNameKeywords fieldLower field = keywordLoop fieldLower field sqlKeywords"

text \<open>\<open>unicode.IsControl\<close>: U+0000 to U+001F, U+007F and U+0080 to U+009F.\<close>

fun containsControlCharacters :: "string \<Rightarrow> bool" where
  "containsControlCharacters [] = False"
| "containsControlCharacters (c # s) =
     (byteOf c < 32 \<or> byteOf c = 127 \<or>
      (c = CHR 0xC2 \<and> (case s of [] \<Rightarrow> False | d # _ \<Rightarrow> 128 \<le> byteOf d \<and> byteOf d \<le> 159)) \<or>
      containsControlCharacters s)"

text \<open>\<open>^[a-zA-Z_][a-zA-Z0-9_]*$\<close> and \<open>^[0-9]+$\<close>.\<close>

definition identStart :: "char \<Rightarrow> bool" where
  "identStart c = (isLetter c \<or> c = CHR ''_'')"

definition identChar :: "char \<Rightarrow> bool" where
  "identChar c = (isLetter c \<or> isDigit c \<or> c = CHR ''_'')"

definition fieldPattern :: "string \<Rightarrow> bool" where
  "fieldPattern s = (case s of [] \<Rightarrow> False | c # t \<Rightarrow> identStart c \<and> list_all identChar t)"

definition indexPattern :: "string \<Rightarrow> bool" where
  "indexPattern s = (s \<noteq> [] \<and> list_all isDigit s)"

definition validateFieldPart :: "string \<Rightarrow> vresult" where
  "validateFieldPart part =
     (if part = [] then Inl (Errorf ''field part cannot be empty'')
      else case (IndexByte part (CHR ''[''), LastIndexByte part (CHR '']'')) of
        (Some openBracket, Some closeBracket) \<Rightarrow>
          (if closeBracket \<le> openBracket then Inl (Errorf ''invalid bracket syntax in field part'')
           else
             let fieldName = take openBracket part;
                 indexPart = drop (openBracket + 1) (take closeBracket part);
                 remainingPart = drop (closeBracket + 1) part in
             if \<not> fieldPattern fieldName
               then Inl (Errorf ''field name part must start with letter or underscore and contain only alphanumeric characters and underscores'')
             else if \<not> indexPattern indexPart then Inl (Errorf ''list index must be a number'')
             else if remainingPart \<noteq> [] then Inl (Errorf ''unexpected characters after list index'')
             else Inr ())
      | _ \<Rightarrow>
          (if \<not> fieldPattern part
             then Inl (Errorf ''field part must start with letter or underscore and contain only alphanumeric characters and underscores'')
           else Inr ()))"

definition validateNestedFieldPath :: "string \<Rightarrow> vresult" where
  "validateNestedFieldPath field =
     (let parts = SplitByte (CHR ''.'') field in
      if length parts > MaxNestedDepth
        then Inl (SecurityError ''InvalidField'' [] ''nested field depth exceeds maximum'')
      else checkAll (\<lambda>part. mapErr (\<lambda>_. SecurityError ''InvalidField'' [] ''invalid field part'')
                              (validateFieldPart part)) parts)"

definition ValidateFieldName :: "string \<Rightarrow> vresult" where
  "ValidateFieldName field =
     (case validateFieldNameBasics field of Inl e \<Rightarrow> Inl e | Inr _ \<Rightarrow>
      let fieldLower = ToLower field in
      if containsAnySubstring fieldLower dangerousPatterns
        then Inl (SecurityError ''InjectionAttempt'' [] ''field name contains dangerous pattern'')
      else case validateFieldNameKeywords fieldLower field of Inl e \<Rightarrow> Inl e | Inr _ \<Rightarrow>
      if containsControlCharacters field
        then Inl (SecurityError ''InvalidField'' [] ''field name contains control characters'')
      else if Contains field ''.'' then validateNestedFieldPath field
      else validateFieldPart field)"

section \<open>Operators\<close>

definition ValidateOperator :: "string \<Rightarrow> vresult" where
  "ValidateOperator op =
     (if op = [] then Inl (SecurityError ''InvalidOperator'' [] ''operator cannot be empty'')
      else if length op > MaxOperatorLength
        then Inl (SecurityError ''InvalidOperator'' [] ''operator exceeds maximum length'')
      else if ToUpper (TrimSpace op) \<notin> set allowedOperators
        then Inl (SecurityError ''InvalidOperator'' [] ''operator not allowed'')
      else if containsAnySubstring (ToLower op) dangerousPatterns
        then Inl (SecurityError ''InjectionAttempt'' [] ''operator contains dangerous pattern'')
      else Inr ())"

section \<open>Values\<close>

definition looksLikeUnionSelectInjection :: "string \<Rightarrow> string \<Rightarrow> bool" where
  "looksLikeUnionSelectInjection stringLower raw =
     (if \<not> Contains stringLower ''union'' \<or> \<not> Contains stringLower ''select'' then False
      else if \<not> Contains stringLower ''union select'' \<and> \<not> Contains stringLower ''union all select''
              \<and> \<not> Contains stringLower ''union/**/select'' then False
      else Contains stringLower ''from'' \<or> Contains stringLower ''*''
           \<or> HasSuffix raw ''--'' \<or> HasSuffix raw '';'')"

definition validateStringValue :: "string \<Rightarrow> vresult" where
  "validateStringValue s =
     (if length s > MaxValueStringLength
        then Inl (SecurityError ''InvalidValue'' [] ''string value exceeds maximum length'')
      else let stringLower = ToLower s in
      if containsAnySubstring stringLower valueScriptPatterns
         \<or> (Contains s ''/*'' \<and> Contains s ''*/'')
         \<or> containsAnySubstring stringLower valueSQLInjectionPatterns
         \<or> looksLikeUnionSelectInjection stringLower s
        then Inl (SecurityError ''InjectionAttempt'' [] ''string value contains dangerous pattern'')
      else Inr ())"

definition isBuiltInScalarSlice :: "gtype \<Rightarrow> gval \<Rightarrow> nat option" where
  "isBuiltInScalarSlice t v =
     (if kindOf t \<noteq> KSlice then None
      else if isDefined (elemOf t) then None
      else if kindOf (elemOf t) \<in> {KString, KInt, KUint, KUint8, KFloat, KBool} then Some (lenOf v)
      else None)"

definition validateSliceLength :: "nat \<Rightarrow> vresult" where
  "validateSliceLength n =
     (if n > 100 then Inl (SecurityError ''InvalidValue'' [] ''slice value exceeds maximum length'') else Inr ())"

text \<open>The loop of \<open>validateBasicValue\<close> that unwraps pointers and interfaces; \<open>None\<close> is a nil met on the way.\<close>

fun unwrapValue :: "gtype \<Rightarrow> gval \<Rightarrow> (gtype \<times> gval) option" where
  "unwrapValue t (VPtr None) = None"
| "unwrapValue t (VPtr (Some w)) = unwrapValue (elemOf t) w"
| "unwrapValue t (VIface None) = None"
| "unwrapValue t (VIface (Some (u, w))) = unwrapValue u w"
| "unwrapValue t v = Some (t, v)"

definition validateBasicValue :: "gtype \<Rightarrow> gval \<Rightarrow> vresult" where
  "validateBasicValue t v =
     (case unwrapValue t v of None \<Rightarrow> Inr ()
      | Some (u, w) \<Rightarrow>
          (if kindOf u \<in> {KFunc, KChan, KUnsafePointer, KUintptr, KComplex}
             then Inl (SecurityError ''InvalidValue'' [] ''unsupported value type'')
           else Inr ()))"

definition mapKeyString :: "gval \<Rightarrow> string" where
  "mapKeyString k = (case k of VString s \<Rightarrow> s | _ \<Rightarrow> [])"

text \<open>The loop the three map validators share, over the key and the validation of the value.\<close>

fun validateEntries :: "(string \<times> vresult) list \<Rightarrow> vresult" where
  "validateEntries [] = Inr ()"
| "validateEntries ((key, r) # es) =
     (case ValidateFieldName key of
        Inl _ \<Rightarrow> Inl (SecurityError ''InvalidValue'' [] ''invalid map key'')
      | Inr _ \<Rightarrow> (case r of
          Inl _ \<Rightarrow> Inl (SecurityError ''InvalidValue'' [] ''invalid map value'')
        | Inr _ \<Rightarrow> validateEntries es))"

definition validateMapWith :: "(gval \<Rightarrow> vresult) \<Rightarrow> (gval \<times> gval) list \<Rightarrow> vresult" where
  "validateMapWith check m =
     (if length m > 100 then Inl (SecurityError ''InvalidValue'' [] ''map value exceeds maximum keys'')
      else validateEntries (map (\<lambda>(k, v). (mapKeyString k, check v)) m))"

definition validateSliceWith :: "(gval \<Rightarrow> vresult) \<Rightarrow> gval list \<Rightarrow> vresult" where
  "validateSliceWith check xs =
     (if length xs > 100
        then Inl (SecurityError ''InvalidValue'' [] ''slice value exceeds maximum length of 100 items'')
      else checkAll (\<lambda>x. mapErr (\<lambda>_. SecurityError ''InvalidValue'' [] ''invalid item in collection'') (check x)) xs)"

lemma validateMapWith_cong [fundef_cong]:
  assumes "m = m'" and "\<And>p. p \<in> set m' \<Longrightarrow> check (snd p) = check' (snd p)"
  shows "validateMapWith check m = validateMapWith check' m'"
proof -
  have eq: "map (\<lambda>(k, v). (mapKeyString k, check v)) m' = map (\<lambda>(k, v). (mapKeyString k, check' v)) m'"
    using assms(2) by (auto intro!: map_cong)
  show ?thesis by (simp only: validateMapWith_def assms(1) eq)
qed

lemma validateSliceWith_cong [fundef_cong]:
  "xs = ys \<Longrightarrow> (\<And>x. x \<in> set ys \<Longrightarrow> check x = check' x) \<Longrightarrow> validateSliceWith check xs = validateSliceWith check' ys"
  unfolding validateSliceWith_def by (auto intro!: checkAll_cong)

text \<open>\<open>ValidateValue\<close> of a value with dynamic type \<open>t\<close>: the type switch, in its order.  An element
  of a \<open>[]any\<close> or \<open>map[string]any\<close> is again an interface value.\<close>

fun validateTyped :: "gtype \<Rightarrow> gval \<Rightarrow> vresult" where
  "validateTyped t (VString s) =
     (if t = TString then validateStringValue s else validateBasicValue t (VString s))"
| "validateTyped t (VIface None) = Inr ()"
| "validateTyped t (VIface (Some (u, w))) = validateTyped u w"
| "validateTyped t (VSlice xs) =
     (if t = TSlice TAny then validateSliceWith (\<lambda>x. validateTyped TAny x) xs
      else case isBuiltInScalarSlice t (VSlice xs) of Some n \<Rightarrow> validateSliceLength n
           | None \<Rightarrow> validateBasicValue t (VSlice xs))"
| "validateTyped t (VMap m) =
     (if t = TMap TString TAny then validateMapWith (\<lambda>x. validateTyped TAny x) m
      else if t = TMap TString TString then validateMapWith (\<lambda>x. validateTyped TString x) m
      else if t = TMap TString (TInt IntN) then validateMapWith (\<lambda>x. validateTyped (TInt IntN) x) m
      else validateBasicValue t (VMap m))"
| "validateTyped t v =
     (case isBuiltInScalarSlice t v of Some n \<Rightarrow> validateSliceLength n | None \<Rightarrow> validateBasicValue t v)"

definition ValidateValue :: "goany \<Rightarrow> vresult" where
  "ValidateValue value = (case value of None \<Rightarrow> Inr () | Some (t, v) \<Rightarrow> validateTyped t v)"

section \<open>Expressions, tables, indexes\<close>

definition ValidateExpression :: "string \<Rightarrow> vresult" where
  "ValidateExpression expression =
     (if length expression > MaxExpressionLength
        then Inl (SecurityError ''InvalidExpression'' [] ''expression exceeds maximum length'')
      else let exprLower = ToLower expression in
      if containsAnySubstring exprLower dangerousPatterns
        then Inl (SecurityError ''InjectionAttempt'' [] ''expression contains dangerous pattern'')
      else if containsAnySubstring exprLower
           [''union select'', ''insert into'', ''update set'', ''delete from'',
            ''drop table'', ''alter table'', ''exec '', ''execute '']
        then Inl (SecurityError ''InjectionAttempt'' [] ''expression contains dangerous pattern'')
      else Inr ())"

definition tableChar :: "char \<Rightarrow> bool" where
  "tableChar c = (isLetter c \<or> isDigit c \<or> c = CHR ''_'' \<or> c = CHR ''.'' \<or> c = CHR ''-'')"

definition ValidateTableName :: "string \<Rightarrow> vresult" where
  "ValidateTableName name =
     (if length name < 3 \<or> length name > 255
        then Inl (SecurityError ''InvalidTableName'' [] ''table name length invalid'')
      else if \<not> (name \<noteq> [] \<and> list_all tableChar name)
        then Inl (SecurityError ''InvalidTableName'' [] ''table name contains invalid characters'')
      else if containsAnySubstring (ToLower name) dangerousPatterns
        then Inl (SecurityError ''InjectionAttempt'' [] ''table name contains dangerous pattern'')
      else Inr ())"

definition ValidateIndexName :: "string \<Rightarrow> vresult" where
  "ValidateIndexName name =
     (if name = [] then Inr ()
      else if length name < 3 \<or> length name > 255
        then Inl (SecurityError ''InvalidIndexName'' [] ''index name length invalid'')
      else if \<not> (name \<noteq> [] \<and> list_all tableChar name)
        then Inl (SecurityError ''InvalidIndexName'' [] ''index name contains invalid characters'')
      else Inr ())"

text \<open>The equations that evaluate the validators on concrete input.\<close>

lemmas validation_eval =
  ValidateValue_def ValidateFieldName_def ValidateOperator_def Let_def
  validateStringValue_def validateSliceWith_def validateMapWith_def mapKeyString_def
  validateBasicValue_def isBuiltInScalarSlice_def validateSliceLength_def
  kindOf_def elemOf_def isDefined_def lenOf_def
  validateFieldNameBasics_def validateFieldNameKeywords_def validateNestedFieldPath_def validateFieldPart_def
  containsAnySubstring_def looksLikeUnionSelectInjection_def isLegitimateFieldName_def
  isStandaloneOrSuspiciousKeyword_def
  fieldPattern_def indexPattern_def identStart_def identChar_def isLetter_def isUpper_def isLower_def isDigit_def
  lowerByte_def upperByte_def LastIndexByte_def HasSuffix_def HasPrefix_def TrimPrefix_def
  dangerousPatterns_def sqlKeywords_def valueScriptPatterns_def valueSQLInjectionPatterns_def allowedOperators_def
  legitimateFieldPatterns_def stampNames_def TrimSpace_def spaceSeqs_def trimSeqs.simps
  MaxFieldNameLength_def MaxOperatorLength_def MaxValueStringLength_def MaxNestedDepth_def MaxExpressionLength_def

section \<open>What an accepted field name is\<close>

text \<open>The grammar of one path component: an identifier, possibly with one list index.\<close>

definition pathPart :: "string \<Rightarrow> bool" where
  "pathPart p = (fieldPattern p \<or> (\<exists>n i. p = n @ ''['' @ i @ '']'' \<and> fieldPattern n \<and> indexPattern i))"

definition pathChar :: "char \<Rightarrow> bool" where
  "pathChar c = (identChar c \<or> c = CHR ''.'' \<or> c = CHR ''['' \<or> c = CHR '']'')"

definition suspiciousName :: "string \<Rightarrow> bool" where
  "suspiciousName field = (\<not> isLegitimateFieldName field \<and>
     list_ex (isStandaloneOrSuspiciousKeyword (ToLower field)) sqlKeywords)"

lemma identChar_simps: "identStart c \<Longrightarrow> identChar c" "isDigit c \<Longrightarrow> identChar c"
  "\<not> identChar (CHR ''['')" "\<not> identChar (CHR '']'')" "\<not> isDigit (CHR '']'')" "\<not> isDigit (CHR ''['')"
  by (auto simp: identStart_def identChar_def isLetter_def isUpper_def isLower_def isDigit_def)

lemma fieldPattern_chars: "fieldPattern s \<Longrightarrow> c \<in> set s \<Longrightarrow> identChar c"
  by (auto simp: fieldPattern_def list_all_iff identChar_simps split: list.splits)

lemma fieldPattern_nonempty: "fieldPattern s \<Longrightarrow> s \<noteq> []"
  by (auto simp: fieldPattern_def)

lemma pathPart_chars: "pathPart p \<Longrightarrow> c \<in> set p \<Longrightarrow> pathChar c"
  by (auto simp: pathPart_def pathChar_def indexPattern_def list_all_iff identChar_simps dest: fieldPattern_chars)

lemma IndexByte_first: "b \<notin> set n \<Longrightarrow> IndexByte (n @ b # s) b = Some (length n)"
  by (induction n) auto

lemma LastIndexByte_last: "LastIndexByte (s @ [b]) b = Some (length s)"
  by (simp add: LastIndexByte_def)

lemma bracket_split:
  assumes "IndexByte p b = Some i" "LastIndexByte p d = Some j" "i < j" "drop (j + 1) p = []"
  shows "p = take i p @ [b] @ drop (i + 1) (take j p) @ [d]"
proof -
  have i: "i < length p" "p ! i = b" using assms(1) by (auto dest: IndexByte_Some)
  have j: "j < length p" "p ! j = d" using assms(2) by (auto dest: LastIndexByte_Some)
  then have len: "length p = Suc j" using assms(4) by simp
  have "p = take j p @ [d]"
    using j len take_Suc_conv_app_nth[of j p] by simp
  moreover have "take j p = take i p @ b # drop (i + 1) (take j p)"
    using id_take_nth_drop[of i "take j p"] i assms(3) len by simp
  ultimately show ?thesis by (metis append.assoc append_Cons append_Nil)
qed

lemma validateFieldPart_iff: "validateFieldPart p = Inr () \<longleftrightarrow> pathPart p"
proof
  assume ok: "validateFieldPart p = Inr ()"
  show "pathPart p"
  proof (cases "IndexByte p (CHR ''['') = None \<or> LastIndexByte p (CHR '']'') = None")
    case True
    then have "fieldPattern p"
      using ok by (auto simp: validateFieldPart_def split: if_splits option.splits)
    then show ?thesis by (simp add: pathPart_def)
  next
    case False
    then obtain i j where ij: "IndexByte p (CHR ''['') = Some i" "LastIndexByte p (CHR '']'') = Some j" by auto
    then have *: "i < j" "fieldPattern (take i p)" "indexPattern (drop (i + 1) (take j p))" "drop (j + 1) p = []"
      using ok by (auto simp: validateFieldPart_def Let_def split: if_splits)
    show ?thesis using bracket_split[OF ij *(1,4)] *(2,3) unfolding pathPart_def by blast
  qed
next
  assume part: "pathPart p"
  show "validateFieldPart p = Inr ()"
  proof (cases "fieldPattern p")
    case True
    then have "CHR ''['' \<notin> set p" using fieldPattern_chars identChar_simps by blast
    then have "IndexByte p (CHR ''['') = None" by (simp add: IndexByte_None)
    then show ?thesis using True fieldPattern_nonempty[OF True] by (simp add: validateFieldPart_def)
  next
    case False
    then obtain n i where p: "p = n @ ''['' @ i @ '']''" "fieldPattern n" "indexPattern i"
      using part by (auto simp: pathPart_def)
    have "CHR ''['' \<notin> set n" using p(2) fieldPattern_chars identChar_simps by blast
    then have 1: "IndexByte p (CHR ''['') = Some (length n)" using p(1) by (simp add: IndexByte_first)
    have 2: "LastIndexByte p (CHR '']'') = Some (length n + 1 + length i)"
      using LastIndexByte_last[of "n @ ''['' @ i" "CHR '']''"] p(1) by simp
    show ?thesis using p 1 2 by (simp add: validateFieldPart_def Let_def)
  qed
qed

lemma keywordLoop_ok: "keywordLoop fl f ks = Inr () \<longleftrightarrow>
    (\<forall>k \<in> set ks. Contains fl k \<longrightarrow> isLegitimateFieldName f \<or> \<not> isStandaloneOrSuspiciousKeyword fl k)"
  by (induction ks) auto

lemma Contains_append: "Contains s (a @ b) \<Longrightarrow> Contains s a \<and> Contains s b"
  by (auto simp: Contains_sublist sublist_def) (metis append.assoc)+

lemma suspicious_contains: "isStandaloneOrSuspiciousKeyword fl k \<Longrightarrow> Contains fl k"
  using Contains_append[of fl k] Contains_append[of fl "[_]" k]
  by (auto simp: isStandaloneOrSuspiciousKeyword_def Contains_sublist)

lemma validateFieldNameKeywords_iff:
  "validateFieldNameKeywords (ToLower f) f = Inr () \<longleftrightarrow> \<not> suspiciousName f"
  using suspicious_contains[of "ToLower f"]
  by (auto simp: validateFieldNameKeywords_def keywordLoop_ok suspiciousName_def list_ex_iff)

text \<open>The set of bytes that path characters become in lower case holds no byte of a dangerous pattern.\<close>

lemma pathChar_lower:
  assumes "pathChar c" shows "lowerByte c \<notin> {sq, dq, CHR '';'', CHR ''-'', CHR ''/'', CHR ''*'', CHR ''<'', CHR ''(''}"
proof -
  have "byteOf (lowerByte c) \<notin> {0x27, 0x22, 0x3B, 0x2D, 0x2F, 0x2A, 0x3C, 0x28}"
    using assms by (auto simp: pathChar_def identChar_def isLetter_def isUpper_def isLower_def isDigit_def lowerByte_def)
  then show ?thesis by fastforce
qed

lemma pathChar_ascii: "pathChar c \<Longrightarrow> 32 < byteOf c \<and> byteOf c < 127"
  by (auto simp: pathChar_def identChar_def isLetter_def isUpper_def isLower_def isDigit_def)

lemma Contains_set: "Contains s n \<Longrightarrow> set n \<subseteq> set s"
  by (simp add: Contains_sublist set_mono_sublist)

lemma path_not_dangerous:
  assumes "list_all pathChar f"
  shows "\<not> containsAnySubstring (ToLower f) dangerousPatterns"
proof
  let ?bad = "{sq, dq, CHR '';'', CHR ''-'', CHR ''/'', CHR ''*'', CHR ''<'', CHR ''(''}"
  assume "containsAnySubstring (ToLower f) dangerousPatterns"
  then obtain n where n: "n \<in> set dangerousPatterns" "Contains (ToLower f) n"
    by (auto simp: containsAnySubstring_def list_ex_iff)
  have "set n \<inter> ?bad \<noteq> {}" using n(1) by (auto simp: dangerousPatterns_def)
  moreover have "ToLower f = map lowerByte f"
    using assms pathChar_ascii by (intro ToLower_ASCII) (fastforce simp: list_all_iff)
  ultimately obtain c where "c \<in> set f" "lowerByte c \<in> ?bad"
    using Contains_set[OF n(2)] by auto
  then show False using assms pathChar_lower[of c] by (auto simp: list_all_iff)
qed

lemma path_no_control: "list_all pathChar f \<Longrightarrow> \<not> containsControlCharacters f"
proof (induction f)
  case (Cons c f)
  then show ?case using pathChar_ascii[of c] by auto
qed simp

definition wellFormedPath :: "string \<Rightarrow> bool" where
  "wellFormedPath f = (f \<noteq> [] \<and> length f \<le> 255 \<and> length (SplitByte (CHR ''.'') f) \<le> 32
     \<and> (\<forall>p \<in> set (SplitByte (CHR ''.'') f). pathPart p))"

lemma SplitByte_absent: "b \<notin> set s \<Longrightarrow> SplitByte b s = [s]"
  by (induction s) auto

lemma wellFormedPath_chars:
  assumes "wellFormedPath f" shows "list_all pathChar f"
proof -
  have "pathChar c" if "c \<in> set f" for c
    using SplitByte_covers[OF that, of "CHR ''.''"] assms pathPart_chars
    by (auto simp: wellFormedPath_def pathChar_def)
  then show ?thesis by (simp add: list_all_iff)
qed

lemma validateNestedFieldPath_iff:
  "validateNestedFieldPath f = Inr () \<longleftrightarrow>
     length (SplitByte (CHR ''.'') f) \<le> 32 \<and> (\<forall>p \<in> set (SplitByte (CHR ''.'') f). pathPart p)"
  by (auto simp: validateNestedFieldPath_def Let_def MaxNestedDepth_def validateFieldPart_iff)

lemma path_tail_iff:
  "(if Contains f ''.'' then validateNestedFieldPath f else validateFieldPart f) = Inr () \<longleftrightarrow>
     length (SplitByte (CHR ''.'') f) \<le> 32 \<and> (\<forall>p \<in> set (SplitByte (CHR ''.'') f). pathPart p)"
  by (auto simp: validateNestedFieldPath_iff validateFieldPart_iff SplitByte_absent)

lemma ValidateFieldName_accepts:
  "ValidateFieldName f = Inr () \<longleftrightarrow> wellFormedPath f \<and> \<not> suspiciousName f"
proof
  assume ok: "ValidateFieldName f = Inr ()"
  have basics: "validateFieldNameBasics f = Inr ()"
    using ok by (cases "validateFieldNameBasics f") (auto simp: ValidateFieldName_def)
  have kws: "validateFieldNameKeywords (ToLower f) f = Inr ()"
    using ok basics by (cases "validateFieldNameKeywords (ToLower f) f")
      (auto simp: ValidateFieldName_def Let_def split: if_splits)
  have "(if Contains f ''.'' then validateNestedFieldPath f else validateFieldPart f) = Inr ()"
    using ok basics kws by (simp add: ValidateFieldName_def Let_def split: if_splits)
  then show "wellFormedPath f \<and> \<not> suspiciousName f"
    using basics kws path_tail_iff[of f]
    by (simp add: wellFormedPath_def validateFieldNameBasics_def MaxFieldNameLength_def
        validateFieldNameKeywords_iff split: if_splits)
next
  assume wf: "wellFormedPath f \<and> \<not> suspiciousName f"
  have basics: "validateFieldNameBasics f = Inr ()"
    using wf by (simp add: wellFormedPath_def validateFieldNameBasics_def MaxFieldNameLength_def)
  have "\<not> containsAnySubstring (ToLower f) dangerousPatterns" "\<not> containsControlCharacters f"
    using wf wellFormedPath_chars path_not_dangerous path_no_control by blast+
  moreover have "validateFieldNameKeywords (ToLower f) f = Inr ()"
    using wf by (simp add: validateFieldNameKeywords_iff)
  moreover have "(if Contains f ''.'' then validateNestedFieldPath f else validateFieldPart f) = Inr ()"
    using wf path_tail_iff[of f] by (simp add: wellFormedPath_def)
  ultimately show "ValidateFieldName f = Inr ()"
    using basics by (simp add: ValidateFieldName_def Let_def)
qed

text \<open>C3. \<open>ValidateFieldName\<close> accepts exactly the dotted paths of the documented grammar (identifiers with at
  most one numeric list index each, at most 255 bytes and 32 components) that are not suspicious
  uses of an SQL keyword; in particular every accepted name is made of letters, digits, underscores,
  dots and brackets only, so nothing outside that alphabet reaches an expression.\<close>

theorem ValidateFieldName_iff:
  "ValidateFieldName f = Inr () \<longleftrightarrow> wellFormedPath f \<and> list_all pathChar f \<and> \<not> suspiciousName f"
  using ValidateFieldName_accepts wellFormedPath_chars by blast

section \<open>What an accepted value is\<close>

text \<open>The plain strings and the map keys inside a value, through any nesting of \<open>[]any\<close>,
  \<open>map[string]any\<close>, \<open>map[string]string\<close> and \<open>map[string]int\<close>.\<close>

fun plainStrings :: "gtype \<Rightarrow> gval \<Rightarrow> string list" where
  "plainStrings t (VString s) = (if t = TString then [s] else [])"
| "plainStrings t (VIface (Some (u, w))) = plainStrings u w"
| "plainStrings t (VSlice xs) = (if t = TSlice TAny then concat (map (\<lambda>x. plainStrings TAny x) xs) else [])"
| "plainStrings t (VMap m) =
     (if t = TMap TString TAny then concat (map (\<lambda>p. plainStrings TAny (snd p)) m)
      else if t = TMap TString TString then concat (map (\<lambda>p. plainStrings TString (snd p)) m) else [])"
| "plainStrings t v = []"

fun mapKeysIn :: "gtype \<Rightarrow> gval \<Rightarrow> string list" where
  "mapKeysIn t (VIface (Some (u, w))) = mapKeysIn u w"
| "mapKeysIn t (VSlice xs) = (if t = TSlice TAny then concat (map (\<lambda>x. mapKeysIn TAny x) xs) else [])"
| "mapKeysIn t (VMap m) =
     (if t = TMap TString TAny
        then map (\<lambda>p. mapKeyString (fst p)) m @ concat (map (\<lambda>p. mapKeysIn TAny (snd p)) m)
      else if t = TMap TString TString \<or> t = TMap TString (TInt IntN)
        then map (\<lambda>p. mapKeyString (fst p)) m else [])"
| "mapKeysIn t v = []"

lemma validateEntries_ok: "validateEntries es = Inr () \<longleftrightarrow>
    (\<forall>e \<in> set es. ValidateFieldName (fst e) = Inr () \<and> snd e = Inr ())"
  by (induction es rule: validateEntries.induct) (auto split: sum.splits)

lemma validateMapWith_ok: "validateMapWith check m = Inr () \<longleftrightarrow>
    length m \<le> 100 \<and> (\<forall>p \<in> set m. ValidateFieldName (mapKeyString (fst p)) = Inr () \<and> check (snd p) = Inr ())"
  by (auto simp: validateMapWith_def validateEntries_ok)

lemma validateSliceWith_ok: "validateSliceWith check xs = Inr () \<longleftrightarrow>
    length xs \<le> 100 \<and> (\<forall>x \<in> set xs. check x = Inr ())"
  by (auto simp: validateSliceWith_def)

lemma validateTyped_strings:
  "validateTyped t v = Inr () \<Longrightarrow> s \<in> set (plainStrings t v) \<Longrightarrow> validateStringValue s = Inr ()"
  by (induction t v arbitrary: s rule: plainStrings.induct)
     (auto simp: validateSliceWith_ok validateMapWith_ok split: if_splits)

lemma validateTyped_keys:
  "validateTyped t v = Inr () \<Longrightarrow> k \<in> set (mapKeysIn t v) \<Longrightarrow> ValidateFieldName k = Inr ()"
  by (induction t v arbitrary: k rule: mapKeysIn.induct)
     (auto simp: validateSliceWith_ok validateMapWith_ok split: if_splits)

lemma validateStringValue_ok:
  "validateStringValue s = Inr () \<Longrightarrow> length s \<le> 400000
     \<and> (\<forall>p \<in> set (valueScriptPatterns @ valueSQLInjectionPatterns). \<not> Contains (ToLower s) p)"
  by (auto simp: validateStringValue_def Let_def MaxValueStringLength_def containsAnySubstring_def list_ex_iff
      split: if_splits)

text \<open>C4. If \<open>ValidateValue\<close> accepts a value, then no plain string inside it, at any depth of untyped
  slices and maps, is longer than 400000 bytes or contains one of the script or SQL-injection patterns in any
  letter case, and every key of such a map is a valid field name.\<close>

theorem ValidateValue_sound:
  assumes "ValidateValue (Some (t, v)) = Inr ()"
  shows "(\<forall>s \<in> set (plainStrings t v). length s \<le> 400000
           \<and> (\<forall>p \<in> set (valueScriptPatterns @ valueSQLInjectionPatterns). \<not> Contains (ToLower s) p))
    \<and> (\<forall>k \<in> set (mapKeysIn t v). wellFormedPath k \<and> \<not> suspiciousName k)"
proof (intro conjI ballI)
  have ok: "validateTyped t v = Inr ()" using assms by (simp add: ValidateValue_def)
  show "length s \<le> 400000" if "s \<in> set (plainStrings t v)" for s
    using validateStringValue_ok[OF validateTyped_strings[OF ok that]] by blast
  show "\<not> Contains (ToLower s) p"
    if "s \<in> set (plainStrings t v)" "p \<in> set (valueScriptPatterns @ valueSQLInjectionPatterns)" for s p
    using validateStringValue_ok[OF validateTyped_strings[OF ok that(1)]] that(2) by blast
  fix k assume "k \<in> set (mapKeysIn t v)"
  then show "wellFormedPath k" "\<not> suspiciousName k"
    using validateTyped_keys[OF ok] ValidateFieldName_accepts by blast+
qed

theorem ValidateValue_sound_witness:
  "ValidateValue (Some (TMap TString TAny, VMap [(VString ''tags'', VIface (Some (TSlice TAny,
      VSlice [VIface (Some (TString, VString ''blue''))])))])) = Inr ()
   \<and> wellFormedPath ''tags'' \<and> length ''blue'' \<le> (400000::nat)"
proof -
  let ?v = "VMap [(VString ''tags'', VIface (Some (TSlice TAny, VSlice [VIface (Some (TString, VString ''blue''))])))]"
  have ok: "ValidateValue (Some (TMap TString TAny, ?v)) = Inr ()" by (simp add: validation_eval)
  show ?thesis
    using ok ValidateValue_sound[OF ok] by (simp add: mapKeyString_def)
qed

section \<open>Values the string checks never see\<close>

text \<open>The type switch matches only the type \<open>string\<close> itself: a string behind a pointer or of a defined string
  type is accepted whatever it holds.\<close>

theorem ValidateValue_pointer_unchecked:
  "ValidateValue (Some (TPtr TString, VPtr (Some (VString s)))) = Inr ()
   \<and> ValidateValue (Some (TNamed n TString, VString s)) = Inr ()"
  by (simp add: ValidateValue_def validateBasicValue_def isBuiltInScalarSlice_def kindOf_def elemOf_def)

text \<open>A \<open>[]byte\<close> is a scalar slice to the validator, so the limit of 100 elements meant for \<open>IN\<close> lists
  rejects every binary value of more than 100 bytes.\<close>

theorem ValidateValue_bytes:
  "ValidateValue (Some (TSlice (TUint Uint8), VBytes b)) =
     (if length b > 100 then Inl (SecurityError ''InvalidValue'' [] ''slice value exceeds maximum length'')
      else Inr ())"
  by (simp add: ValidateValue_def isBuiltInScalarSlice_def kindOf_def elemOf_def isDefined_def lenOf_def
      validateSliceLength_def)

end
