(* ===== verification/Converter.thy ===== *)
theory Converter
  imports GoReflect
begin

text \<open>
  \<open>internal/expr/converter.go\<close>: the conversion of Go values to DynamoDB attribute values and back.
  Conversion is a function on a type and a value of that type; writing into a target
  (\<open>reflect.Value.Set...\<close>) is a function from the old value of the target to the new one.  On an error only the error is
  kept, not what was already written to the target.  A call of package \<open>reflect\<close> that panics is the
  error \<open>Panic\<close>.  What lies outside the repository is the record \<open>convenv\<close>: the custom
  \<open>Marshaler\<close> and \<open>Unmarshaler\<close> methods of the caller's types, decimal to binary float conversion and the RFC 3339 parser.
  The main result is that converting a value and converting the result back gives the value.
\<close>

datatype cerror =
    UnsupportedType | UnsupportedMapType | CustomError string
  | FieldError string cerror | ItemError nat cerror | KeyError string cerror
  | CannotUnmarshal string | ParseError | TimeParseError | MapKeysNotString | BadTarget
  | CannotParseNumber string | CannotParseNumberInSet string | Panic

record convenv =
  marshaler :: "gtype \<Rightarrow> gval \<Rightarrow> (string, attrval) result option"
  unmarshaler :: "gtype \<Rightarrow> (attrval \<Rightarrow> gval \<Rightarrow> (string, gval) result) option"
  parseFloat :: "string \<Rightarrow> string option"
  roundFloat32 :: "string \<Rightarrow> string"
  parseTime :: "string \<Rightarrow> string option"

section \<open>Tags\<close>

fun parseAttrParts :: "string list \<Rightarrow> string" where
  "parseAttrParts [] = []"
| "parseAttrParts (part # parts) =
     (let part = TrimSpace part in
      if HasPrefix part ''attr:'' then TrimPrefix part ''attr:'' else parseAttrParts parts)"

definition parseAttrTag :: "string \<Rightarrow> string" where
  "parseAttrTag tag = parseAttrParts (SplitByte (CHR '','') tag)"

definition hasOmitEmpty :: "string \<Rightarrow> bool" where
  "hasOmitEmpty tag = Contains tag ''omitempty''"

definition isPureModifierTag :: "string \<Rightarrow> bool" where
  "isPureModifierTag tag = (tag \<in> set [''pk'', ''sk'', ''version'', ''ttl'', ''set'', ''omitempty'', ''binary'', ''json'', ''encrypted''])"

definition fieldNameFromTheorydbTag :: "string \<Rightarrow> string \<Rightarrow> string" where
  "fieldNameFromTheorydbTag defaultName tag =
     (let firstPart = hd (SplitByte (CHR '','') tag);
          fieldName = (if firstPart \<noteq> [] \<and> \<not> Contains firstPart '':'' \<and> \<not> isPureModifierTag firstPart
                       then firstPart else defaultName);
          attrName = parseAttrTag tag
      in if attrName \<noteq> [] then attrName else fieldName)"

definition fieldNameFromJSONTag :: "string \<Rightarrow> string \<Rightarrow> string" where
  "fieldNameFromJSONTag defaultName jsonTag =
     (let firstPart = hd (SplitByte (CHR '','') jsonTag) in
      if firstPart \<noteq> [] then firstPart else defaultName)"

text \<open>\<open>None\<close> is the result \<open>ok = false\<close>: the field is skipped.\<close>

definition marshalFieldNameAndTags :: "'t sfield \<Rightarrow> (string \<times> string \<times> string) option" where
  "marshalFieldNameAndTags f =
     (if sfTag f = ''-'' \<or> sfJson f = ''-'' then None
      else let fieldName = (if sfTag f \<noteq> [] then fieldNameFromTheorydbTag (sfName f) (sfTag f)
                            else if sfJson f \<noteq> [] then fieldNameFromJSONTag (sfName f) (sfJson f)
                            else sfName f)
           in Some (fieldName, sfTag f, sfJson f))"

definition unmarshalFieldName :: "'t sfield \<Rightarrow> string" where
  "unmarshalFieldName f =
     (if sfTag f \<noteq> [] \<and> sfTag f \<noteq> ''-'' then fieldNameFromTheorydbTag (sfName f) (sfTag f)
      else if sfJson f \<noteq> [] \<and> sfJson f \<noteq> ''-'' then fieldNameFromJSONTag (sfName f) (sfJson f)
      else sfName f)"

definition isZeroValue :: "gval \<Rightarrow> bool" where
  "isZeroValue v = (case v of
      VArray xs \<Rightarrow> length xs = 0 | VMap m \<Rightarrow> length m = 0 | VSlice xs \<Rightarrow> length xs = 0
    | VBytes b \<Rightarrow> length b = 0 | VString s \<Rightarrow> length s = 0
    | VBool b \<Rightarrow> \<not> b | VInt i \<Rightarrow> i = 0 | VUint n \<Rightarrow> n = 0
    | VFloat f \<Rightarrow> f = ''0'' \<or> f = ''-0''
    | VIface d \<Rightarrow> d = None | VPtr p \<Rightarrow> p = None
    | _ \<Rightarrow> False)"

definition shouldOmitEmptyField :: "gval \<Rightarrow> string \<Rightarrow> string \<Rightarrow> bool" where
  "shouldOmitEmptyField v theorydbTag jsonTag =
     (if \<not> hasOmitEmpty theorydbTag \<and> \<not> Contains jsonTag ''omitempty'' then False else isZeroValue v)"

section \<open>Go value to attribute value\<close>

text \<open>The loops of \<open>convertStructToAttributeValue\<close> and \<open>convertMapToAttributeValue\<close>, over the conversion of one value.\<close>

fun convertFieldsWith ::
  "(gtype \<Rightarrow> gval \<Rightarrow> (cerror, attrval) result) \<Rightarrow> gtype sfield list \<Rightarrow> gval list \<Rightarrow> item \<Rightarrow> (cerror, item) result" where
  "convertFieldsWith conv (f # fs) (v # vs) m =
     (if \<not> sfExported f then convertFieldsWith conv fs vs m
      else case marshalFieldNameAndTags f of
        None \<Rightarrow> convertFieldsWith conv fs vs m
      | Some (fieldName, theorydbTag, jsonTag) \<Rightarrow>
          (if shouldOmitEmptyField v theorydbTag jsonTag then convertFieldsWith conv fs vs m
           else case conv (sfType f) v of
             Inl e \<Rightarrow> Inl (FieldError (sfName f) e)
           | Inr av \<Rightarrow> convertFieldsWith conv fs vs (AList.update fieldName av m)))"
| "convertFieldsWith conv _ _ m = Inr m"

fun convertEntriesWith ::
  "(gval \<Rightarrow> (cerror, attrval) result) \<Rightarrow> (gval \<times> gval) list \<Rightarrow> item \<Rightarrow> (cerror, item) result" where
  "convertEntriesWith conv [] m = Inr m"
| "convertEntriesWith conv ((k, v) # es) m =
     (case conv v of Inl e \<Rightarrow> Inl e
      | Inr av \<Rightarrow> convertEntriesWith conv es
          (AList.update (case k of VString s \<Rightarrow> s | _ \<Rightarrow> []) av m))"

lemma convertFieldsWith_cong [fundef_cong]:
  "fs = fs' \<Longrightarrow> vs = vs' \<Longrightarrow> m = m' \<Longrightarrow> (\<And>t v. v \<in> set vs' \<Longrightarrow> conv t v = conv' t v)
   \<Longrightarrow> convertFieldsWith conv fs vs m = convertFieldsWith conv' fs' vs' m'"
  by (induction conv fs vs m arbitrary: fs' vs' m' rule: convertFieldsWith.induct)
     (auto split: option.splits sum.splits)

lemma convertEntriesWith_cong [fundef_cong]:
  "es = es' \<Longrightarrow> m = m' \<Longrightarrow> (\<And>e. e \<in> set es' \<Longrightarrow> conv (snd e) = conv' (snd e))
   \<Longrightarrow> convertEntriesWith conv es m = convertEntriesWith conv' es' m'"
proof -
  assume *: "es = es'" "m = m'" "\<And>e. e \<in> set es' \<Longrightarrow> conv (snd e) = conv' (snd e)"
  have "\<forall>e \<in> set es'. conv (snd e) = conv' (snd e) \<Longrightarrow> convertEntriesWith conv es' m' = convertEntriesWith conv' es' m'"
    by (induction conv es' m' rule: convertEntriesWith.induct) (auto split: sum.splits)
  then show ?thesis using * by blast
qed

definition withMarshaler ::
  "convenv \<Rightarrow> gtype \<Rightarrow> gval \<Rightarrow> (cerror, attrval) result \<Rightarrow> (cerror, attrval) result" where
  "withMarshaler env t v r = (case marshaler env t v of Some c \<Rightarrow> mapErr CustomError c | None \<Rightarrow> r)"

fun convertTyped :: "convenv \<Rightarrow> gtype \<Rightarrow> gval \<Rightarrow> (cerror, attrval) result" where
  "convertTyped env t (VIface None) = Inr (AVNULL True)"
| "convertTyped env t (VIface (Some (u, w))) = convertTyped env u w"
| "convertTyped env t (VPtr None) = withMarshaler env t (VPtr None) (Inr (AVNULL True))"
| "convertTyped env t (VPtr (Some w)) = withMarshaler env t (VPtr (Some w)) (convertTyped env (elemOf t) w)"
| "convertTyped env t (VString s) = withMarshaler env t (VString s) (Inr (AVS s))"
| "convertTyped env t (VInt i) = withMarshaler env t (VInt i) (Inr (AVN (showInt i)))"
| "convertTyped env t (VUint n) = withMarshaler env t (VUint n) (Inr (AVN (showNat n)))"
| "convertTyped env t (VFloat f) = withMarshaler env t (VFloat f) (Inr (AVN f))"
| "convertTyped env t (VBool b) = withMarshaler env t (VBool b) (Inr (AVBOOL b))"
| "convertTyped env t (VBytes b) = withMarshaler env t (VBytes b) (Inr (AVB b))"
| "convertTyped env t (VSlice xs) = withMarshaler env t (VSlice xs)
     (case mapE (\<lambda>x. convertTyped env (elemOf t) x) xs of Inl e \<Rightarrow> Inl e | Inr l \<Rightarrow> Inr (AVL l))"
| "convertTyped env t (VMap m) = withMarshaler env t (VMap m)
     (if kindOf (keyTypeOf t) \<noteq> KString then Inl UnsupportedMapType
      else case convertEntriesWith (\<lambda>x. convertTyped env (elemOf t) x) m [] of
        Inl e \<Rightarrow> Inl e | Inr im \<Rightarrow> Inr (AVM im))"
| "convertTyped env t (VTime s) = withMarshaler env t (VTime s)
     (if t = TTime then Inr (AVS s) else Inr (AVM []))"
| "convertTyped env t (VStruct vs) = withMarshaler env t (VStruct vs)
     (case convertFieldsWith (\<lambda>u x. convertTyped env u x) (structFields t) vs [] of
        Inl e \<Rightarrow> Inl e | Inr im \<Rightarrow> Inr (AVM im))"
| "convertTyped env t (VArray xs) = withMarshaler env t (VArray xs) (Inl UnsupportedType)"
| "convertTyped env t VOpaque = withMarshaler env t VOpaque (Inl UnsupportedType)"

definition ConvertToAttributeValue :: "convenv \<Rightarrow> goany \<Rightarrow> (cerror, attrval) result" where
  "ConvertToAttributeValue env value =
     (case value of None \<Rightarrow> Inr (AVNULL True) | Some (t, v) \<Rightarrow> convertTyped env t v)"

section \<open>Attribute value to \<open>any\<close>\<close>

definition parseNumberString :: "convenv \<Rightarrow> string \<Rightarrow> (cerror, goany) result" where
  "parseNumberString env value =
     (case ParseInt64 value of Some i \<Rightarrow> Inr (Some (TInt Int64, VInt i))
      | None \<Rightarrow> (case parseFloat env value of Some f \<Rightarrow> Inr (Some (TFloat64, VFloat f))
                 | None \<Rightarrow> Inl (CannotParseNumber value)))"

text \<open>A loop that adds the index of the failing element to its error.\<close>

fun mapEIdx :: "nat \<Rightarrow> ('a \<Rightarrow> (cerror, 'b) result) \<Rightarrow> 'a list \<Rightarrow> (cerror, 'b list) result" where
  "mapEIdx i f [] = Inr []"
| "mapEIdx i f (x # xs) = (case f x of Inl e \<Rightarrow> Inl (ItemError i e)
     | Inr y \<Rightarrow> (case mapEIdx (i + 1) f xs of Inl e \<Rightarrow> Inl e | Inr ys \<Rightarrow> Inr (y # ys)))"

lemma mapEIdx_cong [fundef_cong]:
  "i = j \<Longrightarrow> xs = ys \<Longrightarrow> (\<And>x. x \<in> set ys \<Longrightarrow> f x = g x) \<Longrightarrow> mapEIdx i f xs = mapEIdx j g ys"
  by (induction i f xs arbitrary: j ys rule: mapEIdx.induct) (auto split: sum.splits)

fun mapEKey :: "('a \<Rightarrow> (cerror, 'b) result) \<Rightarrow> (string \<times> 'a) list \<Rightarrow> (cerror, (string \<times> 'b) list) result" where
  "mapEKey f [] = Inr []"
| "mapEKey f ((k, x) # xs) = (case f x of Inl e \<Rightarrow> Inl (KeyError k e)
     | Inr y \<Rightarrow> (case mapEKey f xs of Inl e \<Rightarrow> Inl e | Inr ys \<Rightarrow> Inr ((k, y) # ys)))"

lemma mapEKey_cong [fundef_cong]:
  "xs = ys \<Longrightarrow> (\<And>x. x \<in> set ys \<Longrightarrow> f (snd x) = g (snd x)) \<Longrightarrow> mapEKey f xs = mapEKey g ys"
proof -
  assume *: "xs = ys" "\<And>x. x \<in> set ys \<Longrightarrow> f (snd x) = g (snd x)"
  have "\<forall>x \<in> set ys. f (snd x) = g (snd x) \<Longrightarrow> mapEKey f ys = mapEKey g ys"
    by (induction f ys rule: mapEKey.induct) (auto split: sum.splits)
  then show ?thesis using * by blast
qed

definition attributeValueNumberSetToInterface :: "convenv \<Rightarrow> string list \<Rightarrow> (cerror, goany list) result" where
  "attributeValueNumberSetToInterface env values =
     mapE (\<lambda>value. mapErr (\<lambda>_. CannotParseNumberInSet value) (parseNumberString env value)) values"

fun attributeValueToInterface :: "convenv \<Rightarrow> attrval \<Rightarrow> (cerror, goany) result" where
  "attributeValueToInterface env (AVS s) = Inr (Some (TString, VString s))"
| "attributeValueToInterface env (AVN n) = parseNumberString env n"
| "attributeValueToInterface env (AVB b) = Inr (Some (TSlice (TUint Uint8), VBytes b))"
| "attributeValueToInterface env (AVBOOL b) = Inr (Some (TBool, VBool b))"
| "attributeValueToInterface env (AVNULL _) = Inr None"
| "attributeValueToInterface env (AVL l) =
     (case mapEIdx 0 (\<lambda>x. attributeValueToInterface env x) l of Inl e \<Rightarrow> Inl e
      | Inr vs \<Rightarrow> Inr (Some (TSlice TAny, VSlice (map VIface vs))))"
| "attributeValueToInterface env (AVM m) =
     (case mapEKey (\<lambda>x. attributeValueToInterface env x) m of Inl e \<Rightarrow> Inl e
      | Inr vs \<Rightarrow> Inr (Some (TMap TString TAny, VMap (map (\<lambda>(k, v). (VString k, VIface v)) vs))))"
| "attributeValueToInterface env (AVSS ss) = Inr (Some (TSlice TString, VSlice (map VString ss)))"
| "attributeValueToInterface env (AVNS ns) =
     (case attributeValueNumberSetToInterface env ns of Inl e \<Rightarrow> Inl e
      | Inr vs \<Rightarrow> Inr (Some (TSlice TAny, VSlice (map VIface vs))))"
| "attributeValueToInterface env (AVBS bs) =
     Inr (Some (TSlice (TSlice (TUint Uint8)), VSlice (map VBytes bs)))"

section \<open>Attribute value to a typed target\<close>

text \<open>\<open>reflect.Zero\<close>.\<close>

fun zeroOf :: "gtype \<Rightarrow> gval" where
  "zeroOf (TNamed n t) = zeroOf t"
| "zeroOf TString = VString []"
| "zeroOf (TInt s) = VInt 0"
| "zeroOf (TUint s) = VUint 0"
| "zeroOf TFloat32 = VFloat ''0''"
| "zeroOf TFloat64 = VFloat ''0''"
| "zeroOf TBool = VBool False"
| "zeroOf (TIface n) = VIface None"
| "zeroOf TTime = VTime ''0001-01-01T00:00:00Z''"
| "zeroOf (TStruct n fs) = VStruct (map (\<lambda>f. zeroOf (sfType f)) fs)"
| "zeroOf (TSlice e) = (if kindOf e = KUint8 then VBytes [] else VSlice [])"
| "zeroOf (TArray n e) = VArray (replicate n (zeroOf e))"
| "zeroOf (TMap k e) = VMap []"
| "zeroOf (TPtr e) = VPtr None"
| "zeroOf TFunc = VOpaque"
| "zeroOf TChan = VOpaque"
| "zeroOf TUnsafePointer = VOpaque"
| "zeroOf TUintptr = VOpaque"
| "zeroOf TComplex = VOpaque"

text \<open>A slice value of element type \<open>e\<close> made of its elements.\<close>

definition makeSlice :: "gtype \<Rightarrow> gval list \<Rightarrow> gval" where
  "makeSlice e vs = (if kindOf e = KUint8
     then VBytes (map (\<lambda>v. case v of VUint n \<Rightarrow> char_of n | _ \<Rightarrow> char_of (0::nat)) vs) else VSlice vs)"

text \<open>\<open>SetInt\<close> and \<open>SetUint\<close> keep the low bits.\<close>

definition wrapInt :: "nat \<Rightarrow> int \<Rightarrow> int" where
  "wrapInt bits i = (i + 2 ^ (bits - 1)) mod 2 ^ bits - 2 ^ (bits - 1)"

definition wrapUint :: "nat \<Rightarrow> nat \<Rightarrow> nat" where
  "wrapUint bits n = n mod 2 ^ bits"

definition unmarshalString :: "convenv \<Rightarrow> string \<Rightarrow> gtype \<Rightarrow> (cerror, gval) result" where
  "unmarshalString env s t =
     (case kindOf t of
        KString \<Rightarrow> Inr (VString s)
      | KStruct \<Rightarrow> (if t = TTime
           then (case parseTime env s of Some w \<Rightarrow> Inr (VTime w) | None \<Rightarrow> Inl TimeParseError)
           else Inl (CannotUnmarshal ''string''))
      | _ \<Rightarrow> Inl (CannotUnmarshal ''string''))"

definition unmarshalNumber :: "convenv \<Rightarrow> string \<Rightarrow> gtype \<Rightarrow> (cerror, gval) result" where
  "unmarshalNumber env n t =
     (case underlying t of
        TInt s \<Rightarrow> (case ParseInt64 n of None \<Rightarrow> Inl ParseError | Some i \<Rightarrow> Inr (VInt (wrapInt (intBits s) i)))
      | TUint s \<Rightarrow> (case ParseUint64 n of None \<Rightarrow> Inl ParseError | Some u \<Rightarrow> Inr (VUint (wrapUint (uintBits s) u)))
      | TFloat64 \<Rightarrow> (case parseFloat env n of None \<Rightarrow> Inl ParseError | Some f \<Rightarrow> Inr (VFloat f))
      | TFloat32 \<Rightarrow> (case parseFloat env n of None \<Rightarrow> Inl ParseError | Some f \<Rightarrow> Inr (VFloat (roundFloat32 env f)))
      | _ \<Rightarrow> Inl (CannotUnmarshal ''number''))"

definition unmarshalBinary :: "string \<Rightarrow> gtype \<Rightarrow> (cerror, gval) result" where
  "unmarshalBinary b t = (if kindOf t = KSlice \<and> kindOf (elemOf t) = KUint8 then Inr (VBytes b)
     else Inl (CannotUnmarshal ''binary''))"

definition unmarshalBool :: "bool \<Rightarrow> gtype \<Rightarrow> (cerror, gval) result" where
  "unmarshalBool b t = (if kindOf t = KBool then Inr (VBool b) else Inl (CannotUnmarshal ''bool''))"

definition unmarshalStringSet :: "string list \<Rightarrow> gtype \<Rightarrow> (cerror, gval) result" where
  "unmarshalStringSet ss t =
     (if kindOf t \<noteq> KSlice \<or> kindOf (elemOf t) \<noteq> KString then Inl (CannotUnmarshal ''string set'')
      else Inr (makeSlice (elemOf t) (map VString ss)))"

definition unmarshalNumberSet :: "convenv \<Rightarrow> string list \<Rightarrow> gtype \<Rightarrow> (cerror, gval) result" where
  "unmarshalNumberSet env ns t =
     (if kindOf t \<noteq> KSlice then Inl (CannotUnmarshal ''number set'')
      else case mapEIdx 0 (\<lambda>n. unmarshalNumber env n (elemOf t)) ns of
        Inl e \<Rightarrow> Inl e | Inr vs \<Rightarrow> Inr (makeSlice (elemOf t) vs))"

definition unmarshalBinarySet :: "string list \<Rightarrow> gtype \<Rightarrow> (cerror, gval) result" where
  "unmarshalBinarySet bs t =
     (if kindOf t \<noteq> KSlice \<or> kindOf (elemOf t) \<noteq> KSlice then Inl (CannotUnmarshal ''binary set'')
      else if bs \<noteq> [] \<and> kindOf (elemOf (elemOf t)) \<noteq> KUint8 then Inl Panic
      else Inr (VSlice (map VBytes bs)))"

definition unmarshalIntoEmptyInterface :: "convenv \<Rightarrow> attrval \<Rightarrow> (cerror, gval) result" where
  "unmarshalIntoEmptyInterface env av =
     (case attributeValueToInterface env av of Inl e \<Rightarrow> Inl e
      | Inr None \<Rightarrow> Inl Panic
      | Inr (Some d) \<Rightarrow> Inr (VIface (Some d)))"

text \<open>The loops of \<open>unmarshalMapIntoMap\<close> and \<open>unmarshalMapIntoStruct\<close>, over the unmarshalling of one value.\<close>

fun unmarshalEntriesWith ::
  "(attrval \<Rightarrow> (cerror, gval) result) \<Rightarrow> gtype \<Rightarrow> item \<Rightarrow> (gval \<times> gval) list \<Rightarrow> (cerror, (gval \<times> gval) list) result" where
  "unmarshalEntriesWith um k [] m = Inr m"
| "unmarshalEntriesWith um k ((key, av) # es) m =
     (case um av of Inl e \<Rightarrow> Inl (KeyError key e)
      | Inr v \<Rightarrow> (if k \<noteq> TString then Inl Panic
                  else unmarshalEntriesWith um k es (AList.update (VString key) v m)))"

fun unmarshalFieldsWith ::
  "(attrval \<Rightarrow> gtype \<Rightarrow> gval \<Rightarrow> (cerror, gval) result) \<Rightarrow> item \<Rightarrow> gtype sfield list \<Rightarrow> gval list
   \<Rightarrow> (cerror, gval list) result" where
  "unmarshalFieldsWith um m (f # fs) (old # olds) =
     (let rest = unmarshalFieldsWith um m fs olds;
          this = (if \<not> sfExported f then Inr old
                  else if unmarshalFieldName f = [] then Inr old
                  else case map_of m (unmarshalFieldName f) of None \<Rightarrow> Inr old
                    | Some av \<Rightarrow> mapErr (FieldError (sfName f)) (um av (sfType f) old))
      in case this of Inl e \<Rightarrow> Inl e
         | Inr v \<Rightarrow> (case rest of Inl e \<Rightarrow> Inl e | Inr vs \<Rightarrow> Inr (v # vs)))"
| "unmarshalFieldsWith um m _ olds = Inr olds"

lemma unmarshalEntriesWith_cong [fundef_cong]:
  "k = k' \<Longrightarrow> es = es' \<Longrightarrow> m = m' \<Longrightarrow> (\<And>e. e \<in> set es' \<Longrightarrow> um (snd e) = um' (snd e))
   \<Longrightarrow> unmarshalEntriesWith um k es m = unmarshalEntriesWith um' k' es' m'"
proof -
  assume *: "k = k'" "es = es'" "m = m'" "\<And>e. e \<in> set es' \<Longrightarrow> um (snd e) = um' (snd e)"
  have "\<forall>e \<in> set es'. um (snd e) = um' (snd e)
    \<Longrightarrow> unmarshalEntriesWith um k' es' m' = unmarshalEntriesWith um' k' es' m'"
    by (induction um k' es' m' rule: unmarshalEntriesWith.induct) (auto split: sum.splits)
  then show ?thesis using * by blast
qed

lemma unmarshalFieldsWith_cong [fundef_cong]:
  assumes "m = m'" "fs = fs'" "olds = olds'" "\<And>k av t old. map_of m' k = Some av \<Longrightarrow> um av t old = um' av t old"
  shows "unmarshalFieldsWith um m fs olds = unmarshalFieldsWith um' m' fs' olds'"
proof -
  have "\<forall>k av. map_of m' k = Some av \<longrightarrow> (\<forall>t old. um av t old = um' av t old)
    \<Longrightarrow> unmarshalFieldsWith um m' fs olds = unmarshalFieldsWith um' m' fs olds"
    by (induction um m' fs olds rule: unmarshalFieldsWith.induct) (simp_all split: option.splits)
  then show ?thesis using assms by blast
qed

lemma size_underlying [termination_simp]: "size (underlying t) \<le> size t"
  by (induction t) auto

definition ptrElem :: "gtype \<Rightarrow> gtype option" where
  "ptrElem t = (case underlying t of TPtr e \<Rightarrow> Some e | _ \<Rightarrow> None)"

lemma ptrElem_size [termination_simp]: "ptrElem t = Some e \<Longrightarrow> size e < size t"
  using size_underlying[of t] by (auto simp: ptrElem_def split: gtype.splits)

lemma map_of_size [termination_simp]:
  "map_of m k = Some av \<Longrightarrow> size av < Suc (size_list (size_prod (\<lambda>x. 0) size) m)"
  by (induction m) (auto split: if_splits)

lemma size_item_less: "(k, av) \<in> set m \<Longrightarrow> size av < Suc (size_list (size_prod (\<lambda>x. 0) size) m)"
  by (induction m) auto

function unmarshalTyped :: "convenv \<Rightarrow> attrval \<Rightarrow> gtype \<Rightarrow> gval \<Rightarrow> (cerror, gval) result" where
  "unmarshalTyped env av t old =
     (case ptrElem t of
        Some e \<Rightarrow>
          (if isNullAttributeValue av then Inr (VPtr None)
           else case unmarshalTyped env av e (case old of VPtr (Some w) \<Rightarrow> w | _ \<Rightarrow> zeroOf e) of
             Inl err \<Rightarrow> Inl err | Inr w \<Rightarrow> Inr (VPtr (Some w)))
      | None \<Rightarrow>
         (if underlying t = TIface 0 then unmarshalIntoEmptyInterface env av
          else case av of
            AVS s \<Rightarrow> unmarshalString env s t
          | AVN n \<Rightarrow> unmarshalNumber env n t
          | AVB b \<Rightarrow> unmarshalBinary b t
          | AVBOOL b \<Rightarrow> unmarshalBool b t
          | AVNULL _ \<Rightarrow> Inr (zeroOf t)
          | AVL l \<Rightarrow>
              (if kindOf t \<noteq> KSlice then Inl (CannotUnmarshal ''list'')
               else case mapEIdx 0 (\<lambda>x. unmarshalTyped env x (elemOf t) (zeroOf (elemOf t))) l of
                 Inl e \<Rightarrow> Inl e | Inr vs \<Rightarrow> Inr (makeSlice (elemOf t) vs))
          | AVM m \<Rightarrow>
              (case kindOf t of
                 KMap \<Rightarrow>
                   (if kindOf (keyTypeOf t) \<noteq> KString then Inl MapKeysNotString
                    else case unmarshalEntriesWith (\<lambda>x. unmarshalTyped env x (elemOf t) (zeroOf (elemOf t)))
                                (keyTypeOf t) m (case old of VMap em \<Rightarrow> em | _ \<Rightarrow> []) of
                      Inl e \<Rightarrow> Inl e | Inr nm \<Rightarrow> Inr (VMap nm))
               | KStruct \<Rightarrow>
                   (case old of
                      VStruct vs \<Rightarrow>
                        (case unmarshalFieldsWith (\<lambda>a ft prev. unmarshalTyped env a ft prev) m (structFields t) vs of
                           Inl e \<Rightarrow> Inl e | Inr ws \<Rightarrow> Inr (VStruct ws))
                    | _ \<Rightarrow> Inr old)
               | _ \<Rightarrow> Inl (CannotUnmarshal ''map''))
          | AVSS ss \<Rightarrow> unmarshalStringSet ss t
          | AVNS ns \<Rightarrow> unmarshalNumberSet env ns t
          | AVBS bs \<Rightarrow> unmarshalBinarySet bs t))"
  by pat_completeness auto
termination
  by (relation "measures [\<lambda>(env, av, t, old). size av, \<lambda>(env, av, t, old). size t]")
     (auto simp: ptrElem_size size_list_mem_less size_item_less dest: map_of_size)

declare unmarshalTyped.simps [simp del]

definition ConvertFromAttributeValue :: "convenv \<Rightarrow> attrval \<Rightarrow> goany \<Rightarrow> (cerror, gval) result" where
  "ConvertFromAttributeValue env av target =
     (case target of
        Some (t, VPtr (Some old)) \<Rightarrow>
          (if kindOf t \<noteq> KPointer then Inl BadTarget
           else case unmarshaler env t of
             Some um \<Rightarrow> mapErr CustomError (um av old)
           | None \<Rightarrow> unmarshalTyped env av (elemOf t) old)
      | _ \<Rightarrow> Inl BadTarget)"

section \<open>Round trip\<close>

text \<open>The types whose values survive the round trip: no interface (a number comes back as \<open>int64\<close>), no array,
  no pointer to a pointer, no 32-bit float, maps keyed by \<open>string\<close> itself, structs whose fields are exported and have distinct
  attribute names.\<close>

fun rtType :: "gtype \<Rightarrow> bool" where
  "rtType (TNamed n t) = (rtType t \<and> underlying t \<noteq> TTime)"
| "rtType (TStruct n fs) =
     (list_all (\<lambda>f. sfExported f \<and> sfTag f \<noteq> ''-'' \<and> sfJson f \<noteq> ''-'' \<and> sfName f \<noteq> [] \<and> rtType (sfType f)) fs
      \<and> distinct (map unmarshalFieldName fs))"
| "rtType (TSlice e) = (kindOf e = KUint8 \<or> rtType e)"
| "rtType (TMap k e) = (k = TString \<and> rtType e)"
| "rtType (TPtr e) = (kindOf e \<noteq> KPointer \<and> rtType e)"
| "rtType t = (t \<in> {TString, TFloat64, TBool, TTime} \<or> (\<exists>s. t = TInt s) \<or> (\<exists>s. t = TUint s))"

text \<open>The leaves that depend on the float and time parsers: their text is read back as itself.\<close>

fun leavesOk :: "convenv \<Rightarrow> gval \<Rightarrow> bool" where
  "leavesOk env (VFloat f) = (parseFloat env f = Some f \<and> f \<noteq> ''-0'')"
| "leavesOk env (VTime s) = (parseTime env s = Some s)"
| "leavesOk env (VStruct vs) = list_all (leavesOk env) vs"
| "leavesOk env (VSlice vs) = list_all (leavesOk env) vs"
| "leavesOk env (VMap m) = list_all (\<lambda>p. leavesOk env (snd p)) m"
| "leavesOk env (VPtr (Some v)) = leavesOk env v"
| "leavesOk env v = True"

definition noMarshalers :: "convenv \<Rightarrow> bool" where
  "noMarshalers env = (\<forall>t v. marshaler env t v = None)"

text \<open>What the induction shows of one value.\<close>

definition survives :: "convenv \<Rightarrow> gtype \<Rightarrow> gval \<Rightarrow> bool" where
  "survives env t v = (\<exists>av. convertTyped env t v = Inr av \<and> unmarshalTyped env av t (zeroOf t) = Inr v
      \<and> (kindOf t \<noteq> KPointer \<longrightarrow> \<not> isNullAttributeValue av))"

lemma withMarshaler_none [simp]: "noMarshalers env \<Longrightarrow> withMarshaler env t v r = r"
  by (simp add: noMarshalers_def withMarshaler_def)

lemma underlying_idem [simp]: "underlying (underlying t) = underlying t"
  by (induction t) auto

lemma named_simps [simp]:
  "kindOf (TNamed n t) = kindOf t" "elemOf (TNamed n t) = elemOf t" "keyTypeOf (TNamed n t) = keyTypeOf t"
  "structFields (TNamed n t) = structFields t" "ptrElem (TNamed n t) = ptrElem t"
  by (simp_all add: kindOf_def elemOf_def keyTypeOf_def structFields_def ptrElem_def)

lemma convertTyped_named:
  assumes "noMarshalers env" "underlying t \<noteq> TTime"
  shows "convertTyped env (TNamed n t) v = convertTyped env t v"
proof (cases v)
  case (VIface d)
  then show ?thesis by (cases d) auto
next
  case (VPtr d)
  then show ?thesis using assms by (cases d) auto
qed (use assms in auto)

lemma leaf_named [simp]:
  "unmarshalNumber env m (TNamed n t) = unmarshalNumber env m t"
  "unmarshalBinary b (TNamed n t) = unmarshalBinary b t"
  "unmarshalBool c (TNamed n t) = unmarshalBool c t"
  "unmarshalStringSet ss (TNamed n t) = unmarshalStringSet ss t"
  "unmarshalNumberSet env ns (TNamed n t) = unmarshalNumberSet env ns t"
  "unmarshalBinarySet bs (TNamed n t) = unmarshalBinarySet bs t"
  unfolding unmarshalNumber_def unmarshalBinary_def unmarshalBool_def
    unmarshalStringSet_def unmarshalNumberSet_def unmarshalBinarySet_def named_simps underlying.simps
  by (rule refl)+

lemma unmarshalString_named:
  "underlying t \<noteq> TTime \<Longrightarrow> unmarshalString env s (TNamed n t) = unmarshalString env s t"
  by (cases t) (auto simp: unmarshalString_def split: gkind.splits)

lemma unmarshalTyped_named:
  assumes "underlying t \<noteq> TTime"
  shows "unmarshalTyped env av (TNamed n t) old = unmarshalTyped env av t old"
  unfolding unmarshalTyped.simps[of env av "TNamed n t" old] unmarshalTyped.simps[of env av t old]
    named_simps leaf_named unmarshalString_named[OF assms] underlying.simps zeroOf.simps
  by (rule refl)

lemma update_fresh: "k \<notin> fst ` set al \<Longrightarrow> AList.update k v al = al @ [(k, v)]"
  by (induction al) auto

lemma convertEntries_all:
  assumes "\<forall>e \<in> set es. (\<exists>s. fst e = VString s) \<and> conv (snd e) = Inr (g (snd e))"
    and "distinct (map fst es)" and "\<forall>e \<in> set es. mkey (fst e) \<notin> fst ` set acc"
    and "mkey = (\<lambda>k. case k of VString s \<Rightarrow> s | _ \<Rightarrow> [])"
  shows "convertEntriesWith conv es acc = Inr (acc @ map (\<lambda>e. (mkey (fst e), g (snd e))) es)"
  using assms
proof (induction es arbitrary: acc)
  case (Cons e es)
  obtain s v where e: "e = (VString s, v)" using Cons.prems(1) by (cases e) auto
  have fresh: "s \<notin> fst ` set acc" using Cons.prems(3,4) e by auto
  have "\<forall>d \<in> set es. mkey (fst d) \<noteq> s"
    using Cons.prems(1,2,4) e by (force simp: image_iff)
  then have "\<forall>d \<in> set es. mkey (fst d) \<notin> fst ` set (acc @ [(s, g v)])" using Cons.prems(3) by auto
  then show ?case
    using Cons.IH[of "acc @ [(s, g v)]"] Cons.prems e fresh by (simp add: update_fresh)
qed simp

lemma unmarshalEntries_all:
  assumes "\<forall>e \<in> set es. um (snd e) = Inr (h (snd e))"
    and "distinct (map fst es)" and "\<forall>e \<in> set es. VString (fst e) \<notin> fst ` set acc"
  shows "unmarshalEntriesWith um TString es acc = Inr (acc @ map (\<lambda>e. (VString (fst e), h (snd e))) es)"
  using assms
proof (induction es arbitrary: acc)
  case (Cons e es)
  obtain s av where e: "e = (s, av)" by (cases e)
  have "\<forall>d \<in> set es. VString (fst d) \<notin> fst ` set (acc @ [(VString s, h av)])"
    using Cons.prems(2,3) e by (auto simp: image_iff)
  then show ?case
    using Cons.IH[of "acc @ [(VString s, h av)]"] Cons.prems e by (simp add: update_fresh)
qed simp

lemma fieldName_nonempty: "sfName f \<noteq> [] \<Longrightarrow> unmarshalFieldName f \<noteq> []"
  by (auto simp: unmarshalFieldName_def fieldNameFromTheorydbTag_def fieldNameFromJSONTag_def Let_def)

lemma marshal_unmarshal_name:
  "sfTag f \<noteq> ''-'' \<Longrightarrow> sfJson f \<noteq> ''-'' \<Longrightarrow>
     marshalFieldNameAndTags f = Some (unmarshalFieldName f, sfTag f, sfJson f)"
  by (simp add: marshalFieldNameAndTags_def unmarshalFieldName_def Let_def)

lemma convertFields_all:
  assumes "list_all2 (\<lambda>f v. sfExported f \<and> sfTag f \<noteq> ''-'' \<and> sfJson f \<noteq> ''-''
             \<and> conv (sfType f) v = Inr (g (sfType f) v)) fs vs"
    and "distinct (map unmarshalFieldName fs)"
  shows "\<exists>m'. convertFieldsWith conv fs vs m = Inr m'
     \<and> (\<forall>k. k \<notin> set (map unmarshalFieldName fs) \<longrightarrow> map_of m' k = map_of m k)
     \<and> list_all2 (\<lambda>f v. map_of m' (unmarshalFieldName f) =
          (if shouldOmitEmptyField v (sfTag f) (sfJson f) then map_of m (unmarshalFieldName f)
           else Some (g (sfType f) v))) fs vs"
  using assms
proof (induction fs vs arbitrary: m rule: list_all2_induct)
  case (Cons f fs v vs)
  define m1 where "m1 = (if shouldOmitEmptyField v (sfTag f) (sfJson f) then m
            else AList.update (unmarshalFieldName f) (g (sfType f) v) m)"
  have step: "convertFieldsWith conv (f # fs) (v # vs) m = convertFieldsWith conv fs vs m1"
    using Cons.hyps(1) by (simp add: marshal_unmarshal_name m1_def)
  obtain m' where m': "convertFieldsWith conv fs vs m1 = Inr m'"
      "\<forall>k. k \<notin> set (map unmarshalFieldName fs) \<longrightarrow> map_of m' k = map_of m1 k"
      "list_all2 (\<lambda>f v. map_of m' (unmarshalFieldName f) =
          (if shouldOmitEmptyField v (sfTag f) (sfJson f) then map_of m1 (unmarshalFieldName f)
           else Some (g (sfType f) v))) fs vs"
    using Cons.IH[of m1] Cons.prems by auto
  have fresh: "unmarshalFieldName f \<notin> set (map unmarshalFieldName fs)" using Cons.prems by simp
  then have "map_of m1 (unmarshalFieldName h) = map_of m (unmarshalFieldName h)" if "h \<in> set fs" for h
    using that by (auto simp: image_iff m1_def)
  then have "list_all2 (\<lambda>f v. map_of m' (unmarshalFieldName f) =
          (if shouldOmitEmptyField v (sfTag f) (sfJson f) then map_of m (unmarshalFieldName f)
           else Some (g (sfType f) v))) fs vs"
    using m'(3) by (auto simp: list_all2_conv_all_nth)
  moreover have "map_of m' (unmarshalFieldName f) = map_of m1 (unmarshalFieldName f)" using m'(2) fresh by blast
  moreover have "map_of m1 k = map_of m k" if "k \<noteq> unmarshalFieldName f" for k using that by (simp add: m1_def)
  ultimately show ?case using step m'(1,2) by (auto simp: m1_def)
qed simp

lemma unmarshalFields_all:
  assumes "length olds = length fs"
    and "list_all2 (\<lambda>f (old, v). sfExported f \<and> unmarshalFieldName f \<noteq> []
           \<and> (case map_of m (unmarshalFieldName f) of None \<Rightarrow> old = v
              | Some av \<Rightarrow> um av (sfType f) old = Inr v)) fs (zip olds vs)"
    and "length vs = length fs"
  shows "unmarshalFieldsWith um m fs olds = Inr vs"
  using assms
proof (induction fs arbitrary: olds vs)
  case (Cons f fs)
  obtain old olds' v vs' where l: "olds = old # olds'" "vs = v # vs'"
    using Cons.prems(1,3) by (cases olds; cases vs) auto
  have "unmarshalFieldsWith um m fs olds' = Inr vs'" using Cons l by simp
  then show ?case using Cons.prems(2) l by (auto simp: Let_def split: option.splits)
qed simp

lemma intBits_cases: "intBits s - 1 \<le> 63 \<and> 1 \<le> intBits s"
  by (cases s) auto

lemma uintBits_le: "uintBits s \<le> 64"
  by (cases s) auto

lemma wrapInt_id:
  assumes "1 \<le> bits" "- (2 ^ (bits - 1)) \<le> i" "i < 2 ^ (bits - 1)"
  shows "wrapInt bits i = i"
proof -
  obtain k where k: "bits = Suc k" using assms(1) by (cases bits) auto
  then have "(i + 2 ^ k) mod (2 * 2 ^ k) = i + 2 ^ k" using assms k by (intro mod_pos_pos_trivial) auto
  then show ?thesis using k by (simp add: wrapInt_def)
qed

lemma survives_TInt:
  assumes "noMarshalers env" "wt (TInt s) v" shows "survives env (TInt s) v"
proof -
  obtain i where v: "v = VInt i" and r: "- (2 ^ (intBits s - 1)) \<le> i" "i < 2 ^ (intBits s - 1)"
    using assms(2) by (auto split: gval.splits)
  have le: "(2::int) ^ (intBits s - 1) \<le> 2 ^ 63" using intBits_cases[of s] by (intro power_increasing) auto
  then have "ParseInt64 (showInt i) = Some i" using r by (intro ParseInt64_showInt) linarith+
  moreover have "wrapInt (intBits s) i = i" using r intBits_cases[of s] by (intro wrapInt_id) auto
  ultimately show ?thesis
    using assms(1) v by (simp add: survives_def unmarshalTyped.simps ptrElem_def unmarshalNumber_def isNullAttributeValue_def)
qed

lemma survives_TUint:
  assumes "noMarshalers env" "wt (TUint s) v" shows "survives env (TUint s) v"
proof -
  obtain n where v: "v = VUint n" and r: "n < 2 ^ uintBits s"
    using assms(2) by (auto split: gval.splits)
  have "(2::nat) ^ uintBits s \<le> 2 ^ 64" using uintBits_le[of s] by (intro power_increasing) auto
  then have "ParseUint64 (showNat n) = Some n" using r by (intro ParseUint64_showNat) linarith
  then show ?thesis
    using assms(1) v r
    by (simp add: survives_def unmarshalTyped.simps ptrElem_def unmarshalNumber_def isNullAttributeValue_def wrapUint_def)
qed

lemma survives_slice:
  assumes "noMarshalers env" "kindOf e \<noteq> KUint8" "\<forall>v \<in> set vs. survives env e v"
  shows "survives env (TSlice e) (VSlice vs)"
proof -
  let ?c = "\<lambda>v. projr (convertTyped env e v)"
  have c: "convertTyped env e v = Inr (?c v)" "unmarshalTyped env (?c v) e (zeroOf e) = Inr v" if "v \<in> set vs" for v
    using assms(3) that by (auto simp: survives_def)
  have "mapE (\<lambda>x. convertTyped env e x) vs = Inr (map ?c vs)" using c(1) by (intro mapE_total) auto
  moreover have "mapEIdx i (\<lambda>x. unmarshalTyped env x e (zeroOf e)) (map ?c vs) = Inr vs" for i
    using c(2) by (induction vs arbitrary: i) auto
  ultimately show ?thesis
    using assms(1,2)
    by (simp add: survives_def unmarshalTyped.simps[of env _ "TSlice e"] ptrElem_def kindOf_def[of "TSlice e"] elemOf_def
        makeSlice_def isNullAttributeValue_def)
qed

lemma wt_TString: "wt TString v \<longleftrightarrow> (\<exists>s. v = VString s)"
  by (cases v) auto

lemma survives_map:
  assumes "noMarshalers env" "wt (TMap TString e) (VMap m)" "\<forall>p \<in> set m. survives env e (snd p)"
  shows "survives env (TMap TString e) (VMap m)"
proof -
  let ?c = "\<lambda>v. projr (convertTyped env e v)"
  let ?key = "\<lambda>k. case k of VString s \<Rightarrow> s | _ \<Rightarrow> []"
  let ?im = "map (\<lambda>p. (?key (fst p), ?c (snd p))) m"
  have c: "convertTyped env e (snd p) = Inr (?c (snd p))"
      "unmarshalTyped env (?c (snd p)) e (zeroOf e) = Inr (snd p)" if "p \<in> set m" for p
    using assms(3) that by (auto simp: survives_def)
  have key: "\<exists>s. fst p = VString s" if "p \<in> set m" for p
    using assms(2) that by (auto simp: list_all_iff wt_TString simp del: wt.simps(2))
  have dist: "distinct (map fst m)" using assms(2) by simp
  have conv: "convertEntriesWith (\<lambda>x. convertTyped env e x) m [] = Inr ?im"
    using convertEntries_all[of m "\<lambda>x. convertTyped env e x" ?c ?key "[]"] c(1) key dist by auto
  have vk: "VString (?key (fst p)) = fst p" if "p \<in> set m" for p using key[OF that] by auto
  have "inj_on ?key (fst ` set m)"
    by (rule inj_on_inverseI[where g = VString], erule imageE, simp only: vk)
  then have "distinct (map ?key (map fst m))" using dist unfolding distinct_map[of ?key] set_map by blast
  then have "distinct (map fst ?im)" by (simp add: comp_def)
  then have um: "unmarshalEntriesWith (\<lambda>x. unmarshalTyped env x e (zeroOf e)) TString ?im [] =
      Inr (map (\<lambda>e'. (VString (fst e'), projr (unmarshalTyped env (snd e') e (zeroOf e)))) ?im)"
    using unmarshalEntries_all[of ?im "\<lambda>x. unmarshalTyped env x e (zeroOf e)"
        "\<lambda>x. projr (unmarshalTyped env x e (zeroOf e))" "[]"] by (simp add: c(2))
  have inv_m: "map (\<lambda>e'. (VString (fst e'), projr (unmarshalTyped env (snd e') e (zeroOf e)))) ?im = m"
    unfolding map_map comp_def using c(2) vk by (intro map_idI) (simp only: fst_conv snd_conv sum.sel prod.collapse)
  show ?thesis
    using assms(1) conv um inv_m
    by (simp add: survives_def unmarshalTyped.simps[of env _ "TMap TString e"] ptrElem_def kindOf_def elemOf_def
        keyTypeOf_def isNullAttributeValue_def)
qed

lemma zeroValue_zero:
  "isZeroValue v \<Longrightarrow> wt t v \<Longrightarrow> rtType t \<Longrightarrow> leavesOk env v \<Longrightarrow> v = zeroOf t"
  by (induction t v rule: wt.induct) (auto simp: isZeroValue_def split: gval.splits if_splits)

lemma survives_struct:
  assumes "noMarshalers env" "rtType (TStruct n fs)" "wt (TStruct n fs) (VStruct vs)" "leavesOk env (VStruct vs)"
    and "list_all2 (\<lambda>f v. survives env (sfType f) v) fs vs"
  shows "survives env (TStruct n fs) (VStruct vs)"
proof -
  let ?c = "\<lambda>t v. projr (convertTyped env t v)"
  have fields: "list_all2 (\<lambda>f v. sfExported f \<and> sfTag f \<noteq> ''-'' \<and> sfJson f \<noteq> ''-''
             \<and> convertTyped env (sfType f) v = Inr (?c (sfType f) v)) fs vs"
    using assms(2,5) by (auto simp: list_all2_conv_all_nth list_all_length survives_def)
  obtain m where m: "convertFieldsWith (\<lambda>u x. convertTyped env u x) fs vs [] = Inr m"
      "list_all2 (\<lambda>f v. map_of m (unmarshalFieldName f) =
          (if shouldOmitEmptyField v (sfTag f) (sfJson f) then None else Some (?c (sfType f) v))) fs vs"
    using convertFields_all[OF fields, of "[]", unfolded map_of.simps] assms(2) by auto
  have len: "length fs = length vs" using assms(5) by (rule list_all2_lengthD)
  have zero: "vs ! i = zeroOf (sfType (fs ! i))"
    if "i < length fs" "shouldOmitEmptyField (vs ! i) (sfTag (fs ! i)) (sfJson (fs ! i))" for i
    using that assms(2-4) len zeroValue_zero[of "vs ! i" "sfType (fs ! i)" env]
    by (auto simp: shouldOmitEmptyField_def list_all2_conv_all_nth list_all_length split: if_splits)
  have "unmarshalFieldsWith (\<lambda>a ft prev. unmarshalTyped env a ft prev) m fs (map (\<lambda>f. zeroOf (sfType f)) fs) = Inr vs"
    using m(2) assms(2,5) len zero
    by (intro unmarshalFields_all)
       (auto simp: list_all2_conv_all_nth list_all_length fieldName_nonempty survives_def)
  then show ?thesis
    using assms(1) m(1)
    by (simp add: survives_def unmarshalTyped.simps[of env _ "TStruct n fs"] ptrElem_def kindOf_def structFields_def
        isNullAttributeValue_def)
qed

lemma roundtrip_survives:
  "noMarshalers env \<Longrightarrow> wt t v \<Longrightarrow> rtType t \<Longrightarrow> leavesOk env v \<Longrightarrow> survives env t v"
proof (induction t v rule: wt.induct)
  case (1 n t v)
  then show ?case by (simp add: survives_def convertTyped_named unmarshalTyped_named)
next
  case (10 n fs v)
  then obtain vs where v: "v = VStruct vs" by (auto split: gval.splits)
  then have "list_all2 (\<lambda>f v. survives env (sfType f) v) fs vs"
    using 10 by (auto simp: list_all2_conv_all_nth list_all_length)
  then show ?case using 10 v survives_struct by blast
next
  case (11 e v)
  show ?case
  proof (cases "kindOf e = KUint8")
    case True
    then show ?thesis using 11
      by (auto simp: survives_def unmarshalTyped.simps ptrElem_def unmarshalBinary_def kindOf_def[of "TSlice e"] elemOf_def
          isNullAttributeValue_def split: gval.splits)
  next
    case False
    then obtain vs where "v = VSlice vs" using 11 by (auto split: gval.splits)
    then show ?thesis using 11 False by (auto simp: list_all_iff intro!: survives_slice)
  qed
next
  case (13 k e v)
  then obtain m where v: "v = VMap m" by (auto split: gval.splits)
  then have "\<forall>p \<in> set m. survives env e (snd p)" using 13 by (auto simp: list_all_iff)
  then show ?case using 13 v survives_map[of env e m] by auto
next
  case (14 e v)
  then consider "v = VPtr None" | w where "v = VPtr (Some w)" by (auto split: gval.splits option.splits)
  then show ?case
  proof cases
    case 1
    then show ?thesis using 14
      by (simp add: survives_def unmarshalTyped.simps ptrElem_def isNullAttributeValue_def kindOf_def)
  next
    case 2
    then have "survives env e w" using 14 by simp
    then show ?thesis using 14 2
      by (auto simp: survives_def unmarshalTyped.simps[of env _ "TPtr e"] ptrElem_def kindOf_def[of "TPtr e"] elemOf_def)
  qed
qed (auto simp: survives_TInt survives_TUint, auto simp: survives_def unmarshalTyped.simps ptrElem_def unmarshalString_def
    unmarshalNumber_def unmarshalBool_def kindOf_def isNullAttributeValue_def split: gval.splits)

lemma rtType_not_iface: "rtType t \<Longrightarrow> wt t v \<Longrightarrow> v \<noteq> VIface d"
  by (induction t v rule: wt.induct) (auto split: gval.splits if_splits)

text \<open>C6. Round trip. For a type of the supported family (structs, slices, string-keyed maps, pointers, strings,
  integers of every width, 64-bit floats, times, and types defined over them) and a well-typed value of it, converting the value to an
  attribute value succeeds and converting that into a fresh variable of the type gives the value back,
  \<open>omitempty\<close> fields included; custom marshalers are absent, and float and time texts in the value are read back as
  themselves by the parsers.\<close>

theorem Convert_roundtrip:
  assumes "noMarshalers env" "unmarshaler env (TPtr t) = None" "wt t v" "rtType t" "leavesOk env v"
  shows "\<exists>av. ConvertToAttributeValue env (Some (t, v)) = Inr av
           \<and> ConvertFromAttributeValue env av (Some (TPtr t, VPtr (Some (zeroOf t)))) = Inr v"
  using roundtrip_survives[OF assms(1,3-5)] assms(2)
  by (auto simp: survives_def ConvertToAttributeValue_def ConvertFromAttributeValue_def kindOf_def elemOf_def)

definition plainEnv :: convenv where
  "plainEnv = \<lparr> marshaler = \<lambda>t v. None, unmarshaler = \<lambda>t. None, parseFloat = Some, roundFloat32 = id, parseTime = Some \<rparr>"

definition demoType :: gtype where
  "demoType = TStruct ''User''
     [SField ''ID'' True False ''pk'' [] TString,
      SField ''Age'' True False ''attr:age,omitempty'' [] (TInt Int8),
      SField ''Tags'' True False [] ''tags'' (TMap TString (TSlice TString)),
      SField ''Next'' True False [] [] (TPtr TBool)]"

definition demoValue :: gval where
  "demoValue = VStruct [VString ''u1'', VInt 0, VMap [(VString ''k'', VSlice [VString ''v''])], VPtr (Some (VBool True))]"

theorem Convert_roundtrip_witness:
  "\<exists>av. ConvertToAttributeValue plainEnv (Some (demoType, demoValue)) = Inr av
     \<and> ConvertFromAttributeValue plainEnv av (Some (TPtr demoType, VPtr (Some (zeroOf demoType)))) = Inr demoValue"
proof (rule Convert_roundtrip)
  show "noMarshalers plainEnv" by (simp add: noMarshalers_def plainEnv_def)
  show "unmarshaler plainEnv (TPtr demoType) = None" by (simp add: plainEnv_def)
  show "wt demoType demoValue" by (simp add: demoType_def demoValue_def kindOf_def)
  show "rtType demoType"
    by (simp add: demoType_def kindOf_def unmarshalFieldName_def fieldNameFromTheorydbTag_def fieldNameFromJSONTag_def
        isPureModifierTag_def parseAttrTag_def TrimSpace_def spaceSeqs_def trimSeqs.simps HasPrefix_def TrimPrefix_def)
  show "leavesOk plainEnv demoValue" by (simp add: demoValue_def)
qed

section \<open>Corners of the unmarshaller\<close>

text \<open>Reading a NULL attribute into a variable of type \<open>any\<close> (also as the element of a typed map of \<open>any\<close>) sets it from the zero
  \<open>reflect.Value\<close>, which panics.\<close>

theorem unmarshal_null_into_interface_panics:
  "unmarshalTyped env (AVNULL b) TAny old = Inl Panic"
  by (simp add: unmarshalTyped.simps ptrElem_def unmarshalIntoEmptyInterface_def)

text \<open>A map keyed by a defined string type is written by the converter but panics when read back.\<close>

theorem unmarshal_named_key_panics:
  "noMarshalers env \<Longrightarrow> convertTyped env (TMap (TNamed n TString) TString) (VMap [(VString k, VString s)]) = Inr (AVM [(k, AVS s)])
     \<and> unmarshalTyped env (AVM [(k, AVS s)]) (TMap (TNamed n TString) TString) old = Inl Panic"
  by (simp add: unmarshalTyped.simps ptrElem_def kindOf_def keyTypeOf_def elemOf_def unmarshalString_def)

text \<open>A number outside the range of the target's integer type is stored modulo its width, without an error.\<close>

theorem unmarshal_number_wraps:
  "unmarshalTyped env (AVN ''300'') (TInt Int8) old = Inr (VInt 44)"
  by (simp add: unmarshalTyped.simps ptrElem_def unmarshalNumber_def ParseInt64_def parseDigits_def digitsVal_def isDigit_def wrapInt_def)

text \<open>A field tagged \<open>-\<close> is skipped when an item is written, and filled from the attribute of the field's name when one is read.\<close>

theorem ignored_field_is_read:
  "marshalFieldNameAndTags (SField n True False ''-'' [] t) = None
   \<and> unmarshalFieldName (SField n True False ''-'' [] t) = n"
  by (simp add: marshalFieldNameAndTags_def unmarshalFieldName_def)

end
