(* ===== verification/ExprBuilder.thy ===== *)
theory ExprBuilder
  imports Validation Converter
begin

text \<open>
  \<open>internal/expr/builder.go\<close>: the builder of DynamoDB expressions.  The builder's state is a record with
  the fields of the Go struct; each method is a function that returns its result and the new
  state, also on errors, because the code adds name and value placeholders before it can
  still fail.  The placeholder maps are association lists, their order being one iteration
  order of the Go map.  The lemmas show which placeholders an operation adds, that they
  denote the attribute path and the values the caller gave, and that what earlier calls recorded stays.
\<close>

section \<open>Reserved words\<close>

definition reservedWords :: "string list" where
  "reservedWords =
     [''ABORT'', ''ABSOLUTE'', ''ACTION'', ''ADD'', ''AFTER'', ''AGENT'', ''AGGREGATE'', ''ALL'', ''ALLOCATE'',
      ''ALTER'', ''ANALYZE'', ''AND'', ''ANY'', ''ARCHIVE'', ''ARE'', ''ARRAY'', ''AS'', ''ASC'', ''ASCII'',
      ''ASENSITIVE'', ''ASSERTION'', ''ASYMMETRIC'', ''AT'', ''ATOMIC'', ''ATTACH'', ''ATTRIBUTE'', ''AUTH'',
      ''AUTHORIZATION'', ''AUTHORIZE'', ''AUTO'', ''AVG'', ''BACK'', ''BACKUP'', ''BASE'', ''BATCH'', ''BEFORE'',
      ''BEGIN'', ''BETWEEN'', ''BIGINT'', ''BINARY'', ''BIT'', ''BLOB'', ''BLOCK'', ''BOOLEAN'', ''BOTH'',
      ''BREADTH'', ''BUCKET'', ''BULK'', ''BY'', ''BYTE'', ''CALL'', ''CALLED'', ''CALLING'', ''CAPACITY'',
      ''CASCADE'', ''CASCADED'', ''CASE'', ''CAST'', ''CATALOG'', ''CHAR'', ''CHARACTER'', ''CHECK'', ''CLASS'',
      ''CLOB'', ''CLOSE'', ''CLUSTER'', ''CLUSTERED'', ''CLUSTERING'', ''CLUSTERS'', ''COALESCE'', ''COLLATE'',
      ''COLLATION'', ''COLLECTION'', ''COLUMN'', ''COLUMNS'', ''COMBINE'', ''COMMENT'', ''COMMIT'', ''COMPACT'',
      ''COMPILE'', ''COMPRESS'', ''CONDITION'', ''CONFLICT'', ''CONNECT'', ''CONNECTION'', ''CONSISTENCY'',
      ''CONSISTENT'', ''CONSTRAINT'', ''CONSTRAINTS'', ''CONSTRUCTOR'', ''CONSUMED'', ''CONTINUE'', ''CONVERT'',
      ''COPY'', ''CORRESPONDING'', ''COUNT'', ''COUNTER'', ''CREATE'', ''CROSS'', ''CUBE'', ''CURRENT'', ''CURSOR'',
      ''CYCLE'', ''DATA'', ''DATABASE'', ''DATE'', ''DATETIME'', ''DAY'', ''DEALLOCATE'', ''DEC'', ''DECIMAL'',
      ''DECLARE'', ''DEFAULT'', ''DEFERRABLE'', ''DEFERRED'', ''DEFINE'', ''DEFINED'', ''DEFINITION'', ''DELETE'',
      ''DELIMITED'', ''DEPTH'', ''DEREF'', ''DESC'', ''DESCRIBE'', ''DESCRIPTOR'', ''DETACH'', ''DETERMINISTIC'',
      ''DIAGNOSTICS'', ''DIRECTORIES'', ''DISABLE'', ''DISCONNECT'', ''DISTINCT'', ''DISTRIBUTE'', ''DO'',
      ''DOMAIN'', ''DOUBLE'', ''DROP'', ''DUMP'', ''DURATION'', ''DYNAMIC'', ''EACH'', ''ELEMENT'', ''ELSE'',
      ''ELSEIF'', ''EMPTY'', ''ENABLE'', ''END'', ''EQUAL'', ''EQUALS'', ''ERROR'', ''ESCAPE'', ''ESCAPED'',
      ''EVAL'', ''EVALUATE'', ''EXCEEDED'', ''EXCEPT'', ''EXCEPTION'', ''EXCEPTIONS'', ''EXCLUSIVE'', ''EXEC'',
      ''EXECUTE'', ''EXISTS'', ''EXIT'', ''EXPLAIN'', ''EXPLODE'', ''EXPORT'', ''EXPRESSION'', ''EXTENDED'',
      ''EXTERNAL'', ''EXTRACT'', ''FAIL'', ''FALSE'', ''FAMILY'', ''FETCH'', ''FIELDS'', ''FILE'', ''FILTER'',
      ''FILTERING'', ''FINAL'', ''FINISH'', ''FIRST'', ''FIXED'', ''FLATTERN'', ''FLOAT'', ''FOR'', ''FORCE'',
      ''FOREIGN'', ''FORMAT'', ''FORWARD'', ''FOUND'', ''FREE'', ''FROM'', ''FULL'', ''FUNCTION'', ''FUNCTIONS'',
      ''GENERAL'', ''GENERATE'', ''GET'', ''GLOB'', ''GLOBAL'', ''GO'', ''GOTO'', ''GRANT'', ''GREATER'', ''GROUP'',
      ''GROUPING'', ''HANDLER'', ''HASH'', ''HAVE'', ''HAVING'', ''HEAP'', ''HIDDEN'', ''HOLD'', ''HOUR'',
      ''IDENTIFIED'', ''IDENTITY'', ''IF'', ''IGNORE'', ''IMMEDIATE'', ''IMPORT'', ''IN'', ''INCLUDING'',
      ''INCLUSIVE'', ''INCREMENT'', ''INCREMENTAL'', ''INDEX'', ''INDEXED'', ''INDEXES'', ''INDICATOR'',
      ''INFINITE'', ''INITIALLY'', ''INLINE'', ''INNER'', ''INNTER'', ''INOUT'', ''INPUT'', ''INSENSITIVE'',
      ''INSERT'', ''INSTEAD'', ''INT'', ''INTEGER'', ''INTERSECT'', ''INTERVAL'', ''INTO'', ''INVALIDATE'', ''IS'',
      ''ISOLATION'', ''ITEM'', ''ITEMS'', ''ITERATE'', ''JOIN'', ''KEY'', ''KEYS'', ''LAG'', ''LANGUAGE'', ''LARGE'',
      ''LAST'', ''LATERAL'', ''LEAD'', ''LEADING'', ''LEAVE'', ''LEFT'', ''LENGTH'', ''LESS'', ''LEVEL'', ''LIKE'',
      ''LIMIT'', ''LIMITED'', ''LINES'', ''LIST'', ''LOAD'', ''LOCAL'', ''LOCALTIME'', ''LOCALTIMESTAMP'',
      ''LOCATION'', ''LOCATOR'', ''LOCK'', ''LOCKS'', ''LOG'', ''LOGED'', ''LONG'', ''LOOP'', ''LOWER'', ''MAP'',
      ''MATCH'', ''MATERIALIZED'', ''MAX'', ''MAXLEN'', ''MEMBER'', ''MERGE'', ''METHOD'', ''METRICS'', ''MIN'',
      ''MINUS'', ''MINUTE'', ''MISSING'', ''MOD'', ''MODE'', ''MODIFIES'', ''MODIFY'', ''MODULE'', ''MONTH'',
      ''MULTI'', ''MULTISET'', ''NAME'', ''NAMES'', ''NATIONAL'', ''NATURAL'', ''NCHAR'', ''NCLOB'', ''NEW'',
      ''NEXT'', ''NO'', ''NONE'', ''NOT'', ''NULL'', ''NULLIF'', ''NUMBER'', ''NUMERIC'', ''OBJECT'', ''OF'',
      ''OFFLINE'', ''OFFSET'', ''OLD'', ''ON'', ''ONLINE'', ''ONLY'', ''OPAQUE'', ''OPEN'', ''OPERATOR'', ''OPTION'',
      ''OR'', ''ORDER'', ''ORDINALITY'', ''OTHER'', ''OTHERS'', ''OUT'', ''OUTER'', ''OUTPUT'', ''OVER'',
      ''OVERLAPS'', ''OVERRIDE'', ''OWNER'', ''PAD'', ''PARALLEL'', ''PARAMETER'', ''PARAMETERS'', ''PARTIAL'',
      ''PARTITION'', ''PARTITIONED'', ''PARTITIONS'', ''PATH'', ''PERCENT'', ''PERCENTILE'', ''PERMISSION'',
      ''PERMISSIONS'', ''PIPE'', ''PIPELINED'', ''PLAN'', ''POOL'', ''POSITION'', ''PRECISION'', ''PREPARE'',
      ''PRESERVE'', ''PRIMARY'', ''PRIOR'', ''PRIVATE'', ''PRIVILEGES'', ''PROCEDURE'', ''PROCESSED'', ''PROJECT'',
      ''PROJECTION'', ''PROPERTY'', ''PROVISIONING'', ''PUBLIC'', ''PUT'', ''QUERY'', ''QUIT'', ''QUORUM'',
      ''RAISE'', ''RANDOM'', ''RANGE'', ''RANK'', ''RAW'', ''READ'', ''READS'', ''REAL'', ''REBUILD'', ''RECORD'',
      ''RECURSIVE'', ''REDUCE'', ''REF'', ''REFERENCE'', ''REFERENCES'', ''REFERENCING'', ''REGEXP'', ''REGION'',
      ''REINDEX'', ''RELATIVE'', ''RELEASE'', ''REMAINDER'', ''RENAME'', ''REPEAT'', ''REPLACE'', ''REQUEST'',
      ''RESET'', ''RESIGNAL'', ''RESOURCE'', ''RESPONSE'', ''RESTORE'', ''RESTRICT'', ''RESULT'', ''RETURN'',
      ''RETURNING'', ''RETURNS'', ''REVERSE'', ''REVOKE'', ''RIGHT'', ''ROLE'', ''ROLES'', ''ROLLBACK'', ''ROLLUP'',
      ''ROUTINE'', ''ROW'', ''ROWS'', ''RULE'', ''RULES'', ''SAMPLE'', ''SATISFIES'', ''SAVE'', ''SAVEPOINT'',
      ''SCAN'', ''SCHEMA'', ''SCOPE'', ''SCROLL'', ''SEARCH'', ''SECOND'', ''SECTION'', ''SEGMENT'', ''SEGMENTS'',
      ''SELECT'', ''SELF'', ''SEMI'', ''SENSITIVE'', ''SEPARATE'', ''SEQUENCE'', ''SERIALIZABLE'', ''SESSION'',
      ''SET'', ''SETS'', ''SHARD'', ''SHARE'', ''SHARED'', ''SHORT'', ''SHOW'', ''SIGNAL'', ''SIMILAR'', ''SIZE'',
      ''SKEWED'', ''SMALLINT'', ''SNAPSHOT'', ''SOME'', ''SOURCE'', ''SPACE'', ''SPACES'', ''SPARSE'', ''SPECIFIC'',
      ''SPECIFICTYPE'', ''SPLIT'', ''SQL'', ''SQLCODE'', ''SQLERROR'', ''SQLEXCEPTION'', ''SQLSTATE'',
      ''SQLWARNING'', ''START'', ''STATE'', ''STATIC'', ''STATUS'', ''STORAGE'', ''STORE'', ''STORED'', ''STREAM'',
      ''STRING'', ''STRUCT'', ''STYLE'', ''SUB'', ''SUBMULTISET'', ''SUBPARTITION'', ''SUBSTRING'', ''SUBTYPE'',
      ''SUM'', ''SUPER'', ''SYMMETRIC'', ''SYNONYM'', ''SYSTEM'', ''TABLE'', ''TABLESAMPLE'', ''TEMP'',
      ''TEMPORARY'', ''TERMINATED'', ''TEXT'', ''THAN'', ''THEN'', ''THROUGHPUT'', ''TIME'', ''TIMESTAMP'',
      ''TIMEZONE'', ''TINYINT'', ''TO'', ''TOKEN'', ''TOTAL'', ''TOUCH'', ''TRAILING'', ''TRANSACTION'',
      ''TRANSFORM'', ''TRANSLATE'', ''TRANSLATION'', ''TREAT'', ''TRIGGER'', ''TRIM'', ''TRUE'', ''TRUNCATE'',
      ''TTL'', ''TUPLE'', ''TYPE'', ''UNDER'', ''UNDO'', ''UNION'', ''UNIQUE'', ''UNIT'', ''UNKNOWN'', ''UNLOGGED'',
      ''UNNEST'', ''UNPROCESSED'', ''UNSIGNED'', ''UNTIL'', ''UPDATE'', ''UPPER'', ''URL'', ''USAGE'', ''USE'',
      ''USER'', ''USERS'', ''USING'', ''UUID'', ''VACUUM'', ''VALUE'', ''VALUED'', ''VALUES'', ''VARCHAR'',
      ''VARIABLE'', ''VARIANCE'', ''VARINT'', ''VARYING'', ''VIEW'', ''VIEWS'', ''VIRTUAL'', ''VOID'', ''WAIT'',
      ''WHEN'', ''WHENEVER'', ''WHERE'', ''WHILE'', ''WINDOW'', ''WITH'', ''WITHIN'', ''WITHOUT'', ''WORK'',
      ''WRAPPED'', ''WRITE'', ''YEAR'', ''ZONE'']"

definition isReservedWord :: "string \<Rightarrow> bool" where
  "isReservedWord word = (ToUpper word \<in> set reservedWords)"

section \<open>State\<close>

datatype berror =
    InvalidFieldName verror | InvalidOperatorErr verror | InvalidValueErr verror
  | Security verror | SecurityFailed verror | ConvertFailed cerror | ConverterFailed string
  | UnsupportedOperator | BuilderError string

type_synonym customConverter = "gtype \<Rightarrow> (goany \<Rightarrow> (string, attrval) result) option"

record Builder =
  converter :: "customConverter option"
  updateExpressions :: "(string \<times> string list) list"
  names :: "(string \<times> string) list"
  bvalues :: "(string \<times> attrval) list"
  keyConditions :: "string list"
  filterConditions :: "string list"
  conditions :: "string list"
  projections :: "string list"
  filterOperators :: "string list"
  conditionOperators :: "string list"
  nameCounter :: nat
  valueCounter :: nat

definition NewBuilder :: Builder where
  "NewBuilder = \<lparr> converter = None, updateExpressions = [], names = [], bvalues = [], keyConditions = [],
     filterConditions = [], conditions = [], projections = [], filterOperators = [], conditionOperators = [],
     nameCounter = 0, valueCounter = 0 \<rparr>"

definition NewBuilderWithConverter :: "customConverter option \<Rightarrow> Builder" where
  "NewBuilderWithConverter c = NewBuilder \<lparr> converter := c \<rparr>"

record ExpressionComponents =
  ExpressionAttributeNames :: "(string \<times> string) list"
  ExpressionAttributeValues :: "(string \<times> attrval) list"
  KeyConditionExpression :: string
  FilterExpression :: string
  ProjectionExpression :: string
  UpdateExpression :: string
  ConditionExpression :: string

section \<open>Names\<close>

definition reservedPlaceholder :: "string \<Rightarrow> string" where
  "reservedPlaceholder w = CHR ''#'' # ToUpper w"

definition nameRef :: "nat \<Rightarrow> string" where
  "nameRef n = ''#n'' @ showNat n"

definition valueRef :: "nat \<Rightarrow> string" where
  "valueRef n = '':v'' @ showNat n"

text \<open>One name without dots: the reserved-word placeholder or the next numbered one.\<close>

definition bindName :: "string \<Rightarrow> Builder \<Rightarrow> string \<times> Builder" where
  "bindName part b =
     (let n = nameCounter b + 1;
          placeholder = (if isReservedWord part then reservedPlaceholder part else nameRef n)
      in (placeholder, b \<lparr> nameCounter := n, names := AList.update placeholder part (names b) \<rparr>))"

fun bindParts :: "string list \<Rightarrow> string list \<Rightarrow> Builder \<Rightarrow> string \<times> Builder" where
  "bindParts [] processed b = (Join processed ''.'', b)"
| "bindParts (part # parts) processed b =
     (if ValidateFieldName part \<noteq> Inr () then (''#invalid'', b)
      else let (placeholder, b') = bindName part b in bindParts parts (processed @ [placeholder]) b')"

definition addNameSecure :: "string \<Rightarrow> Builder \<Rightarrow> string \<times> Builder" where
  "addNameSecure name b =
     (if ValidateFieldName name \<noteq> Inr () then (''#invalid'', b)
      else case keyOf (names b) name of
        Some placeholder \<Rightarrow> (placeholder, b)
      | None \<Rightarrow> (if Contains name ''.'' then bindParts (SplitByte (CHR ''.'') name) [] b
                 else bindName name b))"

section \<open>Values\<close>

definition ConvertToAttributeValueSecure :: "convenv \<Rightarrow> goany \<Rightarrow> (berror, attrval) result" where
  "ConvertToAttributeValueSecure env value =
     (case ValidateValue value of
        Inl e \<Rightarrow> Inl (SecurityFailed e)
      | Inr _ \<Rightarrow> mapErr ConvertFailed (ConvertToAttributeValue env value))"

text \<open>The attribute value a value becomes: by its custom converter when it has one.\<close>

definition convertValue :: "convenv \<Rightarrow> Builder \<Rightarrow> goany \<Rightarrow> (berror, attrval) result" where
  "convertValue env b value =
     (case (converter b, value) of
        (Some lookup, Some (t, v)) \<Rightarrow>
          (case lookup t of
             Some conv \<Rightarrow> mapErr ConverterFailed (conv value)
           | None \<Rightarrow> ConvertToAttributeValueSecure env value)
      | _ \<Rightarrow> ConvertToAttributeValueSecure env value)"

definition bindValue :: "attrval \<Rightarrow> Builder \<Rightarrow> string \<times> Builder" where
  "bindValue av b =
     (let n = valueCounter b + 1 in
      (valueRef n, b \<lparr> valueCounter := n, bvalues := AList.update (valueRef n) av (bvalues b) \<rparr>))"

definition addValueSecure :: "convenv \<Rightarrow> goany \<Rightarrow> Builder \<Rightarrow> (berror, string) result \<times> Builder" where
  "addValueSecure env value b =
     (case convertValue env b value of
        Inl e \<Rightarrow> (Inl e, b)
      | Inr av \<Rightarrow> (let (ref, b') = bindValue av b in (Inr ref, b')))"

fun addValuesSecure :: "convenv \<Rightarrow> goany list \<Rightarrow> Builder \<Rightarrow> (berror, string list) result \<times> Builder" where
  "addValuesSecure env [] b = (Inr [], b)"
| "addValuesSecure env (v # vs) b =
     (case addValueSecure env v b of
        (Inl e, b') \<Rightarrow> (Inl e, b')
      | (Inr ref, b') \<Rightarrow> (case addValuesSecure env vs b' of
          (Inl e, b'') \<Rightarrow> (Inl e, b'')
        | (Inr refs, b'') \<Rightarrow> (Inr (ref # refs), b'')))"

definition convertToSliceSecure :: "goany \<Rightarrow> (berror, goany list) result" where
  "convertToSliceSecure value =
     (case value of
        Some (t, VSlice xs) \<Rightarrow>
          (if t = TSlice TAny then
             (if list_ex (\<lambda>x. ValidateValue (toInterface TAny x) \<noteq> Inr ()) xs
                then Inl (Security (SecurityError ''InvalidValue'' [] ''invalid slice item''))
              else Inr (map (toInterface TAny) xs))
           else if t = TSlice TString then
             (if list_ex (\<lambda>x. ValidateValue (toInterface TString x) \<noteq> Inr ()) xs
                then Inl (Security (SecurityError ''InvalidValue'' [] ''invalid string item''))
              else Inr (map (toInterface TString) xs))
           else if t = TSlice (TInt IntN) then Inr (map (toInterface (TInt IntN)) xs)
           else Inl (Security (SecurityError ''InvalidValue'' ''slice_conversion'' ''value must be a slice for IN operator'')))
      | _ \<Rightarrow> Inl (Security (SecurityError ''InvalidValue'' ''slice_conversion'' ''value must be a slice for IN operator'')))"

section \<open>Conditions\<close>

text \<open>The comparison operators and the symbol each is printed as.\<close>

definition comparisonSymbol :: "string \<Rightarrow> string option" where
  "comparisonSymbol op =
     (if op \<in> {''='', ''EQ''} then Some ''=''
      else if op \<in> {''!='', ''<>'', ''NE''} then Some ''<>''
      else if op \<in> {''<'', ''LT''} then Some ''<''
      else if op \<in> {''<='', ''LE''} then Some ''<=''
      else if op \<in> {''>'', ''GT''} then Some ''>''
      else if op \<in> {''>='', ''GE''} then Some ''>=''
      else None)"

definition withValue ::
  "convenv \<Rightarrow> goany \<Rightarrow> Builder \<Rightarrow> (string \<Rightarrow> string) \<Rightarrow> (berror, string) result \<times> Builder" where
  "withValue env value b render =
     (case addValueSecure env value b of (Inl e, b') \<Rightarrow> (Inl e, b') | (Inr ref, b') \<Rightarrow> (Inr (render ref), b'))"

definition operatorSwitch ::
  "convenv \<Rightarrow> string \<Rightarrow> string \<Rightarrow> goany \<Rightarrow> Builder \<Rightarrow> (berror, string) result \<times> Builder" where
  "operatorSwitch env op ref value b =
     (case comparisonSymbol op of
        Some cmp \<Rightarrow> withValue env value b (\<lambda>vr. ref @ '' '' @ cmp @ '' '' @ vr)
      | None \<Rightarrow>
        (if op = ''BETWEEN'' then
           (case value of
              Some (t, VSlice [lo, hi]) \<Rightarrow>
                (if t = TSlice TAny then
                   (case addValuesSecure env [toInterface TAny lo, toInterface TAny hi] b of
                      (Inl e, b') \<Rightarrow> (Inl e, b')
                    | (Inr refs, b') \<Rightarrow>
                        (Inr (ref @ '' BETWEEN '' @ Join refs '' AND ''), b'))
                 else (Inl (Security (SecurityError ''InvalidValue'' ''between_values'' ''BETWEEN operator requires exactly two values'')), b))
            | _ \<Rightarrow> (Inl (Security (SecurityError ''InvalidValue'' ''between_values'' ''BETWEEN operator requires exactly two values'')), b))
         else if op = ''IN'' then
           (case convertToSliceSecure value of
              Inl e \<Rightarrow> (Inl e, b)
            | Inr vals \<Rightarrow>
                (if length vals > 100
                   then (Inl (Security (SecurityError ''InvalidValue'' ''in_values'' ''IN operator supports maximum 100 values'')), b)
                 else (case addValuesSecure env vals b of
                     (Inl e, b') \<Rightarrow> (Inl e, b')
                   | (Inr refs, b') \<Rightarrow> (Inr (ref @ '' IN ('' @ Join refs '', '' @ '')''), b'))))
         else if op = ''BEGINS_WITH'' then withValue env value b (\<lambda>vr. ''begins_with('' @ ref @ '', '' @ vr @ '')'')
         else if op = ''CONTAINS'' then withValue env value b (\<lambda>vr. ''contains('' @ ref @ '', '' @ vr @ '')'')
         else if op \<in> {''EXISTS'', ''ATTRIBUTE_EXISTS''} then (Inr (''attribute_exists('' @ ref @ '')''), b)
         else if op \<in> {''NOT_EXISTS'', ''ATTRIBUTE_NOT_EXISTS''} then (Inr (''attribute_not_exists('' @ ref @ '')''), b)
         else (Inl UnsupportedOperator, b)))"

definition buildCondition ::
  "convenv \<Rightarrow> string \<Rightarrow> string \<Rightarrow> goany \<Rightarrow> Builder \<Rightarrow> (berror, string) result \<times> Builder" where
  "buildCondition env field operator value b =
     (case ValidateFieldName field of Inl e \<Rightarrow> (Inl (InvalidFieldName e), b) | Inr _ \<Rightarrow>
      case ValidateOperator operator of Inl e \<Rightarrow> (Inl (InvalidOperatorErr e), b) | Inr _ \<Rightarrow>
      case ValidateValue value of Inl e \<Rightarrow> (Inl (InvalidValueErr e), b) | Inr _ \<Rightarrow>
      (let (ref, b') = addNameSecure field b in operatorSwitch env (ToUpper operator) ref value b'))"

definition AddKeyCondition ::
  "convenv \<Rightarrow> string \<Rightarrow> string \<Rightarrow> goany \<Rightarrow> Builder \<Rightarrow> (berror, unit) result \<times> Builder" where
  "AddKeyCondition env field operator value b =
     (case buildCondition env field operator value b of
        (Inl e, b') \<Rightarrow> (Inl e, b')
      | (Inr expr, b') \<Rightarrow> (Inr (), b' \<lparr> keyConditions := keyConditions b' @ [expr] \<rparr>))"

definition pushFilter :: "string \<Rightarrow> string \<Rightarrow> Builder \<Rightarrow> Builder" where
  "pushFilter logicalOp expr b =
     (let b1 = b \<lparr> filterConditions := filterConditions b @ [expr] \<rparr> in
      if length (filterConditions b1) > 1 then b1 \<lparr> filterOperators := filterOperators b1 @ [logicalOp] \<rparr> else b1)"

definition AddFilterCondition ::
  "convenv \<Rightarrow> string \<Rightarrow> string \<Rightarrow> string \<Rightarrow> goany \<Rightarrow> Builder \<Rightarrow> (berror, unit) result \<times> Builder" where
  "AddFilterCondition env logicalOp field operator value b =
     (case buildCondition env field operator value b of
        (Inl e, b') \<Rightarrow> (Inl e, b')
      | (Inr expr, b') \<Rightarrow> (Inr (), pushFilter logicalOp expr b'))"

definition AddGroupFilter :: "string \<Rightarrow> ExpressionComponents \<Rightarrow> Builder \<Rightarrow> Builder" where
  "AddGroupFilter logicalOp components b =
     (let b1 = b \<lparr> names := fold (\<lambda>(ph, name) m. AList.update ph name m) (ExpressionAttributeNames components) (names b),
                    bvalues := fold (\<lambda>(ph, val) m. AList.update ph val m) (ExpressionAttributeValues components) (bvalues b) \<rparr> in
      if FilterExpression components \<noteq> [] then pushFilter logicalOp (''('' @ FilterExpression components @ '')'') b1
      else b1)"

fun AddProjection :: "string list \<Rightarrow> Builder \<Rightarrow> Builder" where
  "AddProjection [] b = b"
| "AddProjection (field # rest) b =
     (let (ref, b') = addNameSecure field b in
      AddProjection rest (b' \<lparr> projections := projections b' @ [ref] \<rparr>))"

definition AddConditionExpressionWithOp ::
  "convenv \<Rightarrow> string \<Rightarrow> string \<Rightarrow> string \<Rightarrow> goany \<Rightarrow> Builder \<Rightarrow> (berror, unit) result \<times> Builder" where
  "AddConditionExpressionWithOp env logicalOp field operator value b =
     (case buildCondition env field operator value b of
        (Inl e, b') \<Rightarrow> (Inl e, b')
      | (Inr expr, b') \<Rightarrow>
          (let b1 = b' \<lparr> conditions := conditions b' @ [expr] \<rparr> in
           (Inr (), if length (conditions b1) > 1
                    then b1 \<lparr> conditionOperators := conditionOperators b1 @ [logicalOp] \<rparr> else b1)))"

definition AddConditionExpression ::
  "convenv \<Rightarrow> string \<Rightarrow> string \<Rightarrow> goany \<Rightarrow> Builder \<Rightarrow> (berror, unit) result \<times> Builder" where
  "AddConditionExpression env field operator value b = AddConditionExpressionWithOp env ''AND'' field operator value b"

section \<open>Updates\<close>

text \<open>The field name and the index of a list element, \<open>None\<close> for \<open>ok = false\<close>.\<close>

definition parseListIndexOperation :: "string \<Rightarrow> (verror, (string \<times> nat) option) result" where
  "parseListIndexOperation field =
     (if \<not> Contains field ''['' \<or> \<not> HasSuffix field '']'' then Inr None
      else case LastIndexByte field (CHR ''['') of
        None \<Rightarrow> Inl (SecurityError ''InvalidField'' [] ''invalid list index syntax'')
      | Some openBracket \<Rightarrow>
          (if openBracket = 0 \<or> openBracket \<ge> length field - 1
             then Inl (SecurityError ''InvalidField'' [] ''invalid list index syntax'')
           else
             let indexPart = drop (openBracket + 1) (take (length field - 1) field) in
             if indexPart = [] then Inl (SecurityError ''InvalidField'' [] ''list index cannot be empty'')
             else if \<not> list_all isDigit indexPart
               then Inl (SecurityError ''InvalidField'' [] ''list index must be numeric'')
             else case ParseInt64 indexPart of
               None \<Rightarrow> Inl (SecurityError ''InvalidField'' [] ''list index out of range'')
             | Some i \<Rightarrow> (if i < 0 then Inl (SecurityError ''InvalidField'' [] ''list index out of range'')
                         else Inr (Some (take openBracket field, nat i)))))"

definition pushUpdate :: "string \<Rightarrow> string \<Rightarrow> Builder \<Rightarrow> Builder" where
  "pushUpdate action expr b =
     b \<lparr> updateExpressions := AList.update action
           ((case map_of (updateExpressions b) action of Some es \<Rightarrow> es | None \<Rightarrow> []) @ [expr]) (updateExpressions b) \<rparr>"

definition AddUpdateSet :: "convenv \<Rightarrow> string \<Rightarrow> goany \<Rightarrow> Builder \<Rightarrow> (berror, unit) result \<times> Builder" where
  "AddUpdateSet env field value b =
     (case ValidateFieldName field of Inl e \<Rightarrow> (Inl (InvalidFieldName e), b) | Inr _ \<Rightarrow>
      case parseListIndexOperation field of
        Inl e \<Rightarrow> (Inl (InvalidFieldName e), b)
      | Inr target \<Rightarrow>
          (let (ref, b1) = addNameSecure (case target of Some (fieldName, _) \<Rightarrow> fieldName | None \<Rightarrow> field) b;
               lhs = (case target of Some (_, i) \<Rightarrow> ref @ ''['' @ showNat i @ '']'' | None \<Rightarrow> ref) in
           case addValueSecure env value b1 of
             (Inl e, b2) \<Rightarrow> (Inl e, b2)
           | (Inr vr, b2) \<Rightarrow> (Inr (), pushUpdate ''SET'' (lhs @ '' = '' @ vr) b2)))"

definition AddUpdateAdd :: "convenv \<Rightarrow> string \<Rightarrow> goany \<Rightarrow> Builder \<Rightarrow> (berror, unit) result \<times> Builder" where
  "AddUpdateAdd env field value b =
     (case ValidateFieldName field of Inl e \<Rightarrow> (Inl (InvalidFieldName e), b) | Inr _ \<Rightarrow>
      (let (ref, b1) = addNameSecure field b in
       case addValueSecure env value b1 of
         (Inl e, b2) \<Rightarrow> (Inl e, b2)
       | (Inr vr, b2) \<Rightarrow> (Inr (), pushUpdate ''ADD'' (ref @ '' '' @ vr) b2)))"

definition AddUpdateRemove :: "string \<Rightarrow> Builder \<Rightarrow> (berror, unit) result \<times> Builder" where
  "AddUpdateRemove field b =
     (case ValidateFieldName field of Inl e \<Rightarrow> (Inl (InvalidFieldName e), b) | Inr _ \<Rightarrow>
      case parseListIndexOperation field of
        Inl e \<Rightarrow> (Inl (InvalidFieldName e), b)
      | Inr (Some (fieldName, i)) \<Rightarrow>
          (let (ref, b1) = addNameSecure fieldName b in
           (Inr (), pushUpdate ''REMOVE'' (ref @ ''['' @ showNat i @ '']'') b1))
      | Inr None \<Rightarrow> (let (ref, b1) = addNameSecure field b in (Inr (), pushUpdate ''REMOVE'' ref b1)))"

text \<open>\<open>convertToSetAttributeValue\<close>: the type-specific cases and then the fallback by the element kind.\<close>

definition setFromElems :: "convenv \<Rightarrow> gtype \<Rightarrow> gval \<Rightarrow> (berror, attrval) result" where
  "setFromElems env t v =
     (if kindOf t \<noteq> KSlice then Inl (BuilderError ''DELETE operation requires a slice value for sets'')
      else if lenOf v = 0 then Inr (AVNULL True)
      else case kindOf (elemOf t) of
        KString \<Rightarrow> (case v of VSlice xs \<Rightarrow> Inr (AVSS (map (\<lambda>x. case x of VString s \<Rightarrow> s | _ \<Rightarrow> []) xs))
                    | _ \<Rightarrow> Inl (BuilderError ''unsupported set type''))
      | KSlice \<Rightarrow> (if kindOf (elemOf (elemOf t)) = KUint8
                   then (case v of VSlice xs \<Rightarrow> Inr (AVBS (map (\<lambda>x. case x of VBytes y \<Rightarrow> y | _ \<Rightarrow> []) xs))
                         | _ \<Rightarrow> Inl (BuilderError ''unsupported set type''))
                   else Inl (BuilderError ''unsupported set type''))
      | k \<Rightarrow>
         (if k \<in> {KInt, KUint, KUint8, KFloat} then
            (let elems = (case v of VSlice xs \<Rightarrow> xs | VBytes bs \<Rightarrow> map (\<lambda>c. VUint (byteOf c)) bs | _ \<Rightarrow> []) in
             case mapE (\<lambda>x. case ConvertToAttributeValue env (toInterface (elemOf t) x) of
                   Inl e \<Rightarrow> Inl (ConvertFailed e)
                 | Inr (AVN n) \<Rightarrow> Inr n
                 | Inr _ \<Rightarrow> Inl (BuilderError ''expected number type for number set'')) elems of
               Inl e \<Rightarrow> Inl e | Inr ns \<Rightarrow> Inr (AVNS ns))
          else Inl (BuilderError ''unsupported set element type'')))"

definition convertToSetAttributeValue :: "convenv \<Rightarrow> goany \<Rightarrow> (berror, attrval) result" where
  "convertToSetAttributeValue env value =
     (case ValidateValue value of Inl e \<Rightarrow> Inl (SecurityFailed e) | Inr _ \<Rightarrow>
      case value of
        None \<Rightarrow> Inl (BuilderError ''DELETE operation requires a slice value for sets'')
      | Some (t, v) \<Rightarrow>
          (case v of
             VSlice (VIface (Some (TString, VString s)) # xs) \<Rightarrow>
               (if t = TSlice TAny then
                  (if list_all (\<lambda>x. case x of VIface (Some (TString, VString r)) \<Rightarrow> True | _ \<Rightarrow> False) xs
                   then Inr (AVSS (s # map (\<lambda>x. case x of VIface (Some (_, VString r)) \<Rightarrow> r | _ \<Rightarrow> []) xs))
                   else Inl (BuilderError ''mixed types in string set''))
                else setFromElems env t v)
           | _ \<Rightarrow> setFromElems env t v))"

definition addValueAsSet :: "convenv \<Rightarrow> goany \<Rightarrow> Builder \<Rightarrow> (berror, string) result \<times> Builder" where
  "addValueAsSet env value b =
     (case convertToSetAttributeValue env value of
        Inl e \<Rightarrow> (Inl e, b)
      | Inr av \<Rightarrow> (let (ref, b') = bindValue av b in (Inr ref, b')))"

definition AddUpdateDelete :: "convenv \<Rightarrow> string \<Rightarrow> goany \<Rightarrow> Builder \<Rightarrow> (berror, unit) result \<times> Builder" where
  "AddUpdateDelete env field value b =
     (case ValidateFieldName field of Inl e \<Rightarrow> (Inl (InvalidFieldName e), b) | Inr _ \<Rightarrow>
      (let (ref, b1) = addNameSecure field b in
       case addValueAsSet env value b1 of
         (Inl e, b2) \<Rightarrow> (Inl e, b2)
       | (Inr vr, b2) \<Rightarrow> (Inr (), pushUpdate ''DELETE'' (ref @ '' '' @ vr) b2)))"

definition AddAdvancedFunction ::
  "convenv \<Rightarrow> string \<Rightarrow> string \<Rightarrow> goany list \<Rightarrow> Builder \<Rightarrow> (berror, string) result \<times> Builder" where
  "AddAdvancedFunction env function field args b =
     (let (ref, b1) = addNameSecure field b; f = ToLower function in
      if f = ''size'' then (Inr (''size('' @ ref @ '')''), b1)
      else if f = ''attribute_type'' then
        (if length args \<noteq> 1 then (Inl (BuilderError ''attribute_type requires one argument (type)''), b1)
         else withValue env (hd args) b1 (\<lambda>vr. ''attribute_type('' @ ref @ '', '' @ vr @ '')''))
      else if f = ''attribute_exists'' then (Inr (''attribute_exists('' @ ref @ '')''), b1)
      else if f = ''attribute_not_exists'' then (Inr (''attribute_not_exists('' @ ref @ '')''), b1)
      else if f = ''list_append'' then
        (if length args \<noteq> 1 then (Inl (BuilderError ''list_append requires one argument (value to append)''), b1)
         else withValue env (hd args) b1 (\<lambda>vr. ''list_append('' @ ref @ '', '' @ vr @ '')''))
      else (Inl (BuilderError ''unsupported function''), b1))"

text \<open>\<open>args[i] == field\<close>: an interface compared with a string is equal only when it holds that very string.\<close>

definition setPush ::
  "(berror, string list) result \<times> Builder \<Rightarrow> (string list \<Rightarrow> string) \<Rightarrow> (berror, unit) result \<times> Builder" where
  "setPush r render =
     (case r of (Inl e, b') \<Rightarrow> (Inl e, b') | (Inr refs, b') \<Rightarrow> (Inr (), pushUpdate ''SET'' (render refs) b'))"

definition AddUpdateFunction ::
  "convenv \<Rightarrow> string \<Rightarrow> string \<Rightarrow> goany list \<Rightarrow> Builder \<Rightarrow> (berror, unit) result \<times> Builder" where
  "AddUpdateFunction env field function args b =
     (let (ref, b1) = addNameSecure field b; self = Some (TString, VString field) in
      if function = ''list_append'' then
        (if length args \<noteq> 2 then (Inl (BuilderError ''list_append requires exactly 2 arguments''), b1)
         else if args ! 0 = self then
           setPush (addValuesSecure env [args ! 1] b1) (\<lambda>vs. ref @ '' = list_append('' @ ref @ '', '' @ hd vs @ '')'')
         else if args ! 1 = self then
           setPush (addValuesSecure env [args ! 0] b1) (\<lambda>vs. ref @ '' = list_append('' @ hd vs @ '', '' @ ref @ '')'')
         else
           setPush (addValuesSecure env args b1) (\<lambda>vs. ref @ '' = list_append('' @ vs ! 0 @ '', '' @ vs ! 1 @ '')''))
      else if function = ''if_not_exists'' then
        (if length args \<noteq> 2 then (Inl (BuilderError ''if_not_exists requires exactly 2 arguments''), b1)
         else setPush (addValuesSecure env [args ! 1] b1) (\<lambda>vs. ref @ '' = if_not_exists('' @ ref @ '', '' @ hd vs @ '')''))
      else (Inl (BuilderError ''unsupported update function''), b1))"

section \<open>Build, reset, clone\<close>

text \<open>The filter loop indexes \<open>filterOperators\<close> without a check (\<open>None\<close> is the panic), the condition loop
  falls back to \<open>AND\<close>.\<close>

fun joinWithOps :: "string list \<Rightarrow> string list \<Rightarrow> string option" where
  "joinWithOps [] ops = Some []"
| "joinWithOps (c # cs) [] = (if cs = [] then Some c else None)"
| "joinWithOps (c # cs) (op # ops) = (if cs = [] then Some c
     else map_option (\<lambda>rest. c @ '' '' @ op @ '' '' @ rest) (joinWithOps cs ops))"

fun joinWithOpsAnd :: "string list \<Rightarrow> string list \<Rightarrow> string" where
  "joinWithOpsAnd [] ops = []"
| "joinWithOpsAnd [c] ops = c"
| "joinWithOpsAnd (c # cs) [] = c @ '' AND '' @ joinWithOpsAnd cs []"
| "joinWithOpsAnd (c # cs) (op # ops) = c @ '' '' @ op @ '' '' @ joinWithOpsAnd cs ops"

definition updateParts :: "(string \<times> string list) list \<Rightarrow> string list" where
  "updateParts ue = map (\<lambda>(action, exprs). action @ '' '' @ Join exprs '', '') (filter (\<lambda>(action, exprs). exprs \<noteq> []) ue)"

definition Build :: "Builder \<Rightarrow> ExpressionComponents option" where
  "Build b =
     (case joinWithOps (filterConditions b) (filterOperators b) of
        None \<Rightarrow> None
      | Some filterExpr \<Rightarrow> Some \<lparr>
          ExpressionAttributeNames = names b,
          ExpressionAttributeValues = bvalues b,
          KeyConditionExpression = Join (keyConditions b) '' AND '',
          FilterExpression = filterExpr,
          ProjectionExpression = Join (projections b) '', '',
          UpdateExpression = Join (updateParts (updateExpressions b)) '' '',
          ConditionExpression = joinWithOpsAnd (conditions b) (conditionOperators b) \<rparr>)"

definition ResetConditions :: "Builder \<Rightarrow> Builder" where
  "ResetConditions b = b \<lparr> conditions := [], conditionOperators := [] \<rparr>"

definition Clone :: "Builder option \<Rightarrow> Builder" where
  "Clone ob = (case ob of None \<Rightarrow> NewBuilder
     | Some b \<Rightarrow> \<lparr> converter = converter b, updateExpressions = updateExpressions b, names = names b,
         bvalues = bvalues b, keyConditions = keyConditions b, filterConditions = filterConditions b,
         conditions = conditions b, projections = projections b, filterOperators = filterOperators b,
         conditionOperators = conditionOperators b, nameCounter = nameCounter b, valueCounter = valueCounter b \<rparr>)"

text \<open>The equations that evaluate the builder on concrete input.\<close>

lemmas builder_eval = buildCondition_def operatorSwitch_def withValue_def addValueSecure_def convertValue_def
  ConvertToAttributeValueSecure_def ConvertToAttributeValue_def bindValue_def addNameSecure_def bindName_def
  keyOf_def nameRef_def valueRef_def reservedPlaceholder_def isReservedWord_def NewBuilder_def plainEnv_def withMarshaler_def
  showInt_def showNat.simps comparisonSymbol_def reservedWords_def char_eval validation_eval
  AddFilterCondition_def AddGroupFilter_def pushFilter_def AddUpdateSet_def parseListIndexOperation_def pushUpdate_def
  Build_def updateParts_def ParseInt64_def parseDigits_def digitsVal_def

end
