(* ===== verification/ExprProps.thy ===== *)
theory ExprProps
  imports ExprBuilder
begin

text \<open>
  Correctness of the expression builder: the invariant of its placeholder maps, what a placeholder
  denotes, that it keeps its meaning over any later sequence of calls, that a failed call
  leaves the recorded expressions alone, and that \<open>Build\<close> never indexes out of range.
\<close>

section \<open>Sequences of steps that only extend a map\<close>

fun allOk :: "('op \<Rightarrow> 's \<Rightarrow> 's) \<Rightarrow> ('op \<Rightarrow> 's \<Rightarrow> bool) \<Rightarrow> 'op list \<Rightarrow> 's \<Rightarrow> bool" where
  "allOk step ok [] s = True"
| "allOk step ok (p # ps) s = (ok p s \<and> allOk step ok ps (step p s))"

text \<open>The contract the two placeholder maps share: a step keeps the invariant and never rebinds a key.\<close>

locale extending =
  fixes apply_op :: "'op \<Rightarrow> 's \<Rightarrow> 's"
    and ok :: "'op \<Rightarrow> 's \<Rightarrow> bool"
    and invar :: "'s \<Rightarrow> bool"
    and view :: "'s \<Rightarrow> ('k \<rightharpoonup> 'v)"
  assumes op_invar: "invar s \<Longrightarrow> ok p s \<Longrightarrow> invar (apply_op p s)"
    and op_extends: "invar s \<Longrightarrow> ok p s \<Longrightarrow> view s \<subseteq>\<^sub>m view (apply_op p s)"
begin

lemma run_invar: "invar s \<Longrightarrow> allOk apply_op ok ps s \<Longrightarrow> invar (fold apply_op ps s)"
  by (induction ps arbitrary: s) (auto intro: op_invar)

lemma run_extends: "invar s \<Longrightarrow> allOk apply_op ok ps s \<Longrightarrow> view s \<subseteq>\<^sub>m view (fold apply_op ps s)"
proof (induction ps arbitrary: s)
  case (Cons p ps)
  then have "view (apply_op p s) \<subseteq>\<^sub>m view (fold apply_op ps (apply_op p s))" by (auto intro: op_invar)
  moreover have "view s \<subseteq>\<^sub>m view (apply_op p s)" using Cons by (auto intro: op_extends)
  ultimately show ?case by (auto intro: map_le_trans)
qed simp

end

section \<open>Placeholders\<close>

definition parts :: "string \<Rightarrow> string list" where
  "parts name = SplitByte (CHR ''.'') name"

text \<open>What a name reference denotes: the attribute name bound to each of its placeholders.\<close>

definition resolvePath :: "(string \<times> string) list \<Rightarrow> string \<Rightarrow> string option list" where
  "resolvePath nm ref = map (map_of nm) (SplitByte (CHR ''.'') ref)"

definition nameEntryOk :: "nat \<Rightarrow> string \<times> string \<Rightarrow> bool" where
  "nameEntryOk c e = (CHR ''.'' \<notin> set (snd e) \<and>
     ((isReservedWord (snd e) \<and> fst e = reservedPlaceholder (snd e)) \<or> (\<exists>i. 1 \<le> i \<and> i \<le> c \<and> fst e = nameRef i)))"

definition valueEntryOk :: "nat \<Rightarrow> string \<times> attrval \<Rightarrow> bool" where
  "valueEntryOk c e = (\<exists>i. 1 \<le> i \<and> i \<le> c \<and> fst e = valueRef i)"

definition namesInv :: "Builder \<Rightarrow> bool" where
  "namesInv b = (distinct (map fst (names b)) \<and> (\<forall>e \<in> set (names b). nameEntryOk (nameCounter b) e))"

definition valuesInv :: "Builder \<Rightarrow> bool" where
  "valuesInv b = (distinct (map fst (bvalues b)) \<and> (\<forall>e \<in> set (bvalues b). valueEntryOk (valueCounter b) e))"

text \<open>No two spellings of one reserved word: the condition under which \<open>#WORD\<close> placeholders do not collide.\<close>

definition caseConsistent :: "(string \<times> string) list \<Rightarrow> string list \<Rightarrow> bool" where
  "caseConsistent nm ps = (\<forall>p \<in> set ps. isReservedWord p \<longrightarrow>
     (case map_of nm (reservedPlaceholder p) of None \<Rightarrow> True | Some q \<Rightarrow> q = p) \<and>
     (\<forall>q \<in> set ps. ToUpper q = ToUpper p \<longrightarrow> q = p))"

lemma reservedWords_shape: "w \<in> set reservedWords \<Longrightarrow> CHR ''.'' \<notin> set w \<and> w \<noteq> [] \<and> hd w \<noteq> CHR ''n''"
proof -
  have "list_all (\<lambda>w. CHR ''.'' \<notin> set w \<and> w \<noteq> [] \<and> hd w \<noteq> CHR ''n'') reservedWords"
    unfolding reservedWords_def by simp
  then show "w \<in> set reservedWords \<Longrightarrow> CHR ''.'' \<notin> set w \<and> w \<noteq> [] \<and> hd w \<noteq> CHR ''n''"
    by (simp add: list_all_iff)
qed

lemma showNat_no_dot [simp]: "CHR ''.'' \<notin> set (showNat n)"
proof
  assume "CHR ''.'' \<in> set (showNat n)"
  then have "isDigit (CHR ''.'')" using showNat_digits[of n] by (auto simp: list_all_iff)
  then show False by (simp add: isDigit_def)
qed

lemma nameRef_inj [simp]: "nameRef i = nameRef j \<longleftrightarrow> i = j"
  by (simp add: nameRef_def)

lemma valueRef_inj [simp]: "valueRef i = valueRef j \<longleftrightarrow> i = j"
  by (simp add: valueRef_def)

lemma reserved_not_nameRef: "isReservedWord w \<Longrightarrow> reservedPlaceholder w \<noteq> nameRef i"
  using reservedWords_shape[of "ToUpper w"]
  by (cases "ToUpper w") (auto simp: isReservedWord_def reservedPlaceholder_def nameRef_def)

lemma placeholder_no_dot: "nameEntryOk c e \<Longrightarrow> CHR ''.'' \<notin> set (fst e)"
  using reservedWords_shape by (auto simp: nameEntryOk_def isReservedWord_def reservedPlaceholder_def nameRef_def)

lemma nameEntryOk_mono: "nameEntryOk c e \<Longrightarrow> c \<le> d \<Longrightarrow> nameEntryOk d e"
  unfolding nameEntryOk_def by (meson le_trans)

lemma namesInv_keys:
  assumes "namesInv b" "k \<in> fst ` set (names b)"
  obtains w where "k = reservedPlaceholder w" "isReservedWord w" "map_of (names b) k = Some w"
  | i where "1 \<le> i" "i \<le> nameCounter b" "k = nameRef i"
  using assms by (auto simp: namesInv_def nameEntryOk_def)

lemma fresh_nameRef: "namesInv b \<Longrightarrow> nameRef (Suc (nameCounter b)) \<notin> fst ` set (names b)"
  by (auto elim!: namesInv_keys dest: reserved_not_nameRef[symmetric])

lemma update_entries: "e \<in> set (AList.update k v al) \<Longrightarrow> e = (k, v) \<or> e \<in> set al"
  by (induction al) (auto split: if_splits)

lemma bindName_spec:
  assumes "namesInv b" "CHR ''.'' \<notin> set part" "caseConsistent (names b) [part]" "bindName part b = (ph, b')"
  shows "namesInv b'" "map_of (names b') ph = Some part" "map_of (names b) \<subseteq>\<^sub>m map_of (names b')"
    "CHR ''.'' \<notin> set ph" "nameCounter b' = Suc (nameCounter b)"
    "b' = b \<lparr> names := names b', nameCounter := nameCounter b' \<rparr>"
proof -
  have ph: "ph = (if isReservedWord part then reservedPlaceholder part else nameRef (Suc (nameCounter b)))"
    and b': "b' = b \<lparr> nameCounter := Suc (nameCounter b), names := AList.update ph part (names b) \<rparr>"
    using assms(4) by (auto simp: bindName_def Let_def)
  have entry: "nameEntryOk (Suc (nameCounter b)) (ph, part)"
    using assms(2) ph by (auto simp: nameEntryOk_def)
  show "namesInv b'"
    using assms(1) entry b' nameEntryOk_mono[of "nameCounter b" _ "Suc (nameCounter b)"]
    by (auto simp: namesInv_def dest!: update_entries)
  have "map_of (names b) ph = None \<or> map_of (names b) ph = Some part"
  proof (cases "isReservedWord part")
    case True
    then show ?thesis
      using assms(3) ph by (cases "map_of (names b) ph") (auto simp: caseConsistent_def)
  next
    case False
    then show ?thesis using fresh_nameRef[OF assms(1)] ph by (auto simp: map_of_eq_None_iff)
  qed
  then show "map_of (names b) \<subseteq>\<^sub>m map_of (names b')" using b' by (auto simp: map_le_def)
  show "CHR ''.'' \<notin> set ph" using placeholder_no_dot[OF entry] by simp
qed (use assms(4) in \<open>auto simp: bindName_def Let_def\<close>)

lemma map_le_SomeD: "m \<subseteq>\<^sub>m m' \<Longrightarrow> m k = Some v \<Longrightarrow> m' k = Some v"
  by (auto simp: map_le_def dom_def)

lemma caseConsistent_tl:
  assumes "caseConsistent (names b) (p # ps)" "namesInv b" "CHR ''.'' \<notin> set p" "bindName p b = (ph, b')"
  shows "caseConsistent (names b') ps"
proof -
  have ph: "ph = (if isReservedWord p then reservedPlaceholder p else nameRef (Suc (nameCounter b)))"
    and nm: "names b' = AList.update ph p (names b)"
    using assms(4) by (auto simp: bindName_def Let_def)
  have "q = r" if "q \<in> set ps" "isReservedWord q" "map_of (names b') (reservedPlaceholder q) = Some r" for q r
  proof (cases "reservedPlaceholder q = ph")
    case True
    then have "isReservedWord p" "ToUpper p = ToUpper q" "r = p"
      using that ph nm reserved_not_nameRef[OF that(2)] by (auto simp: reservedPlaceholder_def split: if_splits)
    then show ?thesis using assms(1) that(1,2) by (auto simp: caseConsistent_def)
  next
    case False
    then show ?thesis using assms(1) that nm by (auto simp: caseConsistent_def split: option.splits)
  qed
  then show ?thesis using assms(1) by (auto simp: caseConsistent_def split: option.splits)
qed

lemma bindParts_spec:
  assumes "namesInv b" "caseConsistent (names b) ps"
    "\<forall>p \<in> set ps. CHR ''.'' \<notin> set p \<and> ValidateFieldName p = Inr ()" "bindParts ps acc b = (ref, b')"
  shows "namesInv b' \<and> map_of (names b) \<subseteq>\<^sub>m map_of (names b')
     \<and> b' = b \<lparr> names := names b', nameCounter := nameCounter b' \<rparr>
     \<and> (\<exists>phs. ref = Join (acc @ phs) ''.'' \<and> map (map_of (names b')) phs = map Some ps
           \<and> (\<forall>ph \<in> set phs. CHR ''.'' \<notin> set ph))"
  using assms
proof (induction ps arbitrary: acc b)
  case (Cons p ps)
  obtain ph b1 where b1: "bindName p b = (ph, b1)" by (cases "bindName p b")
  have dot: "CHR ''.'' \<notin> set p" using Cons.prems(3) by simp
  have "caseConsistent (names b) [p]" using Cons.prems(2) by (auto simp: caseConsistent_def)
  note spec = bindName_spec[OF Cons.prems(1) dot this b1]
  have step: "bindParts ps (acc @ [ph]) b1 = (ref, b')" using Cons.prems(3,4) b1 by simp
  have IH: "namesInv b' \<and> map_of (names b1) \<subseteq>\<^sub>m map_of (names b')
     \<and> b' = b1 \<lparr> names := names b', nameCounter := nameCounter b' \<rparr>
     \<and> (\<exists>phs. ref = Join ((acc @ [ph]) @ phs) ''.'' \<and> map (map_of (names b')) phs = map Some ps
           \<and> (\<forall>ph \<in> set phs. CHR ''.'' \<notin> set ph))"
    using Cons.IH[OF spec(1) caseConsistent_tl[OF Cons.prems(2,1) dot b1] _ step] Cons.prems(3) by auto
  then obtain phs where phs: "ref = Join (acc @ ph # phs) ''.''" "map (map_of (names b')) phs = map Some ps"
      "\<forall>ph \<in> set phs. CHR ''.'' \<notin> set ph" by auto
  have "map_of (names b') ph = Some p" using IH spec(2) map_le_SomeD by metis
  then have "map (map_of (names b')) (ph # phs) = map Some (p # ps)"
      "\<forall>x \<in> set (ph # phs). CHR ''.'' \<notin> set x" using phs spec(4) by auto
  moreover have "b' = b \<lparr> names := names b', nameCounter := nameCounter b' \<rparr>"
    using IH spec(6) by (metis Builder.surjective Builder.update_convs(3) Builder.update_convs(11))
  moreover have "namesInv b'" "map_of (names b) \<subseteq>\<^sub>m map_of (names b')" using IH spec(3) map_le_trans by blast+
  ultimately show ?case using phs(1) by blast
qed auto

section \<open>The parts of a valid path are valid names\<close>

lemma SplitByte_hd: "\<exists>y. s = hd (SplitByte b s) @ y \<and> (y = [] \<or> hd y = b)"
proof (induction s)
  case (Cons c s)
  then show ?case by (cases "SplitByte b s") auto
qed simp

lemma SplitByte_tl: "p \<in> set (tl (SplitByte b s)) \<Longrightarrow> \<exists>x y. s = x @ [b] @ p @ y \<and> (y = [] \<or> hd y = b)"
proof (induction s)
  case (Cons c s)
  show ?case
  proof (cases "c = b")
    case True
    then have "p \<in> set (SplitByte b s)" using Cons.prems by simp
    then consider "p = hd (SplitByte b s)" | "p \<in> set (tl (SplitByte b s))" by (cases "SplitByte b s") auto
    then show ?thesis
    proof cases
      case 1
      then show ?thesis using SplitByte_hd[of s b] True by (metis append_Cons append_Nil)
    next
      case 2
      then show ?thesis using Cons.IH by (metis append_Cons)
    qed
  next
    case False
    then have "p \<in> set (tl (SplitByte b s))" using Cons.prems by (cases "SplitByte b s") auto
    then show ?thesis using Cons.IH by (metis append_Cons)
  qed
qed simp

lemma SplitByte_context:
  assumes "p \<in> set (SplitByte b s)" "s \<noteq> p"
  shows "sublist (b # p) s \<or> sublist (p @ [b]) s"
proof (cases "p \<in> set (tl (SplitByte b s))")
  case True
  then show ?thesis using SplitByte_tl[OF True] by (auto simp: sublist_def)
next
  case False
  then have p: "p = hd (SplitByte b s)" using assms(1) by (cases "SplitByte b s") auto
  obtain y where y: "s = p @ y" "y = [] \<or> hd y = b" using SplitByte_hd[of s b] p by auto
  then obtain z where "y = b # z" using assms(2) by (cases y) auto
  then have "s = [] @ (p @ [b]) @ z" using y by simp
  then show ?thesis unfolding sublist_def by blast
qed

lemma legit_no_dot: "isLegitimateFieldName f \<Longrightarrow> isASCII f \<Longrightarrow> CHR ''.'' \<notin> set f"
proof
  assume f: "isLegitimateFieldName f" "isASCII f" "CHR ''.'' \<in> set f"
  have fold: "isASCII s \<Longrightarrow> foldCase s = map lowerByte s" for s
    by (induction s rule: foldCase.induct) auto
  have "lowerByte (CHR ''.'') = CHR ''.''" by (simp add: lowerByte_def isUpper_def)
  then have "CHR ''.'' \<in> set (foldCase f)" using f fold[OF f(2)] by force
  moreover have "list_all (\<lambda>ps. list_all (\<lambda>p. CHR ''.'' \<notin> set p) ps) legitimateFieldPatterns"
    by (simp add: legitimateFieldPatterns_def stampNames_def)
  ultimately show False using f(1) by (auto simp: isLegitimateFieldName_def list_ex_iff list_all_iff)
qed

lemma part_keyword_exact:
  assumes "list_all pathChar p" "CHR ''.'' \<notin> set p" "isStandaloneOrSuspiciousKeyword (ToLower p) kw"
  shows "ToLower p = kw"
proof (rule ccontr)
  assume "ToLower p \<noteq> kw"
  then obtain q where q: "Contains (ToLower p) q"
      "q \<in> {kw @ '';'', '';'' @ kw, kw @ '' '', '' '' @ kw, kw @ ''.'', ''.'' @ kw, kw @ ''-'', ''-'' @ kw}"
    using assms(3) unfolding isStandaloneOrSuspiciousKeyword_def by auto
  have "set q \<inter> {CHR '';'', CHR '' '', CHR ''.'', CHR ''-''} \<noteq> {}" using q(2) by auto
  moreover have "set q \<subseteq> lowerByte ` set p"
    using Contains_set[OF q(1)] ToLower_ASCII[of p] assms(1) pathChar_ascii by (fastforce simp: list_all_iff)
  ultimately obtain c where c: "c \<in> set p" "lowerByte c \<in> {CHR '';'', CHR '' '', CHR ''.'', CHR ''-''}" by auto
  then have "pathChar c" "c \<noteq> CHR ''.''" using assms(1,2) by (auto simp: list_all_iff)
  then have "byteOf (lowerByte c) \<notin> {0x3B, 0x20, 0x2E, 0x2D}"
    by (auto simp: pathChar_def identChar_def isLetter_def isUpper_def isLower_def isDigit_def lowerByte_def)
  then show False using c(2) by auto
qed

lemma part_valid:
  assumes ok: "ValidateFieldName name = Inr ()" and p: "p \<in> set (parts name)"
  shows "ValidateFieldName p = Inr ()"
proof (cases "name = p")
  case False
  have wf: "wellFormedPath name" "\<not> suspiciousName name" using ok ValidateFieldName_accepts by auto
  have nodot: "CHR ''.'' \<notin> set p" using p SplitByte_no_sep by (auto simp: parts_def)
  have part: "pathPart p" using wf p by (auto simp: wellFormedPath_def parts_def)
  then have ne: "p \<noteq> []" using fieldPattern_nonempty by (auto simp: pathPart_def)
  have chars: "list_all pathChar p" using part pathPart_chars by (simp add: list_all_iff)
  have ctx: "sublist (CHR ''.'' # p) name \<or> sublist (p @ ''.'') name"
    using SplitByte_context[of p] p False by (auto simp: parts_def)
  then have len: "length p \<le> 255" using wf(1) sublist_length_le by (fastforce simp: wellFormedPath_def)
  have ascii: "isASCII name" using wellFormedPath_chars[OF wf(1)] pathChar_ascii by (fastforce simp: list_all_iff)
  have dot: "CHR ''.'' \<in> set name" using ctx set_mono_sublist by fastforce
  have "\<not> suspiciousName p"
  proof
    assume "suspiciousName p"
    then obtain kw where kw: "kw \<in> set sqlKeywords" "ToLower p = kw"
      using part_keyword_exact[OF chars nodot] by (auto simp: suspiciousName_def list_ex_iff)
    have "isASCII p" using chars pathChar_ascii by (fastforce simp: list_all_iff)
    then have low: "ToLower name = map lowerByte name" "kw = map lowerByte p"
      using ascii kw(2) by (simp_all add: ToLower_ASCII)
    have "lowerByte (CHR ''.'') = CHR ''.''" by (simp add: lowerByte_def isUpper_def)
    then have "sublist (''.'' @ kw) (ToLower name) \<or> sublist (kw @ ''.'') (ToLower name)"
      using ctx low map_mono_sublist[of _ name lowerByte] by fastforce
    then have "isStandaloneOrSuspiciousKeyword (ToLower name) kw"
      by (auto simp: isStandaloneOrSuspiciousKeyword_def Contains_sublist)
    then show False using wf(2) kw(1) legit_no_dot[OF _ ascii] dot
      by (auto simp: suspiciousName_def list_ex_iff)
  qed
  moreover have "wellFormedPath p"
    using ne len part nodot by (simp add: wellFormedPath_def SplitByte_absent)
  ultimately show ?thesis by (simp add: ValidateFieldName_accepts)
qed (use ok in simp)

lemma SplitByte_Join:
  "ps \<noteq> [] \<Longrightarrow> \<forall>p \<in> set ps. b \<notin> set p \<Longrightarrow> SplitByte b (Join ps [b]) = ps"
proof (induction ps rule: induct_list012)
  case (2 p)
  then show ?case by (simp add: SplitByte_absent)
next
  case (3 p q ps)
  have "SplitByte b (p @ b # s) = p # SplitByte b s" if "b \<notin> set p" for s
    using that by (induction p) auto
  then show ?case using 3 by simp
qed simp

section \<open>What adding a name and adding a value do\<close>

lemma addNameSecure_spec:
  assumes "namesInv b" "ValidateFieldName name = Inr ()" "caseConsistent (names b) (parts name)"
    "addNameSecure name b = (ref, b')"
  shows "namesInv b'" "map_of (names b) \<subseteq>\<^sub>m map_of (names b')"
    "b' = b \<lparr> names := names b', nameCounter := nameCounter b' \<rparr>"
    "resolvePath (names b') ref = map Some (parts name)"
proof -
  have "namesInv b' \<and> map_of (names b) \<subseteq>\<^sub>m map_of (names b')
    \<and> b' = b \<lparr> names := names b', nameCounter := nameCounter b' \<rparr>
    \<and> resolvePath (names b') ref = map Some (parts name)"
  proof (cases "keyOf (names b) name")
    case (Some ph)
    then have mem: "(ph, name) \<in> set (names b)" by (rule keyOf_Some_mem)
    then have e: "nameEntryOk (nameCounter b) (ph, name)" using assms(1) by (auto simp: namesInv_def)
    then have "CHR ''.'' \<notin> set name" "CHR ''.'' \<notin> set ph" using placeholder_no_dot[OF e] by (auto simp: nameEntryOk_def)
    moreover have "map_of (names b) ph = Some name" using mem assms(1) by (auto simp: namesInv_def)
    ultimately show ?thesis
      using assms Some by (auto simp: addNameSecure_def resolvePath_def parts_def SplitByte_absent)
  next
    case None
    show ?thesis
    proof (cases "CHR ''.'' \<in> set name")
      case True
      then have "bindParts (parts name) [] b = (ref, b')"
        using assms(2,4) None by (simp add: addNameSecure_def parts_def)
      from bindParts_spec[OF assms(1,3) _ this] obtain phs where
        *: "namesInv b'" "map_of (names b) \<subseteq>\<^sub>m map_of (names b')"
           "b' = b \<lparr> names := names b', nameCounter := nameCounter b' \<rparr>" "ref = Join phs ''.''"
           "map (map_of (names b')) phs = map Some (parts name)" "\<forall>ph \<in> set phs. CHR ''.'' \<notin> set ph"
        using part_valid[OF assms(2)] SplitByte_no_sep by (auto simp: parts_def)
      have "phs \<noteq> []" using *(5) by (auto simp: parts_def)
      then show ?thesis using * by (simp add: resolvePath_def SplitByte_Join)
    next
      case False
      then have p: "parts name = [name]" by (simp add: parts_def SplitByte_absent)
      have "bindName name b = (ref, b')" using assms(2,4) None False by (simp add: addNameSecure_def)
      note spec = bindName_spec[OF assms(1) False _ this]
      show ?thesis using spec assms(3) p by (simp add: resolvePath_def SplitByte_absent)
    qed
  qed
  then show "namesInv b'" "map_of (names b) \<subseteq>\<^sub>m map_of (names b')"
    "b' = b \<lparr> names := names b', nameCounter := nameCounter b' \<rparr>"
    "resolvePath (names b') ref = map Some (parts name)" by blast+
qed

text \<open>A step that only adds value placeholders.\<close>

definition addsValues :: "Builder \<Rightarrow> Builder \<Rightarrow> bool" where
  "addsValues b b' = (valuesInv b' \<and> map_of (bvalues b) \<subseteq>\<^sub>m map_of (bvalues b')
     \<and> b' = b \<lparr> bvalues := bvalues b', valueCounter := valueCounter b' \<rparr>)"

lemma addsValues_refl: "valuesInv b \<Longrightarrow> addsValues b b"
  by (simp add: addsValues_def)

lemma addsValues_trans: "addsValues a b \<Longrightarrow> addsValues b c \<Longrightarrow> addsValues a c"
  unfolding addsValues_def
  by (metis (no_types, lifting) Builder.surjective Builder.update_convs(4) Builder.update_convs(12) map_le_trans)

lemma addsValues_converter: "addsValues b b' \<Longrightarrow> converter b' = converter b \<and> names b' = names b"
  unfolding addsValues_def by (metis Builder.select_convs(1,3) Builder.surjective Builder.update_convs(4) Builder.update_convs(12))

lemma bindValue_spec:
  assumes "valuesInv b" "bindValue av b = (ref, b')"
  shows "addsValues b b'" "map_of (bvalues b') ref = Some av"
proof -
  have fresh: "valueRef (Suc (valueCounter b)) \<notin> fst ` set (bvalues b)"
    using assms(1) by (auto simp: valuesInv_def valueEntryOk_def)
  have b': "ref = valueRef (Suc (valueCounter b))"
      "b' = b \<lparr> valueCounter := Suc (valueCounter b), bvalues := AList.update ref av (bvalues b) \<rparr>"
    using assms(2) by (auto simp: bindValue_def Let_def)
  have "valuesInv b'"
    using assms(1) b' unfolding valuesInv_def valueEntryOk_def
    by (auto dest!: update_entries)
  moreover have "map_of (bvalues b) \<subseteq>\<^sub>m map_of (bvalues b')"
    using fresh b' by (force simp: map_le_def map_of_eq_None_iff[symmetric])
  ultimately show "addsValues b b'" using b' by (simp add: addsValues_def)
  show "map_of (bvalues b') ref = Some av" using b' by simp
qed

lemma convertValue_cong: "converter b = converter b' \<Longrightarrow> convertValue env b = convertValue env b'"
  by (simp add: convertValue_def fun_eq_iff)

lemma addValuesSecure_spec:
  assumes "valuesInv b" "addValuesSecure env vs b = (r, b')"
  shows "addsValues b b' \<and> (\<forall>refs. r = Inr refs \<longrightarrow>
     (\<exists>avs. mapE (convertValue env b) vs = Inr avs \<and> map (map_of (bvalues b')) refs = map Some avs))"
  using assms
proof (induction vs arbitrary: b r b')
  case Nil
  then show ?case by (auto simp: addsValues_refl)
next
  case (Cons v vs)
  show ?case
  proof (cases "convertValue env b v")
    case (Inl e)
    then show ?thesis using Cons.prems by (auto simp: addValueSecure_def addsValues_refl)
  next
    case (Inr av)
    obtain ref b1 where b1: "bindValue av b = (ref, b1)" by (cases "bindValue av b")
    note spec = bindValue_spec[OF Cons.prems(1) b1]
    obtain r2 b2 where rest: "addValuesSecure env vs b1 = (r2, b2)" by (cases "addValuesSecure env vs b1")
    have inv1: "valuesInv b1" using spec(1) by (simp add: addsValues_def)
    have b2: "b2 = b'" "r = (case r2 of Inl e \<Rightarrow> Inl e | Inr refs \<Rightarrow> Inr (ref # refs))"
      using Cons.prems(2) Inr b1 rest by (auto simp: addValueSecure_def split: sum.splits)
    note IH = Cons.IH[OF inv1 rest]
    have conv: "convertValue env b1 = convertValue env b"
      by (rule convertValue_cong) (simp add: addsValues_converter[OF spec(1)])
    have "map_of (bvalues b1) \<subseteq>\<^sub>m map_of (bvalues b2)" using IH by (simp add: addsValues_def)
    then have "map_of (bvalues b2) ref = Some av" using spec(2) by (rule map_le_SomeD)
    moreover have "addsValues b b2" using IH addsValues_trans[OF spec(1)] by blast
    ultimately show ?thesis using IH b2 Inr conv by (cases r2) auto
  qed
qed

section \<open>Conditions mean what the caller gave\<close>

definition operandsOf :: "string \<Rightarrow> goany \<Rightarrow> goany list" where
  "operandsOf op value =
     (if op = ''BETWEEN'' then (case value of Some (t, VSlice xs) \<Rightarrow> map (toInterface TAny) xs | _ \<Rightarrow> [])
      else if op = ''IN'' then (case convertToSliceSecure value of Inr vs \<Rightarrow> vs | Inl _ \<Rightarrow> [])
      else if op \<in> {''EXISTS'', ''ATTRIBUTE_EXISTS'', ''NOT_EXISTS'', ''ATTRIBUTE_NOT_EXISTS''} then []
      else [value])"

text \<open>The DynamoDB condition syntax of each operator, over the references to the attribute and the operands.\<close>

definition conditionText :: "string \<Rightarrow> string \<Rightarrow> string list \<Rightarrow> string" where
  "conditionText op ref vrefs =
     (case comparisonSymbol op of Some cmp \<Rightarrow> ref @ '' '' @ cmp @ '' '' @ Join vrefs []
      | None \<Rightarrow>
        (if op = ''BETWEEN'' then ref @ '' BETWEEN '' @ Join vrefs '' AND ''
         else if op = ''IN'' then ref @ '' IN ('' @ Join vrefs '', '' @ '')''
         else (if op = ''BEGINS_WITH'' then ''begins_with'' else if op = ''CONTAINS'' then ''contains''
               else if op \<in> {''EXISTS'', ''ATTRIBUTE_EXISTS''} then ''attribute_exists'' else ''attribute_not_exists'')
              @ ''('' @ Join (ref # vrefs) '', '' @ '')''))"

lemma withValue_values:
  "withValue env v b render =
     (case addValuesSecure env [v] b of (Inl e, b') \<Rightarrow> (Inl e, b') | (Inr vrefs, b') \<Rightarrow> (Inr (render (Join vrefs [])), b'))"
  by (auto simp: withValue_def split: prod.splits sum.splits)

lemma addValuesSecure_refs_length: "addValuesSecure env vs b = (Inr refs, b') \<Longrightarrow> length refs = length vs"
  by (induction vs arbitrary: b refs b') (auto split: prod.splits sum.splits)

declare addValuesSecure.simps [simp del]

lemma comparisonSymbol_words [simp]:
  "comparisonSymbol ''BETWEEN'' = None" "comparisonSymbol ''IN'' = None" "comparisonSymbol ''BEGINS_WITH'' = None"
  "comparisonSymbol ''CONTAINS'' = None" "comparisonSymbol ''EXISTS'' = None" "comparisonSymbol ''ATTRIBUTE_EXISTS'' = None"
  "comparisonSymbol ''NOT_EXISTS'' = None" "comparisonSymbol ''ATTRIBUTE_NOT_EXISTS'' = None"
  by (simp_all add: comparisonSymbol_def)

lemma operatorSwitch_values:
  assumes "operatorSwitch env op ref value b = (r, b')"
  shows "b' = b \<and> (\<exists>e. r = Inl e) \<or>
    (case addValuesSecure env (operandsOf op value) b of (Inl e, b2) \<Rightarrow> (Inl e, b2)
       | (Inr vrefs, b2) \<Rightarrow> (Inr (conditionText op ref vrefs), b2)) = (r, b')"
proof (cases "comparisonSymbol op")
  case (Some cmp)
  have "op \<notin> {''BETWEEN'', ''IN'', ''EXISTS'', ''ATTRIBUTE_EXISTS'', ''NOT_EXISTS'', ''ATTRIBUTE_NOT_EXISTS''}"
    using Some by (auto simp: comparisonSymbol_def)
  then have "operandsOf op value = [value]" by (simp add: operandsOf_def)
  then show ?thesis using assms Some
    by (auto simp: operatorSwitch_def withValue_values conditionText_def split: prod.splits sum.splits)
next
  case None
  note defs = operatorSwitch_def conditionText_def operandsOf_def withValue_values None
  consider "op = ''BETWEEN''" | "op = ''IN''" | "op \<in> {''BEGINS_WITH'', ''CONTAINS''}"
    | "op \<in> {''EXISTS'', ''ATTRIBUTE_EXISTS'', ''NOT_EXISTS'', ''ATTRIBUTE_NOT_EXISTS''}"
    | "op \<noteq> ''BETWEEN''" "op \<noteq> ''IN''" "op \<notin> {''BEGINS_WITH'', ''CONTAINS''}"
      "op \<notin> {''EXISTS'', ''ATTRIBUTE_EXISTS'', ''NOT_EXISTS'', ''ATTRIBUTE_NOT_EXISTS''}"
    by argo
  then show ?thesis
  proof cases
    case 1
    show ?thesis
    proof (cases "\<exists>lo hi. value = Some (TSlice TAny, VSlice [lo, hi])")
      case True
      then show ?thesis using assms 1 by (auto simp: defs split: prod.splits sum.splits)
    next
      case False
      then show ?thesis using assms 1
        by (auto simp: operatorSwitch_def split: option.splits prod.splits gval.splits list.splits if_splits)
    qed
  next
    case 2
    then show ?thesis using assms by (auto simp: defs split: sum.splits prod.splits if_splits)
  next
    case 3
    have ops: "operandsOf op value = [value]" using 3 by (auto simp: operandsOf_def)
    have sw: "operatorSwitch env op ref value b =
        withValue env value b (\<lambda>vr. conditionText op ref [vr])"
      using 3 by (elim insertE emptyE) (simp_all add: operatorSwitch_def conditionText_def)
    show ?thesis
      using assms addValuesSecure_refs_length[of env "[value]" b]
      unfolding sw ops withValue_values
      by (auto simp: length_Suc_conv split: prod.splits sum.splits)
  next
    case 4
    then show ?thesis using assms
      by (elim insertE emptyE) (simp_all add: operatorSwitch_def conditionText_def operandsOf_def addValuesSecure.simps)
  next
    case 5
    then have "operatorSwitch env op ref value b = (Inl UnsupportedOperator, b)"
      using None by (simp add: operatorSwitch_def)
    then show ?thesis using assms by simp
  qed
qed

section \<open>Frames\<close>

text \<open>A step that may add placeholders but records no expression.\<close>

definition sameExprs :: "Builder \<Rightarrow> Builder \<Rightarrow> bool" where
  "sameExprs b b' = (b' = b \<lparr> names := names b', nameCounter := nameCounter b',
     bvalues := bvalues b', valueCounter := valueCounter b' \<rparr>)"

lemma sameExprs_refl [simp]: "sameExprs b b"
  by (simp add: sameExprs_def)

lemma sameExprs_alt: "sameExprs b b' \<longleftrightarrow>
    converter b' = converter b \<and> updateExpressions b' = updateExpressions b \<and> keyConditions b' = keyConditions b
    \<and> filterConditions b' = filterConditions b \<and> conditions b' = conditions b \<and> projections b' = projections b
    \<and> filterOperators b' = filterOperators b \<and> conditionOperators b' = conditionOperators b"
  by (cases b; cases b') (auto simp: sameExprs_def)

lemma sameExprs_trans: "sameExprs a b \<Longrightarrow> sameExprs b c \<Longrightarrow> sameExprs a c"
  by (simp add: sameExprs_alt)

lemma bindName_frame: "bindName p b = (ph, b') \<Longrightarrow> sameExprs b b' \<and> bvalues b' = bvalues b \<and> valueCounter b' = valueCounter b"
  by (auto simp: bindName_def Let_def sameExprs_alt)

lemma bindParts_frame:
  "bindParts ps acc b = (ref, b') \<Longrightarrow> sameExprs b b' \<and> bvalues b' = bvalues b \<and> valueCounter b' = valueCounter b"
proof (induction ps acc b rule: bindParts.induct)
  case (2 part ps acc b)
  then show ?case
    using bindName_frame[of part b] by (auto split: if_splits prod.splits intro: sameExprs_trans)
qed auto

lemma addNameSecure_frame:
  "addNameSecure name b = (ref, b') \<Longrightarrow> sameExprs b b' \<and> bvalues b' = bvalues b \<and> valueCounter b' = valueCounter b"
  by (auto simp: addNameSecure_def split: if_splits option.splits dest: bindName_frame bindParts_frame)

lemma bindValue_frame: "bindValue av b = (ref, b') \<Longrightarrow> sameExprs b b' \<and> names b' = names b \<and> nameCounter b' = nameCounter b"
  by (auto simp: bindValue_def Let_def sameExprs_alt)

lemma addValuesSecure_frame:
  "addValuesSecure env vs b = (r, b') \<Longrightarrow> sameExprs b b' \<and> names b' = names b \<and> nameCounter b' = nameCounter b"
proof (induction vs arbitrary: b r)
  case (Cons v vs)
  show ?case
  proof (cases "convertValue env b v")
    case (Inr av)
    obtain ref b1 where b1: "bindValue av b = (ref, b1)" by (cases "bindValue av b")
    obtain r2 where "addValuesSecure env vs b1 = (r2, b')"
      using Cons.prems Inr b1 by (auto simp: addValuesSecure.simps addValueSecure_def split: prod.splits sum.splits)
    then show ?thesis using Cons.IH[of b1] bindValue_frame[OF b1] by (auto intro: sameExprs_trans)
  qed (use Cons.prems in \<open>auto simp: addValuesSecure.simps addValueSecure_def\<close>)
qed (simp add: addValuesSecure.simps)

lemma operatorSwitch_frame:
  "operatorSwitch env op ref value b = (r, b') \<Longrightarrow> sameExprs b b' \<and> names b' = names b \<and> nameCounter b' = nameCounter b"
  using operatorSwitch_values[of env op ref "value" b r b'] addValuesSecure_frame[of env "operandsOf op value" b]
  by (auto split: prod.splits sum.splits)

lemma buildCondition_frame:
  "buildCondition env field op value b = (r, b') \<Longrightarrow> sameExprs b b'"
  using addNameSecure_frame operatorSwitch_frame sameExprs_trans
  by (fastforce simp: buildCondition_def split: sum.splits prod.splits)

lemma addNameSecure_any:
  assumes "namesInv b" "caseConsistent (names b) (parts name)" "addNameSecure name b = (ref, b')"
  shows "namesInv b' \<and> map_of (names b) \<subseteq>\<^sub>m map_of (names b')"
proof (cases "ValidateFieldName name = Inr ()")
  case True
  then show ?thesis using addNameSecure_spec[OF assms(1) True assms(2,3)] by blast
next
  case False
  then show ?thesis using assms by (auto simp: addNameSecure_def)
qed

lemma valuesInv_frame: "bvalues b' = bvalues b \<Longrightarrow> valueCounter b' = valueCounter b \<Longrightarrow> valuesInv b' = valuesInv b"
  by (simp add: valuesInv_def)

lemma namesInv_frame: "names b' = names b \<Longrightarrow> nameCounter b' = nameCounter b \<Longrightarrow> namesInv b' = namesInv b"
  by (simp add: namesInv_def)

lemma buildCondition_ok:
  assumes "buildCondition env field op value b = (Inr expr, b')"
  obtains ref b1 vrefs where "ValidateFieldName field = Inr ()" "ValidateOperator op = Inr ()" "ValidateValue value = Inr ()"
    "addNameSecure field b = (ref, b1)"
    "addValuesSecure env (operandsOf (ToUpper op) value) b1 = (Inr vrefs, b')" "expr = conditionText (ToUpper op) ref vrefs"
proof -
  have v: "ValidateFieldName field = Inr ()" "ValidateOperator op = Inr ()" "ValidateValue value = Inr ()"
    using assms by (auto simp: buildCondition_def split: sum.splits)
  obtain ref b1 where n: "addNameSecure field b = (ref, b1)" by (cases "addNameSecure field b")
  have "operatorSwitch env (ToUpper op) ref value b1 = (Inr expr, b')"
    using assms v n by (simp add: buildCondition_def)
  from operatorSwitch_values[OF this] obtain vrefs where
    "addValuesSecure env (operandsOf (ToUpper op) value) b1 = (Inr vrefs, b')" "expr = conditionText (ToUpper op) ref vrefs"
    by (auto split: prod.splits sum.splits)
  then show thesis using that v n by blast
qed

text \<open>C1. In a builder that satisfies the placeholder invariants, as every builder reached by builder calls without group filters does, a
  condition that \<open>buildCondition\<close> returns is the DynamoDB syntax of the requested operator over an attribute reference
  whose placeholders are bound to exactly the components of the field's path, and over value references that are
  bound to exactly the conversions of the operator's operands, in order; every binding that existed before is
  still there.  The path must use no reserved word in a spelling other than the one already bound, or in two spellings
  (\<open>caseConsistent\<close>; \<open>reserved_word_collision\<close> shows what happens otherwise).\<close>

theorem buildCondition_meaning:
  assumes "namesInv b" "valuesInv b" "caseConsistent (names b) (parts field)"
    "buildCondition env field op value b = (Inr expr, b')"
  shows "\<exists>ref vrefs avs. expr = conditionText (ToUpper op) ref vrefs
     \<and> resolvePath (names b') ref = map Some (parts field)
     \<and> mapE (convertValue env b) (operandsOf (ToUpper op) value) = Inr avs
     \<and> map (map_of (bvalues b')) vrefs = map Some avs
     \<and> map_of (names b) \<subseteq>\<^sub>m map_of (names b') \<and> map_of (bvalues b) \<subseteq>\<^sub>m map_of (bvalues b')"
  using assms(4)
proof (rule buildCondition_ok)
  fix ref b1 vrefs
  assume v: "ValidateFieldName field = Inr ()" and n: "addNameSecure field b = (ref, b1)"
    and a: "addValuesSecure env (operandsOf (ToUpper op) value) b1 = (Inr vrefs, b')"
    and e: "expr = conditionText (ToUpper op) ref vrefs"
  note ns = addNameSecure_spec[OF assms(1) v assms(3) n] and fr = addNameSecure_frame[OF n]
  have "valuesInv b1" using assms(2) fr by (simp add: valuesInv_def)
  from addValuesSecure_spec[OF this a] obtain avs where
    avs: "addsValues b1 b'" "mapE (convertValue env b1) (operandsOf (ToUpper op) value) = Inr avs"
      "map (map_of (bvalues b')) vrefs = map Some avs" by auto
  have "names b' = names b1" using addValuesSecure_frame[OF a] by blast
  moreover have "convertValue env b1 = convertValue env b"
    by (rule convertValue_cong) (use fr in \<open>simp add: sameExprs_alt\<close>)
  ultimately show ?thesis using e ns avs fr by (auto simp: addsValues_def)
qed

theorem buildCondition_meaning_witness:
  "\<exists>ref vrefs avs. ''#n1 = :v1'' = conditionText (ToUpper ''='') ref vrefs
     \<and> resolvePath [(''#n1'', ''age'')] ref = map Some (parts ''age'')
     \<and> mapE (convertValue plainEnv NewBuilder) (operandsOf (ToUpper ''='') (Some (TInt IntN, VInt 7))) = Inr avs
     \<and> map (map_of [('':v1'', AVN ''7'')]) vrefs = map Some avs"
proof -
  let ?b = "NewBuilder \<lparr> names := [(''#n1'', ''age'')], nameCounter := 1, bvalues := [('':v1'', AVN ''7'')], valueCounter := 1 \<rparr>"
  have run: "buildCondition plainEnv ''age'' ''='' (Some (TInt IntN, VInt 7)) NewBuilder = (Inr ''#n1 = :v1'', ?b)"
    by (simp add: builder_eval)
  have "namesInv NewBuilder" "valuesInv NewBuilder" "caseConsistent (names NewBuilder) (parts ''age'')"
    by (simp_all add: namesInv_def valuesInv_def NewBuilder_def caseConsistent_def parts_def)
  from buildCondition_meaning[OF this run] show ?thesis by auto
qed

section \<open>Sequences of calls\<close>

text \<open>The methods of the builder as operations; \<open>AddProjection\<close> of several fields is one operation per field.\<close>

datatype bop =
    OpKey string string goany
  | OpFilter string string string goany
  | OpGroup string ExpressionComponents
  | OpProject string
  | OpCond string string string goany
  | OpSet string goany
  | OpAdd string goany
  | OpRemove string
  | OpDelete string goany
  | OpFunction string string "goany list"
  | OpUpdateFunction string string "goany list"
  | OpReset

primrec applyOp :: "convenv \<Rightarrow> bop \<Rightarrow> Builder \<Rightarrow> Builder" where
  "applyOp env (OpKey f op v) b = snd (AddKeyCondition env f op v b)"
| "applyOp env (OpFilter lop f op v) b = snd (AddFilterCondition env lop f op v b)"
| "applyOp env (OpGroup lop c) b = AddGroupFilter lop c b"
| "applyOp env (OpProject f) b = AddProjection [f] b"
| "applyOp env (OpCond lop f op v) b = snd (AddConditionExpressionWithOp env lop f op v b)"
| "applyOp env (OpSet f v) b = snd (AddUpdateSet env f v b)"
| "applyOp env (OpAdd f v) b = snd (AddUpdateAdd env f v b)"
| "applyOp env (OpRemove f) b = snd (AddUpdateRemove f b)"
| "applyOp env (OpDelete f v) b = snd (AddUpdateDelete env f v b)"
| "applyOp env (OpFunction fn f args) b = snd (AddAdvancedFunction env fn f args b)"
| "applyOp env (OpUpdateFunction f fn args) b = snd (AddUpdateFunction env f fn args b)"
| "applyOp env OpReset b = ResetConditions b"

lemma AddProjection_fold: "AddProjection fs b = fold (applyOp env) (map OpProject fs) b"
  by (induction fs arbitrary: b) (auto split: prod.splits)

text \<open>The attribute name an operation hands to \<open>addNameSecure\<close>.\<close>

definition indexedField :: "string \<Rightarrow> string" where
  "indexedField f = (case parseListIndexOperation f of Inr (Some (name, _)) \<Rightarrow> name | _ \<Rightarrow> f)"

primrec opName :: "bop \<Rightarrow> string" where
  "opName (OpKey f op v) = f"
| "opName (OpFilter lop f op v) = f"
| "opName (OpGroup lop c) = []"
| "opName (OpProject f) = f"
| "opName (OpCond lop f op v) = f"
| "opName (OpSet f v) = indexedField f"
| "opName (OpAdd f v) = f"
| "opName (OpRemove f) = indexedField f"
| "opName (OpDelete f v) = f"
| "opName (OpFunction fn f args) = f"
| "opName (OpUpdateFunction f fn args) = f"
| "opName OpReset = []"

definition notGroup :: "bop \<Rightarrow> Builder \<Rightarrow> bool" where
  "notGroup p b = (case p of OpGroup _ _ \<Rightarrow> False | _ \<Rightarrow> True)"

definition nameSafe :: "bop \<Rightarrow> Builder \<Rightarrow> bool" where
  "nameSafe p b = (notGroup p b \<and> caseConsistent (names b) (parts (opName p)))"

text \<open>What the steps have in common: first possibly the name, then possibly values, then expressions.\<close>

definition nameThenValues :: "string \<Rightarrow> Builder \<Rightarrow> Builder \<Rightarrow> bool" where
  "nameThenValues f b b' = (\<exists>b1. (b1 = b \<or> (\<exists>ref. addNameSecure f b = (ref, b1)))
     \<and> (names b' = names b1 \<and> nameCounter b' = nameCounter b1) \<and> (valuesInv b1 \<longrightarrow>
        valuesInv b' \<and> map_of (bvalues b1) \<subseteq>\<^sub>m map_of (bvalues b')))"

lemma nameThenValues_refl: "nameThenValues f b b"
  unfolding nameThenValues_def by auto

lemma nameThenValues_name: "addNameSecure f b = (ref, b1) \<Longrightarrow> nameThenValues f b b1"
  unfolding nameThenValues_def by auto

lemma nameThenValues_push:
  assumes "nameThenValues f b b'" "names b2 = names b'" "nameCounter b2 = nameCounter b'"
    "bvalues b2 = bvalues b'" "valueCounter b2 = valueCounter b'"
  shows "nameThenValues f b b2"
  using assms valuesInv_frame[of b2 b'] unfolding nameThenValues_def by auto

lemma nameThenValues_values:
  assumes "addNameSecure f b = (ref, b1)" "addValuesSecure env vs b1 = (r, b')"
  shows "nameThenValues f b b'"
  using assms addValuesSecure_frame[OF assms(2)] addValuesSecure_spec[OF _ assms(2)]
  unfolding nameThenValues_def addsValues_def by blast

lemma addValueSecure_values: "addValueSecure env v b =
    (case addValuesSecure env [v] b of (Inl e, b') \<Rightarrow> (Inl e, b') | (Inr refs, b') \<Rightarrow> (Inr (hd refs), b'))"
  by (auto simp: addValuesSecure.simps split: prod.splits sum.splits)

lemma nameThenValues_value:
  assumes "addNameSecure f b = (ref, b1)" "addValueSecure env v b1 = (r, b')"
  shows "nameThenValues f b b'"
proof -
  obtain r2 where "addValuesSecure env [v] b1 = (r2, b')"
    using assms(2) by (auto simp: addValueSecure_values split: prod.splits sum.splits)
  then show ?thesis using nameThenValues_values[OF assms(1)] by blast
qed

lemma nameThenValues_asSet:
  assumes "addNameSecure f b = (ref, b1)" "addValueAsSet env v b1 = (r, b')"
  shows "nameThenValues f b b'"
proof (cases "convertToSetAttributeValue env v")
  case (Inl e)
  then show ?thesis using assms by (auto simp: addValueAsSet_def intro: nameThenValues_name)
next
  case (Inr av)
  obtain vr where bv: "bindValue av b1 = (vr, b')"
    using assms(2) Inr by (auto simp: addValueAsSet_def split: prod.splits)
  then show ?thesis
    using assms(1) bindValue_frame[OF bv] bindValue_spec(1)[OF _ bv] unfolding nameThenValues_def addsValues_def by blast
qed

lemma nameThenValues_condition:
  assumes "buildCondition env f op v b = (r, b')"
  shows "nameThenValues f b b'"
proof (cases "ValidateFieldName f = Inr () \<and> ValidateOperator op = Inr () \<and> ValidateValue v = Inr ()")
  case True
  obtain ref b1 where n: "addNameSecure f b = (ref, b1)" by (cases "addNameSecure f b")
  have "operatorSwitch env (ToUpper op) ref v b1 = (r, b')" using assms True n by (simp add: buildCondition_def)
  from operatorSwitch_values[OF this] show ?thesis
    using nameThenValues_values[OF n, of env "operandsOf (ToUpper op) v"] nameThenValues_name[OF n]
    by (auto split: prod.splits sum.splits)
next
  case False
  then show ?thesis using assms nameThenValues_refl by (auto simp: buildCondition_def split: sum.splits)
qed

lemma pushUpdate_frame: "names (pushUpdate a e b) = names b \<and> nameCounter (pushUpdate a e b) = nameCounter b
    \<and> bvalues (pushUpdate a e b) = bvalues b \<and> valueCounter (pushUpdate a e b) = valueCounter b"
  by (simp add: pushUpdate_def)

lemma pushFilter_frame: "names (pushFilter a e b) = names b \<and> nameCounter (pushFilter a e b) = nameCounter b
    \<and> bvalues (pushFilter a e b) = bvalues b \<and> valueCounter (pushFilter a e b) = valueCounter b"
  by (simp add: pushFilter_def Let_def)

lemma withValue_state: "snd (withValue env v b render) = snd (addValueSecure env v b)"
  by (auto simp: withValue_def split: prod.splits sum.splits)

lemma step_condition:
  "nameThenValues f b (snd (AddKeyCondition env f op v b))"
  "nameThenValues f b (snd (AddFilterCondition env lop f op v b))"
  "nameThenValues f b (snd (AddConditionExpressionWithOp env lop f op v b))"
proof -
  obtain r b1 where c: "buildCondition env f op v b = (r, b1)" by (cases "buildCondition env f op v b")
  note n = nameThenValues_condition[OF c]
  show "nameThenValues f b (snd (AddKeyCondition env f op v b))"
    using n c by (auto simp: AddKeyCondition_def split: sum.splits intro: nameThenValues_push)
  show "nameThenValues f b (snd (AddFilterCondition env lop f op v b))"
    using n c by (auto simp: AddFilterCondition_def pushFilter_frame split: sum.splits intro: nameThenValues_push)
  show "nameThenValues f b (snd (AddConditionExpressionWithOp env lop f op v b))"
    using n c by (auto simp: AddConditionExpressionWithOp_def Let_def split: sum.splits intro: nameThenValues_push)
qed

lemma step_update:
  "nameThenValues (indexedField f) b (snd (AddUpdateSet env f v b))"
  "nameThenValues f b (snd (AddUpdateAdd env f v b))"
  "nameThenValues (indexedField f) b (snd (AddUpdateRemove f b))"
  "nameThenValues f b (snd (AddUpdateDelete env f v b))"
proof -
  note simps = pushUpdate_frame nameThenValues_refl
  obtain ref b1 where n: "addNameSecure f b = (ref, b1)" by (cases "addNameSecure f b")
  obtain iref b2 where i: "addNameSecure (indexedField f) b = (iref, b2)" by (cases "addNameSecure (indexedField f) b")
  obtain r b3 where a: "addValueSecure env v b1 = (r, b3)" by (cases "addValueSecure env v b1")
  obtain s b4 where d: "addValueAsSet env v b1 = (s, b4)" by (cases "addValueAsSet env v b1")
  obtain ir b5 where ia: "addValueSecure env v b2 = (ir, b5)" by (cases "addValueSecure env v b2")
  show "nameThenValues f b (snd (AddUpdateAdd env f v b))"
    using nameThenValues_value[OF n a] n a
    by (auto simp: AddUpdateAdd_def simps split: sum.splits intro: nameThenValues_push)
  show "nameThenValues f b (snd (AddUpdateDelete env f v b))"
    using nameThenValues_asSet[OF n d] n d
    by (auto simp: AddUpdateDelete_def simps split: sum.splits intro: nameThenValues_push)
  show "nameThenValues (indexedField f) b (snd (AddUpdateRemove f b))"
    using nameThenValues_name[OF i] i
    by (auto simp: AddUpdateRemove_def simps indexedField_def split: sum.splits option.splits prod.splits intro: nameThenValues_push)
  show "nameThenValues (indexedField f) b (snd (AddUpdateSet env f v b))"
    using nameThenValues_value[OF i ia] i ia
    by (auto simp: AddUpdateSet_def Let_def simps indexedField_def split: sum.splits option.splits prod.splits intro: nameThenValues_push)
qed

lemma step_function: "nameThenValues f b (snd (AddAdvancedFunction env fn f args b))"
proof -
  obtain ref b1 where n: "addNameSecure f b = (ref, b1)" by (cases "addNameSecure f b")
  have "nameThenValues f b (snd (addValueSecure env v b1))" for v
    using nameThenValues_value[OF n] by (cases "addValueSecure env v b1") auto
  then show ?thesis
    using n nameThenValues_name[OF n] by (simp add: AddAdvancedFunction_def withValue_state Let_def)
qed

lemma step_setPush:
  assumes "addNameSecure f b = (ref, b1)"
  shows "nameThenValues f b (snd (setPush (addValuesSecure env vs b1) render))"
proof -
  obtain r b2 where v: "addValuesSecure env vs b1 = (r, b2)" by (cases "addValuesSecure env vs b1")
  show ?thesis using nameThenValues_values[OF assms v] v
    by (auto simp: setPush_def pushUpdate_frame split: sum.splits intro: nameThenValues_push)
qed

lemma step_updateFunction: "nameThenValues f b (snd (AddUpdateFunction env f fn args b))"
proof -
  obtain ref b1 where n: "addNameSecure f b = (ref, b1)" by (cases "addNameSecure f b")
  show ?thesis
    using n nameThenValues_name[OF n] by (simp add: AddUpdateFunction_def Let_def step_setPush)
qed

lemma applyOp_step: "notGroup p b \<Longrightarrow> nameThenValues (opName p) b (applyOp env p b)"
proof (cases p)
  case (OpProject f)
  obtain ref b1 where n: "addNameSecure f b = (ref, b1)" by (cases "addNameSecure f b")
  then show ?thesis using OpProject nameThenValues_name[OF n] by (auto intro: nameThenValues_push)
next
  case OpReset
  then show ?thesis by (auto simp: ResetConditions_def intro: nameThenValues_push[OF nameThenValues_refl])
qed (simp_all add: notGroup_def step_condition step_update step_function step_updateFunction)

interpretation value_store: extending "applyOp env" notGroup valuesInv "\<lambda>b. map_of (bvalues b)" for env
proof
  fix b :: Builder and p
  assume inv: "valuesInv b" and ok: "notGroup p b"
  from applyOp_step[OF ok] obtain b1 where
    b1: "b1 = b \<or> (\<exists>ref. addNameSecure (opName p) b = (ref, b1))"
      "valuesInv b1 \<Longrightarrow> valuesInv (applyOp env p b) \<and> map_of (bvalues b1) \<subseteq>\<^sub>m map_of (bvalues (applyOp env p b))"
    unfolding nameThenValues_def by auto
  have "bvalues b1 = bvalues b \<and> valueCounter b1 = valueCounter b"
    using b1(1) by (elim disjE exE) (simp_all add: addNameSecure_frame)
  then have "bvalues b1 = bvalues b" "valuesInv b1 = valuesInv b" by (simp_all add: valuesInv_def)
  then show "valuesInv (applyOp env p b)" "map_of (bvalues b) \<subseteq>\<^sub>m map_of (bvalues (applyOp env p b))"
    using b1(2) inv by auto
qed

interpretation name_store: extending "applyOp env" nameSafe namesInv "\<lambda>b. map_of (names b)" for env
proof
  fix b :: Builder and p
  assume inv: "namesInv b" and ok: "nameSafe p b"
  from ok have "notGroup p b" by (simp add: nameSafe_def)
  from applyOp_step[OF this] obtain b1 where
    b1: "b1 = b \<or> (\<exists>ref. addNameSecure (opName p) b = (ref, b1))"
      "names (applyOp env p b) = names b1" "nameCounter (applyOp env p b) = nameCounter b1"
    unfolding nameThenValues_def by auto
  have "namesInv b1 \<and> map_of (names b) \<subseteq>\<^sub>m map_of (names b1)"
    using b1(1) inv ok addNameSecure_any[of b "opName p"] by (auto simp: nameSafe_def)
  then show "namesInv (applyOp env p b)" "map_of (names b) \<subseteq>\<^sub>m map_of (names (applyOp env p b))"
    using b1(2,3) by (simp_all add: namesInv_def)
qed

text \<open>C2. A placeholder keeps its meaning: from a builder that satisfies the placeholder invariants, over any sequence of builder calls (successful
  or failing, group filters apart) that uses no reserved word in two spellings, every attribute reference still denotes the same path and every value
  placeholder the same value as when it was handed out.\<close>

theorem placeholders_persist:
  assumes "namesInv b" "valuesInv b" "allOk (applyOp env) nameSafe ops b"
    and "resolvePath (names b) ref = map Some path" "map_of (bvalues b) ph = Some av"
  shows "resolvePath (names (fold (applyOp env) ops b)) ref = map Some path
    \<and> map_of (bvalues (fold (applyOp env) ops b)) ph = Some av"
proof
  have nm: "map_of (names b) \<subseteq>\<^sub>m map_of (names (fold (applyOp env) ops b))"
    using name_store.run_extends assms(1,3) by blast
  show "resolvePath (names (fold (applyOp env) ops b)) ref = map Some path"
    using assms(4) map_le_SomeD[OF nm] unfolding resolvePath_def
    by (auto simp: list_eq_iff_nth_eq)
  have "allOk (applyOp env) notGroup ops b"
    using assms(3) by (induction ops arbitrary: b) (auto simp: nameSafe_def)
  then have "map_of (bvalues b) \<subseteq>\<^sub>m map_of (bvalues (fold (applyOp env) ops b))"
    using value_store.run_extends assms(2) by blast
  then show "map_of (bvalues (fold (applyOp env) ops b)) ph = Some av" using assms(5) by (rule map_le_SomeD)
qed

definition demoBuilder :: Builder where
  "demoBuilder = NewBuilder \<lparr> names := [(''#n1'', ''age'')], nameCounter := 1, bvalues := [('':v1'', AVN ''7'')], valueCounter := 1 \<rparr>"

theorem placeholders_persist_witness:
  "resolvePath (names (fold (applyOp plainEnv) [OpFilter ''AND'' ''city'' ''='' (Some (TString, VString ''x''))] demoBuilder)) ''#n1'' = map Some [''age'']"
proof -
  have refs: "''#n1'' = nameRef 1" "'':v1'' = valueRef 1"
    by (simp_all add: nameRef_def valueRef_def showNat.simps char_eval)
  have "nameEntryOk 1 (''#n1'', ''age'')" unfolding nameEntryOk_def refs by (intro conjI disjI2 exI[of _ 1]) simp_all
  then have n: "namesInv demoBuilder" by (simp add: namesInv_def demoBuilder_def NewBuilder_def)
  have "valueEntryOk 1 ('':v1'', AVN ''7'')" unfolding valueEntryOk_def refs by (intro exI[of _ 1]) simp
  then have v: "valuesInv demoBuilder" by (simp add: valuesInv_def demoBuilder_def NewBuilder_def)
  have ok: "allOk (applyOp plainEnv) nameSafe [OpFilter ''AND'' ''city'' ''='' (Some (TString, VString ''x''))] demoBuilder"
    by (simp add: nameSafe_def notGroup_def caseConsistent_def parts_def demoBuilder_def NewBuilder_def isReservedWord_def
        reservedWords_def upperByte_def isLower_def char_eval)
  have r: "resolvePath (names demoBuilder) ''#n1'' = map Some [''age'']"
    by (simp add: resolvePath_def demoBuilder_def NewBuilder_def)
  have w: "map_of (bvalues demoBuilder) '':v1'' = Some (AVN ''7'')" by (simp add: demoBuilder_def NewBuilder_def)
  from placeholders_persist[OF n v ok r w] show ?thesis by blast
qed

section \<open>Operators between conditions\<close>

definition countInv :: "Builder \<Rightarrow> bool" where
  "countInv b = (length (filterOperators b) = length (filterConditions b) - 1
     \<and> length (conditionOperators b) = length (conditions b) - 1)"

lemma countInv_same: "sameExprs b b' \<Longrightarrow> countInv b \<Longrightarrow> countInv b'"
  by (simp add: sameExprs_alt countInv_def)

lemma countInv_pushUpdate [simp]: "countInv (pushUpdate a e b) = countInv b"
  by (simp add: countInv_def pushUpdate_def)

lemma countInv_pushFilter: "countInv b \<Longrightarrow> countInv (pushFilter lop e b)"
  by (auto simp: countInv_def pushFilter_def Let_def)

lemma addNameSecure_same: "sameExprs b (snd (addNameSecure f b))"
  using addNameSecure_frame by (cases "addNameSecure f b") auto

lemma addValuesSecure_same: "sameExprs b (snd (addValuesSecure env vs b))"
  using addValuesSecure_frame by (cases "addValuesSecure env vs b") auto

lemma addValueSecure_same: "sameExprs b (snd (addValueSecure env v b))"
  using addValuesSecure_same[of b env "[v]"] by (auto simp: addValueSecure_values split: prod.splits sum.splits)

lemma addValueAsSet_same: "sameExprs b (snd (addValueAsSet env v b))"
  using bindValue_frame by (auto simp: addValueAsSet_def split: prod.splits sum.splits)

lemma buildCondition_same: "sameExprs b (snd (buildCondition env f op v b))"
  using buildCondition_frame by (cases "buildCondition env f op v b") auto

lemma name_value_same: "addNameSecure f b = (ref, b1) \<Longrightarrow> addValueSecure env v b1 = (r, b2) \<Longrightarrow> sameExprs b b2"
  using addNameSecure_same[of b f] addValueSecure_same[of b1 env v] by (auto intro: sameExprs_trans)

lemma name_set_same: "addNameSecure f b = (ref, b1) \<Longrightarrow> addValueAsSet env v b1 = (r, b2) \<Longrightarrow> sameExprs b b2"
  using addNameSecure_same[of b f] addValueAsSet_same[of b1 env v] by (auto intro: sameExprs_trans)

text \<open>The shape of every update call: an error with the expressions untouched, or one pushed clause.\<close>

definition updateShape :: "Builder \<Rightarrow> (berror, unit) result \<times> Builder \<Rightarrow> bool" where
  "updateShape b res = (\<exists>b2. sameExprs b b2 \<and>
     ((\<exists>e. res = (Inl e, b2)) \<or> (\<exists>a e. res = (Inr (), pushUpdate a e b2))))"

lemma updateShape_intros:
  "sameExprs b b2 \<Longrightarrow> updateShape b (Inl e, b2)"
  "sameExprs b b2 \<Longrightarrow> updateShape b (Inr (), pushUpdate a t b2)"
  by (auto simp: updateShape_def)

lemma updates_shape:
  "updateShape b (AddUpdateSet env f v b)" "updateShape b (AddUpdateAdd env f v b)"
  "updateShape b (AddUpdateRemove f b)" "updateShape b (AddUpdateDelete env f v b)"
  "updateShape b (AddUpdateFunction env f fn args b)"
proof -
  show "updateShape b (AddUpdateSet env f v b)"
    by (auto simp: AddUpdateSet_def Let_def split: sum.splits prod.splits intro!: updateShape_intros dest: name_value_same)
  show "updateShape b (AddUpdateAdd env f v b)"
    by (auto simp: AddUpdateAdd_def Let_def split: sum.splits prod.splits intro!: updateShape_intros dest: name_value_same)
  show "updateShape b (AddUpdateDelete env f v b)"
    by (auto simp: AddUpdateDelete_def Let_def split: sum.splits prod.splits intro!: updateShape_intros dest: name_set_same)
  show "updateShape b (AddUpdateRemove f b)"
    by (auto simp: AddUpdateRemove_def Let_def split: sum.splits prod.splits option.splits intro!: updateShape_intros dest: addNameSecure_frame)
  obtain ref b1 where n: "addNameSecure f b = (ref, b1)" by (cases "addNameSecure f b")
  have same: "sameExprs b b1" using addNameSecure_frame[OF n] by blast
  have push: "updateShape b (setPush (addValuesSecure env vs b1) render)" for vs render
    using sameExprs_trans[OF same addValuesSecure_same[of b1 env vs]]
    by (cases "addValuesSecure env vs b1") (auto simp: setPush_def split: sum.splits intro!: updateShape_intros)
  show "updateShape b (AddUpdateFunction env f fn args b)"
    using n same by (simp add: AddUpdateFunction_def Let_def push updateShape_intros)
qed

lemma countInv_updateShape: "updateShape b (r, b') \<Longrightarrow> countInv b \<Longrightarrow> countInv b'"
  by (auto simp: updateShape_def intro: countInv_same)

lemma countInv_step: "countInv b \<Longrightarrow> countInv (applyOp env p b)"
proof (cases p)
  case (OpKey f op v)
  assume inv: "countInv b"
  obtain r b1 where c: "buildCondition env f op v b = (r, b1)" by (cases "buildCondition env f op v b")
  have "countInv b1" using countInv_same[OF buildCondition_frame[OF c] inv] .
  then show ?thesis using OpKey c by (auto simp: AddKeyCondition_def countInv_def split: sum.splits)
next
  case (OpFilter lop f op v)
  assume inv: "countInv b"
  obtain r b1 where c: "buildCondition env f op v b = (r, b1)" by (cases "buildCondition env f op v b")
  have "countInv b1" using countInv_same[OF buildCondition_frame[OF c] inv] .
  then show ?thesis using OpFilter c by (auto simp: AddFilterCondition_def countInv_pushFilter split: sum.splits)
next
  case (OpCond lop f op v)
  assume inv: "countInv b"
  obtain r b1 where c: "buildCondition env f op v b = (r, b1)" by (cases "buildCondition env f op v b")
  have "countInv b1" using countInv_same[OF buildCondition_frame[OF c] inv] .
  then show ?thesis using OpCond c by (auto simp: AddConditionExpressionWithOp_def countInv_def Let_def split: sum.splits)
next
  case (OpGroup lop c)
  assume "countInv b"
  then have "countInv (b \<lparr> names := n, bvalues := v \<rparr>)" for n v by (simp add: countInv_def)
  then show ?thesis using OpGroup by (simp add: AddGroupFilter_def Let_def countInv_pushFilter)
next
  case (OpProject f)
  assume inv: "countInv b"
  obtain ref b1 where n: "addNameSecure f b = (ref, b1)" by (cases "addNameSecure f b")
  have "countInv b1" using countInv_same addNameSecure_frame[OF n] inv by blast
  then show ?thesis using OpProject n by (simp add: countInv_def)
next
  case (OpFunction fn f args)
  assume inv: "countInv b"
  obtain ref b1 where n: "addNameSecure f b = (ref, b1)" by (cases "addNameSecure f b")
  have same: "sameExprs b b1" using addNameSecure_frame[OF n] by blast
  then have "countInv (snd (addValueSecure env v b1))" "countInv b1" for v
    using countInv_same[OF _ inv] sameExprs_trans[OF same addValueSecure_same] by blast+
  then show ?thesis using OpFunction n by (simp add: AddAdvancedFunction_def Let_def withValue_state)
next
  case OpReset
  assume "countInv b"
  then show ?thesis using OpReset by (simp add: ResetConditions_def countInv_def)
next
  case (OpSet f v)
  assume "countInv b"
  then show ?thesis using OpSet countInv_updateShape[of b _ "snd (AddUpdateSet env f v b)"] updates_shape(1)[of b env f v]
    by (metis applyOp.simps(6) prod.collapse)
next
  case (OpAdd f v)
  assume "countInv b"
  then show ?thesis using OpAdd countInv_updateShape updates_shape(2)[of b env f v]
    by (metis applyOp.simps(7) prod.collapse)
next
  case (OpRemove f)
  assume "countInv b"
  then show ?thesis using OpRemove countInv_updateShape updates_shape(3)[of b f]
    by (metis applyOp.simps(8) prod.collapse)
next
  case (OpDelete f v)
  assume "countInv b"
  then show ?thesis using OpDelete countInv_updateShape updates_shape(4)[of b env f v]
    by (metis applyOp.simps(9) prod.collapse)
next
  case (OpUpdateFunction f fn args)
  assume "countInv b"
  then show ?thesis using OpUpdateFunction countInv_updateShape updates_shape(5)[of b env f fn args]
    by (metis applyOp.simps(11) prod.collapse)
qed

lemma joinWithOps_total: "length ops = length cs - 1 \<Longrightarrow> joinWithOps cs ops = Some (joinWithOpsAnd cs ops)"
  by (induction cs ops rule: joinWithOpsAnd.induct) auto

text \<open>C5. After any sequence of calls on a new builder, group filters included, \<open>Build\<close> returns: the filter loop
  never indexes past the recorded operators, and the fallback to \<open>AND\<close> between update conditions is never
  taken, both expressions being the recorded conditions joined by the recorded operators.\<close>

theorem Build_total:
  "\<exists>c. Build (fold (applyOp env) ops (NewBuilderWithConverter conv)) = Some c
     \<and> joinWithOps (filterConditions (fold (applyOp env) ops (NewBuilderWithConverter conv)))
         (filterOperators (fold (applyOp env) ops (NewBuilderWithConverter conv))) = Some (FilterExpression c)
     \<and> joinWithOps (conditions (fold (applyOp env) ops (NewBuilderWithConverter conv)))
         (conditionOperators (fold (applyOp env) ops (NewBuilderWithConverter conv))) = Some (ConditionExpression c)"
proof -
  have "countInv b \<Longrightarrow> countInv (fold (applyOp env) ops b)" for b
    by (induction ops arbitrary: b) (auto intro: countInv_step)
  then have "countInv (fold (applyOp env) ops (NewBuilderWithConverter conv))"
    by (simp add: countInv_def NewBuilderWithConverter_def NewBuilder_def)
  then show ?thesis by (simp add: countInv_def Build_def joinWithOps_total)
qed

text \<open>C7. A call that returns an error records nothing: the key conditions, filters, conditions, projections and update
  clauses are as before, for every method that can fail
  (placeholders may have been added).\<close>

theorem failed_call_records_nothing:
  assumes "res \<in> {AddKeyCondition env f op v b, AddFilterCondition env lop f op v b, AddConditionExpressionWithOp env lop f op v b,
      AddUpdateSet env f v b, AddUpdateAdd env f v b, AddUpdateRemove f b, AddUpdateDelete env f v b, AddUpdateFunction env f fn args b}"
    and "fst res = Inl e"
  shows "sameExprs b (snd res)"
proof -
  have u: "updateShape b r \<Longrightarrow> fst r = Inl e \<Longrightarrow> sameExprs b (snd r)" for r by (auto simp: updateShape_def)
  obtain r b1 where c: "buildCondition env f op v b = (r, b1)" by (cases "buildCondition env f op v b")
  note same = buildCondition_frame[OF c]
  consider "res \<in> {AddKeyCondition env f op v b, AddFilterCondition env lop f op v b, AddConditionExpressionWithOp env lop f op v b}"
    | "updateShape b res" using assms(1) updates_shape[of b] by auto
  then show ?thesis
  proof cases
    case 1
    then show ?thesis using c same assms(2)
      by (auto simp: AddKeyCondition_def AddFilterCondition_def AddConditionExpressionWithOp_def Let_def split: sum.splits)
  next
    case 2
    then show ?thesis using u assms(2) by blast
  qed
qed

theorem failed_call_records_nothing_witness:
  "sameExprs NewBuilder (snd (AddFilterCondition plainEnv ''AND'' ''age'' ''BETWEEN'' None NewBuilder))"
proof -
  have "fst (AddFilterCondition plainEnv ''AND'' ''age'' ''BETWEEN'' None NewBuilder)
      = Inl (Security (SecurityError ''InvalidValue'' ''between_values'' ''BETWEEN operator requires exactly two values''))"
    by (simp add: builder_eval)
  then show ?thesis using failed_call_records_nothing[of _ plainEnv "''age''" "''BETWEEN''" None NewBuilder "''AND''"] by blast
qed

section \<open>Collisions\<close>

text \<open>Two spellings of a reserved word share one placeholder, and the second overwrites the first: a condition on \<open>name\<close>
  followed by one on \<open>Name\<close> makes both conditions speak of \<open>Name\<close>.\<close>

theorem reserved_word_collision:
  "fst (addNameSecure ''name'' NewBuilder) = ''#NAME''
   \<and> fst (addNameSecure ''Name'' (snd (addNameSecure ''name'' NewBuilder))) = ''#NAME''
   \<and> names (snd (addNameSecure ''Name'' (snd (addNameSecure ''name'' NewBuilder)))) = [(''#NAME'', ''Name'')]"
  by (simp add: builder_eval)

text \<open>A filter group is built with a fresh builder whose placeholders start again at 1; merging it rebinds the placeholders of the
  filters added before: \<open>a = 1\<close> followed by the group \<open>(b = 2)\<close> becomes \<open>b = 2 AND (b = 2)\<close>.\<close>

definition intVal :: "int \<Rightarrow> goany" where
  "intVal i = Some (TInt IntN, VInt i)"

theorem group_filter_clobbers:
  "map_option (\<lambda>g. let b = AddGroupFilter ''AND'' g (snd (AddFilterCondition plainEnv ''AND'' ''a'' ''='' (intVal 1) NewBuilder))
      in (map_option FilterExpression (Build b), names b, bvalues b))
     (Build (snd (AddFilterCondition plainEnv ''AND'' ''b'' ''='' (intVal 2) NewBuilder)))
   = Some (Some ''#n1 = :v1 AND (#n1 = :v1)'', [(''#n1'', ''b'')], [('':v1'', AVN ''2'')])"
  by (simp add: builder_eval intVal_def)

text \<open>The operator is validated after trimming but dispatched untrimmed: \<open>" = "\<close> passes validation and is then
  unsupported, with a name placeholder already added.\<close>

theorem padded_operator_unsupported:
  "ValidateOperator '' = '' = Inr ()
   \<and> fst (buildCondition plainEnv ''age'' '' = '' (intVal 1) NewBuilder) = Inl UnsupportedOperator
   \<and> names (snd (buildCondition plainEnv ''age'' '' = '' (intVal 1) NewBuilder)) = [(''#n1'', ''age'')]"
  by (simp add: builder_eval intVal_def)

text \<open>A list element of an attribute named like an SQL keyword passes validation with its index, but its bare name does not:
  the clause refers to the placeholder \<open>#invalid\<close>, which is not defined.\<close>

theorem keyword_list_element_invalid:
  "AddUpdateSet plainEnv ''update[0]'' (intVal 1) NewBuilder =
     (Inr (), NewBuilder \<lparr> bvalues := [('':v1'', AVN ''1'')], valueCounter := 1,
        updateExpressions := [(''SET'', [''#invalid[0] = :v1''])] \<rparr>)"
  by (simp add: builder_eval intVal_def suffix_to_prefix)

end
