(* ===== verification/IndexSelector.thy ===== *)
theory IndexSelector
  imports GoReflect
begin

text \<open>
  \<open>pkg/index/selector.go\<close>: the analysis of query conditions into required keys and the choice of the index a
  query runs on.  The lemmas relate the scoring loop to its specification: the first index of maximal score.
\<close>

record IndexSchema =
  idxName :: string
  idxType :: string
  idxPartitionKey :: string
  idxSortKey :: string
  idxProjectionType :: string
  idxProjectedFields :: "string list"

record RequiredKeys =
  reqPartitionKey :: string
  reqSortKey :: string
  reqSortKeyOp :: string

record Condition =
  condField :: string
  condOperator :: string
  condValue :: goany

definition scoreIndex :: "IndexSchema \<Rightarrow> RequiredKeys \<Rightarrow> nat" where
  "scoreIndex idx required =
     (if idxPartitionKey idx \<noteq> reqPartitionKey required then 0
      else 100
        + (if reqSortKey required \<noteq> [] \<and> idxSortKey idx = reqSortKey required
           then (if reqSortKeyOp required = ''='' then 50
                 else if reqSortKeyOp required = ''begins_with'' then 40
                 else if reqSortKeyOp required \<in> {''between'', ''<'', ''<='', ''>'', ''>=''} then 30 else 0)
           else 0)
        + (if idxType idx = ''GSI'' then 10 else 0)
        + (if idxProjectionType idx = ''ALL'' then 5 else 0))"

fun selectLoop :: "RequiredKeys \<Rightarrow> IndexSchema list \<Rightarrow> IndexSchema option \<Rightarrow> nat \<Rightarrow> IndexSchema option \<times> nat" where
  "selectLoop required [] best score = (best, score)"
| "selectLoop required (idx # idxs) best score =
     (if scoreIndex idx required > score then selectLoop required idxs (Some idx) (scoreIndex idx required)
      else selectLoop required idxs best score)"

definition SelectOptimal :: "IndexSchema list \<Rightarrow> RequiredKeys \<Rightarrow> IndexSchema option" where
  "SelectOptimal indexes required =
     (if reqPartitionKey required = [] then None
      else case selectLoop required indexes None 0 of
        (None, _) \<Rightarrow> None
      | (Some idx, score) \<Rightarrow> (if score = 0 then None else Some idx))"

definition normalizeOperator :: "string \<Rightarrow> string" where
  "normalizeOperator op =
     (let u = ToUpper op in
      if u \<in> {''EQ'', ''=''} then ''=''
      else if u \<in> {''LT'', ''<''} then ''<''
      else if u \<in> {''LE'', ''<=''} then ''<=''
      else if u \<in> {''GT'', ''>''} then ''>''
      else if u \<in> {''GE'', ''>=''} then ''>=''
      else if u = ''BEGINS_WITH'' then ''begins_with''
      else if u = ''BETWEEN'' then ''between''
      else ToLower op)"

definition isEquality :: "Condition \<Rightarrow> bool" where
  "isEquality c = (condOperator c = ''='' \<or> map lowerByte (condOperator c) = ''eq'')"

fun analyzeLoop :: "Condition list \<Rightarrow> RequiredKeys \<Rightarrow> Condition list \<Rightarrow> RequiredKeys \<times> Condition list" where
  "analyzeLoop [] required pendingSort = (required, pendingSort)"
| "analyzeLoop (cond # conds) required pendingSort =
     (let r1 = (if isEquality cond \<and> reqPartitionKey required = []
                then required \<lparr> reqPartitionKey := condField cond \<rparr> else required) in
      if reqPartitionKey r1 = [] then analyzeLoop conds r1 (pendingSort @ [cond])
      else if reqSortKey r1 = [] \<and> condField cond \<noteq> reqPartitionKey r1
        then analyzeLoop conds (r1 \<lparr> reqSortKey := condField cond, reqSortKeyOp := normalizeOperator (condOperator cond) \<rparr>) pendingSort
      else analyzeLoop conds r1 pendingSort)"

definition AnalyzeConditions :: "Condition list \<Rightarrow> RequiredKeys" where
  "AnalyzeConditions conditions =
     (let (required, pendingSort) = analyzeLoop conditions \<lparr> reqPartitionKey = [], reqSortKey = [], reqSortKeyOp = [] \<rparr> [] in
      if reqSortKey required = [] \<and> reqPartitionKey required \<noteq> [] then
        (case find (\<lambda>c. condField c \<noteq> reqPartitionKey required) pendingSort of
           None \<Rightarrow> required
         | Some c \<Rightarrow> required \<lparr> reqSortKey := condField c, reqSortKeyOp := normalizeOperator (condOperator c) \<rparr>)
      else required)"

section \<open>The loop finds the first index of maximal score\<close>

lemma score_zero: "idxPartitionKey idx = reqPartitionKey r \<Longrightarrow> scoreIndex idx r \<noteq> 0"
  by (simp add: scoreIndex_def)

lemma score_pos: "scoreIndex idx r > 0 \<longleftrightarrow> idxPartitionKey idx = reqPartitionKey r"
  by (simp add: scoreIndex_def)

lemma selectLoop_spec:
  assumes "selectLoop r idxs best score = (best', score')"
  shows "(best' = best \<and> score' = score \<and> (\<forall>i \<in> set idxs. scoreIndex i r \<le> score)) \<or>
    (\<exists>pre idx post. idxs = pre @ idx # post \<and> best' = Some idx \<and> score' = scoreIndex idx r \<and> score < score'
       \<and> (\<forall>i \<in> set pre. scoreIndex i r < score') \<and> (\<forall>i \<in> set post. scoreIndex i r \<le> score'))"
  using assms
proof (induction idxs arbitrary: best score)
  case (Cons x xs)
  show ?case
  proof (cases "scoreIndex x r > score")
    case True
    then have "selectLoop r xs (Some x) (scoreIndex x r) = (best', score')" using Cons.prems by simp
    from Cons.IH[OF this] show ?thesis
    proof
      assume "best' = Some x \<and> score' = scoreIndex x r \<and> (\<forall>i \<in> set xs. scoreIndex i r \<le> scoreIndex x r)"
      then show ?thesis using True by (intro disjI2 exI[of _ "[]"] exI[of _ x] exI[of _ xs]) auto
    next
      assume "\<exists>pre idx post. xs = pre @ idx # post \<and> best' = Some idx \<and> score' = scoreIndex idx r \<and> scoreIndex x r < score'
       \<and> (\<forall>i \<in> set pre. scoreIndex i r < score') \<and> (\<forall>i \<in> set post. scoreIndex i r \<le> score')"
      then obtain pre idx post where "xs = pre @ idx # post" "best' = Some idx" "score' = scoreIndex idx r" "scoreIndex x r < score'"
        "\<forall>i \<in> set pre. scoreIndex i r < score'" "\<forall>i \<in> set post. scoreIndex i r \<le> score'" by blast
      then show ?thesis using True by (intro disjI2 exI[of _ "x # pre"] exI[of _ idx] exI[of _ post]) auto
    qed
  next
    case False
    then have "selectLoop r xs best score = (best', score')" using Cons.prems by simp
    from Cons.IH[OF this] show ?thesis
    proof
      assume "best' = best \<and> score' = score \<and> (\<forall>i \<in> set xs. scoreIndex i r \<le> score)"
      then show ?thesis using False by auto
    next
      assume "\<exists>pre idx post. xs = pre @ idx # post \<and> best' = Some idx \<and> score' = scoreIndex idx r \<and> score < score'
       \<and> (\<forall>i \<in> set pre. scoreIndex i r < score') \<and> (\<forall>i \<in> set post. scoreIndex i r \<le> score')"
      then obtain pre idx post where "xs = pre @ idx # post" "best' = Some idx" "score' = scoreIndex idx r" "score < score'"
        "\<forall>i \<in> set pre. scoreIndex i r < score'" "\<forall>i \<in> set post. scoreIndex i r \<le> score'" by blast
      then show ?thesis using False by (intro disjI2 exI[of _ "x # pre"] exI[of _ idx] exI[of _ post]) auto
    qed
  qed
qed simp

text \<open>The specification: the first index of maximal positive score.\<close>

definition isBestIndex :: "RequiredKeys \<Rightarrow> IndexSchema list \<Rightarrow> IndexSchema \<Rightarrow> bool" where
  "isBestIndex r idxs idx = (\<exists>pre post. idxs = pre @ idx # post \<and> idxPartitionKey idx = reqPartitionKey r
     \<and> (\<forall>i \<in> set pre. scoreIndex i r < scoreIndex idx r) \<and> (\<forall>i \<in> set post. scoreIndex i r \<le> scoreIndex idx r))"

text \<open>C9. \<open>SelectOptimal\<close> returns the first index of maximal score among those whose partition key is the required one,
  and none exactly when no partition key is required or no index has it.\<close>

theorem SelectOptimal_best:
  "case SelectOptimal idxs r of
     Some idx \<Rightarrow> reqPartitionKey r \<noteq> [] \<and> isBestIndex r idxs idx
   | None \<Rightarrow> reqPartitionKey r = [] \<or> (\<forall>i \<in> set idxs. idxPartitionKey i \<noteq> reqPartitionKey r)"
proof (cases "reqPartitionKey r = []")
  case False
  obtain best score where s: "selectLoop r idxs None 0 = (best, score)" by (cases "selectLoop r idxs None 0")
  from selectLoop_spec[OF s] show ?thesis
  proof
    assume "best = None \<and> score = 0 \<and> (\<forall>i \<in> set idxs. scoreIndex i r \<le> 0)"
    then have "best = None" "\<forall>i \<in> set idxs. idxPartitionKey i \<noteq> reqPartitionKey r"
      by (blast, metis le_zero_eq score_zero)
    then show ?thesis using s by (simp add: SelectOptimal_def)
  next
    assume "\<exists>pre idx post. idxs = pre @ idx # post \<and> best = Some idx \<and> score = scoreIndex idx r \<and> 0 < score
       \<and> (\<forall>i \<in> set pre. scoreIndex i r < score) \<and> (\<forall>i \<in> set post. scoreIndex i r \<le> score)"
    then show ?thesis using s False score_pos[of _ r] by (fastforce simp: SelectOptimal_def isBestIndex_def)
  qed
qed (simp add: SelectOptimal_def)

theorem SelectOptimal_best_witness:
  "SelectOptimal [\<lparr> idxName = ''g'', idxType = ''GSI'', idxPartitionKey = ''pk'', idxSortKey = [], idxProjectionType = ''ALL'', idxProjectedFields = [] \<rparr>]
     \<lparr> reqPartitionKey = ''pk'', reqSortKey = [], reqSortKeyOp = [] \<rparr> \<noteq> None"
proof -
  let ?i = "\<lparr> idxName = ''g'', idxType = ''GSI'', idxPartitionKey = ''pk'', idxSortKey = [], idxProjectionType = ''ALL'', idxProjectedFields = [] \<rparr>"
  let ?r = "\<lparr> reqPartitionKey = ''pk'', reqSortKey = [], reqSortKeyOp = [] \<rparr>"
  show ?thesis using SelectOptimal_best[where idxs = "[?i]" and r = ?r] by (cases "SelectOptimal [?i] ?r") auto
qed

section \<open>Condition analysis\<close>

text \<open>The specification: the first equality condition gives the partition key; the first condition on another field gives
  the sort key, where the conditions after the equality come before those that precede it.\<close>

definition sortedBy :: "RequiredKeys \<Rightarrow> Condition list \<Rightarrow> RequiredKeys" where
  "sortedBy r cs = (case find (\<lambda>c. condField c \<noteq> reqPartitionKey r) cs of
     None \<Rightarrow> r
   | Some c \<Rightarrow> r \<lparr> reqSortKey := condField c, reqSortKeyOp := normalizeOperator (condOperator c) \<rparr>)"

definition plannedKeys :: "Condition list \<Rightarrow> RequiredKeys" where
  "plannedKeys cs =
     (case dropWhile (\<lambda>c. \<not> isEquality c) cs of
        [] \<Rightarrow> \<lparr> reqPartitionKey = [], reqSortKey = [], reqSortKeyOp = [] \<rparr>
      | c # post \<Rightarrow> sortedBy \<lparr> reqPartitionKey = condField c, reqSortKey = [], reqSortKeyOp = [] \<rparr>
           (post @ takeWhile (\<lambda>c. \<not> isEquality c) cs))"

lemma analyzeLoop_before:
  "\<forall>c \<in> set pre. \<not> isEquality c \<Longrightarrow> reqPartitionKey r = []
   \<Longrightarrow> analyzeLoop (pre @ rest) r ps = analyzeLoop rest r (ps @ pre)"
  by (induction pre arbitrary: ps) (auto simp: Let_def)

lemma analyzeLoop_after:
  "reqPartitionKey r \<noteq> [] \<Longrightarrow> reqSortKey r \<noteq> [] \<Longrightarrow> analyzeLoop cs r ps = (r, ps)"
  by (induction cs) (auto simp: Let_def)

lemma analyzeLoop_sort:
  assumes "reqPartitionKey r \<noteq> []" "reqSortKey r = []" "\<forall>c \<in> set cs. condField c \<noteq> []"
  shows "analyzeLoop cs r ps = (sortedBy r cs, ps)"
  using assms by (induction cs) (auto simp: Let_def analyzeLoop_after sortedBy_def)

lemma sortedBy_keeps: "reqPartitionKey (sortedBy r cs) = reqPartitionKey r"
  by (simp add: sortedBy_def split: option.split)

lemma find_in_set: "find P cs = Some c \<Longrightarrow> c \<in> set cs"
  by (auto simp: find_Some_iff)

lemma sortedBy_append:
  assumes "reqSortKey r = []" "\<forall>c \<in> set cs. condField c \<noteq> []"
  shows "sortedBy r (cs @ ds) = (if reqSortKey (sortedBy r cs) = [] then sortedBy r ds else sortedBy r cs)"
proof -
  have "find P (cs @ ds) = (case find P cs of None \<Rightarrow> find P ds | Some c \<Rightarrow> Some c)" for P
    by (induction cs) auto
  then show ?thesis using assms by (auto simp: sortedBy_def dest: find_in_set split: option.splits)
qed

lemma sortedBy_none: "reqSortKey r = [] \<Longrightarrow> \<forall>c \<in> set cs. condField c \<noteq> [] \<Longrightarrow> reqSortKey (sortedBy r cs) = [] \<Longrightarrow> sortedBy r cs = r"
  by (auto simp: sortedBy_def dest: find_in_set split: option.splits)

text \<open>The keys a query is planned on: the partition key is the field of the first equality condition, and the sort key
  (with its normalised operator) is the first condition on another field, looking first after that equality and then
  before it; without an equality there are no keys.\<close>

theorem AnalyzeConditions_keys:
  assumes "\<forall>c \<in> set cs. condField c \<noteq> []"
  shows "AnalyzeConditions cs = plannedKeys cs"
proof -
  let ?p = "\<lambda>c. \<not> isEquality c" and ?none = "\<lparr> reqPartitionKey = [], reqSortKey = [], reqSortKeyOp = [] \<rparr>"
  define pre where "pre = takeWhile ?p cs"
  have pre: "\<forall>c \<in> set pre. \<not> isEquality c" "\<forall>c \<in> set pre. condField c \<noteq> []"
    using assms by (auto simp: pre_def dest: set_takeWhileD)
  have loop: "analyzeLoop cs ?none [] = analyzeLoop (dropWhile ?p cs) ?none pre"
    using analyzeLoop_before[OF pre(1), of ?none "dropWhile ?p cs" "[]"] by (simp add: pre_def)
  show ?thesis
  proof (cases "dropWhile ?p cs")
    case Nil
    then show ?thesis unfolding AnalyzeConditions_def plannedKeys_def loop Nil by simp
  next
    case (Cons c post)
    let ?r = "\<lparr> reqPartitionKey = condField c, reqSortKey = [], reqSortKeyOp = [] \<rparr>"
    have "isEquality c" using hd_dropWhile[of ?p cs] Cons by simp
    moreover have fields: "condField c \<noteq> []" "\<forall>c \<in> set post. condField c \<noteq> []"
      using assms set_dropWhileD[of _ ?p cs] Cons by auto
    ultimately have "analyzeLoop cs ?none [] = (sortedBy ?r post, pre)"
      using loop Cons analyzeLoop_sort[of ?r post pre] by (simp add: Let_def)
    then have "AnalyzeConditions cs = (if reqSortKey (sortedBy ?r post) = [] then sortedBy (sortedBy ?r post) pre else sortedBy ?r post)"
      using fields(1) by (simp add: AnalyzeConditions_def sortedBy_keeps sortedBy_def[of _ pre] split: option.split)
    then show ?thesis using sortedBy_append[of ?r post pre] sortedBy_none[of ?r post] fields Cons
      by (auto simp: plannedKeys_def pre_def)
  qed
qed

theorem AnalyzeConditions_keys_witness:
  "AnalyzeConditions [\<lparr> condField = ''age'', condOperator = ''GT'', condValue = None \<rparr>, \<lparr> condField = ''id'', condOperator = ''eq'', condValue = None \<rparr>]
     = \<lparr> reqPartitionKey = ''id'', reqSortKey = ''age'', reqSortKeyOp = ''>'' \<rparr>"
  using AnalyzeConditions_keys[of "[\<lparr> condField = ''age'', condOperator = ''GT'', condValue = None \<rparr>, \<lparr> condField = ''id'', condOperator = ''eq'', condValue = None \<rparr>]"]
  by (simp add: plannedKeys_def sortedBy_def isEquality_def normalizeOperator_def lowerByte_def upperByte_def isUpper_def isLower_def char_eval)

end
