(* ===== verification/Naming.thy ===== *)
theory Naming
  imports GoReflect
begin

text \<open>
  Package \<open>pkg/naming\<close>: how a struct field gets its DynamoDB attribute name, the two
  naming conventions and the validation of a resolved name.  Field names are ASCII
  identifiers (on them \<open>[]rune\<close> and bytes agree); the regular expressions
  are written as the predicates and automata they denote.
\<close>

datatype Convention = CamelCase | SnakeCase

datatype naming_error = EmptyAttrName | NotSnakeCase | NotCamelCase

section \<open>Patterns\<close>

definition isAlnum :: "char \<Rightarrow> bool" where
  "isAlnum c = (isLetter c \<or> isDigit c)"

definition camelCasePattern :: "string \<Rightarrow> bool" where
  "camelCasePattern s = (case s of [] \<Rightarrow> False | c # t \<Rightarrow> isLower c \<and> list_all isAlnum t)"

text \<open>The automaton of \<open>[a-z0-9]*(_[a-z0-9]+)*\<close>; the flag says that the last byte was an underscore.\<close>

fun snakeRest :: "bool \<Rightarrow> string \<Rightarrow> bool" where
  "snakeRest u [] = (\<not> u)"
| "snakeRest u (c # s) =
     (if isLower c \<or> isDigit c then snakeRest False s
      else c = CHR ''_'' \<and> \<not> u \<and> snakeRest True s)"

definition snakeCasePattern :: "string \<Rightarrow> bool" where
  "snakeCasePattern s = (case s of [] \<Rightarrow> False | c # t \<Rightarrow> isLower c \<and> snakeRest False t)"

section \<open>Conversion\<close>

function boundaryLoop :: "string \<Rightarrow> nat \<Rightarrow> nat" where
  "boundaryLoop runes b =
     (if b < length runes then
        if \<not> isUpper (runes ! b) then b
        else if b + 1 < length runes \<and> \<not> isUpper (runes ! (b + 1)) then b
        else boundaryLoop runes (b + 1)
      else b)"
  by pat_completeness auto
termination by (relation "measure (\<lambda>(r, b). length r - b)") auto

declare boundaryLoop.simps [simp del]

definition DefaultAttrName :: "string \<Rightarrow> string" where
  "DefaultAttrName name =
     (if name = [] then []
      else if name = ''PK'' \<or> name = ''SK'' then name
      else if length name = 1 then ToLower name
      else let b = boundaryLoop name 1 in ToLower (take b name) @ drop b name)"

fun snakeLoop :: "char option \<Rightarrow> string \<Rightarrow> string" where
  "snakeLoop prev [] = []"
| "snakeLoop prev (c # s) =
     (if isUpper c \<and> (case prev of None \<Rightarrow> False
          | Some p \<Rightarrow> \<not> isDigit p \<and> (isLower p \<or> (isUpper p \<and> (case s of [] \<Rightarrow> False | n # _ \<Rightarrow> isLower n))))
      then CHR ''_'' # lowerByte c # snakeLoop (Some c) s
      else lowerByte c # snakeLoop (Some c) s)"

definition ToSnakeCase :: "string \<Rightarrow> string" where
  "ToSnakeCase name =
     (if name = [] then [] else if length name = 1 then ToLower name else snakeLoop None name)"

definition ConvertAttrName :: "string \<Rightarrow> Convention \<Rightarrow> string" where
  "ConvertAttrName name convention =
     (case convention of SnakeCase \<Rightarrow> ToSnakeCase name | CamelCase \<Rightarrow> DefaultAttrName name)"

section \<open>Validation and resolution\<close>

definition ValidateAttrName :: "string \<Rightarrow> Convention \<Rightarrow> (naming_error, unit) result" where
  "ValidateAttrName name convention =
     (if name = [] then Inl EmptyAttrName
      else case convention of
        SnakeCase \<Rightarrow> (if snakeCasePattern name then Inr () else Inl NotSnakeCase)
      | CamelCase \<Rightarrow> (if name = ''PK'' \<or> name = ''SK'' then Inr ()
                     else if camelCasePattern name then Inr () else Inl NotCamelCase))"

text \<open>The loop of \<open>attrFromTag\<close> over the comma-separated parts.\<close>

fun attrFromParts :: "string list \<Rightarrow> string" where
  "attrFromParts [] = []"
| "attrFromParts (part # parts) =
     (let part = TrimSpace part in
      if part = [] then attrFromParts parts
      else if HasPrefix part ''attr:'' then TrimPrefix part ''attr:''
      else attrFromParts parts)"

definition attrFromTag :: "string \<Rightarrow> string" where
  "attrFromTag tag = (if tag = [] then [] else attrFromParts (SplitByte (CHR '','') tag))"

text \<open>The pair of the attribute name and whether the field is skipped.\<close>

definition ResolveAttrNameWithConvention :: "'t sfield \<Rightarrow> Convention \<Rightarrow> string \<times> bool" where
  "ResolveAttrNameWithConvention field convention =
     (if sfTag field = ''-'' then ([], True)
      else if attrFromTag (sfTag field) \<noteq> [] then (attrFromTag (sfTag field), False)
      else (ConvertAttrName (sfName field) convention, False))"

definition ResolveAttrName :: "'t sfield \<Rightarrow> string \<times> bool" where
  "ResolveAttrName field = ResolveAttrNameWithConvention field CamelCase"

section \<open>Converted names are valid\<close>

text \<open>An exported Go identifier without underscores.\<close>

definition exportedIdent :: "string \<Rightarrow> bool" where
  "exportedIdent s = (case s of [] \<Rightarrow> False | c # t \<Rightarrow> isUpper c \<and> list_all isAlnum t)"

lemma isAlnum_ascii: "isAlnum c \<Longrightarrow> byteOf c < 128"
  by (auto simp: isAlnum_def isLetter_def isUpper_def isLower_def isDigit_def)

lemma isUpper_alnum: "isUpper c \<Longrightarrow> isAlnum c"
  by (simp add: isAlnum_def isLetter_def)

lemma alnum_lowerByte: "isAlnum c \<Longrightarrow> isLower (lowerByte c) \<or> isDigit (lowerByte c)"
  by (cases "isUpper c") (auto simp: isAlnum_def isLetter_def lowerByte_def isLower_def isUpper_def isDigit_def)

lemma lowerByte_not_underscore: "c \<noteq> CHR ''_'' \<Longrightarrow> lowerByte c \<noteq> CHR ''_''"
proof (cases "isUpper c")
  case True
  then have "isLower (lowerByte c)" by simp
  moreover have "\<not> isLower (CHR ''_'')" by (simp add: isLower_def)
  ultimately show ?thesis by metis
qed (simp add: lowerByte_def)

lemma exportedIdent_ascii: "exportedIdent s \<Longrightarrow> isASCII s"
  by (auto simp: exportedIdent_def list_all_iff split: list.splits intro: isAlnum_ascii isUpper_alnum)

lemma boundaryLoop_ge: "b \<le> boundaryLoop runes b"
  by (induction runes b rule: boundaryLoop.induct) (subst boundaryLoop.simps, auto)

lemma snakeRest_snakeLoop:
  "list_all isAlnum s \<Longrightarrow> snakeRest False (snakeLoop prev s)"
proof (induction prev s rule: snakeLoop.induct)
  case (2 prev c s)
  then show ?case
    using alnum_lowerByte[of c] by (auto simp: isLower_def isDigit_def)
qed simp

lemma DefaultAttrName_Cons:
  assumes "exportedIdent name" "name \<noteq> ''PK''" "name \<noteq> ''SK''"
  shows "\<exists>c t. DefaultAttrName name = c # t \<and> isLower c \<and> list_all isAlnum t"
proof -
  obtain c t where name: "name = c # t" "isUpper c" "list_all isAlnum t"
    using assms(1) by (auto simp: exportedIdent_def split: list.splits)
  show ?thesis
  proof (cases "t = []")
    case True
    then show ?thesis
      using name assms exportedIdent_ascii[OF assms(1)] by (simp add: DefaultAttrName_def ToLower_ASCII)
  next
    case False
    obtain b where b: "boundaryLoop name 1 = Suc b"
      using boundaryLoop_ge[of 1 name] by (cases "boundaryLoop name 1") auto
    have "isASCII (take (Suc b) name)"
      using exportedIdent_ascii[OF assms(1)] by (auto simp: list_all_iff dest: in_set_takeD)
    then have lower: "ToLower (take (Suc b) name) = lowerByte c # map lowerByte (take b t)"
      using name(1) by (subst ToLower_ASCII) auto
    have "DefaultAttrName name = ToLower (take (Suc b) name) @ drop (Suc b) name"
      unfolding DefaultAttrName_def using name assms False b by (auto simp del: ToLower.simps take_Suc_Cons)
    then have "DefaultAttrName name = lowerByte c # map lowerByte (take b t) @ drop b t"
      using lower name(1) by simp
    moreover have "list_all isAlnum (map lowerByte (take b t) @ drop b t)"
      using name(3) alnum_lowerByte
      by (fastforce simp: list_all_iff isAlnum_def isLetter_def dest: in_set_takeD in_set_dropD)
    ultimately show ?thesis using name(2) by auto
  qed
qed

lemma ToSnakeCase_valid:
  assumes "exportedIdent name"
  shows "ToSnakeCase name \<noteq> [] \<and> snakeCasePattern (ToSnakeCase name)"
proof -
  obtain c t where name: "name = c # t" "isUpper c" "list_all isAlnum t"
    using assms by (auto simp: exportedIdent_def split: list.splits)
  show ?thesis
  proof (cases "t = []")
    case True
    then show ?thesis
      using name exportedIdent_ascii[OF assms] by (simp add: ToSnakeCase_def snakeCasePattern_def ToLower_ASCII)
  next
    case False
    then show ?thesis
      using name snakeRest_snakeLoop[OF name(3)] by (simp add: ToSnakeCase_def snakeCasePattern_def)
  qed
qed

lemma snakeLoop_letters:
  "CHR ''_'' \<notin> set s \<Longrightarrow> filter (\<lambda>c. c \<noteq> CHR ''_'') (snakeLoop prev s) = map lowerByte s"
proof (induction prev s rule: snakeLoop.induct)
  case (2 prev c s)
  have "lowerByte c \<noteq> CHR ''_''"
    using 2(3) by (metis list.set_intros(1) lowerByte_not_underscore)
  then show ?case using 2 by simp
qed simp

text \<open>The attribute name derived from an exported Go field name (ASCII letters and digits)
  passes the validation of its convention, for both conventions, so a model whose fields carry no
  explicit \<open>attr:\<close> tag is never rejected for its attribute names; and the conversion keeps the
  letters and digits of the field name: the snake_case name is the lower-cased field name with
  underscores inserted.\<close>

theorem ConvertAttrName_valid:
  assumes "exportedIdent name"
  shows "ValidateAttrName (ConvertAttrName name convention) convention = Inr ()
    \<and> filter (\<lambda>c. c \<noteq> CHR ''_'') (ConvertAttrName name SnakeCase) = map lowerByte name"
proof
  show "ValidateAttrName (ConvertAttrName name convention) convention = Inr ()"
  proof (cases convention)
    case CamelCase
    show ?thesis
    proof (cases "name = ''PK'' \<or> name = ''SK''")
      case True
      then show ?thesis using CamelCase by (auto simp: ConvertAttrName_def DefaultAttrName_def ValidateAttrName_def)
    next
      case False
      then show ?thesis
        using CamelCase DefaultAttrName_Cons[OF assms] by (auto simp: ConvertAttrName_def ValidateAttrName_def camelCasePattern_def)
    qed
  next
    case SnakeCase
    then show ?thesis
      using ToSnakeCase_valid[OF assms] by (simp add: ConvertAttrName_def ValidateAttrName_def)
  qed
  have us: "CHR ''_'' \<notin> set name"
    using assms by (auto simp: exportedIdent_def list_all_iff isAlnum_def isLetter_def isUpper_def isLower_def isDigit_def
        split: list.splits)
  show "filter (\<lambda>c. c \<noteq> CHR ''_'') (ConvertAttrName name SnakeCase) = map lowerByte name"
  proof (cases "length name = 1")
    case True
    then obtain c where c: "name = [c]" by (auto simp: length_Suc_conv)
    have "lowerByte c \<noteq> CHR ''_''" using us c by (metis list.set_intros(1) lowerByte_not_underscore)
    then show ?thesis using c by (simp add: ConvertAttrName_def ToSnakeCase_def)
  next
    case False
    then show ?thesis using snakeLoop_letters[OF us] by (simp add: ConvertAttrName_def ToSnakeCase_def)
  qed
qed

theorem ConvertAttrName_valid_witness:
  "ConvertAttrName ''URLValue'' SnakeCase = ''url_value''
   \<and> ValidateAttrName (ConvertAttrName ''URLValue'' SnakeCase) SnakeCase = Inr ()"
proof
  show "ConvertAttrName ''URLValue'' SnakeCase = ''url_value''" by code_simp
  have "exportedIdent ''URLValue''" by code_simp
  then show "ValidateAttrName (ConvertAttrName ''URLValue'' SnakeCase) SnakeCase = Inr ()"
    using ConvertAttrName_valid by blast
qed

end
