(* ===== verification/Registry.thy ===== *)
theory Registry
  imports Naming
begin

text \<open>
  \<open>pkg/model/registry.go\<close>: models are registered once; their metadata is parsed from the struct
  fields and the \<open>theorydb\<close> tags.  A type's \<open>TableName\<close> method is code of the application and a parameter:
  \<open>methods t ptr\<close> is the result of the method on a value (\<open>ptr = False\<close>) or a pointer to one, \<open>None\<close> when there is
  no method of the expected signature.  Pointers to \<open>FieldMetadata\<close> are the records themselves, which the code never
  changes after it has parsed a field.  The lemmas show what a successful parse guarantees.
\<close>

section \<open>Metadata\<close>

datatype regerror =
    ErrInvalidModel string
  | ErrTableNotFound string
  | ErrInvalidTag string
  | ErrMissingPrimaryKey
  | ErrDuplicatePrimaryKey
  | RegError string
  | FieldError regerror    \<comment> \<open>wrapped with \<open>field validation failed\<close>\<close>
  | RegPanic               \<comment> \<open>the call panics\<close>

record IndexRole =
  roleIndexName :: string
  roleIsPK :: bool
  roleIsSK :: bool

record FieldMetadata =
  fmType :: gtype
  IndexInfo :: "(string \<times> IndexRole) list"
  Tags :: "(string \<times> string) list"
  DBName :: string
  fmName :: string
  IndexPath :: "nat list"
  fmIndex :: nat
  IsPK :: bool
  IsEncrypted :: bool
  IsVersion :: bool
  IsTTL :: bool
  IsCreatedAt :: bool
  IsUpdatedAt :: bool
  IsSet :: bool
  OmitEmpty :: bool
  IsSK :: bool

record KeySchema =
  PartitionKey :: "FieldMetadata option"
  SortKey :: "FieldMetadata option"

datatype IndexType = GlobalSecondaryIndex | LocalSecondaryIndex

record ModelIndex =
  ixName :: string
  ixType :: IndexType
  ixPartitionKey :: "FieldMetadata option"
  ixSortKey :: "FieldMetadata option"
  ixProjectionType :: string
  ixProjectedFields :: "string list"
  ixSparse :: bool

record Metadata =
  mdType :: gtype
  PrimaryKey :: "KeySchema option"
  Fields :: "(string \<times> FieldMetadata) list"
  FieldsByDBName :: "(string \<times> FieldMetadata) list"
  VersionField :: "FieldMetadata option"
  TTLField :: "FieldMetadata option"
  CreatedAtField :: "FieldMetadata option"
  UpdatedAtField :: "FieldMetadata option"
  TableName :: string
  Indexes :: "ModelIndex list"
  NamingConvention :: Convention

type_synonym indexMap = "(string \<times> ModelIndex) list"

definition newMetadata :: "gtype \<Rightarrow> string \<Rightarrow> Convention \<Rightarrow> Metadata" where
  "newMetadata modelType tableName convention =
     \<lparr> mdType = modelType, PrimaryKey = None, Fields = [], FieldsByDBName = [], VersionField = None, TTLField = None,
       CreatedAtField = None, UpdatedAtField = None, TableName = tableName, Indexes = [], NamingConvention = convention \<rparr>"

section \<open>Tags\<close>

definition isIndexModifier :: "string \<Rightarrow> bool" where
  "isIndexModifier token = (token \<in> {''pk'', ''sk'', ''sparse''})"

text \<open>The loop of \<open>splitTags\<close>: the parts so far, the clause being collected and whether it is an index clause.\<close>

definition flushCurrent :: "string list \<Rightarrow> string \<Rightarrow> string list" where
  "flushCurrent parts current = (if current = [] then parts else parts @ [current])"

fun splitLoop :: "string list \<Rightarrow> string list \<Rightarrow> string \<Rightarrow> bool \<Rightarrow> string list" where
  "splitLoop [] parts current inIndexClause = flushCurrent parts current"
| "splitLoop (raw # tokens) parts current inIndexClause =
     (let part = TrimSpace raw in
      if part = [] then splitLoop tokens parts current inIndexClause
      else if inIndexClause \<and> isIndexModifier part then splitLoop tokens parts (current @ '','' @ part) inIndexClause
      else
        let parts1 = (if inIndexClause then flushCurrent parts current else parts);
            current1 = (if inIndexClause then [] else current);
            in1 = (if inIndexClause \<and> current \<noteq> [] then False else inIndexClause) in
        if HasPrefix part ''index:'' \<or> HasPrefix part ''lsi:''
        then splitLoop tokens parts1 (current1 @ part) True
        else splitLoop tokens (parts1 @ [part]) current1 in1)"

definition splitTags :: "string \<Rightarrow> string list" where
  "splitTags tag = splitLoop (SplitByte (CHR '','') tag) [] [] False"

definition setTag :: "string \<Rightarrow> string \<Rightarrow> FieldMetadata \<Rightarrow> FieldMetadata" where
  "setTag k v meta = meta \<lparr> Tags := AList.update k v (Tags meta) \<rparr>"

definition lsiModifier :: "string \<Rightarrow> IndexRole \<Rightarrow> (regerror, IndexRole) result" where
  "lsiModifier raw role =
     (if TrimSpace raw = ''sk'' then Inr (role \<lparr> roleIsSK := True \<rparr>)
      else Inl (ErrInvalidTag ''unknown lsi tag modifier''))"

definition parseLSITag :: "FieldMetadata \<Rightarrow> string \<Rightarrow> (regerror, FieldMetadata) result" where
  "parseLSITag meta val =
     (let lsiParts = SplitByte (CHR '','') val;
          indexName = TrimSpace (hd lsiParts);
          role = \<lparr> roleIndexName = indexName, roleIsPK = False, roleIsSK = False \<rparr> in
      bindE (if length lsiParts = 1 then Inr (role \<lparr> roleIsSK := True \<rparr>) else foldE lsiModifier (tl lsiParts) role)
        (\<lambda>role. Inr (setTag (''lsi:'' @ indexName) ''true''
           (meta \<lparr> IndexInfo := AList.update indexName role (IndexInfo meta) \<rparr>))))"

definition indexModifier :: "string \<Rightarrow> string \<Rightarrow> IndexRole \<times> FieldMetadata \<Rightarrow> (regerror, IndexRole \<times> FieldMetadata) result" where
  "indexModifier indexName raw = (\<lambda>(role, meta).
     (let part = TrimSpace raw in
      if part = [] then Inr (role, meta)
      else if part = ''pk'' then Inr (role \<lparr> roleIsPK := True \<rparr>, meta)
      else if part = ''sk'' then Inr (role \<lparr> roleIsSK := True \<rparr>, meta)
      else if part = ''sparse'' then Inr (role, setTag (''sparse:'' @ indexName) ''true'' meta)
      else Inl (ErrInvalidTag ''unknown index tag modifier'')))"

definition parseIndexTag :: "FieldMetadata \<Rightarrow> string \<Rightarrow> (regerror, FieldMetadata) result" where
  "parseIndexTag meta val =
     (let parts = SplitByte (CHR '','') val;
          indexName = TrimSpace (hd parts);
          role = \<lparr> roleIndexName = indexName, roleIsPK = False, roleIsSK = False \<rparr> in
      bindE (if length parts = 1 then Inr (role \<lparr> roleIsPK := True \<rparr>, meta) else foldE (indexModifier indexName) (tl parts) (role, meta))
        (\<lambda>(role, meta). Inr (meta \<lparr> IndexInfo := AList.update indexName role (IndexInfo meta) \<rparr>)))"

definition applyKeyValueTag :: "FieldMetadata \<Rightarrow> string \<Rightarrow> string \<Rightarrow> (regerror, FieldMetadata) result" where
  "applyKeyValueTag meta key val =
     (if key = ''attr'' then Inr (meta \<lparr> DBName := val \<rparr>)
      else if key = ''index'' then parseIndexTag meta val
      else if key = ''lsi'' then parseLSITag meta val
      else if key = ''encrypted'' then Inr ((setTag ''encrypted'' val meta) \<lparr> IsEncrypted := True \<rparr>)
      else Inr (setTag key val meta))"

definition applySimpleTag :: "FieldMetadata \<Rightarrow> string \<Rightarrow> (regerror, FieldMetadata) result" where
  "applySimpleTag meta tag =
     (if tag = ''pk'' then Inr (meta \<lparr> IsPK := True \<rparr>)
      else if tag = ''sk'' then Inr (meta \<lparr> IsSK := True \<rparr>)
      else if tag = ''version'' then Inr (meta \<lparr> IsVersion := True \<rparr>)
      else if tag = ''ttl'' then Inr (meta \<lparr> IsTTL := True \<rparr>)
      else if tag = ''created_at'' then Inr (meta \<lparr> IsCreatedAt := True \<rparr>)
      else if tag = ''updated_at'' then Inr (meta \<lparr> IsUpdatedAt := True \<rparr>)
      else if tag = ''set'' then Inr (meta \<lparr> IsSet := True \<rparr>)
      else if tag = ''omitempty'' then Inr (meta \<lparr> OmitEmpty := True \<rparr>)
      else if tag \<in> {''binary'', ''json''} then Inr (setTag tag ''true'' meta)
      else if tag = ''encrypted'' then Inr ((setTag tag ''true'' meta) \<lparr> IsEncrypted := True \<rparr>)
      else Inl (ErrInvalidTag ''unknown tag''))"

definition applyTagPart :: "FieldMetadata \<Rightarrow> string \<Rightarrow> (regerror, FieldMetadata) result" where
  "applyTagPart meta part =
     (case IndexByte part (CHR '':'') of
        Some (Suc i) \<Rightarrow> applyKeyValueTag meta (take (Suc i) part) (TrimSpace (drop (Suc (Suc i)) part))
      | _ \<Rightarrow> applySimpleTag meta part)"

definition parseTheorydbTag :: "FieldMetadata \<Rightarrow> string \<Rightarrow> (regerror, FieldMetadata) result" where
  "parseTheorydbTag meta tag =
     foldE (\<lambda>part meta. let part = TrimSpace part in if part = [] then Inr meta else applyTagPart meta part)
       (splitTags tag) meta"

section \<open>Fields\<close>

definition isTimeField :: "gtype \<Rightarrow> bool" where
  "isTimeField t = (t = TTime)"

definition applyImplicitTimestampTags :: "'t sfield \<Rightarrow> gtype \<Rightarrow> FieldMetadata \<Rightarrow> FieldMetadata" where
  "applyImplicitTimestampTags field t meta =
     (if \<not> isTimeField t then meta
      else meta \<lparr> IsCreatedAt := IsCreatedAt meta \<or> foldCase (sfName field) = ''createdat'',
                  IsUpdatedAt := IsUpdatedAt meta \<or> foldCase (sfName field) = ''updatedat'' \<rparr>)"

definition numericKind :: "gtype \<Rightarrow> bool" where
  "numericKind t = (kindOf t \<in> {KInt, KUint, KUint8})"

definition ttlKind :: "gtype \<Rightarrow> bool" where
  "ttlKind t = (underlying t \<in> {TInt Int64, TUint Uint64})"

definition validateFieldType :: "FieldMetadata \<Rightarrow> (regerror, unit) result" where
  "validateFieldType meta =
     (if IsVersion meta \<and> \<not> numericKind (fmType meta) then Inl (ErrInvalidTag ''version field must be numeric'')
      else if IsTTL meta \<and> \<not> ttlKind (fmType meta) then Inl (ErrInvalidTag ''ttl field must be int64 or uint64'')
      else if IsSet meta \<and> kindOf (fmType meta) \<noteq> KSlice then Inl (ErrInvalidTag ''set tag can only be used on slice types'')
      else if (IsCreatedAt meta \<or> IsUpdatedAt meta) \<and> fmType meta \<noteq> TTime
        then Inl (ErrInvalidTag ''created_at/updated_at fields must be time.Time'')
      else Inr ())"

text \<open>\<open>Inr None\<close>: the field is skipped.\<close>

definition parseFieldMetadata :: "gtype sfield \<Rightarrow> nat list \<Rightarrow> Convention \<Rightarrow> (regerror, FieldMetadata option) result" where
  "parseFieldMetadata field indexPath convention =
     (let meta = \<lparr> fmType = sfType field, IndexInfo = [], Tags = [],
                   DBName = ConvertAttrName (sfName field) convention, fmName = sfName field, IndexPath = indexPath,
                   fmIndex = last indexPath, IsPK = False, IsEncrypted = False, IsVersion = False, IsTTL = False,
                   IsCreatedAt = False, IsUpdatedAt = False, IsSet = False, OmitEmpty = False, IsSK = False \<rparr>;
          meta1 = applyImplicitTimestampTags field (sfType field) meta in
      if sfTag field = [] then Inr (Some meta1)
      else if sfTag field = ''-'' then Inr None
      else case parseTheorydbTag meta1 (sfTag field) of Inl e \<Rightarrow> Inl e
        | Inr meta2 \<Rightarrow>
           (case validateFieldType meta2 of Inl e \<Rightarrow> Inl e
            | Inr _ \<Rightarrow>
               (case ValidateAttrName (DBName meta2) convention of Inl _ \<Rightarrow> Inl (ErrInvalidTag ''invalid attribute name'')
                | Inr _ \<Rightarrow> Inr (Some meta2))))"

definition isEmbeddedStruct :: "gtype sfield \<Rightarrow> bool" where
  "isEmbeddedStruct field = (sfAnonymous field \<and> kindOf (sfType field) = KStruct)"

definition registerField :: "Metadata \<Rightarrow> FieldMetadata \<Rightarrow> Metadata" where
  "registerField md fm = md \<lparr> Fields := AList.update (fmName fm) fm (Fields md),
                             FieldsByDBName := AList.update (DBName fm) fm (FieldsByDBName md) \<rparr>"

definition keySchema :: "Metadata \<Rightarrow> KeySchema" where
  "keySchema md = (case PrimaryKey md of None \<Rightarrow> \<lparr> PartitionKey = None, SortKey = None \<rparr> | Some ks \<Rightarrow> ks)"

definition applyKeyFields :: "Metadata \<Rightarrow> FieldMetadata \<Rightarrow> (regerror, Metadata) result" where
  "applyKeyFields md fm =
     (case (if \<not> IsPK fm then Inr md
            else if PartitionKey (keySchema md) \<noteq> None then Inl ErrDuplicatePrimaryKey
            else Inr (md \<lparr> PrimaryKey := Some ((keySchema md) \<lparr> PartitionKey := Some fm \<rparr>) \<rparr>)) of
        Inl e \<Rightarrow> Inl e
      | Inr md1 \<Rightarrow>
         (if \<not> IsSK fm then Inr md1
          else if SortKey (keySchema md1) \<noteq> None then Inl (RegError ''duplicate sort key definition'')
          else Inr (md1 \<lparr> PrimaryKey := Some ((keySchema md1) \<lparr> SortKey := Some fm \<rparr>) \<rparr>)))"

definition applySpecialFields :: "Metadata \<Rightarrow> FieldMetadata \<Rightarrow> Metadata" where
  "applySpecialFields md fm = md \<lparr>
     VersionField := (if IsVersion fm then Some fm else VersionField md),
     TTLField := (if IsTTL fm then Some fm else TTLField md),
     CreatedAtField := (if IsCreatedAt fm then Some fm else CreatedAtField md),
     UpdatedAtField := (if IsUpdatedAt fm then Some fm else UpdatedAtField md) \<rparr>"

definition determineIndexType :: "string \<Rightarrow> IndexType" where
  "determineIndexType indexName =
     (if HasPrefix indexName ''lsi-'' \<or> HasPrefix indexName ''lsi_'' then LocalSecondaryIndex else GlobalSecondaryIndex)"

definition getOrCreateIndexSchema :: "FieldMetadata \<Rightarrow> string \<Rightarrow> indexMap \<Rightarrow> ModelIndex" where
  "getOrCreateIndexSchema fm indexName im =
     (case map_of im indexName of
        Some index \<Rightarrow> index
      | None \<Rightarrow> \<lparr> ixName = indexName,
                  ixType = (if map_of (Tags fm) (''lsi:'' @ indexName) \<noteq> None then LocalSecondaryIndex else determineIndexType indexName),
                  ixPartitionKey = None, ixSortKey = None, ixProjectionType = [], ixProjectedFields = [], ixSparse = False \<rparr>)"

text \<open>One role of a field: the index is fetched or created, changed through its pointer, and so stays in the map.\<close>

definition applyRole :: "FieldMetadata \<Rightarrow> string \<times> IndexRole \<Rightarrow> indexMap \<Rightarrow> (regerror, indexMap) result" where
  "applyRole fm = (\<lambda>(indexName, role) im.
     (let index = getOrCreateIndexSchema fm indexName im in
      if roleIsPK role \<and> ixPartitionKey index \<noteq> None then Inl (RegError ''duplicate partition key for index'')
      else let index1 = (if roleIsPK role then index \<lparr> ixPartitionKey := Some fm \<rparr> else index) in
      if roleIsSK role \<and> ixSortKey index1 \<noteq> None then Inl (RegError ''duplicate sort key for index'')
      else let index2 = (if roleIsSK role then index1 \<lparr> ixSortKey := Some fm \<rparr> else index1) in
      Inr (AList.update indexName index2 im)))"

definition applyFieldIndexes :: "FieldMetadata \<Rightarrow> indexMap \<Rightarrow> (regerror, indexMap) result" where
  "applyFieldIndexes fm im = foldE (applyRole fm) (IndexInfo fm) im"

text \<open>One field; \<open>sub\<close> parses the fields of its type when it is an embedded struct.\<close>

definition parseFieldWith :: "(nat list \<Rightarrow> Metadata \<times> indexMap \<Rightarrow> (regerror, Metadata \<times> indexMap) result) \<Rightarrow>
    gtype sfield \<Rightarrow> nat list \<Rightarrow> Metadata \<times> indexMap \<Rightarrow> (regerror, Metadata \<times> indexMap) result" where
  "parseFieldWith sub field indexPath = (\<lambda>(md, im).
     (if \<not> sfExported field then Inr (md, im)
      else if isEmbeddedStruct field then sub indexPath (md, im)
      else case parseFieldMetadata field indexPath (NamingConvention md) of
        Inl e \<Rightarrow> Inl (FieldError e)
      | Inr None \<Rightarrow> Inr (md, im)
      | Inr (Some fm) \<Rightarrow>
         (if IsEncrypted fm \<and> (IsPK fm \<or> IsSK fm \<or> IndexInfo fm \<noteq> [])
          then Inl (ErrInvalidTag ''encrypted fields cannot be used as primary or index keys'')
          else case applyKeyFields (registerField md fm) fm of
            Inl e \<Rightarrow> Inl e
          | Inr md1 \<Rightarrow>
             (case applyFieldIndexes fm im of Inl e \<Rightarrow> Inl e
              | Inr im1 \<Rightarrow> Inr (applySpecialFields md1 fm, im1)))))"

lemma size_enum_less [termination_simp]:
  "(i, f) \<in> set (enumerate k fs) \<Longrightarrow> size (sfType f) < Suc (size_list (size_sfield size) fs)"
  by (auto simp: in_set_enumerate_eq intro: size_sfType_less)

text \<open>The fields of a struct in order, embedded structs in place.  The fields of \<open>time.Time\<close> are unexported.\<close>

fun parseFields :: "gtype \<Rightarrow> nat list \<Rightarrow> Metadata \<times> indexMap \<Rightarrow> (regerror, Metadata \<times> indexMap) result" where
  "parseFields (TNamed n t) indexPath st = parseFields t indexPath st"
| "parseFields (TStruct n fs) indexPath st =
     foldE (\<lambda>(i, field) st. parseFieldWith (\<lambda>p st. parseFields (sfType field) p st) field (indexPath @ [i]) st) (enumerate 0 fs) st"
| "parseFields t indexPath st = Inr st"

section \<open>Models\<close>

definition conventionOf :: "string \<Rightarrow> Convention option" where
  "conventionOf raw =
     (let part = TrimSpace raw in
      if HasPrefix part ''naming:'' then
        (let convention = TrimPrefix part ''naming:'' in
         if convention = ''snake_case'' then Some SnakeCase
         else if convention \<in> {''camel_case'', ''camelCase''} then Some CamelCase else None)
      else None)"

definition detectNamingConvention :: "gtype \<Rightarrow> Convention" where
  "detectNamingConvention modelType =
     (case List.map_filter conventionOf (concat (map (\<lambda>f. if sfTag f = [] then [] else SplitByte (CHR '','') (sfTag f)) (structFields modelType))) of
        [] \<Rightarrow> CamelCase | c # _ \<Rightarrow> c)"

fun typeName :: "gtype \<Rightarrow> string" where
  "typeName (TNamed n t) = n"
| "typeName (TStruct n fs) = n"
| "typeName TTime = ''Time''"
| "typeName t = []"

definition getTableName :: "string \<Rightarrow> string" where
  "getTableName name =
     (if HasSuffix name ''s'' then name @ ''es''
      else if HasSuffix name ''y'' then butlast name @ ''ies''
      else name @ ''s'')"

definition resolveTableName :: "(gtype \<Rightarrow> bool \<Rightarrow> string option) \<Rightarrow> gtype \<Rightarrow> string" where
  "resolveTableName methods modelType =
     (case methods modelType False of
        Some (c # n) \<Rightarrow> c # n
      | _ \<Rightarrow> (case methods modelType True of Some (c # n) \<Rightarrow> c # n | _ \<Rightarrow> getTableName (typeName modelType)))"

definition registerIndex :: "string \<times> ModelIndex \<Rightarrow> Metadata \<Rightarrow> (regerror, Metadata) result" where
  "registerIndex = (\<lambda>(_, index) md.
     (if ixType index = LocalSecondaryIndex
      then Inr (md \<lparr> Indexes := Indexes md @ [index \<lparr> ixPartitionKey := PartitionKey (keySchema md) \<rparr>] \<rparr>)
      else if ixPartitionKey index = None then Inl (RegError ''missing partition key for index'')
      else Inr (md \<lparr> Indexes := Indexes md @ [index] \<rparr>)))"

definition registerIndexes :: "Metadata \<Rightarrow> indexMap \<Rightarrow> (regerror, Metadata) result" where
  "registerIndexes md im = foldE registerIndex im md"

definition parseMetadata :: "(gtype \<Rightarrow> bool \<Rightarrow> string option) \<Rightarrow> gtype \<Rightarrow> (regerror, Metadata) result" where
  "parseMetadata methods modelType =
     (case parseFields modelType [] (newMetadata modelType (resolveTableName methods modelType) (detectNamingConvention modelType), []) of
        Inl e \<Rightarrow> Inl e
      | Inr (md, im) \<Rightarrow>
         (if PartitionKey (keySchema md) = None then Inl ErrMissingPrimaryKey
          else registerIndexes md im))"

section \<open>The registry\<close>

record Registry =
  models :: "(gtype \<times> Metadata) list"
  tables :: "(string \<times> Metadata) list"

definition NewRegistry :: Registry where
  "NewRegistry = \<lparr> models = [], tables = [] \<rparr>"

definition modelTypeOf :: "gtype \<Rightarrow> gtype" where
  "modelTypeOf t = (if kindOf t = KPointer then elemOf t else t)"

text \<open>\<open>reflect.TypeOf(nil)\<close> is a nil \<open>Type\<close>: asking it for its kind panics.\<close>

definition Register :: "(gtype \<Rightarrow> bool \<Rightarrow> string option) \<Rightarrow> goany \<Rightarrow> Registry \<Rightarrow> (regerror, unit) result \<times> Registry" where
  "Register methods model r =
     (case model of
        None \<Rightarrow> (Inl RegPanic, r)
      | Some (t, _) \<Rightarrow>
         (let modelType = modelTypeOf t in
          if kindOf modelType \<noteq> KStruct then (Inl (ErrInvalidModel ''model must be a struct''), r)
          else if map_of (models r) modelType \<noteq> None then (Inr (), r)
          else case parseMetadata methods modelType of
            Inl e \<Rightarrow> (Inl e, r)
          | Inr md \<Rightarrow> (Inr (), r \<lparr> models := AList.update modelType md (models r),
                                   tables := AList.update (TableName md) md (tables r) \<rparr>)))"

definition GetMetadata :: "goany \<Rightarrow> Registry \<Rightarrow> (regerror, Metadata) result" where
  "GetMetadata model r =
     (case model of
        None \<Rightarrow> Inl RegPanic
      | Some (t, _) \<Rightarrow> (case map_of (models r) (modelTypeOf t) of
            None \<Rightarrow> Inl (ErrInvalidModel ''model not registered'')
          | Some md \<Rightarrow> Inr md))"

definition GetMetadataByTable :: "string \<Rightarrow> Registry \<Rightarrow> (regerror, Metadata) result" where
  "GetMetadataByTable tableName r =
     (case map_of (tables r) tableName of None \<Rightarrow> Inl (ErrTableNotFound tableName) | Some md \<Rightarrow> Inr md)"

section \<open>What a parsed field guarantees\<close>

definition encTagged :: "FieldMetadata \<Rightarrow> bool" where
  "encTagged fm = (IsEncrypted fm \<longleftrightarrow> map_of (Tags fm) ''encrypted'' \<noteq> None)"

definition fieldOk :: "FieldMetadata \<Rightarrow> bool" where
  "fieldOk fm = (encTagged fm \<and> (IsVersion fm \<longrightarrow> numericKind (fmType fm)) \<and> (IsTTL fm \<longrightarrow> ttlKind (fmType fm))
     \<and> (IsCreatedAt fm \<or> IsUpdatedAt fm \<longrightarrow> fmType fm = TTime))"

lemma encTagged_setTag [simp]: "k \<noteq> ''encrypted'' \<Longrightarrow> encTagged (setTag k v fm) = encTagged fm"
  by (simp add: encTagged_def setTag_def)

lemma encTagged_upd [simp]:
  "encTagged (fm \<lparr> IndexInfo := a \<rparr>) = encTagged fm" "encTagged (fm \<lparr> DBName := b \<rparr>) = encTagged fm"
  "encTagged (fm \<lparr> IsPK := c \<rparr>) = encTagged fm" "encTagged (fm \<lparr> IsSK := c \<rparr>) = encTagged fm"
  "encTagged (fm \<lparr> IsVersion := c \<rparr>) = encTagged fm" "encTagged (fm \<lparr> IsTTL := c \<rparr>) = encTagged fm"
  "encTagged (fm \<lparr> IsCreatedAt := c \<rparr>) = encTagged fm" "encTagged (fm \<lparr> IsUpdatedAt := c \<rparr>) = encTagged fm"
  "encTagged (fm \<lparr> IsSet := c \<rparr>) = encTagged fm" "encTagged (fm \<lparr> OmitEmpty := c \<rparr>) = encTagged fm"
  by (simp_all add: encTagged_def)

lemma encTagged_mark [simp]: "encTagged ((setTag ''encrypted'' v fm) \<lparr> IsEncrypted := True \<rparr>)"
  by (simp add: encTagged_def setTag_def)

lemma encTagged_indexTag: "parseIndexTag fm val = Inr fm' \<Longrightarrow> encTagged fm \<Longrightarrow> encTagged fm'"
proof -
  assume p: "parseIndexTag fm val = Inr fm'" and fm: "encTagged fm"
  have step: "encTagged (snd s')" if "encTagged (snd s)" "indexModifier n raw s = Inr s'" for n raw s s'
    using that by (auto simp: indexModifier_def Let_def split: prod.splits if_splits)
  have "encTagged (snd s')" if "foldE (indexModifier n) xs (role, fm) = Inr s'" for n xs role s'
    using foldE_inv[OF that, of "\<lambda>s. encTagged (snd s)"] fm step by auto
  then show "encTagged fm'" using p fm
    by (fastforce simp: parseIndexTag_def Let_def bindE_eq_Inr split: if_splits)
qed

lemma encTagged_lsiTag: "parseLSITag fm val = Inr fm' \<Longrightarrow> encTagged fm \<Longrightarrow> encTagged fm'"
  by (auto simp: parseLSITag_def bindE_eq_Inr Let_def)

lemma encTagged_keyValueTag:
  assumes "encTagged fm" shows "pred_sum (\<lambda>_. True) encTagged (applyKeyValueTag fm key val)"
proof -
  have "pred_sum (\<lambda>_. True) encTagged (parseIndexTag fm val)" "pred_sum (\<lambda>_. True) encTagged (parseLSITag fm val)"
    using assms encTagged_indexTag encTagged_lsiTag by (cases "parseIndexTag fm val", auto, cases "parseLSITag fm val", auto)
  then show ?thesis using assms unfolding applyKeyValueTag_def by (simp split del: if_split split: if_split)
qed

lemma encTagged_simpleTag:
  assumes "encTagged fm" shows "pred_sum (\<lambda>_. True) encTagged (applySimpleTag fm tag)"
  using assms unfolding applySimpleTag_def by (simp add: pred_sum_inject)

lemma encTagged_tagPart: "applyTagPart fm part = Inr fm' \<Longrightarrow> encTagged fm \<Longrightarrow> encTagged fm'"
  using encTagged_keyValueTag[of fm] encTagged_simpleTag[of fm part] unfolding applyTagPart_def
  by (metis (no_types, lifting) option.case_eq_if nat.case_eq_if pred_sum_inject(2))

lemma encTagged_tag: "parseTheorydbTag fm tag = Inr fm' \<Longrightarrow> encTagged fm \<Longrightarrow> encTagged fm'"
  unfolding parseTheorydbTag_def by (erule foldE_inv) (auto simp: Let_def dest: encTagged_tagPart split: if_splits)

lemma parseFieldMetadata_ok:
  assumes "parseFieldMetadata field path conv = Inr (Some fm)"
  shows "fieldOk fm \<and> (sfTag field \<noteq> [] \<longrightarrow> ValidateAttrName (DBName fm) conv = Inr ())"
proof -
  define meta where "meta = \<lparr> fmType = sfType field, IndexInfo = [], Tags = [],
                   DBName = ConvertAttrName (sfName field) conv, fmName = sfName field, IndexPath = path,
                   fmIndex = last path, IsPK = False, IsEncrypted = False, IsVersion = False, IsTTL = False,
                   IsCreatedAt = False, IsUpdatedAt = False, IsSet = False, OmitEmpty = False, IsSK = False \<rparr>"
  define meta1 where "meta1 = applyImplicitTimestampTags field (sfType field) meta"
  have enc: "encTagged meta1" by (simp add: meta1_def meta_def applyImplicitTimestampTags_def encTagged_def)
  show ?thesis
  proof (cases "sfTag field = []")
    case True
    then have "fm = meta1" using assms by (simp add: parseFieldMetadata_def meta_def meta1_def Let_def)
    then show ?thesis using enc True
      by (auto simp: fieldOk_def meta1_def meta_def applyImplicitTimestampTags_def isTimeField_def split: if_splits)
  next
    case False
    then have "parseTheorydbTag meta1 (sfTag field) = Inr fm" "validateFieldType fm = Inr ()" "ValidateAttrName (DBName fm) conv = Inr ()"
      using assms unfolding parseFieldMetadata_def meta_def[symmetric] Let_def meta1_def[symmetric]
      by (auto split: if_splits sum.splits)
    then show ?thesis using encTagged_tag[OF _ enc]
      by (auto simp: fieldOk_def validateFieldType_def split: if_splits)
  qed
qed

section \<open>What a registered model guarantees\<close>

abbreviation plain :: "FieldMetadata \<Rightarrow> bool" where
  "plain fm \<equiv> \<not> IsEncrypted fm"

definition fieldsInv :: "Metadata \<Rightarrow> bool" where
  "fieldsInv md = ((\<forall>(k, fm) \<in> set (Fields md). fmName fm = k \<and> fieldOk fm)
     \<and> (\<forall>(k, fm) \<in> set (FieldsByDBName md). DBName fm = k \<and> fieldOk fm))"

definition keysInv :: "Metadata \<Rightarrow> bool" where
  "keysInv md = (pred_option (\<lambda>fm. IsPK fm \<and> plain fm) (PartitionKey (keySchema md))
     \<and> pred_option (\<lambda>fm. IsSK fm \<and> plain fm) (SortKey (keySchema md)))"

definition specialInv :: "Metadata \<Rightarrow> bool" where
  "specialInv md = (pred_option (\<lambda>fm. numericKind (fmType fm)) (VersionField md)
     \<and> pred_option (\<lambda>fm. ttlKind (fmType fm)) (TTLField md)
     \<and> pred_option (\<lambda>fm. fmType fm = TTime) (CreatedAtField md)
     \<and> pred_option (\<lambda>fm. fmType fm = TTime) (UpdatedAtField md))"

definition indexInv :: "indexMap \<Rightarrow> bool" where
  "indexInv im = (distinct (map fst im) \<and>
     (\<forall>(k, ix) \<in> set im. ixName ix = k \<and> pred_option plain (ixPartitionKey ix) \<and> pred_option plain (ixSortKey ix)))"

definition parseInv :: "Metadata \<times> indexMap \<Rightarrow> bool" where
  "parseInv st = (fieldsInv (fst st) \<and> keysInv (fst st) \<and> specialInv (fst st) \<and> indexInv (snd st) \<and> Indexes (fst st) = [])"

lemma update_mem: "p \<in> set (AList.update k v al) \<Longrightarrow> p = (k, v) \<or> p \<in> set al"
  by (induction al) (auto split: if_splits)

lemma indexInv_role:
  assumes "indexInv im" "plain fm" "applyRole fm r im = Inr im'"
  shows "indexInv im'"
proof -
  have "ixName (getOrCreateIndexSchema fm (fst r) im) = fst r"
    "pred_option plain (ixPartitionKey (getOrCreateIndexSchema fm (fst r) im))"
    "pred_option plain (ixSortKey (getOrCreateIndexSchema fm (fst r) im))"
    using assms(1) by (auto simp: getOrCreateIndexSchema_def indexInv_def split: option.split dest!: map_of_SomeD)
  then show ?thesis using assms
    by (auto simp: applyRole_def Let_def indexInv_def dest!: update_mem split: prod.splits if_splits)
qed

lemma indexInv_field:
  assumes "indexInv im" "plain fm \<or> IndexInfo fm = []" "applyFieldIndexes fm im = Inr im'"
  shows "indexInv im'"
proof (cases "IndexInfo fm = []")
  case False
  then show ?thesis using assms foldE_inv[of "applyRole fm" "IndexInfo fm" im im' indexInv] indexInv_role
    by (auto simp: applyFieldIndexes_def)
qed (use assms in \<open>simp add: applyFieldIndexes_def\<close>)

lemma registerField_inv: "fieldsInv md \<Longrightarrow> fieldOk fm \<Longrightarrow> fieldsInv (registerField md fm)"
  by (auto simp: fieldsInv_def registerField_def dest!: update_mem)

lemma applyKeyFields_inv:
  assumes "keysInv md" "applyKeyFields md fm = Inr md'" "plain fm \<or> \<not> IsPK fm \<and> \<not> IsSK fm"
  shows "keysInv md'"
  using assms by (auto simp: applyKeyFields_def keysInv_def keySchema_def split: if_splits sum.splits)

lemma applyKeyFields_frame:
  "applyKeyFields md fm = Inr md' \<Longrightarrow> Fields md' = Fields md \<and> FieldsByDBName md' = FieldsByDBName md
     \<and> Indexes md' = Indexes md \<and> VersionField md' = VersionField md \<and> TTLField md' = TTLField md
     \<and> CreatedAtField md' = CreatedAtField md \<and> UpdatedAtField md' = UpdatedAtField md"
  by (auto simp: applyKeyFields_def split: if_splits sum.splits)

lemma applySpecialFields_inv: "specialInv md \<Longrightarrow> fieldOk fm \<Longrightarrow> specialInv (applySpecialFields md fm)"
  by (auto simp: specialInv_def applySpecialFields_def fieldOk_def)

lemma applySpecialFields_frame:
  "Fields (applySpecialFields md fm) = Fields md \<and> FieldsByDBName (applySpecialFields md fm) = FieldsByDBName md
   \<and> Indexes (applySpecialFields md fm) = Indexes md \<and> PrimaryKey (applySpecialFields md fm) = PrimaryKey md"
  by (simp add: applySpecialFields_def)

lemma parseField_inv:
  assumes sub: "\<And>p s s'. isEmbeddedStruct field \<Longrightarrow> sub p s = Inr s' \<Longrightarrow> parseInv s \<Longrightarrow> parseInv s'"
    and st: "parseInv st" and ok: "parseFieldWith sub field path st = Inr st'"
  shows "parseInv st'"
proof -
  obtain md im where [simp]: "st = (md, im)" by (cases st)
  show ?thesis
  proof (cases "\<not> sfExported field \<or> isEmbeddedStruct field \<or> parseFieldMetadata field path (NamingConvention md) = Inr None")
    case True
    then show ?thesis using sub st ok by (auto simp: parseFieldWith_def split: if_splits)
  next
    case False
    then obtain fm md1 im1 where fm: "parseFieldMetadata field path (NamingConvention md) = Inr (Some fm)"
      and enc: "plain fm \<or> \<not> IsPK fm \<and> \<not> IsSK fm \<and> IndexInfo fm = []"
      and k: "applyKeyFields (registerField md fm) fm = Inr md1" and i: "applyFieldIndexes fm im = Inr im1"
      and st': "st' = (applySpecialFields md1 fm, im1)"
      using ok by (auto simp: parseFieldWith_def split: if_splits sum.splits option.splits)
    have "fieldOk fm" using parseFieldMetadata_ok[OF fm] by simp
    moreover have "keysInv md1" using applyKeyFields_inv[OF _ k] enc st by (auto simp: parseInv_def keysInv_def keySchema_def registerField_def)
    moreover have "fieldsInv (registerField md fm)" using registerField_inv[of md fm] \<open>fieldOk fm\<close> st by (simp add: parseInv_def)
    then have "fieldsInv md1" using applyKeyFields_frame[OF k] by (simp only: fieldsInv_def)
    moreover have "specialInv md1" "Indexes md1 = []"
      using applyKeyFields_frame[OF k] st by (simp_all add: parseInv_def specialInv_def registerField_def)
    moreover have "indexInv im1" using indexInv_field[OF _ _ i] enc st by (simp add: parseInv_def)
    ultimately show ?thesis using applySpecialFields_inv[of md1 fm] applySpecialFields_frame[of md1 fm] st'
      by (simp add: parseInv_def fieldsInv_def keysInv_def keySchema_def)
  qed
qed

lemma parseFields_inv: "parseFields t path st = Inr st' \<Longrightarrow> parseInv st \<Longrightarrow> parseInv st'"
proof (induction t path st arbitrary: st' rule: parseFields.induct)
  case (2 n fs path st)
  show ?case
    by (rule foldE_inv[OF 2(2)[unfolded parseFields.simps]])
      (use 2 in \<open>auto split: prod.splits intro: parseField_inv[rotated 1]\<close>)
qed auto

definition keyFields :: "Metadata \<Rightarrow> FieldMetadata set" where
  "keyFields md = set_option (PartitionKey (keySchema md)) \<union> set_option (SortKey (keySchema md))
     \<union> (\<Union>ix \<in> set (Indexes md). set_option (ixPartitionKey ix) \<union> set_option (ixSortKey ix))"

definition wellFormedModel :: "Metadata \<Rightarrow> bool" where
  "wellFormedModel md =
     ((\<exists>pk. PartitionKey (keySchema md) = Some pk \<and> IsPK pk)
      \<and> (\<forall>fm \<in> keyFields md. plain fm)
      \<and> distinct (map ixName (Indexes md))
      \<and> (\<forall>ix \<in> set (Indexes md). ixPartitionKey ix \<noteq> None
           \<and> (ixType ix = LocalSecondaryIndex \<longrightarrow> ixPartitionKey ix = PartitionKey (keySchema md)))
      \<and> fieldsInv md \<and> specialInv md)"

definition indexesOk :: "Metadata \<Rightarrow> bool" where
  "indexesOk md = (\<forall>ix \<in> set (Indexes md). ixPartitionKey ix \<noteq> None
     \<and> pred_option plain (ixPartitionKey ix) \<and> pred_option plain (ixSortKey ix)
     \<and> (ixType ix = LocalSecondaryIndex \<longrightarrow> ixPartitionKey ix = PartitionKey (keySchema md)))"

lemma registerIndex_frame:
  "registerIndex p md = Inr md' \<Longrightarrow> PrimaryKey md' = PrimaryKey md \<and> Fields md' = Fields md \<and> FieldsByDBName md' = FieldsByDBName md
     \<and> VersionField md' = VersionField md \<and> TTLField md' = TTLField md \<and> CreatedAtField md' = CreatedAtField md
     \<and> UpdatedAtField md' = UpdatedAtField md \<and> map ixName (Indexes md') = map ixName (Indexes md) @ [ixName (snd p)]"
  by (auto simp: registerIndex_def split: prod.splits if_splits)

lemma registerIndex_ok:
  assumes "registerIndex p md = Inr md'" "indexesOk md" "keysInv md" "PartitionKey (keySchema md) \<noteq> None"
    "pred_option plain (ixPartitionKey (snd p))" "pred_option plain (ixSortKey (snd p))"
  shows "indexesOk md'"
  using assms by (auto simp: registerIndex_def indexesOk_def keysInv_def keySchema_def split: prod.splits if_splits)

lemma registerIndexes_inv:
  assumes "registerIndexes md im = Inr md'" "\<forall>p \<in> set im. pred_option plain (ixPartitionKey (snd p)) \<and> pred_option plain (ixSortKey (snd p))"
    "indexesOk md" "keysInv md" "PartitionKey (keySchema md) \<noteq> None" "fieldsInv md" "specialInv md"
  shows "indexesOk md' \<and> keysInv md' \<and> PartitionKey (keySchema md') \<noteq> None \<and> fieldsInv md' \<and> specialInv md'
    \<and> map ixName (Indexes md') = map ixName (Indexes md) @ map (\<lambda>p. ixName (snd p)) im"
  using assms
proof (induction im arbitrary: md)
  case (Cons p im)
  then obtain md1 where s: "registerIndex p md = Inr md1" "registerIndexes md1 im = Inr md'"
    by (auto simp: registerIndexes_def split: sum.splits)
  have "indexesOk md1" using registerIndex_ok[OF s(1)] Cons.prems by simp
  moreover have "keysInv md1" "PartitionKey (keySchema md1) \<noteq> None" "fieldsInv md1" "specialInv md1"
    using registerIndex_frame[OF s(1)] Cons.prems by (simp_all add: keysInv_def keySchema_def fieldsInv_def specialInv_def)
  ultimately show ?case using Cons.IH[OF s(2)] registerIndex_frame[OF s(1)] Cons.prems(2) by simp
qed (simp add: registerIndexes_def)

lemma parseMetadata_wf:
  assumes "parseMetadata methods t = Inr md" shows "wellFormedModel md"
proof -
  let ?st = "(newMetadata t (resolveTableName methods t) (detectNamingConvention t), [])"
  have "parseInv ?st"
    by (simp add: parseInv_def newMetadata_def fieldsInv_def keysInv_def keySchema_def specialInv_def indexInv_def)
  moreover obtain md0 im where p: "parseFields t [] ?st = Inr (md0, im)" "PartitionKey (keySchema md0) \<noteq> None" "registerIndexes md0 im = Inr md"
    using assms by (auto simp: parseMetadata_def split: sum.splits if_splits)
  ultimately have inv: "parseInv (md0, im)" using parseFields_inv by blast
  then have names: "map (\<lambda>p. ixName (snd p)) im = map fst im" by (auto simp: parseInv_def indexInv_def)
  have "indexesOk md \<and> keysInv md \<and> PartitionKey (keySchema md) \<noteq> None \<and> fieldsInv md \<and> specialInv md
    \<and> map ixName (Indexes md) = map ixName (Indexes md0) @ map (\<lambda>p. ixName (snd p)) im"
    using inv p(2) by (intro registerIndexes_inv[OF p(3)]) (auto simp: parseInv_def indexInv_def indexesOk_def)
  then show ?thesis using inv names
    by (auto simp: wellFormedModel_def parseInv_def indexInv_def indexesOk_def keysInv_def keyFields_def pred_option_def)
qed

section \<open>The registry over its life\<close>

definition registerAll :: "(gtype \<Rightarrow> bool \<Rightarrow> string option) \<Rightarrow> goany list \<Rightarrow> Registry \<Rightarrow> Registry" where
  "registerAll methods ms r = fold (\<lambda>m r. snd (Register methods m r)) ms r"

definition registryInv :: "(gtype \<Rightarrow> bool \<Rightarrow> string option) \<Rightarrow> Registry \<Rightarrow> bool" where
  "registryInv methods r =
     ((\<forall>t md. map_of (models r) t = Some md \<longrightarrow> parseMetadata methods t = Inr md)
      \<and> (\<forall>n md. map_of (tables r) n = Some md \<longrightarrow> TableName md = n \<and> wellFormedModel md))"

lemma Register_inv: "registryInv methods r \<Longrightarrow> registryInv methods (snd (Register methods m r))"
  using parseMetadata_wf
  by (auto simp: registryInv_def Register_def Let_def split: option.split prod.split sum.split)

lemma Register_grows: "map_of (models r) t = Some md \<Longrightarrow> map_of (models (snd (Register methods m r))) t = Some md"
  by (auto simp: Register_def Let_def split: option.splits prod.splits sum.splits)

lemma registerAll_inv: "registryInv methods r \<Longrightarrow> registryInv methods (registerAll methods ms r)"
  by (induction ms arbitrary: r) (simp_all add: registerAll_def Register_inv)

lemma registerAll_grows: "map_of (models r) t = Some md \<Longrightarrow> map_of (models (registerAll methods ms r)) t = Some md"
  by (induction ms arbitrary: r) (simp_all add: registerAll_def Register_grows)

lemma NewRegistry_inv: "registryInv methods NewRegistry"
  by (simp add: registryInv_def NewRegistry_def)

text \<open>C13. Whatever was registered before and after, the metadata the registry returns is well formed: the model has a
  partition key; no key of the table or of an index is an encrypted field; the indexes have distinct names
  and a partition key, which for a local index is the table's; fields are filed under their own names, are marked encrypted exactly
  when their tag says so, and version, TTL and timestamp fields have the required types.\<close>

theorem registered_models_wf:
  assumes "GetMetadata m (registerAll methods ms NewRegistry) = Inr md
     \<or> GetMetadataByTable n (registerAll methods ms NewRegistry) = Inr md"
  shows "wellFormedModel md"
  using assms registerAll_inv[OF NewRegistry_inv, of methods ms] parseMetadata_wf
  by (auto simp: GetMetadata_def GetMetadataByTable_def registryInv_def split: option.splits) blast+

text \<open>A model that was registered without error is found afterwards, through a value or a pointer and
  whatever is registered later, with the metadata parsed from its own type; a failed registration changes nothing.\<close>

theorem Register_then_GetMetadata:
  assumes "r = registerAll methods before NewRegistry" "Register methods (Some (t, v)) r = (res, r')"
    and "modelTypeOf t' = modelTypeOf t"
  shows "case res of
      Inr _ \<Rightarrow> GetMetadata (Some (t', w)) (registerAll methods after r') = parseMetadata methods (modelTypeOf t)
    | Inl _ \<Rightarrow> r' = r"
proof (cases res)
  case (Inr u)
  have inv: "registryInv methods r'"
    using assms Register_inv[OF registerAll_inv[OF NewRegistry_inv], of methods "Some (t, v)" before] by simp
  obtain md where md: "map_of (models r') (modelTypeOf t) = Some md"
    using assms(2) Inr by (auto simp: Register_def Let_def split: if_splits sum.splits)
  then have "parseMetadata methods (modelTypeOf t) = Inr md" using inv by (simp add: registryInv_def)
  then show ?thesis using Inr assms(3) registerAll_grows[OF md] by (simp add: GetMetadata_def)
next
  case (Inl e)
  then show ?thesis using assms(2) by (auto simp: Register_def Let_def split: option.splits if_splits sum.splits)
qed

text \<open>A model with a key, an index and an encrypted field.\<close>

definition exampleUser :: gtype where
  "exampleUser = TStruct ''User''
     [SField ''ID'' True False ''pk'' [] TString,
      SField ''Email'' True False ''index:gsi-email,pk,sparse'' [] TString,
      SField ''Secret'' True False ''encrypted,omitempty'' [] TString]"

definition noMethods :: "gtype \<Rightarrow> bool \<Rightarrow> string option" where
  "noMethods t p = None"

lemma exampleUser_registers:
  "fst (Register noMethods (Some (TPtr exampleUser, VPtr None)) NewRegistry) = Inr ()"
  by code_simp

theorem registered_models_wf_witness:
  "isOk (GetMetadata (Some (exampleUser, VStruct [])) (registerAll noMethods [Some (exampleUser, VStruct [])] NewRegistry))
   \<and> wellFormedModel (projr (GetMetadata (Some (exampleUser, VStruct [])) (registerAll noMethods [Some (exampleUser, VStruct [])] NewRegistry)))"
proof -
  let ?g = "GetMetadata (Some (exampleUser, VStruct [])) (registerAll noMethods [Some (exampleUser, VStruct [])] NewRegistry)"
  have ok: "isOk ?g" by code_simp
  then have "?g = Inr (projr ?g)" by (auto simp: isOk_iff)
  then show ?thesis using ok registered_models_wf by blast
qed

theorem Register_then_GetMetadata_witness:
  "GetMetadata (Some (exampleUser, VStruct []))
     (registerAll noMethods [None] (snd (Register noMethods (Some (TPtr exampleUser, VPtr None)) NewRegistry)))
   = parseMetadata noMethods exampleUser"
proof -
  let ?R = "Register noMethods (Some (TPtr exampleUser, VPtr None)) NewRegistry"
  have t: "modelTypeOf (TPtr exampleUser) = exampleUser" "modelTypeOf exampleUser = exampleUser" by code_simp+
  have run: "Register noMethods (Some (TPtr exampleUser, VPtr None)) NewRegistry = (Inr (), snd ?R)"
    using exampleUser_registers by (simp add: prod_eq_iff)
  show ?thesis
    using Register_then_GetMetadata[OF _ run, where before = "[]" and t' = exampleUser and w = "VStruct []" and after = "[None]"] t
    by (simp add: registerAll_def)
qed

section \<open>Tag clauses\<close>

text \<open>The non-empty tokens of a tag.\<close>

definition tagTokens :: "string list \<Rightarrow> string list" where
  "tagTokens raw = filter (\<lambda>t. t \<noteq> []) (map TrimSpace raw)"

definition isClause :: "string \<Rightarrow> bool" where
  "isClause part = (HasPrefix part ''index:'' \<or> HasPrefix part ''lsi:'')"

text \<open>How the loop should group tokens: a modifier after an index clause belongs to it.\<close>

function groupTokens :: "string list \<Rightarrow> string list list" where
  "groupTokens [] = []"
| "groupTokens (t # ts) =
     (if isClause t then (t # takeWhile isIndexModifier ts) # groupTokens (dropWhile isIndexModifier ts)
      else [t] # groupTokens ts)"
  by pat_completeness auto
termination by (relation "measure length") (auto simp: le_imp_less_Suc length_dropWhile_le)

text \<open>The loop on the non-empty tokens, inside a clause \<open>cl\<close> (its tokens so far) or outside one.\<close>

lemma HasPrefix_ne: "isClause p \<Longrightarrow> p \<noteq> []"
  by (auto simp: isClause_def HasPrefix_def)

lemma Join_snoc: "cl \<noteq> [] \<Longrightarrow> Join (cl @ [x]) sep = Join cl sep @ sep @ x"
  by (induction cl sep rule: Join.induct) auto

lemma Join_ne: "cl \<noteq> [] \<Longrightarrow> hd cl \<noteq> [] \<Longrightarrow> Join cl sep \<noteq> []"
  by (cases "(cl, sep)" rule: Join.cases) auto

lemma splitLoop_group:
  "splitLoop raw parts [] False = parts @ map (\<lambda>g. Join g '','') (groupTokens (tagTokens raw))
   \<and> (cl \<noteq> [] \<and> hd cl \<noteq> [] \<longrightarrow> splitLoop raw parts (Join cl '','') True
        = parts @ [Join (cl @ takeWhile isIndexModifier (tagTokens raw)) '','']
          @ map (\<lambda>g. Join g '','') (groupTokens (dropWhile isIndexModifier (tagTokens raw))))"
proof (induction raw arbitrary: parts cl)
  case Nil
  then show ?case by (auto simp: tagTokens_def flushCurrent_def Join_ne)
next
  case (Cons r raw)
  let ?p = "TrimSpace r"
  show ?case
  proof (cases "?p = []")
    case True
    then show ?thesis using Cons.IH by (simp add: tagTokens_def)
  next
    case ne: False
    have tok: "tagTokens (r # raw) = ?p # tagTokens raw" using ne by (simp add: tagTokens_def)
    note out = Cons.IH[THEN conjunct1]
    note inn = Cons.IH[THEN conjunct2, rule_format]
    have clause: "splitLoop raw ps ?p True = ps @ [Join (?p # takeWhile isIndexModifier (tagTokens raw)) '','']
          @ map (\<lambda>g. Join g '','') (groupTokens (dropWhile isIndexModifier (tagTokens raw)))" for ps
      using inn[of "[?p]" ps] ne by simp
    have md: "\<not> isClause ?p" if "isIndexModifier ?p"
      using that by (auto simp: isIndexModifier_def isClause_def HasPrefix_def)
    have 1: "splitLoop (r # raw) parts [] False = parts @ map (\<lambda>g. Join g '','') (groupTokens (tagTokens (r # raw)))"
      using ne clause out by (simp add: tok Let_def isClause_def)
    have 2: "splitLoop (r # raw) parts (Join cl '','') True
        = parts @ [Join (cl @ takeWhile isIndexModifier (tagTokens (r # raw))) '','']
          @ map (\<lambda>g. Join g '','') (groupTokens (dropWhile isIndexModifier (tagTokens (r # raw))))" if cl: "cl \<noteq> []" "hd cl \<noteq> []"
    proof (cases "isIndexModifier ?p")
      case True
      then show ?thesis using ne inn[of "cl @ [?p]" parts] cl by (simp add: tok Join_snoc)
    next
      case False
      then show ?thesis using ne clause out cl Join_ne[OF cl] by (simp add: tok Let_def isClause_def flushCurrent_def)
    qed
    show ?thesis using 1 2 by blast
  qed
qed

text \<open>Splitting a struct tag loses no token and keeps their order: \<open>splitTags\<close> is the grouping of the
  trimmed non-empty tokens in which exactly the modifiers \<open>pk\<close>, \<open>sk\<close> and \<open>sparse\<close> that follow an \<open>index:\<close> or \<open>lsi:\<close> token are
  joined to it with commas, and every other token stands alone.\<close>

theorem splitTags_groups:
  "splitTags tag = map (\<lambda>g. Join g '','') (groupTokens (tagTokens (SplitByte (CHR '','') tag)))
   \<and> concat (groupTokens (tagTokens (SplitByte (CHR '','') tag))) = tagTokens (SplitByte (CHR '','') tag)"
proof -
  have "concat (groupTokens ts) = ts" for ts by (induction ts rule: groupTokens.induct) auto
  then show ?thesis using splitLoop_group[of "SplitByte (CHR '','') tag" "[]"] by (simp add: splitTags_def)
qed

text \<open>A local index cannot be sparse: the splitter takes \<open>sparse\<close> as a modifier of the clause, the LSI parser rejects it.\<close>

lemma lsi_sparse_rejected:
  "parseTheorydbTag meta ''lsi:byDate,sparse'' = Inl (ErrInvalidTag ''unknown lsi tag modifier'')"
  by code_simp

text \<open>Registering \<open>nil\<close> panics.\<close>

lemma Register_nil_panics: "Register methods None r = (Inl RegPanic, r)"
  by (simp add: Register_def)

text \<open>The \<open>sparse\<close> modifier never reaches the index: every index of a parsed model has \<open>Sparse = false\<close>.\<close>

lemma applyRole_sparse:
  "applyRole fm r im = Inr im' \<Longrightarrow> \<forall>p \<in> set im. \<not> ixSparse (snd p) \<Longrightarrow> \<forall>p \<in> set im'. \<not> ixSparse (snd p)"
  by (auto simp: applyRole_def Let_def getOrCreateIndexSchema_def split: prod.splits if_splits option.splits
      dest!: update_mem map_of_SomeD)

end
