(* ===== verification/CoreMeta.thy ===== *)
theory CoreMeta
  imports ExprBuilder IndexSelector Registry
begin

text \<open>
  What the query layer sees of a model: the interface \<open>core.ModelMetadata\<close> (\<open>pkg/core/interfaces.go\<close>) as a record of its
  methods' results, the adapters that implement it over the registry's metadata
  (\<open>internal/theorydb/query_support.go\<close>, \<open>pkg/transaction/builder.go\<close>), the compiled request \<open>core.CompiledQuery\<close>, and the
  calls of package \<open>reflect\<close> that read a model (\<open>FieldByIndex\<close>, \<open>FieldByName\<close>, \<open>IsZero\<close>) with \<open>internal/reflectutil\<close>.
\<close>

section \<open>Metadata as the query layer sees it\<close>

text \<open>\<open>Type.String()\<close>, which nothing reads, is left out.\<close>

record AttributeMetadata =
  amTags :: "(string \<times> string) list"
  amName :: string
  amDynamoDBName :: string

record CoreKeySchema =
  ksPartitionKey :: string
  ksSortKey :: string

record ModelMetadata =
  mmTableName :: string
  mmPrimaryKey :: CoreKeySchema
  mmIndexes :: "IndexSchema list"
  mmAttribute :: "string \<Rightarrow> AttributeMetadata option"
  mmVersionFieldName :: string

definition optFieldName :: "FieldMetadata option \<Rightarrow> string" where
  "optFieldName f = (case f of None \<Rightarrow> [] | Some fm \<Rightarrow> fmName fm)"

definition indexTypeName :: "IndexType \<Rightarrow> string" where
  "indexTypeName t = (case t of GlobalSecondaryIndex \<Rightarrow> ''GSI'' | LocalSecondaryIndex \<Rightarrow> ''LSI'')"

definition adapterPrimaryKey :: "Metadata \<Rightarrow> CoreKeySchema" where
  "adapterPrimaryKey md =
     (case PrimaryKey md of
        None \<Rightarrow> \<lparr> ksPartitionKey = [], ksSortKey = [] \<rparr>
      | Some ks \<Rightarrow> \<lparr> ksPartitionKey = optFieldName (PartitionKey ks), ksSortKey = optFieldName (SortKey ks) \<rparr>)"

definition adapterIndexes :: "Metadata \<Rightarrow> IndexSchema list" where
  "adapterIndexes md =
     map (\<lambda>idx. \<lparr> idxName = ixName idx, idxType = indexTypeName (ixType idx), idxPartitionKey = optFieldName (ixPartitionKey idx),
                  idxSortKey = optFieldName (ixSortKey idx), idxProjectionType = ixProjectionType idx,
                  idxProjectedFields = ixProjectedFields idx \<rparr>) (Indexes md)"

definition toAttributeMetadata :: "FieldMetadata \<Rightarrow> AttributeMetadata" where
  "toAttributeMetadata fm = \<lparr> amTags = Tags fm, amName = fmName fm, amDynamoDBName = DBName fm \<rparr>"

text \<open>By Go field name first, then by attribute name.\<close>

definition lookupField :: "Metadata \<Rightarrow> string \<Rightarrow> FieldMetadata option" where
  "lookupField md field =
     (case map_of (Fields md) field of Some fm \<Rightarrow> Some fm | None \<Rightarrow> map_of (FieldsByDBName md) field)"

definition adapterVersionFieldName :: "Metadata \<Rightarrow> string" where
  "adapterVersionFieldName md =
     (case VersionField md of None \<Rightarrow> [] | Some fm \<Rightarrow> (if DBName fm \<noteq> [] then DBName fm else fmName fm))"

definition metadataAdapter :: "Metadata \<Rightarrow> ModelMetadata" where
  "metadataAdapter md =
     \<lparr> mmTableName = TableName md, mmPrimaryKey = adapterPrimaryKey md, mmIndexes = adapterIndexes md,
       mmAttribute = (\<lambda>field. map_option toAttributeMetadata (lookupField md field)),
       mmVersionFieldName = adapterVersionFieldName md \<rparr>"

section \<open>Requests\<close>

record CompiledQuery =
  cqOperation :: string
  cqTableName :: string
  cqIndexName :: string
  cqKeyConditionExpression :: string
  cqFilterExpression :: string
  cqProjectionExpression :: string
  cqUpdateExpression :: string
  cqConditionExpression :: string
  cqExpressionAttributeNames :: "(string \<times> string) list"
  cqExpressionAttributeValues :: item
  cqLimit :: "int option"
  cqScanIndexForward :: "bool option"
  cqExclusiveStartKey :: item
  cqConsistentRead :: "bool option"
  cqOffset :: "int option"
  cqSegment :: "int option"
  cqTotalSegments :: "int option"
  cqSelect :: string
  cqReturnValues :: string

definition emptyCompiled :: CompiledQuery where
  "emptyCompiled = \<lparr> cqOperation = [], cqTableName = [], cqIndexName = [], cqKeyConditionExpression = [], cqFilterExpression = [],
     cqProjectionExpression = [], cqUpdateExpression = [], cqConditionExpression = [], cqExpressionAttributeNames = [],
     cqExpressionAttributeValues = [], cqLimit = None, cqScanIndexForward = None, cqExclusiveStartKey = [], cqConsistentRead = None,
     cqOffset = None, cqSegment = None, cqTotalSegments = None, cqSelect = [], cqReturnValues = [] \<rparr>"

definition ClampIntToInt32 :: "int \<Rightarrow> int" where
  "ClampIntToInt32 n = (if n > 2147483647 then 2147483647 else if n < -2147483648 then -2147483648 else n)"

section \<open>Reading a model\<close>

text \<open>\<open>Value.FieldByIndex\<close> of a path the registry computed for the type; a path that does not fit the type is \<open>None\<close>.\<close>

fun fieldByIndex :: "nat list \<Rightarrow> gtype \<Rightarrow> gval \<Rightarrow> (gtype \<times> gval) option" where
  "fieldByIndex [] t v = Some (t, v)"
| "fieldByIndex (i # path) t v =
     (case v of
        VStruct vs \<Rightarrow> (if i < length vs \<and> i < length (structFields t) then fieldByIndex path (sfType (structFields t ! i)) (vs ! i) else None)
      | _ \<Rightarrow> None)"

text \<open>\<open>Value.FieldByName\<close>: the fields of the struct, then those promoted from embedded structs, level by level; a name that occurs more than
  once on the first level where it occurs is not found.  \<open>level\<close> lists the structs of one level.\<close>

definition levelFields :: "(gtype \<times> gval) list \<Rightarrow> (gtype sfield \<times> gval) list" where
  "levelFields level = concat (map (\<lambda>(t, v). case v of VStruct vs \<Rightarrow> zip (structFields t) vs | _ \<Rightarrow> []) level)"

definition nextLevel :: "(gtype \<times> gval) list \<Rightarrow> (gtype \<times> gval) list" where
  "nextLevel level =
     map (\<lambda>(f, v). (sfType f, v)) (filter (\<lambda>(f, v). sfAnonymous f \<and> kindOf (sfType f) = KStruct) (levelFields level))"

fun fieldByNameLevels :: "nat \<Rightarrow> string \<Rightarrow> (gtype \<times> gval) list \<Rightarrow> (gtype sfield \<times> gval) option" where
  "fieldByNameLevels 0 name level = None"
| "fieldByNameLevels (Suc fuel) name level =
     (case filter (\<lambda>(f, v). sfName f = name) (levelFields level) of
        [(f, v)] \<Rightarrow> Some (f, v)
      | [] \<Rightarrow> (if nextLevel level = [] then None else fieldByNameLevels fuel name (nextLevel level))
      | _ \<Rightarrow> None)"

text \<open>Each level is nested more deeply in the value, so its size bounds the number of levels.\<close>

definition fieldByName :: "string \<Rightarrow> gtype \<Rightarrow> gval \<Rightarrow> (gtype sfield \<times> gval) option" where
  "fieldByName name t v = fieldByNameLevels (size v) name [(t, v)]"

text \<open>\<open>Value.Interface()\<close> of a field: \<open>None\<close> is the panic for an unexported one.\<close>

definition fieldInterface :: "gtype sfield \<times> gval \<Rightarrow> goany option" where
  "fieldInterface = (\<lambda>(f, v). if sfExported f then Some (toInterface (sfType f) v) else None)"

definition zeroTime :: string where
  "zeroTime = ''0001-01-01T00:00:00Z''"

text \<open>\<open>Value.IsZero\<close>.  Nil and empty slices and maps are one value of the model, zero here; a value of a function, channel or
  complex type is taken as zero.\<close>

fun goIsZero :: "gval \<Rightarrow> bool" where
  "goIsZero (VStruct vs) = list_all goIsZero vs"
| "goIsZero (VArray vs) = list_all goIsZero vs"
| "goIsZero (VString s) = (s = [])"
| "goIsZero (VInt i) = (i = 0)"
| "goIsZero (VUint n) = (n = 0)"
| "goIsZero (VFloat f) = (f = ''0'')"
| "goIsZero (VBool b) = (\<not> b)"
| "goIsZero (VTime s) = (s = zeroTime)"
| "goIsZero (VIface d) = (d = None)"
| "goIsZero (VSlice vs) = (vs = [])"
| "goIsZero (VBytes b) = (b = [])"
| "goIsZero (VMap m) = (m = [])"
| "goIsZero (VPtr p) = (p = None)"
| "goIsZero VOpaque = True"

text \<open>\<open>reflectutil.IsEmpty\<close>, and \<open>isZeroValue\<close> of the query package.\<close>

fun IsEmpty :: "gval \<Rightarrow> bool" where
  "IsEmpty (VArray vs) = list_all IsEmpty vs"
| "IsEmpty (VMap m) = (length m = 0)"
| "IsEmpty (VSlice vs) = (length vs = 0)"
| "IsEmpty (VBytes b) = (length b = 0)"
| "IsEmpty (VString s) = (length s = 0)"
| "IsEmpty (VBool b) = (\<not> b)"
| "IsEmpty (VInt i) = (i = 0)"
| "IsEmpty (VUint n) = (n = 0)"
| "IsEmpty (VFloat f) = (f = ''0'' \<or> f = ''-0'')"
| "IsEmpty (VIface d) = (d = None)"
| "IsEmpty (VPtr p) = (p = None)"
| "IsEmpty (VTime s) = (s = zeroTime)"
| "IsEmpty (VStruct vs) = list_all IsEmpty vs"
| "IsEmpty VOpaque = goIsZero VOpaque"

fun queryIsZeroValue :: "gval \<Rightarrow> bool" where
  "queryIsZeroValue (VArray vs) = (length vs = 0)"
| "queryIsZeroValue (VMap m) = (length m = 0)"
| "queryIsZeroValue (VSlice vs) = (length vs = 0)"
| "queryIsZeroValue (VBytes b) = (length b = 0)"
| "queryIsZeroValue (VString s) = (length s = 0)"
| "queryIsZeroValue (VBool b) = (\<not> b)"
| "queryIsZeroValue (VInt i) = (i = 0)"
| "queryIsZeroValue (VUint n) = (n = 0)"
| "queryIsZeroValue (VFloat f) = (f = ''0'' \<or> f = ''-0'')"
| "queryIsZeroValue (VIface d) = (d = None)"
| "queryIsZeroValue (VPtr p) = (p = None)"
| "queryIsZeroValue (VTime s) = (s = zeroTime)"
| "queryIsZeroValue (VStruct vs) = list_all queryIsZeroValue vs"
| "queryIsZeroValue VOpaque = goIsZero VOpaque"

text \<open>A pointer to a struct or a struct: the struct it denotes, if any (\<open>reflect.ValueOf\<close>, one \<open>Elem\<close>, kind struct).\<close>

definition structValue :: "goany \<Rightarrow> (gtype \<times> gval) option" where
  "structValue value =
     (case value of
        None \<Rightarrow> None
      | Some (t, v) \<Rightarrow>
          (let tv = (if kindOf t = KPointer then (case v of VPtr (Some w) \<Rightarrow> Some (elemOf t, w) | _ \<Rightarrow> None) else Some (t, v)) in
           case tv of None \<Rightarrow> None | Some (u, w) \<Rightarrow> (if kindOf u = KStruct then Some (u, w) else None)))"

lemma goIsZero_IsEmpty: "goIsZero v \<Longrightarrow> IsEmpty v"
  by (induction v rule: goIsZero.induct) (auto simp: list_all_iff)

end
