(* ===== verification/QueryModel.thy ===== *)
theory QueryModel
  imports CoreMeta
begin

text \<open>
  \<open>pkg/query/query.go\<close>: the fluent query and its compilation into a DynamoDB request.  The query is the record of the Go
  struct's fields (the executor, the context and the fields \<open>filters\<close> and \<open>rawFilters\<close>, which nothing sets, are left out); each
  method is a function on it.  The current time, the converter and the marshaler an application may install and the executor are
  parameters.  Errors are values of \<open>qerror\<close>; a nil dereference or an index panic of the Go code is the error \<open>QueryPanic\<close>.
\<close>

section \<open>Data\<close>

datatype qerror =
    EncryptedFieldNotQueryable string
  | QueryError string
  | BuilderFailed berror
  | ConversionFailed cerror
  | CustomFailed string
  | Wrapped string qerror
  | ItemNotFound
  | ConditionFailed
  | QueryPanic

record conditionExpression =
  rawExpression :: string
  rawValues :: "(string \<times> goany) list"

record AttributeValueConverter =
  HasCustomConverter :: "gtype \<Rightarrow> bool"
  ToAttributeValue :: "goany \<Rightarrow> (string, attrval) result"
  ConvertToSet :: "goany \<Rightarrow> bool \<Rightarrow> (string, attrval) result"

record Query =
  builderErr :: "qerror option"
  metadata :: "ModelMetadata option"
  rawMetadata :: "Metadata option"
  qconverter :: "AttributeValueConverter option"
  qmarshaler :: "(goany \<Rightarrow> Metadata \<Rightarrow> (string, item) result) option"
  model :: goany
  exclusive :: item
  retryConfig :: "(int \<times> int) option"
  totalSegments :: "int option"
  segment :: "int option"
  builder :: "Builder option"
  offset :: "int option"
  orderBy :: "string \<times> string"
  index :: string
  projection :: "string list"
  rawConditionExpressions :: "conditionExpression list"
  writeConditions :: "Condition list"
  qconditions :: "Condition list"
  limit :: int
  consistentRead :: bool

definition New :: "goany \<Rightarrow> ModelMetadata option \<Rightarrow> Metadata option \<Rightarrow> Query" where
  "New mdl md raw =
     \<lparr> builderErr = None, metadata = md, rawMetadata = raw, qconverter = None, qmarshaler = None, model = mdl, exclusive = [],
       retryConfig = None, totalSegments = None, segment = None, builder = None, offset = None, orderBy = ([], []), index = [],
       projection = [], rawConditionExpressions = [], writeConditions = [], qconditions = [], limit = 0, consistentRead = False \<rparr>"

definition NewWithConditions :: "goany \<Rightarrow> ModelMetadata option \<Rightarrow> Metadata option \<Rightarrow> Condition list \<Rightarrow> Query" where
  "NewWithConditions mdl md raw cs = (New mdl md raw) \<lparr> qconditions := cs \<rparr>"

section \<open>Names\<close>

definition attributeMetadata :: "Query \<Rightarrow> string \<Rightarrow> AttributeMetadata option" where
  "attributeMetadata q field = (case metadata q of None \<Rightarrow> None | Some md \<Rightarrow> mmAttribute md field)"

text \<open>The normalized condition, the Go field name and the attribute name.\<close>

definition normalizeCondition :: "Query \<Rightarrow> Condition \<Rightarrow> Condition \<times> string \<times> string" where
  "normalizeCondition q cond =
     (case attributeMetadata q (condField cond) of
        None \<Rightarrow> (cond, condField cond, condField cond)
      | Some m \<Rightarrow>
          (let attrName = (if amDynamoDBName m \<noteq> [] then amDynamoDBName m else amName m) in
           (cond \<lparr> condField := attrName \<rparr>, amName m, attrName)))"

definition rejectEncryptedConditionField :: "Query \<Rightarrow> string \<Rightarrow> (qerror, unit) result" where
  "rejectEncryptedConditionField q field =
     (if field = [] then Inr ()
      else case attributeMetadata q field of
        None \<Rightarrow> Inr ()
      | Some m \<Rightarrow>
          (if map_of (amTags m) ''encrypted'' = None then Inr ()
           else Inl (EncryptedFieldNotQueryable (if amName m = [] then field else amName m))))"

definition resolveAttributeName :: "Query \<Rightarrow> string \<Rightarrow> string" where
  "resolveAttributeName q field =
     (if field = [] then field
      else case attributeMetadata q field of
        None \<Rightarrow> field
      | Some m \<Rightarrow> (if amDynamoDBName m \<noteq> [] then amDynamoDBName m else if amName m \<noteq> [] then amName m else field))"

definition resolveGoFieldName :: "Query \<Rightarrow> string \<Rightarrow> string" where
  "resolveGoFieldName q field =
     (if field = [] then field
      else case attributeMetadata q field of
        None \<Rightarrow> field
      | Some m \<Rightarrow> (if amName m \<noteq> [] then amName m else field))"

definition resolveGoAndAttrName :: "Query \<Rightarrow> string \<Rightarrow> string \<times> string" where
  "resolveGoAndAttrName q field = (resolveGoFieldName q field, resolveAttributeName q field)"

definition isKeyField :: "Query \<Rightarrow> CoreKeySchema \<Rightarrow> string \<Rightarrow> string \<Rightarrow> bool" where
  "isKeyField q schema goField attrName =
     ((ksPartitionKey schema \<noteq> [] \<and> (EqualFold goField (ksPartitionKey schema) \<or> EqualFold attrName (resolveAttributeName q (ksPartitionKey schema))))
      \<or> (ksSortKey schema \<noteq> [] \<and> (EqualFold goField (ksSortKey schema) \<or> EqualFold attrName (resolveAttributeName q (ksSortKey schema)))))"

section \<open>Building a query\<close>

definition recordBuilderError :: "qerror \<Rightarrow> Query \<Rightarrow> Query" where
  "recordBuilderError err q = (if builderErr q = None then q \<lparr> builderErr := Some err \<rparr> else q)"

definition checkBuilderError :: "Query \<Rightarrow> (qerror, unit) result" where
  "checkBuilderError q = (case builderErr q of None \<Rightarrow> Inr () | Some e \<Rightarrow> Inl e)"

definition asCustomConverter :: "AttributeValueConverter \<Rightarrow> customConverter" where
  "asCustomConverter c = (\<lambda>t. if HasCustomConverter c t then Some (ToAttributeValue c) else None)"

definition newBuilder :: "Query \<Rightarrow> Builder" where
  "newBuilder q = (case qconverter q of None \<Rightarrow> NewBuilder | Some c \<Rightarrow> NewBuilderWithConverter (Some (asCustomConverter c)))"

definition effectiveBuilder :: "Query \<Rightarrow> Builder" where
  "effectiveBuilder q = (case builder q of Some b \<Rightarrow> Clone (Some b) | None \<Rightarrow> newBuilder q)"

definition ensureBuilder :: "Query \<Rightarrow> Builder" where
  "ensureBuilder q = (case builder q of None \<Rightarrow> newBuilder q | Some b \<Rightarrow> b)"

definition Where :: "string \<Rightarrow> string \<Rightarrow> goany \<Rightarrow> Query \<Rightarrow> Query" where
  "Where field op val q =
     (case rejectEncryptedConditionField q field of
        Inl e \<Rightarrow> recordBuilderError e q
      | Inr _ \<Rightarrow> q \<lparr> qconditions := qconditions q @ [\<lparr> condField = field, condOperator = op, condValue = val \<rparr>] \<rparr>)"

text \<open>\<open>Filter\<close> and \<open>OrFilter\<close> differ in the logical operator.\<close>

definition addFilter :: "convenv \<Rightarrow> string \<Rightarrow> string \<Rightarrow> string \<Rightarrow> goany \<Rightarrow> Query \<Rightarrow> Query" where
  "addFilter env logicalOp field op val q =
     (case rejectEncryptedConditionField q field of
        Inl e \<Rightarrow> recordBuilderError e q
      | Inr _ \<Rightarrow>
          (case AddFilterCondition env logicalOp (resolveAttributeName q field) op val (ensureBuilder q) of
             (r, b) \<Rightarrow> (let q1 = q \<lparr> builder := Some b \<rparr> in
                        case r of Inl e \<Rightarrow> recordBuilderError (BuilderFailed e) q1 | Inr _ \<Rightarrow> q1)))"

definition Filter :: "convenv \<Rightarrow> string \<Rightarrow> string \<Rightarrow> goany \<Rightarrow> Query \<Rightarrow> Query" where
  "Filter env field op val q = addFilter env ''AND'' field op val q"

definition OrFilter :: "convenv \<Rightarrow> string \<Rightarrow> string \<Rightarrow> goany \<Rightarrow> Query \<Rightarrow> Query" where
  "OrFilter env field op val q = addFilter env ''OR'' field op val q"

text \<open>A group: \<open>fn\<close> is what the caller's function does to the sub-query.\<close>

definition groupQuery :: "Query \<Rightarrow> Query" where
  "groupQuery q = (New (model q) (metadata q) (rawMetadata q)) \<lparr> builder := Some (newBuilder q), qconverter := qconverter q, qmarshaler := qmarshaler q \<rparr>"

definition addFilterGroup :: "string \<Rightarrow> (Query \<Rightarrow> Query) \<Rightarrow> Query \<Rightarrow> Query" where
  "addFilterGroup groupOperator fn q =
     (let sub = fn (groupQuery q);
          q1 = (case builderErr sub of None \<Rightarrow> q | Some e \<Rightarrow> recordBuilderError e q) in
      case Build (ensureBuilder sub) of
        None \<Rightarrow> recordBuilderError QueryPanic q1
      | Some components \<Rightarrow> q1 \<lparr> builder := Some (AddGroupFilter groupOperator components (ensureBuilder q)) \<rparr>)"

definition FilterGroup :: "(Query \<Rightarrow> Query) \<Rightarrow> Query \<Rightarrow> Query" where
  "FilterGroup fn q = addFilterGroup ''AND'' fn q"

definition OrFilterGroup :: "(Query \<Rightarrow> Query) \<Rightarrow> Query \<Rightarrow> Query" where
  "OrFilterGroup fn q = addFilterGroup ''OR'' fn q"

definition Index :: "string \<Rightarrow> Query \<Rightarrow> Query" where
  "Index name q = q \<lparr> index := name \<rparr>"

definition Limit :: "int \<Rightarrow> Query \<Rightarrow> Query" where
  "Limit n q = q \<lparr> limit := n \<rparr>"

definition Offset :: "int \<Rightarrow> Query \<Rightarrow> Query" where
  "Offset n q = q \<lparr> offset := Some n \<rparr>"

definition OrderBy :: "string \<Rightarrow> string \<Rightarrow> Query \<Rightarrow> Query" where
  "OrderBy field order q = q \<lparr> orderBy := (field, order) \<rparr>"

definition Select :: "string list \<Rightarrow> Query \<Rightarrow> Query" where
  "Select fs q = q \<lparr> projection := map (resolveAttributeName q) fs \<rparr>"

definition ConsistentRead :: "Query \<Rightarrow> Query" where
  "ConsistentRead q = q \<lparr> consistentRead := True \<rparr>"

definition WithRetry :: "int \<Rightarrow> int \<Rightarrow> Query \<Rightarrow> Query" where
  "WithRetry maxRetries initialDelay q = q \<lparr> retryConfig := Some (maxRetries, initialDelay) \<rparr>"

definition ParallelScan :: "int \<Rightarrow> int \<Rightarrow> Query \<Rightarrow> Query" where
  "ParallelScan seg totalSegs q = q \<lparr> segment := Some seg, totalSegments := Some totalSegs \<rparr>"

definition writeCondition :: "string \<Rightarrow> string \<Rightarrow> goany \<Rightarrow> Query \<Rightarrow> Query" where
  "writeCondition field op val q =
     q \<lparr> writeConditions := writeConditions q @ [\<lparr> condField = field, condOperator = op, condValue = val \<rparr>] \<rparr>"

definition addPrimaryKeyCondition :: "string \<Rightarrow> Query \<Rightarrow> Query" where
  "addPrimaryKeyCondition operator q =
     (case metadata q of
        None \<Rightarrow> recordBuilderError (QueryError ''metadata is required for conditional helpers'') q
      | Some md \<Rightarrow>
          (let pk = ksPartitionKey (mmPrimaryKey md); sk = ksSortKey (mmPrimaryKey md) in
           if pk = [] then recordBuilderError (QueryError ''partition key is required for conditional helpers'') q
           else
             let q1 = writeCondition (resolveAttributeName q pk) operator None q in
             if sk \<noteq> [] \<and> operator = ''attribute_exists'' then writeCondition (resolveAttributeName q sk) operator None q1 else q1))"

definition IfNotExists :: "Query \<Rightarrow> Query" where
  "IfNotExists q = addPrimaryKeyCondition ''attribute_not_exists'' q"

definition IfExists :: "Query \<Rightarrow> Query" where
  "IfExists q = addPrimaryKeyCondition ''attribute_exists'' q"

definition WithCondition :: "string \<Rightarrow> string \<Rightarrow> goany \<Rightarrow> Query \<Rightarrow> Query" where
  "WithCondition field operator val q =
     (case rejectEncryptedConditionField q field of
        Inl e \<Rightarrow> recordBuilderError e q
      | Inr _ \<Rightarrow> writeCondition (resolveAttributeName q field) operator val q)"

definition WithConditionExpression :: "string \<Rightarrow> (string \<times> goany) list \<Rightarrow> Query \<Rightarrow> Query" where
  "WithConditionExpression exprStr vals q =
     (let e = TrimSpace exprStr in
      if e = [] then recordBuilderError (QueryError ''condition expression cannot be empty'') q
      else q \<lparr> rawConditionExpressions := rawConditionExpressions q @ [\<lparr> rawExpression = e, rawValues = vals \<rparr>] \<rparr>)"

section \<open>Compiling a query\<close>

definition okState :: "('e, unit) result \<times> 's \<Rightarrow> ('e, 's) result" where
  "okState p = (case fst p of Inl e \<Rightarrow> Inl e | Inr _ \<Rightarrow> Inr (snd p))"

definition addKeyCond :: "convenv \<Rightarrow> Condition \<Rightarrow> Builder \<Rightarrow> (qerror, Builder) result" where
  "addKeyCond env c b = mapErr BuilderFailed (okState (AddKeyCondition env (condField c) (condOperator c) (condValue c) b))"

definition addFilterCond :: "convenv \<Rightarrow> Condition \<Rightarrow> Builder \<Rightarrow> (qerror, Builder) result" where
  "addFilterCond env c b = mapErr BuilderFailed (okState (AddFilterCondition env ''AND'' (condField c) (condOperator c) (condValue c) b))"

record keyNameSet =
  pkGo :: string
  pkAttr :: string
  skGo :: string
  skAttr :: string

definition isPartitionKey :: "keyNameSet \<Rightarrow> string \<Rightarrow> string \<Rightarrow> bool" where
  "isPartitionKey k goName attrName = (pkGo k \<noteq> [] \<and> (EqualFold goName (pkGo k) \<or> EqualFold attrName (pkAttr k)))"

definition isSortKey :: "keyNameSet \<Rightarrow> string \<Rightarrow> string \<Rightarrow> bool" where
  "isSortKey k goName attrName = (skGo k \<noteq> [] \<and> (EqualFold goName (skGo k) \<or> EqualFold attrName (skAttr k)))"

definition isKey :: "keyNameSet \<Rightarrow> string \<Rightarrow> string \<Rightarrow> bool" where
  "isKey k goName attrName = (isPartitionKey k goName attrName \<or> isSortKey k goName attrName)"

definition orDefault :: "string \<Rightarrow> string \<Rightarrow> string" where
  "orDefault s d = (if s = [] then d else s)"

definition keyNamesForIndex :: "Query \<Rightarrow> ModelMetadata \<Rightarrow> IndexSchema option \<Rightarrow> keyNameSet" where
  "keyNamesForIndex q md bestIndex =
     (let pk = ksPartitionKey (mmPrimaryKey md); sk = ksSortKey (mmPrimaryKey md);
          primary = \<lparr> pkGo = resolveGoFieldName q pk, pkAttr = resolveAttributeName q pk,
                      skGo = resolveGoFieldName q sk, skAttr = resolveAttributeName q sk \<rparr> in
      case bestIndex of
        None \<Rightarrow> primary
      | Some idx \<Rightarrow>
          (if idxName idx = [] then primary
           else \<lparr> pkGo = orDefault (resolveGoFieldName q (idxPartitionKey idx)) (pkGo primary),
                  pkAttr = orDefault (resolveAttributeName q (idxPartitionKey idx)) (pkAttr primary),
                  skGo = orDefault (resolveGoFieldName q (idxSortKey idx)) (skGo primary),
                  skAttr = orDefault (resolveAttributeName q (idxSortKey idx)) (skAttr primary) \<rparr>))"

definition resolveConditionNames :: "Query \<Rightarrow> string \<Rightarrow> string \<Rightarrow> string \<times> string" where
  "resolveConditionNames q goField attrName =
     (case attributeMetadata q goField of
        Some m \<Rightarrow>
          (let condGoName = (if amName m \<noteq> [] then amName m else goField) in
           (condGoName, if amDynamoDBName m \<noteq> [] then amDynamoDBName m else if attrName = [] then condGoName else attrName))
      | None \<Rightarrow>
          (case attributeMetadata q attrName of
             Some m \<Rightarrow> (if amName m \<noteq> [] then amName m else goField, if amDynamoDBName m \<noteq> [] then amDynamoDBName m else attrName)
           | None \<Rightarrow> (goField, attrName)))"

text \<open>A condition as the splitting loops see it: normalized, with its resolved names.\<close>

definition resolvedCondition :: "Query \<Rightarrow> Condition \<Rightarrow> Condition \<times> string \<times> string" where
  "resolvedCondition q original =
     (case normalizeCondition q original of
        (normalized, goField, attrName) \<Rightarrow> (normalized, resolveConditionNames q goField attrName))"

text \<open>The loops that send each condition to the key conditions or to the filter.\<close>

definition splitWith :: "(Condition \<times> string \<times> string \<Rightarrow> bool) \<Rightarrow> Query \<Rightarrow> Condition list \<times> Condition list" where
  "splitWith toKey q =
     (let rs = map (resolvedCondition q) (qconditions q) in
      (map fst (filter toKey rs), map fst (filter (\<lambda>r. \<not> toKey r) rs)))"

definition splitConditionsByKey :: "Query \<Rightarrow> keyNameSet \<Rightarrow> Condition list \<times> Condition list" where
  "splitConditionsByKey q keys = splitWith (\<lambda>(_, g, a). isKey keys g a) q"

definition sortKeyOperators :: "string list" where
  "sortKeyOperators = [''='', ''<'', ''<='', ''>'', ''>='', ''BETWEEN'', ''BEGINS_WITH'']"

definition usableKeyCondition :: "keyNameSet \<Rightarrow> Condition \<times> string \<times> string \<Rightarrow> bool" where
  "usableKeyCondition keys = (\<lambda>(normalized, g, a).
     (let operator = ToUpper (TrimSpace (condOperator normalized)) in
      isKey keys g a \<and> (if isPartitionKey keys g a then operator = ''='' else operator \<in> set sortKeyOperators)))"

definition partitionConditionsForKeys :: "Query \<Rightarrow> keyNameSet \<Rightarrow> Condition list \<times> Condition list" where
  "partitionConditionsForKeys q keys = splitWith (usableKeyCondition keys) q"

definition hasPartitionKeyCondition :: "Condition list \<Rightarrow> string \<Rightarrow> bool" where
  "hasPartitionKeyCondition cs pkName = list_ex (\<lambda>c. EqualFold (condField c) pkName) cs"

definition applyKeyAndFilterConditions :: "convenv \<Rightarrow> Condition list \<times> Condition list \<Rightarrow> Builder \<Rightarrow> (qerror, Builder) result" where
  "applyKeyAndFilterConditions env kf b = bindE (foldE (addKeyCond env) (fst kf) b) (foldE (addFilterCond env) (snd kf))"

definition applyQueryConditions :: "convenv \<Rightarrow> Query \<Rightarrow> ModelMetadata \<Rightarrow> IndexSchema option \<Rightarrow> Builder \<Rightarrow> (qerror, Builder) result" where
  "applyQueryConditions env q md bestIndex b =
     applyKeyAndFilterConditions env (splitConditionsByKey q (keyNamesForIndex q md bestIndex)) b"

definition applyScanConditions :: "convenv \<Rightarrow> Query \<Rightarrow> Builder \<Rightarrow> (qerror, Builder) result" where
  "applyScanConditions env q b = foldE (\<lambda>c. addFilterCond env (fst (normalizeCondition q c))) (qconditions q) b"

definition indexSchemaByName :: "ModelMetadata \<Rightarrow> string \<Rightarrow> IndexSchema option" where
  "indexSchemaByName md name = find (\<lambda>idx. idxName idx = name) (mmIndexes md)"

definition primaryIndex :: "ModelMetadata \<Rightarrow> IndexSchema" where
  "primaryIndex md = \<lparr> idxName = [], idxType = ''PRIMARY'', idxPartitionKey = ksPartitionKey (mmPrimaryKey md),
     idxSortKey = ksSortKey (mmPrimaryKey md), idxProjectionType = [], idxProjectedFields = [] \<rparr>"

definition indexCondition :: "Query \<Rightarrow> Condition \<Rightarrow> Condition" where
  "indexCondition q cond =
     (case normalizeCondition q cond of
        (normalized, goField, attrName) \<Rightarrow>
          normalized \<lparr> condField := orDefault (orDefault goField attrName) (condField normalized) \<rparr>)"

definition selectBestIndex :: "Query \<Rightarrow> ModelMetadata \<Rightarrow> IndexSchema option" where
  "selectBestIndex q md =
     SelectOptimal (primaryIndex md # mmIndexes md) (AnalyzeConditions (map (indexCondition q) (qconditions q)))"

text \<open>The operation, the index name and the builder.\<close>

definition compileWithExplicitIndex :: "convenv \<Rightarrow> Query \<Rightarrow> ModelMetadata \<Rightarrow> string \<Rightarrow> Builder \<Rightarrow> (qerror, string \<times> string \<times> Builder) result" where
  "compileWithExplicitIndex env q md name b =
     (let keys = keyNamesForIndex q md (indexSchemaByName md name);
          kf = partitionConditionsForKeys q keys in
      if hasPartitionKeyCondition (fst kf) (pkAttr keys)
      then bindE (applyKeyAndFilterConditions env kf b) (\<lambda>b'. Inr (''Query'', name, b'))
      else bindE (applyScanConditions env q b) (\<lambda>b'. Inr (''Scan'', name, b')))"

definition compileWithBestIndex :: "convenv \<Rightarrow> Query \<Rightarrow> ModelMetadata \<Rightarrow> Builder \<Rightarrow> (qerror, string \<times> string \<times> Builder) result" where
  "compileWithBestIndex env q md b =
     (case selectBestIndex q md of
        Some idx \<Rightarrow> bindE (applyQueryConditions env q md (Some idx) b) (\<lambda>b'. Inr (''Query'', idxName idx, b'))
      | None \<Rightarrow> bindE (applyScanConditions env q b) (\<lambda>b'. Inr (''Scan'', [], b')))"

definition compileOperation :: "convenv \<Rightarrow> Query \<Rightarrow> ModelMetadata \<Rightarrow> Builder \<Rightarrow> (qerror, string \<times> string \<times> Builder) result" where
  "compileOperation env q md b =
     (if index q \<noteq> [] then compileWithExplicitIndex env q md (index q) b else compileWithBestIndex env q md b)"

definition applyExpressionComponents :: "ExpressionComponents \<Rightarrow> CompiledQuery \<Rightarrow> CompiledQuery" where
  "applyExpressionComponents components c =
     c \<lparr> cqKeyConditionExpression := KeyConditionExpression components, cqFilterExpression := FilterExpression components,
         cqProjectionExpression := ProjectionExpression components,
         cqExpressionAttributeNames := ExpressionAttributeNames components,
         cqExpressionAttributeValues := ExpressionAttributeValues components \<rparr>"

definition applyLimit :: "Query \<Rightarrow> CompiledQuery \<Rightarrow> CompiledQuery" where
  "applyLimit q c = (if limit q > 0 then c \<lparr> cqLimit := Some (ClampIntToInt32 (limit q)) \<rparr> else c)"

definition applyCompiledSettings :: "Query \<Rightarrow> CompiledQuery \<Rightarrow> CompiledQuery" where
  "applyCompiledSettings q c =
     (let c1 = applyLimit q c;
          c2 = (if EqualFold (snd (orderBy q)) ''desc'' then c1 \<lparr> cqScanIndexForward := Some False \<rparr> else c1);
          c3 = (if exclusive q \<noteq> [] then c2 \<lparr> cqExclusiveStartKey := exclusive q \<rparr> else c2) in
      if consistentRead q \<and> cqIndexName c3 = [] then c3 \<lparr> cqConsistentRead := Some True \<rparr> else c3)"

definition Compile :: "convenv \<Rightarrow> Query \<Rightarrow> (qerror, CompiledQuery) result" where
  "Compile env q =
     (case metadata q of
        None \<Rightarrow> Inl QueryPanic
      | Some md \<Rightarrow>
          bindE (compileOperation env q md (effectiveBuilder q)) (\<lambda>(operation, indexName, b).
            case Build (AddProjection (projection q) b) of
              None \<Rightarrow> Inl QueryPanic
            | Some components \<Rightarrow>
                Inr (applyCompiledSettings q (applyExpressionComponents components
                  (emptyCompiled \<lparr> cqTableName := mmTableName md, cqOperation := operation, cqIndexName := indexName \<rparr>)))))"

definition compileScan :: "convenv \<Rightarrow> Query \<Rightarrow> (qerror, CompiledQuery) result" where
  "compileScan env q =
     (case metadata q of
        None \<Rightarrow> Inl QueryPanic
      | Some md \<Rightarrow>
          bindE (applyScanConditions env q (effectiveBuilder q)) (\<lambda>b.
            case Build (AddProjection (projection q) b) of
              None \<Rightarrow> Inl QueryPanic
            | Some components \<Rightarrow>
                (let c = applyLimit q (emptyCompiled \<lparr> cqTableName := mmTableName md, cqOperation := ''Scan'', cqIndexName := index q,
                           cqFilterExpression := FilterExpression components, cqProjectionExpression := ProjectionExpression components,
                           cqExpressionAttributeNames := ExpressionAttributeNames components,
                           cqExpressionAttributeValues := ExpressionAttributeValues components, cqExclusiveStartKey := exclusive q \<rparr>);
                     c1 = (case offset q of Some n \<Rightarrow> (if n > 0 then c \<lparr> cqOffset := Some n \<rparr> else c) | None \<Rightarrow> c);
                     c2 = (if segment q \<noteq> None \<and> totalSegments q \<noteq> None
                           then c1 \<lparr> cqSegment := segment q, cqTotalSegments := totalSegments q \<rparr> else c1) in
                 Inr (if consistentRead q \<and> index q = [] then c2 \<lparr> cqConsistentRead := Some True \<rparr> else c2))))"

section \<open>Primary keys\<close>

definition toAttributeValue :: "convenv \<Rightarrow> Query \<Rightarrow> goany \<Rightarrow> (qerror, attrval) result" where
  "toAttributeValue env q v =
     (case qconverter q of
        Some c \<Rightarrow> mapErr CustomFailed (ToAttributeValue c v)
      | None \<Rightarrow> mapErr ConversionFailed (ConvertToAttributeValue env v))"

text \<open>The values found for the partition and the sort key (\<open>None\<close>: not found).\<close>

type_synonym keyVals = "goany option \<times> goany option"

definition modelStructValue :: "Query \<Rightarrow> (gtype \<times> gval) option" where
  "modelStructValue q = structValue (model q)"

text \<open>A non-zero field fills a key that has no value yet.\<close>

definition fillPath :: "gtype \<times> gval \<Rightarrow> FieldMetadata option \<Rightarrow> goany option \<Rightarrow> (qerror, goany option) result" where
  "fillPath tv fm found =
     (case (found, fm) of
        (None, Some f) \<Rightarrow>
          (case fieldByIndex (IndexPath f) (fst tv) (snd tv) of
             None \<Rightarrow> Inl QueryPanic
           | Some (t, v) \<Rightarrow> Inr (if goIsZero v then None else Some (toInterface t v)))
      | _ \<Rightarrow> Inr found)"

definition fillKeyValuesFromRawMetadata :: "Query \<Rightarrow> gtype \<times> gval \<Rightarrow> string \<Rightarrow> keyVals \<Rightarrow> (qerror, keyVals) result" where
  "fillKeyValuesFromRawMetadata q tv sk kv =
     (case rawMetadata q of
        None \<Rightarrow> Inr kv
      | Some md \<Rightarrow>
          (case PrimaryKey md of
             None \<Rightarrow> Inr kv
           | Some ks \<Rightarrow>
               bindE (fillPath tv (PartitionKey ks) (fst kv)) (\<lambda>pkv.
               bindE (if sk \<noteq> [] then fillPath tv (SortKey ks) (snd kv) else Inr (snd kv)) (\<lambda>skv. Inr (pkv, skv)))))"

definition fillName :: "gtype \<times> gval \<Rightarrow> string \<Rightarrow> goany option \<Rightarrow> (qerror, goany option) result" where
  "fillName tv name found =
     (case found of
        Some v \<Rightarrow> Inr found
      | None \<Rightarrow>
          (case fieldByName name (fst tv) (snd tv) of
             None \<Rightarrow> Inr None
           | Some fv \<Rightarrow> (if goIsZero (snd fv) then Inr None
                          else case fieldInterface fv of None \<Rightarrow> Inl QueryPanic | Some d \<Rightarrow> Inr (Some d))))"

definition fillKeyValuesByName :: "gtype \<times> gval \<Rightarrow> string \<Rightarrow> string \<Rightarrow> keyVals \<Rightarrow> (qerror, keyVals) result" where
  "fillKeyValuesByName tv pk sk kv =
     bindE (fillName tv pk (fst kv)) (\<lambda>pkv.
     bindE (if sk \<noteq> [] then fillName tv sk (snd kv) else Inr (snd kv)) (\<lambda>skv. Inr (pkv, skv)))"

definition fillKeyValuesFromModel :: "Query \<Rightarrow> string \<Rightarrow> string \<Rightarrow> keyVals \<Rightarrow> (qerror, keyVals) result" where
  "fillKeyValuesFromModel q pk sk kv =
     (if fst kv \<noteq> None \<and> (sk = [] \<or> snd kv \<noteq> None) then Inr kv
      else case modelStructValue q of
        None \<Rightarrow> Inr kv
      | Some tv \<Rightarrow> bindE (fillKeyValuesFromRawMetadata q tv sk kv) (fillKeyValuesByName tv pk sk))"

text \<open>Go and attribute names of the key attributes; a missing sort key has empty names.\<close>

definition keySchemaNames :: "Query \<Rightarrow> CoreKeySchema \<Rightarrow> keyNameSet" where
  "keySchemaNames q schema =
     (let pk = ksPartitionKey schema; sk = ksSortKey schema in
      \<lparr> pkGo = pk, pkAttr = resolveAttributeName q pk, skGo = sk, skAttr = (if sk \<noteq> [] then resolveAttributeName q sk else []) \<rparr>)"

definition resolvePrimaryKeyNames :: "Query \<Rightarrow> string \<Rightarrow> (qerror, keyNameSet) result" where
  "resolvePrimaryKeyNames q operation =
     (case metadata q of
        None \<Rightarrow> Inl (QueryError (''model metadata is required for '' @ operation @ '' operations''))
      | Some md \<Rightarrow>
          (if ksPartitionKey (mmPrimaryKey md) = [] then Inl (QueryError (''partition key is required for '' @ operation))
           else Inr (keySchemaNames q (mmPrimaryKey md))))"

definition getItemKeyNames :: "Query \<Rightarrow> ModelMetadata \<Rightarrow> (qerror, keyNameSet) result" where
  "getItemKeyNames q md =
     (if ksPartitionKey (mmPrimaryKey md) = [] then Inl (QueryError ''partition key is required for get item operations'')
      else Inr (keySchemaNames q (mmPrimaryKey md)))"

datatype keyRole = PartitionRole | SortRole | OtherRole

definition conditionRole :: "Query \<Rightarrow> keyNameSet \<Rightarrow> Condition \<Rightarrow> keyRole" where
  "conditionRole q ks cond =
     (case normalizeCondition q cond of
        (_, goField, attrName) \<Rightarrow>
          (if EqualFold goField (pkGo ks) \<or> EqualFold attrName (pkAttr ks) then PartitionRole
           else if skGo ks \<noteq> [] \<and> (EqualFold goField (skGo ks) \<or> EqualFold attrName (skAttr ks)) then SortRole
           else OtherRole))"

definition setKeyValue :: "keyRole \<Rightarrow> goany \<Rightarrow> keyVals \<Rightarrow> keyVals" where
  "setKeyValue role v kv = (case role of PartitionRole \<Rightarrow> (Some v, snd kv) | SortRole \<Rightarrow> (fst kv, Some v) | OtherRole \<Rightarrow> kv)"

definition keyValueStep :: "Query \<Rightarrow> keyNameSet \<Rightarrow> Condition \<Rightarrow> keyVals \<Rightarrow> (qerror, keyVals) result" where
  "keyValueStep q ks cond kv =
     (let role = conditionRole q ks cond in
      if role \<noteq> OtherRole \<and> TrimSpace (condOperator cond) \<noteq> ''='' then Inl (QueryError ''key condition must use '=' operator'')
      else Inr (setKeyValue role (condValue cond) kv))"

definition extractPrimaryKeyValuesFromConditions :: "Query \<Rightarrow> keyNameSet \<Rightarrow> (qerror, keyVals) result" where
  "extractPrimaryKeyValuesFromConditions q ks = foldE (keyValueStep q ks) (qconditions q) (None, None)"

definition validatePrimaryKeyValues :: "string \<Rightarrow> keyNameSet \<Rightarrow> keyVals \<Rightarrow> (qerror, unit) result" where
  "validatePrimaryKeyValues operation ks kv =
     (if fst kv = None then Inl (QueryError (''partition key '' @ pkGo ks @ '' is required for '' @ operation))
      else if skGo ks \<noteq> [] \<and> snd kv = None then Inl (QueryError (''sort key '' @ skGo ks @ '' is required for '' @ operation))
      else Inr ())"

definition buildPrimaryKeyAttributeValues :: "convenv \<Rightarrow> Query \<Rightarrow> keyNameSet \<Rightarrow> goany \<Rightarrow> goany \<Rightarrow> (qerror, item) result" where
  "buildPrimaryKeyAttributeValues env q ks pkValue skValue =
     (case toAttributeValue env q pkValue of
        Inl e \<Rightarrow> Inl (Wrapped ''failed to convert partition key'' e)
      | Inr pkAV \<Rightarrow>
          (if skGo ks = [] then Inr [(pkAttr ks, pkAV)]
           else case toAttributeValue env q skValue of
             Inl e \<Rightarrow> Inl (Wrapped ''failed to convert sort key'' e)
           | Inr skAV \<Rightarrow> Inr (AList.update (skAttr ks) skAV [(pkAttr ks, pkAV)])))"

definition foundValue :: "goany option \<Rightarrow> goany" where
  "foundValue found = (case found of None \<Rightarrow> None | Some v \<Rightarrow> v)"

definition buildPrimaryKeyMap :: "convenv \<Rightarrow> Query \<Rightarrow> string \<Rightarrow> (qerror, item) result" where
  "buildPrimaryKeyMap env q operation =
     bindE (resolvePrimaryKeyNames q operation) (\<lambda>ks.
     bindE (extractPrimaryKeyValuesFromConditions q ks) (\<lambda>kv0.
     bindE (fillKeyValuesFromModel q (pkGo ks) (skGo ks) kv0) (\<lambda>kv.
     bindE (validatePrimaryKeyValues operation ks kv) (\<lambda>_.
       buildPrimaryKeyAttributeValues env q ks (foundValue (fst kv)) (foundValue (snd kv))))))"

text \<open>\<open>Inl ()\<close>: the query needs the semantics of Query or Scan.\<close>

definition getItemStep :: "Query \<Rightarrow> keyNameSet \<Rightarrow> Condition \<Rightarrow> keyVals \<Rightarrow> (unit, keyVals) result" where
  "getItemStep q ks cond kv =
     (let role = conditionRole q ks cond in
      if role = OtherRole \<or> TrimSpace (condOperator cond) \<noteq> ''='' then Inl ()
      else Inr (setKeyValue role (condValue cond) kv))"

definition extractGetItemKeyValuesFromConditions :: "Query \<Rightarrow> keyNameSet \<Rightarrow> keyVals option" where
  "extractGetItemKeyValuesFromConditions q ks =
     (case foldE (getItemStep q ks) (qconditions q) (None, None) of Inl _ \<Rightarrow> None | Inr kv \<Rightarrow> Some kv)"

definition getItemRequest :: "Query \<Rightarrow> ModelMetadata \<Rightarrow> (qerror, CompiledQuery) result" where
  "getItemRequest q md =
     (let c = emptyCompiled \<lparr> cqOperation := ''GetItem'', cqTableName := mmTableName md,
                              cqConsistentRead := (if consistentRead q then Some True else None) \<rparr> in
      if projection q = [] then Inr c
      else case Build (AddProjection (projection q) (newBuilder q)) of
        None \<Rightarrow> Inl QueryPanic
      | Some components \<Rightarrow> Inr (c \<lparr> cqProjectionExpression := ProjectionExpression components,
                                       cqExpressionAttributeNames := ExpressionAttributeNames components \<rparr>))"

definition compileGetItem :: "convenv \<Rightarrow> Query \<Rightarrow> (qerror, (CompiledQuery \<times> item) option) result" where
  "compileGetItem env q =
     (case metadata q of
        None \<Rightarrow> Inl (QueryError ''model metadata is required for get item operations'')
      | Some md \<Rightarrow>
          (if index q \<noteq> [] \<or> builder q \<noteq> None then Inr None
           else
             bindE (getItemKeyNames q md) (\<lambda>ks.
             case extractGetItemKeyValuesFromConditions q ks of
               None \<Rightarrow> Inr None
             | Some kv0 \<Rightarrow>
                 bindE (fillKeyValuesFromModel q (pkGo ks) (skGo ks) kv0) (\<lambda>kv.
                 if fst kv = None \<or> (skGo ks \<noteq> [] \<and> snd kv = None) then Inr None
                 else
                   bindE (buildPrimaryKeyAttributeValues env q ks (foundValue (fst kv)) (foundValue (snd kv))) (\<lambda>key.
                   bindE (getItemRequest q md) (\<lambda>c. Inr (Some (c, key))))))))"

section \<open>Conditions of writes\<close>

definition addConditionOf :: "convenv \<Rightarrow> Condition \<Rightarrow> Builder \<Rightarrow> (qerror, Builder) result" where
  "addConditionOf env c b =
     mapErr (\<lambda>e. Wrapped (''failed to add condition for '' @ condField c) (BuilderFailed e))
       (okState (AddConditionExpression env (condField c) (condOperator c) (condValue c) b))"

definition addWriteCondition :: "convenv \<Rightarrow> Query \<Rightarrow> Condition \<Rightarrow> Builder \<Rightarrow> (qerror, Builder) result" where
  "addWriteCondition env q c b =
     (if condField c = [] then Inl (QueryError ''condition field cannot be empty'')
      else bindE (rejectEncryptedConditionField q (condField c)) (\<lambda>_. addConditionOf env c b))"

definition addWriteConditions :: "convenv \<Rightarrow> Query \<Rightarrow> Builder \<Rightarrow> (qerror, bool \<times> Builder) result" where
  "addWriteConditions env q b =
     bindE (foldE (addWriteCondition env q) (writeConditions q) b) (\<lambda>b'. Inr (writeConditions q \<noteq> [], b'))"

definition addWhereCondition :: "convenv \<Rightarrow> Query \<Rightarrow> CoreKeySchema \<Rightarrow> bool \<Rightarrow> Condition \<Rightarrow> bool \<times> Builder \<Rightarrow> (qerror, bool \<times> Builder) result" where
  "addWhereCondition env q primaryKey skipKeyConditions original = (\<lambda>(has, b).
     bindE (rejectEncryptedConditionField q (condField original)) (\<lambda>_.
       case normalizeCondition q original of
         (normalized, goField, attrName) \<Rightarrow>
           (if skipKeyConditions \<and> isKeyField q primaryKey goField attrName then Inr (has, b)
            else bindE (addConditionOf env normalized b) (\<lambda>b'. Inr (True, b')))))"

definition addWhereConditions :: "convenv \<Rightarrow> Query \<Rightarrow> bool \<Rightarrow> Builder \<Rightarrow> (qerror, bool \<times> Builder) result" where
  "addWhereConditions env q skipKeyConditions b =
     (case metadata q of
        None \<Rightarrow> Inl (QueryError ''model metadata is required for conditional operations'')
      | Some md \<Rightarrow> foldE (addWhereCondition env q (mmPrimaryKey md) skipKeyConditions) (qconditions q) (False, b))"

definition addDefaultCondition :: "convenv \<Rightarrow> Query \<Rightarrow> Builder \<Rightarrow> (qerror, Builder) result" where
  "addDefaultCondition env q b =
     (case metadata q of
        None \<Rightarrow> Inl (QueryError ''model metadata is required for conditional operations'')
      | Some md \<Rightarrow>
          (let pk = ksPartitionKey (mmPrimaryKey md) in
           if pk = [] then Inl (QueryError ''partition key is required for default condition'')
           else mapErr (\<lambda>e. Wrapped ''failed to add default condition'' (BuilderFailed e))
                  (okState (AddConditionExpression env (resolveAttributeName q pk) ''attribute_not_exists'' None b))))"

definition mergeRawValue :: "convenv \<Rightarrow> Query \<Rightarrow> string \<times> goany \<Rightarrow> item \<Rightarrow> (qerror, item) result" where
  "mergeRawValue env q = (\<lambda>(key, val) vals.
     (if map_of vals key \<noteq> None then Inl (QueryError (''duplicate placeholder '' @ key @ '' in condition expression''))
      else case toAttributeValue env q val of
        Inl e \<Rightarrow> Inl (Wrapped (''failed to convert condition value '' @ key) e)
      | Inr av \<Rightarrow> Inr (AList.update key av vals)))"

definition mergeRaw :: "convenv \<Rightarrow> Query \<Rightarrow> conditionExpression \<Rightarrow> string \<times> item \<Rightarrow> (qerror, string \<times> item) result" where
  "mergeRaw env q raw = (\<lambda>(expr, vals).
     (if rawExpression raw = [] then Inr (expr, vals)
      else
        let merged = (if expr = [] then rawExpression raw else ''('' @ expr @ '') AND ('' @ rawExpression raw @ '')'') in
        bindE (foldE (mergeRawValue env q) (rawValues raw) vals) (\<lambda>vals'. Inr (merged, vals'))))"

definition mergeConditionExpressions :: "convenv \<Rightarrow> Query \<Rightarrow> string \<Rightarrow> item \<Rightarrow> conditionExpression list \<Rightarrow> (qerror, string \<times> item) result" where
  "mergeConditionExpressions env q baseExpr baseValues raws = foldE (mergeRaw env q) raws (baseExpr, baseValues)"

text \<open>The builder with the conditions added, the expression, the names and the values.\<close>

definition buildConditionExpression ::
  "convenv \<Rightarrow> Query \<Rightarrow> Builder \<Rightarrow> bool \<Rightarrow> bool \<Rightarrow> bool \<Rightarrow> (qerror, Builder \<times> string \<times> (string \<times> string) list \<times> item) result" where
  "buildConditionExpression env q b includeWhereConditions skipKeyConditions defaultIfEmpty =
     bindE (addWriteConditions env q b) (\<lambda>(has1, b1).
     bindE (if includeWhereConditions then addWhereConditions env q skipKeyConditions b1 else Inr (False, b1)) (\<lambda>(has2, b2).
     bindE (if defaultIfEmpty \<and> \<not> (has1 \<or> has2) \<and> rawConditionExpressions q = [] then addDefaultCondition env q b2 else Inr b2) (\<lambda>b3.
     case Build b3 of
       None \<Rightarrow> Inl QueryPanic
     | Some components \<Rightarrow>
         bindE (mergeConditionExpressions env q (ConditionExpression components) (ExpressionAttributeValues components) (rawConditionExpressions q))
           (\<lambda>(expr, vals). Inr (b3, expr, ExpressionAttributeNames components, vals)))))"

end
