(* ===== verification/QueryOps.thy ===== *)
theory QueryOps
  imports QueryModel
begin

text \<open>
  \<open>pkg/query/query.go\<close>, the operations that end a query: items to write (\<open>marshalItem\<close>), the requests of \<open>Create\<close>,
  \<open>CreateOrUpdate\<close>, \<open>Update\<close> and \<open>Delete\<close>, reading with \<open>First\<close>, \<open>All\<close>, \<open>Count\<close>, \<open>Scan\<close> and \<open>ScanAllSegments\<close>, and their retry loops.
  The executor is a parameter: a record of the calls its interfaces offer, on a world \<open>'w\<close> (\<open>None\<close>: the executor does not implement the
  interface).  The results written to a slice destination are a list of values.
\<close>

section \<open>Items to write\<close>

text \<open>The times \<open>time.Now()\<close> gives while the item is made and after the write, and \<open>Time.Unix\<close>.\<close>

record clockenv =
  nowTime :: string
  laterTime :: string
  unixOf :: "string \<Rightarrow> int"

definition ttlUnixSecondsIfTime :: "clockenv \<Rightarrow> gtype \<Rightarrow> gval \<Rightarrow> goany \<Rightarrow> (qerror, goany) result" where
  "ttlUnixSecondsIfTime clk t v val =
     (if t \<noteq> TTime \<or> goIsZero v then Inr val
      else case v of VTime s \<Rightarrow> Inr (Some (TInt Int64, VInt (unixOf clk s)))
           | _ \<Rightarrow> Inl (QueryError ''expected time.Time for TTL field''))"

definition marshalFieldSourceValue :: "clockenv \<Rightarrow> FieldMetadata \<Rightarrow> gtype \<Rightarrow> gval \<Rightarrow> (qerror, goany) result" where
  "marshalFieldSourceValue clk fm t v =
     (if IsCreatedAt fm \<or> IsUpdatedAt fm then Inr (Some (TTime, VTime (nowTime clk)))
      else if IsVersion fm then Inr (if goIsZero v then Some (TInt Int64, VInt 0) else toInterface t v)
      else if IsTTL fm then ttlUnixSecondsIfTime clk t v (toInterface t v)
      else Inr (toInterface t v))"

definition marshalAttributeValue :: "convenv \<Rightarrow> Query \<Rightarrow> FieldMetadata \<Rightarrow> goany \<Rightarrow> (qerror, attrval) result" where
  "marshalAttributeValue env q fm val =
     (case qconverter q of
        Some c \<Rightarrow> mapErr CustomFailed (if IsSet fm then ConvertToSet c val True else ToAttributeValue c val)
      | None \<Rightarrow> mapErr ConversionFailed (ConvertToAttributeValue env val))"

definition isNullMember :: "attrval \<Rightarrow> bool" where
  "isNullMember av = (case av of AVNULL _ \<Rightarrow> True | _ \<Rightarrow> False)"

text \<open>\<open>Inr None\<close>: the field is skipped.\<close>

definition marshalFieldValueReflect :: "convenv \<Rightarrow> clockenv \<Rightarrow> Query \<Rightarrow> gtype \<times> gval \<Rightarrow> FieldMetadata \<Rightarrow> (qerror, attrval option) result" where
  "marshalFieldValueReflect env clk q tv fm =
     (case fieldByIndex (IndexPath fm) (fst tv) (snd tv) of
        None \<Rightarrow> Inl QueryPanic
      | Some (t, v) \<Rightarrow>
          (if OmitEmpty fm \<and> goIsZero v then Inr None
           else
             bindE (marshalFieldSourceValue clk fm t v) (\<lambda>val.
             case marshalAttributeValue env q fm val of
               Inl e \<Rightarrow> Inl (Wrapped (''failed to convert field '' @ DBName fm) e)
             | Inr av \<Rightarrow> Inr (if isNullMember av \<and> OmitEmpty fm then None else Some av))))"

definition marshalFieldStep :: "convenv \<Rightarrow> clockenv \<Rightarrow> Query \<Rightarrow> gtype \<times> gval \<Rightarrow> string \<times> FieldMetadata \<Rightarrow> item \<Rightarrow> (qerror, item) result" where
  "marshalFieldStep env clk q tv e itm =
     bindE (marshalFieldValueReflect env clk q tv (snd e)) (\<lambda>r.
       Inr (case r of None \<Rightarrow> itm | Some av \<Rightarrow> AList.update (DBName (snd e)) av itm))"

definition marshalItemReflect :: "convenv \<Rightarrow> clockenv \<Rightarrow> Query \<Rightarrow> Metadata \<Rightarrow> goany \<Rightarrow> (qerror, item) result" where
  "marshalItemReflect env clk q md itm =
     (case itm of
        Some (t, VPtr None) \<Rightarrow> Inl (QueryError ''item cannot be nil'')
      | _ \<Rightarrow> (case structValue itm of
            None \<Rightarrow> Inl (QueryError ''item must be a struct or pointer to struct'')
          | Some tv \<Rightarrow> foldE (marshalFieldStep env clk q tv) (Fields md) []))"

definition taggedFieldStep :: "convenv \<Rightarrow> Query \<Rightarrow> gtype sfield \<times> gval \<Rightarrow> item \<Rightarrow> (qerror, item) result" where
  "taggedFieldStep env q = (\<lambda>(f, v) out.
     (if \<not> sfExported f \<or> sfTag f = ''-'' \<or> (Contains (sfTag f) ''omitempty'' \<and> queryIsZeroValue v) then Inr out
      else case toAttributeValue env q (toInterface (sfType f) v) of
        Inl e \<Rightarrow> Inl (Wrapped (''failed to convert field '' @ sfName f) e)
      | Inr av \<Rightarrow> Inr (AList.update (sfName f) av out)))"

definition marshalItemTagged :: "convenv \<Rightarrow> Query \<Rightarrow> goany \<Rightarrow> (qerror, item) result" where
  "marshalItemTagged env q itm =
     (case structValue itm of
        None \<Rightarrow> Inl (QueryError ''item must be a struct'')
      | Some tv \<Rightarrow> foldE (taggedFieldStep env q) (levelFields [tv]) [])"

definition marshalItem :: "convenv \<Rightarrow> clockenv \<Rightarrow> Query \<Rightarrow> goany \<Rightarrow> (qerror, item) result" where
  "marshalItem env clk q itm =
     (case rawMetadata q of
        Some md \<Rightarrow> (case qmarshaler q of
            Some m \<Rightarrow> mapErr CustomFailed (m itm md)
          | None \<Rightarrow> marshalItemReflect env clk q md itm)
      | None \<Rightarrow> marshalItemTagged env q itm)"

text \<open>\<open>FieldByIndex(path).Set(new)\<close>.\<close>

fun setByIndex :: "nat list \<Rightarrow> gval \<Rightarrow> gval \<Rightarrow> gval" where
  "setByIndex [] new v = new"
| "setByIndex (i # path) new v =
     (case v of VStruct vs \<Rightarrow> (if i < length vs then VStruct (vs[i := setByIndex path new (vs ! i)]) else v) | _ \<Rightarrow> v)"

definition stampField :: "clockenv \<Rightarrow> string \<times> FieldMetadata \<Rightarrow> gtype \<times> gval \<Rightarrow> gtype \<times> gval" where
  "stampField clk e tv =
     (let fm = snd e in
      if IsCreatedAt fm \<or> IsUpdatedAt fm then
        (case fieldByIndex (IndexPath fm) (fst tv) (snd tv) of
           Some (TTime, _) \<Rightarrow> (fst tv, setByIndex (IndexPath fm) (VTime (laterTime clk)) (snd tv))
         | _ \<Rightarrow> tv)
      else tv)"

definition updateTimestampsInModel :: "clockenv \<Rightarrow> Query \<Rightarrow> Query" where
  "updateTimestampsInModel clk q =
     (case (rawMetadata q, model q) of
        (Some md, Some (t, VPtr (Some v))) \<Rightarrow>
          (if kindOf t = KPointer \<and> kindOf (elemOf t) = KStruct
           then q \<lparr> model := Some (t, VPtr (Some (snd (fold (stampField clk) (Fields md) (elemOf t, v))))) \<rparr>
           else q)
      | _ \<Rightarrow> q)"

section \<open>Executors\<close>

record 'w Executor =
  exQuery :: "CompiledQuery \<Rightarrow> 'w \<Rightarrow> (qerror, gval list) result \<times> 'w"
  exScan :: "CompiledQuery \<Rightarrow> 'w \<Rightarrow> (qerror, gval list) result \<times> 'w"
  exCount :: "CompiledQuery \<Rightarrow> 'w \<Rightarrow> (qerror, int) result \<times> 'w"
  exGetItem :: "(CompiledQuery \<Rightarrow> item \<Rightarrow> 'w \<Rightarrow> (qerror, gval) result \<times> 'w) option"
  exPutItem :: "(CompiledQuery \<Rightarrow> item \<Rightarrow> 'w \<Rightarrow> (qerror, unit) result \<times> 'w) option"
  exUpdateItem :: "(CompiledQuery \<Rightarrow> item \<Rightarrow> 'w \<Rightarrow> (qerror, unit) result \<times> 'w) option"
  exDeleteItem :: "(CompiledQuery \<Rightarrow> item \<Rightarrow> 'w \<Rightarrow> (qerror, unit) result \<times> 'w) option"

text \<open>\<open>errors.Is\<close> looks through the wrappers.\<close>

fun errorIs :: "qerror \<Rightarrow> qerror \<Rightarrow> bool" where
  "errorIs (Wrapped m e) target = (Wrapped m e = target \<or> errorIs e target)"
| "errorIs e target = (e = target)"

section \<open>Create\<close>

definition createRequest :: "convenv \<Rightarrow> clockenv \<Rightarrow> Query \<Rightarrow> (qerror, CompiledQuery \<times> item) result" where
  "createRequest env clk q =
     bindE (checkBuilderError q) (\<lambda>_.
     case marshalItem env clk q (model q) of
       Inl e \<Rightarrow> Inl (Wrapped ''failed to marshal item'' e)
     | Inr itm \<Rightarrow>
         (case metadata q of
            None \<Rightarrow> Inl QueryPanic
          | Some md \<Rightarrow>
              bindE (buildConditionExpression env q (newBuilder q) False False False) (\<lambda>(_, expr, nms, vals).
                Inr (emptyCompiled \<lparr> cqOperation := ''PutItem'', cqTableName := mmTableName md, cqConditionExpression := expr,
                       cqExpressionAttributeNames := nms, cqExpressionAttributeValues := vals \<rparr>, itm))))"

definition Create :: "convenv \<Rightarrow> clockenv \<Rightarrow> 'w Executor \<Rightarrow> Query \<Rightarrow> 'w \<Rightarrow> (qerror, unit) result \<times> Query \<times> 'w" where
  "Create env clk ex q w =
     (case createRequest env clk q of
        Inl e \<Rightarrow> (Inl e, q, w)
      | Inr (c, itm) \<Rightarrow>
          (case exPutItem ex of
             None \<Rightarrow> (Inl (QueryError ''executor does not support PutItem operation''), q, w)
           | Some put \<Rightarrow>
               (case put c itm w of
                  (Inl e, w') \<Rightarrow>
                    (Inl (if errorIs e ConditionFailed then Wrapped ''item with the same key already exists'' ConditionFailed else e), q, w')
                | (Inr _, w') \<Rightarrow> (Inr (), updateTimestampsInModel clk q, w'))))"

definition upsertRequest :: "convenv \<Rightarrow> clockenv \<Rightarrow> Query \<Rightarrow> (qerror, CompiledQuery \<times> item) result" where
  "upsertRequest env clk q =
     bindE (checkBuilderError q) (\<lambda>_.
     case marshalItem env clk q (model q) of
       Inl e \<Rightarrow> Inl (Wrapped ''failed to marshal item'' e)
     | Inr itm \<Rightarrow>
         (case metadata q of
            None \<Rightarrow> Inl QueryPanic
          | Some md \<Rightarrow> Inr (emptyCompiled \<lparr> cqOperation := ''PutItem'', cqTableName := mmTableName md \<rparr>, itm)))"

definition CreateOrUpdate :: "convenv \<Rightarrow> clockenv \<Rightarrow> 'w Executor \<Rightarrow> Query \<Rightarrow> 'w \<Rightarrow> (qerror, unit) result \<times> Query \<times> 'w" where
  "CreateOrUpdate env clk ex q w =
     (case upsertRequest env clk q of
        Inl e \<Rightarrow> (Inl e, q, w)
      | Inr (c, itm) \<Rightarrow>
          (case exPutItem ex of
             None \<Rightarrow> (Inl (QueryError ''executor does not support PutItem operation''), q, w)
           | Some put \<Rightarrow>
               (case put c itm w of
                  (Inl e, w') \<Rightarrow> (Inl e, q, w')
                | (Inr _, w') \<Rightarrow> (Inr (), updateTimestampsInModel clk q, w'))))"

section \<open>Update and delete\<close>

definition updateModelValue :: "Query \<Rightarrow> (qerror, gtype \<times> gval) result" where
  "updateModelValue q =
     (case model q of
        Some (t, VPtr None) \<Rightarrow> Inl (QueryError ''model cannot be nil'')
      | _ \<Rightarrow> (case structValue (model q) of
            None \<Rightarrow> Inl (QueryError ''model must be a struct or pointer to struct'')
          | Some tv \<Rightarrow> Inr tv))"

definition setField :: "convenv \<Rightarrow> string \<Rightarrow> string \<Rightarrow> goany \<Rightarrow> Builder \<Rightarrow> (qerror, Builder) result" where
  "setField env label attr val b =
     mapErr (\<lambda>e. Wrapped (''failed to build update for '' @ label) (BuilderFailed e)) (okState (AddUpdateSet env attr val b))"

definition metadataFieldsToUpdate :: "Metadata \<Rightarrow> gtype \<times> gval \<Rightarrow> string list" where
  "metadataFieldsToUpdate md tv =
     map fst
       (filter (\<lambda>e. let fm = snd e in
          \<not> (IsPK fm \<or> IsSK fm \<or> IsCreatedAt fm \<or> IsUpdatedAt fm \<or> IsVersion fm)
          \<and> \<not> (OmitEmpty fm \<and> (case fieldByIndex (IndexPath fm) (fst tv) (snd tv) of Some (_, v) \<Rightarrow> IsEmpty v | None \<Rightarrow> False))) (Fields md))"

definition updateFieldMetadata :: "Metadata \<Rightarrow> string \<Rightarrow> (qerror, FieldMetadata) result" where
  "updateFieldMetadata md fieldName =
     (case lookupField md fieldName of
        None \<Rightarrow> Inl (QueryError (''field '' @ fieldName @ '' not found in model metadata''))
      | Some fm \<Rightarrow> Inr fm)"

definition updateFieldStep :: "convenv \<Rightarrow> Metadata \<Rightarrow> gtype \<times> gval \<Rightarrow> string \<Rightarrow> Builder \<Rightarrow> (qerror, Builder) result" where
  "updateFieldStep env md tv fieldName b =
     bindE (updateFieldMetadata md fieldName) (\<lambda>fm.
       if IsPK fm \<or> IsSK fm then Inl (QueryError (''field '' @ fieldName @ '' is part of the primary key and cannot be updated''))
       else if IsCreatedAt fm \<or> IsUpdatedAt fm \<or> IsVersion fm then Inr b
       else case fieldByIndex (IndexPath fm) (fst tv) (snd tv) of
         None \<Rightarrow> Inl QueryPanic
       | Some (t, v) \<Rightarrow> setField env fieldName (DBName fm) (toInterface t v) b)"

text \<open>\<open>Value.Int()\<close> panics on anything but a signed integer.\<close>

definition valueInt :: "gval \<Rightarrow> int option" where
  "valueInt v = (case v of VInt i \<Rightarrow> Some i | _ \<Rightarrow> None)"

definition int64Value :: "int \<Rightarrow> goany" where
  "int64Value i = Some (TInt Int64, VInt i)"

definition versionCondition :: "convenv \<Rightarrow> FieldMetadata \<Rightarrow> int \<Rightarrow> Builder \<Rightarrow> (qerror, Builder) result" where
  "versionCondition env vf current b =
     mapErr (\<lambda>e. Wrapped ''failed to add version condition'' (BuilderFailed e))
       (okState (AddConditionExpression env (DBName vf) ''='' (int64Value current) b))"

definition appendUpdatedAt :: "convenv \<Rightarrow> clockenv \<Rightarrow> Metadata \<Rightarrow> Builder \<Rightarrow> (qerror, Builder) result" where
  "appendUpdatedAt env clk md b =
     (case UpdatedAtField md of
        None \<Rightarrow> Inr b
      | Some uf \<Rightarrow> mapErr (\<lambda>e. Wrapped ''failed to build updated_at update'' (BuilderFailed e))
          (okState (AddUpdateSet env (DBName uf) (Some (TTime, VTime (nowTime clk))) b)))"

definition appendVersion :: "convenv \<Rightarrow> Metadata \<Rightarrow> gtype \<times> gval \<Rightarrow> Builder \<Rightarrow> (qerror, Builder) result" where
  "appendVersion env md tv b =
     (case VersionField md of
        None \<Rightarrow> Inr b
      | Some vf \<Rightarrow>
          (case fieldByIndex (IndexPath vf) (fst tv) (snd tv) of
             None \<Rightarrow> Inl QueryPanic
           | Some (_, v) \<Rightarrow>
               (case valueInt v of
                  None \<Rightarrow> Inl QueryPanic
                | Some current \<Rightarrow>
                    bindE (versionCondition env vf current b) (\<lambda>b1.
                      mapErr (\<lambda>e. Wrapped ''failed to build version increment'' (BuilderFailed e))
                        (okState (AddUpdateAdd env (DBName vf) (int64Value 1) b1))))))"

definition appendUpdatedAtAndVersionUpdates :: "convenv \<Rightarrow> clockenv \<Rightarrow> Metadata \<Rightarrow> gtype \<times> gval \<Rightarrow> Builder \<Rightarrow> (qerror, Builder) result" where
  "appendUpdatedAtAndVersionUpdates env clk md tv b = bindE (appendUpdatedAt env clk md b) (appendVersion env md tv)"

definition buildUpdateExpressionFromMetadata ::
  "convenv \<Rightarrow> clockenv \<Rightarrow> Metadata \<Rightarrow> gtype \<times> gval \<Rightarrow> string list \<Rightarrow> Builder \<Rightarrow> (qerror, Builder) result" where
  "buildUpdateExpressionFromMetadata env clk md tv fs b =
     bindE (foldE (updateFieldStep env md tv) (if fs = [] then metadataFieldsToUpdate md tv else fs) b)
       (appendUpdatedAtAndVersionUpdates env clk md tv)"

definition shouldSkipUpdateField :: "gtype sfield \<Rightarrow> CoreKeySchema \<Rightarrow> bool" where
  "shouldSkipUpdateField f primaryKey =
     (sfTag f = ''-'' \<or> sfName f = ksPartitionKey primaryKey \<or> sfName f = ksSortKey primaryKey
      \<or> Contains (sfTag f) ''pk'' \<or> Contains (sfTag f) ''sk'' \<or> Contains (sfTag f) ''created_at'')"

definition updateTaggedStep :: "convenv \<Rightarrow> Query \<Rightarrow> CoreKeySchema \<Rightarrow> gtype sfield \<times> gval \<Rightarrow> Builder \<Rightarrow> (qerror, Builder) result" where
  "updateTaggedStep env q primaryKey = (\<lambda>(f, v) b.
     (if \<not> sfExported f \<or> shouldSkipUpdateField f primaryKey \<or> (Contains (sfTag f) ''omitempty'' \<and> queryIsZeroValue v) then Inr b
      else setField env (sfName f) (resolveAttributeName q (sfName f)) (toInterface (sfType f) v) b))"

definition updateNamedStep :: "convenv \<Rightarrow> Query \<Rightarrow> gtype \<times> gval \<Rightarrow> string \<Rightarrow> Builder \<Rightarrow> (qerror, Builder) result" where
  "updateNamedStep env q tv field b =
     (case fieldByName field (fst tv) (snd tv) of
        None \<Rightarrow> Inl (QueryError (''field '' @ field @ '' not found in model''))
      | Some fv \<Rightarrow>
          (case fieldInterface fv of
             None \<Rightarrow> Inl QueryPanic
           | Some d \<Rightarrow> setField env field (resolveAttributeName q field) d b))"

definition buildUpdateExpressionFromTags :: "convenv \<Rightarrow> Query \<Rightarrow> gtype \<times> gval \<Rightarrow> string list \<Rightarrow> Builder \<Rightarrow> (qerror, Builder) result" where
  "buildUpdateExpressionFromTags env q tv fs b =
     (if fs \<noteq> [] then foldE (updateNamedStep env q tv) fs b
      else case metadata q of
        None \<Rightarrow> Inl QueryPanic
      | Some md \<Rightarrow> foldE (updateTaggedStep env q (mmPrimaryKey md)) (levelFields [tv]) b)"

definition buildUpdateExpression :: "convenv \<Rightarrow> clockenv \<Rightarrow> Query \<Rightarrow> gtype \<times> gval \<Rightarrow> string list \<Rightarrow> Builder \<Rightarrow> (qerror, Builder) result" where
  "buildUpdateExpression env clk q tv fs b =
     (case rawMetadata q of
        Some md \<Rightarrow> buildUpdateExpressionFromMetadata env clk md tv fs b
      | None \<Rightarrow> buildUpdateExpressionFromTags env q tv fs b)"

definition updateRequest :: "convenv \<Rightarrow> clockenv \<Rightarrow> Query \<Rightarrow> string list \<Rightarrow> (qerror, CompiledQuery \<times> item) result" where
  "updateRequest env clk q fs =
     bindE (checkBuilderError q) (\<lambda>_.
     bindE (buildPrimaryKeyMap env q ''update'') (\<lambda>key.
     bindE (updateModelValue q) (\<lambda>tv.
     bindE (buildUpdateExpression env clk q tv fs (newBuilder q)) (\<lambda>b.
     bindE (buildConditionExpression env q b True True False) (\<lambda>(b', expr, nms, vals).
     case (Build b', metadata q) of
       (Some components, Some md) \<Rightarrow>
         (if UpdateExpression components = [] then Inl (QueryError ''no non-key fields to update'')
          else Inr (emptyCompiled \<lparr> cqOperation := ''UpdateItem'', cqTableName := mmTableName md,
                      cqUpdateExpression := UpdateExpression components, cqConditionExpression := expr,
                      cqExpressionAttributeNames := nms, cqExpressionAttributeValues := vals \<rparr>, key))
     | _ \<Rightarrow> Inl QueryPanic)))))"

definition Update :: "convenv \<Rightarrow> clockenv \<Rightarrow> 'w Executor \<Rightarrow> Query \<Rightarrow> string list \<Rightarrow> 'w \<Rightarrow> (qerror, unit) result \<times> 'w" where
  "Update env clk ex q fs w =
     (case updateRequest env clk q fs of
        Inl e \<Rightarrow> (Inl e, w)
      | Inr (c, key) \<Rightarrow>
          (case exUpdateItem ex of
             None \<Rightarrow> (Inl (QueryError ''executor does not support UpdateItem operation''), w)
           | Some upd \<Rightarrow> upd c key w))"

definition deleteVersionCondition :: "convenv \<Rightarrow> Query \<Rightarrow> Builder \<Rightarrow> (qerror, Builder) result" where
  "deleteVersionCondition env q b =
     (case (rawMetadata q, structValue (model q)) of
        (Some md, Some tv) \<Rightarrow>
          (case VersionField md of
             None \<Rightarrow> Inr b
           | Some vf \<Rightarrow>
               (case fieldByIndex (IndexPath vf) (fst tv) (snd tv) of
                  None \<Rightarrow> Inl QueryPanic
                | Some (_, v) \<Rightarrow>
                    (if goIsZero v then Inr b
                     else case valueInt v of None \<Rightarrow> Inl QueryPanic | Some current \<Rightarrow> versionCondition env vf current b)))
      | _ \<Rightarrow> Inr b)"

definition deleteRequest :: "convenv \<Rightarrow> Query \<Rightarrow> (qerror, CompiledQuery \<times> item) result" where
  "deleteRequest env q =
     bindE (checkBuilderError q) (\<lambda>_.
     bindE (buildPrimaryKeyMap env q ''delete'') (\<lambda>key.
     bindE (deleteVersionCondition env q (newBuilder q)) (\<lambda>b.
     bindE (buildConditionExpression env q b True True False) (\<lambda>(_, expr, nms, vals).
     case metadata q of
       None \<Rightarrow> Inl QueryPanic
     | Some md \<Rightarrow>
         Inr (emptyCompiled \<lparr> cqOperation := ''DeleteItem'', cqTableName := mmTableName md, cqConditionExpression := expr,
                cqExpressionAttributeNames := nms, cqExpressionAttributeValues := vals \<rparr>, key)))))"

definition Delete :: "convenv \<Rightarrow> 'w Executor \<Rightarrow> Query \<Rightarrow> 'w \<Rightarrow> (qerror, unit) result \<times> 'w" where
  "Delete env ex q w =
     (case deleteRequest env q of
        Inl e \<Rightarrow> (Inl e, w)
      | Inr (c, key) \<Rightarrow>
          (case exDeleteItem ex of
             None \<Rightarrow> (Inl (QueryError ''executor does not support DeleteItem operation''), w)
           | Some del \<Rightarrow> del c key w))"

section \<open>Reading\<close>

definition destSlice :: "goany \<Rightarrow> bool" where
  "destSlice dest = (case dest of Some (t, VPtr (Some _)) \<Rightarrow> kindOf t = KPointer \<and> kindOf (elemOf t) = KSlice | _ \<Rightarrow> False)"

definition allInternal :: "convenv \<Rightarrow> 'w Executor \<Rightarrow> Query \<Rightarrow> goany \<Rightarrow> 'w \<Rightarrow> (qerror, gval list) result \<times> 'w" where
  "allInternal env ex q dest w =
     (if \<not> destSlice dest then (Inl (QueryError ''destination must be a pointer to slice''), w)
      else case Compile env q of
        Inl e \<Rightarrow> (Inl e, w)
      | Inr c \<Rightarrow> (if cqOperation c = ''Query'' then exQuery ex c w else exScan ex c w))"

text \<open>A fresh slice of the destination's type, which \<open>firstInternal\<close> hands to \<open>allInternal\<close>.\<close>

definition newSliceOf :: "gtype \<Rightarrow> goany" where
  "newSliceOf t = Some (TPtr (TSlice t), VPtr (Some (VSlice [])))"

definition queryFirst :: "convenv \<Rightarrow> 'w Executor \<Rightarrow> Query \<Rightarrow> gtype \<Rightarrow> 'w \<Rightarrow> (qerror, gval) result \<times> 'w" where
  "queryFirst env ex clone t w =
     (case allInternal env ex clone (newSliceOf t) w of
        (Inl e, w') \<Rightarrow> (Inl e, w')
      | (Inr [], w') \<Rightarrow> (Inl ItemNotFound, w')
      | (Inr (v # _), w') \<Rightarrow> (Inr v, w'))"

definition firstInternal :: "convenv \<Rightarrow> 'w Executor \<Rightarrow> Query \<Rightarrow> goany \<Rightarrow> 'w \<Rightarrow> (qerror, gval) result \<times> 'w" where
  "firstInternal env ex q dest w =
     (case checkBuilderError q of Inl e \<Rightarrow> (Inl e, w) | Inr _ \<Rightarrow>
      (case dest of
         Some (t, VPtr (Some _)) \<Rightarrow>
           (if kindOf (elemOf t) \<noteq> KStruct then (Inl (QueryError ''destination must be a pointer to a struct''), w)
            else
              let clone = q \<lparr> limit := 1 \<rparr> in
              case exGetItem ex of
                None \<Rightarrow> queryFirst env ex clone (elemOf t) w
              | Some get \<Rightarrow>
                  (case compileGetItem env clone of
                     Inl e \<Rightarrow> (Inl e, w)
                   | Inr (Some (c, key)) \<Rightarrow> get c key w
                   | Inr None \<Rightarrow> queryFirst env ex clone (elemOf t) w))
       | _ \<Rightarrow> (Inl (QueryError ''destination must be a pointer''), w)))"

text \<open>The delay before the next attempt; with no delay nothing is slept.\<close>

definition nextReadDelay :: "int \<Rightarrow> int" where
  "nextReadDelay delay = (if delay > 0 then min (delay * 2) 5000000000 else delay)"

function firstRetryLoop :: "convenv \<Rightarrow> 'w Executor \<Rightarrow> Query \<Rightarrow> goany \<Rightarrow> int \<Rightarrow> nat \<Rightarrow> int \<Rightarrow> 'w \<Rightarrow> (qerror, gval) result \<times> 'w" where
  "firstRetryLoop env ex q dest maxRetries attempt delay w =
     (if int attempt > maxRetries then (Inl ItemNotFound, w)
      else case firstInternal env ex q dest w of
        (Inr v, w') \<Rightarrow> (Inr v, w')
      | (Inl e, w') \<Rightarrow>
          (if \<not> errorIs e ItemNotFound \<or> int attempt \<ge> maxRetries then (Inl e, w')
           else firstRetryLoop env ex q dest maxRetries (attempt + 1) (nextReadDelay delay) w'))"
  by pat_completeness auto
termination by (relation "measure (\<lambda>(env, ex, q, dest, m, a, d, w). nat (m + 1 - int a))") auto

declare firstRetryLoop.simps [simp del]

definition First :: "convenv \<Rightarrow> 'w Executor \<Rightarrow> Query \<Rightarrow> goany \<Rightarrow> 'w \<Rightarrow> (qerror, gval) result \<times> 'w" where
  "First env ex q dest w =
     (case checkBuilderError q of Inl e \<Rightarrow> (Inl e, w) | Inr _ \<Rightarrow>
      (case retryConfig q of
         Some (maxRetries, initialDelay) \<Rightarrow> firstRetryLoop env ex q dest maxRetries 0 initialDelay w
       | None \<Rightarrow> firstInternal env ex q dest w))"

function allRetryLoop :: "convenv \<Rightarrow> 'w Executor \<Rightarrow> Query \<Rightarrow> goany \<Rightarrow> int \<Rightarrow> nat \<Rightarrow> int \<Rightarrow> (qerror, gval list) result \<Rightarrow> 'w \<Rightarrow> (qerror, gval list) result \<times> 'w" where
  "allRetryLoop env ex q dest maxRetries attempt delay lastResult w =
     (if int attempt > maxRetries then (lastResult, w)
      else case allInternal env ex q dest w of
        (r, w') \<Rightarrow>
          (if int attempt \<ge> maxRetries \<or> (case r of Inr (_ # _) \<Rightarrow> True | _ \<Rightarrow> False) then (r, w')
           else allRetryLoop env ex q dest maxRetries (attempt + 1) (nextReadDelay delay) r w'))"
  by pat_completeness auto
termination by (relation "measure (\<lambda>(env, ex, q, dest, m, a, d, r, w). nat (m + 1 - int a))") auto

declare allRetryLoop.simps [simp del]

text \<open>With a negative number of retries the loop body never runs and the destination keeps its contents.\<close>

definition destContents :: "goany \<Rightarrow> gval list" where
  "destContents dest = (case dest of Some (t, VPtr (Some (VSlice vs))) \<Rightarrow> vs | _ \<Rightarrow> [])"

definition All :: "convenv \<Rightarrow> 'w Executor \<Rightarrow> Query \<Rightarrow> goany \<Rightarrow> 'w \<Rightarrow> (qerror, gval list) result \<times> 'w" where
  "All env ex q dest w =
     (case checkBuilderError q of Inl e \<Rightarrow> (Inl e, w) | Inr _ \<Rightarrow>
      (case retryConfig q of
         Some (maxRetries, initialDelay) \<Rightarrow>
           (if \<not> destSlice dest then (Inl (QueryError ''destination must be a pointer to slice''), w)
            else allRetryLoop env ex q dest maxRetries 0 initialDelay (Inr (destContents dest)) w)
       | None \<Rightarrow> allInternal env ex q dest w))"

definition Count :: "convenv \<Rightarrow> 'w Executor \<Rightarrow> Query \<Rightarrow> 'w \<Rightarrow> (qerror, int) result \<times> 'w" where
  "Count env ex q w =
     (case checkBuilderError q of Inl e \<Rightarrow> (Inl e, w) | Inr _ \<Rightarrow>
      (case Compile env q of Inl e \<Rightarrow> (Inl e, w) | Inr c \<Rightarrow> exCount ex (c \<lparr> cqSelect := ''COUNT'' \<rparr>) w))"

definition Scan :: "convenv \<Rightarrow> 'w Executor \<Rightarrow> Query \<Rightarrow> 'w \<Rightarrow> (qerror, gval list) result \<times> 'w" where
  "Scan env ex q w =
     (case checkBuilderError q of Inl e \<Rightarrow> (Inl e, w) | Inr _ \<Rightarrow>
      (case compileScan env q of Inl e \<Rightarrow> (Inl e, w) | Inr c \<Rightarrow> exScan ex c w))"

text \<open>The query of one segment, and the collection of the segments' results in the order they arrive (\<open>order\<close>).\<close>

definition segmentQuery :: "Query \<Rightarrow> int \<Rightarrow> int \<Rightarrow> Query" where
  "segmentQuery q totalSegs seg =
     q \<lparr> retryConfig := None, rawConditionExpressions := [], writeConditions := [], segment := Some seg, totalSegments := Some totalSegs \<rparr>"

fun collectSegments :: "convenv \<Rightarrow> 'w Executor \<Rightarrow> Query \<Rightarrow> int \<Rightarrow> int list \<Rightarrow> gval list \<Rightarrow> 'w \<Rightarrow> (qerror, gval list) result \<times> 'w" where
  "collectSegments env ex q totalSegs [] acc w = (Inr acc, w)"
| "collectSegments env ex q totalSegs (seg # order) acc w =
     (case Scan env ex (segmentQuery q totalSegs seg) w of
        (Inl e, w') \<Rightarrow> (Inl e, w')
      | (Inr items, w') \<Rightarrow> collectSegments env ex q totalSegs order (acc @ items) w')"

definition ScanAllSegments :: "convenv \<Rightarrow> 'w Executor \<Rightarrow> Query \<Rightarrow> goany \<Rightarrow> int \<Rightarrow> int list \<Rightarrow> 'w \<Rightarrow> (qerror, gval list) result \<times> 'w" where
  "ScanAllSegments env ex q dest totalSegs order w =
     (case checkBuilderError q of Inl e \<Rightarrow> (Inl e, w) | Inr _ \<Rightarrow>
      if \<not> destSlice dest then (Inl (QueryError ''destination must be a pointer to slice''), w)
      else if totalSegs < 0 then (Inl QueryPanic, w)
      else collectSegments env ex q totalSegs order [] w)"

end
