(* ===== verification/QueryPlan.thy ===== *)
theory QueryPlan
  imports QueryProps
begin

text \<open>
  Guarantees of the query layer beyond the text of its expressions: a Query request has an equality on the partition key of
  the index it names, a query is answered by \<open>GetItem\<close> only when its conditions are equalities on the key, a failed builder call is
  reported by every operation that ends the query, and updates and deletes of versioned models are conditional on the version.
\<close>

section \<open>A Query request has its partition key\<close>

text \<open>The law of a model's metadata: what a name resolves to is filed under its own Go name and has an attribute name, and
  secondary indexes have names of their own.\<close>

definition namesFiled :: "ModelMetadata \<Rightarrow> bool" where
  "namesFiled md = ((\<forall>f m. mmAttribute md f = Some m \<longrightarrow> amName m \<noteq> [] \<and> amDynamoDBName m \<noteq> [] \<and> mmAttribute md (amName m) = Some m)
     \<and> (\<forall>idx \<in> set (mmIndexes md). idxName idx \<noteq> []) \<and> distinct (map idxName (mmIndexes md)))"

lemma resolvedCondition_names:
  assumes "metadata q = Some md" "namesFiled md" "mmAttribute md (condField c) = Some m"
  shows "fst (snd (resolvedCondition q c)) = amName m"
    "snd (snd (resolvedCondition q c)) = condField (fst (normalizeCondition q c))"
proof -
  have m: "amName m \<noteq> []" "amDynamoDBName m \<noteq> []" "mmAttribute md (amName m) = Some m" using assms(2,3) by (auto simp: namesFiled_def)
  show "fst (snd (resolvedCondition q c)) = amName m"
    "snd (snd (resolvedCondition q c)) = condField (fst (normalizeCondition q c))"
    using assms m by (simp_all add: resolvedCondition_def normalizeCondition_def attributeMetadata_def resolveConditionNames_def Let_def)
qed

lemma resolvedCondition_unknown:
  "metadata q = Some md \<Longrightarrow> mmAttribute md (condField c) = None \<Longrightarrow> resolvedCondition q c = (c, condField c, condField c)"
  by (simp add: resolvedCondition_def normalizeCondition_def attributeMetadata_def resolveConditionNames_def)

lemma analyzeLoop_key:
  "reqPartitionKey (fst (analyzeLoop cs r ps)) = reqPartitionKey r
   \<or> (\<exists>c \<in> set cs. isEquality c \<and> condField c = reqPartitionKey (fst (analyzeLoop cs r ps)))"
proof (induction cs arbitrary: r ps)
  case (Cons c cs)
  define r1 where "r1 = (if isEquality c \<and> reqPartitionKey r = [] then r \<lparr> reqPartitionKey := condField c \<rparr> else r)"
  define r2 where "r2 = (if reqPartitionKey r1 \<noteq> [] \<and> reqSortKey r1 = [] \<and> condField c \<noteq> reqPartitionKey r1
    then r1 \<lparr> reqSortKey := condField c, reqSortKeyOp := normalizeOperator (condOperator c) \<rparr> else r1)"
  define ps2 where "ps2 = (if reqPartitionKey r1 = [] then ps @ [c] else ps)"
  have step: "analyzeLoop (c # cs) r ps = analyzeLoop cs r2 ps2" by (simp add: Let_def r1_def r2_def ps2_def)
  have key: "reqPartitionKey r2 = reqPartitionKey r1" by (simp add: r2_def)
  have "reqPartitionKey r1 = reqPartitionKey r \<or> isEquality c \<and> condField c = reqPartitionKey r1" by (simp add: r1_def)
  then show ?case using Cons.IH[of r2 ps2] key unfolding step by auto
qed simp

lemma analyzed_partition_key:
  "reqPartitionKey (AnalyzeConditions cs) = [] \<or> (\<exists>c \<in> set cs. isEquality c \<and> condField c = reqPartitionKey (AnalyzeConditions cs))"
  using analyzeLoop_key[of cs "\<lparr> reqPartitionKey = [], reqSortKey = [], reqSortKeyOp = [] \<rparr>" "[]"]
  by (auto simp: AnalyzeConditions_def split: prod.splits option.splits)

lemma selectLoop_member: "fst (selectLoop r idxs best sc) = best \<or> (\<exists>idx \<in> set idxs. fst (selectLoop r idxs best sc) = Some idx \<and> 0 < scoreIndex idx r)"
proof (induction idxs arbitrary: best sc)
  case (Cons i idxs)
  show ?case using Cons.IH[of "Some i" "scoreIndex i r"] Cons.IH[of best sc] by auto
qed simp

lemma SelectOptimal_matches:
  "SelectOptimal idxs r = Some idx \<Longrightarrow> idx \<in> set idxs \<and> idxPartitionKey idx = reqPartitionKey r \<and> reqPartitionKey r \<noteq> []"
  using selectLoop_member[of r idxs None 0] by (auto simp: SelectOptimal_def score_pos split: if_splits prod.splits option.splits)

text \<open>A condition on the partition key of an index, with the equality operator.\<close>

definition partitionEquality :: "Query \<Rightarrow> keyNameSet \<Rightarrow> Condition \<Rightarrow> bool" where
  "partitionEquality q keys k =
     (\<exists>c \<in> set (qconditions q). \<exists>g a. resolvedCondition q c = (k, g, a) \<and> isPartitionKey keys g a
        \<and> comparisonSymbol (ToUpper (TrimSpace (condOperator k))) = Some ''='')"

lemma partitionEquality_in_split:
  assumes "partitionEquality q keys k" "splitConditionsByKey q keys = (ks, fs)"
  shows "k \<in> set ks"
proof -
  from assms(1) obtain c g a where c: "c \<in> set (qconditions q)" "resolvedCondition q c = (k, g, a)" "isPartitionKey keys g a"
    by (auto simp: partitionEquality_def)
  then have "(k, g, a) \<in> set (filter (\<lambda>(_, g, a). isKey keys g a) (map (resolvedCondition q) (qconditions q)))"
    by (auto simp: isKey_def intro: image_eqI[of _ _ c])
  then have "k \<in> set (fst (splitConditionsByKey q keys))" unfolding splitConditionsByKey_def splitWith_def Let_def fst_conv set_map by (metis fst_conv image_eqI)
  then show ?thesis using assms(2) by simp
qed

lemma indexCondition_field:
  assumes "metadata q = Some md" "namesFiled md" "condField (indexCondition q c) = n" "n \<noteq> []"
  shows "fst (snd (resolvedCondition q c)) = n" "resolveGoFieldName q n = n"
proof -
  have "fst (snd (resolvedCondition q c)) = n \<and> resolveGoFieldName q n = n"
  proof (cases "mmAttribute md (condField c)")
    case None
    then have "n = condField c" using assms(1,3) by (simp add: indexCondition_def normalizeCondition_def attributeMetadata_def orDefault_def split: if_splits)
    then show ?thesis using None resolvedCondition_unknown[OF assms(1) None] assms(1)
      by (simp add: resolveGoFieldName_def attributeMetadata_def)
  next
    case (Some m)
    have m: "amName m \<noteq> []" "mmAttribute md (amName m) = Some m" using assms(2) Some by (auto simp: namesFiled_def)
    then have "n = amName m"
      using assms(1,3) Some by (simp add: indexCondition_def normalizeCondition_def attributeMetadata_def orDefault_def Let_def)
    then show ?thesis using m resolvedCondition_names(1)[OF assms(1,2) Some] assms(1)
      by (simp add: resolveGoFieldName_def attributeMetadata_def)
  qed
  then show "fst (snd (resolvedCondition q c)) = n" "resolveGoFieldName q n = n" by blast+
qed

lemma lowerByte_is: "lowerByte x = c \<Longrightarrow> x = c \<or> x = char_of (byteOf c - 32)"
  by (auto simp: lowerByte_def isUpper_def)

lemma isEquality_symbol:
  assumes "isEquality c"
  shows "comparisonSymbol (ToUpper (TrimSpace (condOperator c))) = Some ''=''"
proof -
  have "condOperator c \<in> {''='', ''eq'', ''Eq'', ''eQ'', ''EQ''}"
  proof (cases "condOperator c = ''=''")
    case False
    then obtain x y where op: "condOperator c = [x, y]" "lowerByte x = CHR ''e''" "lowerByte y = CHR ''q''"
      using assms by (auto simp: isEquality_def)
    have "x = CHR ''e'' \<or> x = CHR ''E''" "y = CHR ''q'' \<or> y = CHR ''Q''"
      using lowerByte_is[OF op(2)] lowerByte_is[OF op(3)] by (simp_all add: char_eval)
    then show ?thesis using op(1) by auto
  qed simp
  then show ?thesis
    by (auto simp: TrimSpace_graphic upperByte_def isLower_def comparisonSymbol_def char_eval)
qed

lemma best_index_equality:
  assumes "metadata q = Some md" "namesFiled md" "selectBestIndex q md = Some idx"
  shows "\<exists>k. partitionEquality q (keyNamesForIndex q md (Some idx)) k"
proof -
  let ?r = "AnalyzeConditions (map (indexCondition q) (qconditions q))"
  from SelectOptimal_matches[OF assms(3)[unfolded selectBestIndex_def]]
  have idx: "idx \<in> set (primaryIndex md # mmIndexes md)" "idxPartitionKey idx = reqPartitionKey ?r" "reqPartitionKey ?r \<noteq> []" by auto
  with analyzed_partition_key[of "map (indexCondition q) (qconditions q)"] obtain c where
    c: "c \<in> set (qconditions q)" "isEquality (indexCondition q c)" "condField (indexCondition q c) = idxPartitionKey idx" by auto
  note f = indexCondition_field[OF assms(1,2) c(3)]
  have go: "fst (snd (resolvedCondition q c)) = idxPartitionKey idx" "resolveGoFieldName q (idxPartitionKey idx) = idxPartitionKey idx"
    using f idx by simp_all
  have "pkGo (keyNamesForIndex q md (Some idx)) = idxPartitionKey idx"
  proof (cases "idxName idx = []")
    case True
    then have "idx = primaryIndex md" using idx(1) assms(2) by (auto simp: namesFiled_def)
    then have "idxPartitionKey idx = ksPartitionKey (mmPrimaryKey md)" by (simp add: primaryIndex_def)
    then show ?thesis using True go(2) by (simp add: keyNamesForIndex_def Let_def)
  next
    case False
    then show ?thesis using go(2) idx(2,3) by (simp add: keyNamesForIndex_def Let_def orDefault_def)
  qed
  then have "isPartitionKey (keyNamesForIndex q md (Some idx)) (fst (snd (resolvedCondition q c))) (snd (snd (resolvedCondition q c)))"
    using go(1) idx(2,3) by (simp add: isPartitionKey_def)
  moreover have "condOperator (fst (resolvedCondition q c)) = condOperator (indexCondition q c)"
    by (simp add: indexCondition_def normalizeCondition_def Let_def split: option.split)
  ultimately show ?thesis using c(1) isEquality_symbol[OF c(2)]
    unfolding partitionEquality_def by (metis prod.collapse)
qed

lemma explicit_index_equality:
  assumes "metadata q = Some md" "namesFiled md" "partitionConditionsForKeys q keys = (ks, fs)" "k \<in> set ks"
    "EqualFold (condField k) (pkAttr keys)" "pkGo keys \<noteq> []"
  shows "partitionEquality q keys k"
proof -
  from assms(3,4) obtain c g a where c: "c \<in> set (qconditions q)" "resolvedCondition q c = (k, g, a)" "usableKeyCondition keys (k, g, a)"
  proof -
    have "ks = map fst (filter (usableKeyCondition keys) (map (resolvedCondition q) (qconditions q)))"
      using assms(3) by (simp add: partitionConditionsForKeys_def splitWith_def Let_def)
    then obtain c where "c \<in> set (qconditions q)" "usableKeyCondition keys (resolvedCondition q c)" "k = fst (resolvedCondition q c)"
      using assms(4) by (auto simp del: fst_resolved)
    then show thesis using that by (cases "resolvedCondition q c") simp
  qed
  have "a = condField k"
  proof (cases "mmAttribute md (condField c)")
    case None
    then show ?thesis using resolvedCondition_unknown[OF assms(1) None] c(2) by simp
  next
    case (Some m)
    then show ?thesis using resolvedCondition_names(2)[OF assms(1,2) Some] c(2) by (metis fst_resolved fst_conv snd_conv)
  qed
  then have pk: "isPartitionKey keys g a" using assms(5,6) by (simp add: isPartitionKey_def)
  then have "ToUpper (TrimSpace (condOperator k)) = ''=''" using c(3) by (simp add: usableKeyCondition_def Let_def)
  then show ?thesis using c pk by (auto simp: partitionEquality_def comparisonSymbol_def)
qed

lemma find_distinct_key: "distinct (map f xs) \<Longrightarrow> x \<in> set xs \<Longrightarrow> find (\<lambda>y. f y = f x) xs = Some x"
  by (induction xs) (auto simp: image_iff)

lemma keyNames_nonempty:
  assumes "ksPartitionKey (mmPrimaryKey md) \<noteq> []"
  shows "pkGo (keyNamesForIndex q md oi) \<noteq> []"
proof -
  have "resolveGoFieldName q (ksPartitionKey (mmPrimaryKey md)) \<noteq> []" using assms by (simp add: resolveGoFieldName_def split: option.split)
  then show ?thesis by (simp add: keyNamesForIndex_def orDefault_def Let_def split: option.split)
qed

text \<open>C23. A request that is a Query has an equality on a partition key: some \<open>Where\<close> condition with the operator \<open>=\<close> (or its
  spelling \<open>EQ\<close>) on the partition key of the index the request names is among its key conditions.  DynamoDB accepts no Query without it.\<close>

theorem Query_has_partition_equality:
  assumes "Compile env q = Inr c" "cqOperation c = ''Query''" "metadata q = Some md" "namesFiled md" "ksPartitionKey (mmPrimaryKey md) \<noteq> []"
  shows "\<exists>k keys. k \<in> set (fst (compiledSplit q md)) \<and> partitionEquality q keys k
    \<and> (keys = keyNamesForIndex q md (indexSchemaByName md (cqIndexName c)) \<or> cqIndexName c = [] \<and> keys = keyNamesForIndex q md None)"
  using assms(1)
proof (rule Compile_Inr)
  fix md' operation idx b
  assume "metadata q = Some md'" and co': "compileOperation env q md' (effectiveBuilder q) = Inr (operation, idx, b)"
    and cq: "cqOperation c = operation" "cqIndexName c = idx"
  then have co: "compileOperation env q md (effectiveBuilder q) = Inr (operation, idx, b)" using assms(3) by simp
  show ?thesis
  proof (cases "index q = []")
    case True
    then obtain i where i: "selectBestIndex q md = Some i" "idx = idxName i"
      using co cq(1) assms(2) by (auto simp: compileOperation_def compileWithBestIndex_def bindE_eq_Inr split: option.splits)
    from best_index_equality[OF assms(3,4) i(1)] obtain k where k: "partitionEquality q (keyNamesForIndex q md (Some i)) k" by blast
    have "k \<in> set (fst (compiledSplit q md))"
      using partitionEquality_in_split[OF k] i(1) True by (simp add: compiledSplit_def) (metis prod.collapse)
    moreover have "i = primaryIndex md \<or> i \<in> set (mmIndexes md)" using SelectOptimal_matches i(1) unfolding selectBestIndex_def by fastforce
    then have "keyNamesForIndex q md (Some i) = keyNamesForIndex q md (indexSchemaByName md idx) \<or> idx = [] \<and> keyNamesForIndex q md (Some i) = keyNamesForIndex q md None"
    proof
      assume "i = primaryIndex md"
      then show ?thesis using i(2) by (simp add: keyNamesForIndex_def primaryIndex_def Let_def)
    next
      assume "i \<in> set (mmIndexes md)"
      moreover have "distinct (map idxName (mmIndexes md))" using assms(4) by (simp add: namesFiled_def)
      ultimately have "indexSchemaByName md idx = Some i" using i(2) find_distinct_key unfolding indexSchemaByName_def by metis
      then show ?thesis by simp
    qed
    ultimately show ?thesis using k cq(2) by blast
  next
    case False
    let ?keys = "keyNamesForIndex q md (indexSchemaByName md (index q))"
    have split: "compiledSplit q md = partitionConditionsForKeys q ?keys" and has: "hasPartitionKeyCondition (fst (partitionConditionsForKeys q ?keys)) (pkAttr ?keys)"
      and idx: "idx = index q"
      using co False cq(1) assms(2) by (auto simp: compileOperation_def compileWithExplicitIndex_def compiledSplit_def bindE_eq_Inr Let_def split: if_splits)
    have "pkGo ?keys \<noteq> []" using assms(5) by (rule keyNames_nonempty)
    then show ?thesis using has explicit_index_equality[OF assms(3,4)] split idx cq(2)
      by (auto simp: hasPartitionKeyCondition_def list_ex_iff) (metis prod.collapse)
  qed
qed

lemma namesFiled_demo: "namesFiled demoMetadata"
  by (auto simp: namesFiled_def demoMetadata_def demoAttribute_def split: if_splits)

theorem Query_has_partition_equality_witness:
  "\<exists>k keys. k \<in> set (fst (compiledSplit demoQuery demoMetadata)) \<and> partitionEquality demoQuery keys k
    \<and> (keys = keyNamesForIndex demoQuery demoMetadata (indexSchemaByName demoMetadata []) \<or> keys = keyNamesForIndex demoQuery demoMetadata None)"
proof -
  have "cqOperation demoRequest = ''Query''" "cqIndexName demoRequest = []" by (simp_all add: demoRequest_def emptyCompiled_def)
  moreover have "metadata demoQuery = Some demoMetadata" "ksPartitionKey (mmPrimaryKey demoMetadata) \<noteq> []"
    by (simp_all add: demoQuery_eq New_def demoMetadata_def)
  ultimately show ?thesis using Query_has_partition_equality[OF demo_compile _ _ namesFiled_demo] by auto
qed

text \<open>The registry's metadata obeys the law when no field is shadowed by one of the same name.\<close>

lemma namesFiled_adapter:
  assumes "wellFormedModel md" "\<forall>(k, fm) \<in> set (FieldsByDBName md). map_of (Fields md) (fmName fm) = Some fm"
    "\<forall>(k, fm) \<in> set (Fields md). k \<noteq> [] \<and> DBName fm \<noteq> []" "\<forall>ix \<in> set (Indexes md). ixName ix \<noteq> []"
  shows "namesFiled (metadataAdapter md)"
proof -
  have own: "map_of (Fields md) k = Some fm \<Longrightarrow> fmName fm = k" for k fm
    using assms(1) by (auto simp: wellFormedModel_def fieldsInv_def dest!: map_of_SomeD)
  have filed: "map_of (Fields md) (fmName fm) = Some fm" if "lookupField md f = Some fm" for f fm
    using that own assms(2) by (auto simp: lookupField_def dest!: map_of_SomeD[of "FieldsByDBName md"] split: option.splits)
  have ne: "fmName fm \<noteq> [] \<and> DBName fm \<noteq> []" if "map_of (Fields md) (fmName fm) = Some fm" for fm
    using assms(3) map_of_SomeD[OF that] by auto
  have "amName m \<noteq> [] \<and> amDynamoDBName m \<noteq> [] \<and> mmAttribute (metadataAdapter md) (amName m) = Some m"
    if attr: "mmAttribute (metadataAdapter md) f = Some m" for f m
  proof -
    obtain fm where fm: "lookupField md f = Some fm" "m = toAttributeMetadata fm" using attr by (auto simp: metadataAdapter_def)
    have "lookupField md (fmName fm) = Some fm" using filed[OF fm(1)] by (simp add: lookupField_def)
    then show ?thesis using fm(2) ne[OF filed[OF fm(1)]] by (simp add: metadataAdapter_def toAttributeMetadata_def)
  qed
  moreover have "\<forall>idx \<in> set (mmIndexes (metadataAdapter md)). idxName idx \<noteq> []" "map idxName (mmIndexes (metadataAdapter md)) = map ixName (Indexes md)"
    using assms(4) by (auto simp: metadataAdapter_def adapterIndexes_def)
  ultimately show ?thesis using assms(1) by (simp add: namesFiled_def wellFormedModel_def)
qed

section \<open>Failed builder calls\<close>

text \<open>The fluent calls, groups included.\<close>

datatype qop =
    QWhere string string goany
  | QFilter string string goany
  | QOrFilter string string goany
  | QGroup string "qop list"
  | QIndex string
  | QLimit int
  | QOffset int
  | QOrderBy string string
  | QSelect "string list"
  | QConsistentRead
  | QWithRetry int int
  | QParallelScan int int
  | QIfNotExists
  | QIfExists
  | QWithCondition string string goany
  | QWithConditionExpression string "(string \<times> goany) list"

fun applyQ :: "convenv \<Rightarrow> qop \<Rightarrow> Query \<Rightarrow> Query"
  and applyQs :: "convenv \<Rightarrow> qop list \<Rightarrow> Query \<Rightarrow> Query" where
  "applyQ env (QWhere f op v) q = Where f op v q"
| "applyQ env (QFilter f op v) q = Filter env f op v q"
| "applyQ env (QOrFilter f op v) q = OrFilter env f op v q"
| "applyQ env (QGroup lop ops) q = addFilterGroup lop (\<lambda>s. applyQs env ops s) q"
| "applyQ env (QIndex n) q = Index n q"
| "applyQ env (QLimit n) q = Limit n q"
| "applyQ env (QOffset n) q = Offset n q"
| "applyQ env (QOrderBy f d) q = OrderBy f d q"
| "applyQ env (QSelect fs) q = Select fs q"
| "applyQ env QConsistentRead q = ConsistentRead q"
| "applyQ env (QWithRetry n d) q = WithRetry n d q"
| "applyQ env (QParallelScan s n) q = ParallelScan s n q"
| "applyQ env QIfNotExists q = IfNotExists q"
| "applyQ env QIfExists q = IfExists q"
| "applyQ env (QWithCondition f op v) q = WithCondition f op v q"
| "applyQ env (QWithConditionExpression e vs) q = WithConditionExpression e vs q"
| "applyQs env [] q = q"
| "applyQs env (p # ps) q = applyQs env ps (applyQ env p q)"

lemma applyQs_fold: "applyQs env ps q = fold (applyQ env) ps q"
  by (induction ps arbitrary: q) auto

text \<open>A call names an encrypted field.\<close>

definition encryptedField :: "ModelMetadata \<Rightarrow> string \<Rightarrow> bool" where
  "encryptedField md f = (f \<noteq> [] \<and> (case mmAttribute md f of None \<Rightarrow> False | Some m \<Rightarrow> map_of (amTags m) ''encrypted'' \<noteq> None))"

fun namesEncrypted :: "ModelMetadata \<Rightarrow> qop \<Rightarrow> bool" where
  "namesEncrypted md (QWhere f op v) = encryptedField md f"
| "namesEncrypted md (QFilter f op v) = encryptedField md f"
| "namesEncrypted md (QOrFilter f op v) = encryptedField md f"
| "namesEncrypted md (QWithCondition f op v) = encryptedField md f"
| "namesEncrypted md (QGroup lop ops) = (\<exists>p \<in> set ops. namesEncrypted md p)"
| "namesEncrypted md p = False"

lemma recordBuilderError_simps [simp]:
  "metadata (recordBuilderError e q) = metadata q" "builderErr (recordBuilderError e q) = (case builderErr q of None \<Rightarrow> Some e | Some d \<Rightarrow> Some d)"
  by (simp_all add: recordBuilderError_def split: option.split)

lemma reject_encrypted:
  assumes "metadata q = Some md"
  shows "(\<exists>e. rejectEncryptedConditionField q f = Inl e) = encryptedField md f"
  using assms by (auto simp: rejectEncryptedConditionField_def attributeMetadata_def encryptedField_def split: option.splits)

lemma addFilter_state:
  "metadata (addFilter env lop f op v q) = metadata q"
  "builderErr q = Some e \<Longrightarrow> builderErr (addFilter env lop f op v q) = Some e"
  "metadata q = Some md \<Longrightarrow> encryptedField md f \<Longrightarrow> \<exists>e. builderErr (addFilter env lop f op v q) = Some e"
  using reject_encrypted[of q md f]
  by (auto simp: addFilter_def Let_def split: sum.splits prod.splits option.splits)

lemma addFilterGroup_state:
  "metadata (addFilterGroup lop fn q) = metadata q"
  "builderErr q = Some e \<Longrightarrow> builderErr (addFilterGroup lop fn q) = Some e"
  "builderErr (fn (groupQuery q)) \<noteq> None \<Longrightarrow> builderErr (addFilterGroup lop fn q) \<noteq> None"
  by (auto simp: addFilterGroup_def Let_def split: option.splits)

lemma writeCondition_state [simp]:
  "metadata (writeCondition f op v q) = metadata q" "builderErr (writeCondition f op v q) = builderErr q"
  by (simp_all add: writeCondition_def)

lemmas fluent_defs = Where_def Filter_def OrFilter_def Index_def Limit_def Offset_def OrderBy_def Select_def ConsistentRead_def WithRetry_def
  ParallelScan_def IfNotExists_def IfExists_def addPrimaryKeyCondition_def WithCondition_def WithConditionExpression_def Let_def

lemma applyQ_latch: "metadata (applyQ env p q) = metadata q \<and> (builderErr q = Some e \<longrightarrow> builderErr (applyQ env p q) = Some e)"
  by (cases p) (auto simp: fluent_defs addFilter_state addFilterGroup_state split: sum.splits option.splits)

lemma run_latch:
  "metadata (fold (applyQ env) ps q) = metadata q \<and> (builderErr q = Some e \<longrightarrow> builderErr (fold (applyQ env) ps q) = Some e)"
proof (induction ps arbitrary: q)
  case (Cons p ps)
  then show ?case using applyQ_latch[of env p q e] by simp
qed simp

lemma run_encrypted_step:
  assumes "\<And>p q. p \<in> set ps \<Longrightarrow> namesEncrypted md p \<Longrightarrow> metadata q = Some md \<Longrightarrow> builderErr (applyQ env p q) \<noteq> None"
    "p \<in> set ps" "namesEncrypted md p" "metadata q = Some md"
  shows "builderErr (fold (applyQ env) ps q) \<noteq> None"
proof -
  from assms(2) obtain us vs where ps: "ps = us @ p # vs" by (meson split_list)
  let ?q1 = "fold (applyQ env) us q"
  have "metadata ?q1 = Some md" using run_latch[of env us q] assms(4) by simp
  then obtain e where "builderErr (applyQ env p ?q1) = Some e" using assms(1-3) by blast
  then show ?thesis using run_latch[of env vs "applyQ env p ?q1" e] by (simp add: ps)
qed

lemma direct_encrypted:
  "metadata q = Some md \<Longrightarrow> encryptedField md f \<Longrightarrow> \<exists>e. builderErr (Where f op v q) = Some e"
  "metadata q = Some md \<Longrightarrow> encryptedField md f \<Longrightarrow> \<exists>e. builderErr (WithCondition f op v q) = Some e"
  using reject_encrypted[of q md f] by (auto simp: Where_def WithCondition_def split: sum.splits option.splits)

lemma applyQ_encrypted: "namesEncrypted md p \<Longrightarrow> metadata q = Some md \<Longrightarrow> builderErr (applyQ env p q) \<noteq> None"
proof (induction p arbitrary: q)
  case (QGroup lop ops)
  then obtain p where p: "p \<in> set ops" "namesEncrypted md p" by auto
  have "metadata (groupQuery q) = Some md" using QGroup.prems(2) by (simp add: groupQuery_def New_def)
  then have "builderErr (fold (applyQ env) ops (groupQuery q)) \<noteq> None"
    using run_encrypted_step[of ops md env p] QGroup.IH p by blast
  then show ?case using addFilterGroup_state(3)[of "applyQs env ops" q lop] by (simp add: applyQs_fold)
qed (simp_all add: direct_encrypted Filter_def OrFilter_def addFilter_state(3))

lemma run_encrypted: "p \<in> set ps \<Longrightarrow> namesEncrypted md p \<Longrightarrow> metadata q = Some md \<Longrightarrow> \<exists>e. builderErr (fold (applyQ env) ps q) = Some e"
  using run_encrypted_step[of ps md env p q] applyQ_encrypted by blast

lemma terminals_latched:
  assumes "builderErr q = Some e"
  shows "Create env clk ex q w = (Inl e, q, w)" "CreateOrUpdate env clk ex q w = (Inl e, q, w)" "Update env clk ex q fs w = (Inl e, w)"
    "Delete env ex q w = (Inl e, w)" "First env ex q dest w = (Inl e, w)" "All env ex q dest w = (Inl e, w)" "Count env ex q w = (Inl e, w)"
    "Scan env ex q w = (Inl e, w)" "ScanAllSegments env ex q dest n order w = (Inl e, w)"
  using assms
  by (simp_all add: Create_def createRequest_def CreateOrUpdate_def upsertRequest_def Update_def updateRequest_def Delete_def deleteRequest_def
      First_def All_def Count_def Scan_def ScanAllSegments_def checkBuilderError_def)

text \<open>C25. No condition on an encrypted field is ever sent by the operations of the query itself.  If any call of \<open>Where\<close>, \<open>Filter\<close>, \<open>OrFilter\<close> or
  \<open>WithCondition\<close>, also a filter inside a group, names a field tagged \<open>encrypted\<close>, the query has recorded an error, and \<open>Create\<close>,
  \<open>CreateOrUpdate\<close>, \<open>Update\<close>, \<open>Delete\<close>, \<open>First\<close>, \<open>All\<close>, \<open>Count\<close>, \<open>Scan\<close> and \<open>ScanAllSegments\<close> return that error and leave the store as it was.
  The update builder got from \<open>UpdateBuilder()\<close> does not look at this error (\<open>dropped_condition_still_updates\<close>), and \<open>Select\<close> and
  \<open>OrderBy\<close> record none.\<close>

theorem encrypted_query_never_runs:
  assumes "metadata q0 = Some md" "p \<in> set ops" "namesEncrypted md p" "q = fold (applyQ env) ops q0"
  shows "\<exists>e. builderErr q = Some e
    \<and> Create env clk ex q w = (Inl e, q, w) \<and> CreateOrUpdate env clk ex q w = (Inl e, q, w) \<and> Update env clk ex q fs w = (Inl e, w)
    \<and> Delete env ex q w = (Inl e, w) \<and> First env ex q dest w = (Inl e, w) \<and> All env ex q dest w = (Inl e, w) \<and> Count env ex q w = (Inl e, w)
    \<and> Scan env ex q w = (Inl e, w) \<and> ScanAllSegments env ex q dest n order w = (Inl e, w)"
proof -
  obtain e where "builderErr q = Some e" using run_encrypted[OF assms(2,3,1)] unfolding assms(4) by blast
  note e = this
  show ?thesis by (intro exI[of _ e] conjI e terminals_latched[OF e])
qed

definition countingExecutor :: "nat Executor" where
  "countingExecutor = \<lparr> exQuery = \<lambda>c w. (Inr [], w + 1), exScan = \<lambda>c w. (Inr [], w + 1), exCount = \<lambda>c w. (Inr 0, w + 1), exGetItem = None,
     exPutItem = None, exUpdateItem = None, exDeleteItem = None \<rparr>"

theorem encrypted_query_never_runs_witness:
  "\<exists>e. Scan plainEnv countingExecutor
     (fold (applyQ plainEnv) [QLimit 5, QGroup ''AND'' [QFilter ''ssn'' ''='' None]] (New None (Some demoMetadata) None)) 0 = (Inl e, 0)"
proof -
  let ?p = "QGroup ''AND'' [QFilter ''ssn'' ''='' None]"
  have "metadata (New None (Some demoMetadata) None) = Some demoMetadata" by (simp add: New_def)
  moreover have "?p \<in> set [QLimit 5, ?p]" by simp
  moreover have "namesEncrypted demoMetadata ?p" by (simp add: encryptedField_def demoMetadata_def demoAttribute_def)
  ultimately obtain e where "Scan plainEnv countingExecutor (fold (applyQ plainEnv) [QLimit 5, ?p] (New None (Some demoMetadata) None)) 0 = (Inl e, 0)"
    using encrypted_query_never_runs[OF _ _ _ refl, of _ _ _ _ _ _ countingExecutor 0] by blast
  then show ?thesis by blast
qed

section \<open>Keys\<close>

text \<open>The value of the last condition on a key, in the order of the \<open>Where\<close> calls.\<close>

definition lastOf :: "Query \<Rightarrow> keyNameSet \<Rightarrow> keyRole \<Rightarrow> Condition list \<Rightarrow> goany option" where
  "lastOf q ks role cs = (case filter (\<lambda>c. conditionRole q ks c = role) cs of [] \<Rightarrow> None | hits \<Rightarrow> Some (condValue (last hits)))"

definition orElse :: "'a option \<Rightarrow> 'a option \<Rightarrow> 'a option" where
  "orElse a b = (case a of None \<Rightarrow> b | Some _ \<Rightarrow> a)"

lemma lastOf_Cons:
  "lastOf q ks role (c # cs) = orElse (lastOf q ks role cs) (if conditionRole q ks c = role then Some (condValue c) else None)"
  by (auto simp: lastOf_def orElse_def split: list.splits)

lemma foldE_each: "foldE f xs s = Inr t \<Longrightarrow> \<forall>x \<in> set xs. \<exists>s s'. f x s = Inr s'"
  by (induction xs arbitrary: s) (auto split: sum.splits)

text \<open>Both loops over the conditions, on success: every key condition is an equality and the last value of each key is taken.\<close>

lemma key_loop:
  assumes "foldE step cs kv = Inr kv'"
    and "\<And>c kv kv'. step c kv = Inr kv' \<Longrightarrow> kv' = setKeyValue (conditionRole q ks c) (condValue c) kv
      \<and> (conditionRole q ks c \<noteq> OtherRole \<longrightarrow> TrimSpace (condOperator c) = ''='')"
  shows "kv' = (orElse (lastOf q ks PartitionRole cs) (fst kv), orElse (lastOf q ks SortRole cs) (snd kv))
    \<and> (\<forall>c \<in> set cs. conditionRole q ks c \<noteq> OtherRole \<longrightarrow> TrimSpace (condOperator c) = ''='')"
  using assms(1)
proof (induction cs arbitrary: kv)
  case Nil
  then show ?case by (simp add: lastOf_def orElse_def)
next
  case (Cons c cs)
  then obtain kv1 where kv1: "step c kv = Inr kv1" "foldE step cs kv1 = Inr kv'" by (auto split: sum.splits)
  show ?case using Cons.IH[OF kv1(2)] assms(2)[OF kv1(1)]
    by (cases "conditionRole q ks c") (auto simp: lastOf_Cons orElse_def setKeyValue_def split: option.splits)
qed

text \<open>What the model holds for a key: the field the registered metadata names as partition or sort key, unless it is zero, else the field of the
  key's Go name, unless it is zero.\<close>

definition registeredKeyField :: "Query \<Rightarrow> (KeySchema \<Rightarrow> FieldMetadata option) \<Rightarrow> FieldMetadata option" where
  "registeredKeyField q part = Option.bind (rawMetadata q) (\<lambda>md. Option.bind (PrimaryKey md) part)"

definition pathValue :: "gtype \<times> gval \<Rightarrow> FieldMetadata option \<Rightarrow> goany option" where
  "pathValue tv fm =
     Option.bind fm (\<lambda>f. Option.bind (fieldByIndex (IndexPath f) (fst tv) (snd tv)) (\<lambda>(t, v). if goIsZero v then None else Some (toInterface t v)))"

definition namedValue :: "gtype \<times> gval \<Rightarrow> string \<Rightarrow> goany option" where
  "namedValue tv name = Option.bind (fieldByName name (fst tv) (snd tv)) (\<lambda>fv. if goIsZero (snd fv) then None else fieldInterface fv)"

definition modelKeyValue :: "Query \<Rightarrow> (KeySchema \<Rightarrow> FieldMetadata option) \<Rightarrow> string \<Rightarrow> goany option" where
  "modelKeyValue q part name =
     Option.bind (modelStructValue q) (\<lambda>tv. orElse (pathValue tv (registeredKeyField q part)) (namedValue tv name))"

lemma fillPath_value: "fillPath tv fm found = Inr r \<Longrightarrow> r = orElse found (pathValue tv fm)"
  by (auto simp: fillPath_def pathValue_def orElse_def split: option.splits)

lemma fillName_value: "fillName tv name found = Inr r \<Longrightarrow> r = orElse found (namedValue tv name)"
  by (auto simp: fillName_def namedValue_def orElse_def split: option.splits if_splits)

lemma orElse_None [simp]: "orElse a None = a" "orElse None a = a"
  by (simp_all add: orElse_def split: option.split)

lemma orElse_assoc: "orElse (orElse a b) c = orElse a (orElse b c)"
  by (simp add: orElse_def split: option.split)

lemma fillRaw_values:
  assumes "fillKeyValuesFromRawMetadata q tv sk kv = Inr kv'"
  shows "fst kv' = orElse (fst kv) (pathValue tv (registeredKeyField q PartitionKey))"
    "sk \<noteq> [] \<Longrightarrow> snd kv' = orElse (snd kv) (pathValue tv (registeredKeyField q SortKey))"
proof -
  have none: "pathValue tv None = None" by (simp add: pathValue_def)
  show "fst kv' = orElse (fst kv) (pathValue tv (registeredKeyField q PartitionKey))"
    using assms by (auto simp: fillKeyValuesFromRawMetadata_def registeredKeyField_def none bindE_eq_Inr dest!: fillPath_value split: option.splits)
  show "snd kv' = orElse (snd kv) (pathValue tv (registeredKeyField q SortKey))" if "sk \<noteq> []"
    using assms that by (auto simp: fillKeyValuesFromRawMetadata_def registeredKeyField_def none bindE_eq_Inr dest!: fillPath_value split: option.splits)
qed

lemma fillNames_values:
  assumes "fillKeyValuesByName tv pk sk kv = Inr kv'"
  shows "fst kv' = orElse (fst kv) (namedValue tv pk)" "sk \<noteq> [] \<Longrightarrow> snd kv' = orElse (snd kv) (namedValue tv sk)"
  using assms by (auto simp: fillKeyValuesByName_def bindE_eq_Inr dest!: fillName_value)

lemma fill_values:
  assumes "fillKeyValuesFromModel q pk sk kv = Inr kv'"
  shows "fst kv' = orElse (fst kv) (modelKeyValue q PartitionKey pk) \<and> (sk \<noteq> [] \<longrightarrow> snd kv' = orElse (snd kv) (modelKeyValue q SortKey sk))"
proof (cases "fst kv \<noteq> None \<and> (sk = [] \<or> snd kv \<noteq> None)")
  case True
  then show ?thesis using assms by (auto simp: fillKeyValuesFromModel_def orElse_def)
next
  case False
  show ?thesis
  proof (cases "modelStructValue q")
    case None
    then show ?thesis using assms False by (simp add: fillKeyValuesFromModel_def modelKeyValue_def split: if_splits)
  next
    case (Some tv)
    then obtain kv1 where kv1: "fillKeyValuesFromRawMetadata q tv sk kv = Inr kv1" "fillKeyValuesByName tv pk sk kv1 = Inr kv'"
      using assms False by (auto simp: fillKeyValuesFromModel_def bindE_eq_Inr split: if_splits)
    show ?thesis using Some fillRaw_values[OF kv1(1)] fillNames_values[OF kv1(2)] by (simp add: modelKeyValue_def orElse_assoc)
  qed
qed

lemma key_map_values:
  assumes "buildPrimaryKeyAttributeValues env q ks pv sv = Inr key" "skGo ks \<noteq> [] \<longrightarrow> skAttr ks \<noteq> pkAttr ks"
  shows "\<exists>pav. toAttributeValue env q pv = Inr pav \<and> map_of key (pkAttr ks) = Some pav
    \<and> (if skGo ks = [] then dom (map_of key) = {pkAttr ks}
       else dom (map_of key) = {pkAttr ks, skAttr ks} \<and> (\<exists>sav. toAttributeValue env q sv = Inr sav \<and> map_of key (skAttr ks) = Some sav))"
  using assms by (auto simp: buildPrimaryKeyAttributeValues_def split: sum.splits if_splits)

text \<open>C26. When a query is answered by \<open>GetItem\<close>: it names no index and has no filter, each of its conditions is an equality
  on the partition or the sort key, and the key of the request has exactly the key attributes, each with the converted value of the last condition on
  it, or, for a key no condition names, of the non-zero field the model holds for that key (\<open>modelKeyValue\<close>).\<close>

theorem compileGetItem_exact:
  assumes "compileGetItem env q = Inr (Some (c, key))" "metadata q = Some md" "ks = keySchemaNames q (mmPrimaryKey md)"
    and "skGo ks \<noteq> [] \<longrightarrow> skAttr ks \<noteq> pkAttr ks"
  shows "index q = [] \<and> builder q = None \<and> cqOperation c = ''GetItem'' \<and> cqTableName c = mmTableName md
    \<and> (\<forall>x \<in> set (qconditions q). conditionRole q ks x \<noteq> OtherRole \<and> TrimSpace (condOperator x) = ''='')
    \<and> (\<exists>pv pav. orElse (lastOf q ks PartitionRole (qconditions q)) (modelKeyValue q PartitionKey (pkGo ks)) = Some pv
        \<and> toAttributeValue env q pv = Inr pav \<and> map_of key (pkAttr ks) = Some pav)
    \<and> (if skGo ks = [] then dom (map_of key) = {pkAttr ks}
       else dom (map_of key) = {pkAttr ks, skAttr ks}
        \<and> (\<exists>sv sav. orElse (lastOf q ks SortRole (qconditions q)) (modelKeyValue q SortKey (skGo ks)) = Some sv
            \<and> toAttributeValue env q sv = Inr sav \<and> map_of key (skAttr ks) = Some sav))"
proof -
  have ib: "index q = []" "builder q = None" using assms(1,2) by (auto simp: compileGetItem_def split: if_splits)
  have ks: "getItemKeyNames q md = Inr ks" using assms(1,2,3) ib by (auto simp: compileGetItem_def getItemKeyNames_def split: if_splits)
  obtain kv0 where kv0: "extractGetItemKeyValuesFromConditions q ks = Some kv0"
    using assms(1,2) ib ks by (auto simp: compileGetItem_def split: option.splits)
  obtain kv where kv: "fillKeyValuesFromModel q (pkGo ks) (skGo ks) kv0 = Inr kv" "fst kv \<noteq> None" "skGo ks = [] \<or> snd kv \<noteq> None"
    and k: "buildPrimaryKeyAttributeValues env q ks (foundValue (fst kv)) (foundValue (snd kv)) = Inr key" and c: "getItemRequest q md = Inr c"
    using assms(1,2) ib ks kv0 by (auto simp: compileGetItem_def bindE_eq_Inr split: if_splits)
  have run: "foldE (getItemStep q ks) (qconditions q) (None, None) = Inr kv0"
    using kv0 by (auto simp: extractGetItemKeyValuesFromConditions_def split: sum.splits)
  have all: "\<forall>x \<in> set (qconditions q). conditionRole q ks x \<noteq> OtherRole \<and> TrimSpace (condOperator x) = ''=''"
  proof
    fix x assume "x \<in> set (qconditions q)"
    then obtain s s' where "getItemStep q ks x s = Inr s'" using foldE_each[OF run] by blast
    then show "conditionRole q ks x \<noteq> OtherRole \<and> TrimSpace (condOperator x) = ''=''" by (simp add: getItemStep_def Let_def split: if_splits)
  qed
  have last: "kv0 = (lastOf q ks PartitionRole (qconditions q), lastOf q ks SortRole (qconditions q))"
  proof -
    have "kv' = setKeyValue (conditionRole q ks c) (condValue c) kv \<and> (conditionRole q ks c \<noteq> OtherRole \<longrightarrow> TrimSpace (condOperator c) = ''='')"
      if "getItemStep q ks c kv = Inr kv'" for c kv kv' using that by (simp add: getItemStep_def Let_def split: if_splits)
    from key_loop[OF run this] show ?thesis by (auto simp: orElse_def split: option.splits)
  qed
  have "cqOperation c = ''GetItem'' \<and> cqTableName c = mmTableName md"
    using c by (auto simp: getItemRequest_def Let_def emptyCompiled_def split: if_splits option.splits)
  moreover have "orElse (lastOf q ks PartitionRole (qconditions q)) (modelKeyValue q PartitionKey (pkGo ks)) = Some (foundValue (fst kv))"
      "skGo ks \<noteq> [] \<Longrightarrow> orElse (lastOf q ks SortRole (qconditions q)) (modelKeyValue q SortKey (skGo ks)) = Some (foundValue (snd kv))"
    using fill_values[OF kv(1)] kv(2,3) unfolding last by (auto simp: foundValue_def)
  ultimately show ?thesis using ib all key_map_values[OF k assms(4)] by (auto split: if_splits)
qed

definition demoGet :: Query where
  "demoGet = (New None (Some demoMetadata) None) \<lparr> qconditions :=
     [\<lparr> condField = ''id'', condOperator = ''='', condValue = Some (TString, VString ''a'') \<rparr>,
      \<lparr> condField = ''ID'', condOperator = ''='', condValue = Some (TString, VString ''b'') \<rparr>] \<rparr>"

lemma demoGet_names: "keySchemaNames demoGet (mmPrimaryKey demoMetadata) = \<lparr> pkGo = ''ID'', pkAttr = ''id'', skGo = [], skAttr = [] \<rparr>"
  by (simp add: keySchemaNames_def demoMetadata_def resolveAttributeName_def attributeMetadata_def demoGet_def New_def demoAttribute_def Let_def)

lemma demoGet_values:
  "extractGetItemKeyValuesFromConditions demoGet \<lparr> pkGo = ''ID'', pkAttr = ''id'', skGo = [], skAttr = [] \<rparr> = Some (Some (Some (TString, VString ''b'')), None)"
  by (simp add: extractGetItemKeyValuesFromConditions_def demoGet_def New_def getItemStep_def conditionRole_def normalizeCondition_def attributeMetadata_def
      demoMetadata_def demoAttribute_def EqualFold_def setKeyValue_def TrimSpace_graphic Let_def)

text \<open>Two equalities on the partition key: only the last reaches the request, so an item is returned that the first one excludes.\<close>

lemma getItem_drops_conflicting_condition:
  "\<exists>c. compileGetItem plainEnv demoGet = Inr (Some (c, [(''id'', AVS ''b'')]))"
proof -
  have q: "metadata demoGet = Some demoMetadata" "index demoGet = []" "builder demoGet = None" "projection demoGet = []" "qconverter demoGet = None"
    by (simp_all add: demoGet_def New_def)
  have names: "getItemKeyNames demoGet demoMetadata = Inr \<lparr> pkGo = ''ID'', pkAttr = ''id'', skGo = [], skAttr = [] \<rparr>"
    by (simp add: getItemKeyNames_def demoGet_names) (simp add: demoMetadata_def)
  show ?thesis
    by (simp add: compileGetItem_def q names demoGet_values fillKeyValuesFromModel_def buildPrimaryKeyAttributeValues_def toAttributeValue_def foundValue_def
        ConvertToAttributeValue_def getItemRequest_def plainEnv_def withMarshaler_def Let_def)
qed

theorem compileGetItem_exact_witness:
  "list_all (\<lambda>x. conditionRole demoGet (keySchemaNames demoGet (mmPrimaryKey demoMetadata)) x \<noteq> OtherRole) (qconditions demoGet)
   \<and> lastOf demoGet (keySchemaNames demoGet (mmPrimaryKey demoMetadata)) PartitionRole (qconditions demoGet) = Some (Some (TString, VString ''b''))"
proof -
  obtain c where c: "compileGetItem plainEnv demoGet = Inr (Some (c, [(''id'', AVS ''b'')]))" using getItem_drops_conflicting_condition by blast
  have md: "metadata demoGet = Some demoMetadata" by (simp add: demoGet_def New_def)
  have sk: "skGo (keySchemaNames demoGet (mmPrimaryKey demoMetadata)) \<noteq> [] \<longrightarrow> skAttr (keySchemaNames demoGet (mmPrimaryKey demoMetadata)) \<noteq> pkAttr (keySchemaNames demoGet (mmPrimaryKey demoMetadata))"
    by (simp add: demoGet_names)
  have "lastOf demoGet (keySchemaNames demoGet (mmPrimaryKey demoMetadata)) PartitionRole (qconditions demoGet) = Some (Some (TString, VString ''b''))"
    unfolding demoGet_names by (simp add: lastOf_def demoGet_def New_def conditionRole_def normalizeCondition_def attributeMetadata_def
      demoMetadata_def demoAttribute_def EqualFold_def Let_def)
  then show ?thesis using compileGetItem_exact[OF c md refl sk] unfolding list_all_iff by blast
qed

section \<open>Versioned writes\<close>

text \<open>Steps that leave the recorded conditions alone and only extend the placeholder maps.\<close>

lemma vocab_op:
  assumes "vocab V b" "caseSafe V" "set (parts (opName p)) \<subseteq> V" "notGroup p b"
  shows "vocab V (applyOp env p b) \<and> map_of (names b) \<subseteq>\<^sub>m map_of (names (applyOp env p b)) \<and> map_of (bvalues b) \<subseteq>\<^sub>m map_of (bvalues (applyOp env p b))"
proof -
  have inv: "namesInv b" "valuesInv b" "countInv b" using assms(1) by (auto simp: vocab_def)
  have safe: "nameSafe p b" using assms vocab_caseConsistent by (simp add: nameSafe_def)
  from applyOp_step[OF assms(4)] obtain b1 where
    b1: "b1 = b \<or> (\<exists>ref. addNameSecure (opName p) b = (ref, b1))" "names (applyOp env p b) = names b1"
    unfolding nameThenValues_def by blast
  have "snd ` set (names b1) \<subseteq> set (parts (opName p)) \<union> snd ` set (names b)" using b1(1) addNameSecure_names by blast
  then have "snd ` set (names (applyOp env p b)) \<subseteq> V" using b1(2) assms(1,3) unfolding vocab_def by auto
  then show ?thesis
    using name_store.op_invar[OF inv(1) safe] name_store.op_extends[OF inv(1) safe] value_store.op_invar[OF inv(2) assms(4)]
      value_store.op_extends[OF inv(2) assms(4)] countInv_step[OF inv(3)]
    by (simp add: vocab_def)
qed

definition andJoined :: "Builder \<Rightarrow> bool" where
  "andJoined b = (conditionOperators b = replicate (length (conditions b) - 1) ''AND'')"

lemma joinWithOpsAnd_all: "joinWithOpsAnd cs (replicate (length cs - 1) ''AND'') = Join cs '' AND ''"
proof (induction cs "'' AND ''" rule: Join.induct)
  case (3 s t ss)
  then show ?case by simp
qed simp_all

text \<open>The conditions start with one that denotes \<open>c\<close>, all are joined by \<open>AND\<close>.\<close>

definition guarded :: "convenv \<Rightarrow> string set \<Rightarrow> customConverter option \<Rightarrow> Condition option \<Rightarrow> Builder \<Rightarrow> bool" where
  "guarded env V conv oc b = (vocab V b \<and> andJoined b \<and> converter b = conv \<and>
     (case oc of None \<Rightarrow> True | Some c \<Rightarrow> \<exists>t ts. conditions b = t # ts \<and> denotes env conv (names b) (bvalues b) c t))"

lemma guarded_condition:
  assumes "guarded env V conv oc b" "caseSafe V" "set (parts (condField c)) \<subseteq> V" "addConditionOf env c b = Inr b'"
  shows "guarded env V conv oc b'" "conditions b = [] \<Longrightarrow> guarded env V conv (Some c) b'"
proof -
  from writes.records[OF assms(4) _ assms(2,3)] assms(1) obtain t where
    t: "vocab V b'" "keeps b b'" "conditions b' = conditions b @ [t]" "denotes env (converter b) (names b') (bvalues b') c t"
    by (auto simp: guarded_def)
  have ops: "andJoined b'"
  proof -
    from assms(4) obtain u b1 where b1: "buildCondition env (condField c) (condOperator c) (condValue c) b = (Inr u, b1)" and
      "b' = (let b2 = b1 \<lparr> conditions := conditions b1 @ [u] \<rparr> in
             if length (conditions b2) > 1 then b2 \<lparr> conditionOperators := conditionOperators b2 @ [''AND''] \<rparr> else b2)"
      unfolding addConditionOf_Inr by blast
    then have b1': "conditionOperators b' = (if conditions b1 = [] then conditionOperators b1 else conditionOperators b1 @ [''AND''])"
      by (simp add: Let_def)
    have "conditionOperators b1 = replicate (length (conditions b) - 1) ''AND''" "conditions b1 = conditions b"
      using buildCondition_frame[OF b1] assms(1) by (simp_all add: guarded_def andJoined_def sameExprs_alt)
    then show ?thesis using b1' t(3) by (cases "conditions b") (simp_all add: andJoined_def replicate_append_same)
  qed
  have conv: "converter b' = conv" using t(2) assms(1) by (simp add: keeps_def guarded_def)
  show "guarded env V conv oc b'"
    using assms(1) t ops conv keeps_denotes[OF _ t(2)] by (auto simp: guarded_def split: option.splits)
  show "guarded env V conv (Some c) b'" if "conditions b = []"
    using that assms(1) t ops conv by (auto simp: guarded_def)
qed

lemma guarded_update:
  assumes "guarded env V conv oc b" "caseSafe V" "set (parts (opName p)) \<subseteq> V"
    "p = OpSet f v \<or> p = OpAdd f v"
  shows "guarded env V conv oc (applyOp env p b) \<and> conditions (applyOp env p b) = conditions b"
proof -
  have "notGroup p b" using assms(4) by (auto simp: notGroup_def)
  note s = vocab_op[OF _ assms(2,3) this, of env]
  have "conditions (applyOp env p b) = conditions b \<and> conditionOperators (applyOp env p b) = conditionOperators b \<and> converter (applyOp env p b) = converter b"
    using assms(4) updates_shape(1,2)[of b env f v]
    by (auto simp: updateShape_def sameExprs_alt pushUpdate_def split: prod.splits)
  then show ?thesis using s assms(1) denotes_mono by (auto simp: guarded_def andJoined_def split: option.splits)
qed

text \<open>The names an update can mention.\<close>

definition fieldNames :: "FieldMetadata \<Rightarrow> string set" where
  "fieldNames fm = set (parts (DBName fm)) \<union> set (parts (indexedField (DBName fm)))"

definition updateNames :: "Query \<Rightarrow> Metadata \<Rightarrow> string set" where
  "updateNames q md =
     (\<Union>e \<in> set (Fields md) \<union> set (FieldsByDBName md). fieldNames (snd e))
     \<union> (\<Union>fm \<in> set_option (UpdatedAtField md) \<union> set_option (VersionField md). fieldNames fm)
     \<union> (\<Union>c \<in> set (writeConditions q). set (parts (condField c))) \<union> (\<Union>c \<in> set (conditionsOf q). set (parts (condField c)))"

lemma okState_update:
  "okState (AddUpdateSet env f v b) = Inr b' \<Longrightarrow> b' = applyOp env (OpSet f v) b"
  "okState (AddUpdateAdd env f v b) = Inr b' \<Longrightarrow> b' = applyOp env (OpAdd f v) b"
  by (auto simp: okState_def split: sum.splits)

lemma guarded_newBuilder: "guarded env V (converter (newBuilder q)) None (newBuilder q) \<and> conditions (newBuilder q) = []"
  by (simp add: guarded_def newBuilder_def NewBuilderWithConverter_def NewBuilder_def andJoined_def vocab_def namesInv_def valuesInv_def countInv_def
      split: option.split)

lemma guarded_set:
  assumes "guarded env V conv oc b" "caseSafe V" "fieldNames fm \<subseteq> V" "okState (AddUpdateSet env (DBName fm) v b) = Inr b'"
  shows "guarded env V conv oc b' \<and> conditions b' = conditions b"
  using guarded_update[OF assms(1,2), of "OpSet (DBName fm) v" "DBName fm" v] assms(3) okState_update(1)[OF assms(4)]
  by (simp add: fieldNames_def)

lemma guarded_add:
  assumes "guarded env V conv oc b" "caseSafe V" "fieldNames fm \<subseteq> V" "okState (AddUpdateAdd env (DBName fm) v b) = Inr b'"
  shows "guarded env V conv oc b' \<and> conditions b' = conditions b"
  using guarded_update[OF assms(1,2), of "OpAdd (DBName fm) v" "DBName fm" v] assms(3) okState_update(2)[OF assms(4)]
  by (simp add: fieldNames_def)

lemma updateFieldStep_guarded:
  assumes "updateFieldStep env md tv f b = Inr b'" "guarded env V conv None b \<and> conditions b = []" "caseSafe V"
    "\<forall>e \<in> set (Fields md) \<union> set (FieldsByDBName md). fieldNames (snd e) \<subseteq> V"
  shows "guarded env V conv None b' \<and> conditions b' = []"
proof -
  from assms(1) obtain fm where fm: "lookupField md f = Some fm" by (auto simp: updateFieldStep_def updateFieldMetadata_def bindE_eq_Inr split: option.splits)
  then have "fieldNames fm \<subseteq> V" using assms(4) by (force simp: lookupField_def dest: map_of_SomeD split: option.splits)
  then show ?thesis using assms(1-3) fm guarded_set[of env V conv None b fm]
    by (auto simp: updateFieldStep_def updateFieldMetadata_def setField_def split: if_splits option.splits prod.splits)
qed

lemma guarded_rest:
  assumes "buildConditionExpression env q b True skip False = Inr (b', expr, nms, vals)" "guarded env V conv (Some c) b" "caseSafe V"
    "\<forall>c \<in> set (writeConditions q) \<union> set (conditionsOf q). set (parts (condField c)) \<subseteq> V" "rawConditionExpressions q = []"
  shows "\<exists>t ts. expr = Join (t # ts) '' AND '' \<and> denotes env conv nms vals c t"
proof -
  obtain b1 has2 b2 where w: "foldE (addWriteCondition env q) (writeConditions q) b = Inr b1" "addWhereConditions env q skip b1 = Inr (has2, b2)"
    using assms(1) by (auto simp: buildConditionExpression_def addWriteConditions_def bindE_eq_Inr)
  have g1: "guarded env V conv (Some c) b1"
  proof (rule foldE_inv[OF w(1), of "guarded env V conv (Some c)"])
    fix x s s' assume x: "x \<in> set (writeConditions q)" "guarded env V conv (Some c) s" "addWriteCondition env q x s = Inr s'"
    have "set (parts (condField x)) \<subseteq> V" using x(1) assms(4) by simp
    moreover have "addConditionOf env x s = Inr s'" using x(3) by (auto simp: addWriteCondition_def bindE_eq_Inr split: if_splits)
    ultimately show "guarded env V conv (Some c) s'" using guarded_condition(1)[OF x(2) assms(3)] by blast
  qed (rule assms(2))
  obtain md :: ModelMetadata where md: "foldE (addWhereCondition env q (mmPrimaryKey md) skip) (qconditions q) (False, b1) = Inr (has2, b2)"
    using w(2) by (auto simp: addWhereConditions_def split: option.splits)
  have g2: "guarded env V conv (Some c) b2"
  proof -
    have "(\<lambda>s. guarded env V conv (Some c) (snd s)) (has2, b2)"
    proof (rule foldE_inv[OF md])
      fix x s s' assume x: "x \<in> set (qconditions q)" "guarded env V conv (Some c) (snd s)" "addWhereCondition env q (mmPrimaryKey md) skip x s = Inr s'"
      then have "set (parts (condField (fst (normalizeCondition q x)))) \<subseteq> V" using assms(4) by (auto simp: conditionsOf_def)
      then show "guarded env V conv (Some c) (snd s')"
        using x guarded_condition(1)[OF _ assms(3)] by (auto simp: addWhereCondition_def bindE_eq_Inr split: if_splits prod.splits)
    qed (simp add: g1)
    then show ?thesis by simp
  qed
  have "b' = b2" "\<exists>comps. Build b2 = Some comps \<and> expr = ConditionExpression comps \<and> nms = ExpressionAttributeNames comps \<and> vals = ExpressionAttributeValues comps"
    using assms(1,5) w by (auto simp: buildConditionExpression_def addWriteConditions_def mergeConditionExpressions_def bindE_eq_Inr split: option.splits)
  then show ?thesis using g2
    by (auto simp: guarded_def andJoined_def Build_def joinWithOpsAnd_all[symmetric] simp del: joinWithOpsAnd.simps split: option.splits)
qed

lemma updateRequest_Inr:
  assumes "updateRequest env clk q fs = Inr (c, key)" "rawMetadata q = Some md"
  obtains tv b b' where "updateModelValue q = Inr tv" "buildUpdateExpressionFromMetadata env clk md tv fs (newBuilder q) = Inr b"
    "buildConditionExpression env q b True True False = Inr (b', cqConditionExpression c, cqExpressionAttributeNames c, cqExpressionAttributeValues c)"
    "buildPrimaryKeyMap env q ''update'' = Inr key"
proof -
  from assms obtain k tv b b' expr nms vals where s: "buildPrimaryKeyMap env q ''update'' = Inr k" "updateModelValue q = Inr tv"
    "buildUpdateExpressionFromMetadata env clk md tv fs (newBuilder q) = Inr b"
    "buildConditionExpression env q b True True False = Inr (b', expr, nms, vals)"
    and fin: "(case (Build b', metadata q) of
       (Some components, Some m) \<Rightarrow>
         (if UpdateExpression components = [] then Inl (QueryError ''no non-key fields to update'')
          else Inr (emptyCompiled \<lparr> cqOperation := ''UpdateItem'', cqTableName := mmTableName m,
                      cqUpdateExpression := UpdateExpression components, cqConditionExpression := expr,
                      cqExpressionAttributeNames := nms, cqExpressionAttributeValues := vals \<rparr>, k))
     | _ \<Rightarrow> Inl QueryPanic) = Inr (c, key)"
    by (auto simp: updateRequest_def bindE_eq_Inr buildUpdateExpression_def)
  obtain comps m where bm: "Build b' = Some comps" "metadata q = Some m" using fin by (cases "Build b'"; cases "metadata q") simp_all
  have "k = key \<and> cqConditionExpression c = expr \<and> cqExpressionAttributeNames c = nms \<and> cqExpressionAttributeValues c = vals"
    using fin by (auto simp: bm emptyCompiled_def split: if_splits)
  then show thesis using that[OF s(2,3)] s(1,4) by simp
qed

text \<open>C24. Optimistic locking.  An update of a model with a version field is conditional on it: the condition expression of the
  request is a conjunction whose first conjunct says, through the request's own placeholders, that the stored version equals the version of the model
  in memory.  This is for queries without raw condition expressions (\<open>WithConditionExpression\<close>), where the attribute names of the model and the names in
  the conditions use no reserved word in two spellings.\<close>

theorem Update_checks_version:
  assumes "updateRequest env clk q fs = Inr (c, key)" "rawMetadata q = Some md" "VersionField md = Some vf" "rawConditionExpressions q = []"
    and "caseSafe V" "updateNames q md \<subseteq> V"
  shows "\<exists>t u current expr exprs. structValue (model q) = Some (t, u) \<and> map_option snd (fieldByIndex (IndexPath vf) t u) = Some (VInt current)
    \<and> cqConditionExpression c = Join (expr # exprs) '' AND ''
    \<and> denotes env (converter (newBuilder q)) (cqExpressionAttributeNames c) (cqExpressionAttributeValues c)
        \<lparr> condField = DBName vf, condOperator = ''='', condValue = int64Value current \<rparr> expr"
  using assms(1,2)
proof (rule updateRequest_Inr)
  let ?conv = "converter (newBuilder q)"
  fix tv b b'
  assume tv: "updateModelValue q = Inr tv" and bu: "buildUpdateExpressionFromMetadata env clk md tv fs (newBuilder q) = Inr b"
    and bc: "buildConditionExpression env q b True True False = Inr (b', cqConditionExpression c, cqExpressionAttributeNames c, cqExpressionAttributeValues c)"
  have V: "\<forall>e \<in> set (Fields md) \<union> set (FieldsByDBName md). fieldNames (snd e) \<subseteq> V" "fieldNames vf \<subseteq> V"
    "\<forall>x \<in> set (writeConditions q) \<union> set (conditionsOf q). set (parts (condField x)) \<subseteq> V"
    using assms(3,6) by (auto simp: updateNames_def)
  obtain b1 b2 where steps: "foldE (updateFieldStep env md tv) (if fs = [] then metadataFieldsToUpdate md tv else fs) (newBuilder q) = Inr b1"
    "appendUpdatedAt env clk md b1 = Inr b2" "appendVersion env md tv b2 = Inr b"
    using bu by (auto simp: buildUpdateExpressionFromMetadata_def appendUpdatedAtAndVersionUpdates_def bindE_eq_Inr)
  have "guarded env V ?conv None b1 \<and> conditions b1 = []"
    by (rule foldE_inv[OF steps(1)]) (use guarded_newBuilder updateFieldStep_guarded[OF _ _ assms(5) V(1)] in blast)+
  then have g2: "guarded env V ?conv None b2 \<and> conditions b2 = []"
    using steps(2) guarded_set[OF _ assms(5)] assms(6) by (fastforce simp: appendUpdatedAt_def updateNames_def split: option.splits)
  obtain t u v current b3 where vs: "tv = (t, u)" "map_option snd (fieldByIndex (IndexPath vf) t u) = Some v" "valueInt v = Some current"
    and b3: "versionCondition env vf current b2 = Inr b3" "okState (AddUpdateAdd env (DBName vf) (int64Value 1) b3) = Inr b"
    using steps(3) assms(3) by (cases tv) (auto simp: appendVersion_def bindE_eq_Inr split: option.splits prod.splits)
  let ?c = "\<lparr> condField = DBName vf, condOperator = ''='', condValue = int64Value current \<rparr>"
  have "addConditionOf env ?c b2 = Inr b3" using b3(1) by (simp add: versionCondition_def addConditionOf_def)
  then have "guarded env V ?conv (Some ?c) b3"
    using guarded_condition(2)[of env V ?conv None b2 ?c b3] g2 assms(5) V(2) by (simp add: fieldNames_def)
  then have "guarded env V ?conv (Some ?c) b" using guarded_add[OF _ assms(5) V(2) b3(2)] by blast
  from guarded_rest[OF bc this assms(5) V(3) assms(4)] obtain expr exprs where
    "cqConditionExpression c = Join (expr # exprs) '' AND ''" "denotes env ?conv (cqExpressionAttributeNames c) (cqExpressionAttributeValues c) ?c expr"
    by blast
  moreover have "structValue (model q) = Some (t, u)" using tv vs(1) by (auto simp: updateModelValue_def split: option.splits prod.splits gval.splits)
  moreover have "v = VInt current" using vs(3) by (simp add: valueInt_def split: gval.splits)
  ultimately show ?thesis using vs(2) by blast
qed

definition demoField :: "string \<Rightarrow> string \<Rightarrow> nat \<Rightarrow> gtype \<Rightarrow> FieldMetadata" where
  "demoField name db i t = \<lparr> fmType = t, IndexInfo = [], Tags = [], DBName = db, fmName = name, IndexPath = [i], fmIndex = i, IsPK = False,
     IsEncrypted = False, IsVersion = False, IsTTL = False, IsCreatedAt = False, IsUpdatedAt = False, IsSet = False, OmitEmpty = False, IsSK = False \<rparr>"

definition demoVersioned :: "gtype \<Rightarrow> Metadata" where
  "demoVersioned vt =
     (let idf = (demoField ''ID'' ''id'' 0 TString) \<lparr> IsPK := True \<rparr>; nick = demoField ''Nick'' ''nick'' 1 TString;
          ver = (demoField ''Ver'' ''ver'' 2 vt) \<lparr> IsVersion := True \<rparr> in
      \<lparr> mdType = TStruct ''Doc'' [SField ''ID'' True False ''pk'' [] TString, SField ''Nick'' True False [] [] TString, SField ''Ver'' True False ''version'' [] vt],
        PrimaryKey = Some \<lparr> PartitionKey = Some idf, SortKey = None \<rparr>, Fields = [(''ID'', idf), (''Nick'', nick), (''Ver'', ver)],
        FieldsByDBName = [(''id'', idf), (''nick'', nick), (''ver'', ver)], VersionField = Some ver, TTLField = None, CreatedAtField = None,
        UpdatedAtField = None, TableName = ''docs'', Indexes = [], NamingConvention = CamelCase \<rparr>)"

definition demoUpdate :: "gtype \<Rightarrow> gval \<Rightarrow> Query" where
  "demoUpdate vt v = New (Some (TPtr (mdType (demoVersioned vt)), VPtr (Some (VStruct [VString ''u1'', VString ''bob'', v]))))
     (Some (metadataAdapter (demoVersioned vt))) (Some (demoVersioned vt))"

lemma demoUpdate_key: "buildPrimaryKeyMap plainEnv (demoUpdate vt v) ''update'' = Inr [(''id'', AVS ''u1'')]"
  by (simp add: buildPrimaryKeyMap_def resolvePrimaryKeyNames_def keySchemaNames_def demoUpdate_def New_def metadataAdapter_def demoVersioned_def
      adapterPrimaryKey_def optFieldName_def demoField_def resolveAttributeName_def attributeMetadata_def lookupField_def toAttributeMetadata_def
      extractPrimaryKeyValuesFromConditions_def fillKeyValuesFromModel_def modelStructValue_def structValue_def kindOf_def elemOf_def
      fillKeyValuesFromRawMetadata_def fillPath_def structFields_def toInterface_def fillKeyValuesByName_def fillName_def validatePrimaryKeyValues_def
      buildPrimaryKeyAttributeValues_def foundValue_def toAttributeValue_def ConvertToAttributeValue_def plainEnv_def withMarshaler_def Let_def)

lemma demoUpdate_model: "updateModelValue (demoUpdate vt v) = Inr (mdType (demoVersioned vt), VStruct [VString ''u1'', VString ''bob'', v])"
  by (simp add: updateModelValue_def demoUpdate_def New_def structValue_def kindOf_def elemOf_def demoVersioned_def Let_def)

definition demoSet :: Builder where
  "demoSet = NewBuilder \<lparr> names := [(''#n1'', ''nick'')], nameCounter := 1, bvalues := [('':v1'', AVS ''bob'')], valueCounter := 1,
     updateExpressions := [(''SET'', [''#n1 = :v1''])] \<rparr>"

lemma demoUpdate_set:
  "updateFieldStep plainEnv (demoVersioned vt) (mdType (demoVersioned vt), VStruct [VString ''u1'', VString ''bob'', v]) ''Nick'' NewBuilder = Inr demoSet"
  by (simp add: updateFieldStep_def updateFieldMetadata_def lookupField_def demoVersioned_def demoField_def structFields_def toInterface_def setField_def okState_def
      builder_eval demoSet_def Let_def)

definition demoVer :: Builder where
  "demoVer = demoSet \<lparr> names := [(''#n1'', ''nick''), (''#n2'', ''ver'')], nameCounter := 2,
     bvalues := [('':v1'', AVS ''bob''), ('':v2'', AVN ''3''), ('':v3'', AVN ''1'')], valueCounter := 3, conditions := [''#n2 = :v2''],
     updateExpressions := [(''SET'', [''#n1 = :v1'']), (''ADD'', [''#n2 :v3''])] \<rparr>"

lemma demoUpdate_version:
  "appendVersion plainEnv (demoVersioned (TInt Int64)) (mdType (demoVersioned (TInt Int64)), VStruct [VString ''u1'', VString ''bob'', VInt 3]) demoSet = Inr demoVer"
  by (simp add: appendVersion_def demoVersioned_def demoField_def structFields_def valueInt_def versionCondition_def int64Value_def okState_def
      AddConditionExpression_def AddConditionExpressionWithOp_def AddUpdateAdd_def builder_eval demoSet_def demoVer_def Let_def)

text \<open>The registry accepts an unsigned version field, but reading it with \<open>Value.Int\<close> panics, so such a model cannot be updated.\<close>

lemma unsigned_version_panics:
  "validateFieldType ((demoField ''Ver'' ''ver'' 2 (TUint Uint64)) \<lparr> IsVersion := True \<rparr>) = Inr ()
   \<and> updateRequest plainEnv clk (demoUpdate (TUint Uint64) (VUint 3)) [''Nick''] = Inl QueryPanic"
proof -
  have "appendVersion plainEnv (demoVersioned (TUint Uint64)) (mdType (demoVersioned (TUint Uint64)), VStruct [VString ''u1'', VString ''bob'', VUint 3]) demoSet = Inl QueryPanic"
    by (simp add: appendVersion_def demoVersioned_def demoField_def structFields_def valueInt_def Let_def)
  moreover have "rawMetadata (demoUpdate (TUint Uint64) (VUint 3)) = Some (demoVersioned (TUint Uint64))" "newBuilder (demoUpdate (TUint Uint64) (VUint 3)) = NewBuilder"
    "builderErr (demoUpdate (TUint Uint64) (VUint 3)) = None" "UpdatedAtField (demoVersioned (TUint Uint64)) = None"
    by (simp_all add: demoUpdate_def New_def newBuilder_def demoVersioned_def Let_def)
  ultimately show ?thesis
    by (simp add: updateRequest_def checkBuilderError_def demoUpdate_key demoUpdate_model buildUpdateExpression_def buildUpdateExpressionFromMetadata_def
        demoUpdate_set appendUpdatedAtAndVersionUpdates_def appendUpdatedAt_def)
      (simp add: validateFieldType_def demoField_def numericKind_def kindOf_def)
qed

definition demoClock :: clockenv where
  "demoClock = \<lparr> nowTime = ''2024-01-01T00:00:00Z'', laterTime = ''2024-01-01T00:00:01Z'', unixOf = (\<lambda>_. 1704067200) \<rparr>"

theorem Update_checks_version_witness:
  "\<exists>c expr exprs. updateRequest plainEnv demoClock (demoUpdate (TInt Int64) (VInt 3)) [''Nick''] = Inr (c, [(''id'', AVS ''u1'')])
    \<and> cqConditionExpression c = Join (expr # exprs) '' AND ''
    \<and> denotes plainEnv None (cqExpressionAttributeNames c) (cqExpressionAttributeValues c)
        \<lparr> condField = ''ver'', condOperator = ''='', condValue = int64Value 3 \<rparr> expr"
proof -
  let ?q = "demoUpdate (TInt Int64) (VInt 3)" and ?md = "demoVersioned (TInt Int64)"
  have q: "rawMetadata ?q = Some ?md" "newBuilder ?q = NewBuilder" "builderErr ?q = None" "UpdatedAtField ?md = None" "rawConditionExpressions ?q = []"
    "writeConditions ?q = []" "qconditions ?q = []" "metadata ?q = Some (metadataAdapter ?md)"
    by (simp_all add: demoUpdate_def New_def newBuilder_def demoVersioned_def Let_def)
  have vf: "VersionField ?md = Some ((demoField ''Ver'' ''ver'' 2 (TInt Int64)) \<lparr> IsVersion := True \<rparr>)" by (simp add: demoVersioned_def Let_def)
  have bd: "Build demoVer = Some \<lparr> ExpressionAttributeNames = [(''#n1'', ''nick''), (''#n2'', ''ver'')],
      ExpressionAttributeValues = [('':v1'', AVS ''bob''), ('':v2'', AVN ''3''), ('':v3'', AVN ''1'')], KeyConditionExpression = [], FilterExpression = [],
      ProjectionExpression = [], UpdateExpression = ''SET #n1 = :v1 ADD #n2 :v3'', ConditionExpression = ''#n2 = :v2'' \<rparr>"
    by (simp add: Build_def demoVer_def demoSet_def NewBuilder_def updateParts_def)
  have "\<exists>c. updateRequest plainEnv demoClock ?q [''Nick''] = Inr (c, [(''id'', AVS ''u1'')])"
    by (simp add: updateRequest_def checkBuilderError_def q demoUpdate_key demoUpdate_model buildUpdateExpression_def buildUpdateExpressionFromMetadata_def
        demoUpdate_set appendUpdatedAtAndVersionUpdates_def appendUpdatedAt_def demoUpdate_version buildConditionExpression_def addWriteConditions_def
        addWhereConditions_def mergeConditionExpressions_def bd)
  then obtain c where c: "updateRequest plainEnv demoClock ?q [''Nick''] = Inr (c, [(''id'', AVS ''u1'')])" by blast
  have names: "updateNames ?q ?md \<subseteq> {''id'', ''nick'', ''ver''}"
    by (simp add: updateNames_def q vf conditionsOf_def)
      (simp add: demoVersioned_def demoField_def fieldNames_def parts_def indexedField_def parseListIndexOperation_def Let_def)
  have safe: "caseSafe {''id'', ''nick'', ''ver''}" by (simp add: caseSafe_def upperByte_def isLower_def char_eval)
  have sv: "structValue (model ?q) = Some (mdType ?md, VStruct [VString ''u1'', VString ''bob'', VInt 3])"
    by (simp add: demoUpdate_def New_def structValue_def kindOf_def elemOf_def demoVersioned_def Let_def)
  have fv: "fieldByIndex [2] (mdType ?md) (VStruct [VString ''u1'', VString ''bob'', VInt 3]) = Some (TInt Int64, VInt 3)"
    by (simp add: demoVersioned_def structFields_def Let_def)
  from Update_checks_version[OF c q(1) vf q(5) safe names] obtain expr exprs where
    "cqConditionExpression c = Join (expr # exprs) '' AND ''"
    "denotes plainEnv None (cqExpressionAttributeNames c) (cqExpressionAttributeValues c) \<lparr> condField = ''ver'', condOperator = ''='', condValue = int64Value 3 \<rparr> expr"
    unfolding q(2) by (auto simp: sv fv demoField_def NewBuilder_def simp del: fieldByIndex.simps)
  then show ?thesis using c by blast
qed

section \<open>Corners of the planner\<close>

text \<open>Filters joined by \<open>OR\<close> and a later non-key \<open>Where\<close>: the texts are joined without parentheses, so the \<open>Where\<close> condition only
  restricts the last alternative.\<close>

lemma where_after_or_filter:
  "joinWithOps ([a, b] @ [c]) ([''OR''] @ replicate 1 ''AND'') = Some (a @ '' OR '' @ b @ '' AND '' @ c)"
  by simp

text \<open>A global index without a sort key inherits the table's sort key, which is no key of the index: a condition on it becomes a key condition.\<close>

lemma index_inherits_table_sort_key:
  "idxName idx \<noteq> [] \<Longrightarrow> idxSortKey idx = [] \<Longrightarrow>
     skGo (keyNamesForIndex q md (Some idx)) = resolveGoFieldName q (ksSortKey (mmPrimaryKey md))"
  by (simp add: keyNamesForIndex_def orDefault_def resolveGoFieldName_def Let_def)

text \<open>With the index chosen by the planner a condition on the sort key is a key condition whatever its operator; with an explicit
  index an operator that key conditions do not have goes to the filter.\<close>

lemma planner_ignores_key_operators:
  assumes "resolvedCondition q c = (k, g, a)" "isSortKey keys g a" "\<not> isPartitionKey keys g a" "ToUpper (TrimSpace (condOperator k)) \<notin> set sortKeyOperators"
    "qconditions q = [c]"
  shows "splitConditionsByKey q keys = ([k], []) \<and> partitionConditionsForKeys q keys = ([], [k])"
  using assms by (simp add: splitConditionsByKey_def partitionConditionsForKeys_def splitWith_def usableKeyCondition_def isKey_def Let_def)

text \<open>Key names are compared without regard to case: a condition on another attribute that differs from the key only in case is taken
  for the key.\<close>

lemma key_names_ignore_case:
  "attributeMetadata demoGet ''iD'' = None
   \<and> conditionRole demoGet \<lparr> pkGo = ''ID'', pkAttr = ''id'', skGo = [], skAttr = [] \<rparr> \<lparr> condField = ''iD'', condOperator = op, condValue = v \<rparr> = PartitionRole"
  by (simp add: conditionRole_def normalizeCondition_def attributeMetadata_def demoGet_def New_def demoMetadata_def demoAttribute_def EqualFold_def
      lowerByte_def isUpper_def char_eval)

end
