(* ===== verification/UpdateBuilder.thy ===== *)
theory UpdateBuilder
  imports Complex_Main QueryPlan
begin

text \<open>
  \<open>pkg/query/update_builder.go\<close>: the fluent builder of update requests.  The record has the Go struct's fields; the query is
  never nil (every caller of \<open>NewUpdateBuilder\<close> passes one).  \<open>Build\<close> hands out the expression builder's own maps, so the
  placeholders that \<open>Execute\<close> merges into a request stay in the builder: the executing operations return the builder they leave behind.
  \<open>pkg/core/executor_update.go\<close> follows, the executor of update requests over the DynamoDB client.
\<close>

section \<open>Data\<close>

record updateCondition =
  ucField :: string
  ucOperator :: string
  ucValue :: goany
  ucLogicOp :: string

record UpdateBuilder =
  buildErr :: "qerror option"
  ubQuery :: Query
  ubExpr :: Builder
  ubKeyValues :: "(string \<times> goany) list"
  ubReturnValues :: string
  ubConditions :: "updateCondition list"

definition NewUpdateBuilder :: "Query \<Rightarrow> UpdateBuilder" where
  "NewUpdateBuilder q = \<lparr> buildErr = None, ubQuery = q, ubExpr = NewBuilder, ubKeyValues = [], ubReturnValues = ''NONE'', ubConditions = [] \<rparr>"

definition mapFieldToDynamoDBName :: "UpdateBuilder \<Rightarrow> string \<Rightarrow> string" where
  "mapFieldToDynamoDBName ub field =
     (case attributeMetadata (ubQuery ub) field of None \<Rightarrow> field | Some m \<Rightarrow> amDynamoDBName m)"

section \<open>Update clauses\<close>

text \<open>The expression builder's new state is kept in any case, the first error is recorded under the name of the call.\<close>

definition recordUpdate :: "string \<Rightarrow> (berror, unit) result \<times> Builder \<Rightarrow> UpdateBuilder \<Rightarrow> UpdateBuilder" where
  "recordUpdate call p ub =
     (case fst p of
        Inl e \<Rightarrow> ub \<lparr> ubExpr := snd p, buildErr := (if buildErr ub = None then Some (Wrapped call (BuilderFailed e)) else buildErr ub) \<rparr>
      | Inr _ \<Rightarrow> ub \<lparr> ubExpr := snd p \<rparr>)"

definition callName :: "string \<Rightarrow> string \<Rightarrow> string" where
  "callName f field = f @ ''('' @ field @ '')''"

definition ubSet :: "convenv \<Rightarrow> string \<Rightarrow> goany \<Rightarrow> UpdateBuilder \<Rightarrow> UpdateBuilder" where
  "ubSet env field val ub =
     recordUpdate (callName ''Set'' field) (AddUpdateSet env (mapFieldToDynamoDBName ub field) val (ubExpr ub)) ub"

definition SetIfNotExists :: "convenv \<Rightarrow> string \<Rightarrow> goany \<Rightarrow> goany \<Rightarrow> UpdateBuilder \<Rightarrow> UpdateBuilder" where
  "SetIfNotExists env field val defaultValue ub =
     (let db = mapFieldToDynamoDBName ub field in
      recordUpdate (callName ''SetIfNotExists'' field)
        (AddUpdateFunction env db ''if_not_exists'' [Some (TString, VString db), defaultValue] (ubExpr ub)) ub)"

definition ubAdd :: "convenv \<Rightarrow> string \<Rightarrow> goany \<Rightarrow> UpdateBuilder \<Rightarrow> UpdateBuilder" where
  "ubAdd env field val ub =
     recordUpdate (callName ''Add'' field) (AddUpdateAdd env (mapFieldToDynamoDBName ub field) val (ubExpr ub)) ub"

definition Increment :: "convenv \<Rightarrow> string \<Rightarrow> UpdateBuilder \<Rightarrow> UpdateBuilder" where
  "Increment env field ub = ubAdd env field (Some (TInt IntN, VInt 1)) ub"

definition Decrement :: "convenv \<Rightarrow> string \<Rightarrow> UpdateBuilder \<Rightarrow> UpdateBuilder" where
  "Decrement env field ub = ubAdd env field (Some (TInt IntN, VInt (- 1))) ub"

definition ubRemove :: "string \<Rightarrow> UpdateBuilder \<Rightarrow> UpdateBuilder" where
  "ubRemove field ub =
     recordUpdate (callName ''Remove'' field) (AddUpdateRemove (mapFieldToDynamoDBName ub field) (ubExpr ub)) ub"

text \<open>The slice handed to the DELETE action: a single value is wrapped.\<close>

definition setOperand :: "goany \<Rightarrow> goany" where
  "setOperand val =
     (case val of
        None \<Rightarrow> Some (TSlice TAny, VSlice [VIface None])
      | Some (t, v) \<Rightarrow>
          (if t = TString then Some (TSlice TString, VSlice [v])
           else if t = TSlice (TUint Uint8) then Some (TSlice (TSlice (TUint Uint8)), VSlice [v])
           else if kindOf t = KSlice then val
           else Some (TSlice TAny, VSlice [VIface val])))"

definition ubDelete :: "convenv \<Rightarrow> string \<Rightarrow> goany \<Rightarrow> UpdateBuilder \<Rightarrow> UpdateBuilder" where
  "ubDelete env field val ub =
     recordUpdate (callName ''Delete'' field) (AddUpdateDelete env (mapFieldToDynamoDBName ub field) (setOperand val) (ubExpr ub)) ub"

definition AppendToList :: "convenv \<Rightarrow> string \<Rightarrow> goany \<Rightarrow> UpdateBuilder \<Rightarrow> UpdateBuilder" where
  "AppendToList env field vals ub =
     (let db = mapFieldToDynamoDBName ub field in
      recordUpdate (callName ''AppendToList'' field)
        (AddUpdateFunction env db ''list_append'' [Some (TString, VString db), vals] (ubExpr ub)) ub)"

definition PrependToList :: "convenv \<Rightarrow> string \<Rightarrow> goany \<Rightarrow> UpdateBuilder \<Rightarrow> UpdateBuilder" where
  "PrependToList env field vals ub =
     (let db = mapFieldToDynamoDBName ub field in
      recordUpdate (callName ''PrependToList'' field)
        (AddUpdateFunction env db ''list_append'' [vals, Some (TString, VString db)] (ubExpr ub)) ub)"

definition elementPath :: "string \<Rightarrow> int \<Rightarrow> string" where
  "elementPath field i = field @ ''['' @ showInt i @ '']''"

definition RemoveFromListAt :: "string \<Rightarrow> int \<Rightarrow> UpdateBuilder \<Rightarrow> UpdateBuilder" where
  "RemoveFromListAt field i ub =
     recordUpdate (callName ''RemoveFromListAt'' field) (AddUpdateRemove (elementPath (mapFieldToDynamoDBName ub field) i) (ubExpr ub)) ub"

definition SetListElement :: "convenv \<Rightarrow> string \<Rightarrow> int \<Rightarrow> goany \<Rightarrow> UpdateBuilder \<Rightarrow> UpdateBuilder" where
  "SetListElement env field i val ub =
     recordUpdate (callName ''SetListElement'' field)
       (AddUpdateSet env (elementPath (mapFieldToDynamoDBName ub field) i) val (ubExpr ub)) ub"

section \<open>Conditions\<close>

text \<open>\<open>Condition\<close> and \<open>OrCondition\<close> differ in the logical operator they record.\<close>

definition encryptedName :: "UpdateBuilder \<Rightarrow> string \<Rightarrow> string option" where
  "encryptedName ub field =
     (case attributeMetadata (ubQuery ub) field of
        None \<Rightarrow> None
      | Some m \<Rightarrow> (if map_of (amTags m) ''encrypted'' = None then None else Some (if amName m = [] then field else amName m)))"

definition addUpdateCondition :: "string \<Rightarrow> string \<Rightarrow> string \<Rightarrow> goany \<Rightarrow> UpdateBuilder \<Rightarrow> UpdateBuilder" where
  "addUpdateCondition lop field operator val ub =
     (case (buildErr ub, encryptedName ub field) of
        (None, Some name) \<Rightarrow> ub \<lparr> buildErr := Some (EncryptedFieldNotQueryable name) \<rparr>
      | _ \<Rightarrow> ub \<lparr> ubConditions := ubConditions ub @ [\<lparr> ucField = field, ucOperator = operator, ucValue = val, ucLogicOp = lop \<rparr>] \<rparr>)"

definition ubCondition :: "string \<Rightarrow> string \<Rightarrow> goany \<Rightarrow> UpdateBuilder \<Rightarrow> UpdateBuilder" where
  "ubCondition field operator val ub = addUpdateCondition ''AND'' field operator val ub"

definition OrCondition :: "string \<Rightarrow> string \<Rightarrow> goany \<Rightarrow> UpdateBuilder \<Rightarrow> UpdateBuilder" where
  "OrCondition field operator val ub = addUpdateCondition ''OR'' field operator val ub"

definition ConditionExists :: "string \<Rightarrow> UpdateBuilder \<Rightarrow> UpdateBuilder" where
  "ConditionExists field ub = ubCondition field ''attribute_exists'' None ub"

definition ConditionNotExists :: "string \<Rightarrow> UpdateBuilder \<Rightarrow> UpdateBuilder" where
  "ConditionNotExists field ub = ubCondition field ''attribute_not_exists'' None ub"

definition ConditionVersion :: "int \<Rightarrow> UpdateBuilder \<Rightarrow> UpdateBuilder" where
  "ConditionVersion currentVersion ub =
     (let fieldName = (case metadata (ubQuery ub) of
            Some md \<Rightarrow> (if mmVersionFieldName md \<noteq> [] then mmVersionFieldName md else ''Version'')
          | None \<Rightarrow> ''Version'') in
      ubCondition fieldName ''='' (int64Value currentVersion) ub)"

definition ReturnValues :: "string \<Rightarrow> UpdateBuilder \<Rightarrow> UpdateBuilder" where
  "ReturnValues opt ub = ub \<lparr> ubReturnValues := opt \<rparr>"

section \<open>The key of the item\<close>

definition resolveAttr :: "Query \<Rightarrow> string \<Rightarrow> string" where
  "resolveAttr q field =
     (if field = [] then field
      else case attributeMetadata q field of
        None \<Rightarrow> field
      | Some m \<Rightarrow> (if amDynamoDBName m \<noteq> [] then amDynamoDBName m else field))"

definition requireKeys :: "CoreKeySchema \<Rightarrow> string \<Rightarrow> string \<Rightarrow> (string \<times> goany) list \<Rightarrow> (qerror, unit) result" where
  "requireKeys schema pkName skName kv =
     (if map_of kv pkName = None then Inl (QueryError (''partition key '' @ ksPartitionKey schema @ '' is required for update''))
      else if ksSortKey schema \<noteq> [] \<and> map_of kv skName = None
        then Inl (QueryError (''sort key '' @ ksSortKey schema @ '' is required for update''))
      else Inr ())"

text \<open>The loop over the query's conditions, with the values found so far.\<close>

fun keysFromConditions :: "Query \<Rightarrow> CoreKeySchema \<Rightarrow> Condition list \<Rightarrow> (string \<times> goany) list \<Rightarrow> (qerror, unit) result \<times> (string \<times> goany) list" where
  "keysFromConditions q schema [] kv = (Inr (), kv)"
| "keysFromConditions q schema (cond # cs) kv =
     (let condAttr = resolveAttr q (condField cond) in
      if condAttr = resolveAttr q (ksPartitionKey schema) \<or> (ksSortKey schema \<noteq> [] \<and> condAttr = resolveAttr q (ksSortKey schema)) then
        (if condOperator cond \<noteq> ''='' then (Inl (QueryError ''key condition must use '=' operator''), kv)
         else keysFromConditions q schema cs (AList.update condAttr (condValue cond) kv))
      else keysFromConditions q schema cs kv)"

definition populateKeyValues :: "UpdateBuilder \<Rightarrow> (qerror, unit) result \<times> UpdateBuilder" where
  "populateKeyValues ub =
     (let q = ubQuery ub in
      case metadata q of
        None \<Rightarrow> (Inl (QueryError ''query metadata is nil''), ub)
      | Some md \<Rightarrow>
          (let schema = mmPrimaryKey md; pk = resolveAttr q (ksPartitionKey schema); sk = resolveAttr q (ksSortKey schema) in
           if ubKeyValues ub \<noteq> [] then
             (let kv = fold (\<lambda>(field, val). AList.update (resolveAttr q field) val) (ubKeyValues ub) [] in
              (requireKeys schema pk sk kv, ub \<lparr> ubKeyValues := kv \<rparr>))
           else
             (case keysFromConditions q schema (qconditions q) [] of
                (Inl e, kv) \<Rightarrow> (Inl e, ub \<lparr> ubKeyValues := kv \<rparr>)
              | (Inr _, kv) \<Rightarrow> (requireKeys schema pk sk kv, ub \<lparr> ubKeyValues := kv \<rparr>))))"

section \<open>Executing the update\<close>

fun addUpdateConditions :: "convenv \<Rightarrow> UpdateBuilder \<Rightarrow> (updateCondition \<Rightarrow> string) \<Rightarrow> updateCondition list \<Rightarrow> Builder \<Rightarrow> (qerror, unit) result \<times> Builder" where
  "addUpdateConditions env ub lop [] b = (Inr (), b)"
| "addUpdateConditions env ub lop (c # cs) b =
     (case AddConditionExpressionWithOp env (lop c) (mapFieldToDynamoDBName ub (ucField c)) (ucOperator c) (ucValue c) b of
        (Inl e, b') \<Rightarrow> (Inl (Wrapped ''failed to add condition'' (BuilderFailed e)), b')
      | (Inr _, b') \<Rightarrow> addUpdateConditions env ub lop cs b')"

definition bothConditions :: "string \<Rightarrow> string \<Rightarrow> string" where
  "bothConditions updateCond queryCond =
     (if updateCond \<noteq> [] \<and> queryCond \<noteq> [] then ''('' @ updateCond @ '') AND ('' @ queryCond @ '')''
      else if updateCond \<noteq> [] then updateCond
      else queryCond)"

definition mergeMap :: "('k \<times> 'v) list \<Rightarrow> ('k \<times> 'v) list \<Rightarrow> ('k \<times> 'v) list" where
  "mergeMap new m = fold (\<lambda>(k, v). AList.update k v) new m"

text \<open>From the expression builder with the conditions added to the request; the merged maps are the builder's own.\<close>

definition compileUpdate :: "convenv \<Rightarrow> UpdateBuilder \<Rightarrow> ModelMetadata \<Rightarrow> (qerror, CompiledQuery) result \<times> UpdateBuilder" where
  "compileUpdate env ub md =
     (let b = ubExpr ub in
      case Build b of
        None \<Rightarrow> (Inl QueryPanic, ub)
      | Some components \<Rightarrow>
          (case buildConditionExpression env (ubQuery ub) (ResetConditions (Clone (Some b))) False False False of
             Inl e \<Rightarrow> (Inl (Wrapped ''failed to build query conditions'' e), ub)
           | Inr (_, queryCond, queryNms, queryVals) \<Rightarrow>
               (let nms = mergeMap queryNms (ExpressionAttributeNames components);
                    vals = mergeMap queryVals (ExpressionAttributeValues components) in
                (Inr (emptyCompiled \<lparr> cqOperation := ''UpdateItem'', cqTableName := mmTableName md,
                        cqUpdateExpression := UpdateExpression components,
                        cqConditionExpression := bothConditions (ConditionExpression components) queryCond,
                        cqExpressionAttributeNames := nms, cqExpressionAttributeValues := vals, cqReturnValues := ubReturnValues ub \<rparr>),
                 ub \<lparr> ubExpr := b \<lparr> names := nms, bvalues := vals \<rparr> \<rparr>))))"

definition keyAttributeValues :: "convenv \<Rightarrow> (string \<times> goany) list \<Rightarrow> (qerror, item) result" where
  "keyAttributeValues env kv =
     mapVals (\<lambda>v. mapErr (\<lambda>e. Wrapped ''failed to convert key value'' (ConversionFailed e)) (ConvertToAttributeValue env v)) kv"

text \<open>The request and the key of the item; \<open>lop\<close> is the logical operator used for a condition.\<close>

definition prepareUpdate :: "convenv \<Rightarrow> (updateCondition \<Rightarrow> string) \<Rightarrow> UpdateBuilder \<Rightarrow> (qerror, CompiledQuery \<times> item) result \<times> UpdateBuilder" where
  "prepareUpdate env lop ub =
     (case populateKeyValues ub of
        (Inl e, ub1) \<Rightarrow> (Inl e, ub1)
      | (Inr _, ub1) \<Rightarrow>
          (case addUpdateConditions env ub1 lop (ubConditions ub1) (ubExpr ub1) of
             (Inl e, b) \<Rightarrow> (Inl e, ub1 \<lparr> ubExpr := b \<rparr>)
           | (Inr _, b) \<Rightarrow>
               (case metadata (ubQuery ub1) of
                  None \<Rightarrow> (Inl QueryPanic, ub1)
                | Some md \<Rightarrow>
                    (case compileUpdate env (ub1 \<lparr> ubExpr := b \<rparr>) md of
                       (Inl e, ub2) \<Rightarrow> (Inl e, ub2)
                     | (Inr c, ub2) \<Rightarrow> (bindE (keyAttributeValues env (ubKeyValues ub2)) (\<lambda>key. Inr (c, key)), ub2)))))"

definition noUpdateItem :: qerror where
  "noUpdateItem = QueryError ''executor does not support UpdateItem operation''"

definition Execute :: "convenv \<Rightarrow> ('w, 'z) Executor_scheme \<Rightarrow> UpdateBuilder \<Rightarrow> 'w \<Rightarrow> (qerror, unit) result \<times> UpdateBuilder \<times> 'w" where
  "Execute env ex ub w =
     (case buildErr ub of
        Some e \<Rightarrow> (Inl e, ub, w)
      | None \<Rightarrow>
          (case prepareUpdate env (\<lambda>_. ''AND'') ub of
             (Inl e, ub') \<Rightarrow> (Inl e, ub', w)
           | (Inr (c, key), ub') \<Rightarrow>
               (case exUpdateItem ex of
                  None \<Rightarrow> (Inl noUpdateItem, ub', w)
                | Some upd \<Rightarrow> (case upd c key w of (r, w') \<Rightarrow> (r, ub', w')))))"

record 'w ResultExecutor = "'w Executor" +
  exUpdateItemWithResult :: "(CompiledQuery \<Rightarrow> item \<Rightarrow> 'w \<Rightarrow> (qerror, item option) result \<times> 'w) option"

text \<open>The attributes under their own names and under the names of the Go fields.\<close>

definition normalizeAttributes :: "Query \<Rightarrow> item \<Rightarrow> item" where
  "normalizeAttributes q attrs =
     fold (\<lambda>(name, av) m.
        let m1 = AList.update name av m in
        case attributeMetadata q name of
          None \<Rightarrow> m1
        | Some am \<Rightarrow> (if amName am = [] then m1 else AList.update (amName am) av m1)) attrs []"

text \<open>The value of the result after the call: \<open>None\<close> leaves it as it was.\<close>

definition resultPointer :: "goany \<Rightarrow> bool" where
  "resultPointer res = (case res of Some (t, VPtr (Some _)) \<Rightarrow> kindOf t = KPointer | _ \<Rightarrow> False)"

definition unmarshalAttributes :: "convenv \<Rightarrow> Query \<Rightarrow> item option \<Rightarrow> goany \<Rightarrow> (qerror, gval option) result" where
  "unmarshalAttributes env q attrs res =
     (case attrs of
        Some (a # as) \<Rightarrow>
          (case ConvertFromAttributeValue env (AVM (normalizeAttributes q (a # as))) res of
             Inl e \<Rightarrow> Inl (ConversionFailed e)
           | Inr v \<Rightarrow> Inr (Some v))
      | _ \<Rightarrow> Inr None)"

definition ExecuteWithResult ::
  "convenv \<Rightarrow> ('w, 'z) ResultExecutor_scheme \<Rightarrow> UpdateBuilder \<Rightarrow> goany \<Rightarrow> 'w \<Rightarrow> (qerror, gval option) result \<times> UpdateBuilder \<times> 'w" where
  "ExecuteWithResult env ex ub res w =
     (case buildErr ub of
        Some e \<Rightarrow> (Inl e, ub, w)
      | None \<Rightarrow>
          (if \<not> resultPointer res then (Inl (QueryError ''result must be a non-nil pointer''), ub, w)
           else
             let ub0 = (if ubReturnValues ub = ''NONE'' then ub \<lparr> ubReturnValues := ''ALL_NEW'' \<rparr> else ub) in
             case prepareUpdate env ucLogicOp ub0 of
               (Inl e, ub') \<Rightarrow> (Inl e, ub', w)
             | (Inr (c, key), ub') \<Rightarrow>
                 (case exUpdateItemWithResult ex of
                    Some updr \<Rightarrow>
                      (case updr c key w of
                         (Inl e, w') \<Rightarrow> (Inl e, ub', w')
                       | (Inr attrs, w') \<Rightarrow> (unmarshalAttributes env (ubQuery ub') attrs res, ub', w'))
                  | None \<Rightarrow>
                      (case exUpdateItem ex of
                         None \<Rightarrow> (Inl noUpdateItem, ub', w)
                       | Some upd \<Rightarrow> (case upd c key w of (Inl e, w') \<Rightarrow> (Inl e, ub', w') | (Inr _, w') \<Rightarrow> (Inr None, ub', w'))))))"

section \<open>The executor of update requests\<close>

record UpdateItemInput =
  uiTableName :: string
  uiKey :: item
  uiUpdateExpression :: "string option"
  uiConditionExpression :: "string option"
  uiNames :: "(string \<times> string) list"
  uiValues :: item
  uiReturnValues :: string

record ConsumedCapacity =
  ccTableName :: string
  ccCapacityUnits :: rat
  ccReadCapacityUnits :: rat
  ccWriteCapacityUnits :: rat

text \<open>\<open>dynamodb.UpdateItemOutput\<close>: the attributes and the optional capacity report with its optional parts.\<close>

record UpdateItemOutput =
  uoAttributes :: item
  uoConsumed :: "(string option \<times> rat option \<times> rat option \<times> rat option) option"

record UpdateResult =
  urAttributes :: item
  urConsumed :: "ConsumedCapacity option"

definition nonEmpty :: "string \<Rightarrow> string option" where
  "nonEmpty s = (if s = [] then None else Some s)"

definition updateItemInput :: "string \<Rightarrow> CompiledQuery option \<Rightarrow> item \<Rightarrow> (qerror, UpdateItemInput) result" where
  "updateItemInput defaultReturn input key =
     (case input of
        None \<Rightarrow> Inl (QueryError ''compiled query cannot be nil'')
      | Some c \<Rightarrow>
          (if key = [] then Inl (QueryError ''key cannot be empty'')
           else Inr \<lparr> uiTableName = cqTableName c, uiKey = key, uiUpdateExpression = nonEmpty (cqUpdateExpression c),
                      uiConditionExpression = nonEmpty (cqConditionExpression c), uiNames = cqExpressionAttributeNames c,
                      uiValues = cqExpressionAttributeValues c,
                      uiReturnValues = (if cqReturnValues c \<noteq> [] then cqReturnValues c else defaultReturn) \<rparr>))"

definition failedUpdate :: "string \<Rightarrow> qerror" where
  "failedUpdate e = Wrapped ''failed to update item'' (CustomFailed e)"

definition ExecuteUpdateItem ::
  "(UpdateItemInput \<Rightarrow> 'w \<Rightarrow> (string, UpdateItemOutput) result \<times> 'w) \<Rightarrow> CompiledQuery option \<Rightarrow> item \<Rightarrow> 'w \<Rightarrow> (qerror, unit) result \<times> 'w" where
  "ExecuteUpdateItem client input key w =
     (case updateItemInput ''NONE'' input key of
        Inl e \<Rightarrow> (Inl e, w)
      | Inr ui \<Rightarrow> (case client ui w of (Inl e, w') \<Rightarrow> (Inl (failedUpdate e), w') | (Inr _, w') \<Rightarrow> (Inr (), w')))"

definition consumedCapacity :: "string option \<times> rat option \<times> rat option \<times> rat option \<Rightarrow> ConsumedCapacity" where
  "consumedCapacity = (\<lambda>(tn, cu, rd, wr).
     \<lparr> ccTableName = (case tn of None \<Rightarrow> [] | Some t \<Rightarrow> t), ccCapacityUnits = (case cu of None \<Rightarrow> 0 | Some r \<Rightarrow> r),
       ccReadCapacityUnits = (case rd of None \<Rightarrow> 0 | Some r \<Rightarrow> r), ccWriteCapacityUnits = (case wr of None \<Rightarrow> 0 | Some r \<Rightarrow> r) \<rparr>)"

definition ExecuteUpdateItemWithResult ::
  "(UpdateItemInput \<Rightarrow> 'w \<Rightarrow> (string, UpdateItemOutput) result \<times> 'w) \<Rightarrow> CompiledQuery option \<Rightarrow> item \<Rightarrow> 'w \<Rightarrow> (qerror, UpdateResult) result \<times> 'w" where
  "ExecuteUpdateItemWithResult client input key w =
     (case updateItemInput ''ALL_NEW'' input key of
        Inl e \<Rightarrow> (Inl e, w)
      | Inr ui \<Rightarrow>
          (case client ui w of
             (Inl e, w') \<Rightarrow> (Inl (failedUpdate e), w')
           | (Inr out, w') \<Rightarrow>
               (Inr \<lparr> urAttributes = uoAttributes out, urConsumed = map_option consumedCapacity (uoConsumed out) \<rparr>, w')))"

section \<open>What an update request means\<close>

definition asCondition :: "UpdateBuilder \<Rightarrow> updateCondition \<Rightarrow> Condition" where
  "asCondition ub c = \<lparr> condField = mapFieldToDynamoDBName ub (ucField c), condOperator = ucOperator c, condValue = ucValue c \<rparr>"

definition addLogic :: "convenv \<Rightarrow> string \<Rightarrow> Condition \<Rightarrow> Builder \<Rightarrow> (qerror, Builder) result" where
  "addLogic env lop c b = mapErr BuilderFailed (okState (AddConditionExpressionWithOp env lop (condField c) (condOperator c) (condValue c) b))"

lemma addLogic_Inr:
  "addLogic env lop c b = Inr b' \<longleftrightarrow> (\<exists>t b1. buildCondition env (condField c) (condOperator c) (condValue c) b = (Inr t, b1)
     \<and> b' = (let b2 = b1 \<lparr> conditions := conditions b1 @ [t] \<rparr> in
             if length (conditions b2) > 1 then b2 \<lparr> conditionOperators := conditionOperators b2 @ [lop] \<rparr> else b2))"
  by (auto simp: addLogic_def okState_def AddConditionExpressionWithOp_def Let_def split: prod.splits sum.splits)

interpretation logic: recorder "addLogic env lop" conditions conditionFrame env for env lop
proof
  fix c b b' V
  assume "addLogic env lop c b = Inr b'" and vc: "vocab V b" "caseSafe V" "set (parts (condField c)) \<subseteq> V"
  then obtain t b1 where b1: "buildCondition env (condField c) (condOperator c) (condValue c) b = (Inr t, b1)"
    "b' = (let b2 = b1 \<lparr> conditions := conditions b1 @ [t] \<rparr> in
             if length (conditions b2) > 1 then b2 \<lparr> conditionOperators := conditionOperators b2 @ [lop] \<rparr> else b2)"
    by (auto simp: addLogic_Inr)
  then show "vocab V b' \<and> keeps b b' \<and> conditionFrame b' = conditionFrame b
      \<and> (\<exists>t. conditions b' = conditions b @ [t] \<and> denotes env (converter b) (names b') (bvalues b') c t)"
    using buildCondition_denotes[OF vc b1(1)]
    by (auto simp: keeps_def conditionFrame_def sameExprs_alt Let_def vocab_def namesInv_def valuesInv_def countInv_def)
qed

lemma addLogic_operators:
  assumes "addLogic env lop c b = Inr b'"
  shows "conditionOperators b' = conditionOperators b @ (if conditions b = [] then [] else [lop])"
  using assms by (auto simp: addLogic_Inr sameExprs_alt Let_def dest!: buildCondition_frame)

lemma addUpdateConditions_Cons:
  "addUpdateConditions env ub lop (c # cs) b = (Inr (), b') \<longleftrightarrow>
     (\<exists>b1. addLogic env (lop c) (asCondition ub c) b = Inr b1 \<and> addUpdateConditions env ub lop cs b1 = (Inr (), b'))"
  by (auto simp: addLogic_def asCondition_def okState_def split: prod.splits sum.splits)

lemma addUpdateConditions_run:
  assumes "addUpdateConditions env ub lop cs b = (Inr (), b')" "vocab V b" "caseSafe V"
    "\<forall>c \<in> set cs. set (parts (mapFieldToDynamoDBName ub (ucField c))) \<subseteq> V"
  shows "vocab V b' \<and> keeps b b' \<and> conditionFrame b' = conditionFrame b
    \<and> conditionOperators b' = conditionOperators b @ (if conditions b = [] then tl (map lop cs) else map lop cs)
    \<and> (\<exists>ts. conditions b' = conditions b @ ts \<and> list_all2 (denotes env (converter b) (names b') (bvalues b')) (map (asCondition ub) cs) ts)"
  using assms
proof (induction cs arbitrary: b)
  case (Cons c cs)
  then obtain b1 where b1: "addLogic env (lop c) (asCondition ub c) b = Inr b1" "addUpdateConditions env ub lop cs b1 = (Inr (), b')"
    by (auto simp: addUpdateConditions_Cons simp del: addUpdateConditions.simps)
  have "set (parts (condField (asCondition ub c))) \<subseteq> V" using Cons.prems(4) by (simp add: asCondition_def)
  from logic.records[OF b1(1) Cons.prems(2,3) this] obtain t where
    t: "vocab V b1" "keeps b b1" "conditionFrame b1 = conditionFrame b" "conditions b1 = conditions b @ [t]"
      "denotes env (converter b) (names b1) (bvalues b1) (asCondition ub c) t" by blast
  from Cons.IH[OF b1(2) t(1) Cons.prems(3)] Cons.prems(4) obtain ts where
    ts: "vocab V b'" "keeps b1 b'" "conditionFrame b' = conditionFrame b1" "conditions b' = conditions b1 @ ts"
      "conditionOperators b' = conditionOperators b1 @ (if conditions b1 = [] then tl (map lop cs) else map lop cs)"
      "list_all2 (denotes env (converter b1) (names b') (bvalues b')) (map (asCondition ub) cs) ts" by auto
  have "converter b1 = converter b" using t(2) by (simp add: keeps_def)
  then have "list_all2 (denotes env (converter b) (names b') (bvalues b')) (map (asCondition ub) (c # cs)) (t # ts)"
    using ts(6) keeps_denotes[OF t(5) ts(2)] by simp
  then show ?case using t ts addLogic_operators[OF b1(1)] keeps_trans[OF t(2) ts(2)]
    by (intro conjI exI[of _ "t # ts"]) auto
qed simp

lemma map_of_mergeMap: "distinct (map fst new) \<Longrightarrow> map_of (mergeMap new m) = map_of m ++ map_of new"
proof (induction new arbitrary: m)
  case (Cons e new)
  have "map_of (mergeMap new (AList.update (fst e) (snd e) m)) = (map_of m)(fst e \<mapsto> snd e) ++ map_of new"
    using Cons by (simp add: update_conv')
  also have "\<dots> = map_of m ++ map_of (e # new)"
    using Cons.prems by (auto simp: fun_eq_iff map_add_def map_of_eq_None_iff[symmetric] split: option.splits)
  finally show ?case unfolding mergeMap_def by (simp add: case_prod_beta del: map_of.simps)
qed (simp add: mergeMap_def)

lemma mergeMap_extends: "distinct (map fst new) \<Longrightarrow> map_of m \<subseteq>\<^sub>m map_of new \<Longrightarrow> map_of (mergeMap new m) = map_of new"
  by (auto simp: map_of_mergeMap map_add_def map_le_def fun_eq_iff dom_def split: option.splits)

lemma writeConditions_run:
  assumes "buildConditionExpression env q b False skip False = Inr (b', expr, nms, vals)" "vocab V b" "andJoined b" "conditions b = []" "caseSafe V"
    "\<forall>c \<in> set (writeConditions q). set (parts (condField c)) \<subseteq> V" "rawConditionExpressions q = []"
  shows "vocab V b' \<and> keeps b b' \<and> nms = names b' \<and> vals = bvalues b'
    \<and> (\<exists>ts. expr = Join ts '' AND '' \<and> list_all2 (denotes env (converter b) nms vals) (writeConditions q) ts)"
proof -
  obtain b1 where w: "foldE (addWriteCondition env q) (writeConditions q) b = Inr b1"
    and fin: "b' = b1" "\<exists>comps. Build b1 = Some comps \<and> expr = ConditionExpression comps \<and> nms = ExpressionAttributeNames comps \<and> vals = ExpressionAttributeValues comps"
    using assms(1,7) by (auto simp: buildConditionExpression_def addWriteConditions_def mergeConditionExpressions_def bindE_eq_Inr split: option.splits)
  have step: "addWriteCondition env q c s = Inr s' \<Longrightarrow> addConditionOf env c s = Inr s'" for c s s'
    by (auto simp: addWriteCondition_def bindE_eq_Inr split: if_splits)
  have run: "foldE (addWriteCondition env q) cs s = Inr s' \<Longrightarrow> foldE (addConditionOf env) cs s = Inr s'" for cs s s'
    by (induction cs arbitrary: s) (auto split: sum.splits dest: step)
  from writes.run[OF run[OF w] assms(2,5,6)] assms(4) obtain ts where
    ts: "vocab V b1" "keeps b b1" "conditions b1 = ts" "list_all2 (denotes env (converter b) (names b1) (bvalues b1)) (writeConditions q) ts" by auto
  have "guarded env V (converter b) None b1"
  proof (rule foldE_inv[OF w, of "guarded env V (converter b) None"])
    show "guarded env V (converter b) None b" using assms(2,3) by (simp add: guarded_def)
    fix c s s' assume "c \<in> set (writeConditions q)" "guarded env V (converter b) None s" "addWriteCondition env q c s = Inr s'"
    then show "guarded env V (converter b) None s'" using guarded_condition(1)[OF _ assms(5)] assms(6) step by blast
  qed
  then have "andJoined b1" by (simp add: guarded_def)
  then have "expr = Join ts '' AND ''" "nms = names b1" "vals = bvalues b1"
    using fin(2) ts(3) by (auto simp: Build_def andJoined_def joinWithOpsAnd_all[symmetric] simp del: joinWithOpsAnd.simps split: option.splits)
  then show ?thesis using ts fin(1) by blast
qed

lemma populate_keeps:
  "populateKeyValues ub = (r, ub1) \<Longrightarrow> ubExpr ub1 = ubExpr ub \<and> ubQuery ub1 = ubQuery ub \<and> ubConditions ub1 = ubConditions ub \<and> ubReturnValues ub1 = ubReturnValues ub"
  by (auto simp: populateKeyValues_def Let_def split: option.splits if_splits prod.splits sum.splits)

text \<open>The attribute names the conditions of an update can mention.\<close>

definition conditionNames :: "UpdateBuilder \<Rightarrow> string set" where
  "conditionNames ub = (\<Union>c \<in> set (ubConditions ub). set (parts (mapFieldToDynamoDBName ub (ucField c))))
     \<union> (\<Union>c \<in> set (writeConditions (ubQuery ub)). set (parts (condField c)))"


section \<open>Examples\<close>

definition demoOwner :: Query where
  "demoOwner = Where ''ID'' ''='' (Some (TString, VString ''u1'')) (New None (Some demoMetadata) None)"

text \<open>Count up the age of those below 18 or above 60.\<close>

definition demoOr :: "Query \<Rightarrow> UpdateBuilder" where
  "demoOr q = OrCondition ''Age'' ''>'' (Some (TInt IntN, VInt 60)) (ubCondition ''Age'' ''<'' (Some (TInt IntN, VInt 18))
     (Increment plainEnv ''Age'' (NewUpdateBuilder q)))"

definition demoAdd :: Builder where
  "demoAdd = NewBuilder \<lparr> names := [(''#n1'', ''age'')], nameCounter := 1, bvalues := [('':v1'', AVN ''1'')], valueCounter := 1,
     updateExpressions := [(''ADD'', [''#n1 :v1''])] \<rparr>"

definition demoBoth :: "string \<Rightarrow> Builder" where
  "demoBoth lop = demoAdd \<lparr> bvalues := [('':v1'', AVN ''1''), ('':v2'', AVN ''18''), ('':v3'', AVN ''60'')], valueCounter := 3,
     conditions := [''#n1 < :v2'', ''#n1 > :v3''], conditionOperators := [lop] \<rparr>"

definition demoYoung :: updateCondition where
  "demoYoung = \<lparr> ucField = ''Age'', ucOperator = ''<'', ucValue = Some (TInt IntN, VInt 18), ucLogicOp = ''AND'' \<rparr>"

definition demoOld :: updateCondition where
  "demoOld = \<lparr> ucField = ''Age'', ucOperator = ''>'', ucValue = Some (TInt IntN, VInt 60), ucLogicOp = ''OR'' \<rparr>"

text \<open>The queries the examples use: \<open>demoOwner\<close>, whatever error it has recorded.\<close>

definition demoLike :: "Query \<Rightarrow> bool" where
  "demoLike q = (\<exists>e. q = demoOwner \<lparr> builderErr := e \<rparr>)"

lemma demoOwner_eq:
  "demoOwner = (New None (Some demoMetadata) None) \<lparr> qconditions := [\<lparr> condField = ''ID'', condOperator = ''='', condValue = Some (TString, VString ''u1'') \<rparr>] \<rparr>"
  by (simp add: demoOwner_def Where_def rejectEncryptedConditionField_def attributeMetadata_def demoMetadata_def demoAttribute_def New_def)

lemma demoLike_facts:
  assumes "demoLike q"
  shows "attributeMetadata q ''Age'' = Some \<lparr> amTags = [], amName = ''Age'', amDynamoDBName = ''age'' \<rparr>"
    "attributeMetadata q ''ID'' = Some \<lparr> amTags = [(''pk'', ''true'')], amName = ''ID'', amDynamoDBName = ''id'' \<rparr>"
    "metadata q = Some demoMetadata" "writeConditions q = []" "rawConditionExpressions q = []"
    "qconditions q = [\<lparr> condField = ''ID'', condOperator = ''='', condValue = Some (TString, VString ''u1'') \<rparr>]"
  using assms by (auto simp: demoLike_def demoOwner_eq New_def attributeMetadata_def demoMetadata_def demoAttribute_def)

lemma demo_increment:
  assumes "demoLike q"
  shows "Increment plainEnv ''Age'' (NewUpdateBuilder q) = (NewUpdateBuilder q) \<lparr> ubExpr := demoAdd \<rparr>"
proof -
  have "AddUpdateAdd plainEnv ''age'' (Some (TInt IntN, VInt 1)) NewBuilder = (Inr (), demoAdd)"
    by (simp add: AddUpdateAdd_def builder_eval demoAdd_def pushUpdate_def)
  then show ?thesis by (simp add: Increment_def ubAdd_def NewUpdateBuilder_def mapFieldToDynamoDBName_def recordUpdate_def demoLike_facts[OF assms])
qed

lemma demoOr_eq:
  assumes "demoLike q"
  shows "demoOr q = (NewUpdateBuilder q) \<lparr> ubExpr := demoAdd, ubConditions := [demoYoung, demoOld] \<rparr>"
  unfolding demoOr_def demo_increment[OF assms]
  by (simp add: OrCondition_def ubCondition_def addUpdateCondition_def NewUpdateBuilder_def encryptedName_def demoYoung_def demoOld_def demoLike_facts[OF assms])

lemma demoOr_keys:
  assumes "demoLike q"
  shows "populateKeyValues (demoOr q) = (Inr (), demoOr q \<lparr> ubKeyValues := [(''id'', Some (TString, VString ''u1''))] \<rparr>)"
proof -
  have pk: "mmPrimaryKey demoMetadata = \<lparr> ksPartitionKey = ''ID'', ksSortKey = [] \<rparr>" by (simp add: demoMetadata_def)
  show ?thesis by (simp add: populateKeyValues_def demoOr_eq[OF assms] NewUpdateBuilder_def pk resolveAttr_def requireKeys_def demoLike_facts[OF assms] Let_def)
qed

lemma demoOr_conditions:
  assumes "demoLike q" "ubQuery ub = q"
  shows "addUpdateConditions plainEnv ub lop [demoYoung, demoOld] demoAdd = (Inr (), demoBoth (lop demoOld))"
proof -
  let ?b = "demoAdd \<lparr> bvalues := [('':v1'', AVN ''1''), ('':v2'', AVN ''18'')], valueCounter := 2, conditions := [''#n1 < :v2''] \<rparr>"
  have "AddConditionExpressionWithOp plainEnv l ''age'' ''<'' (Some (TInt IntN, VInt 18)) demoAdd = (Inr (), ?b)" for l
    by (simp add: AddConditionExpressionWithOp_def demoAdd_def builder_eval)
  moreover have "AddConditionExpressionWithOp plainEnv l ''age'' ''>'' (Some (TInt IntN, VInt 60)) ?b = (Inr (), demoBoth l)" for l
    by (simp add: AddConditionExpressionWithOp_def demoAdd_def demoBoth_def builder_eval)
  moreover have "ucField demoYoung = ''Age''" "ucOperator demoYoung = ''<''" "ucValue demoYoung = Some (TInt IntN, VInt 18)"
    "ucField demoOld = ''Age''" "ucOperator demoOld = ''>''" "ucValue demoOld = Some (TInt IntN, VInt 60)"
    by (simp_all add: demoYoung_def demoOld_def)
  moreover have "mapFieldToDynamoDBName ub ''Age'' = ''age''" using assms by (simp add: mapFieldToDynamoDBName_def demoLike_facts)
  ultimately show ?thesis by simp
qed

definition demoUpdateRequest :: "string \<Rightarrow> CompiledQuery" where
  "demoUpdateRequest l = emptyCompiled \<lparr> cqOperation := ''UpdateItem'', cqTableName := ''users'', cqUpdateExpression := ''ADD #n1 :v1'',
     cqConditionExpression := ''#n1 < :v2 '' @ l @ '' #n1 > :v3'', cqExpressionAttributeNames := [(''#n1'', ''age'')],
     cqExpressionAttributeValues := [('':v1'', AVN ''1''), ('':v2'', AVN ''18''), ('':v3'', AVN ''60'')], cqReturnValues := ''NONE'' \<rparr>"

lemma demoOr_request:
  assumes "demoLike q"
  shows "\<exists>ub'. prepareUpdate plainEnv lop (demoOr q) = (Inr (demoUpdateRequest (lop demoOld), [(''id'', AVS ''u1'')]), ub')"
proof -
  let ?kv = "[(''id'', Some (TString, VString ''u1''))]"
  let ?ub = "demoOr q \<lparr> ubKeyValues := ?kv \<rparr>"
  have f: "ubQuery (demoOr q) = q" "ubExpr (demoOr q) = demoAdd" "ubReturnValues (demoOr q) = ''NONE''" "ubConditions (demoOr q) = [demoYoung, demoOld]"
    by (simp_all add: demoOr_eq[OF assms] NewUpdateBuilder_def)
  have bd: "Build (demoBoth l) = Some \<lparr> ExpressionAttributeNames = [(''#n1'', ''age'')],
      ExpressionAttributeValues = [('':v1'', AVN ''1''), ('':v2'', AVN ''18''), ('':v3'', AVN ''60'')], KeyConditionExpression = [], FilterExpression = [],
      ProjectionExpression = [], UpdateExpression = ''ADD #n1 :v1'', ConditionExpression = ''#n1 < :v2 '' @ l @ '' #n1 > :v3'' \<rparr>" for l
    by (simp add: Build_def demoBoth_def demoAdd_def NewBuilder_def updateParts_def)
  have rst: "buildConditionExpression plainEnv q (ResetConditions (Clone (Some (demoBoth l)))) False False False =
      Inr (ResetConditions (demoBoth l), [], [(''#n1'', ''age'')], [('':v1'', AVN ''1''), ('':v2'', AVN ''18''), ('':v3'', AVN ''60'')])" for l
    by (simp add: buildConditionExpression_def addWriteConditions_def mergeConditionExpressions_def Build_def ResetConditions_def Clone_def demoBoth_def demoAdd_def
        NewBuilder_def demoLike_facts[OF assms])
  have tn: "mmTableName demoMetadata = ''users''" by (simp add: demoMetadata_def)
  have "\<exists>ub'. compileUpdate plainEnv (?ub \<lparr> ubExpr := demoBoth l \<rparr>) demoMetadata = (Inr (demoUpdateRequest l), ub') \<and> ubKeyValues ub' = ?kv" for l
    by (simp add: compileUpdate_def bd rst f tn bothConditions_def mergeMap_def demoUpdateRequest_def Let_def)
  then obtain ub' where cu: "compileUpdate plainEnv (?ub \<lparr> ubExpr := demoBoth (lop demoOld) \<rparr>) demoMetadata = (Inr (demoUpdateRequest (lop demoOld)), ub')" "ubKeyValues ub' = ?kv"
    by blast
  have "keyAttributeValues plainEnv ?kv = Inr [(''id'', AVS ''u1'')]"
    by (simp add: keyAttributeValues_def ConvertToAttributeValue_def plainEnv_def withMarshaler_def)
  then show ?thesis using demoOr_conditions[OF assms, of ?ub lop]
    by (simp add: prepareUpdate_def demoOr_keys[OF assms] f demoLike_facts(3)[OF assms] cu)
qed

lemma demoLike_owner [simp]: "demoLike demoOwner"
  unfolding demoLike_def by (rule exI[of _ None]) (simp add: demoOwner_eq New_def)

text \<open>\<open>Execute\<close> joins every condition by \<open>AND\<close>, also one given by \<open>OrCondition\<close>; \<open>ExecuteWithResult\<close> uses the operator the caller chose.\<close>

lemma or_condition_becomes_and:
  "\<exists>c key ub c' ub'. prepareUpdate plainEnv (\<lambda>_. ''AND'') (demoOr demoOwner) = (Inr (c, key), ub) \<and> cqConditionExpression c = ''#n1 < :v2 AND #n1 > :v3''
     \<and> prepareUpdate plainEnv ucLogicOp (demoOr demoOwner) = (Inr (c', key), ub') \<and> cqConditionExpression c' = ''#n1 < :v2 OR #n1 > :v3''"
proof -
  obtain ub ub' where "prepareUpdate plainEnv (\<lambda>_. ''AND'') (demoOr demoOwner) = (Inr (demoUpdateRequest ''AND'', [(''id'', AVS ''u1'')]), ub)"
    "prepareUpdate plainEnv ucLogicOp (demoOr demoOwner) = (Inr (demoUpdateRequest (ucLogicOp demoOld), [(''id'', AVS ''u1'')]), ub')"
    using demoOr_request[OF demoLike_owner, of "\<lambda>_. ''AND''"] demoOr_request[OF demoLike_owner, of ucLogicOp] by blast
  then show ?thesis by (simp add: demoUpdateRequest_def demoOld_def)
qed

text \<open>The builder error of the query is never looked at: a write condition on an encrypted field is refused by the
  query, and the update is sent without it.\<close>

lemma dropped_condition_still_updates:
  assumes "q = WithCondition ''Ssn'' ''='' (Some (TString, VString ''1'')) demoOwner"
  shows "builderErr q = Some (EncryptedFieldNotQueryable ''Ssn'')"
    "\<exists>ub'. prepareUpdate plainEnv lop (demoOr q) = (Inr (demoUpdateRequest (lop demoOld), [(''id'', AVS ''u1'')]), ub')"
proof -
  have q: "q = demoOwner \<lparr> builderErr := Some (EncryptedFieldNotQueryable ''Ssn'') \<rparr>"
    by (simp add: assms WithCondition_def rejectEncryptedConditionField_def attributeMetadata_def demoOwner_eq New_def demoMetadata_def demoAttribute_def recordBuilderError_def)
  then show "builderErr q = Some (EncryptedFieldNotQueryable ''Ssn'')" by simp
  show "\<exists>ub'. prepareUpdate plainEnv lop (demoOr q) = (Inr (demoUpdateRequest (lop demoOld), [(''id'', AVS ''u1'')]), ub')"
    by (rule demoOr_request) (auto simp: q demoLike_def)
qed


end
