(* ===== verification/Batch.thy ===== *)
theory Batch
  imports Complex_Main GoStrings GoReflect "HOL-Library.Multiset"
begin

text \<open>
  Batch operations: \<open>pkg/query/batch_operations.go\<close> (chunking, retries, batch writes, parallel batches) and the execution
  half of \<open>pkg/query/batch_get.go\<close> (chunking and alignment of results), with \<open>pkg/core/executor_batch.go\<close>,
  \<open>retry_policy.go\<close> and \<open>batch_get_options.go\<close>.  The executor and the application's callbacks are parameters; errors are their texts.
  The contract of a chunking function is the locale \<open>chunking\<close>, interpreted on each of the three loops of the code.
\<close>

section \<open>Chunks\<close>

locale chunking =
  fixes chunks :: "nat \<Rightarrow> 'a list \<Rightarrow> 'a list list"
  assumes covers: "0 < n \<Longrightarrow> concat (chunks n xs) = xs"
    and bounded: "0 < n \<Longrightarrow> c \<in> set (chunks n xs) \<Longrightarrow> c \<noteq> [] \<and> length c \<le> n"
begin

lemma total_length: "0 < n \<Longrightarrow> sum_list (map length (chunks n xs)) = length xs"
  by (metis covers length_concat)

lemma mset_chunks: "0 < n \<Longrightarrow> (\<Sum>c\<leftarrow>chunks n xs. mset c) = mset xs"
  by (metis covers mset_concat)

lemma members: "0 < n \<Longrightarrow> (\<Union>c \<in> set (chunks n xs). set c) = set xs"
  by (metis covers set_concat)

lemma enough: "0 < n \<Longrightarrow> length xs \<le> n * length (chunks n xs)"
proof -
  assume n: "0 < n"
  have "sum_list (map length (chunks n xs)) \<le> sum_list (map (\<lambda>_. n) (chunks n xs))"
    using bounded[OF n] by (intro sum_list_mono) blast
  then show ?thesis using total_length[OF n, of xs] by (simp add: sum_list_triv mult.commute)
qed

end

text \<open>\<open>batchSize <= 0 || batchSize > max\<close> selects the maximum.\<close>

definition effectiveSize :: "nat \<Rightarrow> int \<Rightarrow> nat" where
  "effectiveSize mx batchSize = (if batchSize \<le> 0 \<or> batchSize > int mx then mx else nat batchSize)"

text \<open>\<open>prepareBatches\<close> and \<open>prepareKeyBatches\<close>: the number of batches first, then each by its bounds.\<close>

definition sliceBatches :: "nat \<Rightarrow> 'a list \<Rightarrow> 'a list list" where
  "sliceBatches n xs =
     (let total = length xs; numBatches = (total + n - 1) div n in
      map (\<lambda>i. let start = i * n; stop = min (start + n) total in map (\<lambda>j. xs ! j) [start..<stop]) [0..<numBatches])"

definition prepareBatches :: "'a list \<Rightarrow> int \<Rightarrow> 'a list list" where
  "prepareBatches items batchSize = sliceBatches (effectiveSize 25 batchSize) items"

definition prepareKeyBatches :: "'a list \<Rightarrow> int \<Rightarrow> 'a list list" where
  "prepareKeyBatches keys batchSize = sliceBatches (effectiveSize 25 batchSize) keys"

text \<open>The loop \<open>for i := 0; i < len; i += n\<close>, over the rest of the list.\<close>

function windows :: "nat \<Rightarrow> 'a list \<Rightarrow> 'a list list" where
  "windows n xs = (if xs = [] \<or> n = 0 then [] else take n xs # windows n (drop n xs))"
  by pat_completeness auto
termination by (relation "measure (\<lambda>(n, xs). length xs)") (auto simp: neq_Nil_conv)

declare windows.simps [simp del]

definition splitWriteRequests :: "'r list \<Rightarrow> int \<Rightarrow> 'r list list" where
  "splitWriteRequests requests batchSize = windows (effectiveSize 25 batchSize) requests"

lemma effectiveSize_bounds: "0 < mx \<Longrightarrow> 0 < effectiveSize mx b \<and> effectiveSize mx b \<le> mx"
  by (auto simp: effectiveSize_def)

lemma windows_concat: "0 < n \<Longrightarrow> concat (windows n xs) = xs"
  by (induction n xs rule: windows.induct) (subst windows.simps, simp)

lemma windows_bounded: "0 < n \<Longrightarrow> c \<in> set (windows n xs) \<Longrightarrow> c \<noteq> [] \<and> length c \<le> n"
proof (induction n xs rule: windows.induct)
  case (1 n xs)
  show ?case using "1.prems"(2)[unfolded windows.simps[of n xs]] "1.IH" "1.prems"(1) by (auto split: if_splits)
qed

interpretation win: chunking windows
  by unfold_locales (simp_all add: windows_concat windows_bounded)

lemma slice_take: "map (\<lambda>j. xs ! j) [a..<min b (length xs)] = take (b - a) (drop a xs)"
proof (cases "a \<le> length xs")
  case True
  show ?thesis
  proof (intro nth_equalityI)
    show "length (map (\<lambda>j. xs ! j) [a..<min b (length xs)]) = length (take (b - a) (drop a xs))" by (simp add: min_diff)
    fix i assume "i < length (map (\<lambda>j. xs ! j) [a..<min b (length xs)])"
    then show "map (\<lambda>j. xs ! j) [a..<min b (length xs)] ! i = take (b - a) (drop a xs) ! i"
      using True by (simp add: less_diff_conv add.commute)
  qed
qed simp

lemma ceil_div_step:
  fixes l n :: nat
  assumes "0 < n" "0 < l"
  shows "(l + n - 1) div n = Suc ((l - n + n - 1) div n)"
proof (cases "l \<le> n")
  case True
  have "l + n - 1 = (l - 1) + n" using assms by simp
  then have "(l + n - 1) div n = Suc ((l - 1) div n)" using assms by (simp only: div_add_self2)
  moreover have "(l - 1) div n = 0" "(l - n + n - 1) div n = 0" if "l \<le> n" using that assms by simp_all
  ultimately show ?thesis using True by simp
next
  case False
  then have "l + n - 1 = (l - n + n - 1) + n" by simp
  then show ?thesis using assms(1) by (simp only: div_add_self2)
qed

lemma slices_windows:
  assumes n: "0 < n"
  shows "map (\<lambda>i. take n (drop (i * n) xs)) [0..<(length xs + n - 1) div n] = windows n xs"
proof (induction xs rule: length_induct)
  case (1 xs)
  show ?case
  proof (cases "xs = []")
    case True
    then show ?thesis using n by (simp add: windows.simps[of n "[]"])
  next
    case False
    let ?k = "(length (drop n xs) + n - 1) div n"
    have k: "(length xs + n - 1) div n = Suc ?k"
      using ceil_div_step[OF n, of "length xs"] False by simp
    have "map (\<lambda>i. take n (drop (i * n) xs)) [0..<Suc ?k] = take n xs # map (\<lambda>i. take n (drop (Suc i * n) xs)) [0..<?k]"
      by (simp add: upt_conv_Cons map_Suc_upt[symmetric] comp_def del: upt_Suc)
    also have "map (\<lambda>i. take n (drop (Suc i * n) xs)) [0..<?k] = map (\<lambda>i. take n (drop (i * n) (drop n xs))) [0..<?k]"
      by (simp add: add.commute)
    also have "\<dots> = windows n (drop n xs)" using "1.IH"[rule_format, of "drop n xs"] False n by simp
    finally show ?thesis using k False n by (simp add: windows.simps[of n xs])
  qed
qed

lemma sliceBatches_windows: "0 < n \<Longrightarrow> sliceBatches n xs = windows n xs"
  unfolding sliceBatches_def Let_def slice_take by (simp only: slices_windows[symmetric] add_diff_cancel_left')

interpretation slices: chunking sliceBatches
  by unfold_locales (simp_all add: sliceBatches_windows windows_concat windows_bounded)

text \<open>Every chunking of the batch operations is a partition in order: the batches concatenate to the input, each is
  non-empty and holds at most 25 elements (and at most the requested size, when that is between 1 and 25), and the
  two ways of computing them agree.\<close>

theorem batches_partition:
  "concat (prepareBatches xs sz) = xs \<and> concat (splitWriteRequests xs sz) = xs
   \<and> prepareBatches xs sz = splitWriteRequests xs sz \<and> prepareKeyBatches xs sz = prepareBatches xs sz
   \<and> list_all (\<lambda>b. b \<noteq> [] \<and> length b \<le> effectiveSize 25 sz \<and> effectiveSize 25 sz \<le> 25) (prepareBatches xs sz)
   \<and> length xs \<le> effectiveSize 25 sz * length (prepareBatches xs sz)"
proof -
  let ?n = "effectiveSize 25 sz"
  have n: "0 < ?n" "?n \<le> 25" using effectiveSize_bounds[of 25 sz] by simp_all
  show ?thesis
    using slices.covers[OF n(1)] slices.bounded[OF n(1)] slices.enough[OF n(1), of xs] n sliceBatches_windows[OF n(1)] win.covers[OF n(1)]
    by (auto simp: prepareBatches_def prepareKeyBatches_def splitWriteRequests_def list_all_iff)
qed

section \<open>Retrying an operation\<close>

text \<open>The code's own substring test and the retryable errors.\<close>

fun containsText :: "string \<Rightarrow> string \<Rightarrow> bool" where
  "containsText s substr =
     (if substr = [] then False
      else length s \<ge> length substr \<and> s \<noteq> []
        \<and> (s = substr \<or> (case s of [] \<Rightarrow> False | _ # t \<Rightarrow> containsText t substr) \<or> take (length substr) s = substr))"

declare containsText.simps [simp del]

definition retryableErrors :: "string list" where
  "retryableErrors = [''ProvisionedThroughputExceededException'', ''ThrottlingException'', ''InternalServerError'',
     ''ServiceUnavailable'', ''RequestLimitExceeded'']"

definition isRetryableError :: "string \<Rightarrow> bool" where
  "isRetryableError err = list_ex (containsText err) retryableErrors"

record RetryPolicy =
  MaxRetries :: int
  InitialDelay :: int
  MaxDelay :: int
  BackoffFactor :: rat
  Jitter :: rat

definition DefaultRetryPolicy :: RetryPolicy where
  "DefaultRetryPolicy = \<lparr> MaxRetries = 3, InitialDelay = 100000000, MaxDelay = 5000000000, BackoffFactor = 2, Jitter = 1 / 4 \<rparr>"

text \<open>Conversion of a float to an integer: truncation toward zero.\<close>

definition truncRat :: "rat \<Rightarrow> int" where
  "truncRat r = (if r < 0 then \<lceil>r\<rceil> else \<lfloor>r\<rfloor>)"

definition nextDelay :: "RetryPolicy \<Rightarrow> int \<Rightarrow> int" where
  "nextDelay policy delay = min (truncRat (of_int delay * BackoffFactor policy)) (MaxDelay policy)"

text \<open>What \<open>executeWithRetry\<close> returns: an error of the operation as it is, or \<open>operation failed after %d retries: %w\<close>,
  which wraps the last error (\<open>None\<close>: nil).\<close>

datatype 'e retryError = Final 'e | Exhausted int "'e option"

text \<open>The loop from an attempt on; \<open>fn a\<close> is the outcome of the call in attempt \<open>a\<close>, \<open>msg\<close> the text of an error.  The result is the
  returned error or success, the number of calls and the delays slept.\<close>

function retryLoop ::
  "('e \<Rightarrow> string) \<Rightarrow> (nat \<Rightarrow> ('e, unit) result) \<Rightarrow> RetryPolicy \<Rightarrow> nat \<Rightarrow> int \<Rightarrow> 'e option \<Rightarrow> ('e retryError, unit) result \<times> nat \<times> int list" where
  "retryLoop msg fn policy attempt delay lastErr =
     (if int attempt > MaxRetries policy then (Inl (Exhausted (MaxRetries policy) lastErr), 0, [])
      else case fn attempt of
        Inr _ \<Rightarrow> (Inr (), 1, [])
      | Inl err \<Rightarrow>
         (if \<not> isRetryableError (msg err) then (Inl (Final err), 1, [])
          else if int attempt < MaxRetries policy then
            (let (r, n, ds) = retryLoop msg fn policy (attempt + 1) (nextDelay policy delay) (Some err) in (r, n + 1, delay # ds))
          else (let (r, n, ds) = retryLoop msg fn policy (attempt + 1) delay (Some err) in (r, n + 1, ds))))"
  by pat_completeness auto
termination by (relation "measure (\<lambda>(msg, fn, policy, attempt, delay, err). nat (MaxRetries policy + 1 - int attempt))") auto

declare retryLoop.simps [simp del]

definition executeWithRetry ::
  "('e \<Rightarrow> string) \<Rightarrow> (nat \<Rightarrow> ('e, unit) result) \<Rightarrow> RetryPolicy option \<Rightarrow> ('e retryError, unit) result \<times> nat \<times> int list" where
  "executeWithRetry msg fn policy =
     (case policy of None \<Rightarrow> (mapErr Final (fn 0), 1, []) | Some p \<Rightarrow> retryLoop msg fn p 0 (InitialDelay p) None)"

lemma containsText_iff: "containsText s sub \<longleftrightarrow> sub \<noteq> [] \<and> sublist sub s"
proof (induction s)
  case Nil
  show ?case by (simp add: containsText.simps[of "[]"])
next
  case (Cons c s)
  have "take (length sub) (c # s) = sub \<longleftrightarrow> prefix sub (c # s)"
    by (metis prefix_def append_eq_conv_conj append_take_drop_id)
  moreover have "sublist sub (c # s) \<Longrightarrow> length sub \<le> length (c # s)" by (rule sublist_length_le)
  ultimately show ?case using Cons.IH
    by (auto simp: containsText.simps[of "c # s"] sublist_Cons_right)
qed

text \<open>The attempts that a policy allows, from one on: the first that succeeds or fails for good decides.\<close>

definition transient :: "('e \<Rightarrow> string) \<Rightarrow> ('e, unit) result \<Rightarrow> bool" where
  "transient msg r = (case r of Inl e \<Rightarrow> isRetryableError (msg e) | Inr _ \<Rightarrow> False)"

lemma retryLoop_spec:
  assumes "retryLoop msg fn p a delay le = (r, n, ds)" "int a \<le> MaxRetries p"
  shows "(\<exists>k \<ge> a. int k \<le> MaxRetries p \<and> (\<forall>j. a \<le> j \<and> j < k \<longrightarrow> transient msg (fn j)) \<and> \<not> transient msg (fn k) \<and> r = mapErr Final (fn k) \<and> n = k + 1 - a \<and> length ds = k - a)
    \<or> ((\<forall>j. a \<le> j \<and> int j \<le> MaxRetries p \<longrightarrow> transient msg (fn j)) \<and> (\<exists>e. r = Inl e) \<and> int n = MaxRetries p + 1 - int a \<and> int (length ds) = MaxRetries p - int a)"
  using assms
proof (induction msg fn p a delay le arbitrary: r n ds rule: retryLoop.induct)
  case (1 msg fn p a delay le)
  show ?case
  proof (cases "transient msg (fn a)")
    case False
    then have "r = mapErr Final (fn a) \<and> n = 1 \<and> ds = []"
      using "1.prems" by (auto simp: retryLoop.simps[of msg fn p a] transient_def split: sum.splits)
    then show ?thesis using False "1.prems"(2) by (intro disjI1 exI[of _ a]) auto
  next
    case True
    then obtain e where e: "fn a = Inl e" "isRetryableError (msg e)" by (auto simp: transient_def split: sum.splits)
    show ?thesis
    proof (cases "int a < MaxRetries p")
      case more: True
      obtain n' ds' where rec: "retryLoop msg fn p (a + 1) (nextDelay p delay) (Some e) = (r, n', ds')" "n = n' + 1" "ds = delay # ds'"
        using "1.prems" e more by (auto simp: retryLoop.simps[of msg fn p a] split: prod.splits)
      have IH: "(\<exists>k \<ge> a + 1. int k \<le> MaxRetries p \<and> (\<forall>j. a + 1 \<le> j \<and> j < k \<longrightarrow> transient msg (fn j)) \<and> \<not> transient msg (fn k) \<and> r = mapErr Final (fn k) \<and> n' = k + 1 - (a + 1) \<and> length ds' = k - (a + 1))
          \<or> ((\<forall>j. a + 1 \<le> j \<and> int j \<le> MaxRetries p \<longrightarrow> transient msg (fn j)) \<and> (\<exists>e. r = Inl e) \<and> int n' = MaxRetries p + 1 - int (a + 1) \<and> int (length ds') = MaxRetries p - int (a + 1))"
        using "1.IH"(1)[OF _ e(1)] e(2) more rec(1) by simp
      have ext: "\<forall>j. a + 1 \<le> j \<and> P j \<longrightarrow> transient msg (fn j) \<Longrightarrow> \<forall>j. a \<le> j \<and> P j \<longrightarrow> transient msg (fn j)" for P
        using True by (metis Suc_eq_plus1 le_neq_implies_less less_eq_Suc_le)
      from IH show ?thesis
      proof
        assume "\<exists>k \<ge> a + 1. int k \<le> MaxRetries p \<and> (\<forall>j. a + 1 \<le> j \<and> j < k \<longrightarrow> transient msg (fn j)) \<and> \<not> transient msg (fn k) \<and> r = mapErr Final (fn k) \<and> n' = k + 1 - (a + 1) \<and> length ds' = k - (a + 1)"
        then obtain k where k: "k \<ge> a + 1" "int k \<le> MaxRetries p" "\<forall>j. a + 1 \<le> j \<and> j < k \<longrightarrow> transient msg (fn j)" "\<not> transient msg (fn k)" "r = mapErr Final (fn k)" "n' = k + 1 - (a + 1)" "length ds' = k - (a + 1)"
          by blast
        then show ?thesis using rec ext[of "\<lambda>j. j < k"] by (intro disjI1 exI[of _ k]) auto
      next
        assume "(\<forall>j. a + 1 \<le> j \<and> int j \<le> MaxRetries p \<longrightarrow> transient msg (fn j)) \<and> (\<exists>e. r = Inl e) \<and> int n' = MaxRetries p + 1 - int (a + 1) \<and> int (length ds') = MaxRetries p - int (a + 1)"
        then show ?thesis using rec ext[of "\<lambda>j. int j \<le> MaxRetries p"] by (intro disjI2) auto
      qed
    next
      case last: False
      then have "int a = MaxRetries p" using "1.prems"(2) by simp
      moreover from this have "(\<exists>x. r = Inl x) \<and> n = 1 \<and> ds = []"
        using "1.prems"(1) e by (auto simp: retryLoop.simps[of msg fn p a] retryLoop.simps[of msg fn p "Suc a"] split: prod.splits)
      ultimately show ?thesis using True by (intro disjI2) (auto dest: le_antisym)
    qed
  qed
qed

lemma nextDelay_le: "nextDelay p d \<le> MaxDelay p"
  by (simp add: nextDelay_def)

lemma retryLoop_delays: "retryLoop msg fn p a delay le = (r, n, ds) \<Longrightarrow> x \<in> set ds \<Longrightarrow> x \<le> max delay (MaxDelay p)"
proof (induction msg fn p a delay le arbitrary: r n ds rule: retryLoop.induct)
  case (1 msg fn p a delay le)
  have nx: "max (nextDelay p delay) (MaxDelay p) = MaxDelay p" using nextDelay_le[of p delay] by simp
  show ?case using "1.prems"(1)[unfolded retryLoop.simps[of msg fn p a]] "1.prems"(2) "1.IH"
    by (auto split: if_splits sum.splits prod.splits simp: nx max.coboundedI2)
qed

text \<open>C27. Retries.  With a policy of \<open>MaxRetries \<ge> 0\<close> the operation is tried at least once and at most \<open>MaxRetries + 1\<close> times; the first
  attempt that succeeds or fails with an error that is not retryable ends the loop and its outcome is returned; if all
  attempts fail with retryable errors an error is returned.  There is one delay between consecutive attempts, none longer than the
  larger of the initial and the maximal delay.\<close>

theorem executeWithRetry_attempts:
  assumes "executeWithRetry msg fn (Some p) = (r, n, ds)" "0 \<le> MaxRetries p"
  shows "int n \<le> MaxRetries p + 1 \<and> n = length ds + 1 \<and> list_all (\<lambda>d. d \<le> max (InitialDelay p) (MaxDelay p)) ds
    \<and> (\<forall>j < n - 1. transient msg (fn j)) \<and> (r = mapErr Final (fn (n - 1)) \<and> \<not> transient msg (fn (n - 1)) \<or> (\<exists>e. r = Inl e) \<and> int n = MaxRetries p + 1 \<and> transient msg (fn (n - 1)))"
proof -
  have run: "retryLoop msg fn p 0 (InitialDelay p) None = (r, n, ds)" using assms(1) by (simp add: executeWithRetry_def)
  have "list_all (\<lambda>d. d \<le> max (InitialDelay p) (MaxDelay p)) ds" using retryLoop_delays[OF run] by (simp add: list_all_iff)
  moreover have "int n \<le> MaxRetries p + 1 \<and> n = length ds + 1
    \<and> (\<forall>j < n - 1. transient msg (fn j)) \<and> (r = mapErr Final (fn (n - 1)) \<and> \<not> transient msg (fn (n - 1)) \<or> (\<exists>e. r = Inl e) \<and> int n = MaxRetries p + 1 \<and> transient msg (fn (n - 1)))"
    using retryLoop_spec[OF run] assms(2) by auto
  ultimately show ?thesis by blast
qed

theorem executeWithRetry_attempts_witness:
  "snd (executeWithRetry id (\<lambda>a. if a = 2 then Inr () else Inl ''ThrottlingException: slow down'') (Some DefaultRetryPolicy)) = (3, [100000000, 200000000])
   \<and> int 3 \<le> MaxRetries DefaultRetryPolicy + 1"
proof -
  let ?f = "\<lambda>a. if a = 2 then Inr () else Inl ''ThrottlingException: slow down''"
  have run: "executeWithRetry id ?f (Some DefaultRetryPolicy) = (Inr (), 3, [100000000, 200000000])" by code_simp
  have "0 \<le> MaxRetries DefaultRetryPolicy" by (simp add: DefaultRetryPolicy_def)
  from executeWithRetry_attempts[OF run this] show ?thesis using run by simp
qed

text \<open>A negative number of retries never runs the operation and returns an error that wraps nil.\<close>

lemma negative_retries_never_run:
  "MaxRetries p < 0 \<Longrightarrow> executeWithRetry msg fn (Some p) = (Inl (Exhausted (MaxRetries p) None), 0, [])"
  by (simp add: executeWithRetry_def retryLoop.simps)

text \<open>The hand-written substring test is the library's: for a non-empty needle it decides whether the needle
  occurs in the text; an empty needle is never found.\<close>

theorem contains_is_substring:
  "containsText s sub = (sub \<noteq> [] \<and> Contains s sub)"
  by (simp add: containsText_iff Contains_sublist)

end
