(* ===== verification/BatchWrite.thy ===== *)
theory BatchWrite
  imports UpdateBuilder Batch
begin

text \<open>
  Batch writes: the rest of \<open>pkg/query/batch_operations.go\<close> (keys of items, batch updates, deletes and mixed writes, sequential and parallel
  batches, retrying of unprocessed requests) and \<open>pkg/core/executor_batch.go\<close>.  The application's callbacks and the executor are parameters that
  act on a world \<open>'w\<close>; \<open>msg\<close> is the text \<open>Error()\<close> gives for an error.  Concurrent batches are modelled by the order in which the
  workers run: \<open>executeUpdateBatch\<close> of one batch is one step.
\<close>

section \<open>Options and requests\<close>

datatype WriteRequest = PutRequest item | DeleteRequest item

text \<open>A key or item argument: a \<open>core.KeyPair\<close>, or any other value.\<close>

datatype keyArg = KeyPair goany goany | AnyKey goany

text \<open>What an error handler is told about: one item or key, a batch of them, or a batch of requests.\<close>

datatype subject = OneItem keyArg | ItemBatch "keyArg list" | RequestBatch "WriteRequest list"

record 'w BatchUpdateOptions =
  ProgressCallback :: "(int \<Rightarrow> int \<Rightarrow> 'w \<Rightarrow> 'w) option"
  ErrorHandler :: "(subject \<Rightarrow> qerror \<Rightarrow> 'w \<Rightarrow> qerror option \<times> 'w) option"
  buRetryPolicy :: "RetryPolicy option"
  MaxBatchSize :: int
  MaxConcurrency :: int
  Parallel :: bool

definition DefaultBatchOptions :: "'w BatchUpdateOptions" where
  "DefaultBatchOptions = \<lparr> ProgressCallback = None, ErrorHandler = None,
     buRetryPolicy = Some \<lparr> MaxRetries = 3, InitialDelay = 100000000, MaxDelay = 5000000000, BackoffFactor = 2, Jitter = 0 \<rparr>,
     MaxBatchSize = 25, MaxConcurrency = 5, Parallel = False \<rparr>"

definition reportProgress :: "'w BatchUpdateOptions \<Rightarrow> int \<Rightarrow> int \<Rightarrow> 'w \<Rightarrow> 'w" where
  "reportProgress opts processed totalItems w = (case ProgressCallback opts of None \<Rightarrow> w | Some cb \<Rightarrow> cb processed totalItems w)"

text \<open>\<open>handleBatchUpdateError\<close>: the handler decides, without one the fallback is returned.\<close>

definition handleBatchUpdateError :: "'w BatchUpdateOptions \<Rightarrow> subject \<Rightarrow> qerror \<Rightarrow> qerror \<Rightarrow> 'w \<Rightarrow> qerror option \<times> 'w" where
  "handleBatchUpdateError opts subj originalErr fallback w =
     (case ErrorHandler opts of Some h \<Rightarrow> h subj originalErr w | None \<Rightarrow> (Some fallback, w))"

section \<open>Keys of items\<close>

definition extractKeyFromPair :: "CoreKeySchema \<Rightarrow> goany \<Rightarrow> goany \<Rightarrow> (qerror, (string \<times> goany) list) result" where
  "extractKeyFromPair pk pairPK pairSK =
     (if pairPK = None then Inl (QueryError (''partition key value is required for '' @ ksPartitionKey pk))
      else if ksSortKey pk \<noteq> [] \<and> pairSK = None then Inl (QueryError (''sort key value is required for '' @ ksSortKey pk))
      else Inr (if ksSortKey pk \<noteq> [] then AList.update (ksSortKey pk) pairSK [(ksPartitionKey pk, pairPK)] else [(ksPartitionKey pk, pairPK)]))"

definition extractKeyFromPrimitive :: "CoreKeySchema \<Rightarrow> goany \<Rightarrow> (qerror, (string \<times> goany) list) result" where
  "extractKeyFromPrimitive pk val =
     (if ksSortKey pk \<noteq> []
      then Inl (QueryError (''composite key requires both '' @ ksPartitionKey pk @ '' and '' @ ksSortKey pk))
      else Inr [(ksPartitionKey pk, val)])"

text \<open>\<open>dyn\<close> is the \<open>dynamodb\<close> tag of a field.\<close>

definition findFieldByTag :: "(gtype sfield \<Rightarrow> string) \<Rightarrow> gtype \<times> gval \<Rightarrow> string \<Rightarrow> (gtype sfield \<times> gval) option" where
  "findFieldByTag dyn tv attrName =
     (if attrName = [] then None
      else find (\<lambda>(f, v). sfExported f \<and>
             (let tag = (if dyn f = [] then sfTag f else dyn f); name = hd (SplitByte (CHR '','') tag) in
              tag \<noteq> [] \<and> name \<noteq> [] \<and> name = attrName)) (levelFields [tv]))"

definition findKeyField :: "(gtype sfield \<Rightarrow> string) \<Rightarrow> Query \<Rightarrow> gtype \<times> gval \<Rightarrow> string \<Rightarrow> (gtype sfield \<times> gval) option" where
  "findKeyField dyn q tv keyName =
     (let goName = resolveGoFieldName q keyName in
      case fieldByName goName (fst tv) (snd tv) of
        Some fv \<Rightarrow> Some fv
      | None \<Rightarrow>
          (case findFieldByTag dyn tv keyName of
             Some fv \<Rightarrow> Some fv
           | None \<Rightarrow> (if keyName \<noteq> goName then findFieldByTag dyn tv goName else None)))"

definition keyFieldValue :: "(gtype sfield \<Rightarrow> string) \<Rightarrow> Query \<Rightarrow> gtype \<times> gval \<Rightarrow> string \<Rightarrow> string \<Rightarrow> (qerror, goany) result" where
  "keyFieldValue dyn q tv what keyName =
     (case findKeyField dyn q tv keyName of
        None \<Rightarrow> Inl (QueryError (what @ '' key field '' @ keyName @ '' not found''))
      | Some fv \<Rightarrow> (case fieldInterface fv of None \<Rightarrow> Inl QueryPanic | Some d \<Rightarrow> Inr d))"

definition extractKeyFromStruct :: "(gtype sfield \<Rightarrow> string) \<Rightarrow> Query \<Rightarrow> CoreKeySchema \<Rightarrow> gtype \<times> gval \<Rightarrow> (qerror, (string \<times> goany) list) result" where
  "extractKeyFromStruct dyn q pk tv =
     bindE (keyFieldValue dyn q tv ''partition'' (ksPartitionKey pk)) (\<lambda>pv.
       if ksSortKey pk = [] then Inr [(ksPartitionKey pk, pv)]
       else bindE (keyFieldValue dyn q tv ''sort'' (ksSortKey pk)) (\<lambda>sv. Inr (AList.update (ksSortKey pk) sv [(ksPartitionKey pk, pv)])))"

definition extractKey :: "(gtype sfield \<Rightarrow> string) \<Rightarrow> Query \<Rightarrow> keyArg \<Rightarrow> (qerror, (string \<times> goany) list) result" where
  "extractKey dyn q itm =
     (case metadata q of
        None \<Rightarrow> Inl (QueryError ''model metadata is required for batch key extraction'')
      | Some md \<Rightarrow>
          (let pk = mmPrimaryKey md in
           if ksPartitionKey pk = [] then Inl (QueryError ''partition key is required for batch key extraction'')
           else case itm of
             KeyPair p s \<Rightarrow> extractKeyFromPair pk p s
           | AnyKey None \<Rightarrow> Inl (QueryError ''key cannot be nil'')
           | AnyKey v \<Rightarrow> (case structValue v of Some tv \<Rightarrow> extractKeyFromStruct dyn q pk tv | None \<Rightarrow> extractKeyFromPrimitive pk v)))"

definition isKeyValue :: "attrval \<Rightarrow> bool" where
  "isKeyValue av = (case av of AVS _ \<Rightarrow> True | AVN _ \<Rightarrow> True | AVB _ \<Rightarrow> True | _ \<Rightarrow> False)"

definition keyValueAttribute :: "convenv \<Rightarrow> Query \<Rightarrow> string \<times> goany \<Rightarrow> item \<Rightarrow> (qerror, item) result" where
  "keyValueAttribute env q = (\<lambda>(k, v) keyAV.
     case ConvertToAttributeValue env v of
       Inl e \<Rightarrow> Inl (Wrapped ''failed to convert key value'' (ConversionFailed e))
     | Inr av \<Rightarrow> (if isKeyValue av then Inr (AList.update (resolveAttributeName q k) av keyAV)
                  else Inl (QueryError (''invalid key value for '' @ k))))"

definition extractKeyAttributeValues :: "convenv \<Rightarrow> (gtype sfield \<Rightarrow> string) \<Rightarrow> Query \<Rightarrow> keyArg \<Rightarrow> (qerror, item) result" where
  "extractKeyAttributeValues env dyn q key = bindE (extractKey dyn q key) (\<lambda>kv. foldE (keyValueAttribute env q) kv [])"

section \<open>Retrying unprocessed requests\<close>

text \<open>\<open>BatchWriteItemExecutor\<close>: the unprocessed requests by table, \<open>None\<close> for a nil result.\<close>

type_synonym 'w batchWriter = "string \<Rightarrow> WriteRequest list \<Rightarrow> 'w \<Rightarrow> (qerror, (string \<times> WriteRequest list) list option) result \<times> 'w"

definition writeBackoff :: "nat \<Rightarrow> int" where
  "writeBackoff attempts = min (int attempts * 100000000) 2000000000"

text \<open>The loop, from the requests that remain after \<open>attempts\<close> attempts; the delays slept come with the result.\<close>

function batchWriteLoop :: "'w batchWriter \<Rightarrow> 'w BatchUpdateOptions \<Rightarrow> string \<Rightarrow> nat \<Rightarrow> nat \<Rightarrow> WriteRequest list \<Rightarrow> 'w \<Rightarrow> (qerror, unit) result \<times> int list \<times> 'w" where
  "batchWriteLoop bw opts tableName requested attempts remaining w =
     (if remaining = [] then (Inr (), [], w)
      else if attempts \<ge> 5 then
        (Inl (QueryError (''failed to process '' @ showNat (length remaining) @ '' items after '' @ showNat attempts @ '' attempts'')), [], w)
      else
        let n = attempts + 1 in
        case bw tableName remaining w of
          (Inl e, w') \<Rightarrow> (Inl (Wrapped ''batch write failed'' e), [], w')
        | (Inr None, w') \<Rightarrow> (Inl (QueryError ''batch write executor returned nil result''), [], w')
        | (Inr (Some unprocessed), w') \<Rightarrow>
            (let rest = concat (map snd unprocessed) in
             if rest = [] then (Inr (), [], w')
             else
               let w1 = reportProgress opts (int requested - int (length rest)) (int requested) w';
                   (r, ds, w2) = batchWriteLoop bw opts tableName requested n rest w1 in
               (r, (if n < 5 then [writeBackoff n] else []) @ ds, w2)))"
  by pat_completeness auto
termination by (relation "measure (\<lambda>(bw, opts, tn, req, attempts, rem, w). 5 - attempts)") auto

declare batchWriteLoop.simps [simp del]

definition executeBatchWriteWithRetries ::
  "'w batchWriter option \<Rightarrow> string \<Rightarrow> WriteRequest list \<Rightarrow> 'w BatchUpdateOptions \<Rightarrow> 'w \<Rightarrow> (qerror, unit) result \<times> 'w" where
  "executeBatchWriteWithRetries batchExecutor tableName writeRequests opts w =
     (if writeRequests = [] then (Inr (), w)
      else case batchExecutor of
        None \<Rightarrow> (Inl (QueryError ''executor does not support batch write operations''), w)
      | Some bw \<Rightarrow> (case batchWriteLoop bw opts tableName (length writeRequests) 0 writeRequests w of (r, _, w') \<Rightarrow> (r, w')))"

section \<open>Batches in sequence\<close>

text \<open>The loop shared by the sequential operations: run each batch, let the handler decide on an error, report progress.\<close>

fun runBatches ::
  "('b list \<Rightarrow> 'w \<Rightarrow> (qerror, unit) result \<times> 'w) \<Rightarrow> ('b list \<Rightarrow> subject) \<Rightarrow> 'w BatchUpdateOptions \<Rightarrow> int \<Rightarrow> 'b list list \<Rightarrow> int \<Rightarrow> 'w \<Rightarrow> (qerror, unit) result \<times> 'w" where
  "runBatches exec subj opts totalItems [] processed w = (Inr (), w)"
| "runBatches exec subj opts totalItems (batch # batches) processed w =
     (let (r, w1) = exec batch w;
          (stop, w2) = (case r of Inr _ \<Rightarrow> (None, w1) | Inl e \<Rightarrow> handleBatchUpdateError opts (subj batch) e e w1) in
      case stop of
        Some e \<Rightarrow> (Inl e, w2)
      | None \<Rightarrow>
          (let processed' = processed + int (length batch) in
           runBatches exec subj opts totalItems batches processed' (reportProgress opts processed' totalItems w2)))"

section \<open>Batch deletes and mixed writes\<close>

text \<open>\<open>q.metadata.TableName()\<close> panics on a query without metadata.\<close>

definition onTable :: "Query \<Rightarrow> (string \<Rightarrow> 'w \<Rightarrow> (qerror, 'a) result \<times> 'w) \<Rightarrow> 'w \<Rightarrow> (qerror, 'a) result \<times> 'w" where
  "onTable q f w = (case metadata q of None \<Rightarrow> (Inl QueryPanic, w) | Some md \<Rightarrow> f (mmTableName md) w)"

definition deleteRequestOf :: "convenv \<Rightarrow> (gtype sfield \<Rightarrow> string) \<Rightarrow> Query \<Rightarrow> keyArg \<Rightarrow> (qerror, WriteRequest) result" where
  "deleteRequestOf env dyn q key = bindE (extractKeyAttributeValues env dyn q key) (\<lambda>av. Inr (DeleteRequest av))"

definition executeDeleteBatch ::
  "convenv \<Rightarrow> (gtype sfield \<Rightarrow> string) \<Rightarrow> 'w batchWriter option \<Rightarrow> Query \<Rightarrow> 'w BatchUpdateOptions \<Rightarrow> keyArg list \<Rightarrow> 'w \<Rightarrow> (qerror, unit) result \<times> 'w" where
  "executeDeleteBatch env dyn bw q opts batch w =
     (case mapE (\<lambda>key. mapErr (Wrapped ''failed to extract key'') (deleteRequestOf env dyn q key)) batch of
        Inl e \<Rightarrow> (Inl e, w)
      | Inr requests \<Rightarrow> onTable q (\<lambda>tn. executeBatchWriteWithRetries bw tn requests opts) w)"

definition BatchDeleteWithOptions ::
  "convenv \<Rightarrow> (gtype sfield \<Rightarrow> string) \<Rightarrow> 'w batchWriter option \<Rightarrow> Query \<Rightarrow> keyArg list \<Rightarrow> 'w BatchUpdateOptions \<Rightarrow> 'w \<Rightarrow> (qerror, unit) result \<times> 'w" where
  "BatchDeleteWithOptions env dyn bw q keys opts w =
     (if keys = [] then (Inr (), w)
      else runBatches (executeDeleteBatch env dyn bw q opts) ItemBatch opts (int (length keys)) (prepareKeyBatches keys (MaxBatchSize opts)) 0 w)"

definition BatchDelete :: "convenv \<Rightarrow> (gtype sfield \<Rightarrow> string) \<Rightarrow> 'w batchWriter option \<Rightarrow> Query \<Rightarrow> keyArg list \<Rightarrow> 'w \<Rightarrow> (qerror, unit) result \<times> 'w" where
  "BatchDelete env dyn bw q keys w = BatchDeleteWithOptions env dyn bw q keys DefaultBatchOptions w"

text \<open>Each put item and each delete key becomes a request, unless its error is handled away.\<close>

fun appendRequests ::
  "('a \<Rightarrow> (qerror, WriteRequest) result) \<Rightarrow> string \<Rightarrow> ('a \<Rightarrow> keyArg) \<Rightarrow> 'w BatchUpdateOptions \<Rightarrow> 'a list \<Rightarrow> WriteRequest list \<Rightarrow> 'w
     \<Rightarrow> (qerror, WriteRequest list) result \<times> 'w" where
  "appendRequests mk failed arg opts [] requests w = (Inr requests, w)"
| "appendRequests mk failed arg opts (x # xs) requests w =
     (case mk x of
        Inl e \<Rightarrow>
          (case handleBatchUpdateError opts (OneItem (arg x)) e (Wrapped failed e) w of
             (Some e', w') \<Rightarrow> (Inl e', w')
           | (None, w') \<Rightarrow> appendRequests mk failed arg opts xs requests w')
      | Inr req \<Rightarrow> appendRequests mk failed arg opts xs (requests @ [req]) w)"

text \<open>The items come with the clock readings at the time they are marshalled.\<close>

definition putRequestOf :: "convenv \<Rightarrow> Query \<Rightarrow> goany \<times> clockenv \<Rightarrow> (qerror, WriteRequest) result" where
  "putRequestOf env q = (\<lambda>(itm, clk). bindE (marshalItem env clk q itm) (\<lambda>av. Inr (PutRequest av)))"

definition appendPutWriteRequests ::
  "convenv \<Rightarrow> Query \<Rightarrow> 'w BatchUpdateOptions \<Rightarrow> (goany \<times> clockenv) list \<Rightarrow> WriteRequest list \<Rightarrow> 'w \<Rightarrow> (qerror, WriteRequest list) result \<times> 'w" where
  "appendPutWriteRequests env q opts putItems requests w =
     appendRequests (putRequestOf env q) ''failed to marshal item'' (\<lambda>x. AnyKey (fst x)) opts putItems requests w"

definition appendDeleteWriteRequests ::
  "convenv \<Rightarrow> (gtype sfield \<Rightarrow> string) \<Rightarrow> Query \<Rightarrow> 'w BatchUpdateOptions \<Rightarrow> keyArg list \<Rightarrow> WriteRequest list \<Rightarrow> 'w \<Rightarrow> (qerror, WriteRequest list) result \<times> 'w" where
  "appendDeleteWriteRequests env dyn q opts deleteKeys requests w =
     appendRequests (deleteRequestOf env dyn q) ''failed to extract key'' id opts deleteKeys requests w"

definition buildBatchWriteRequests ::
  "convenv \<Rightarrow> (gtype sfield \<Rightarrow> string) \<Rightarrow> Query \<Rightarrow> (goany \<times> clockenv) list \<Rightarrow> keyArg list \<Rightarrow> 'w BatchUpdateOptions \<Rightarrow> 'w \<Rightarrow> (qerror, WriteRequest list) result \<times> 'w" where
  "buildBatchWriteRequests env dyn q putItems deleteKeys opts w =
     (case appendPutWriteRequests env q opts putItems [] w of
        (Inl e, w1) \<Rightarrow> (Inl e, w1)
      | (Inr requests, w1) \<Rightarrow> appendDeleteWriteRequests env dyn q opts deleteKeys requests w1)"

definition BatchWriteWithOptions ::
  "convenv \<Rightarrow> (gtype sfield \<Rightarrow> string) \<Rightarrow> 'w batchWriter option \<Rightarrow> Query \<Rightarrow> (goany \<times> clockenv) list \<Rightarrow> keyArg list \<Rightarrow> 'w BatchUpdateOptions \<Rightarrow> 'w \<Rightarrow> (qerror, unit) result \<times> 'w" where
  "BatchWriteWithOptions env dyn bw q putItems deleteKeys opts w =
     (let totalItems = int (length putItems) + int (length deleteKeys) in
      if totalItems = 0 then (Inr (), w)
      else
        let opts1 = (if MaxBatchSize opts \<le> 0 \<or> MaxBatchSize opts > 25 then opts \<lparr> MaxBatchSize := 25 \<rparr> else opts) in
        case buildBatchWriteRequests env dyn q putItems deleteKeys opts1 w of
          (Inl e, w1) \<Rightarrow> (Inl e, w1)
        | (Inr requests, w1) \<Rightarrow>
            runBatches (\<lambda>batch. onTable q (\<lambda>tn. executeBatchWriteWithRetries bw tn batch opts1)) RequestBatch opts1 totalItems
              (splitWriteRequests requests (MaxBatchSize opts1)) 0 w1)"

definition BatchWrite ::
  "convenv \<Rightarrow> (gtype sfield \<Rightarrow> string) \<Rightarrow> 'w batchWriter option \<Rightarrow> Query \<Rightarrow> (goany \<times> clockenv) list \<Rightarrow> keyArg list \<Rightarrow> 'w \<Rightarrow> (qerror, unit) result \<times> 'w" where
  "BatchWrite env dyn bw q putItems deleteKeys w = BatchWriteWithOptions env dyn bw q putItems deleteKeys DefaultBatchOptions w"

section \<open>Batch updates\<close>

text \<open>Repeated calls of one operation, each from the state the call before left.\<close>

fun attemptRuns :: "('s \<Rightarrow> ('e, unit) result \<times> 's) \<Rightarrow> nat \<Rightarrow> 's \<Rightarrow> ('e, unit) result \<times> 's" where
  "attemptRuns step 0 s = step s"
| "attemptRuns step (Suc a) s = step (snd (attemptRuns step a s))"

definition retried :: "('e \<Rightarrow> string) \<Rightarrow> ('s \<Rightarrow> ('e, unit) result \<times> 's) \<Rightarrow> RetryPolicy option \<Rightarrow> 's \<Rightarrow> ('e retryError, unit) result \<times> 's" where
  "retried msg step policy s =
     (case executeWithRetry msg (\<lambda>a. fst (attemptRuns step a s)) policy of
        (r, n, _) \<Rightarrow> (r, if n = 0 then s else snd (attemptRuns step (n - 1) s)))"

definition fromRetry :: "(qerror retryError, unit) result \<Rightarrow> (qerror, unit) result" where
  "fromRetry r =
     (case r of
        Inr _ \<Rightarrow> Inr ()
      | Inl (Final e) \<Rightarrow> Inl e
      | Inl (Exhausted n (Some e)) \<Rightarrow> Inl (Wrapped (''operation failed after '' @ showInt n @ '' retries'') e)
      | Inl (Exhausted n None) \<Rightarrow> Inl (QueryError (''operation failed after '' @ showInt n @ '' retries: %!w(<nil>)'')))"

text \<open>\<open>itemValue.FieldByName\<close> panics when the item, or what it points to, is not a struct; a field the struct does not have is skipped.\<close>

definition setNamedField :: "convenv \<Rightarrow> goany \<Rightarrow> string \<Rightarrow> UpdateBuilder \<Rightarrow> (qerror, UpdateBuilder) result" where
  "setNamedField env itm field ub =
     (case structValue itm of
        None \<Rightarrow> Inl QueryPanic
      | Some tv \<Rightarrow>
          (case fieldByName field (fst tv) (snd tv) of
             None \<Rightarrow> Inr ub
           | Some fv \<Rightarrow> (case fieldInterface fv of None \<Rightarrow> Inl QueryPanic | Some d \<Rightarrow> Inr (ubSet env field d ub))))"

text \<open>A key pair is itself a struct, with the two fields of that name.\<close>

definition setItemField :: "convenv \<Rightarrow> keyArg \<Rightarrow> string \<Rightarrow> UpdateBuilder \<Rightarrow> (qerror, UpdateBuilder) result" where
  "setItemField env itm field ub =
     (case itm of
        KeyPair p s \<Rightarrow> Inr (if field = ''PartitionKey'' then ubSet env field p ub else if field = ''SortKey'' then ubSet env field s ub else ub)
      | AnyKey v \<Rightarrow> setNamedField env v field ub)"

definition itemUpdate ::
  "convenv \<Rightarrow> (gtype sfield \<Rightarrow> string) \<Rightarrow> Query \<Rightarrow> string list \<Rightarrow> keyArg \<Rightarrow> (qerror, UpdateBuilder) result" where
  "itemUpdate env dyn q fs itm =
     bindE (mapErr (Wrapped ''failed to extract key'') (extractKey dyn q itm)) (\<lambda>key.
       foldE (setItemField env itm) fs
         \<lparr> buildErr = None, ubQuery = q, ubExpr = NewBuilder, ubKeyValues = key, ubReturnValues = [], ubConditions = [] \<rparr>)"

definition executeRetried ::
  "(qerror \<Rightarrow> string) \<Rightarrow> convenv \<Rightarrow> ('w, 'z) Executor_scheme \<Rightarrow> RetryPolicy option \<Rightarrow> UpdateBuilder \<Rightarrow> 'w \<Rightarrow> (qerror, unit) result \<times> 'w" where
  "executeRetried msg env ex policy ub w =
     (case retried msg (\<lambda>(u, v). case Execute env ex u v of (r, u', v') \<Rightarrow> (r, (u', v'))) policy (ub, w) of (r, _, w') \<Rightarrow> (fromRetry r, w'))"

fun executeUpdateBatch ::
  "(qerror \<Rightarrow> string) \<Rightarrow> convenv \<Rightarrow> (gtype sfield \<Rightarrow> string) \<Rightarrow> ('w, 'z) Executor_scheme \<Rightarrow> Query \<Rightarrow> 'w BatchUpdateOptions \<Rightarrow> string list \<Rightarrow> keyArg list
     \<Rightarrow> 'w \<Rightarrow> (qerror, unit) result \<times> 'w" where
  "executeUpdateBatch msg env dyn ex q opts fs [] w = (Inr (), w)"
| "executeUpdateBatch msg env dyn ex q opts fs (itm # batch) w =
     (case itemUpdate env dyn q fs itm of
        Inl e \<Rightarrow> (Inl e, w)
      | Inr ub \<Rightarrow>
          (case executeRetried msg env ex (buRetryPolicy opts) ub w of
             (Inl e, w') \<Rightarrow> (Inl e, w')
           | (Inr _, w') \<Rightarrow> executeUpdateBatch msg env dyn ex q opts fs batch w'))"

definition executeBatchesSequential ::
  "(qerror \<Rightarrow> string) \<Rightarrow> convenv \<Rightarrow> (gtype sfield \<Rightarrow> string) \<Rightarrow> ('w, 'z) Executor_scheme \<Rightarrow> Query \<Rightarrow> keyArg list list \<Rightarrow> 'w BatchUpdateOptions \<Rightarrow> string list
     \<Rightarrow> int \<Rightarrow> int \<Rightarrow> 'w \<Rightarrow> (qerror, unit) result \<times> 'w" where
  "executeBatchesSequential msg env dyn ex q batches opts fs processed totalItems w =
     runBatches (executeUpdateBatch msg env dyn ex q opts fs) ItemBatch opts totalItems batches processed w"

text \<open>Parallel batches in the order \<open>order\<close> in which the workers finish: no worker stops the others, the first error
  that reaches the channel is returned.\<close>

fun runWorkers ::
  "('b list \<Rightarrow> 'w \<Rightarrow> (qerror, unit) result \<times> 'w) \<Rightarrow> ('b list \<Rightarrow> subject) \<Rightarrow> 'w BatchUpdateOptions \<Rightarrow> int \<Rightarrow> 'b list list \<Rightarrow> int \<Rightarrow> 'w \<Rightarrow> qerror list \<times> 'w" where
  "runWorkers exec subj opts totalItems [] processed w = ([], w)"
| "runWorkers exec subj opts totalItems (batch # batches) processed w =
     (let (r, w1) = exec batch w;
          (stop, w2) = (case r of Inr _ \<Rightarrow> (None, w1) | Inl e \<Rightarrow> handleBatchUpdateError opts (subj batch) e e w1) in
      case stop of
        Some e \<Rightarrow> (let (es, w3) = runWorkers exec subj opts totalItems batches processed w2 in (e # es, w3))
      | None \<Rightarrow>
          (let processed' = processed + int (length batch) in
           runWorkers exec subj opts totalItems batches processed' (reportProgress opts processed' totalItems w2)))"

definition executeBatchesParallel ::
  "(qerror \<Rightarrow> string) \<Rightarrow> convenv \<Rightarrow> (gtype sfield \<Rightarrow> string) \<Rightarrow> ('w, 'z) Executor_scheme \<Rightarrow> Query \<Rightarrow> keyArg list list \<Rightarrow> 'w BatchUpdateOptions \<Rightarrow> string list
     \<Rightarrow> int \<Rightarrow> int \<Rightarrow> 'w \<Rightarrow> (qerror, unit) result \<times> 'w" where
  "executeBatchesParallel msg env dyn ex q order opts fs processed totalItems w =
     (case runWorkers (executeUpdateBatch msg env dyn ex q opts fs) ItemBatch opts totalItems order processed w of
        ([], w') \<Rightarrow> (Inr (), w')
      | (e # _, w') \<Rightarrow> (Inl e, w'))"

text \<open>\<open>items\<close> is a slice; \<open>schedule\<close> is the order in which parallel workers run.\<close>

definition batchUpdateWithOptionsInternal ::
  "(qerror \<Rightarrow> string) \<Rightarrow> convenv \<Rightarrow> (gtype sfield \<Rightarrow> string) \<Rightarrow> ('w, 'z) Executor_scheme \<Rightarrow> (keyArg list list \<Rightarrow> keyArg list list) \<Rightarrow> Query \<Rightarrow> keyArg list option
     \<Rightarrow> 'w BatchUpdateOptions \<Rightarrow> string list \<Rightarrow> 'w \<Rightarrow> (qerror, unit) result \<times> 'w" where
  "batchUpdateWithOptionsInternal msg env dyn ex schedule q items opts fs w =
     (case items of
        None \<Rightarrow> (Inl (QueryError ''items must be a slice''), w)
      | Some xs \<Rightarrow>
          (if xs = [] then (Inr (), w)
           else
             let batches = prepareBatches xs (MaxBatchSize opts) in
             if Parallel opts then executeBatchesParallel msg env dyn ex q (schedule batches) opts fs 0 (int (length xs)) w
             else executeBatchesSequential msg env dyn ex q batches opts fs 0 (int (length xs)) w))"

definition BatchUpdate ::
  "(qerror \<Rightarrow> string) \<Rightarrow> convenv \<Rightarrow> (gtype sfield \<Rightarrow> string) \<Rightarrow> ('w, 'z) Executor_scheme \<Rightarrow> (keyArg list list \<Rightarrow> keyArg list list) \<Rightarrow> Query \<Rightarrow> keyArg list option
     \<Rightarrow> string list \<Rightarrow> 'w \<Rightarrow> (qerror, unit) result \<times> 'w" where
  "BatchUpdate msg env dyn ex schedule q items fs w = batchUpdateWithOptionsInternal msg env dyn ex schedule q items DefaultBatchOptions fs w"

text \<open>Of the option arguments only the first counts, and only if it is of the expected type; \<open>None\<close> is an argument of another type.\<close>

definition BatchUpdateWithOptions ::
  "(qerror \<Rightarrow> string) \<Rightarrow> convenv \<Rightarrow> (gtype sfield \<Rightarrow> string) \<Rightarrow> ('w, 'z) Executor_scheme \<Rightarrow> (keyArg list list \<Rightarrow> keyArg list list) \<Rightarrow> Query \<Rightarrow> keyArg list
     \<Rightarrow> string list \<Rightarrow> 'w BatchUpdateOptions option list \<Rightarrow> 'w \<Rightarrow> (qerror, unit) result \<times> 'w" where
  "BatchUpdateWithOptions msg env dyn ex schedule q items fs options w =
     batchUpdateWithOptionsInternal msg env dyn ex schedule q (Some items)
       (case options of Some opts # _ \<Rightarrow> opts | _ \<Rightarrow> DefaultBatchOptions) fs w"

section \<open>The executor of batch writes\<close>

text \<open>\<open>client\<close> is the SDK's \<open>BatchWriteItem\<close> on one table's requests.\<close>

definition ExecuteBatchWriteItem ::
  "(string \<Rightarrow> WriteRequest list \<Rightarrow> 'w \<Rightarrow> (string, (string \<times> WriteRequest list) list) result \<times> 'w) \<Rightarrow> 'w batchWriter" where
  "ExecuteBatchWriteItem client tableName writeRequests w =
     (if writeRequests = [] then (Inr (Some []), w)
      else if length writeRequests > 25 then
        (Inl (QueryError (''batch write supports maximum 25 items per request, got '' @ showNat (length writeRequests))), w)
      else case client tableName writeRequests w of
        (Inl e, w') \<Rightarrow> (Inl (Wrapped ''batch write failed'' (CustomFailed e)), w')
      | (Inr unprocessed, w') \<Rightarrow> (Inr (Some unprocessed), w'))"

record BatchDeleteResult =
  bdUnprocessedKeys :: "item list"
  bdErrors :: "qerror list"
  bdSucceeded :: int
  bdFailed :: int

definition deletedKey :: "WriteRequest \<Rightarrow> item option" where
  "deletedKey r = (case r of DeleteRequest k \<Rightarrow> Some k | PutRequest _ \<Rightarrow> None)"

text \<open>The result after one batch.\<close>

definition countBatch :: "WriteRequest list \<Rightarrow> (qerror, (string \<times> WriteRequest list) list option) result \<Rightarrow> BatchDeleteResult \<Rightarrow> BatchDeleteResult" where
  "countBatch batch r res =
     (case r of
        Inl e \<Rightarrow> res \<lparr> bdFailed := bdFailed res + int (length batch), bdErrors := bdErrors res @ [e] \<rparr>
      | Inr u \<Rightarrow>
          (let unprocessed = concat (map snd (case u of Some m \<Rightarrow> m | None \<Rightarrow> [])); n = int (length unprocessed) in
           res \<lparr> bdSucceeded := bdSucceeded res + (int (length batch) - n), bdFailed := bdFailed res + n,
                 bdUnprocessedKeys := bdUnprocessedKeys res @ List.map_filter deletedKey unprocessed \<rparr>))"

fun deleteBatches :: "'w batchWriter \<Rightarrow> string \<Rightarrow> WriteRequest list list \<Rightarrow> BatchDeleteResult \<Rightarrow> 'w \<Rightarrow> BatchDeleteResult \<times> 'w" where
  "deleteBatches bw tn [] res w = (res, w)"
| "deleteBatches bw tn (batch # batches) res w =
     (case bw tn batch w of (r, w') \<Rightarrow> deleteBatches bw tn batches (countBatch batch r res) w')"

definition BatchDeleteWithResult ::
  "(string \<Rightarrow> WriteRequest list \<Rightarrow> 'w \<Rightarrow> (string, (string \<times> WriteRequest list) list) result \<times> 'w) \<Rightarrow> string \<Rightarrow> item list \<Rightarrow> 'w \<Rightarrow> BatchDeleteResult \<times> 'w" where
  "BatchDeleteWithResult client tn keys w =
     deleteBatches (ExecuteBatchWriteItem client) tn (windows 25 (map DeleteRequest keys))
       \<lparr> bdUnprocessedKeys = [], bdErrors = [], bdSucceeded = 0, bdFailed = 0 \<rparr> w"

section \<open>Every request is written once\<close>

text \<open>The contract of a batch writer over a ghost \<open>applied\<close>, the multiset of requests the table has taken: what is not reported as
  unprocessed has been applied, and a call that fails has applied at most what it was given.\<close>

definition partialWrite :: "('w \<Rightarrow> WriteRequest multiset) \<Rightarrow> WriteRequest list \<Rightarrow> 'w \<Rightarrow> 'w \<Rightarrow> bool" where
  "partialWrite applied reqs w w' = (applied w \<subseteq># applied w' \<and> applied w' \<subseteq># applied w + mset reqs)"

lemma partialWrite_step:
  assumes "applied w1 = applied w + mset a" "partialWrite applied b w1 w'"
  shows "partialWrite applied (a @ b) w w'"
  using assms unfolding partialWrite_def
  by (metis (no_types, lifting) add.assoc mset_append mset_subset_eq_add_left subset_mset.order_trans)

definition quietProgress :: "('w \<Rightarrow> WriteRequest multiset) \<Rightarrow> 'w BatchUpdateOptions \<Rightarrow> bool" where
  "quietProgress applied opts = (\<forall>a b w. applied (reportProgress opts a b w) = applied w)"

locale batch_writer =
  fixes bw :: "'w batchWriter" and applied :: "'w \<Rightarrow> WriteRequest multiset"
  assumes processed: "bw tn reqs w = (Inr (Some unp), w') \<Longrightarrow> applied w' + mset (concat (map snd unp)) = applied w + mset reqs"
    and failed: "bw tn reqs w = (r, w') \<Longrightarrow> partialWrite applied reqs w w'"
begin

lemma loop:
  assumes "batchWriteLoop bw opts tn req n reqs w = (r, ds, w')" "quietProgress applied opts"
  shows "partialWrite applied reqs w w' \<and> (r = Inr () \<longrightarrow> applied w' = applied w + mset reqs) \<and> length ds \<le> 4 - n"
  using assms(1)
proof (induction "5 - n" arbitrary: n reqs w r ds w' rule: less_induct)
  case less
  note run = less.prems[unfolded batchWriteLoop.simps[of bw opts tn req n reqs w]]
  show ?case
  proof (cases "reqs = [] \<or> n \<ge> 5")
    case True
    then have "w' = w" "ds = []" "r = Inr () \<Longrightarrow> reqs = []" using run by (auto split: if_splits)
    then show ?thesis by (auto simp: partialWrite_def)
  next
    case False
    obtain q w1 where b: "bw tn reqs w = (q, w1)" by (cases "bw tn reqs w")
    note part = failed[OF b]
    show ?thesis
    proof (cases "\<exists>unp. q = Inr (Some unp) \<and> concat (map snd unp) \<noteq> []")
      case True
      then obtain unp rest where u: "q = Inr (Some unp)" "concat (map snd unp) = rest" "rest \<noteq> []" by blast
      let ?w = "reportProgress opts (int req - int (length rest)) (int req) w1"
      obtain ds' where rec: "batchWriteLoop bw opts tn req (n + 1) rest ?w = (r, ds', w')" "ds = (if n + 1 < 5 then [writeBackoff (n + 1)] else []) @ ds'"
        using run False u(3) by (auto simp: b u(1,2) Let_def split: prod.splits)
      have same: "applied ?w = applied w1" using assms(2) by (simp add: quietProgress_def)
      have IH: "partialWrite applied rest ?w w' \<and> (r = Inr () \<longrightarrow> applied w' = applied ?w + mset rest) \<and> length ds' \<le> 4 - (n + 1)"
        by (rule less.hyps[OF _ rec(1)]) (use False in arith)
      note eq = processed[OF b[unfolded u(1)], unfolded u(2)]
      have "partialWrite applied reqs w w'"
        using IH part unfolding partialWrite_def same eq[symmetric] by (meson subset_mset.order_trans)
      then show ?thesis using IH rec(2) same eq False by auto
    next
      case other: False
      then have fin: "w' = w1" "ds = []" "r = Inr () \<Longrightarrow> \<exists>unp. q = Inr (Some unp) \<and> mset (concat (map snd unp)) = {#}"
        using run False by (auto simp: b Let_def simp del: mset_concat split: sum.splits option.splits)
      have "applied w1 = applied w + mset reqs" if "r = Inr ()"
        using fin(3)[OF that] processed[of tn reqs w _ w1] b by fastforce
      then show ?thesis using part fin(1,2) by simp
    qed
  qed
qed

lemma retries:
  assumes "executeBatchWriteWithRetries (Some bw) tn reqs opts w = (r, w')" "quietProgress applied opts"
  shows "partialWrite applied reqs w w' \<and> (r = Inr () \<longrightarrow> applied w' = applied w + mset reqs)"
  using assms(1) loop[OF _ assms(2)]
  by (auto simp: executeBatchWriteWithRetries_def partialWrite_def split: if_splits prod.splits)

lemma batches:
  assumes "runBatches (\<lambda>b. onTable q (\<lambda>tn. executeBatchWriteWithRetries (Some bw) tn b opts)) subj opts tot bs k w = (r, w')"
    "quietProgress applied opts" "ErrorHandler opts = None"
  shows "partialWrite applied (concat bs) w w' \<and> (r = Inr () \<longrightarrow> applied w' = applied w + mset (concat bs))"
  using assms(1)
proof (induction bs arbitrary: k w)
  case Nil
  then show ?case by (simp add: partialWrite_def)
next
  case (Cons b bs)
  let ?exec = "\<lambda>b. onTable q (\<lambda>tn. executeBatchWriteWithRetries (Some bw) tn b opts)"
  obtain r1 w1 where e: "?exec b w = (r1, w1)" by (cases "?exec b w")
  have first: "partialWrite applied b w w1 \<and> (r1 = Inr () \<longrightarrow> applied w1 = applied w + mset b)"
    using e retries[OF _ assms(2)] by (auto simp: onTable_def partialWrite_def split: option.splits)
  show ?case
  proof (cases r1)
    case (Inl x)
    then have "r = Inl x" "w' = w1" using Cons.prems e assms(3) by (auto simp: handleBatchUpdateError_def)
    then show ?thesis using first unfolding partialWrite_def
      by (auto intro: subset_mset.order_trans)
  next
    case (Inr u)
    let ?w = "reportProgress opts (k + int (length b)) tot w1"
    have rest: "runBatches ?exec subj opts tot bs (k + int (length b)) ?w = (r, w')" using Cons.prems e Inr by (simp add: Let_def)
    have "applied ?w = applied w + mset b" using assms(2) first Inr by (simp add: quietProgress_def)
    moreover have "applied w \<subseteq># applied w + mset b" by simp
    ultimately show ?thesis using Cons.IH[OF rest] subset_mset.order_trans[of "applied w" "applied w + mset b" "applied w'"]
      by (auto simp: partialWrite_def ac_simps)
  qed
qed

end

text \<open>The documented behaviour of the SDK's \<open>BatchWriteItem\<close>, and that the executor built on it keeps the contract.\<close>

definition batchWriteLaw :: "(string \<Rightarrow> WriteRequest list \<Rightarrow> 'w \<Rightarrow> (string, (string \<times> WriteRequest list) list) result \<times> 'w) \<Rightarrow> ('w \<Rightarrow> WriteRequest multiset) \<Rightarrow> bool" where
  "batchWriteLaw client applied = (\<forall>tn reqs w.
     case client tn reqs w of
       (Inr unp, w') \<Rightarrow> applied w' + mset (concat (map snd unp)) = applied w + mset reqs \<and> applied w \<subseteq># applied w'
     | (Inl _, w') \<Rightarrow> partialWrite applied reqs w w')"

lemma ExecuteBatchWriteItem_contract:
  assumes "batchWriteLaw client applied"
  shows "batch_writer (ExecuteBatchWriteItem client) applied"
proof
  fix tn reqs w unp w'
  have law: "case client tn reqs w of (Inr unp, w') \<Rightarrow> applied w' + mset (concat (map snd unp)) = applied w + mset reqs \<and> applied w \<subseteq># applied w'
     | (Inl _, w') \<Rightarrow> partialWrite applied reqs w w'" using assms by (simp add: batchWriteLaw_def)
  {
    assume "ExecuteBatchWriteItem client tn reqs w = (Inr (Some unp), w')"
    then show "applied w' + mset (concat (map snd unp)) = applied w + mset reqs"
      using law by (auto simp: ExecuteBatchWriteItem_def split: if_splits prod.splits sum.splits)
  }
  fix r assume run: "ExecuteBatchWriteItem client tn reqs w = (r, w')"
  have "partialWrite applied reqs w w'" if "client tn reqs w = (q, w')" for q
  proof (cases q)
    case (Inr u)
    then have "applied w' + mset (concat (map snd u)) = applied w + mset reqs" "applied w \<subseteq># applied w'" using law that by auto
    then show ?thesis unfolding partialWrite_def by (metis mset_subset_eq_add_left)
  qed (use law that in auto)
  then show "partialWrite applied reqs w w'"
    using run by (auto simp: ExecuteBatchWriteItem_def partialWrite_def split: if_splits prod.splits sum.splits)
qed

lemma appendRequests_all:
  assumes "ErrorHandler opts = None" "appendRequests mk failed arg opts xs acc w = (r, w')"
  shows "w' = w \<and> (\<forall>reqs. r = Inr reqs \<longrightarrow> (\<exists>new. mapE mk xs = Inr new \<and> reqs = acc @ new))"
  using assms(2)
proof (induction xs arbitrary: acc)
  case (Cons x xs)
  show ?case
  proof (cases "mk x")
    case (Inl e)
    then show ?thesis using Cons.prems assms(1) by (auto simp: handleBatchUpdateError_def)
  next
    case (Inr y)
    then show ?thesis using Cons.IH[of "acc @ [y]"] Cons.prems by fastforce
  qed
qed auto

text \<open>C31. A batch write over core's executor (\<open>ExecuteBatchWriteItem\<close> of \<open>core/executor_batch.go\<close>), without an error handler and with a progress
  callback that does not write itself: when it reports success it has written every put item and every delete key, each exactly once; when it
  reports an error it has written nothing that was not asked for, nothing twice, and undone nothing.  The
  requests that DynamoDB leaves unprocessed are retried.\<close>

theorem BatchWrite_writes_once:
  assumes "batchWriteLaw client applied" "quietProgress applied opts" "ErrorHandler opts = None"
    and "BatchWriteWithOptions env dyn (Some (ExecuteBatchWriteItem client)) q puts dels opts w = (r, w')"
  shows "(r = Inr () \<longrightarrow> (\<exists>ps ds. mapE (putRequestOf env q) puts = Inr ps \<and> mapE (deleteRequestOf env dyn q) dels = Inr ds
            \<and> applied w' = applied w + mset ps + mset ds))
    \<and> (applied w' = applied w \<or> (\<exists>ps ds. mapE (putRequestOf env q) puts = Inr ps \<and> mapE (deleteRequestOf env dyn q) dels = Inr ds
            \<and> partialWrite applied (ps @ ds) w w'))"
proof (cases "puts = [] \<and> dels = []")
  case True
  then show ?thesis using assms(4) by (auto simp: BatchWriteWithOptions_def)
next
  case False
  define opts1 where "opts1 = (if MaxBatchSize opts \<le> 0 \<or> MaxBatchSize opts > 25 then opts \<lparr> MaxBatchSize := 25 \<rparr> else opts)"
  have o1: "ErrorHandler opts1 = None" "quietProgress applied opts1"
    using assms(2,3) by (simp_all add: opts1_def quietProgress_def reportProgress_def)
  have ne: "int (length puts) + int (length dels) \<noteq> 0" using False by (cases puts; cases dels) simp_all
  let ?tot = "int (length puts) + int (length dels)"
  note W = assms(4)[unfolded BatchWriteWithOptions_def Let_def, folded opts1_def]
  obtain r1 w1 where p: "appendPutWriteRequests env q opts1 puts [] w = (r1, w1)" by (cases "appendPutWriteRequests env q opts1 puts [] w")
  note ap = appendRequests_all[OF o1(1) p[unfolded appendPutWriteRequests_def]]
  show ?thesis
  proof (cases r1)
    case (Inl e)
    then show ?thesis using W ne p ap by (auto simp: buildBatchWriteRequests_def)
  next
    case (Inr ps)
    obtain r2 w2 where d: "appendDeleteWriteRequests env dyn q opts1 dels ps w1 = (r2, w2)" by (cases "appendDeleteWriteRequests env dyn q opts1 dels ps w1")
    note ad = appendRequests_all[OF o1(1) d[unfolded appendDeleteWriteRequests_def]]
    show ?thesis
    proof (cases r2)
      case e: (Inl e)
      then show ?thesis using W ne p Inr d ap ad by (auto simp: buildBatchWriteRequests_def)
    next
      case all: (Inr reqs)
      obtain ds where ds: "mapE (putRequestOf env q) puts = Inr ps" "mapE (deleteRequestOf env dyn q) dels = Inr ds" "reqs = ps @ ds"
        using ap ad Inr all by auto
      have "runBatches (\<lambda>b. onTable q (\<lambda>tn. executeBatchWriteWithRetries (Some (ExecuteBatchWriteItem client)) tn b opts1)) RequestBatch opts1 ?tot
          (splitWriteRequests reqs (MaxBatchSize opts1)) 0 w = (r, w')"
        using W ne p Inr d all ap ad by (simp add: buildBatchWriteRequests_def)
      from batch_writer.batches[OF ExecuteBatchWriteItem_contract[OF assms(1)] this o1(2,1)]
      have "partialWrite applied reqs w w' \<and> (r = Inr () \<longrightarrow> applied w' = applied w + mset reqs)"
        using effectiveSize_bounds[of 25 "MaxBatchSize opts1"] by (simp add: splitWriteRequests_def windows_concat)
      then show ?thesis using ds by (auto simp: add.assoc)
    qed
  qed
qed

text \<open>A table in memory that throttles: each call takes as many requests as the head of a list says.\<close>

definition throttledTable :: "string \<Rightarrow> WriteRequest list \<Rightarrow> WriteRequest multiset \<times> nat list \<Rightarrow> (string, (string \<times> WriteRequest list) list) result \<times> WriteRequest multiset \<times> nat list" where
  "throttledTable tn reqs = (\<lambda>(m, quota).
     case quota of
       [] \<Rightarrow> (Inr [], (m + mset reqs, []))
     | n # ns \<Rightarrow> (Inr [(tn, drop n reqs)], (m + mset (take n reqs), ns)))"

lemma throttledTable_law: "batchWriteLaw throttledTable fst"
proof -
  have "mset (take n reqs) + mset (drop n reqs) = mset reqs" for n :: nat and reqs :: "WriteRequest list"
    by (metis append_take_drop_id mset_append)
  then show ?thesis by (auto simp: batchWriteLaw_def throttledTable_def add.assoc split: list.splits)
qed

interpretation throttled: batch_writer "ExecuteBatchWriteItem throttledTable" fst
  by (rule ExecuteBatchWriteItem_contract) (rule throttledTable_law)

lemma demo_deletes:
  "mapE (deleteRequestOf plainEnv (\<lambda>_. []) demoOwner) [AnyKey (Some (TString, VString ''a'')), AnyKey (Some (TString, VString ''b''))]
     = Inr [DeleteRequest [(''id'', AVS ''a'')], DeleteRequest [(''id'', AVS ''b'')]]"
proof -
  have "extractKey (\<lambda>_. []) demoOwner (AnyKey (Some (TString, VString s))) = Inr [(''ID'', Some (TString, VString s))]" for s
    by (simp add: extractKey_def demoLike_facts Let_def) (simp add: demoMetadata_def structValue_def kindOf_def extractKeyFromPrimitive_def)
  moreover have "ConvertToAttributeValue plainEnv (Some (TString, VString s)) = Inr (AVS s)" for s
    by (simp add: ConvertToAttributeValue_def plainEnv_def withMarshaler_def)
  moreover have "resolveAttributeName demoOwner ''ID'' = ''id''" by (simp add: resolveAttributeName_def demoLike_facts)
  ultimately show ?thesis by (simp add: deleteRequestOf_def extractKeyAttributeValues_def keyValueAttribute_def isKeyValue_def)
qed

theorem BatchWrite_writes_once_witness:
  "fst (snd (BatchWriteWithOptions plainEnv (\<lambda>_. []) (Some (ExecuteBatchWriteItem throttledTable)) demoOwner []
     [AnyKey (Some (TString, VString ''a'')), AnyKey (Some (TString, VString ''b''))] DefaultBatchOptions ({#}, [1])))
   = {#DeleteRequest [(''id'', AVS ''a'')], DeleteRequest [(''id'', AVS ''b'')]#}"
proof -
  let ?keys = "[AnyKey (Some (TString, VString ''a'')), AnyKey (Some (TString, VString ''b''))]"
  let ?run = "BatchWriteWithOptions plainEnv (\<lambda>_. []) (Some (ExecuteBatchWriteItem throttledTable)) demoOwner [] ?keys DefaultBatchOptions ({#}, [1])"
  have q: "quietProgress fst DefaultBatchOptions" "ErrorHandler DefaultBatchOptions = None"
    by (simp_all add: quietProgress_def reportProgress_def DefaultBatchOptions_def)
  have reqs: "buildBatchWriteRequests plainEnv (\<lambda>_. []) demoOwner [] ?keys DefaultBatchOptions w =
      (Inr [DeleteRequest [(''id'', AVS ''a'')], DeleteRequest [(''id'', AVS ''b'')]], w)" for w
    using demo_deletes by (simp add: buildBatchWriteRequests_def appendPutWriteRequests_def appendDeleteWriteRequests_def split: sum.splits)
  have "fst ?run = Inr ()"
    by (simp add: BatchWriteWithOptions_def reqs Let_def) (simp add: DefaultBatchOptions_def splitWriteRequests_def effectiveSize_def windows.simps onTable_def
        demoLike_facts executeBatchWriteWithRetries_def batchWriteLoop.simps ExecuteBatchWriteItem_def throttledTable_def reportProgress_def)
  then obtain w' where run: "?run = (Inr (), w')" by (metis prod.collapse)
  from BatchWrite_writes_once[OF throttledTable_law q run] show ?thesis unfolding run demo_deletes by auto
qed

section \<open>Keys are of key type\<close>

definition keyNames :: "CoreKeySchema \<Rightarrow> string list" where
  "keyNames ks = ksPartitionKey ks # (if ksSortKey ks = [] then [] else [ksSortKey ks])"

lemma update_keys: "fst ` set (AList.update k v xs) = insert k (fst ` set xs)"
  by (induction xs) auto

lemma extractKey_names:
  assumes "extractKey dyn q key = Inr kv" "metadata q = Some md"
  shows "fst ` set kv = set (keyNames (mmPrimaryKey md))"
  using assms
  by (auto simp: extractKey_def Let_def extractKeyFromPair_def extractKeyFromPrimitive_def extractKeyFromStruct_def bindE_eq_Inr keyNames_def update_keys
      split: if_splits keyArg.splits option.splits)

text \<open>C32. Whatever is given as a key (a pair, a struct, a pointer, a plain value), the key of a batch request has exactly the attributes of the
  table's primary key, each of one of the three types DynamoDB allows for keys; anything else is an error.\<close>

theorem batch_key_typed:
  assumes "extractKeyAttributeValues env dyn q key = Inr av" "metadata q = Some md"
  shows "list_all (\<lambda>e. isKeyValue (snd e)) av \<and> fst ` set av = resolveAttributeName q ` set (keyNames (mmPrimaryKey md))"
proof -
  obtain kv where kv: "extractKey dyn q key = Inr kv" "foldE (keyValueAttribute env q) kv [] = Inr av"
    using assms(1) by (auto simp: extractKeyAttributeValues_def bindE_eq_Inr)
  have step: "fst ` set s' = insert (resolveAttributeName q (fst x)) (fst ` set s) \<and> (list_all (\<lambda>e. isKeyValue (snd e)) s \<longrightarrow> list_all (\<lambda>e. isKeyValue (snd e)) s')"
    if ok: "keyValueAttribute env q x s = Inr s'" for x s s'
  proof -
    obtain av' where "s' = AList.update (resolveAttributeName q (fst x)) av' s" "isKeyValue av'"
      using ok by (auto simp: keyValueAttribute_def split: sum.splits if_splits prod.splits)
    then show ?thesis by (auto simp: update_keys list_all_iff dest!: update_entries)
  qed
  have "foldE (keyValueAttribute env q) xs s = Inr t \<Longrightarrow> list_all (\<lambda>e. isKeyValue (snd e)) s \<Longrightarrow>
      list_all (\<lambda>e. isKeyValue (snd e)) t \<and> fst ` set t = resolveAttributeName q ` fst ` set xs \<union> fst ` set s" for xs s t
  proof (induction xs arbitrary: s)
    case (Cons x xs)
    then obtain s' where s': "keyValueAttribute env q x s = Inr s'" "foldE (keyValueAttribute env q) xs s' = Inr t" by (auto split: sum.splits)
    show ?case using Cons.IH[OF s'(2)] step[OF s'(1)] Cons.prems(2) by simp
  qed simp
  from this[OF kv(2)] show ?thesis using extractKey_names[OF kv(1) assms(2)] by simp
qed

theorem batch_key_typed_witness:
  "\<exists>av. extractKeyAttributeValues plainEnv (\<lambda>_. []) demoOwner (KeyPair (Some (TInt IntN, VInt 7)) None) = Inr av
     \<and> list_all (\<lambda>e. isKeyValue (snd e)) av \<and> fst ` set av = {''id''}"
proof -
  have pk: "mmPrimaryKey demoMetadata = \<lparr> ksPartitionKey = ''ID'', ksSortKey = [] \<rparr>" by (simp add: demoMetadata_def)
  have "extractKey (\<lambda>_. []) demoOwner (KeyPair (Some (TInt IntN, VInt 7)) None) = Inr [(''ID'', Some (TInt IntN, VInt 7))]"
    by (simp add: extractKey_def demoLike_facts pk extractKeyFromPair_def)
  moreover have "ConvertToAttributeValue plainEnv (Some (TInt IntN, VInt 7)) = Inr (AVN ''7'')"
    by (simp add: ConvertToAttributeValue_def plainEnv_def withMarshaler_def) (simp add: showInt_def showNat.simps char_eval)
  ultimately have e: "extractKeyAttributeValues plainEnv (\<lambda>_. []) demoOwner (KeyPair (Some (TInt IntN, VInt 7)) None) = Inr [(resolveAttributeName demoOwner ''ID'', AVN ''7'')]"
    by (simp add: extractKeyAttributeValues_def keyValueAttribute_def isKeyValue_def)
  have "resolveAttributeName demoOwner ''ID'' = ''id''" by (simp add: resolveAttributeName_def demoLike_facts)
  then show ?thesis using e batch_key_typed[OF e demoLike_facts(3)[OF demoLike_owner]] by (auto simp: keyNames_def pk)
qed

end
