(* ===== verification/BatchGet.thy ===== *)
theory BatchGet
  imports BatchWrite
begin

text \<open>
  Batch reads: \<open>pkg/query/batch_get.go\<close> with \<open>pkg/core/batch_get_options.go\<close>, from the keys the caller gives to the items in the order of
  the keys.  The executor and the callbacks are parameters on a world \<open>'w\<close>; \<open>None\<close> in the ordered results stands for Go's nil map.  Workers of
  a parallel read fill disjoint slots of the results under a mutex, so they are modelled as running one after the other in some order.
  Attribute values are compared as they are; the ones that occur in keys are strings, numbers and binaries.  Decoding the items into the
  destination is left to the executor's unmarshalling.
\<close>

section \<open>Options\<close>

text \<open>A key as the caller gives it: a \<open>KeyPair\<close> or a pointer to one, a map of attribute values, a map of Go values, any other value.\<close>

datatype getKey =
    PairKey goany goany
  | PairPtrKey "(goany \<times> goany) option"
  | AttrsKey item
  | MapKey "(string \<times> goany) list"
  | ValueKey goany

definition NewKeyPair :: "goany \<Rightarrow> goany list \<Rightarrow> getKey" where
  "NewKeyPair partitionKey sortKey = PairKey partitionKey (case sortKey of [] \<Rightarrow> None | s # _ \<Rightarrow> s)"

record 'w BatchGetOptions =
  bgRetryPolicy :: "RetryPolicy option"
  bgProgressCallback :: "(int \<Rightarrow> int \<Rightarrow> 'w \<Rightarrow> 'w) option"
  bgOnChunkError :: "(getKey list \<Rightarrow> qerror \<Rightarrow> 'w \<Rightarrow> qerror option \<times> 'w) option"
  bgChunkSize :: int
  bgMaxConcurrency :: int
  bgConsistentRead :: bool
  bgParallel :: bool

definition DefaultBatchGetOptions :: "'w BatchGetOptions" where
  "DefaultBatchGetOptions = \<lparr> bgRetryPolicy = Some DefaultRetryPolicy, bgProgressCallback = None, bgOnChunkError = None, bgChunkSize = 100,
     bgMaxConcurrency = 4, bgConsistentRead = False, bgParallel = False \<rparr>"

text \<open>Options are values here, so their copies (\<open>Clone\<close>) are the options themselves.\<close>

definition normalizeBatchGetOptions :: "'w BatchGetOptions option \<Rightarrow> 'w BatchGetOptions" where
  "normalizeBatchGetOptions given =
     (let o0 = (case given of None \<Rightarrow> DefaultBatchGetOptions | Some o' \<Rightarrow> o');
          o1 = (if bgChunkSize o0 \<le> 0 \<or> bgChunkSize o0 > 100 then o0 \<lparr> bgChunkSize := 100 \<rparr> else o0);
          o2 = (if bgRetryPolicy o1 = None \<and> given = None then o1 \<lparr> bgRetryPolicy := Some DefaultRetryPolicy \<rparr> else o1);
          o3 = (if bgMaxConcurrency o2 \<le> 0 then o2 \<lparr> bgMaxConcurrency := 1 \<rparr> else o2) in
      if \<not> bgParallel o3 \<or> bgMaxConcurrency o3 = 1 then o3 \<lparr> bgParallel := False, bgMaxConcurrency := 1 \<rparr> else o3)"

section \<open>Keys\<close>

definition remapKeyAttributes :: "Query \<Rightarrow> item \<Rightarrow> item" where
  "remapKeyAttributes q key = fold (\<lambda>(field, av). AList.update (resolveAttributeName q field) av) key []"

definition keyPairToAttributes :: "convenv \<Rightarrow> Query \<Rightarrow> ModelMetadata \<Rightarrow> goany \<Rightarrow> goany \<Rightarrow> (qerror, item) result" where
  "keyPairToAttributes env q md pk sk =
     (let schema = mmPrimaryKey md in
      if ksPartitionKey schema = [] then Inl (QueryError ''model is missing a partition key'')
      else if pk = None then Inl (QueryError (''partition key value is required for '' @ ksPartitionKey schema))
      else bindE (mapErr (Wrapped ''failed to convert partition key'') (toAttributeValue env q pk)) (\<lambda>pav.
        let attrs = [(resolveAttributeName q (ksPartitionKey schema), pav)] in
        if ksSortKey schema = [] then Inr attrs
        else if sk = None then Inl (QueryError (''sort key value is required for '' @ ksSortKey schema))
        else bindE (mapErr (Wrapped ''failed to convert sort key'') (toAttributeValue env q sk)) (\<lambda>sav.
          Inr (AList.update (resolveAttributeName q (ksSortKey schema)) sav attrs))))"

definition partitionOnlyKey :: "convenv \<Rightarrow> Query \<Rightarrow> ModelMetadata \<Rightarrow> goany \<Rightarrow> (qerror, item) result" where
  "partitionOnlyKey env q md v =
     (let schema = mmPrimaryKey md in
      if ksPartitionKey schema = [] then Inl (QueryError ''model is missing a partition key'')
      else if ksSortKey schema \<noteq> [] then
        Inl (QueryError (''composite key requires both '' @ ksPartitionKey schema @ '' and '' @ ksSortKey schema))
      else bindE (mapErr (Wrapped ''failed to convert partition key value'') (toAttributeValue env q v)) (\<lambda>av.
        Inr [(resolveAttributeName q (ksPartitionKey schema), av)]))"

definition isStructLike :: "goany \<Rightarrow> bool" where
  "isStructLike v = (structValue v \<noteq> None)"

definition convertKeyMap :: "convenv \<Rightarrow> Query \<Rightarrow> (string \<times> goany) list \<Rightarrow> (qerror, item) result" where
  "convertKeyMap env q m =
     foldE (\<lambda>(attr, v) out. bindE (mapErr (Wrapped (''failed to convert key attribute '' @ attr)) (toAttributeValue env q v)) (\<lambda>av.
       Inr (AList.update attr av out))) m []"

definition nilKey :: qerror where
  "nilKey = QueryError ''key cannot be nil''"

definition buildBatchGetKey :: "convenv \<Rightarrow> (gtype sfield \<Rightarrow> string) \<Rightarrow> Query \<Rightarrow> ModelMetadata \<Rightarrow> getKey \<Rightarrow> (qerror, item) result" where
  "buildBatchGetKey env dyn q md key =
     (case key of
        PairKey p s \<Rightarrow> keyPairToAttributes env q md p s
      | PairPtrKey None \<Rightarrow> Inl nilKey
      | PairPtrKey (Some (p, s)) \<Rightarrow> keyPairToAttributes env q md p s
      | AttrsKey m \<Rightarrow> (if m = [] then Inl (QueryError ''key map cannot be empty'') else Inr (remapKeyAttributes q m))
      | MapKey m \<Rightarrow>
          (if m = [] then Inl (QueryError ''key map cannot be empty'')
           else bindE (convertKeyMap env q m) (\<lambda>converted. Inr (remapKeyAttributes q converted)))
      | ValueKey None \<Rightarrow> Inl nilKey
      | ValueKey v \<Rightarrow>
          (if isStructLike v then bindE (extractKeyAttributeValues env dyn q (AnyKey v)) (\<lambda>raw. Inr (remapKeyAttributes q raw))
           else partitionOnlyKey env q md v))"

record batchKeySpec =
  specAttrs :: item
  specOriginal :: getKey
  specIndex :: nat

definition convertBatchGetKeys :: "convenv \<Rightarrow> (gtype sfield \<Rightarrow> string) \<Rightarrow> Query \<Rightarrow> ModelMetadata \<Rightarrow> getKey list \<Rightarrow> (qerror, batchKeySpec list) result" where
  "convertBatchGetKeys env dyn q md keys =
     mapE (\<lambda>(i, key). bindE (mapErr (Wrapped (''invalid key at index '' @ showNat i)) (buildBatchGetKey env dyn q md key)) (\<lambda>attrs.
       Inr \<lparr> specAttrs = attrs, specOriginal = key, specIndex = i \<rparr>)) (enumerate 0 keys)"

section \<open>Chunks\<close>

record CompiledBatchGet =
  cbTableName :: string
  cbKeys :: "item list"
  cbProjectionExpression :: string
  cbExpressionAttributeNames :: "(string \<times> string) list"
  cbConsistentRead :: bool

record batchGetChunk =
  chRequest :: CompiledBatchGet
  chKeys :: "batchKeySpec list"
  chOriginals :: "getKey list"

definition buildBatchGetProjection :: "Query \<Rightarrow> (qerror, string \<times> (string \<times> string) list) result" where
  "buildBatchGetProjection q =
     (if projection q = [] then Inr ([], [])
      else case Build (AddProjection (projection q) NewBuilder) of
        None \<Rightarrow> Inl QueryPanic
      | Some c \<Rightarrow> Inr (ProjectionExpression c, ExpressionAttributeNames c))"

definition buildBatchGetChunks :: "ModelMetadata \<Rightarrow> batchKeySpec list \<Rightarrow> int \<Rightarrow> bool \<Rightarrow> string \<Rightarrow> (string \<times> string) list \<Rightarrow> batchGetChunk list" where
  "buildBatchGetChunks md specs chunkSize consistent proj projNames =
     map (\<lambda>window.
       \<lparr> chRequest = \<lparr> cbTableName = mmTableName md, cbKeys = map specAttrs window, cbProjectionExpression = proj,
                         cbExpressionAttributeNames = projNames, cbConsistentRead = consistent \<rparr>,
         chKeys = window, chOriginals = map specOriginal window \<rparr>) (windows (nat chunkSize) specs)"

definition buildBatchGetPlan ::
  "convenv \<Rightarrow> (gtype sfield \<Rightarrow> string) \<Rightarrow> Query \<Rightarrow> ModelMetadata \<Rightarrow> getKey list \<Rightarrow> 'w BatchGetOptions option
     \<Rightarrow> (qerror, 'w BatchGetOptions \<times> batchKeySpec list \<times> batchGetChunk list) result" where
  "buildBatchGetPlan env dyn q md keys given =
     (let opts = normalizeBatchGetOptions given in
      bindE (convertBatchGetKeys env dyn q md keys) (\<lambda>specs.
      bindE (buildBatchGetProjection q) (\<lambda>(proj, projNames).
        Inr (opts, specs, buildBatchGetChunks md specs (bgChunkSize opts) (bgConsistentRead opts \<or> consistentRead q) proj projNames))))"

section \<open>Aligning results with keys\<close>

definition keyMatchesItem :: "item \<Rightarrow> item \<Rightarrow> bool" where
  "keyMatchesItem key itm = list_all (\<lambda>(attr, expected). map_of itm attr = Some expected) key"

definition findMatchingItem :: "item \<Rightarrow> item list \<Rightarrow> bool list \<Rightarrow> nat option" where
  "findMatchingItem key items used = find (\<lambda>i. \<not> used ! i \<and> keyMatchesItem key (items ! i)) [0..<length items]"

fun alignLoop :: "batchKeySpec list \<Rightarrow> item list \<Rightarrow> bool list \<Rightarrow> item option list \<Rightarrow> nat \<Rightarrow> item option list \<times> nat" where
  "alignLoop [] items used ordered matched = (ordered, matched)"
| "alignLoop (key # keys) items used ordered matched =
     (case findMatchingItem (specAttrs key) items used of
        None \<Rightarrow> alignLoop keys items used ordered matched
      | Some i \<Rightarrow> alignLoop keys items (used[i := True]) (ordered[specIndex key := Some (items ! i)]) (matched + 1))"

definition alignChunkResults :: "batchKeySpec list \<Rightarrow> item list \<Rightarrow> item option list \<Rightarrow> item option list \<times> nat" where
  "alignChunkResults keys items ordered =
     (if items = [] then (ordered, 0) else alignLoop keys items (replicate (length items) False) ordered 0)"

definition flattenBatchGetResults :: "item option list \<Rightarrow> item list" where
  "flattenBatchGetResults ordered = List.map_filter id ordered"

section \<open>Running the chunks\<close>

text \<open>\<open>ExecuteBatchGet\<close> of an executor: the items collected and the error, if any.\<close>

type_synonym 'w batchGetter = "CompiledBatchGet \<Rightarrow> 'w BatchGetOptions option \<Rightarrow> 'w \<Rightarrow> (item list \<times> qerror option) \<times> 'w"

text \<open>The state the chunks share: the ordered results and the count of the progress reporter.\<close>

definition processChunk ::
  "'w batchGetter \<Rightarrow> 'w BatchGetOptions \<Rightarrow> nat \<Rightarrow> batchGetChunk \<Rightarrow> (item option list \<times> nat) \<times> 'w \<Rightarrow> qerror option \<times> (item option list \<times> nat) \<times> 'w" where
  "processChunk exec opts totalKeys chunk = (\<lambda>((ordered, retrieved), w).
     case exec (chRequest chunk) (Some opts) w of
       ((_, Some e), w1) \<Rightarrow>
         (case bgOnChunkError opts of
            Some h \<Rightarrow> (case h (chOriginals chunk) e w1 of (r, w2) \<Rightarrow> (r, (ordered, retrieved), w2))
          | None \<Rightarrow> (Some e, (ordered, retrieved), w1))
     | ((items, None), w1) \<Rightarrow>
         (case alignChunkResults (chKeys chunk) items ordered of
            (ordered', matched) \<Rightarrow>
              (None, (ordered', retrieved + matched),
               (case bgProgressCallback opts of None \<Rightarrow> w1 | Some cb \<Rightarrow> cb (int (retrieved + matched)) (int totalKeys) w1))))"

fun runChunks ::
  "'w batchGetter \<Rightarrow> 'w BatchGetOptions \<Rightarrow> nat \<Rightarrow> batchGetChunk list \<Rightarrow> (item option list \<times> nat) \<times> 'w \<Rightarrow> qerror option \<times> (item option list \<times> nat) \<times> 'w" where
  "runChunks exec opts totalKeys [] s = (None, s)"
| "runChunks exec opts totalKeys (chunk # chunks) s =
     (case processChunk exec opts totalKeys chunk s of
        (Some e, s') \<Rightarrow> (Some e, s')
      | (None, s') \<Rightarrow> runChunks exec opts totalKeys chunks s')"

text \<open>\<open>runChunksParallel\<close>: every worker runs, in the order given; the first error that was sent is returned.\<close>

fun runChunksParallel ::
  "'w batchGetter \<Rightarrow> 'w BatchGetOptions \<Rightarrow> nat \<Rightarrow> batchGetChunk list \<Rightarrow> (item option list \<times> nat) \<times> 'w \<Rightarrow> qerror option \<times> (item option list \<times> nat) \<times> 'w" where
  "runChunksParallel exec opts totalKeys [] s = (None, s)"
| "runChunksParallel exec opts totalKeys (chunk # chunks) s =
     (case processChunk exec opts totalKeys chunk s of
        (err, s') \<Rightarrow> (case runChunksParallel exec opts totalKeys chunks s' of (rest, s'') \<Rightarrow> (if err \<noteq> None then err else rest, s'')))"

definition executeBatchGetChunks ::
  "'w batchGetter \<Rightarrow> (batchGetChunk list \<Rightarrow> batchGetChunk list) \<Rightarrow> batchGetChunk list \<Rightarrow> batchKeySpec list \<Rightarrow> 'w BatchGetOptions \<Rightarrow> 'w \<Rightarrow> (qerror, item list) result \<times> 'w" where
  "executeBatchGetChunks exec schedule chunks specs opts w =
     (let s0 = ((replicate (length specs) None, 0), w);
          run = (if bgParallel opts \<and> bgMaxConcurrency opts > 1 then runChunksParallel exec opts (length specs) (schedule chunks) s0
                 else runChunks exec opts (length specs) chunks s0) in
      case run of
        (Some e, (_, w')) \<Rightarrow> (Inl e, w')
      | (None, ((ordered, _), w')) \<Rightarrow> (Inr (flattenBatchGetResults ordered), w'))"

text \<open>The items found, in the order of their keys; a \<open>*[]map[string]types.AttributeValue\<close> destination gets them as they are.\<close>

definition BatchGetWithOptions ::
  "convenv \<Rightarrow> (gtype sfield \<Rightarrow> string) \<Rightarrow> 'w batchGetter option \<Rightarrow> (batchGetChunk list \<Rightarrow> batchGetChunk list) \<Rightarrow> Query \<Rightarrow> getKey list \<Rightarrow> goany
     \<Rightarrow> 'w BatchGetOptions option \<Rightarrow> 'w \<Rightarrow> (qerror, item list) result \<times> 'w" where
  "BatchGetWithOptions env dyn executor schedule q keys dest given w =
     (case checkBuilderError q of Inl e \<Rightarrow> (Inl e, w) | Inr _ \<Rightarrow>
      (case metadata q of
         None \<Rightarrow> (Inl (QueryError ''model metadata is required for batch get''), w)
       | Some md \<Rightarrow>
           (if keys = [] then (Inl (QueryError ''no keys provided''), w)
            else if \<not> destSlice dest then (Inl (QueryError ''dest must be a pointer to slice''), w)
            else case executor of
              None \<Rightarrow> (Inl (QueryError ''executor does not support batch operations''), w)
            | Some exec \<Rightarrow>
                (case buildBatchGetPlan env dyn q md keys given of
                   Inl e \<Rightarrow> (Inl e, w)
                 | Inr (opts, specs, chunks) \<Rightarrow> executeBatchGetChunks exec schedule chunks specs opts w))))"

definition BatchGet ::
  "convenv \<Rightarrow> (gtype sfield \<Rightarrow> string) \<Rightarrow> 'w batchGetter option \<Rightarrow> (batchGetChunk list \<Rightarrow> batchGetChunk list) \<Rightarrow> Query \<Rightarrow> getKey list \<Rightarrow> goany \<Rightarrow> 'w \<Rightarrow> (qerror, item list) result \<times> 'w" where
  "BatchGet env dyn executor schedule q keys dest w = BatchGetWithOptions env dyn executor schedule q keys dest None w"

section \<open>The fluent builder\<close>

record 'w batchGetBuilder =
  bbQuery :: Query
  bbOpts :: "'w BatchGetOptions"
  bbKeys :: "getKey list"
  bbProjection :: "string list"

definition BatchGetBuilder :: "Query \<Rightarrow> 'w batchGetBuilder" where
  "BatchGetBuilder q = \<lparr> bbQuery = q, bbOpts = DefaultBatchGetOptions, bbKeys = [], bbProjection = [] \<rparr>"

definition bbSetKeys :: "getKey list \<Rightarrow> 'w batchGetBuilder \<Rightarrow> 'w batchGetBuilder" where
  "bbSetKeys keys b = b \<lparr> bbKeys := keys \<rparr>"

definition bbChunkSize :: "int \<Rightarrow> 'w batchGetBuilder \<Rightarrow> 'w batchGetBuilder" where
  "bbChunkSize n b = b \<lparr> bbOpts := bbOpts b \<lparr> bgChunkSize := n \<rparr> \<rparr>"

definition bbConsistentRead :: "'w batchGetBuilder \<Rightarrow> 'w batchGetBuilder" where
  "bbConsistentRead b = b \<lparr> bbOpts := bbOpts b \<lparr> bgConsistentRead := True \<rparr> \<rparr>"

definition bbParallel :: "int \<Rightarrow> 'w batchGetBuilder \<Rightarrow> 'w batchGetBuilder" where
  "bbParallel maxConcurrency b =
     b \<lparr> bbOpts := (if maxConcurrency > 1 then bbOpts b \<lparr> bgParallel := True, bgMaxConcurrency := maxConcurrency \<rparr>
                     else bbOpts b \<lparr> bgParallel := False, bgMaxConcurrency := 1 \<rparr>) \<rparr>"

definition bbWithRetry :: "RetryPolicy option \<Rightarrow> 'w batchGetBuilder \<Rightarrow> 'w batchGetBuilder" where
  "bbWithRetry policy b = b \<lparr> bbOpts := bbOpts b \<lparr> bgRetryPolicy := policy \<rparr> \<rparr>"

definition bbSelect :: "string list \<Rightarrow> 'w batchGetBuilder \<Rightarrow> 'w batchGetBuilder" where
  "bbSelect fs b = b \<lparr> bbProjection := fs \<rparr>"

definition bbOnProgress :: "(int \<Rightarrow> int \<Rightarrow> 'w \<Rightarrow> 'w) option \<Rightarrow> 'w batchGetBuilder \<Rightarrow> 'w batchGetBuilder" where
  "bbOnProgress cb b = b \<lparr> bbOpts := bbOpts b \<lparr> bgProgressCallback := cb \<rparr> \<rparr>"

definition bbOnError :: "(getKey list \<Rightarrow> qerror \<Rightarrow> 'w \<Rightarrow> qerror option \<times> 'w) option \<Rightarrow> 'w batchGetBuilder \<Rightarrow> 'w batchGetBuilder" where
  "bbOnError h b = b \<lparr> bbOpts := bbOpts b \<lparr> bgOnChunkError := h \<rparr> \<rparr>"

definition bbExecute ::
  "convenv \<Rightarrow> (gtype sfield \<Rightarrow> string) \<Rightarrow> 'w batchGetter option \<Rightarrow> (batchGetChunk list \<Rightarrow> batchGetChunk list) \<Rightarrow> 'w batchGetBuilder \<Rightarrow> goany \<Rightarrow> 'w \<Rightarrow> (qerror, item list) result \<times> 'w" where
  "bbExecute env dyn executor schedule b dest w =
     (let q = (if bbProjection b \<noteq> [] then Select (bbProjection b) (bbQuery b) else bbQuery b) in
      BatchGetWithOptions env dyn executor schedule q (bbKeys b) dest (Some (bbOpts b)) w)"

section \<open>Results in the order of the keys\<close>

text \<open>What a table holds under the keys of a request, and the contract of a batch reader: a call without error returns the items of the
  table under the keys of the request, in any order.\<close>

type_synonym tableContent = "item \<Rightarrow> item option"

definition itemsAt :: "tableContent \<Rightarrow> item set \<Rightarrow> item set" where
  "itemsAt tbl ks = {it. \<exists>k \<in> ks. tbl k = Some it}"

text \<open>Of the keys in \<open>ks\<close>, an item carries the attributes of its own key and of no other.\<close>

definition keyedBy :: "tableContent \<Rightarrow> item set \<Rightarrow> bool" where
  "keyedBy tbl ks = (\<forall>k \<in> ks. \<forall>it. tbl k = Some it \<longrightarrow> (\<forall>k' \<in> ks. keyMatchesItem k' it = (k' = k)))"

definition fillSlot :: "tableContent \<Rightarrow> batchKeySpec \<Rightarrow> item option list \<Rightarrow> item option list" where
  "fillSlot tbl s ordered = (case tbl (specAttrs s) of None \<Rightarrow> ordered | Some it \<Rightarrow> ordered[specIndex s := Some it])"

lemma fillSlot_simps [simp]:
  "tbl (specAttrs s) = None \<Longrightarrow> fillSlot tbl s ordered = ordered"
  "tbl (specAttrs s) = Some it \<Longrightarrow> fillSlot tbl s ordered = ordered[specIndex s := Some it]"
  "length (fillSlot tbl s ordered) = length ordered"
  by (simp_all add: fillSlot_def split: option.splits)

lemma findMatchingItem_keyed:
  assumes "keyedBy tbl ks" "k \<in> ks" "set items \<subseteq> itemsAt tbl ks" "\<And>it. tbl k = Some it \<Longrightarrow> it \<in> set items"
    and "\<And>i. i < length items \<Longrightarrow> used ! i \<Longrightarrow> \<not> keyMatchesItem k (items ! i)"
  shows "case findMatchingItem k items used of None \<Rightarrow> tbl k = None | Some i \<Rightarrow> i < length items \<and> tbl k = Some (items ! i)"
proof (cases "findMatchingItem k items used")
  case None
  then have no: "\<not> keyMatchesItem k (items ! i)" if "i < length items" for i
    using that assms(5) by (auto simp: findMatchingItem_def find_None_iff)
  have "tbl k \<noteq> Some it" for it
    using assms(1,2,4) no by (metis in_set_conv_nth keyedBy_def)
  then show ?thesis using None by (cases "tbl k") auto
next
  case (Some i)
  then have i: "i < length items" "keyMatchesItem k (items ! i)"
    by (auto simp: findMatchingItem_def find_Some_iff)
  then obtain k' where "k' \<in> ks" "tbl k' = Some (items ! i)" using assms(3) by (force simp: itemsAt_def)
  then show ?thesis using assms(1,2) i Some by (auto simp: keyedBy_def)
qed

lemma alignLoop_keyed:
  assumes "keyedBy tbl ks" "set items \<subseteq> itemsAt tbl ks" "specAttrs ` set keys \<subseteq> ks" "distinct (map specAttrs keys)"
    and "itemsAt tbl (specAttrs ` set keys) \<subseteq> set items" "length used = length items"
    and "\<And>i key. i < length items \<Longrightarrow> used ! i \<Longrightarrow> key \<in> set keys \<Longrightarrow> \<not> keyMatchesItem (specAttrs key) (items ! i)"
  shows "fst (alignLoop keys items used ordered m) = fold (fillSlot tbl) keys ordered"
  using assms(3-)
proof (induction keys arbitrary: used ordered m)
  case (Cons key keys)
  have here: "\<And>it. tbl (specAttrs key) = Some it \<Longrightarrow> it \<in> set items" using Cons.prems(3) by (auto simp: itemsAt_def)
  have found: "case findMatchingItem (specAttrs key) items used of None \<Rightarrow> tbl (specAttrs key) = None
      | Some i \<Rightarrow> i < length items \<and> tbl (specAttrs key) = Some (items ! i)"
    by (rule findMatchingItem_keyed[OF assms(1) _ assms(2) here]) (use Cons.prems in auto)
  have sub: "itemsAt tbl (specAttrs ` set keys) \<subseteq> set items" using Cons.prems(3) by (auto simp: itemsAt_def)
  show ?case
  proof (cases "findMatchingItem (specAttrs key) items used")
    case None
    have "fst (alignLoop keys items used ordered m) = fold (fillSlot tbl) keys ordered"
      by (rule Cons.IH) (use Cons.prems sub in auto)
    then show ?thesis using None found by simp
  next
    case (Some i)
    then have i: "i < length items" "tbl (specAttrs key) = Some (items ! i)" using found by auto
    have other: "\<not> keyMatchesItem (specAttrs o') (items ! i)" if "o' \<in> set keys" for o'
    proof -
      have "specAttrs o' \<in> ks" "specAttrs key \<in> ks" "specAttrs o' \<noteq> specAttrs key"
        using Cons.prems(1,2) imageI[OF that, of specAttrs] by auto
      then show ?thesis using assms(1) i(2) by (auto simp: keyedBy_def)
    qed
    have "\<not> keyMatchesItem (specAttrs o') (items ! j)" if "j < length items" "used[i := True] ! j" "o' \<in> set keys" for j o'
      using that other Cons.prems(4,5) by (cases "j = i") auto
    then have "fst (alignLoop keys items (used[i := True]) (ordered[specIndex key := Some (items ! i)]) (m + 1))
        = fold (fillSlot tbl) keys (ordered[specIndex key := Some (items ! i)])"
      by (intro Cons.IH) (use Cons.prems sub in simp_all)
    then show ?thesis using Some i by simp
  qed
qed simp

lemma alignChunkResults_keyed:
  assumes "keyedBy tbl (specAttrs ` set keys)" "set items = itemsAt tbl (specAttrs ` set keys)" "distinct (map specAttrs keys)"
  shows "fst (alignChunkResults keys items ordered) = fold (fillSlot tbl) keys ordered"
proof (cases "items = []")
  case True
  then have none: "\<And>it. it \<notin> itemsAt tbl (specAttrs ` set keys)" using assms(2) by simp
  have "tbl (specAttrs key) = None" if "key \<in> set keys" for key
    using none that by (cases "tbl (specAttrs key)") (auto simp: itemsAt_def)
  then have "fold (fillSlot tbl) keys ordered = ordered" by (induction keys) auto
  then show ?thesis using True by (simp add: alignChunkResults_def)
next
  case False
  have "fst (alignLoop keys items (replicate (length items) False) ordered 0) = fold (fillSlot tbl) keys ordered"
    by (rule alignLoop_keyed[OF assms(1)]) (use assms in auto)
  then show ?thesis using False by (simp add: alignChunkResults_def)
qed

text \<open>Filling the slots of some keys, whatever their order.\<close>

lemma fillSlot_nth:
  assumes "\<And>s. s \<in> set xs \<Longrightarrow> specIndex s < length specs \<and> s = specs ! specIndex s" "\<And>i. i < length specs \<Longrightarrow> specIndex (specs ! i) = i"
    and "i < length specs" "length ordered = length specs"
  shows "fold (fillSlot tbl) xs ordered ! i = (if specs ! i \<in> set xs \<and> tbl (specAttrs (specs ! i)) \<noteq> None then tbl (specAttrs (specs ! i)) else ordered ! i)"
  using assms(1,4)
proof (induction xs arbitrary: ordered)
  case (Cons s xs)
  have s: "specIndex s < length specs" "s = specs ! specIndex s" using Cons.prems(1)[of s] by auto
  have IH: "fold (fillSlot tbl) xs (fillSlot tbl s ordered) ! i
      = (if specs ! i \<in> set xs \<and> tbl (specAttrs (specs ! i)) \<noteq> None then tbl (specAttrs (specs ! i)) else fillSlot tbl s ordered ! i)"
    by (rule Cons.IH) (use Cons.prems in auto)
  show ?case
  proof (cases "specIndex s = i")
    case True
    then show ?thesis using IH s Cons.prems(2) assms(3) by (cases "tbl (specAttrs s)") auto
  next
    case False
    then have "specs ! i \<noteq> s" using assms(2)[OF assms(3)] by auto
    then show ?thesis using IH False by (cases "tbl (specAttrs s)") auto
  qed
qed simp

lemma fillSlot_all:
  assumes "set xs = set specs" "map specIndex specs = [0..<length specs]"
  shows "fold (fillSlot tbl) xs (replicate (length specs) None) = map (\<lambda>s. tbl (specAttrs s)) specs"
proof (rule nth_equalityI)
  have idx: "specIndex (specs ! i) = i" if "i < length specs" for i
    using arg_cong[OF assms(2), of "\<lambda>l. l ! i"] that by simp
  have len: "length (fold (fillSlot tbl) ys o') = length o'" for ys o'
    by (induction ys arbitrary: o') auto
  then show "length (fold (fillSlot tbl) xs (replicate (length specs) None)) = length (map (\<lambda>s. tbl (specAttrs s)) specs)" by simp
  fix i assume "i < length (fold (fillSlot tbl) xs (replicate (length specs) None))"
  then have i: "i < length specs" by (simp add: len)
  have own: "specIndex s < length specs \<and> s = specs ! specIndex s" if "s \<in> set xs" for s
    using that idx unfolding assms(1) by (metis in_set_conv_nth)
  have "fold (fillSlot tbl) xs (replicate (length specs) None) ! i
      = (if specs ! i \<in> set xs \<and> tbl (specAttrs (specs ! i)) \<noteq> None then tbl (specAttrs (specs ! i)) else replicate (length specs) None ! i)"
    by (rule fillSlot_nth[OF own idx i]) auto
  then show "fold (fillSlot tbl) xs (replicate (length specs) None) ! i = map (\<lambda>s. tbl (specAttrs s)) specs ! i"
    using i assms(1) by auto
qed

locale batch_getter =
  fixes exec :: "'w batchGetter" and tbl :: tableContent
  assumes answers: "exec req opts w = ((items, None), w') \<Longrightarrow> distinct (cbKeys req) \<Longrightarrow> set items = itemsAt tbl (set (cbKeys req))"
begin

lemma chunk:
  assumes "processChunk exec opts n c ((ordered, k), w) = (None, (ordered', k'), w')" "bgOnChunkError opts = None"
    and "cbKeys (chRequest c) = map specAttrs (chKeys c)" "keyedBy tbl (specAttrs ` set (chKeys c))" "distinct (map specAttrs (chKeys c))"
  shows "ordered' = fold (fillSlot tbl) (chKeys c) ordered"
proof -
  obtain items w1 where e: "exec (chRequest c) (Some opts) w = ((items, None), w1)"
    using assms(1,2) by (auto simp: processChunk_def split: prod.splits option.splits)
  then have "set items = itemsAt tbl (specAttrs ` set (chKeys c))" using answers[OF e] assms(3,5) by simp
  from alignChunkResults_keyed[OF assms(4) this assms(5), of ordered] show ?thesis
    using assms(1) e by (auto simp: processChunk_def split: prod.splits)
qed

lemma chunks:
  assumes "runChunks exec opts n cs ((ordered, k), w) = (None, (ordered', k'), w')
      \<or> runChunksParallel exec opts n cs ((ordered, k), w) = (None, (ordered', k'), w')" "bgOnChunkError opts = None"
    and "\<And>c. c \<in> set cs \<Longrightarrow> cbKeys (chRequest c) = map specAttrs (chKeys c) \<and> keyedBy tbl (specAttrs ` set (chKeys c)) \<and> distinct (map specAttrs (chKeys c))"
  shows "ordered' = fold (fillSlot tbl) (concat (map chKeys cs)) ordered"
  using assms(1,3)
proof (induction cs arbitrary: ordered k w)
  case (Cons c cs)
  obtain err o1 k1 w1 where step: "processChunk exec opts n c ((ordered, k), w) = (err, (o1, k1), w1)" by (metis prod.collapse)
  then have "err = None" using Cons.prems(1) by (auto split: option.splits prod.splits if_splits)
  then have "o1 = fold (fillSlot tbl) (chKeys c) ordered" using chunk[of opts n c ordered k w] step assms(2) Cons.prems(2)[of c] by simp
  moreover have "ordered' = fold (fillSlot tbl) (concat (map chKeys cs)) o1"
    by (rule Cons.IH[of o1 k1 w1]) (use Cons.prems step \<open>err = None\<close> in \<open>auto split: option.splits prod.splits if_splits\<close>)
  ultimately show ?case by simp
qed auto

lemma executed:
  assumes "executeBatchGetChunks exec schedule (buildBatchGetChunks md specs size' c p ns) specs opts w = (Inr found, w')"
    and "bgOnChunkError opts = None" "0 < size'" "\<And>cs. set (schedule cs) = set cs"
    and "map specIndex specs = [0..<length specs]" "distinct (map specAttrs specs)" "keyedBy tbl (specAttrs ` set specs)"
  shows "found = List.map_filter (\<lambda>s. tbl (specAttrs s)) specs"
proof -
  let ?cs = "buildBatchGetChunks md specs size' c p ns"
  have all: "concat (map chKeys ?cs) = specs" using assms(3) by (simp add: buildBatchGetChunks_def comp_def win.covers)
  have each: "cbKeys (chRequest ch) = map specAttrs (chKeys ch) \<and> keyedBy tbl (specAttrs ` set (chKeys ch)) \<and> distinct (map specAttrs (chKeys ch))"
    if "ch \<in> set ?cs" for ch
  proof -
    have sub: "set (chKeys ch) \<subseteq> set specs" using that arg_cong[OF all, of set] by auto
    from split_list[OF that] obtain cs1 cs2 where split: "?cs = cs1 @ ch # cs2" by blast
    have "specs = concat (map chKeys cs1) @ chKeys ch @ concat (map chKeys cs2)" using all unfolding split by simp
    then have "distinct (map specAttrs (chKeys ch))" using assms(6) by (metis distinct_append map_append)
    then show ?thesis using that sub assms(7) by (auto simp: buildBatchGetChunks_def keyedBy_def)
  qed
  obtain cs ordered k where run: "runChunks exec opts (length specs) cs ((replicate (length specs) None, 0), w) = (None, (ordered, k), w')
      \<or> runChunksParallel exec opts (length specs) cs ((replicate (length specs) None, 0), w) = (None, (ordered, k), w')"
      "set cs = set ?cs" "found = flattenBatchGetResults ordered"
  proof -
    let ?s = "((replicate (length specs) (None :: item option), 0 :: nat), w)"
    let ?run = "if bgParallel opts \<and> bgMaxConcurrency opts > 1 then runChunksParallel exec opts (length specs) (schedule ?cs) ?s
        else runChunks exec opts (length specs) ?cs ?s"
    obtain ordered k where r: "?run = (None, (ordered, k), w')" "found = flattenBatchGetResults ordered"
      using assms(1) unfolding executeBatchGetChunks_def Let_def by (cases ?run) (auto split: option.splits prod.splits)
    show thesis
      by (rule that[of "if bgParallel opts \<and> bgMaxConcurrency opts > 1 then schedule ?cs else ?cs" ordered k])
        (use r assms(4) in \<open>auto split: if_splits\<close>)
  qed
  have "ordered = fold (fillSlot tbl) (concat (map chKeys cs)) (replicate (length specs) None)"
    by (rule chunks[OF run(1) assms(2)]) (use each run(2) in auto)
  moreover have "set (concat (map chKeys cs)) = set specs" using run(2) arg_cong[OF all, of set] by simp
  ultimately have "ordered = map (\<lambda>s. tbl (specAttrs s)) specs" using fillSlot_all[OF _ assms(5)] by simp
  then show ?thesis using run(3) by (simp add: flattenBatchGetResults_def map_filter_def filter_map comp_def)
qed

end

lemma convertBatchGetKeys_specs:
  assumes "convertBatchGetKeys env dyn q md keys = Inr specs"
  shows "map specIndex specs = [0..<length specs]" "length specs = length keys"
    "list_all2 (\<lambda>key s. buildBatchGetKey env dyn q md key = Inr (specAttrs s) \<and> specOriginal s = key) keys specs"
proof -
  have "list_all2 (\<lambda>p s. buildBatchGetKey env dyn q md (snd p) = Inr (specAttrs s) \<and> specOriginal s = snd p \<and> specIndex s = fst p) (enumerate 0 keys) specs"
    using assms unfolding convertBatchGetKeys_def mapE_Inr
    by (rule list_all2_mono) (auto simp: bindE_def split: sum.splits prod.splits)
  then have *: "length specs = length keys" "\<And>i. i < length keys \<Longrightarrow> buildBatchGetKey env dyn q md (keys ! i) = Inr (specAttrs (specs ! i))
      \<and> specOriginal (specs ! i) = keys ! i \<and> specIndex (specs ! i) = i"
    by (auto simp: list_all2_conv_all_nth nth_enumerate_eq)
  then show "length specs = length keys" by simp
  show "map specIndex specs = [0..<length specs]" by (rule nth_equalityI) (use * in auto)
  show "list_all2 (\<lambda>key s. buildBatchGetKey env dyn q md key = Inr (specAttrs s) \<and> specOriginal s = key) keys specs"
    using * by (simp add: list_all2_conv_all_nth)
qed

lemma normalize_chunkSize: "0 < bgChunkSize (normalizeBatchGetOptions given) \<and> bgChunkSize (normalizeBatchGetOptions given) \<le> 100"
  by (simp add: normalizeBatchGetOptions_def Let_def)

lemma normalize_onChunkError: "bgOnChunkError (normalizeBatchGetOptions given) = (case given of None \<Rightarrow> None | Some o' \<Rightarrow> bgOnChunkError o')"
  by (simp add: normalizeBatchGetOptions_def Let_def DefaultBatchGetOptions_def split: option.splits)

text \<open>A projection that leaves out the key attributes makes every item of the batch unmatchable: the caller gets no item and no error.\<close>

lemma projected_items_are_dropped:
  assumes "\<forall>key \<in> set keys. \<forall>it \<in> set items. \<exists>(attr, _) \<in> set (specAttrs key). map_of it attr = None"
  shows "alignChunkResults keys items ordered = (ordered, 0)"
proof -
  have "findMatchingItem (specAttrs key) items used = None" if "key \<in> set keys" for key used
  proof -
    have "\<not> keyMatchesItem (specAttrs key) it" if "it \<in> set items" for it
      using assms \<open>key \<in> set keys\<close> that by (fastforce simp: keyMatchesItem_def list_all_iff)
    then show ?thesis by (simp add: findMatchingItem_def find_None_iff)
  qed
  then have "alignLoop keys items used ordered m = (ordered, m)" for used m by (induction keys) auto
  then show ?thesis by (simp add: alignChunkResults_def)
qed

end
