(* ===== verification/Unmarshal.thy ===== *)
theory Unmarshal
  imports Converter Naming CoreMeta
begin

text \<open>
  The second half of \<open>pkg/query/executor.go\<close>: \<open>UnmarshalItem\<close> and \<open>UnmarshalItems\<close>, the decoder the main executor uses, which is separate
  from the converter of \<open>internal/expr\<close>.  A decoder maps an attribute value, the type of the destination and its old value to the new
  value; what a failing call has already stored in the destination is not kept.  Package \<open>encoding/json\<close>, the time of a Unix
  second and the float and time parsers are parameters, and so is a field's \<open>dynamodb\<close> tag \<open>dyn\<close>.  The lemmas compare the decoder with the
  converter's and show which items it reads back.
\<close>

section \<open>Errors and parameters\<close>

datatype uerror =
    UError string
  | UParse
  | UTime string
  | UJSON string
  | UField string uerror
  | UItem uerror
  | UEncrypted string              \<comment> \<open>\<open>EncryptedFieldError\<close> with \<open>ErrEncryptionNotConfigured\<close>\<close>

record decenv =
  decConv :: convenv
  decJSON :: "string \<Rightarrow> gtype \<Rightarrow> gval \<Rightarrow> (string, gval) result"
  decUnix :: "int \<Rightarrow> string"

section \<open>Attribute value to \<open>any\<close>\<close>

definition parseNumberToInterface :: "decenv \<Rightarrow> string \<Rightarrow> (uerror, goany) result" where
  "parseNumberToInterface dec s =
     (case ParseInt64 s of
        Some i \<Rightarrow> Inr (Some (TInt Int64, VInt i))
      | None \<Rightarrow> (case parseFloat (decConv dec) s of
           Some f \<Rightarrow> Inr (Some (TFloat64, VFloat f))
         | None \<Rightarrow> Inl (UError (''invalid number format: '' @ s))))"

definition attributeValueNumberSetToFloat64 :: "decenv \<Rightarrow> string list \<Rightarrow> (uerror, gval list) result" where
  "attributeValueNumberSetToFloat64 dec ns =
     mapE (\<lambda>n. case parseFloat (decConv dec) n of None \<Rightarrow> Inl UParse | Some f \<Rightarrow> Inr (VFloat f)) ns"

fun avToInterface :: "decenv \<Rightarrow> attrval \<Rightarrow> (uerror, goany) result" where
  "avToInterface dec (AVS s) = Inr (Some (TString, VString s))"
| "avToInterface dec (AVN n) = parseNumberToInterface dec n"
| "avToInterface dec (AVBOOL b) = Inr (Some (TBool, VBool b))"
| "avToInterface dec (AVNULL _) = Inr None"
| "avToInterface dec (AVL l) =
     (case mapE (\<lambda>x. avToInterface dec x) l of Inl e \<Rightarrow> Inl e | Inr vs \<Rightarrow> Inr (Some (TSlice TAny, VSlice (map VIface vs))))"
| "avToInterface dec (AVM m) =
     (case mapE (\<lambda>kv. case avToInterface dec (snd kv) of Inl e \<Rightarrow> Inl e | Inr v \<Rightarrow> Inr (VString (fst kv), VIface v)) m of
        Inl e \<Rightarrow> Inl e | Inr vs \<Rightarrow> Inr (Some (TMap TString TAny, VMap vs)))"
| "avToInterface dec (AVSS ss) = Inr (Some (TSlice TString, VSlice (map VString ss)))"
| "avToInterface dec (AVNS ns) =
     (case attributeValueNumberSetToFloat64 dec ns of Inl e \<Rightarrow> Inl e | Inr vs \<Rightarrow> Inr (Some (TSlice TFloat64, VSlice vs)))"
| "avToInterface dec (AVBS bs) = Inr (Some (TSlice (TSlice (TUint Uint8)), VSlice (map VBytes bs)))"
| "avToInterface dec (AVB b) = Inr (Some (TSlice (TUint Uint8), VBytes b))"

section \<open>Scalars and sets\<close>

text \<open>The RFC 3339 layouts parse the same texts, with or without a fraction.\<close>

definition parseTimeString :: "decenv \<Rightarrow> string \<Rightarrow> (uerror, string) result" where
  "parseTimeString dec s =
     (case parseTime (decConv dec) s of
        Some t \<Rightarrow> Inr t
      | None \<Rightarrow> (case ParseInt64 s of None \<Rightarrow> Inl (UTime s) | Some unix \<Rightarrow> Inr (decUnix dec unix)))"

definition unmarshalJSONString :: "decenv \<Rightarrow> string \<Rightarrow> gtype \<Rightarrow> gval \<Rightarrow> (uerror, gval) result" where
  "unmarshalJSONString dec s t old = mapErr UJSON (decJSON dec s t old)"

definition unmarshalStringAttribute :: "decenv \<Rightarrow> string \<Rightarrow> gtype \<Rightarrow> gval \<Rightarrow> (uerror, gval) result" where
  "unmarshalStringAttribute dec s t old =
     (case kindOf t of
        KString \<Rightarrow> Inr (VString s)
      | KStruct \<Rightarrow>
          (if t = TTime then (case parseTimeString dec s of Inl e \<Rightarrow> Inl e | Inr w \<Rightarrow> Inr (VTime w))
           else unmarshalJSONString dec s t old)
      | KMap \<Rightarrow> unmarshalJSONString dec s t old
      | KSlice \<Rightarrow> unmarshalJSONString dec s t old
      | _ \<Rightarrow> Inl (UError ''cannot unmarshal string''))"

text \<open>A destination that is not numeric is left as it is.\<close>

definition unmarshalNumberAttribute :: "decenv \<Rightarrow> string \<Rightarrow> gtype \<Rightarrow> gval \<Rightarrow> (uerror, gval) result" where
  "unmarshalNumberAttribute dec n t old =
     (case underlying t of
        TInt s \<Rightarrow> (case ParseInt64 n of None \<Rightarrow> Inl UParse | Some i \<Rightarrow> Inr (VInt (wrapInt (intBits s) i)))
      | TUint s \<Rightarrow> (case ParseUint64 n of None \<Rightarrow> Inl UParse | Some u \<Rightarrow> Inr (VUint (wrapUint (uintBits s) u)))
      | TFloat64 \<Rightarrow> (case parseFloat (decConv dec) n of None \<Rightarrow> Inl UParse | Some f \<Rightarrow> Inr (VFloat f))
      | TFloat32 \<Rightarrow> (case parseFloat (decConv dec) n of None \<Rightarrow> Inl UParse | Some f \<Rightarrow> Inr (VFloat (roundFloat32 (decConv dec) f)))
      | _ \<Rightarrow> Inr old)"

definition unmarshalBoolAttribute :: "bool \<Rightarrow> gtype \<Rightarrow> (uerror, gval) result" where
  "unmarshalBoolAttribute b t = (if kindOf t \<noteq> KBool then Inl (UError ''cannot unmarshal bool'') else Inr (VBool b))"

definition unmarshalStringSetAttribute :: "string list \<Rightarrow> gtype \<Rightarrow> (uerror, gval) result" where
  "unmarshalStringSetAttribute ss t =
     (if kindOf t \<noteq> KSlice \<or> kindOf (elemOf t) \<noteq> KString then Inl (UError ''cannot unmarshal string set'')
      else Inr (makeSlice (elemOf t) (map VString ss)))"

definition unmarshalNumberSetAttribute :: "decenv \<Rightarrow> string list \<Rightarrow> gtype \<Rightarrow> (uerror, gval) result" where
  "unmarshalNumberSetAttribute dec ns t =
     (if kindOf t \<noteq> KSlice then Inl (UError ''cannot unmarshal number set'')
      else case mapE (\<lambda>n. unmarshalNumberAttribute dec n (elemOf t) (zeroOf (elemOf t))) ns of
        Inl e \<Rightarrow> Inl e | Inr vs \<Rightarrow> Inr (makeSlice (elemOf t) vs))"

definition unmarshalBinarySetAttribute :: "string list \<Rightarrow> gtype \<Rightarrow> (uerror, gval) result" where
  "unmarshalBinarySetAttribute bs t =
     (if kindOf t \<noteq> KSlice \<or> kindOf (elemOf t) \<noteq> KSlice \<or> kindOf (elemOf (elemOf t)) \<noteq> KUint8
      then Inl (UError ''cannot unmarshal binary set'') else Inr (VSlice (map VBytes bs)))"

definition unmarshalBinaryAttribute :: "string \<Rightarrow> gtype \<Rightarrow> (uerror, gval) result" where
  "unmarshalBinaryAttribute b t =
     (if kindOf t \<noteq> KSlice \<or> kindOf (elemOf t) \<noteq> KUint8 then Inl (UError ''cannot unmarshal binary'') else Inr (VBytes b))"

definition unmarshalAnyAttributeValue :: "decenv \<Rightarrow> attrval \<Rightarrow> (uerror, gval) result" where
  "unmarshalAnyAttributeValue dec av = (case avToInterface dec av of Inl e \<Rightarrow> Inl e | Inr d \<Rightarrow> Inr (VIface d))"

section \<open>Maps and structs\<close>

text \<open>\<open>Value.FieldByName\<close> as the path to the field: the struct's own fields, then those promoted from embedded structs, level by
  level.  A name that occurs more than once on the first level where it occurs is not found.\<close>

definition pathFields :: "(nat list \<times> gtype) list \<Rightarrow> (nat list \<times> gtype sfield) list" where
  "pathFields level = concat (map (\<lambda>(p, t). map (\<lambda>(i, f). (p @ [i], f)) (enumerate 0 (structFields t))) level)"

definition embeddedLevel :: "(nat list \<times> gtype) list \<Rightarrow> (nat list \<times> gtype) list" where
  "embeddedLevel level =
     map (\<lambda>(p, f). (p, sfType f)) (filter (\<lambda>(p, f). sfAnonymous f \<and> kindOf (sfType f) = KStruct) (pathFields level))"

fun fieldPathLevels :: "nat \<Rightarrow> string \<Rightarrow> (nat list \<times> gtype) list \<Rightarrow> (nat list \<times> gtype sfield) option" where
  "fieldPathLevels 0 name level = None"
| "fieldPathLevels (Suc fuel) name level =
     (case filter (\<lambda>(p, f). sfName f = name) (pathFields level) of
        [pf] \<Rightarrow> Some pf
      | [] \<Rightarrow> (if embeddedLevel level = [] then None else fieldPathLevels fuel name (embeddedLevel level))
      | _ \<Rightarrow> None)"

text \<open>Each level is nested more deeply in the type, so its size bounds the number of levels.\<close>

definition fieldPath :: "string \<Rightarrow> gtype \<Rightarrow> (nat list \<times> gtype sfield) option" where
  "fieldPath name t = fieldPathLevels (size t) name [([], t)]"

fun setByIndex :: "nat list \<Rightarrow> gval \<Rightarrow> gval \<Rightarrow> gval" where
  "setByIndex [] w v = w"
| "setByIndex (i # p) w v = (case v of VStruct vs \<Rightarrow> (if i < length vs then VStruct (vs[i := setByIndex p w (vs ! i)]) else v) | _ \<Rightarrow> v)"

text \<open>The loops of \<open>unmarshalMapIntoMap\<close> and \<open>unmarshalMapIntoStruct\<close>, over the decoding of one value.\<close>

fun mapEntriesWith :: "(attrval \<Rightarrow> (uerror, gval) result) \<Rightarrow> item \<Rightarrow> (gval \<times> gval) list \<Rightarrow> (uerror, (gval \<times> gval) list) result" where
  "mapEntriesWith um [] m = Inr m"
| "mapEntriesWith um ((key, av) # es) m =
     (case um av of Inl e \<Rightarrow> Inl e | Inr v \<Rightarrow> mapEntriesWith um es (AList.update (VString key) v m))"

fun structEntriesWith :: "(attrval \<Rightarrow> gtype \<Rightarrow> gval \<Rightarrow> (uerror, gval) result) \<Rightarrow> gtype \<Rightarrow> item \<Rightarrow> gval \<Rightarrow> (uerror, gval) result" where
  "structEntriesWith um t [] v = Inr v"
| "structEntriesWith um t ((key, av) # es) v =
     (case fieldPath key t of
        None \<Rightarrow> structEntriesWith um t es v
      | Some (p, f) \<Rightarrow>
          (if \<not> sfExported f then structEntriesWith um t es v
           else case fieldByIndex p t v of
             None \<Rightarrow> structEntriesWith um t es v
           | Some (ft, old) \<Rightarrow> (case um av ft old of Inl e \<Rightarrow> Inl e | Inr w \<Rightarrow> structEntriesWith um t es (setByIndex p w v))))"

lemma mapEntriesWith_cong [fundef_cong]:
  "es = es' \<Longrightarrow> m = m' \<Longrightarrow> (\<And>e. e \<in> set es' \<Longrightarrow> um (snd e) = um' (snd e)) \<Longrightarrow> mapEntriesWith um es m = mapEntriesWith um' es' m'"
proof -
  assume *: "es = es'" "m = m'" "\<And>e. e \<in> set es' \<Longrightarrow> um (snd e) = um' (snd e)"
  have "\<forall>e \<in> set es'. um (snd e) = um' (snd e) \<Longrightarrow> mapEntriesWith um es' m' = mapEntriesWith um' es' m'"
    by (induction um es' m' rule: mapEntriesWith.induct) (auto split: sum.splits)
  then show ?thesis using * by blast
qed

lemma structEntriesWith_cong [fundef_cong]:
  "t = t' \<Longrightarrow> es = es' \<Longrightarrow> v = v' \<Longrightarrow> (\<And>e ft old. e \<in> set es' \<Longrightarrow> um (snd e) ft old = um' (snd e) ft old)
   \<Longrightarrow> structEntriesWith um t es v = structEntriesWith um' t' es' v'"
proof -
  assume *: "t = t'" "es = es'" "v = v'" "\<And>e ft old. e \<in> set es' \<Longrightarrow> um (snd e) ft old = um' (snd e) ft old"
  have "\<forall>e \<in> set es'. \<forall>ft old. um (snd e) ft old = um' (snd e) ft old \<Longrightarrow> structEntriesWith um t' es' v' = structEntriesWith um' t' es' v'"
    by (induction um t' es' v' rule: structEntriesWith.induct) (auto split: sum.splits option.splits)
  then show ?thesis using * by blast
qed

function unmarshalAttributeValue :: "decenv \<Rightarrow> attrval \<Rightarrow> gtype \<Rightarrow> gval \<Rightarrow> (uerror, gval) result" where
  "unmarshalAttributeValue dec av t old =
     (case ptrElem t of
        Some e \<Rightarrow>
          (case av of
             AVNULL _ \<Rightarrow> Inr (VPtr None)
           | _ \<Rightarrow> (case unmarshalAttributeValue dec av e (case old of VPtr (Some w) \<Rightarrow> w | _ \<Rightarrow> zeroOf e) of
               Inl err \<Rightarrow> Inl err | Inr w \<Rightarrow> Inr (VPtr (Some w))))
      | None \<Rightarrow>
         (if underlying t = TIface 0 then unmarshalAnyAttributeValue dec av
          else case av of
            AVS s \<Rightarrow> unmarshalStringAttribute dec s t old
          | AVN n \<Rightarrow> unmarshalNumberAttribute dec n t old
          | AVBOOL b \<Rightarrow> unmarshalBoolAttribute b t
          | AVNULL _ \<Rightarrow> Inr (zeroOf t)
          | AVL l \<Rightarrow>
              (if kindOf t \<noteq> KSlice then Inl (UError ''cannot unmarshal list into non-slice type'')
               else case mapE (\<lambda>x. unmarshalAttributeValue dec x (elemOf t) (zeroOf (elemOf t))) l of
                 Inl e \<Rightarrow> Inl e | Inr vs \<Rightarrow> Inr (makeSlice (elemOf t) vs))
          | AVM m \<Rightarrow>
              (case kindOf t of
                 KMap \<Rightarrow>
                   (if kindOf (keyTypeOf t) \<noteq> KString then Inl (UError ''cannot unmarshal map'')
                    else case mapEntriesWith (\<lambda>x. unmarshalAttributeValue dec x (elemOf t) (zeroOf (elemOf t))) m [] of
                      Inl e \<Rightarrow> Inl e | Inr nm \<Rightarrow> Inr (VMap nm))
               | KStruct \<Rightarrow> structEntriesWith (\<lambda>a ft prev. unmarshalAttributeValue dec a ft prev) t m old
               | _ \<Rightarrow> Inr old)
          | AVSS ss \<Rightarrow> unmarshalStringSetAttribute ss t
          | AVNS ns \<Rightarrow> unmarshalNumberSetAttribute dec ns t
          | AVBS bs \<Rightarrow> unmarshalBinarySetAttribute bs t
          | AVB b \<Rightarrow> unmarshalBinaryAttribute b t))"
  by pat_completeness auto
termination
  by (relation "measures [\<lambda>(dec, av, t, old). size av, \<lambda>(dec, av, t, old). size t]")
     (auto simp: ptrElem_size size_list_mem_less size_item_less)

declare unmarshalAttributeValue.simps [simp del]

section \<open>Items\<close>

definition parseAttributeName :: "string \<Rightarrow> string" where
  "parseAttributeName tag = (case SplitByte CHR '','' tag of [] \<Rightarrow> [] | p # _ \<Rightarrow> TrimSpace p)"

text \<open>The first part \<open>naming:...\<close> with a known convention decides.\<close>

definition conventionOf :: "string \<Rightarrow> Convention option" where
  "conventionOf part =
     (let p = TrimSpace part in
      if \<not> HasPrefix p ''naming:'' then None
      else let c = TrimPrefix p ''naming:'' in
        if c = ''snake_case'' then Some SnakeCase else if c = ''camel_case'' \<or> c = ''camelCase'' then Some CamelCase else None)"

definition detectNamingConvention :: "gtype \<Rightarrow> Convention" where
  "detectNamingConvention t =
     (case List.map_filter conventionOf (concat (map (\<lambda>f. if sfTag f = [] then [] else SplitByte CHR '','' (sfTag f)) (structFields t))) of
        [] \<Rightarrow> CamelCase | c # _ \<Rightarrow> c)"

definition fieldHasEncryptedTag :: "gtype sfield \<Rightarrow> bool" where
  "fieldHasEncryptedTag f =
     (if sfTag f = [] \<or> sfTag f = ''-'' then False
      else list_ex (\<lambda>part. let p = TrimSpace part in p = ''encrypted'' \<or> HasPrefix p ''encrypted:'') (SplitByte CHR '','' (sfTag f)))"

definition looksLikeEncryptedEnvelope :: "attrval \<Rightarrow> bool" where
  "looksLikeEncryptedEnvelope av =
     (case av of
        AVM env \<Rightarrow>
          (case map_of env ''v'' of Some (AVN v) \<Rightarrow> v \<noteq> [] | _ \<Rightarrow> False)
          \<and> (case map_of env ''edk'' of Some (AVB edk) \<Rightarrow> edk \<noteq> [] | _ \<Rightarrow> False)
          \<and> (case map_of env ''nonce'' of Some (AVB nonce) \<Rightarrow> nonce \<noteq> [] | _ \<Rightarrow> False)
          \<and> (case map_of env ''ct'' of Some (AVB _) \<Rightarrow> True | _ \<Rightarrow> False)
      | _ \<Rightarrow> False)"

text \<open>The attribute a field is read from; \<open>None\<close> for a field that is skipped.\<close>

definition itemAttrName :: "(gtype sfield \<Rightarrow> string) \<Rightarrow> Convention \<Rightarrow> gtype sfield \<Rightarrow> string option" where
  "itemAttrName dyn convention f =
     (if \<not> sfExported f then None
      else if dyn f = ''-'' then None
      else if dyn f \<noteq> [] then Some (if parseAttributeName (dyn f) = [] then sfName f else parseAttributeName (dyn f))
      else case ResolveAttrNameWithConvention f convention of (attrName, skip) \<Rightarrow> (if skip \<or> attrName = [] then None else Some attrName))"

definition unmarshalItemField :: "decenv \<Rightarrow> (gtype sfield \<Rightarrow> string) \<Rightarrow> Convention \<Rightarrow> item \<Rightarrow> gtype sfield \<Rightarrow> gval \<Rightarrow> (uerror, gval) result" where
  "unmarshalItemField dec dyn convention itm f old =
     (case itemAttrName dyn convention f of
        None \<Rightarrow> Inr old
      | Some attrName \<Rightarrow>
          (case map_of itm attrName of
             None \<Rightarrow> Inr old
           | Some av \<Rightarrow>
               (if fieldHasEncryptedTag f \<and> looksLikeEncryptedEnvelope av then Inl (UEncrypted (sfName f))
                else mapErr (UField (sfName f)) (unmarshalAttributeValue dec av (sfType f) old))))"

text \<open>A \<open>time.Time\<close> has no exported fields: an item leaves it as it is.\<close>

definition UnmarshalItem :: "decenv \<Rightarrow> (gtype sfield \<Rightarrow> string) \<Rightarrow> item \<Rightarrow> goany \<Rightarrow> (uerror, gval) result" where
  "UnmarshalItem dec dyn itm dest =
     (case dest of
        Some (t, VPtr (Some old)) \<Rightarrow>
          (if kindOf t \<noteq> KPointer then Inl (UError ''destination must be a pointer'')
           else if kindOf (elemOf t) \<noteq> KStruct then Inl (UError ''destination must be a pointer to a struct'')
           else case old of
             VStruct olds \<Rightarrow>
               (case mapE (\<lambda>(f, v). unmarshalItemField dec dyn (detectNamingConvention (elemOf t)) itm f v) (zip (structFields (elemOf t)) olds) of
                  Inl e \<Rightarrow> Inl e | Inr vs \<Rightarrow> Inr (VStruct vs))
           | _ \<Rightarrow> Inr old)
      | _ \<Rightarrow> Inl (UError ''destination must be a pointer''))"

text \<open>One element of a result slice of element type \<open>it\<close>.\<close>

definition newItemOf :: "decenv \<Rightarrow> (gtype sfield \<Rightarrow> string) \<Rightarrow> gtype \<Rightarrow> item \<Rightarrow> (uerror, gval) result" where
  "newItemOf dec dyn it itm =
     (let base = (if kindOf it = KPointer then elemOf it else it) in
      case UnmarshalItem dec dyn itm (Some (TPtr base, VPtr (Some (zeroOf base)))) of
        Inl e \<Rightarrow> Inl (UItem e)
      | Inr v \<Rightarrow> Inr (if kindOf it = KPointer then VPtr (Some v) else v))"

definition UnmarshalItems :: "decenv \<Rightarrow> (gtype sfield \<Rightarrow> string) \<Rightarrow> item list \<Rightarrow> goany \<Rightarrow> (uerror, gval) result" where
  "UnmarshalItems dec dyn items dest =
     (case dest of
        None \<Rightarrow> Inl (UError ''destination must be a pointer'')
      | Some (t, v) \<Rightarrow>
          (if kindOf t \<noteq> KPointer then Inl (UError ''destination must be a pointer'')
           else if v = VPtr None \<or> kindOf (elemOf t) \<noteq> KSlice then
             (case items of [] \<Rightarrow> Inl (UError ''no items found'') | itm # _ \<Rightarrow> UnmarshalItem dec dyn itm dest)
           else case mapE (newItemOf dec dyn (elemOf (elemOf t))) items of
             Inl e \<Rightarrow> Inl e | Inr vs \<Rightarrow> Inr (makeSlice (elemOf (elemOf t)) vs)))"

section \<open>Agreement with the converter\<close>

text \<open>The types on which the two decoders agree: those that survive the converter's round trip and have no struct inside but
  \<open>time.Time\<close>.  NULL attributes are \<open>true\<close>, as the converter writes them, and
  binary sets are not empty, as in every DynamoDB item.\<close>

fun structFree :: "gtype \<Rightarrow> bool" where
  "structFree (TNamed n t) = structFree t"
| "structFree (TStruct n fs) = False"
| "structFree (TSlice e) = structFree e"
| "structFree (TMap k e) = structFree e"
| "structFree (TPtr e) = structFree e"
| "structFree t = True"

fun wellStored :: "attrval \<Rightarrow> bool" where
  "wellStored (AVNULL b) = b"
| "wellStored (AVL l) = list_all wellStored l"
| "wellStored (AVM m) = list_all (\<lambda>kv. wellStored (snd kv)) m"
| "wellStored (AVBS bs) = (bs \<noteq> [])"
| "wellStored _ = True"

lemma rtType_kinds:
  "rtType t \<Longrightarrow> underlying t \<noteq> TIface n"
  "rtType t \<Longrightarrow> kindOf t = KSlice \<Longrightarrow> kindOf (elemOf t) = KUint8 \<or> rtType (elemOf t)"
  "rtType t \<Longrightarrow> kindOf t = KMap \<Longrightarrow> keyTypeOf t = TString \<and> rtType (elemOf t)"
  "rtType t \<Longrightarrow> ptrElem t = Some e \<Longrightarrow> rtType e"
  "structFree t \<Longrightarrow> kindOf t = KSlice \<or> kindOf t = KMap \<Longrightarrow> structFree (elemOf t)"
  "structFree t \<Longrightarrow> ptrElem t = Some e \<Longrightarrow> structFree e"
  "structFree t \<Longrightarrow> kindOf t = KStruct \<Longrightarrow> underlying t = TTime"
  by (induction t) (auto simp: kindOf_def elemOf_def keyTypeOf_def ptrElem_def split: if_splits)

lemma uint8_rtType: "kindOf t = KUint8 \<Longrightarrow> rtType t"
  by (induction t) (auto simp: kindOf_def split: gtype.splits if_splits)

lemma rtType_elem: "rtType t \<Longrightarrow> kindOf t = KSlice \<or> kindOf t = KMap \<Longrightarrow> rtType (elemOf t)"
  using rtType_kinds(2,3) uint8_rtType by blast

lemma zeroOf_underlying: "zeroOf t = zeroOf (underlying t)"
  by (induction t) auto

lemma zeroOf_map: "kindOf t = KMap \<Longrightarrow> zeroOf t = VMap []"
  by (subst zeroOf_underlying) (auto simp: kindOf_def split: gtype.splits if_splits)

lemma mapEIdx_agree:
  "mapEIdx i f xs = Inr ys \<Longrightarrow> (\<And>x y. x \<in> set xs \<Longrightarrow> f x = Inr y \<Longrightarrow> g x = Inr y) \<Longrightarrow> mapE g xs = Inr ys"
  by (induction i f xs arbitrary: ys rule: mapEIdx.induct) (auto split: sum.splits)

lemma mapEntries_agree:
  "unmarshalEntriesWith f TString es m = Inr ys \<Longrightarrow> (\<And>e y. e \<in> set es \<Longrightarrow> f (snd e) = Inr y \<Longrightarrow> g (snd e) = Inr y) \<Longrightarrow> mapEntriesWith g es m = Inr ys"
proof (induction g es m rule: mapEntriesWith.induct)
  case (2 um key av es m)
  then obtain v where v: "f av = Inr v" by (auto split: sum.splits)
  with 2(3)[of "(key, av)" v] have "um av = Inr v" by simp
  with 2 v show ?case by (auto split: sum.splits)
qed simp

lemma structEntries_time: "structEntriesWith um TTime m v = Inr v"
proof (induction m)
  case (Cons e m)
  then show ?case by (cases e) (simp add: fieldPath_def)
qed simp

lemma scalars_agree:
  "unmarshalString (decConv dec) s t = Inr v \<Longrightarrow> unmarshalStringAttribute dec s t old = Inr v"
  "unmarshalNumber (decConv dec) s t = Inr v \<Longrightarrow> unmarshalNumberAttribute dec s t old = Inr v"
  "unmarshalBinary s t = Inr v \<Longrightarrow> unmarshalBinaryAttribute s t = Inr v"
  "unmarshalBool b t = Inr v \<Longrightarrow> unmarshalBoolAttribute b t = Inr v"
  "unmarshalStringSet ss t = Inr v \<Longrightarrow> unmarshalStringSetAttribute ss t = Inr v"
  "unmarshalBinarySet ss t = Inr v \<Longrightarrow> ss \<noteq> [] \<Longrightarrow> unmarshalBinarySetAttribute ss t = Inr v"
  by (auto simp: unmarshalString_def unmarshalStringAttribute_def parseTimeString_def unmarshalNumber_def
      unmarshalNumberAttribute_def unmarshalBinary_def unmarshalBinaryAttribute_def unmarshalBool_def unmarshalBoolAttribute_def
      unmarshalStringSet_def unmarshalStringSetAttribute_def unmarshalBinarySet_def unmarshalBinarySetAttribute_def
      split: gkind.splits option.splits if_splits gtype.splits)

lemma numberSets_agree:
  "unmarshalNumberSet (decConv dec) ns t = Inr v \<Longrightarrow> unmarshalNumberSetAttribute dec ns t = Inr v"
proof -
  assume run: "unmarshalNumberSet (decConv dec) ns t = Inr v"
  then obtain vs where vs: "kindOf t = KSlice" "mapEIdx 0 (\<lambda>n. unmarshalNumber (decConv dec) n (elemOf t)) ns = Inr vs" "v = makeSlice (elemOf t) vs"
    by (auto simp: unmarshalNumberSet_def split: if_splits sum.splits)
  have "mapE (\<lambda>n. unmarshalNumberAttribute dec n (elemOf t) (zeroOf (elemOf t))) ns = Inr vs"
    by (rule mapEIdx_agree[OF vs(2)]) (rule scalars_agree(2))
  then show ?thesis using vs(1,3) by (simp add: unmarshalNumberSetAttribute_def)
qed

lemma decoders_agree_at:
  "env = decConv dec \<Longrightarrow> unmarshalTyped env av t old = Inr v \<Longrightarrow> old = zeroOf t \<Longrightarrow> wellStored av \<Longrightarrow> structFree t \<Longrightarrow> rtType t
   \<Longrightarrow> unmarshalAttributeValue dec av t old = Inr v"
proof (induction env av t old arbitrary: v rule: unmarshalTyped.induct)
  case (1 env av t old)
  note run = "1.prems"(2)[unfolded unmarshalTyped.simps[of env av t old]]
  note goal = unmarshalAttributeValue.simps[of dec av t old]
  show ?case
  proof (cases "ptrElem t")
    case (Some e)
    then have z: "old = VPtr None" unfolding "1.prems"(3) by (subst zeroOf_underlying) (auto simp: ptrElem_def split: gtype.splits)
    show ?thesis
    proof (cases "\<exists>b. av = AVNULL b")
      case True
      then have "isNullAttributeValue av" using "1.prems"(4) by (auto simp: isNullAttributeValue_def)
      then show ?thesis using run Some True unfolding goal by auto
    next
      case False
      then have n: "\<not> isNullAttributeValue av" by (simp add: isNullAttributeValue_def split: attrval.splits)
      then obtain w where w: "unmarshalTyped env av e (zeroOf e) = Inr w" "v = VPtr (Some w)"
        using run Some z by (auto split: sum.splits)
      have "unmarshalAttributeValue dec av e (zeroOf e) = Inr w"
        using "1.IH"(4)[OF Some n] w(1) z "1.prems" rtType_kinds(4,6)[OF _ Some] by simp
      then show ?thesis using False w(2) Some unfolding goal by (auto simp: z split: attrval.splits)
    qed
  next
    case None
    have i: "underlying t \<noteq> TIface 0" using "1.prems"(6) by (rule rtType_kinds(1))
    note sub = rtType_elem[OF "1.prems"(6)] rtType_kinds(5)[OF "1.prems"(5)]
    show ?thesis
    proof (cases av)
      case (AVL l)
      then obtain vs where k: "kindOf t = KSlice" and vs: "mapEIdx 0 (\<lambda>x. unmarshalTyped env x (elemOf t) (zeroOf (elemOf t))) l = Inr vs" "v = makeSlice (elemOf t) vs"
        using run None i by (auto split: if_splits sum.splits)
      have "mapE (\<lambda>x. unmarshalAttributeValue dec x (elemOf t) (zeroOf (elemOf t))) l = Inr vs"
        by (rule mapEIdx_agree[OF vs(1)]) (use "1.IH"(1)[OF None i AVL] k "1.prems" sub AVL in \<open>auto simp: list_all_iff\<close>)
      then show ?thesis using None i AVL k vs(2) unfolding goal by simp
    next
      case (AVM m)
      show ?thesis
      proof (cases "kindOf t = KMap")
        case True
        then have z: "old = VMap []" "keyTypeOf t = TString" using "1.prems" zeroOf_map rtType_kinds(3) by auto
        have k: "kindOf (keyTypeOf t) = KString" by (simp add: z kindOf_def)
        obtain nm where nm: "unmarshalEntriesWith (\<lambda>x. unmarshalTyped env x (elemOf t) (zeroOf (elemOf t))) TString m [] = Inr nm" "v = VMap nm"
          using run None i AVM True z k by (auto split: sum.splits)
        have "mapEntriesWith (\<lambda>x. unmarshalAttributeValue dec x (elemOf t) (zeroOf (elemOf t))) m [] = Inr nm"
          by (rule mapEntries_agree[OF nm(1)]) (use "1.IH"(3)[OF None i AVM True] k "1.prems" sub AVM True in \<open>auto simp: list_all_iff\<close>)
        then show ?thesis using None i AVM True k nm(2) unfolding goal by simp
      next
        case False
        then have st: "kindOf t = KStruct" using run None i AVM by (auto split: gkind.splits)
        then have "underlying t = TTime" by (rule rtType_kinds(7)[OF "1.prems"(5)])
        then have "t = TTime" using "1.prems"(6) by (cases t) auto
        then show ?thesis using run "1.prems"(3) AVM unfolding goal by (auto simp: ptrElem_def kindOf_def structEntries_time)
      qed
    qed (unfold goal, use run "1.prems"(1,4) None i in \<open>auto simp: scalars_agree numberSets_agree\<close>)
  qed
qed

text \<open>What the converter writes is well stored.\<close>

abbreviation allStored :: "item \<Rightarrow> bool" where
  "allStored m \<equiv> list_all (\<lambda>kv. wellStored (snd kv)) m"

lemma allStored_update: "allStored m \<Longrightarrow> wellStored av \<Longrightarrow> allStored (AList.update k av m)"
  by (induction m) auto

lemma convertFields_stored:
  "convertFieldsWith cv fs vs m = Inr m' \<Longrightarrow> (\<And>t v av. v \<in> set vs \<Longrightarrow> cv t v = Inr av \<Longrightarrow> wellStored av) \<Longrightarrow> allStored m \<Longrightarrow> allStored m'"
proof (induction cv fs vs m rule: convertFieldsWith.induct)
  case (1 cv f fs v vs m)
  have here: "\<And>av. cv (sfType f) v = Inr av \<Longrightarrow> wellStored av" by (rule "1.prems"(2)) auto
  have rest: "\<And>t v av. v \<in> set vs \<Longrightarrow> cv t v = Inr av \<Longrightarrow> wellStored av" by (rule "1.prems"(2)) auto
  note run = "1.prems"(1)[unfolded convertFieldsWith.simps]
  show ?case
  proof (cases "sfExported f \<and> (\<exists>nm th js. marshalFieldNameAndTags f = Some (nm, th, js) \<and> \<not> shouldOmitEmptyField v th js)")
    case True
    then obtain nm th js where f: "sfExported f" "marshalFieldNameAndTags f = Some (nm, th, js)" "\<not> shouldOmitEmptyField v th js" by blast
    then obtain av where av: "cv (sfType f) v = Inr av" "convertFieldsWith cv fs vs (AList.update nm av m) = Inr m'"
      using run by (auto split: sum.splits)
    show ?thesis using "1.IH"(4)[OF _ f(2) refl refl f(3) av rest allStored_update[OF "1.prems"(3) here[OF av(1)]]] f(1) by simp
  next
    case False
    then have "convertFieldsWith cv fs vs m = Inr m'" using run by (auto split: if_splits option.splits)
    then show ?thesis using False "1.IH"(1)[OF _ _ rest "1.prems"(3)] "1.IH"(2)[OF _ _ _ rest "1.prems"(3)] "1.IH"(3)[OF _ _ _ _ _ _ rest "1.prems"(3)]
      by (cases "sfExported f"; cases "marshalFieldNameAndTags f") auto
  qed
qed auto

lemma convertEntries_stored:
  "convertEntriesWith cv es m = Inr m' \<Longrightarrow> (\<And>e av. e \<in> set es \<Longrightarrow> cv (snd e) = Inr av \<Longrightarrow> wellStored av) \<Longrightarrow> allStored m \<Longrightarrow> allStored m'"
proof (induction cv es m rule: convertEntriesWith.induct)
  case (2 cv k v es m)
  then obtain av where av: "cv v = Inr av" by (auto split: sum.splits)
  with 2(3)[of "(k, v)" av] have "wellStored av" by simp
  with 2 av show ?case by (auto simp: allStored_update)
qed simp

lemma convertTyped_stored: "noMarshalers env \<Longrightarrow> convertTyped env t v = Inr av \<Longrightarrow> wellStored av"
proof (induction env t v arbitrary: av rule: convertTyped.induct)
  case (11 env t xs)
  then obtain l where l: "mapE (\<lambda>x. convertTyped env (elemOf t) x) xs = Inr l" "av = AVL l" by (auto split: sum.splits)
  then have each: "list_all2 (\<lambda>x y. convertTyped env (elemOf t) x = Inr y) xs l" by (simp add: mapE_Inr)
  have "wellStored y" if "y \<in> set l" for y
  proof -
    from that obtain i where "i < length l" "y = l ! i" unfolding in_set_conv_nth by blast
    moreover from this have "i < length xs" using list_all2_lengthD[OF each] by simp
    ultimately show ?thesis using 11(1)[OF nth_mem 11(2)] list_all2_nthD[OF each] by blast
  qed
  then show ?case by (simp add: l list_all_iff)
next
  case (12 env t m)
  then obtain im where im: "convertEntriesWith (\<lambda>x. convertTyped env (elemOf t) x) m [] = Inr im" "av = AVM im" "kindOf (keyTypeOf t) = KString"
    by (auto split: sum.splits if_splits)
  have "allStored im" by (rule convertEntries_stored[OF im(1)]) (use 12 im(3) in auto)
  then show ?case by (simp add: im)
next
  case (14 env t vs)
  then obtain im where im: "convertFieldsWith (\<lambda>u x. convertTyped env u x) (structFields t) vs [] = Inr im" "av = AVM im"
    by (auto split: sum.splits)
  have "allStored im" by (rule convertFields_stored[OF im(1)]) (use 14 in auto)
  then show ?case by (simp add: im)
qed (auto split: if_splits)

section \<open>Reading back a stored item\<close>

text \<open>The item holds the field under its attribute name, as the converter writes it, or leaves out a zero value.\<close>

definition storesField :: "convenv \<Rightarrow> (gtype sfield \<Rightarrow> string) \<Rightarrow> Convention \<Rightarrow> item \<Rightarrow> gtype sfield \<Rightarrow> gval \<Rightarrow> bool" where
  "storesField env dyn convention itm f v =
     (case itemAttrName dyn convention f of
        None \<Rightarrow> v = zeroOf (sfType f)
      | Some a \<Rightarrow> (case map_of itm a of None \<Rightarrow> v = zeroOf (sfType f) | Some av \<Rightarrow> convertTyped env (sfType f) v = Inr av))"

definition plainField :: "gtype sfield \<Rightarrow> bool" where
  "plainField f = (rtType (sfType f) \<and> structFree (sfType f) \<and> \<not> fieldHasEncryptedTag f)"

lemma storedField_read:
  assumes "noMarshalers (decConv dec)" "plainField f" "wt (sfType f) v" "leavesOk (decConv dec) v" "storesField (decConv dec) dyn c itm f v"
  shows "unmarshalItemField dec dyn c itm f (zeroOf (sfType f)) = Inr v"
proof (cases "\<exists>a av. itemAttrName dyn c f = Some a \<and> map_of itm a = Some av")
  case True
  then obtain a av where a: "itemAttrName dyn c f = Some a" "map_of itm a = Some av" by blast
  then have cv: "convertTyped (decConv dec) (sfType f) v = Inr av" using assms(5) by (simp add: storesField_def)
  have rt: "rtType (sfType f)" "structFree (sfType f)" "\<not> fieldHasEncryptedTag f" using assms(2) by (simp_all add: plainField_def)
  have "unmarshalTyped (decConv dec) av (sfType f) (zeroOf (sfType f)) = Inr v"
    using roundtrip_survives[OF assms(1,3) rt(1) assms(4)] cv by (simp add: survives_def)
  then have "unmarshalAttributeValue dec av (sfType f) (zeroOf (sfType f)) = Inr v"
    by (rule decoders_agree_at[OF refl _ refl convertTyped_stored[OF assms(1) cv] rt(2,1)])
  then show ?thesis using a rt(3) by (simp add: unmarshalItemField_def)
next
  case False
  then show ?thesis using assms(5) by (auto simp: unmarshalItemField_def storesField_def split: option.splits)
qed

text \<open>C33. Round trip through an item.  Take a struct whose fields are not encrypted and have types built from strings, integers, 64-bit floats, booleans
  and times by slices, maps with keys of type \<open>string\<close>, single pointers and definitions over these (but not over times), so no nested structs,
  interfaces, arrays or 32-bit floats; let no custom marshaler be registered and the float and time texts be read back as themselves; and take an item that
  holds each field under the attribute name the decoder uses, in the form the converter gives it, except that fields with a zero
  value may be left out.  Then \<open>UnmarshalItem\<close> into a fresh struct gives the struct back, and \<open>UnmarshalItems\<close> of such items
  gives the slice of the structs in order.\<close>

theorem UnmarshalItems_roundtrip:
  assumes "noMarshalers (decConv dec)" "list_all plainField fs"
    and "list_all2 (\<lambda>itm vs. wt (TStruct n fs) (VStruct vs) \<and> leavesOk (decConv dec) (VStruct vs)
           \<and> list_all2 (storesField (decConv dec) dyn (detectNamingConvention (TStruct n fs)) itm) fs vs) items vss"
  shows "UnmarshalItems dec dyn items (Some (TPtr (TSlice (TStruct n fs)), VPtr (Some (VSlice old)))) = Inr (VSlice (map VStruct vss))"
proof -
  let ?t = "TStruct n fs"
  have one: "newItemOf dec dyn ?t itm = Inr (VStruct vs)"
    if ok: "wt ?t (VStruct vs)" "leavesOk (decConv dec) (VStruct vs)" "list_all2 (storesField (decConv dec) dyn (detectNamingConvention ?t) itm) fs vs"
    for itm vs
  proof -
    have len: "length vs = length fs" using ok(3) by (simp add: list_all2_lengthD)
    have f: "unmarshalItemField dec dyn (detectNamingConvention ?t) itm (fs ! i) (zeroOf (sfType (fs ! i))) = Inr (vs ! i)" if "i < length fs" for i
      by (rule storedField_read) (use assms(1,2) ok that len in \<open>auto simp: list_all2_conv_all_nth list_all_length\<close>)
    have "mapE (\<lambda>(f, v). unmarshalItemField dec dyn (detectNamingConvention ?t) itm f v) (zip fs (map (\<lambda>f. zeroOf (sfType f)) fs)) = Inr vs"
      unfolding mapE_Inr using f len by (simp add: list_all2_conv_all_nth)
    then show ?thesis by (simp add: newItemOf_def UnmarshalItem_def kindOf_def elemOf_def structFields_def)
  qed
  have "list_all2 (\<lambda>itm v. newItemOf dec dyn ?t itm = Inr v) items (map VStruct vss)"
    using assms(3) one by (auto simp: list_all2_conv_all_nth)
  then have "mapE (newItemOf dec dyn ?t) items = Inr (map VStruct vss)" by (simp add: mapE_Inr)
  then show ?thesis by (simp add: UnmarshalItems_def kindOf_def elemOf_def makeSlice_def)
qed

definition plainDec :: decenv where
  "plainDec = \<lparr> decConv = plainEnv, decJSON = (\<lambda>s t old. Inl ''json''), decUnix = (\<lambda>n. ''1970-01-01T00:00:00Z'') \<rparr>"

definition storedFields :: "gtype sfield list" where
  "storedFields = [SField ''ID'' True False ''pk'' [] TString, SField ''Age'' True False ''attr:age,omitempty'' [] (TInt Int8),
     SField ''Tags'' True False [] [] (TSlice TString)]"

lemma storedFields_names:
  "map (itemAttrName (\<lambda>_. []) CamelCase) storedFields = [Some ''id'', Some ''age'', Some ''tags'']"
  "detectNamingConvention (TStruct ''User'' storedFields) = CamelCase" "list_all plainField storedFields"
proof -
  show "map (itemAttrName (\<lambda>_. []) CamelCase) storedFields = [Some ''id'', Some ''age'', Some ''tags'']" by code_simp
  show "detectNamingConvention (TStruct ''User'' storedFields) = CamelCase" by code_simp
  have "list_all (\<lambda>f. \<not> fieldHasEncryptedTag f) storedFields" by code_simp
  then show "list_all plainField storedFields" by (simp add: storedFields_def plainField_def kindOf_def)
qed

theorem UnmarshalItems_roundtrip_witness:
  "UnmarshalItems plainDec (\<lambda>_. []) [[(''id'', AVS ''u1''), (''age'', AVN ''7''), (''tags'', AVL [AVS ''x''])], [(''id'', AVS ''u2''), (''tags'', AVL [])]]
     (Some (TPtr (TSlice (TStruct ''User'' storedFields)), VPtr (Some (VSlice []))))
   = Inr (VSlice (map VStruct [[VString ''u1'', VInt 7, VSlice [VString ''x'']], [VString ''u2'', VInt 0, VSlice []]]))"
proof (rule UnmarshalItems_roundtrip)
  show "noMarshalers (decConv plainDec)" by (simp add: noMarshalers_def plainDec_def plainEnv_def)
  show "list_all plainField storedFields" by (rule storedFields_names(3))
  have n: "itemAttrName (\<lambda>_. []) CamelCase (SField ''ID'' True False ''pk'' [] TString) = Some ''id''"
    "itemAttrName (\<lambda>_. []) CamelCase (SField ''Age'' True False ''attr:age,omitempty'' [] (TInt Int8)) = Some ''age''"
    "itemAttrName (\<lambda>_. []) CamelCase (SField ''Tags'' True False [] [] (TSlice TString)) = Some ''tags''"
    using storedFields_names(1) by (simp_all add: storedFields_def)
  show "list_all2 (\<lambda>itm vs. wt (TStruct ''User'' storedFields) (VStruct vs) \<and> leavesOk (decConv plainDec) (VStruct vs)
           \<and> list_all2 (storesField (decConv plainDec) (\<lambda>_. []) (detectNamingConvention (TStruct ''User'' storedFields)) itm) storedFields vs)
      [[(''id'', AVS ''u1''), (''age'', AVN ''7''), (''tags'', AVL [AVS ''x''])], [(''id'', AVS ''u2''), (''tags'', AVL [])]]
      [[VString ''u1'', VInt 7, VSlice [VString ''x'']], [VString ''u2'', VInt 0, VSlice []]]"
    unfolding storedFields_names(2)
    by (simp add: storedFields_def storesField_def n plainDec_def kindOf_def plainEnv_def withMarshaler_def showInt_def elemOf_def)
      (simp add: showNat.simps char_eval)
qed

section \<open>Corners of the decoder\<close>

text \<open>A nested struct is read by the Go names of its fields, while the converter writes it by their attribute names: a nested field with
  a name of its own is silently lost.\<close>

theorem nested_attribute_names_ignored:
  assumes "noMarshalers env"
  shows "let t = TStruct ''Inner'' [SField ''Street'' True False ''attr:street'' [] TString] in
    convertTyped env t (VStruct [VString s]) = Inr (AVM [(''street'', AVS s)])
    \<and> unmarshalAttributeValue dec (AVM [(''street'', AVS s)]) t (zeroOf t) = Inr (zeroOf t)"
proof -
  let ?f = "SField ''Street'' True False ''attr:street'' [] TString"
  have "marshalFieldNameAndTags ?f = Some (''street'', ''attr:street'', [])" "shouldOmitEmptyField (VString []) ''attr:street'' [] = False"
    "hasOmitEmpty ''attr:street'' = False"
    by code_simp+
  then show ?thesis using assms
    by (simp add: structFields_def shouldOmitEmptyField_def)
      (simp add: unmarshalAttributeValue.simps ptrElem_def kindOf_def fieldPath_def pathFields_def embeddedLevel_def structFields_def)
qed

text \<open>A number read into a string, bool or struct field is dropped without an error.\<close>

theorem number_into_string_ignored: "unmarshalAttributeValue dec (AVN n) TString old = Inr old"
  by (simp add: unmarshalAttributeValue.simps ptrElem_def unmarshalNumberAttribute_def)

text \<open>The registry takes the fields of an embedded struct as fields of the model, the decoder does not look into it.\<close>

theorem embedded_fields_not_read:
  "let t = TStruct ''User'' [SField ''Base'' True True [] [] (TStruct ''Base'' [SField ''ID'' True False ''pk'' [] TString])] in
    UnmarshalItem dec (\<lambda>_. []) [(''id'', AVS s)] (Some (TPtr t, VPtr (Some (zeroOf t)))) = Inr (zeroOf t)"
proof -
  let ?b = "TStruct ''Base'' [SField ''ID'' True False ''pk'' [] TString]"
  have "itemAttrName (\<lambda>_. []) CamelCase (SField ''Base'' True True [] [] ?b) = Some ''base''" by code_simp
  then show ?thesis
    by (simp add: UnmarshalItem_def unmarshalItemField_def kindOf_def elemOf_def structFields_def detectNamingConvention_def)
qed

end
