(* ===== verification/Executor.thy ===== *)
theory Executor
  imports BatchGet Unmarshal "HOL-Library.Word"
begin

text \<open>
  The first half of \<open>pkg/query/executor.go\<close>: \<open>MainExecutor\<close>, which turns compiled requests into calls of the DynamoDB client and collects the
  pages and batches of their answers.  The client is a record of its calls on a world \<open>'w\<close>; what the code relies on is stated as laws of
  the calls.  Loops without a bound of their own are partial functions whose value \<open>None\<close> means that the loop does not end.
\<close>

section \<open>The client\<close>

text \<open>Errors of the SDK: the exception the code looks for, or another error; both with their text.\<close>

datatype sdkError = ConditionalCheckFailedException (errText: string) | OtherError (errText: string)

record ReadInput =
  riTableName :: string
  riIndexName :: "string option"
  riFilterExpression :: "string option"
  riProjectionExpression :: "string option"
  riNames :: "(string \<times> string) list"
  riValues :: item
  riLimit :: "int option"
  riExclusiveStartKey :: item
  riConsistentRead :: "bool option"

record QueryInput = ReadInput +
  qiKeyConditionExpression :: "string option"
  qiScanIndexForward :: "bool option"

record ScanInput = ReadInput +
  siSegment :: "int option"
  siTotalSegments :: "int option"

text \<open>\<open>QueryOutput\<close> and \<open>ScanOutput\<close>: the page, the number of items looked at, the key to go on from (\<open>None\<close>: nil).\<close>

record ReadOutput =
  roItems :: "item list"
  roScannedCount :: int
  roLastEvaluatedKey :: "item option"

record GetItemInput =
  giTableName :: string
  giKey :: item
  giProjectionExpression :: "string option"
  giNames :: "(string \<times> string) list"
  giConsistentRead :: "bool option"

record WriteInput =
  wiTableName :: string
  wiAttributes :: item             \<comment> \<open>the item of a put, the key of a delete\<close>
  wiConditionExpression :: "string option"
  wiNames :: "(string \<times> string) list"
  wiValues :: item

record KeysAndAttributes =
  kaKeys :: "item list"
  kaProjectionExpression :: "string option"
  kaNames :: "(string \<times> string) list"
  kaConsistentRead :: "bool option"

record BatchGetItemOutput =
  bgoResponses :: "(string \<times> item list) list"
  bgoUnprocessedKeys :: "(string \<times> KeysAndAttributes) list"

record 'w DynamoDBAPI =
  dbQuery :: "QueryInput \<Rightarrow> 'w \<Rightarrow> (sdkError, ReadOutput) result \<times> 'w"
  dbScan :: "ScanInput \<Rightarrow> 'w \<Rightarrow> (sdkError, ReadOutput) result \<times> 'w"
  dbGetItem :: "GetItemInput \<Rightarrow> 'w \<Rightarrow> (sdkError, item option) result \<times> 'w"
  dbPutItem :: "WriteInput \<Rightarrow> 'w \<Rightarrow> (sdkError, unit) result \<times> 'w"
  dbDeleteItem :: "WriteInput \<Rightarrow> 'w \<Rightarrow> (sdkError, unit) result \<times> 'w"
  dbUpdateItem :: "UpdateItemInput \<Rightarrow> 'w \<Rightarrow> (string, UpdateItemOutput) result \<times> 'w"
  dbBatchGetItem :: "(string \<times> KeysAndAttributes) list \<Rightarrow> 'w \<Rightarrow> (sdkError, BatchGetItemOutput) result \<times> 'w"
  dbBatchWriteItem :: "(string \<times> WriteRequest list) list \<Rightarrow> 'w \<Rightarrow> (sdkError, (string \<times> WriteRequest list) list) result \<times> 'w"

text \<open>Errors of the executor: those of a request and those of decoding.\<close>

datatype xerror = XQuery qerror | XDecode uerror

definition sdkFailed :: "string \<Rightarrow> sdkError \<Rightarrow> qerror" where
  "sdkFailed what e = Wrapped what (CustomFailed (errText e))"

definition nilQuery :: qerror where
  "nilQuery = QueryError ''compiled query cannot be nil''"

section \<open>Reads\<close>

definition applyCompiledQueryReadFields :: "CompiledQuery \<Rightarrow> 'z ReadInput_scheme \<Rightarrow> 'z ReadInput_scheme" where
  "applyCompiledQueryReadFields c r0 =
     (let r1 = (if cqIndexName c \<noteq> [] then r0 \<lparr> riIndexName := Some (cqIndexName c) \<rparr> else r0);
          r2 = (if cqFilterExpression c \<noteq> [] then r1 \<lparr> riFilterExpression := Some (cqFilterExpression c) \<rparr> else r1);
          r3 = (if cqProjectionExpression c \<noteq> [] then r2 \<lparr> riProjectionExpression := Some (cqProjectionExpression c) \<rparr> else r2);
          r4 = (if cqExpressionAttributeNames c \<noteq> [] then r3 \<lparr> riNames := cqExpressionAttributeNames c \<rparr> else r3);
          r5 = (if cqExpressionAttributeValues c \<noteq> [] then r4 \<lparr> riValues := cqExpressionAttributeValues c \<rparr> else r4);
          r6 = (if cqLimit c \<noteq> None then r5 \<lparr> riLimit := cqLimit c \<rparr> else r5);
          r7 = (if cqExclusiveStartKey c \<noteq> [] then r6 \<lparr> riExclusiveStartKey := cqExclusiveStartKey c \<rparr> else r6) in
      if cqConsistentRead c \<noteq> None then r7 \<lparr> riConsistentRead := cqConsistentRead c \<rparr> else r7)"

definition emptyQueryInput :: "string \<Rightarrow> QueryInput" where
  "emptyQueryInput tn = \<lparr> riTableName = tn, riIndexName = None, riFilterExpression = None, riProjectionExpression = None, riNames = [], riValues = [],
     riLimit = None, riExclusiveStartKey = [], riConsistentRead = None, qiKeyConditionExpression = None, qiScanIndexForward = None \<rparr>"

definition emptyScanInput :: "string \<Rightarrow> ScanInput" where
  "emptyScanInput tn = \<lparr> riTableName = tn, riIndexName = None, riFilterExpression = None, riProjectionExpression = None, riNames = [], riValues = [],
     riLimit = None, riExclusiveStartKey = [], riConsistentRead = None, siSegment = None, siTotalSegments = None \<rparr>"

definition buildDynamoQueryInput :: "CompiledQuery \<Rightarrow> QueryInput" where
  "buildDynamoQueryInput c =
     (let q0 = applyCompiledQueryReadFields c (emptyQueryInput (cqTableName c));
          q1 = (if cqKeyConditionExpression c \<noteq> [] then q0 \<lparr> qiKeyConditionExpression := Some (cqKeyConditionExpression c) \<rparr> else q0) in
      if cqScanIndexForward c \<noteq> None then q1 \<lparr> qiScanIndexForward := cqScanIndexForward c \<rparr> else q1)"

definition buildDynamoScanInput :: "CompiledQuery \<Rightarrow> ScanInput" where
  "buildDynamoScanInput c =
     (let s0 = applyCompiledQueryReadFields c (emptyScanInput (cqTableName c));
          s1 = (if cqSegment c \<noteq> None then s0 \<lparr> siSegment := cqSegment c \<rparr> else s0) in
      if cqTotalSegments c \<noteq> None then s1 \<lparr> siTotalSegments := cqTotalSegments c \<rparr> else s1)"

text \<open>A pager fetches the page from a key on (\<open>None\<close>: from the start key of the request).\<close>

type_synonym 'w pager = "item option \<Rightarrow> 'w \<Rightarrow> (qerror, item list \<times> item option) result \<times> 'w"

definition startAt :: "item option \<Rightarrow> 'z ReadInput_scheme \<Rightarrow> 'z ReadInput_scheme" where
  "startAt key r = (case key of None \<Rightarrow> r | Some k \<Rightarrow> r \<lparr> riExclusiveStartKey := k \<rparr>)"

definition pageOf :: "string \<Rightarrow> (sdkError, ReadOutput) result \<times> 'w \<Rightarrow> (qerror, item list \<times> item option) result \<times> 'w" where
  "pageOf what p =
     (case p of
        (Inl e, w) \<Rightarrow> (Inl (sdkFailed what e), w)
      | (Inr out, w) \<Rightarrow> (Inr (roItems out, roLastEvaluatedKey out), w))"

definition queryPager :: "'w DynamoDBAPI \<Rightarrow> QueryInput \<Rightarrow> 'w pager" where
  "queryPager client input key w = pageOf ''failed to execute query'' (dbQuery client (startAt key input) w)"

definition scanPager :: "'w DynamoDBAPI \<Rightarrow> ScanInput \<Rightarrow> 'w pager" where
  "scanPager client input key w = pageOf ''failed to execute scan'' (dbScan client (startAt key input) w)"

definition limitReached :: "int option \<Rightarrow> item list \<Rightarrow> bool" where
  "limitReached maxItems items = (case maxItems of None \<Rightarrow> False | Some l \<Rightarrow> int (length items) \<ge> l)"

partial_function (option) pagedLoop ::
  "int option \<Rightarrow> 'w pager \<Rightarrow> item list \<Rightarrow> item option \<Rightarrow> 'w \<Rightarrow> ((qerror, item list) result \<times> 'w) option" where
  "pagedLoop maxItems fetch allItems lastEvaluatedKey w =
     (case fetch lastEvaluatedKey w of
        (Inl e, w') \<Rightarrow> Some (Inl e, w')
      | (Inr (items, nextKey), w') \<Rightarrow>
          (if nextKey = None \<or> limitReached maxItems (allItems @ items) then Some (Inr (allItems @ items), w')
           else pagedLoop maxItems fetch (allItems @ items) nextKey w'))"

definition executePagedItems :: "int option \<Rightarrow> 'w pager \<Rightarrow> 'w \<Rightarrow> ((qerror, item list) result \<times> 'w) option" where
  "executePagedItems maxItems fetch w = pagedLoop maxItems fetch [] None w"

text \<open>Decoding what was read into the destination.\<close>

definition decoded :: "decenv \<Rightarrow> (gtype sfield \<Rightarrow> string) \<Rightarrow> goany \<Rightarrow> (qerror, item list) result \<times> 'w \<Rightarrow> (xerror, gval) result \<times> 'w" where
  "decoded dec dyn dest p =
     (case p of (Inl e, w) \<Rightarrow> (Inl (XQuery e), w) | (Inr items, w) \<Rightarrow> (mapErr XDecode (UnmarshalItems dec dyn items dest), w))"

definition ExecuteQuery ::
  "decenv \<Rightarrow> (gtype sfield \<Rightarrow> string) \<Rightarrow> 'w DynamoDBAPI \<Rightarrow> CompiledQuery option \<Rightarrow> goany \<Rightarrow> 'w \<Rightarrow> ((xerror, gval) result \<times> 'w) option" where
  "ExecuteQuery dec dyn client input dest w =
     (case input of
        None \<Rightarrow> Some (Inl (XQuery nilQuery), w)
      | Some c \<Rightarrow> map_option (decoded dec dyn dest) (executePagedItems (cqLimit c) (queryPager client (buildDynamoQueryInput c)) w))"

definition ExecuteScan ::
  "decenv \<Rightarrow> (gtype sfield \<Rightarrow> string) \<Rightarrow> 'w DynamoDBAPI \<Rightarrow> CompiledQuery option \<Rightarrow> goany \<Rightarrow> 'w \<Rightarrow> ((xerror, gval) result \<times> 'w) option" where
  "ExecuteScan dec dyn client input dest w =
     (case input of
        None \<Rightarrow> Some (Inl (XQuery nilQuery), w)
      | Some c \<Rightarrow> map_option (decoded dec dyn dest) (executePagedItems (cqLimit c) (scanPager client (buildDynamoScanInput c)) w))"

text \<open>A destination of type \<open>*map[string]types.AttributeValue\<close> gets the item as it is.\<close>

datatype readDest = RawDest | GoDest goany
datatype readValue = RawValue item | GoValue gval

definition ExecuteGetItem ::
  "decenv \<Rightarrow> (gtype sfield \<Rightarrow> string) \<Rightarrow> 'w DynamoDBAPI \<Rightarrow> CompiledQuery option \<Rightarrow> item \<Rightarrow> readDest \<Rightarrow> 'w \<Rightarrow> (xerror, readValue) result \<times> 'w" where
  "ExecuteGetItem dec dyn client input key dest w =
     (case input of
        None \<Rightarrow> (Inl (XQuery nilQuery), w)
      | Some c \<Rightarrow>
          (if key = [] then (Inl (XQuery (QueryError ''key cannot be empty'')), w)
           else case dbGetItem client \<lparr> giTableName = cqTableName c, giKey = key, giProjectionExpression = nonEmpty (cqProjectionExpression c),
                                        giNames = cqExpressionAttributeNames c, giConsistentRead = cqConsistentRead c \<rparr> w of
             (Inl e, w') \<Rightarrow> (Inl (XQuery (sdkFailed ''failed to execute get item'' e)), w')
           | (Inr None, w') \<Rightarrow> (Inl (XQuery ItemNotFound), w')
           | (Inr (Some itm), w') \<Rightarrow>
               (case dest of
                  RawDest \<Rightarrow> (Inr (RawValue itm), w')
                | GoDest d \<Rightarrow> (bindE (mapErr XDecode (UnmarshalItem dec dyn itm d)) (\<lambda>v. Inr (GoValue v)), w'))))"

text \<open>One page with the key to continue from: \<open>QueryResult\<close> and \<open>ScanResult\<close>.  The request is built anew in these functions.\<close>

record PageResult =
  prValue :: gval
  prItems :: "item list"
  prCount :: int
  prScannedCount :: int
  prLastEvaluatedKey :: "item option"

definition paginatedQueryInput :: "CompiledQuery \<Rightarrow> QueryInput" where
  "paginatedQueryInput c =
     \<lparr> riTableName = cqTableName c, riIndexName = nonEmpty (cqIndexName c), riFilterExpression = nonEmpty (cqFilterExpression c),
       riProjectionExpression = nonEmpty (cqProjectionExpression c), riNames = cqExpressionAttributeNames c,
       riValues = cqExpressionAttributeValues c, riLimit = cqLimit c, riExclusiveStartKey = cqExclusiveStartKey c,
       riConsistentRead = cqConsistentRead c, qiKeyConditionExpression = nonEmpty (cqKeyConditionExpression c),
       qiScanIndexForward = cqScanIndexForward c \<rparr>"

definition paginatedScanInput :: "CompiledQuery \<Rightarrow> ScanInput" where
  "paginatedScanInput c =
     \<lparr> riTableName = cqTableName c, riIndexName = nonEmpty (cqIndexName c), riFilterExpression = nonEmpty (cqFilterExpression c),
       riProjectionExpression = nonEmpty (cqProjectionExpression c), riNames = cqExpressionAttributeNames c,
       riValues = cqExpressionAttributeValues c, riLimit = cqLimit c, riExclusiveStartKey = cqExclusiveStartKey c,
       riConsistentRead = cqConsistentRead c, siSegment = cqSegment c, siTotalSegments = cqTotalSegments c \<rparr>"

definition pageResult :: "decenv \<Rightarrow> (gtype sfield \<Rightarrow> string) \<Rightarrow> goany \<Rightarrow> string \<Rightarrow> (sdkError, ReadOutput) result \<times> 'w \<Rightarrow> (xerror, PageResult) result \<times> 'w" where
  "pageResult dec dyn dest what p =
     (case p of
        (Inl e, w) \<Rightarrow> (Inl (XQuery (sdkFailed what e)), w)
      | (Inr out, w) \<Rightarrow>
          (case UnmarshalItems dec dyn (roItems out) dest of
             Inl e \<Rightarrow> (Inl (XDecode e), w)
           | Inr v \<Rightarrow> (Inr \<lparr> prValue = v, prItems = roItems out, prCount = int (length (roItems out)), prScannedCount = roScannedCount out,
                              prLastEvaluatedKey = roLastEvaluatedKey out \<rparr>, w)))"

definition ExecuteQueryWithPagination ::
  "decenv \<Rightarrow> (gtype sfield \<Rightarrow> string) \<Rightarrow> 'w DynamoDBAPI \<Rightarrow> CompiledQuery option \<Rightarrow> goany \<Rightarrow> 'w \<Rightarrow> (xerror, PageResult) result \<times> 'w" where
  "ExecuteQueryWithPagination dec dyn client input dest w =
     (case input of
        None \<Rightarrow> (Inl (XQuery nilQuery), w)
      | Some c \<Rightarrow> pageResult dec dyn dest ''failed to execute query'' (dbQuery client (paginatedQueryInput c) w))"

definition ExecuteScanWithPagination ::
  "decenv \<Rightarrow> (gtype sfield \<Rightarrow> string) \<Rightarrow> 'w DynamoDBAPI \<Rightarrow> CompiledQuery option \<Rightarrow> goany \<Rightarrow> 'w \<Rightarrow> (xerror, PageResult) result \<times> 'w" where
  "ExecuteScanWithPagination dec dyn client input dest w =
     (case input of
        None \<Rightarrow> (Inl (XQuery nilQuery), w)
      | Some c \<Rightarrow> pageResult dec dyn dest ''failed to execute scan'' (dbScan client (paginatedScanInput c) w))"

section \<open>Conditional writes\<close>

definition isConditionalCheckFailed :: "sdkError \<Rightarrow> bool" where
  "isConditionalCheckFailed e = (case e of ConditionalCheckFailedException _ \<Rightarrow> True | OtherError s \<Rightarrow> Contains s ''ConditionalCheckFailed'')"

definition applyCompiledQueryWriteConditions :: "CompiledQuery \<Rightarrow> WriteInput \<Rightarrow> WriteInput" where
  "applyCompiledQueryWriteConditions c r0 =
     (let r1 = (if cqConditionExpression c \<noteq> [] then r0 \<lparr> wiConditionExpression := Some (cqConditionExpression c) \<rparr> else r0);
          r2 = (if cqExpressionAttributeNames c \<noteq> [] then r1 \<lparr> wiNames := cqExpressionAttributeNames c \<rparr> else r1) in
      if cqExpressionAttributeValues c \<noteq> [] then r2 \<lparr> wiValues := cqExpressionAttributeValues c \<rparr> else r2)"

definition executeConditionalWrite ::
  "CompiledQuery option \<Rightarrow> item \<Rightarrow> string \<Rightarrow> string \<Rightarrow> (CompiledQuery \<Rightarrow> item \<Rightarrow> 'w \<Rightarrow> (sdkError, unit) result \<times> 'w) \<Rightarrow> 'w \<Rightarrow> (qerror, unit) result \<times> 'w" where
  "executeConditionalWrite input attributes emptyWhat operation exec w =
     (case input of
        None \<Rightarrow> (Inl nilQuery, w)
      | Some c \<Rightarrow>
          (if attributes = [] then (Inl (QueryError (emptyWhat @ '' cannot be empty'')), w)
           else case exec c attributes w of
             (Inr _, w') \<Rightarrow> (Inr (), w')
           | (Inl e, w') \<Rightarrow>
               (if isConditionalCheckFailed e then (Inl (Wrapped (errText e) ConditionFailed), w')
                else (Inl (sdkFailed (''failed to '' @ operation @ '' item'') e), w'))))"

definition executeConditionalWriteRequest ::
  "(WriteInput \<Rightarrow> 'w \<Rightarrow> (sdkError, unit) result \<times> 'w) \<Rightarrow> CompiledQuery option \<Rightarrow> item \<Rightarrow> string \<Rightarrow> string \<Rightarrow> 'w \<Rightarrow> (qerror, unit) result \<times> 'w" where
  "executeConditionalWriteRequest call input attributes emptyWhat operation w =
     executeConditionalWrite input attributes emptyWhat operation
       (\<lambda>c attrs. call (applyCompiledQueryWriteConditions c
          \<lparr> wiTableName = cqTableName c, wiAttributes = attrs, wiConditionExpression = None, wiNames = [], wiValues = [] \<rparr>)) w"

definition ExecutePutItem :: "'w DynamoDBAPI \<Rightarrow> CompiledQuery option \<Rightarrow> item \<Rightarrow> 'w \<Rightarrow> (qerror, unit) result \<times> 'w" where
  "ExecutePutItem client input itm w = executeConditionalWriteRequest (dbPutItem client) input itm ''item'' ''put'' w"

definition ExecuteDeleteItem :: "'w DynamoDBAPI \<Rightarrow> CompiledQuery option \<Rightarrow> item \<Rightarrow> 'w \<Rightarrow> (qerror, unit) result \<times> 'w" where
  "ExecuteDeleteItem client input key w = executeConditionalWriteRequest (dbDeleteItem client) input key ''key'' ''delete'' w"

definition mainUpdateItem :: "'w DynamoDBAPI \<Rightarrow> CompiledQuery option \<Rightarrow> item \<Rightarrow> 'w \<Rightarrow> (qerror, unit) result \<times> 'w" where
  "mainUpdateItem client input key w = ExecuteUpdateItem (dbUpdateItem client) input key w"

definition mainUpdateItemWithResult :: "'w DynamoDBAPI \<Rightarrow> CompiledQuery option \<Rightarrow> item \<Rightarrow> 'w \<Rightarrow> (qerror, UpdateResult) result \<times> 'w" where
  "mainUpdateItemWithResult client input key w = ExecuteUpdateItemWithResult (dbUpdateItem client) input key w"

text \<open>The executor of \<open>pkg/core/executor_batch.go\<close> has its own puts and deletes: it does not look at the kind of the error and refuses nothing.\<close>

definition compiledQueryWriteConditions :: "CompiledQuery \<Rightarrow> string option \<times> (string \<times> string) list \<times> item" where
  "compiledQueryWriteConditions c = (nonEmpty (cqConditionExpression c), cqExpressionAttributeNames c, cqExpressionAttributeValues c)"

definition batchSupportWrite ::
  "(WriteInput \<Rightarrow> 'w \<Rightarrow> (sdkError, unit) result \<times> 'w) \<Rightarrow> string \<Rightarrow> CompiledQuery \<Rightarrow> item \<Rightarrow> 'w \<Rightarrow> (qerror, unit) result \<times> 'w" where
  "batchSupportWrite call what c attributes w =
     (case compiledQueryWriteConditions c of (cond, ns, vs) \<Rightarrow>
        (case call \<lparr> wiTableName = cqTableName c, wiAttributes = attributes, wiConditionExpression = cond, wiNames = ns, wiValues = vs \<rparr> w of
           (Inl e, w') \<Rightarrow> (Inl (sdkFailed what e), w')
         | (Inr _, w') \<Rightarrow> (Inr (), w')))"

definition batchSupportDeleteItem :: "'w DynamoDBAPI \<Rightarrow> CompiledQuery \<Rightarrow> item \<Rightarrow> 'w \<Rightarrow> (qerror, unit) result \<times> 'w" where
  "batchSupportDeleteItem client c key w = batchSupportWrite (dbDeleteItem client) ''failed to delete item'' c key w"

definition batchSupportPutItem :: "'w DynamoDBAPI \<Rightarrow> CompiledQuery \<Rightarrow> item \<Rightarrow> 'w \<Rightarrow> (qerror, unit) result \<times> 'w" where
  "batchSupportPutItem client c itm w = batchSupportWrite (dbPutItem client) ''failed to put item'' c itm w"

section \<open>Batch reads\<close>

definition buildKeysAndAttributes :: "CompiledBatchGet \<Rightarrow> KeysAndAttributes" where
  "buildKeysAndAttributes input =
     \<lparr> kaKeys = cbKeys input, kaProjectionExpression = nonEmpty (cbProjectionExpression input), kaNames = cbExpressionAttributeNames input,
       kaConsistentRead = (if cbConsistentRead input then Some True else None) \<rparr>"

definition countUnprocessedKeys :: "(string \<times> KeysAndAttributes) list \<Rightarrow> nat" where
  "countUnprocessedKeys unprocessed = sum_list (map (\<lambda>(_, entry). length (kaKeys entry)) unprocessed)"

text \<open>A uniform fraction from eight random bytes: the top 53 bits.\<close>

definition cryptoFloat64 :: "64 word \<Rightarrow> rat" where
  "cryptoFloat64 b = of_nat (unat (drop_bit 11 b)) / 2 ^ 53"

definition baseDelay :: "RetryPolicy \<Rightarrow> int" where
  "baseDelay policy = (if InitialDelay policy \<le> 0 then 50000000 else InitialDelay policy)"

text \<open>The delay before a retry, in nanoseconds; \<open>rnd\<close> are the random bytes, \<open>None\<close> when none could be read.  Products of floats are
  exact here and truncated to integers.\<close>

definition calculateBatchRetryDelay :: "RetryPolicy option \<Rightarrow> nat \<Rightarrow> 64 word option \<Rightarrow> int" where
  "calculateBatchRetryDelay policy attempt rnd =
     (case policy of
        None \<Rightarrow> 0
      | Some p \<Rightarrow>
          (let d0 = baseDelay p;
               d1 = (if attempt > 0 then truncRat (of_int d0 * BackoffFactor p ^ attempt) else d0);
               d2 = (if MaxDelay p > 0 \<and> d1 > MaxDelay p then MaxDelay p else d1) in
           if Jitter p > 0 then
             (let d3 = (case rnd of None \<Rightarrow> d2 | Some b \<Rightarrow> d2 + truncRat ((cryptoFloat64 b * 2 - 1) * Jitter p * of_int d2)) in
              if d3 < 0 then baseDelay p else d3)
           else d2))"

text \<open>The loop over the keys that are still unprocessed; \<open>sleep\<close> is the pause and \<open>rnds\<close> the random bytes of each attempt.\<close>

function batchGetLoop ::
  "'w DynamoDBAPI \<Rightarrow> (int \<Rightarrow> 'w \<Rightarrow> 'w) \<Rightarrow> (nat \<Rightarrow> 64 word option) \<Rightarrow> string \<Rightarrow> RetryPolicy option \<Rightarrow> nat \<Rightarrow> (string \<times> KeysAndAttributes) list
     \<Rightarrow> item list \<Rightarrow> 'w \<Rightarrow> (item list \<times> qerror option) \<times> 'w" where
  "batchGetLoop client sleep rnds tn policy retryAttempt requestItems collected w =
     (if requestItems = [] then ((collected, None), w)
      else case dbBatchGetItem client requestItems w of
        (Inl e, w1) \<Rightarrow> ((collected, Some (sdkFailed ''failed to batch get items'' e)), w1)
      | (Inr out, w1) \<Rightarrow>
          (let collected' = collected @ (case map_of (bgoResponses out) tn of None \<Rightarrow> [] | Some items \<Rightarrow> items);
               unprocessed = bgoUnprocessedKeys out;
               exhausted = ((collected', Some (QueryError (''batch get exhausted retries with '' @ showNat (countUnprocessedKeys unprocessed) @ '' unprocessed keys''))), w1) in
           if unprocessed = [] \<or> countUnprocessedKeys unprocessed = 0 then ((collected', None), w1)
           else case policy of
             None \<Rightarrow> exhausted
           | Some p \<Rightarrow>
               (if int retryAttempt \<ge> MaxRetries p then exhausted
                else batchGetLoop client sleep rnds tn policy (retryAttempt + 1) unprocessed collected'
                       (sleep (calculateBatchRetryDelay (Some p) retryAttempt (rnds retryAttempt)) w1))))"
  by pat_completeness auto
termination
  by (relation "measure (\<lambda>(client, sleep, rnds, tn, policy, a, reqs, acc, w). case policy of None \<Rightarrow> 0 | Some p \<Rightarrow> nat (MaxRetries p - int a))") auto

declare batchGetLoop.simps [simp del]

definition ExecuteBatchGet :: "'w DynamoDBAPI \<Rightarrow> (int \<Rightarrow> 'w \<Rightarrow> 'w) \<Rightarrow> (nat \<Rightarrow> 64 word option) \<Rightarrow> 'w batchGetter" where
  "ExecuteBatchGet client sleep rnds input given w =
     (if cbKeys input = [] then (([], None), w)
      else let policy = (case given of None \<Rightarrow> Some DefaultRetryPolicy | Some opts \<Rightarrow> bgRetryPolicy opts) in
        batchGetLoop client sleep rnds (cbTableName input) policy 0 [(cbTableName input, buildKeysAndAttributes input)] [] w)"

lemma cryptoFloat64_range: "0 \<le> cryptoFloat64 b" "cryptoFloat64 b < 1"
proof -
  have "unat (drop_bit 11 b) < 2 ^ 53"
  proof -
    have "unat b < 2 ^ LENGTH(64)" by (rule unsigned_less)
    then have "unat b < 2 ^ 64" by simp
    moreover have "unat (drop_bit 11 b) = unat b div 2 ^ 11" by (simp add: drop_bit_eq_div unat_div_distrib)
    ultimately show ?thesis by (simp add: less_mult_imp_div_less)
  qed
  then have "(of_nat (unat (drop_bit 11 b)) :: rat) < of_nat (2 ^ 53)" by (rule of_nat_less_iff[THEN iffD2])
  then show "cryptoFloat64 b < 1" by (simp add: cryptoFloat64_def)
  show "0 \<le> cryptoFloat64 b" unfolding cryptoFloat64_def by (intro divide_nonneg_pos of_nat_0_le_iff) simp
qed

lemma truncRat_bounds: "0 \<le> r \<Longrightarrow> 0 \<le> truncRat r \<and> of_int (truncRat r) \<le> r" "r \<le> 0 \<Longrightarrow> r \<le> of_int (truncRat r) \<and> truncRat r \<le> 0"
  by (auto simp: truncRat_def ceiling_le_iff)

text \<open>With a backoff factor that is not negative and a jitter of at most one, the delay is not negative and exceeds the maximal delay
  by the jitter at most.\<close>

lemma calculateBatchRetryDelay_bounds:
  assumes "0 \<le> BackoffFactor p" "0 \<le> Jitter p" "Jitter p \<le> 1" "0 < MaxDelay p"
  shows "0 \<le> calculateBatchRetryDelay (Some p) attempt rnd"
    "of_int (calculateBatchRetryDelay (Some p) attempt rnd) \<le> (1 + Jitter p) * of_int (MaxDelay p)"
proof -
  define d1 where "d1 = (if attempt > 0 then truncRat (of_int (baseDelay p) * BackoffFactor p ^ attempt) else baseDelay p)"
  define d2 where "d2 = (if MaxDelay p > 0 \<and> d1 > MaxDelay p then MaxDelay p else d1)"
  have "0 < baseDelay p" by (simp add: baseDelay_def)
  then have "0 \<le> d1" using truncRat_bounds(1)[of "of_int (baseDelay p) * BackoffFactor p ^ attempt"] assms(1) by (auto simp: d1_def)
  then have d2: "0 \<le> d2" "d2 \<le> MaxDelay p" using assms(4) by (auto simp: d2_def)
  define off where "off b = (cryptoFloat64 b * 2 - 1) * Jitter p * of_int d2" for b
  have off: "- of_int d2 * Jitter p \<le> off b" "off b \<le> of_int d2 * Jitter p" for b
  proof -
    have "\<bar>cryptoFloat64 b * 2 - 1\<bar> \<le> 1" using cryptoFloat64_range[of b] by linarith
    moreover have "\<bar>off b\<bar> = \<bar>cryptoFloat64 b * 2 - 1\<bar> * (Jitter p * of_int d2)" using assms(2) d2(1) by (simp add: off_def abs_mult)
    moreover have "0 \<le> Jitter p * of_int d2" using assms(2) d2(1) by simp
    ultimately have "\<bar>off b\<bar> \<le> Jitter p * of_int d2" by (metis mult_left_le_one_le abs_ge_zero)
    then show "- of_int d2 * Jitter p \<le> off b" "off b \<le> of_int d2 * Jitter p" by (auto simp: abs_le_iff mult.commute)
  qed
  have tr: "- d2 \<le> truncRat (off b)" "of_int (truncRat (off b)) \<le> of_int d2 * Jitter p" for b
  proof -
    have "- of_int d2 \<le> (off b)" using off(1)[of b] assms(3) d2(1) mult_left_le[of "Jitter p" "of_int d2"] by linarith
    then have "(of_int (- d2) :: rat) \<le> of_int (truncRat (off b))"
      using truncRat_bounds[of "off b"] d2(1) by (cases "0 \<le> off b") (auto intro: order_trans)
    then show "- d2 \<le> truncRat (off b)" unfolding of_int_le_iff .
    show "of_int (truncRat (off b)) \<le> of_int d2 * Jitter p"
    proof (cases "0 \<le> off b")
      case False
      then have "(of_int (truncRat (off b)) :: rat) \<le> 0" using truncRat_bounds(2)[of "off b"] by simp
      also have "0 \<le> of_int d2 * Jitter p" using assms(2) d2(1) by simp
      finally show ?thesis .
    qed (use truncRat_bounds(1)[of "off b"] off(2)[of b] in \<open>auto intro: order_trans\<close>)
  qed
  define d where "d = calculateBatchRetryDelay (Some p) attempt rnd"
  have d: "d = (if Jitter p > 0 then (let d3 = (case rnd of None \<Rightarrow> d2 | Some b \<Rightarrow> d2 + truncRat (off b)) in if d3 < 0 then baseDelay p else d3) else d2)"
    unfolding d_def calculateBatchRetryDelay_def option.case(2) Let_def d1_def[symmetric] d2_def[symmetric] off_def[symmetric] by (rule refl)
  have "0 \<le> d \<and> of_int d \<le> of_int d2 + of_int d2 * Jitter p"
  proof (cases rnd)
    case None
    then show ?thesis using d2(1) assms(2) by (simp add: d)
  next
    case (Some b)
    have "\<not> d2 + truncRat (off b) < 0" using tr(1)[of b] by simp
    then show ?thesis using Some d2(1) assms(2) tr(2)[of b] by (simp add: d)
  qed
  moreover have "of_int d2 + of_int d2 * Jitter p \<le> (1 + Jitter p) * of_int (MaxDelay p)"
    using d2(2) assms(2) by (simp add: algebra_simps add_mono mult_left_mono)
  ultimately show "0 \<le> calculateBatchRetryDelay (Some p) attempt rnd"
    "of_int (calculateBatchRetryDelay (Some p) attempt rnd) \<le> (1 + Jitter p) * of_int (MaxDelay p)"
    by (auto simp: d_def[symmetric])
qed

section \<open>Batch writes\<close>

text \<open>The requests that DynamoDB leaves unprocessed are sent again, without a bound.\<close>

partial_function (option) batchPutLoop ::
  "'w DynamoDBAPI \<Rightarrow> (string \<times> WriteRequest list) list \<Rightarrow> 'w \<Rightarrow> ((qerror, unit) result \<times> 'w) option" where
  "batchPutLoop client requestItems w =
     (case dbBatchWriteItem client requestItems w of
        (Inl e, w') \<Rightarrow> Some (Inl (sdkFailed ''failed to batch write items'' e), w')
      | (Inr unprocessed, w') \<Rightarrow> (if unprocessed = [] then Some (Inr (), w') else batchPutLoop client unprocessed w'))"

fun batchPutAll :: "'w DynamoDBAPI \<Rightarrow> string \<Rightarrow> item list list \<Rightarrow> 'w \<Rightarrow> ((qerror, unit) result \<times> 'w) option" where
  "batchPutAll client tn [] w = Some (Inr (), w)"
| "batchPutAll client tn (batch # batches) w =
     (case batchPutLoop client [(tn, map PutRequest batch)] w of
        None \<Rightarrow> None
      | Some (Inl e, w') \<Rightarrow> Some (Inl e, w')
      | Some (Inr _, w') \<Rightarrow> batchPutAll client tn batches w')"

text \<open>\<open>CompiledBatchWrite\<close> is a table name and the items to put.\<close>

definition ExecuteBatchWrite :: "'w DynamoDBAPI \<Rightarrow> (string \<times> item list) option \<Rightarrow> 'w \<Rightarrow> ((qerror, unit) result \<times> 'w) option" where
  "ExecuteBatchWrite client input w =
     (case input of
        None \<Rightarrow> Some (Inl (QueryError ''compiled batch write cannot be nil''), w)
      | Some (tn, items) \<Rightarrow> (if items = [] then Some (Inr (), w) else batchPutAll client tn (windows 25 items) w))"

section \<open>Paging\<close>

text \<open>The two ways to build a read request agree.\<close>

lemma set_unless_empty:
  "r = r' \<Longrightarrow> riIndexName r' = None \<Longrightarrow> (if x \<noteq> [] then r \<lparr> riIndexName := Some x \<rparr> else r) = r' \<lparr> riIndexName := nonEmpty x \<rparr>"
  "r = r' \<Longrightarrow> riFilterExpression r' = None \<Longrightarrow> (if x \<noteq> [] then r \<lparr> riFilterExpression := Some x \<rparr> else r) = r' \<lparr> riFilterExpression := nonEmpty x \<rparr>"
  "r = r' \<Longrightarrow> riProjectionExpression r' = None \<Longrightarrow> (if x \<noteq> [] then r \<lparr> riProjectionExpression := Some x \<rparr> else r) = r' \<lparr> riProjectionExpression := nonEmpty x \<rparr>"
  "r = r' \<Longrightarrow> riNames r' = [] \<Longrightarrow> (if ns \<noteq> [] then r \<lparr> riNames := ns \<rparr> else r) = r' \<lparr> riNames := ns \<rparr>"
  "r = r' \<Longrightarrow> riValues r' = [] \<Longrightarrow> (if vs \<noteq> [] then r \<lparr> riValues := vs \<rparr> else r) = r' \<lparr> riValues := vs \<rparr>"
  "r = r' \<Longrightarrow> riLimit r' = None \<Longrightarrow> (if l \<noteq> None then r \<lparr> riLimit := l \<rparr> else r) = r' \<lparr> riLimit := l \<rparr>"
  "r = r' \<Longrightarrow> riExclusiveStartKey r' = [] \<Longrightarrow> (if vs \<noteq> [] then r \<lparr> riExclusiveStartKey := vs \<rparr> else r) = r' \<lparr> riExclusiveStartKey := vs \<rparr>"
  "r = r' \<Longrightarrow> riConsistentRead r' = None \<Longrightarrow> (if b \<noteq> None then r \<lparr> riConsistentRead := b \<rparr> else r) = r' \<lparr> riConsistentRead := b \<rparr>"
  by (auto simp: nonEmpty_def)

lemma applyRead_empty:
  assumes "riIndexName r = None" "riFilterExpression r = None" "riProjectionExpression r = None" "riNames r = []" "riValues r = []"
    "riLimit r = None" "riExclusiveStartKey r = []" "riConsistentRead r = None"
  shows "applyCompiledQueryReadFields c r = r \<lparr> riIndexName := nonEmpty (cqIndexName c), riFilterExpression := nonEmpty (cqFilterExpression c),
    riProjectionExpression := nonEmpty (cqProjectionExpression c), riNames := cqExpressionAttributeNames c, riValues := cqExpressionAttributeValues c,
    riLimit := cqLimit c, riExclusiveStartKey := cqExclusiveStartKey c, riConsistentRead := cqConsistentRead c \<rparr>"
  unfolding applyCompiledQueryReadFields_def Let_def by (intro set_unless_empty refl) (use assms in simp_all)

lemma paginated_inputs:
  "paginatedQueryInput c = buildDynamoQueryInput c" "paginatedScanInput c = buildDynamoScanInput c"
  by (simp_all add: paginatedQueryInput_def buildDynamoQueryInput_def paginatedScanInput_def buildDynamoScanInput_def
      applyRead_empty emptyQueryInput_def emptyScanInput_def nonEmpty_def Let_def)

text \<open>What the client answers when the pages are followed from a key on, up to the page without a continuation key.\<close>

inductive pagesFrom :: "'w pager \<Rightarrow> item option \<Rightarrow> 'w \<Rightarrow> item list list \<Rightarrow> 'w list \<Rightarrow> bool" where
  pages_last: "fetch key w = (Inr (items, None), w') \<Longrightarrow> pagesFrom fetch key w [items] [w']"
| pages_more: "fetch key w = (Inr (items, Some k), w1) \<Longrightarrow> pagesFrom fetch (Some k) w1 ps ws \<Longrightarrow> pagesFrom fetch key w (items # ps) (w1 # ws)"

text \<open>The pages that are read under a limit: up to the first with which the limit is reached.\<close>

fun pagesRead :: "int option \<Rightarrow> nat \<Rightarrow> item list list \<Rightarrow> nat" where
  "pagesRead maxItems have [] = 0"
| "pagesRead maxItems have (p # ps) =
     (if (case maxItems of None \<Rightarrow> False | Some l \<Rightarrow> int (have + length p) \<ge> l) then 1 else Suc (pagesRead maxItems (have + length p) ps))"

lemma pagedLoop_pages:
  "pagesFrom fetch key w ps ws \<Longrightarrow> pagedLoop mx fetch acc key w
     = Some (Inr (acc @ concat (take (pagesRead mx (length acc) ps) ps)), ws ! (pagesRead mx (length acc) ps - 1))"
proof (induction arbitrary: acc rule: pagesFrom.induct)
  case (pages_last fetch key w items w')
  then show ?case by (subst pagedLoop.simps) simp
next
  case (pages_more fetch key w items k w1 ps ws)
  have step: "pagedLoop mx fetch acc key w = (if limitReached mx (acc @ items) then Some (Inr (acc @ items), w1)
      else pagedLoop mx fetch (acc @ items) (Some k) w1)"
    using pages_more.hyps(1) by (subst pagedLoop.simps) simp
  have "ps \<noteq> []" using pages_more.hyps(2) by (cases rule: pagesFrom.cases) auto
  then have pos: "pagesRead mx n ps > 0" for n by (cases ps) auto
  then have "(w1 # ws) ! pagesRead mx n ps = ws ! (pagesRead mx n ps - 1)" for n by (metis nth_Cons_pos)
  then show ?case unfolding step using pages_more.IH[of "acc @ items"] by (simp add: limitReached_def split: option.splits)
qed

lemma pagesRead_spec:
  assumes "ps \<noteq> []" "n = pagesRead mx have ps"
  shows "0 < n \<and> n \<le> length ps \<and> (n < length ps \<longrightarrow> (\<exists>l. mx = Some l \<and> int (have + length (concat (take n ps))) \<ge> l))
     \<and> (\<forall>l m. mx = Some l \<and> 0 < m \<and> m < n \<longrightarrow> int (have + length (concat (take m ps))) < l)"
  using assms
proof (induction mx "have" ps arbitrary: n rule: pagesRead.induct)
  case (2 mx "have" p ps)
  show ?case
  proof (cases "ps = [] \<or> (\<exists>l. mx = Some l \<and> int (have + length p) \<ge> l)")
    case True
    then show ?thesis using 2(3) by (auto split: option.splits)
  next
    case False
    then have go: "\<not> (case mx of None \<Rightarrow> False | Some l \<Rightarrow> l \<le> int (have + length p))" "ps \<noteq> []" by (auto split: option.splits)
    define k where "k = pagesRead mx (have + length p) ps"
    have n: "n = Suc k" using 2(3) go(1) by (simp add: k_def)
    have IH: "0 < k \<and> k \<le> length ps \<and> (k < length ps \<longrightarrow> (\<exists>l. mx = Some l \<and> int (have + length p + length (concat (take k ps))) \<ge> l))
       \<and> (\<forall>l m. mx = Some l \<and> 0 < m \<and> m < k \<longrightarrow> int (have + length p + length (concat (take m ps))) < l)"
      by (rule "2.IH"[OF go k_def])
    have "int (have + length (concat (take m (p # ps)))) < l" if m: "mx = Some l" "0 < m" "m < n" for l m
    proof (cases m)
      case (Suc j)
      then show ?thesis using IH m n go(1) by (cases "j = 0") (auto simp: algebra_simps)
    qed (use m in simp)
    then show ?thesis using IH n by (auto simp: algebra_simps)
  qed
qed simp

text \<open>C34. A query reads its pages in order.  If following the continuation keys from the request on comes to an end, with the pages
  \<open>ps\<close>, then the query returns, and what it decodes into the destination is the concatenation of the first \<open>n\<close> pages: all of them
  when there is no limit, and otherwise the pages up to the first with which the limit is reached.  So no item is skipped or read twice, and
  with a limit the result can hold more items than the limit.\<close>

theorem ExecuteQuery_pages:
  assumes "pagesFrom (queryPager client (buildDynamoQueryInput c)) None w ps ws"
  shows "\<exists>n. 0 < n \<and> n \<le> length ps
     \<and> ExecuteQuery dec dyn client (Some c) dest w = Some (mapErr XDecode (UnmarshalItems dec dyn (concat (take n ps)) dest), ws ! (n - 1))
     \<and> (n < length ps \<longrightarrow> (\<exists>l. cqLimit c = Some l \<and> int (length (concat (take n ps))) \<ge> l))
     \<and> (\<forall>l m. cqLimit c = Some l \<and> 0 < m \<and> m < n \<longrightarrow> int (length (concat (take m ps))) < l)"
proof -
  have "ps \<noteq> []" using assms by (cases rule: pagesFrom.cases) auto
  from pagesRead_spec[OF this refl, of "cqLimit c" 0] pagedLoop_pages[OF assms, of "cqLimit c" "[]"] show ?thesis
    by (intro exI[of _ "pagesRead (cqLimit c) 0 ps"]) (auto simp: ExecuteQuery_def executePagedItems_def decoded_def)
qed

text \<open>A client with three pages.\<close>

definition pageItem :: "string \<Rightarrow> item" where
  "pageItem s = [(''id'', AVS s)]"

definition demoPageList :: "item list list" where
  "demoPageList = [[pageItem ''a'', pageItem ''b''], [pageItem ''c'', pageItem ''d''], [pageItem ''e'']]"

definition demoPaged :: "unit DynamoDBAPI" where
  "demoPaged = \<lparr> dbQuery = (\<lambda>r w. (Inr (if riExclusiveStartKey r = [] then \<lparr> roItems = demoPageList ! 0, roScannedCount = 2, roLastEvaluatedKey = Some (pageItem ''b'') \<rparr>
        else if riExclusiveStartKey r = pageItem ''b'' then \<lparr> roItems = demoPageList ! 1, roScannedCount = 2, roLastEvaluatedKey = Some (pageItem ''d'') \<rparr>
        else \<lparr> roItems = demoPageList ! 2, roScannedCount = 1, roLastEvaluatedKey = None \<rparr>), w)),
     dbScan = (\<lambda>_ w. (Inl (OtherError ''unused''), w)), dbGetItem = (\<lambda>_ w. (Inr None, w)), dbPutItem = (\<lambda>_ w. (Inr (), w)),
     dbDeleteItem = (\<lambda>_ w. (Inr (), w)), dbUpdateItem = (\<lambda>_ w. (Inl ''unused'', w)),
     dbBatchGetItem = (\<lambda>_ w. (Inl (OtherError ''unused''), w)), dbBatchWriteItem = (\<lambda>_ w. (Inr [], w)) \<rparr>"

definition demoLimited :: CompiledQuery where
  "demoLimited = emptyCompiled \<lparr> cqTableName := ''users'', cqKeyConditionExpression := ''#n1 = :v1'', cqLimit := Some 3 \<rparr>"

theorem ExecuteQuery_pages_witness:
  "ExecuteQuery plainDec (\<lambda>_. []) demoPaged (Some demoLimited) (Some (TPtr (TSlice demoType), VPtr (Some (VSlice [])))) ()
     = Some (mapErr XDecode (UnmarshalItems plainDec (\<lambda>_. []) (map pageItem [''a'', ''b'', ''c'', ''d'']) (Some (TPtr (TSlice demoType), VPtr (Some (VSlice []))))), ())"
proof -
  let ?f = "queryPager demoPaged (buildDynamoQueryInput demoLimited)"
  have start: "riExclusiveStartKey (buildDynamoQueryInput demoLimited) = []"
    by (simp add: paginated_inputs[symmetric] paginatedQueryInput_def demoLimited_def emptyCompiled_def)
  have f: "?f None () = (Inr (demoPageList ! 0, Some (pageItem ''b'')), ())" "?f (Some (pageItem ''b'')) () = (Inr (demoPageList ! 1, Some (pageItem ''d'')), ())"
    "?f (Some (pageItem ''d'')) () = (Inr (demoPageList ! 2, None), ())"
    using start by (simp_all add: queryPager_def startAt_def pageOf_def demoPaged_def pageItem_def)
  have pages: "pagesFrom ?f None () [demoPageList ! 0, demoPageList ! 1, demoPageList ! 2] [(), (), ()]"
    by (rule pages_more[where fetch = ?f, OF f(1)], rule pages_more[where fetch = ?f, OF f(2)], rule pages_last[where fetch = ?f, OF f(3)])
  have lim: "cqLimit demoLimited = Some 3" by (simp add: demoLimited_def)
  let ?dest = "Some (TPtr (TSlice demoType), VPtr (Some (VSlice [])))"
  let ?ps = "[demoPageList ! 0, demoPageList ! 1, demoPageList ! 2]"
  obtain n where n: "0 < n" "n \<le> length ?ps"
      "ExecuteQuery plainDec (\<lambda>_. []) demoPaged (Some demoLimited) ?dest ()
         = Some (mapErr XDecode (UnmarshalItems plainDec (\<lambda>_. []) (concat (take n ?ps)) ?dest), [(), (), ()] ! (n - 1))"
      "n < length ?ps \<longrightarrow> (\<exists>l. cqLimit demoLimited = Some l \<and> int (length (concat (take n ?ps))) \<ge> l)"
      "\<forall>l m. cqLimit demoLimited = Some l \<and> 0 < m \<and> m < n \<longrightarrow> int (length (concat (take m ?ps))) < l"
    using ExecuteQuery_pages[OF pages, of plainDec "\<lambda>_. []" ?dest] by blast
  have "n = 1 \<or> n = 2 \<or> n = 3" using n(1,2) by auto
  then have "n = 2" using n(4) n(5)[rule_format, of 3 2] by (auto simp: lim demoPageList_def numeral_2_eq_2)
  then show ?thesis using n(3) by (simp add: demoPageList_def numeral_2_eq_2)
qed

section \<open>Batch reads return what the table holds\<close>

text \<open>The documented behaviour of \<open>BatchGetItem\<close> for distinct keys of one table: the answer holds the items of the keys that were
  processed, and the others come back as unprocessed keys.\<close>

definition responsesFor :: "string \<Rightarrow> BatchGetItemOutput \<Rightarrow> item list" where
  "responsesFor tn out = (case map_of (bgoResponses out) tn of None \<Rightarrow> [] | Some items \<Rightarrow> items)"

definition batchGetLaw :: "'w DynamoDBAPI \<Rightarrow> tableContent \<Rightarrow> bool" where
  "batchGetLaw client tbl = (\<forall>tn kaa w out w'. distinct (kaKeys kaa) \<and> dbBatchGetItem client [(tn, kaa)] w = (Inr out, w') \<longrightarrow>
     (\<exists>rest. bgoUnprocessedKeys out = (if kaKeys rest = [] then [] else [(tn, rest)]) \<and> distinct (kaKeys rest) \<and> set (kaKeys rest) \<subseteq> set (kaKeys kaa)
        \<and> set (responsesFor tn out) = itemsAt tbl (set (kaKeys kaa) - set (kaKeys rest))))"

lemma itemsAt_split: "K \<subseteq> L \<Longrightarrow> itemsAt tbl (L - K) \<union> itemsAt tbl K = itemsAt tbl L"
  by (auto simp: itemsAt_def)

lemma batchGetLoop_collects:
  assumes "batchGetLaw client tbl" "batchGetLoop client sleep rnds tn policy a [(tn, kaa)] acc w = ((items, None), w')" "distinct (kaKeys kaa)"
  shows "set items = set acc \<union> itemsAt tbl (set (kaKeys kaa))"
  using assms(2,3)
proof (induction "case policy of None \<Rightarrow> 0 | Some p \<Rightarrow> nat (MaxRetries p - int a)" arbitrary: a kaa acc w rule: less_induct)
  case less
  note run = less.prems(1)[unfolded batchGetLoop.simps[of client sleep rnds tn policy a]]
  obtain out w1 where call: "dbBatchGetItem client [(tn, kaa)] w = (Inr out, w1)"
    using run by (auto split: sum.splits prod.splits)
  obtain rest where rest: "bgoUnprocessedKeys out = (if kaKeys rest = [] then [] else [(tn, rest)])" "distinct (kaKeys rest)"
      "set (kaKeys rest) \<subseteq> set (kaKeys kaa)" "set (responsesFor tn out) = itemsAt tbl (set (kaKeys kaa) - set (kaKeys rest))"
    using assms(1) call less.prems(2) unfolding batchGetLaw_def by blast
  let ?acc = "acc @ responsesFor tn out"
  show ?case
  proof (cases "kaKeys rest = []")
    case True
    then have "items = ?acc" using run rest(1) call by (auto simp: responsesFor_def)
    then show ?thesis using rest(4) True by simp
  next
    case False
    then obtain p w2 where p: "policy = Some p" "int a < MaxRetries p"
        and rec: "batchGetLoop client sleep rnds tn policy (a + 1) [(tn, rest)] ?acc w2 = ((items, None), w')"
      using run rest(1) call by (auto simp: responsesFor_def countUnprocessedKeys_def Let_def split: option.splits if_splits)
    have "set items = set ?acc \<union> itemsAt tbl (set (kaKeys rest))"
      by (rule less.hyps[OF _ rec rest(2)]) (use p in simp)
    then show ?thesis using rest(4) itemsAt_split[OF rest(3), of tbl] by auto
  qed
qed

lemma ExecuteBatchGet_contract:
  assumes "batchGetLaw client tbl"
  shows "batch_getter (ExecuteBatchGet client sleep rnds) tbl"
proof
  fix req opts w items w'
  assume run: "ExecuteBatchGet client sleep rnds req opts w = ((items, None), w')" and d: "distinct (cbKeys req)"
  show "set items = itemsAt tbl (set (cbKeys req))"
  proof (cases "cbKeys req = []")
    case True
    then show ?thesis using run by (auto simp: ExecuteBatchGet_def itemsAt_def)
  next
    case False
    then show ?thesis using run d batchGetLoop_collects[OF assms, of sleep rnds "cbTableName req" _ 0 "buildKeysAndAttributes req" "[]" w items w']
      by (auto simp: ExecuteBatchGet_def buildKeysAndAttributes_def Let_def)
  qed
qed

text \<open>C35. A batch read through the main executor returns the items of the table in the order of the keys.  When \<open>BatchGet\<close> succeeds, with distinct keys,
  no chunk error handler, every chunk scheduled, and items that come with their key attributes (which a projection can leave out,
  \<open>projected_items_are_dropped\<close>), then whatever the order in which parallel chunks run and however many keys DynamoDB leaves unprocessed
  in between, its result lists for each key in turn the item the table has under it, and nothing for keys that are not in
  the table.\<close>

theorem BatchGet_in_key_order:
  assumes "batchGetLaw client tbl" "\<And>cs. set (schedule cs) = set cs" "case given of None \<Rightarrow> True | Some opts \<Rightarrow> bgOnChunkError opts = None"
    and "BatchGetWithOptions env dyn (Some (ExecuteBatchGet client sleep rnds)) schedule q keys dest given w = (Inr found, w')"
    and "metadata q = Some md" "mapE (buildBatchGetKey env dyn q md) keys = Inr attrs" "distinct attrs" "keyedBy tbl (set attrs)"
  shows "found = List.map_filter tbl attrs"
proof -
  let ?opts = "normalizeBatchGetOptions given"
  obtain specs p ns where specs: "convertBatchGetKeys env dyn q md keys = Inr specs"
    and run: "executeBatchGetChunks (ExecuteBatchGet client sleep rnds) schedule
      (buildBatchGetChunks md specs (bgChunkSize ?opts) (bgConsistentRead ?opts \<or> consistentRead q) p ns) specs ?opts w = (Inr found, w')"
    using assms(4,5) by (auto simp: BatchGetWithOptions_def buildBatchGetPlan_def Let_def bindE_def split: sum.splits if_splits)
  have "map specAttrs specs = attrs"
    using convertBatchGetKeys_specs(3)[OF specs] assms(6) by (auto simp: mapE_Inr list_all2_conv_all_nth intro!: nth_equalityI)
  then have "found = List.map_filter (\<lambda>s. tbl (specAttrs s)) specs"
    using batch_getter.executed[OF ExecuteBatchGet_contract[OF assms(1)] run _ _ assms(2) convertBatchGetKeys_specs(1)[OF specs]]
      assms(3,7,8) normalize_chunkSize[of given] by (auto simp: normalize_onChunkError split: option.splits)
  then show ?thesis unfolding \<open>map specAttrs specs = attrs\<close>[symmetric] by (simp add: map_filter_def filter_map comp_def)
qed

text \<open>A table that answers for one key in each call.\<close>

definition demoTable :: tableContent where
  "demoTable k = (if k = pageItem ''a'' then Some (pageItem ''a'' @ [(''n'', AVN ''1'')]) else if k = pageItem ''c'' then Some (pageItem ''c'') else None)"

definition oneAtATime :: "unit DynamoDBAPI" where
  "oneAtATime = demoPaged \<lparr> dbBatchGetItem := (\<lambda>reqs w.
     (Inr (case reqs of [(tn, kaa)] \<Rightarrow>
        (case kaKeys kaa of
           [] \<Rightarrow> \<lparr> bgoResponses = [], bgoUnprocessedKeys = [] \<rparr>
         | k # ks \<Rightarrow> \<lparr> bgoResponses = [(tn, case demoTable k of None \<Rightarrow> [] | Some it \<Rightarrow> [it])],
                       bgoUnprocessedKeys = (if ks = [] then [] else [(tn, kaa \<lparr> kaKeys := ks \<rparr>)]) \<rparr>)
       | _ \<Rightarrow> \<lparr> bgoResponses = [], bgoUnprocessedKeys = [] \<rparr>), w)) \<rparr>"

lemma oneAtATime_law: "batchGetLaw oneAtATime demoTable"
  unfolding batchGetLaw_def
proof (intro allI impI)
  fix tn kaa w out w'
  assume *: "distinct (kaKeys kaa) \<and> dbBatchGetItem oneAtATime [(tn, kaa)] w = (Inr out, w')"
  show "\<exists>rest. bgoUnprocessedKeys out = (if kaKeys rest = [] then [] else [(tn, rest)]) \<and> distinct (kaKeys rest) \<and> set (kaKeys rest) \<subseteq> set (kaKeys kaa)
        \<and> set (responsesFor tn out) = itemsAt demoTable (set (kaKeys kaa) - set (kaKeys rest))"
    by (rule exI[of _ "kaa \<lparr> kaKeys := tl (kaKeys kaa) \<rparr>"])
      (use * in \<open>cases "kaKeys kaa"; auto simp: oneAtATime_def responsesFor_def itemsAt_def split: option.splits\<close>)
qed

interpretation slow: batch_getter "ExecuteBatchGet oneAtATime (\<lambda>_ w. w) (\<lambda>_. None)" demoTable
  by (rule ExecuteBatchGet_contract) (rule oneAtATime_law)

abbreviation demoKeys :: "getKey list" where
  "demoKeys \<equiv> map (\<lambda>s. ValueKey (Some (TString, VString s))) [''c'', ''b'', ''a'']"

lemma demo_getKey:
  "buildBatchGetKey plainEnv (\<lambda>_. []) demoOwner demoMetadata (ValueKey (Some (TString, VString s))) = Inr (pageItem s)"
proof -
  have "resolveAttributeName demoOwner ''ID'' = ''id''" by (simp add: resolveAttributeName_def demoLike_facts)
  moreover have "toAttributeValue plainEnv demoOwner (Some (TString, VString s)) = Inr (AVS s)"
    by (simp add: toAttributeValue_def demoOwner_eq New_def ConvertToAttributeValue_def plainEnv_def withMarshaler_def)
  moreover have "ksPartitionKey (mmPrimaryKey demoMetadata) = ''ID''" "ksSortKey (mmPrimaryKey demoMetadata) = []" by (simp_all add: demoMetadata_def)
  moreover have "\<not> isStructLike (Some (TString, VString s))" by (simp add: isStructLike_def structValue_def kindOf_def)
  ultimately show ?thesis by (simp add: buildBatchGetKey_def partitionOnlyKey_def pageItem_def bindE_def)
qed

lemma demo_getKeys:
  "mapE (buildBatchGetKey plainEnv (\<lambda>_. []) demoOwner demoMetadata) demoKeys = Inr (map pageItem [''c'', ''b'', ''a''])"
  by (simp add: demo_getKey)

lemma oneAtATime_succeeds:
  assumes "length (cbKeys req) \<le> 4" "opts = Some o'" "bgRetryPolicy o' = Some DefaultRetryPolicy"
  shows "\<exists>items. ExecuteBatchGet oneAtATime (\<lambda>_ w. w) (\<lambda>_. None) req opts w = ((items, None), w)"
proof -
  have "\<exists>items. batchGetLoop oneAtATime (\<lambda>_ w. w) (\<lambda>_. None) tn (Some DefaultRetryPolicy) a [(tn, kaa)] acc w = ((items, None), w)"
    if "a + length (kaKeys kaa) \<le> 4" for tn kaa acc and a :: nat
    using that
  proof (induction "length (kaKeys kaa)" arbitrary: a kaa acc)
    case 0
    then show ?case by (subst batchGetLoop.simps) (simp add: oneAtATime_def)
  next
    case (Suc n)
    then obtain k ks where ks: "kaKeys kaa = k # ks" by (cases "kaKeys kaa") auto
    show ?case
    proof (cases "ks = []")
      case True
      then show ?thesis using ks by (subst batchGetLoop.simps) (simp add: oneAtATime_def)
    next
      case False
      then have "int a < 3" using Suc.prems ks by (cases ks) auto
      moreover have "\<exists>items. batchGetLoop oneAtATime (\<lambda>_ w. w) (\<lambda>_. None) tn (Some DefaultRetryPolicy) (a + 1) [(tn, kaa \<lparr> kaKeys := ks \<rparr>)] acc' w = ((items, None), w)" for acc'
        by (rule Suc.hyps(1)) (use Suc.hyps(2) Suc.prems ks in auto)
      ultimately show ?thesis using ks False
        by (subst batchGetLoop.simps) (simp add: oneAtATime_def DefaultRetryPolicy_def countUnprocessedKeys_def Let_def)
    qed
  qed
  then show ?thesis using assms by (auto simp: ExecuteBatchGet_def buildKeysAndAttributes_def Let_def)
qed

theorem BatchGet_in_key_order_witness:
  "fst (BatchGet plainEnv (\<lambda>_. []) (Some (ExecuteBatchGet oneAtATime (\<lambda>_ w. w) (\<lambda>_. None))) rev demoOwner demoKeys
     (Some (TPtr (TSlice demoType), VPtr (Some (VSlice [])))) ()) = Inr [pageItem ''c'', pageItem ''a'' @ [(''n'', AVN ''1'')]]"
proof -
  let ?run = "BatchGetWithOptions plainEnv (\<lambda>_. []) (Some (ExecuteBatchGet oneAtATime (\<lambda>_ w. w) (\<lambda>_. None))) rev demoOwner demoKeys
     (Some (TPtr (TSlice demoType), VPtr (Some (VSlice [])))) None ()"
  note keys = demo_getKeys
  have md: "metadata demoOwner = Some demoMetadata" by (simp add: demoLike_facts)
  obtain specs where specs: "convertBatchGetKeys plainEnv (\<lambda>_. []) demoOwner demoMetadata demoKeys = Inr specs" "length specs = 3"
    by (simp add: convertBatchGetKeys_def demo_getKey numeral_3_eq_3)
  have "\<exists>found. fst ?run = Inr found"
  proof -
    let ?opts = "normalizeBatchGetOptions (None :: unit BatchGetOptions option)"
    have opts: "bgRetryPolicy ?opts = Some DefaultRetryPolicy" "bgProgressCallback ?opts = None"
      "\<not> bgParallel ?opts" "bgChunkSize ?opts = 100"
      by (simp_all add: normalizeBatchGetOptions_def DefaultBatchGetOptions_def Let_def)
    have w: "windows 100 specs = [specs]" using specs(2) by (cases specs) (auto simp: windows.simps)
    let ?c = "hd (buildBatchGetChunks demoMetadata specs 100 (bgConsistentRead ?opts \<or> consistentRead demoOwner) [] [])"
    have "length (cbKeys (chRequest ?c)) \<le> 4" using specs(2) by (simp add: buildBatchGetChunks_def w)
    from oneAtATime_succeeds[OF this refl opts(1), of "()"] obtain items where
      "ExecuteBatchGet oneAtATime (\<lambda>_ w. w) (\<lambda>_. None) (chRequest ?c) (Some ?opts) () = ((items, None), ())" by blast
    moreover have "projection demoOwner = []" "checkBuilderError demoOwner = Inr ()"
      by (simp_all add: demoOwner_eq New_def checkBuilderError_def)
    ultimately show ?thesis using specs(1) opts
      by (simp add: BatchGetWithOptions_def md destSlice_def kindOf_def elemOf_def buildBatchGetPlan_def bindE_def buildBatchGetProjection_def Let_def
          executeBatchGetChunks_def buildBatchGetChunks_def w processChunk_def split: prod.splits)
  qed
  then obtain found w' where run: "?run = (Inr found, w')" by (metis prod.collapse)
  have "found = List.map_filter demoTable (map pageItem [''c'', ''b'', ''a''])"
    by (rule BatchGet_in_key_order[OF oneAtATime_law _ _ run md keys])
      (auto simp: keyedBy_def demoTable_def pageItem_def keyMatchesItem_def)
  then show ?thesis using run by (simp add: BatchGet_def demoTable_def pageItem_def map_filter_def)
qed

end
