(* ===== verification/PkgConverter.thy ===== *)
theory PkgConverter
  imports Naming Converter CoreMeta QueryModel
begin

text \<open>
  \<open>pkg/types/converter.go\<close>: the converter that sessions, transactions and the marshallers share.  It is a second implementation beside
  the one of theory \<open>Converter\<close>, with a table of custom converters per type, and it differs in the names and the values it
  writes for structs.  As there, writing into a target is a function from the old value to the new one, and on an error only the error is
  kept.  A custom converter is a parameter; \<open>formatF\<close> is \<open>strconv.FormatFloat\<close> with format \<open>f\<close> on the shortest text of a
  float, the parsers are those of \<open>convenv\<close>.
\<close>

section \<open>The table of custom converters\<close>

record CustomConverter =
  customTo :: "goany \<Rightarrow> (string, attrval) result"
  customFrom :: "attrval \<Rightarrow> gval \<Rightarrow> (string, gval) result"

record pkgConverter =
  customConverters :: "(gtype \<times> CustomConverter) list"
  formatF :: "string \<Rightarrow> string"
  parsers :: convenv

definition NewConverter :: "(string \<Rightarrow> string) \<Rightarrow> convenv \<Rightarrow> pkgConverter" where
  "NewConverter fmt env = \<lparr> customConverters = [], formatF = fmt, parsers = env \<rparr>"

definition RegisterConverter :: "gtype option \<Rightarrow> CustomConverter option \<Rightarrow> pkgConverter \<Rightarrow> pkgConverter" where
  "RegisterConverter typ custom c =
     (case (typ, custom) of
        (Some t, Some cc) \<Rightarrow> c \<lparr> customConverters := AList.update t cc (customConverters c) \<rparr>
      | _ \<Rightarrow> c)"

function lookupConverter :: "pkgConverter \<Rightarrow> gtype \<Rightarrow> CustomConverter option" where
  "lookupConverter c typ =
     (case map_of (customConverters c) typ of
        Some cc \<Rightarrow> Some cc
      | None \<Rightarrow> (case ptrElem typ of Some e \<Rightarrow> lookupConverter c e | None \<Rightarrow> None))"
  by pat_completeness auto
termination
  by (relation "measure (\<lambda>(c, t). size t)") (auto simp: ptrElem_size)

declare lookupConverter.simps [simp del]

definition pkgHasCustomConverter :: "pkgConverter \<Rightarrow> gtype \<Rightarrow> bool" where
  "pkgHasCustomConverter c typ = (lookupConverter c typ \<noteq> None)"

section \<open>Go value to attribute value\<close>

text \<open>The loop of \<open>structToMap\<close>: unexported and zero fields are left out, the others stored under the name of the Go field.\<close>

fun structToMapWith :: "(gtype \<Rightarrow> gval \<Rightarrow> (cerror, attrval) result) \<Rightarrow> gtype sfield list \<Rightarrow> gval list \<Rightarrow> item \<Rightarrow> (cerror, item) result" where
  "structToMapWith conv (f # fs) (v # vs) m =
     (if \<not> sfExported f then structToMapWith conv fs vs m
      else if goIsZero v then structToMapWith conv fs vs m
      else case conv (sfType f) v of
        Inl e \<Rightarrow> Inl (cerror.FieldError (sfName f) e)
      | Inr av \<Rightarrow> structToMapWith conv fs vs (AList.update (sfName f) av m))"
| "structToMapWith conv _ _ m = Inr m"

definition keyText :: "gval \<Rightarrow> string" where
  "keyText k = (case k of VString s \<Rightarrow> s | _ \<Rightarrow> [])"

fun mapEntriesTo :: "(gval \<Rightarrow> (cerror, attrval) result) \<Rightarrow> (gval \<times> gval) list \<Rightarrow> item \<Rightarrow> (cerror, item) result" where
  "mapEntriesTo conv [] m = Inr m"
| "mapEntriesTo conv ((k, v) # es) m =
     (case conv v of Inl e \<Rightarrow> Inl (KeyError (keyText k) e) | Inr av \<Rightarrow> mapEntriesTo conv es (AList.update (keyText k) av m))"

lemma structToMapWith_cong [fundef_cong]:
  "fs = fs' \<Longrightarrow> vs = vs' \<Longrightarrow> m = m' \<Longrightarrow> (\<And>t v. v \<in> set vs' \<Longrightarrow> conv t v = conv' t v)
   \<Longrightarrow> structToMapWith conv fs vs m = structToMapWith conv' fs' vs' m'"
  by (induction conv fs vs m arbitrary: fs' vs' m' rule: structToMapWith.induct) (auto split: sum.splits)

lemma mapEntriesTo_cong [fundef_cong]:
  assumes "es = es'" "m = m'" "\<And>e. e \<in> set es' \<Longrightarrow> conv (snd e) = conv' (snd e)"
  shows "mapEntriesTo conv es m = mapEntriesTo conv' es' m'"
proof -
  have "\<forall>e \<in> set es'. conv (snd e) = conv' (snd e) \<Longrightarrow> mapEntriesTo conv es' m' = mapEntriesTo conv' es' m'"
    by (induction conv es' m' rule: mapEntriesTo.induct) (auto split: sum.splits)
  then show ?thesis using assms by blast
qed

text \<open>One pointer is followed.\<close>

fun derefOnce :: "gtype \<Rightarrow> gval \<Rightarrow> gtype \<times> gval" where
  "derefOnce t (VPtr (Some w)) = (elemOf t, w)"
| "derefOnce t v = (t, v)"

lemma derefOnce_size [termination_simp]: "derefOnce t v = (t', v') \<Longrightarrow> size v' \<le> size v"
  by (induction t v rule: derefOnce.induct) auto

lemma size_entry_less: "(k, v) \<in> set es \<Longrightarrow> size v < Suc (size_list (size_prod size size) es)"
  by (induction es) auto

function toAttributeValue :: "pkgConverter \<Rightarrow> gtype \<Rightarrow> gval \<Rightarrow> (cerror, attrval) result" where
  "toAttributeValue c t0 v0 =
     (if v0 = VPtr None then Inr (AVNULL True)
      else case derefOnce t0 v0 of (t, v) \<Rightarrow>
        (case lookupConverter c t of
           Some cc \<Rightarrow> mapErr CustomError (customTo cc (toInterface t v))
         | None \<Rightarrow>
             (case v of
                VTime s \<Rightarrow> Inr (if t = TTime then AVS s else AVM [])
              | VString s \<Rightarrow> Inr (AVS s)
              | VInt i \<Rightarrow> Inr (AVN (showInt i))
              | VUint n \<Rightarrow> Inr (AVN (showNat n))
              | VFloat f \<Rightarrow> Inr (AVN (formatF c f))
              | VBool b \<Rightarrow> Inr (AVBOOL b)
              | VBytes b \<Rightarrow> Inr (AVB b)
              | VSlice xs \<Rightarrow> bindE (mapEIdx 0 (\<lambda>x. toAttributeValue c (elemOf t) x) xs) (\<lambda>l. Inr (AVL l))
              | VMap es \<Rightarrow>
                  (if kindOf (keyTypeOf t) \<noteq> KString then Inl UnsupportedMapType
                   else bindE (mapEntriesTo (\<lambda>x. toAttributeValue c (elemOf t) x) es []) (\<lambda>m. Inr (AVM m)))
              | VStruct vs \<Rightarrow> bindE (structToMapWith (\<lambda>u x. toAttributeValue c u x) (structFields t) vs []) (\<lambda>m. Inr (AVM m))
              | _ \<Rightarrow> Inl UnsupportedType)))"
  by pat_completeness auto
termination
  by (relation "measure (\<lambda>(c, t, v). size v)")
     (auto dest!: derefOnce_size[OF sym] size_list_mem_less[where f = "size :: gval \<Rightarrow> nat"] size_entry_less)

declare toAttributeValue.simps [simp del]


text \<open>\<open>Converter.ToAttributeValue\<close>.\<close>

definition pkgToAttributeValue :: "pkgConverter \<Rightarrow> goany \<Rightarrow> (cerror, attrval) result" where
  "pkgToAttributeValue c val = (case val of None \<Rightarrow> Inr (AVNULL True) | Some (t, v) \<Rightarrow> toAttributeValue c t v)"

section \<open>Attribute value to Go value\<close>

definition isNullMember :: "attrval \<Rightarrow> bool" where
  "isNullMember av = (case av of AVNULL _ \<Rightarrow> True | _ \<Rightarrow> False)"

definition fromTime :: "pkgConverter \<Rightarrow> attrval \<Rightarrow> (cerror, gval) result" where
  "fromTime c av =
     (case av of
        AVS s \<Rightarrow> (case parseTime (parsers c) s of Some w \<Rightarrow> Inr (VTime w) | None \<Rightarrow> Inl TimeParseError)
      | _ \<Rightarrow> Inl (CannotUnmarshal ''time''))"

definition stringToValue :: "string \<Rightarrow> gtype \<Rightarrow> (cerror, gval) result" where
  "stringToValue s t = (if kindOf t = KString then Inr (VString s) else Inl (CannotUnmarshal ''string''))"

definition numberToValue :: "pkgConverter \<Rightarrow> string \<Rightarrow> gtype \<Rightarrow> (cerror, gval) result" where
  "numberToValue c n t =
     (case underlying t of
        TInt s \<Rightarrow> (case ParseInt64 n of None \<Rightarrow> Inl ParseError | Some i \<Rightarrow> Inr (VInt (wrapInt (intBits s) i)))
      | TUint s \<Rightarrow> (case ParseUint64 n of None \<Rightarrow> Inl ParseError | Some u \<Rightarrow> Inr (VUint (wrapUint (uintBits s) u)))
      | TFloat32 \<Rightarrow> (case parseFloat (parsers c) n of None \<Rightarrow> Inl ParseError | Some f \<Rightarrow> Inr (VFloat (roundFloat32 (parsers c) f)))
      | TFloat64 \<Rightarrow> (case parseFloat (parsers c) n of None \<Rightarrow> Inl ParseError | Some f \<Rightarrow> Inr (VFloat f))
      | _ \<Rightarrow> Inl (CannotUnmarshal ''number''))"

definition stringSetToSlice :: "string list \<Rightarrow> gtype \<Rightarrow> (cerror, gval) result" where
  "stringSetToSlice ss t =
     (if kindOf t \<noteq> KSlice \<or> kindOf (elemOf t) \<noteq> KString then Inl (CannotUnmarshal ''string set'') else Inr (VSlice (map VString ss)))"

definition numberSetToSlice :: "pkgConverter \<Rightarrow> string list \<Rightarrow> gtype \<Rightarrow> (cerror, gval) result" where
  "numberSetToSlice c ns t =
     (if kindOf t \<noteq> KSlice then Inl (CannotUnmarshal ''number set'')
      else bindE (mapEIdx 0 (\<lambda>n. numberToValue c n (elemOf t)) ns) (\<lambda>vs. Inr (makeSlice (elemOf t) vs)))"

text \<open>\<open>SetBytes\<close> panics when the elements of the inner slice are not bytes.\<close>

definition binarySetToSlice :: "string list \<Rightarrow> gtype \<Rightarrow> (cerror, gval) result" where
  "binarySetToSlice bs t =
     (if kindOf t \<noteq> KSlice \<or> kindOf (elemOf t) \<noteq> KSlice then Inl (CannotUnmarshal ''binary set'')
      else if bs \<noteq> [] \<and> kindOf (elemOf (elemOf t)) \<noteq> KUint8 then Inl Panic
      else Inr (VSlice (map VBytes bs)))"

text \<open>\<open>splitTag\<close>: commas separate, spaces and tabs vanish, empty parts are dropped.\<close>

definition splitTag :: "string \<Rightarrow> string list" where
  "splitTag tag = filter (\<lambda>p. p \<noteq> []) (map (filter (\<lambda>ch. ch \<noteq> CHR '' '' \<and> ch \<noteq> char_of (9::nat))) (SplitByte (CHR '','') tag))"

definition namingPart :: "string \<Rightarrow> Convention option" where
  "namingPart part =
     (if length part > 7 \<and> take 7 part = ''naming:'' then
        (if drop 7 part = ''snake_case'' then Some SnakeCase
         else if drop 7 part \<in> set [''camel_case'', ''camelCase''] then Some CamelCase else None)
      else None)"

definition pkgDetectNamingConvention :: "gtype \<Rightarrow> Convention" where
  "pkgDetectNamingConvention t =
     (case List.map_filter namingPart (concat (map (\<lambda>f. splitTag (sfTag f)) (structFields t))) of [] \<Rightarrow> CamelCase | conv # _ \<Rightarrow> conv)"

text \<open>The loop of \<open>mapToStruct\<close>.\<close>

fun mapToStructWith :: "Convention \<Rightarrow> (attrval \<Rightarrow> gtype \<Rightarrow> gval \<Rightarrow> (cerror, gval) result) \<Rightarrow> item \<Rightarrow> gtype sfield list \<Rightarrow> gval list
   \<Rightarrow> (cerror, gval list) result" where
  "mapToStructWith conv um m (f # fs) (old # olds) =
     (let this =
            (if \<not> sfExported f then Inr old
             else case ResolveAttrNameWithConvention f conv of (attrName, skip) \<Rightarrow>
               (if skip then Inr old
                else case ValidateAttrName attrName conv of
                  Inl e \<Rightarrow> Inl (cerror.FieldError (sfName f) (CustomError ''invalid attribute name''))
                | Inr _ \<Rightarrow>
                    (case map_of m attrName of
                       None \<Rightarrow> Inr old
                     | Some av \<Rightarrow> mapErr (cerror.FieldError (sfName f)) (um av (sfType f) old))))
      in bindE this (\<lambda>v. bindE (mapToStructWith conv um m fs olds) (\<lambda>vs. Inr (v # vs))))"
| "mapToStructWith conv um m _ olds = Inr olds"

lemma mapToStructWith_cong [fundef_cong]:
  assumes "conv = conv'" "m = m'" "fs = fs'" "olds = olds'" "\<And>k av t old. map_of m' k = Some av \<Longrightarrow> um av t old = um' av t old"
  shows "mapToStructWith conv um m fs olds = mapToStructWith conv' um' m' fs' olds'"
proof -
  have "\<forall>k av. map_of m' k = Some av \<longrightarrow> (\<forall>t old. um av t old = um' av t old)
    \<Longrightarrow> mapToStructWith conv' um m' fs olds = mapToStructWith conv' um' m' fs olds"
    by (induction conv' um m' fs olds rule: mapToStructWith.induct) (simp_all split: option.splits sum.splits prod.splits)
  then show ?thesis using assms by blast
qed

text \<open>A nil pointer is allocated, one pointer is followed; \<open>rewrap\<close> puts the result back behind the pointer.\<close>

definition concreteType :: "gtype \<Rightarrow> gtype" where
  "concreteType t = (case ptrElem t of Some e \<Rightarrow> e | None \<Rightarrow> t)"

definition concreteOld :: "gtype \<Rightarrow> gval \<Rightarrow> gval" where
  "concreteOld t old = (case ptrElem t of None \<Rightarrow> old | Some e \<Rightarrow> (case old of VPtr (Some w) \<Rightarrow> w | _ \<Rightarrow> zeroOf e))"

definition rewrap :: "gtype \<Rightarrow> gval \<Rightarrow> gval" where
  "rewrap t v = (if ptrElem t = None then v else VPtr (Some v))"

function fromAttributeValue :: "pkgConverter \<Rightarrow> attrval \<Rightarrow> gtype \<Rightarrow> gval \<Rightarrow> (cerror, gval) result" where
  "fromAttributeValue c av t0 old0 =
     (if isNullMember av then Inr old0
      else let t = concreteType t0; old = concreteOld t0 old0 in
        bindE
          (case lookupConverter c t of
             Some cc \<Rightarrow> mapErr CustomError (customFrom cc av old)
           | None \<Rightarrow>
               (if t = TTime then fromTime c av
                else case av of
                  AVS s \<Rightarrow> stringToValue s t
                | AVN n \<Rightarrow> numberToValue c n t
                | AVBOOL b \<Rightarrow> (if kindOf t = KBool then Inr (VBool b) else Inl (CannotUnmarshal ''bool''))
                | AVB b \<Rightarrow> (if kindOf t = KSlice \<and> kindOf (elemOf t) = KUint8 then Inr (VBytes b) else Inl (CannotUnmarshal ''binary''))
                | AVL l \<Rightarrow>
                    (if kindOf t \<noteq> KSlice then Inl (CannotUnmarshal ''list'')
                     else bindE (mapEIdx 0 (\<lambda>x. fromAttributeValue c x (elemOf t) (zeroOf (elemOf t))) l) (\<lambda>vs. Inr (makeSlice (elemOf t) vs)))
                | AVM m \<Rightarrow>
                    (case kindOf t of
                       KMap \<Rightarrow>
                         (if kindOf (keyTypeOf t) \<noteq> KString then Inl MapKeysNotString
                          else bindE (unmarshalEntriesWith (\<lambda>x. fromAttributeValue c x (elemOf t) (zeroOf (elemOf t))) (keyTypeOf t) m [])
                                 (\<lambda>es. Inr (VMap es)))
                     | KStruct \<Rightarrow>
                         (case old of
                            VStruct vs \<Rightarrow>
                              bindE (mapToStructWith (pkgDetectNamingConvention t) (\<lambda>a u prev. fromAttributeValue c a u prev) m (structFields t) vs)
                                (\<lambda>ws. Inr (VStruct ws))
                          | _ \<Rightarrow> Inr old)
                     | _ \<Rightarrow> Inl (CannotUnmarshal ''map''))
                | AVSS ss \<Rightarrow> stringSetToSlice ss t
                | AVNS ns \<Rightarrow> numberSetToSlice c ns t
                | AVBS bs \<Rightarrow> binarySetToSlice bs t
                | AVNULL _ \<Rightarrow> Inr old))
          (\<lambda>v. Inr (rewrap t0 v)))"
  by pat_completeness auto
termination
  by (relation "measure (\<lambda>(c, av, t, old). size av)") (auto simp: size_list_mem_less size_item_less dest: map_of_size)

declare fromAttributeValue.simps [simp del]

definition FromAttributeValue :: "pkgConverter \<Rightarrow> attrval \<Rightarrow> goany \<Rightarrow> (cerror, gval) result" where
  "FromAttributeValue c av target =
     (case target of
        Some (t, VPtr (Some old)) \<Rightarrow> (if kindOf t \<noteq> KPointer then Inl BadTarget else fromAttributeValue c av (elemOf t) old)
      | _ \<Rightarrow> Inl BadTarget)"

section \<open>Sets\<close>

text \<open>The elements of a slice value; those of a byte slice are its bytes.\<close>

definition sliceElements :: "gval \<Rightarrow> gval list" where
  "sliceElements v = (case v of VSlice xs \<Rightarrow> xs | VBytes b \<Rightarrow> map (\<lambda>ch. VUint (of_char ch)) b | _ \<Rightarrow> [])"

definition numberText :: "attrval \<Rightarrow> (cerror, string) result" where
  "numberText av = (case av of AVN n \<Rightarrow> Inr n | _ \<Rightarrow> Inl (CustomError ''expected number type for set''))"

definition pkgConvertToSet :: "pkgConverter \<Rightarrow> goany \<Rightarrow> bool \<Rightarrow> (cerror, attrval) result" where
  "pkgConvertToSet c slice isSet =
     (if \<not> isSet then pkgToAttributeValue c slice
      else case slice of
        None \<Rightarrow> Inl (CustomError ''set tag requires slice type'')
      | Some (t, v) \<Rightarrow>
          (if kindOf t \<noteq> KSlice then Inl (CustomError ''set tag requires slice type'')
           else if sliceElements v = [] then Inr (AVNULL True)
           else let kind = kindOf (elemOf t) in
             if kind = KString then Inr (AVSS (map keyText (sliceElements v)))
             else if kind \<in> {KInt, KUint, KUint8, KFloat} then
               bindE (mapE (\<lambda>x. bindE (toAttributeValue c (elemOf t) x) numberText) (sliceElements v)) (\<lambda>ns. Inr (AVNS ns))
             else if kind = KSlice \<and> kindOf (elemOf (elemOf t)) = KUint8 then
               Inr (AVBS (map (\<lambda>x. case x of VBytes b \<Rightarrow> b | _ \<Rightarrow> []) (sliceElements v)))
             else Inl UnsupportedType))"

text \<open>The converter as the query layer and the transactions use it; their errors are texts.\<close>

definition asAttributeValueConverter :: "(cerror \<Rightarrow> string) \<Rightarrow> pkgConverter \<Rightarrow> AttributeValueConverter" where
  "asAttributeValueConverter errText c =
     \<lparr> HasCustomConverter = pkgHasCustomConverter c, ToAttributeValue = (\<lambda>v. mapErr errText (pkgToAttributeValue c v)),
       ConvertToSet = (\<lambda>v isSet. mapErr errText (pkgConvertToSet c v isSet)) \<rparr>"

section \<open>Round trip\<close>

text \<open>The types whose values survive: those of theory \<open>Converter\<close> without structs.\<close>

fun pkgRtType :: "gtype \<Rightarrow> bool" where
  "pkgRtType (TNamed n t) = (pkgRtType t \<and> underlying t \<noteq> TTime)"
| "pkgRtType (TStruct n fs) = False"
| "pkgRtType (TSlice e) = (kindOf e = KUint8 \<or> pkgRtType e)"
| "pkgRtType (TMap k e) = (k = TString \<and> pkgRtType e)"
| "pkgRtType (TPtr e) = (kindOf e \<noteq> KPointer \<and> pkgRtType e)"
| "pkgRtType t = (t \<in> {TString, TFloat64, TBool, TTime} \<or> (\<exists>s. t = TInt s) \<or> (\<exists>s. t = TUint s))"

text \<open>How a float text is read back after it was formatted.\<close>

definition readBack :: "pkgConverter \<Rightarrow> convenv" where
  "readBack c = (parsers c) \<lparr> parseFloat := \<lambda>f. parseFloat (parsers c) (formatF c f) \<rparr>"

definition returns :: "pkgConverter \<Rightarrow> gtype \<Rightarrow> gval \<Rightarrow> bool" where
  "returns c t v = (\<exists>av. toAttributeValue c t v = Inr av \<and> fromAttributeValue c av t (zeroOf t) = Inr v
     \<and> (kindOf t \<noteq> KPointer \<longrightarrow> \<not> isNullMember av))"

lemma returns_iff:
  "returns c t v = (case toAttributeValue c t v of Inl _ \<Rightarrow> False
     | Inr av \<Rightarrow> fromAttributeValue c av t (zeroOf t) = Inr v \<and> (kindOf t \<noteq> KPointer \<longrightarrow> \<not> isNullMember av))"
  by (auto simp: returns_def split: sum.split)

lemma no_custom [simp]: "customConverters c = [] \<Longrightarrow> lookupConverter c t = None"
  by (induction c t rule: lookupConverter.induct) (simp add: lookupConverter.simps split: option.splits)

lemma mapEntriesTo_ok: "convertEntriesWith conv es m = Inr r \<Longrightarrow> mapEntriesTo conv es m = Inr r"
  by (induction conv es m rule: mapEntriesTo.induct) (auto simp: keyText_def split: sum.splits)

lemma concrete_simps [simp]:
  "ptrElem t = None \<Longrightarrow> concreteType t = t" "ptrElem t = None \<Longrightarrow> concreteOld t old = old" "ptrElem t = None \<Longrightarrow> rewrap t v = v"
  "ptrElem t = Some e \<Longrightarrow> concreteType t = e" "ptrElem t = Some e \<Longrightarrow> rewrap t v = VPtr (Some v)"
  by (simp_all add: concreteType_def concreteOld_def rewrap_def)

lemma ptrElem_kind: "ptrElem t = None \<longleftrightarrow> kindOf t \<noteq> KPointer"
  by (induction t) (auto simp: ptrElem_def kindOf_def)

text \<open>A defined type converts as the type it is defined over.\<close>


lemma to_named:
  assumes "customConverters c = []" "underlying t \<noteq> TTime"
  shows "toAttributeValue c (TNamed n t) v = toAttributeValue c t v"
proof (cases "\<exists>w. v = VPtr w")
  case True
  then obtain w where "v = VPtr w" by blast
  then show ?thesis
    unfolding toAttributeValue.simps[of c "TNamed n t" v] toAttributeValue.simps[of c t v] by (cases w) simp_all
next
  case False
  then have "derefOnce u v = (u, v)" for u by (cases v) auto
  moreover have "t \<noteq> TTime" using assms(2) by auto
  ultimately show ?thesis
    unfolding toAttributeValue.simps[of c "TNamed n t" v] toAttributeValue.simps[of c t v] using assms(1) by (cases v) simp_all
qed

lemma leaves_named [simp]:
  "stringToValue s (TNamed n t) = stringToValue s t" "numberToValue c m (TNamed n t) = numberToValue c m t"
  "stringSetToSlice ss (TNamed n t) = stringSetToSlice ss t" "numberSetToSlice c ns (TNamed n t) = numberSetToSlice c ns t"
  "binarySetToSlice bs (TNamed n t) = binarySetToSlice bs t" "pkgDetectNamingConvention (TNamed n t) = pkgDetectNamingConvention t"
  unfolding stringToValue_def numberToValue_def stringSetToSlice_def numberSetToSlice_def binarySetToSlice_def
    pkgDetectNamingConvention_def named_simps underlying.simps
  by (rule refl)+

lemma from_named:
  assumes "customConverters c = []" "underlying t \<noteq> TTime"
  shows "fromAttributeValue c av (TNamed n t) old = fromAttributeValue c av t old"
proof (cases "ptrElem t")
  case None
  moreover have "t \<noteq> TTime" using assms(2) by auto
  ultimately show ?thesis
    unfolding fromAttributeValue.simps[of c av "TNamed n t" old] fromAttributeValue.simps[of c av t old]
    using assms(1) by (cases av) (simp_all add: Let_def split: gkind.splits gval.splits)
next
  case (Some e)
  then show ?thesis
    unfolding fromAttributeValue.simps[of c av "TNamed n t" old] fromAttributeValue.simps[of c av t old]
    by (simp add: concreteOld_def)
qed

lemmas pkg_defs = toAttributeValue.simps fromAttributeValue.simps isNullMember_def ptrElem_def

lemma returns_int: "customConverters c = [] \<Longrightarrow> wt (TInt s) v \<Longrightarrow> returns c (TInt s) v"
proof -
  assume c: "customConverters c = []" and "wt (TInt s) v"
  then obtain i where v: "v = VInt i" and r: "- (2 ^ (intBits s - 1)) \<le> i" "i < 2 ^ (intBits s - 1)" by (auto split: gval.splits)
  have le: "(2::int) ^ (intBits s - 1) \<le> 2 ^ 63" using intBits_cases[of s] by (intro power_increasing) auto
  then have "ParseInt64 (showInt i) = Some i" using r by (intro ParseInt64_showInt) linarith+
  moreover have "wrapInt (intBits s) i = i" using r intBits_cases[of s] by (intro wrapInt_id) auto
  ultimately show ?thesis using c v by (simp add: returns_def pkg_defs numberToValue_def)
qed

lemma returns_uint: "customConverters c = [] \<Longrightarrow> wt (TUint s) v \<Longrightarrow> returns c (TUint s) v"
proof -
  assume c: "customConverters c = []" and "wt (TUint s) v"
  then obtain n where v: "v = VUint n" and r: "n < 2 ^ uintBits s" by (auto split: gval.splits)
  have "(2::nat) ^ uintBits s \<le> 2 ^ 64" using uintBits_le[of s] by (intro power_increasing) auto
  then have "ParseUint64 (showNat n) = Some n" using r by (intro ParseUint64_showNat) linarith
  then show ?thesis using c v r by (simp add: returns_def pkg_defs numberToValue_def wrapUint_def)
qed

lemma mapEIdx_total: "\<forall>x \<in> set xs. f x = Inr (g x) \<Longrightarrow> mapEIdx i f xs = Inr (map g xs)"
  by (induction i f xs rule: mapEIdx.induct) auto

lemma returns_slice:
  assumes "customConverters c = []" "kindOf e \<noteq> KUint8" "\<forall>v \<in> set vs. returns c e v"
  shows "returns c (TSlice e) (VSlice vs)"
proof -
  let ?c = "\<lambda>v. projr (toAttributeValue c e v)"
  have to: "toAttributeValue c e v = Inr (?c v)" and fr: "fromAttributeValue c (?c v) e (zeroOf e) = Inr v" if "v \<in> set vs" for v
    using assms(3) that by (auto simp: returns_def)
  have "mapEIdx i (\<lambda>x. toAttributeValue c e x) vs = Inr (map ?c vs)" for i using to by (intro mapEIdx_total) blast
  moreover have "mapEIdx i (\<lambda>x. fromAttributeValue c x e (zeroOf e)) (map ?c vs) = Inr vs" for i
    using mapEIdx_total[of "map ?c vs" _ "\<lambda>x. projr (fromAttributeValue c x e (zeroOf e))" i] fr by (simp add: comp_def map_idI)
  ultimately show ?thesis
    using assms(1,2)
    by (simp add: returns_def toAttributeValue.simps[of c "TSlice e"] fromAttributeValue.simps[of c _ "TSlice e"] ptrElem_def
        kindOf_def[of "TSlice e"] elemOf_def makeSlice_def isNullMember_def)
qed


lemma returns_map:
  assumes "customConverters c = []" "wt (TMap TString e) (VMap es)" "\<forall>p \<in> set es. returns c e (snd p)"
  shows "returns c (TMap TString e) (VMap es)"
proof -
  let ?to = "\<lambda>x. toAttributeValue c e x" and ?from = "\<lambda>x. fromAttributeValue c x e (zeroOf e)"
  let ?c = "\<lambda>v. projr (?to v)" and ?im = "map (\<lambda>p. (keyText (fst p), projr (?to (snd p)))) es"
  have c: "?to (snd p) = Inr (?c (snd p))" "?from (?c (snd p)) = Inr (snd p)" if "p \<in> set es" for p
    using assms(3) that by (auto simp: returns_def)
  have key: "fst p = VString (keyText (fst p))" if "p \<in> set es" for p
    using assms(2) that by (auto simp: list_all_iff wt_TString keyText_def simp del: wt.simps(2))
  have dist: "distinct (map fst es)" using assms(2) by simp
  have conv: "mapEntriesTo ?to es [] = Inr ?im"
  proof (rule mapEntriesTo_ok)
    have kt: "keyText = (\<lambda>k. case k of VString s \<Rightarrow> s | _ \<Rightarrow> [])" by (simp add: keyText_def fun_eq_iff)
    have "\<forall>p \<in> set es. (\<exists>s. fst p = VString s) \<and> ?to (snd p) = Inr (?c (snd p))" using c(1) key by blast
    then show "convertEntriesWith ?to es [] = Inr ?im"
      using convertEntries_all[OF _ dist _ kt, of ?to ?c "[]"] by simp
  qed
  have "inj_on keyText (fst ` set es)" by (rule inj_on_inverseI[where g = VString], erule imageE) (simp add: key[symmetric])
  then have "distinct (map keyText (map fst es))" using dist unfolding distinct_map[of keyText] set_map by blast
  then have d: "distinct (map fst ?im)" by (simp add: comp_def)
  have um: "unmarshalEntriesWith ?from TString ?im [] = Inr (map (\<lambda>q. (VString (fst q), projr (?from (snd q)))) ?im)"
    using unmarshalEntries_all[of ?im ?from "\<lambda>x. projr (?from x)" "[]"] d by (simp add: c(2))
  have undo: "map (\<lambda>q. (VString (fst q), projr (?from (snd q)))) ?im = es"
    unfolding map_map comp_def
  proof (intro map_idI)
    fix p assume p: "p \<in> set es"
    show "(VString (fst (keyText (fst p), ?c (snd p))), projr (?from (snd (keyText (fst p), ?c (snd p))))) = p"
      by (simp add: c(2)[OF p] key[OF p, symmetric])
  qed
  show ?thesis
    using assms(1) conv um undo
    by (simp add: returns_def toAttributeValue.simps[of c "TMap TString e"] fromAttributeValue.simps[of c _ "TMap TString e"] ptrElem_def
        kindOf_def elemOf_def keyTypeOf_def isNullMember_def)
qed

lemma bindE_right [simp]: "bindE x Inr = x"
  by (cases x) simp_all

lemma from_ptr:
  assumes "\<not> isNullMember av" "ptrElem e = None"
  shows "fromAttributeValue c av (TPtr e) (VPtr None) = bindE (fromAttributeValue c av e (zeroOf e)) (\<lambda>v. Inr (VPtr (Some v)))"
  unfolding fromAttributeValue.simps[of c av "TPtr e"] fromAttributeValue.simps[of c av e]
  using assms by (simp add: Let_def ptrElem_def[of "TPtr e"] concreteType_def[of "TPtr e"] concreteOld_def[of "TPtr e"] rewrap_def[of "TPtr e"])

lemma returns_ptr:
  assumes "customConverters c = []" "kindOf e \<noteq> KPointer" "wt e w" "returns c e w"
  shows "returns c (TPtr e) (VPtr (Some w))"
proof -
  obtain av where av: "toAttributeValue c e w = Inr av" "fromAttributeValue c av e (zeroOf e) = Inr w" "\<not> isNullMember av"
    using assms(2,4) by (auto simp: returns_def)
  have "w \<noteq> VPtr q" for q using assms(2,3) by (induction e w rule: wt.induct) (auto simp: kindOf_def split: gval.splits if_splits)
  then have d: "derefOnce e w = (e, w)" "w \<noteq> VPtr None" by (cases w; simp)+
  have pe: "ptrElem e = None" using assms(2) ptrElem_kind by blast
  have "toAttributeValue c (TPtr e) (VPtr (Some w)) = Inr av"
    using av(1) d unfolding toAttributeValue.simps[of c "TPtr e"] toAttributeValue.simps[of c e] by (simp add: elemOf_def)
  moreover have "fromAttributeValue c av (TPtr e) (VPtr None) = Inr (VPtr (Some w))"
    using av(2,3) pe by (simp add: from_ptr)
  ultimately show ?thesis by (simp add: returns_def kindOf_def)
qed

lemma roundtrip_returns:
  "customConverters c = [] \<Longrightarrow> wt t v \<Longrightarrow> pkgRtType t \<Longrightarrow> leavesOk (readBack c) v \<Longrightarrow> returns c t v"
proof (induction t v rule: wt.induct)
  case (1 n t v)
  then show ?case by (simp add: returns_def to_named from_named)
next
  case (11 e v)
  show ?case
  proof (cases "kindOf e = KUint8")
    case True
    then obtain b where "v = VBytes b" using 11 by (auto split: gval.splits)
    then show ?thesis using 11 True
      by (simp add: returns_def toAttributeValue.simps[of c "TSlice e"] fromAttributeValue.simps[of c _ "TSlice e"] ptrElem_def
          kindOf_def[of "TSlice e"] elemOf_def isNullMember_def Let_def)
  next
    case False
    then obtain vs where "v = VSlice vs" using 11 by (auto split: gval.splits)
    then show ?thesis using 11 False by (auto simp: list_all_iff intro!: returns_slice)
  qed
next
  case (13 k e v)
  then obtain es where v: "v = VMap es" by (auto split: gval.splits)
  then have "\<forall>p \<in> set es. returns c e (snd p)" using 13 by (auto simp: list_all_iff)
  then show ?case using 13 v returns_map[of c e es] by auto
next
  case (14 e v)
  then consider "v = VPtr None" | w where "v = VPtr (Some w)" by (auto split: gval.splits option.splits)
  then show ?case
  proof cases
    case 1
    then show ?thesis by (simp add: returns_def pkg_defs kindOf_def)
  next
    case 2
    then show ?thesis using 14 by (auto intro!: returns_ptr)
  qed
qed (auto simp: returns_int returns_uint, auto simp: returns_iff pkg_defs Let_def stringToValue_def numberToValue_def fromTime_def readBack_def kindOf_def
    split: gval.splits)

text \<open>C28. Round trip of the shared converter.  For the types built from strings, integers of every width, 64-bit floats, booleans
  and times by slices, maps with keys of type \<open>string\<close>, single pointers and definitions over these (but not over times), and a well-typed value of
  such a type, \<open>ToAttributeValue\<close> succeeds and
  \<open>FromAttributeValue\<close> into a fresh variable gives the value back, when no custom converter is registered and the float and time texts
  are read back as themselves (negative zero apart).  Structs, arrays, interfaces, 32-bit floats, pointers to pointers and maps with other key types are excluded.\<close>

theorem PkgConvert_roundtrip:
  assumes "customConverters c = []" "wt t v" "pkgRtType t" "leavesOk (readBack c) v"
  shows "\<exists>av. pkgToAttributeValue c (Some (t, v)) = Inr av \<and> FromAttributeValue c av (Some (TPtr t, VPtr (Some (zeroOf t)))) = Inr v"
  using roundtrip_returns[OF assms]
  by (auto simp: returns_def pkgToAttributeValue_def FromAttributeValue_def kindOf_def elemOf_def)

definition plainConverter :: pkgConverter where
  "plainConverter = NewConverter id plainEnv"

theorem PkgConvert_roundtrip_witness:
  "\<exists>av. pkgToAttributeValue plainConverter (Some (TMap TString (TSlice (TPtr (TInt Int8))), VMap [(VString ''k'', VSlice [VPtr None, VPtr (Some (VInt (-3)))])])) = Inr av
     \<and> FromAttributeValue plainConverter av (Some (TPtr (TMap TString (TSlice (TPtr (TInt Int8)))), VPtr (Some (VMap []))))
       = Inr (VMap [(VString ''k'', VSlice [VPtr None, VPtr (Some (VInt (-3)))])])"
  using PkgConvert_roundtrip[of plainConverter "TMap TString (TSlice (TPtr (TInt Int8)))" "VMap [(VString ''k'', VSlice [VPtr None, VPtr (Some (VInt (-3)))])]"]
  by (simp add: plainConverter_def NewConverter_def kindOf_def)

section \<open>Nested structs do not come back\<close>

text \<open>The names \<open>mapToStruct\<close> reads start with a lower-case letter, or are \<open>PK\<close> or \<open>SK\<close>.\<close>

lemma validated_name: "ValidateAttrName a conv = Inr () \<Longrightarrow> a = ''PK'' \<or> a = ''SK'' \<or> (\<exists>ch s. a = ch # s \<and> isLower ch)"
  by (cases a) (auto simp: ValidateAttrName_def camelCasePattern_def snakeCasePattern_def split: Convention.splits if_splits)

lemma structToMap_names: "structToMapWith conv fs vs m = Inr r \<Longrightarrow> fst ` set r \<subseteq> fst ` set m \<union> sfName ` set fs"
proof (induction conv fs vs m rule: structToMapWith.induct)
  case (1 conv f fs v vs m)
  show ?case
  proof (cases "\<not> sfExported f \<or> goIsZero v")
    case True
    then have "fst ` set r \<subseteq> fst ` set m \<union> sfName ` set fs" using 1 by (cases "sfExported f") simp_all
    then show ?thesis by auto
  next
    case False
    then obtain av where "conv (sfType f) v = Inr av" "structToMapWith conv fs vs (AList.update (sfName f) av m) = Inr r"
      using 1(4) by (auto split: sum.splits)
    then have "fst ` set r \<subseteq> insert (sfName f) (fst ` set m) \<union> sfName ` set fs" using 1(3) False by simp
    then show ?thesis by auto
  qed
qed auto

lemma mapToStruct_unread:
  assumes "\<forall>a. ValidateAttrName a conv = Inr () \<longrightarrow> map_of m a = None" "mapToStructWith conv um m fs olds = Inr vs"
  shows "vs = olds"
  using assms
proof (induction conv um m fs olds arbitrary: vs rule: mapToStructWith.induct)
  case (1 conv um m f fs old olds)
  then show ?case by (auto simp: Let_def bindE_eq_Inr split: if_splits prod.splits sum.splits option.splits)
qed auto

text \<open>A struct is written under the names of its Go fields, which start with an upper-case letter, and read under the attribute names, so
  reading back what was written leaves every field of the target as it was.\<close>

theorem nested_struct_lost:
  assumes "customConverters c = []" "list_all (\<lambda>f. (\<exists>ch s. sfName f = ch # s \<and> isUpper ch) \<and> sfName f \<noteq> ''PK'' \<and> sfName f \<noteq> ''SK'') fs"
    and "toAttributeValue c (TStruct n fs) (VStruct vs) = Inr av" "fromAttributeValue c av (TStruct n fs) (VStruct olds) = Inr v"
  shows "v = VStruct olds"
proof -
  obtain m where m: "structToMapWith (\<lambda>u x. toAttributeValue c u x) fs vs [] = Inr m" "av = AVM m"
    using assms(1,3) by (auto simp: toAttributeValue.simps[of c "TStruct n fs"] structFields_def bindE_eq_Inr)
  have "map_of m a = None" if a: "ValidateAttrName a conv = Inr ()" for a conv
  proof (rule ccontr)
    assume "map_of m a \<noteq> None"
    then have "a \<in> sfName ` set fs" using structToMap_names[OF m(1)] by (auto simp: map_of_eq_None_iff)
    then obtain ch s where "a = ch # s" "isUpper ch" "a \<noteq> ''PK''" "a \<noteq> ''SK''" using assms(2) by (auto simp: list_all_iff)
    then show False using validated_name[OF a] by (auto simp: isUpper_def isLower_def)
  qed
  then have unread: "\<forall>a. ValidateAttrName a conv = Inr () \<longrightarrow> map_of m a = None" for conv by blast
  obtain ws where "mapToStructWith (pkgDetectNamingConvention (TStruct n fs)) (\<lambda>a u prev. fromAttributeValue c a u prev) m fs olds = Inr ws"
      "v = VStruct ws"
    using assms(1,4) m(2)
    by (auto simp: fromAttributeValue.simps[of c _ "TStruct n fs"] ptrElem_def kindOf_def structFields_def isNullMember_def bindE_eq_Inr Let_def)
  then show ?thesis using mapToStruct_unread[OF unread] by blast
qed

end
