(* ===== verification/GoJSON.thy ===== *)
theory GoJSON
  imports GoStrings
begin

text \<open>
  Package \<open>encoding/json\<close> as the program uses it: printing of strings, booleans, arrays and objects, and parsing into
  \<open>any\<close>.  Strings are escaped as \<open>json.Marshal\<close> does (HTML-safe, U+2028 and U+2029 escaped, invalid
  UTF-8 replaced) and read as \<open>json.Unmarshal\<close> does (all escapes, surrogate pairs, invalid UTF-8
  replaced, nesting limit 10000).  Numbers keep their text: the program never reads one.  The main result is that
  parsing a printed value gives the value.
\<close>

datatype json =
    JNull
  | JBool bool
  | JNum string
  | JStr string
  | JList "json list"
  | JObj "(string \<times> json) list"

section \<open>UTF-8\<close>

definition inRange :: "char \<Rightarrow> nat \<Rightarrow> nat \<Rightarrow> bool" where
  "inRange c lo hi = (lo \<le> byteOf c \<and> byteOf c \<le> hi)"

abbreviation cont :: "char \<Rightarrow> bool" where
  "cont c \<equiv> inRange c 0x80 0xBF"

text \<open>The length of the rune a string starts with, \<open>None\<close> when its first bytes are not the encoding of one.\<close>

definition runeLen :: "string \<Rightarrow> nat option" where
  "runeLen s = (case s of
     [] \<Rightarrow> None
   | a # t \<Rightarrow>
      (if byteOf a < 0x80 then Some 1
       else if inRange a 0xC2 0xDF then
         (case t of b # _ \<Rightarrow> if cont b then Some 2 else None | _ \<Rightarrow> None)
       else if inRange a 0xE0 0xEF then
         (case t of b # c # _ \<Rightarrow>
            if cont b \<and> cont c \<and> (a = CHR 0xE0 \<longrightarrow> 0xA0 \<le> byteOf b) \<and> (a = CHR 0xED \<longrightarrow> byteOf b \<le> 0x9F)
            then Some 3 else None | _ \<Rightarrow> None)
       else if inRange a 0xF0 0xF4 then
         (case t of b # c # d # _ \<Rightarrow>
            if cont b \<and> cont c \<and> cont d \<and> (a = CHR 0xF0 \<longrightarrow> 0x90 \<le> byteOf b) \<and> (a = CHR 0xF4 \<longrightarrow> byteOf b \<le> 0x8F)
            then Some 4 else None | _ \<Rightarrow> None)
       else None))"

lemma runeLen_bounds: "runeLen s = Some n \<Longrightarrow> 1 \<le> n \<and> n \<le> length s"
  by (auto simp: runeLen_def split: list.splits if_splits)

lemma runeLen_append: "runeLen s = Some n \<Longrightarrow> runeLen (take n s @ t) = Some n"
  by (auto simp: runeLen_def split: list.splits if_splits)

function validUTF8 :: "string \<Rightarrow> bool" where
  "validUTF8 s = (s = [] \<or> (case runeLen s of None \<Rightarrow> False | Some n \<Rightarrow> validUTF8 (drop n s)))"
  by pat_completeness auto
termination by (relation "measure length") (auto dest: runeLen_bounds)

declare validUTF8.simps [simp del]

text \<open>\<open>utf8.EncodeRune\<close>; surrogates and values above U+10FFFF become U+FFFD.\<close>

definition encodeRune :: "nat \<Rightarrow> string" where
  "encodeRune r =
     (if r < 0x80 then [char_of r]
      else if r < 0x800 then [char_of (0xC0 + r div 64), char_of (0x80 + r mod 64)]
      else if 0xD800 \<le> r \<and> r < 0xE000 \<or> r > 0x10FFFF then [CHR 0xEF, CHR 0xBF, CHR 0xBD]
      else if r < 0x10000 then [char_of (0xE0 + r div 4096), char_of (0x80 + r div 64 mod 64), char_of (0x80 + r mod 64)]
      else [char_of (0xF0 + r div 262144), char_of (0x80 + r div 4096 mod 64), char_of (0x80 + r div 64 mod 64), char_of (0x80 + r mod 64)])"

section \<open>Strings\<close>

definition hexDigit :: "nat \<Rightarrow> char" where
  "hexDigit n = (if n < 10 then char_of (48 + n) else char_of (87 + n))"

definition hexVal :: "char \<Rightarrow> nat option" where
  "hexVal c = (if isDigit c then Some (byteOf c - 48)
     else if inRange c 97 102 then Some (byteOf c - 87)
     else if inRange c 65 70 then Some (byteOf c - 55) else None)"

abbreviation bslash :: char where "bslash \<equiv> CHR 0x5C"
abbreviation dquote :: char where "dquote \<equiv> CHR 0x22"

text \<open>The escaped form of one ASCII byte.\<close>

definition escapeByte :: "char \<Rightarrow> string" where
  "escapeByte c =
     (if c = dquote \<or> c = bslash then [bslash, c]
      else if c = CHR 0x08 then [bslash, CHR ''b'']
      else if c = CHR 0x0C then [bslash, CHR ''f'']
      else if c = CHR 0x0A then [bslash, CHR ''n'']
      else if c = CHR 0x0D then [bslash, CHR ''r'']
      else if c = CHR 0x09 then [bslash, CHR ''t'']
      else if byteOf c < 32 \<or> c = CHR ''<'' \<or> c = CHR ''>'' \<or> c = CHR ''&''
        then [bslash, CHR ''u'', CHR ''0'', CHR ''0'', hexDigit (byteOf c div 16), hexDigit (byteOf c mod 16)]
      else [c])"

function escapeString :: "string \<Rightarrow> string" where
  "escapeString s =
     (case s of [] \<Rightarrow> []
      | c # t \<Rightarrow>
         (case runeLen s of
            None \<Rightarrow> [bslash] @ ''ufffd'' @ escapeString t
          | Some n \<Rightarrow>
             (if n = 1 then escapeByte c
              else if take n s = [CHR 0xE2, CHR 0x80, CHR 0xA8] then [bslash] @ ''u2028''
              else if take n s = [CHR 0xE2, CHR 0x80, CHR 0xA9] then [bslash] @ ''u2029''
              else take n s) @ escapeString (drop n s)))"
  by pat_completeness auto
termination by (relation "measure length") (auto dest!: runeLen_bounds)

declare escapeString.simps [simp del]

definition getu4 :: "string \<Rightarrow> nat option" where
  "getu4 s = (case s of a # b # c # d # _ \<Rightarrow>
      (case (hexVal a, hexVal b, hexVal c, hexVal d) of
         (Some w, Some x, Some y, Some z) \<Rightarrow> Some (w * 4096 + x * 256 + y * 16 + z)
       | _ \<Rightarrow> None) | _ \<Rightarrow> None)"

text \<open>The escape after a backslash: the bytes it stands for and what follows it.\<close>

definition unescape :: "string \<Rightarrow> (string \<times> string) option" where
  "unescape s = (case s of [] \<Rightarrow> None
    | c # t \<Rightarrow>
       (if c \<in> {dquote, bslash, CHR ''/''} then Some ([c], t)
        else if c = CHR ''b'' then Some ([CHR 0x08], t)
        else if c = CHR ''f'' then Some ([CHR 0x0C], t)
        else if c = CHR ''n'' then Some ([CHR 0x0A], t)
        else if c = CHR ''r'' then Some ([CHR 0x0D], t)
        else if c = CHR ''t'' then Some ([CHR 0x09], t)
        else if c = CHR ''u'' then
          (case getu4 t of None \<Rightarrow> None
           | Some r \<Rightarrow>
              (if 0xD800 \<le> r \<and> r < 0xE000 then
                 (case (if prefix [bslash, CHR ''u''] (drop 4 t) then getu4 (drop 6 t) else None) of
                    Some r2 \<Rightarrow>
                      (if r < 0xDC00 \<and> 0xDC00 \<le> r2 \<and> r2 < 0xE000
                       then Some (encodeRune (0x10000 + (r - 0xD800) * 1024 + (r2 - 0xDC00)), drop 10 t)
                       else Some (encodeRune 0xFFFD, drop 4 t))
                  | None \<Rightarrow> Some (encodeRune 0xFFFD, drop 4 t))
               else Some (encodeRune r, drop 4 t)))
        else None))"

lemma unescape_shorter: "unescape s = Some (u, r) \<Longrightarrow> length r < length s"
  by (auto simp: unescape_def split: list.splits if_splits option.splits)

text \<open>The rest of a string after its opening quote: its value and what follows the closing quote.\<close>

function parseString :: "string \<Rightarrow> (string \<times> string) option" where
  "parseString s =
     (case s of [] \<Rightarrow> None
      | c # t \<Rightarrow>
         (if c = dquote then Some ([], t)
          else if c = bslash then
            (case unescape t of None \<Rightarrow> None
             | Some (u, r) \<Rightarrow> map_option (\<lambda>(v, r'). (u @ v, r')) (parseString r))
          else if byteOf c < 32 then None
          else (case runeLen s of
              None \<Rightarrow> map_option (\<lambda>(v, r). (encodeRune 0xFFFD @ v, r)) (parseString t)
            | Some n \<Rightarrow> map_option (\<lambda>(v, r). (take n s @ v, r)) (parseString (drop n s)))))"
  by pat_completeness auto
termination by (relation "measure length") (auto dest!: runeLen_bounds unescape_shorter)

declare parseString.simps [simp del]

section \<open>String round trip\<close>

lemma hexVal_hexDigit: "n < 16 \<Longrightarrow> hexVal (hexDigit n) = Some n"
  by (auto simp: hexVal_def hexDigit_def isDigit_def inRange_def)

lemma hexVal_zero [simp]: "hexVal (CHR ''0'') = Some 0"
  by (simp add: hexVal_def isDigit_def)

lemma parse_escapeByte:
  assumes "byteOf c < 128" "parseString s = Some (v, r)"
  shows "parseString (escapeByte c @ s) = Some (c # v, r)"
proof -
  have u: "unescape ([CHR ''u'', CHR ''0'', CHR ''0'', hexDigit (byteOf c div 16), hexDigit (byteOf c mod 16)] @ s) = Some ([c], s)"
    if "byteOf c < 128"
  proof -
    have "getu4 ([CHR ''0'', CHR ''0'', hexDigit (byteOf c div 16), hexDigit (byteOf c mod 16)] @ s) = Some (byteOf c)"
      using that by (simp add: getu4_def hexVal_hexDigit)
    then show ?thesis using that by (simp add: unescape_def encodeRune_def)
  qed
  consider "c = dquote \<or> c = bslash" | "c = CHR 0x08" | "c = CHR 0x0C" | "c = CHR 0x0A" | "c = CHR 0x0D" | "c = CHR 0x09"
    | "escapeByte c = [bslash, CHR ''u'', CHR ''0'', CHR ''0'', hexDigit (byteOf c div 16), hexDigit (byteOf c mod 16)]"
    | "escapeByte c = [c]" "c \<noteq> dquote" "c \<noteq> bslash" "\<not> byteOf c < 32"
    unfolding escapeByte_def by presburger
  then show ?thesis
  proof cases
    case 7
    then show ?thesis using u[OF assms(1)] assms(2) by (simp add: parseString.simps[of "bslash # _"])
  next
    case 8
    then show ?thesis using assms by (simp add: parseString.simps[of "c # _"] runeLen_def)
  qed (use assms(2) in \<open>auto simp: escapeByte_def parseString.simps[of "bslash # _"] unescape_def\<close>)
qed

lemma runeLen_first:
  assumes "runeLen (c # t) = Some n" "n \<noteq> 1"
  shows "128 \<le> byteOf c"
  using assms by (auto simp: runeLen_def split: if_splits)

lemma parse_escapeString:
  "validUTF8 s \<Longrightarrow> parseString (escapeString s @ dquote # r) = Some (s, r)"
proof (induction s rule: validUTF8.induct)
  case (1 s)
  show ?case
  proof (cases s)
    case Nil
    then show ?thesis by (simp add: escapeString.simps[of "[]"] parseString.simps[of "dquote # r"])
  next
    case (Cons c t)
    then obtain n where n: "runeLen s = Some n" "validUTF8 (drop n s)"
      using "1.prems"[unfolded validUTF8.simps[of s]] by (auto split: option.splits)
    have IH: "parseString (escapeString (drop n s) @ dquote # r) = Some (drop n s, r)"
      using "1.IH" n Cons by auto
    show ?thesis
    proof (cases "n = 1")
      case True
      then have "byteOf c < 128" using n(1) Cons by (auto simp: runeLen_def split: if_splits list.splits)
      then show ?thesis using parse_escapeByte[OF _ IH, of c] True Cons n by (simp add: escapeString.simps[of "c # t"])
    next
      case False
      let ?rest = "escapeString (drop n s) @ dquote # r"
      have big: "128 \<le> byteOf c" using runeLen_first n(1) False Cons by blast
      have tk: "take n s \<noteq> [] \<and> hd (take n s) = c" using runeLen_bounds[OF n(1)] Cons by (cases n) auto
      have verbatim: "parseString (take n s @ ?rest) = Some (s, r)"
      proof -
        obtain q where q: "take n s @ ?rest = c # q" using tk by (cases "take n s") auto
        have "c \<noteq> dquote" "c \<noteq> bslash" "\<not> byteOf c < 32" using big by auto
        moreover have "runeLen (c # q) = Some n" using runeLen_append[OF n(1), of ?rest] q by simp
        moreover have "take n (c # q) = take n s" "drop n (c # q) = ?rest"
          using q runeLen_bounds[OF n(1)] by (metis append_eq_conv_conj length_take min.absorb2)+
        ultimately show ?thesis using IH q by (simp add: parseString.simps[of "c # q"])
      qed
      let ?A8 = "[CHR 0xE2, CHR 0x80, CHR 0xA8]" and ?A9 = "[CHR 0xE2, CHR 0x80, CHR 0xA9]"
      have esc: "parseString ([bslash] @ ''u2028'' @ ?rest) = Some (?A8 @ drop n s, r)"
           "parseString ([bslash] @ ''u2029'' @ ?rest) = Some (?A9 @ drop n s, r)"
        using IH by (simp_all add: parseString.simps[of "bslash # _"] unescape_def getu4_def hexVal_def isDigit_def encodeRune_def char_eval)
      have back_s: "take n s = l \<Longrightarrow> l @ drop n s = s" for l using append_take_drop_id[of n s] by metis
      have "escapeString s @ dquote # r =
          (if take n s = ?A8 then [bslash] @ ''u2028'' else if take n s = ?A9 then [bslash] @ ''u2029'' else take n s) @ ?rest"
        using n(1) False Cons by (simp add: escapeString.simps[of "c # t"])
      then show ?thesis
        using verbatim esc back_s[of ?A8] back_s[of ?A9] by (cases "take n s = ?A8"; cases "take n s = ?A9") simp_all
    qed
  qed
qed

section \<open>Values\<close>

definition quoteString :: "string \<Rightarrow> string" where
  "quoteString s = dquote # escapeString s @ [dquote]"

fun printJSON :: "json \<Rightarrow> string" where
  "printJSON JNull = ''null''"
| "printJSON (JBool b) = (if b then ''true'' else ''false'')"
| "printJSON (JNum n) = n"
| "printJSON (JStr s) = quoteString s"
| "printJSON (JList xs) = ''['' @ Join (map printJSON xs) '','' @ '']''"
| "printJSON (JObj ms) = ''{'' @ Join (map (\<lambda>m. quoteString (fst m) @ '':'' @ printJSON (snd m)) ms) '','' @ ''}''"

definition isWS :: "char \<Rightarrow> bool" where
  "isWS c = (c \<in> {CHR 0x20, CHR 0x09, CHR 0x0A, CHR 0x0D})"

definition skipWS :: "string \<Rightarrow> string" where
  "skipWS s = dropWhile isWS s"

definition numChar :: "char \<Rightarrow> bool" where
  "numChar c = (isDigit c \<or> c \<in> {CHR ''-'', CHR ''+'', CHR ''.'', CHR ''e'', CHR ''E''})"

text \<open>The JSON number grammar.\<close>

definition digits1 :: "string \<Rightarrow> string option" where
  "digits1 s = (case s of c # _ \<Rightarrow> if isDigit c then Some (dropWhile isDigit s) else None | [] \<Rightarrow> None)"

definition numOk :: "string \<Rightarrow> bool" where
  "numOk s =
     (let s1 = (case s of c # t \<Rightarrow> if c = CHR ''-'' then t else s | [] \<Rightarrow> s);
          s2 = (case s1 of c # t \<Rightarrow> if c = CHR ''0'' then Some t else digits1 s1 | [] \<Rightarrow> None);
          s3 = (case s2 of None \<Rightarrow> None | Some t \<Rightarrow> (case t of c # u \<Rightarrow> if c = CHR ''.'' then digits1 u else Some t | [] \<Rightarrow> Some []));
          s4 = (case s3 of None \<Rightarrow> None | Some t \<Rightarrow> (case t of
                  c # u \<Rightarrow> if c = CHR ''e'' \<or> c = CHR ''E''
                     then digits1 (case u of e # v \<Rightarrow> if e = CHR ''+'' \<or> e = CHR ''-'' then v else u | [] \<Rightarrow> u)
                     else Some t
                | [] \<Rightarrow> Some []))
      in s4 = Some [])"

definition parseLiteral :: "string \<Rightarrow> (json \<times> string) option" where
  "parseLiteral s =
     (if prefix ''true'' s then Some (JBool True, drop 4 s)
      else if prefix ''false'' s then Some (JBool False, drop 5 s)
      else if prefix ''null'' s then Some (JNull, drop 4 s)
      else let n = takeWhile numChar s in
           if numOk n then Some (JNum n, dropWhile numChar s) else None)"

definition maxNestingDepth :: nat where "maxNestingDepth = 10000"

fun parseValue :: "nat \<Rightarrow> nat \<Rightarrow> string \<Rightarrow> (json \<times> string) option"
and parseElems :: "nat \<Rightarrow> nat \<Rightarrow> string \<Rightarrow> (json list \<times> string) option"
and parseMembers :: "nat \<Rightarrow> nat \<Rightarrow> string \<Rightarrow> ((string \<times> json) list \<times> string) option" where
  "parseValue 0 d s = None"
| "parseValue (Suc n) d s =
     (case skipWS s of
        [] \<Rightarrow> None
      | c # t \<Rightarrow>
         (if c = CHR ''{'' then
            (if d \<ge> maxNestingDepth then None
             else case skipWS t of [] \<Rightarrow> None
               | e # r \<Rightarrow> (if e = CHR ''}'' then Some (JObj [], r)
                          else map_option (\<lambda>(ms, r'). (JObj ms, r')) (parseMembers n (d + 1) (e # r))))
          else if c = CHR ''['' then
            (if d \<ge> maxNestingDepth then None
             else case skipWS t of [] \<Rightarrow> None
               | e # r \<Rightarrow> (if e = CHR '']'' then Some (JList [], r)
                          else map_option (\<lambda>(xs, r'). (JList xs, r')) (parseElems n (d + 1) (e # r))))
          else if c = dquote then map_option (\<lambda>(v, r). (JStr v, r)) (parseString t)
          else parseLiteral (c # t)))"
| "parseElems 0 d s = None"
| "parseElems (Suc n) d s =
     (case parseValue n d s of None \<Rightarrow> None
      | Some (x, r) \<Rightarrow>
         (case skipWS r of [] \<Rightarrow> None
          | c # r1 \<Rightarrow>
             (if c = CHR '']'' then Some ([x], r1)
              else if c = CHR '','' then map_option (\<lambda>(xs, r2). (x # xs, r2)) (parseElems n d r1)
              else None)))"
| "parseMembers 0 d s = None"
| "parseMembers (Suc n) d s =
     (case skipWS s of [] \<Rightarrow> None
      | q # t \<Rightarrow>
         (if q \<noteq> dquote then None
          else case parseString t of None \<Rightarrow> None
            | Some (k, r0) \<Rightarrow>
               (case skipWS r0 of [] \<Rightarrow> None
                | c0 # r1 \<Rightarrow>
                   (if c0 \<noteq> CHR '':'' then None
                    else case parseValue n d r1 of None \<Rightarrow> None
                      | Some (v, r) \<Rightarrow>
                         (case skipWS r of [] \<Rightarrow> None
                          | c # r2 \<Rightarrow>
                             (if c = CHR ''}'' then Some ([(k, v)], r2)
                              else if c = CHR '','' then map_option (\<lambda>(ms, r3). ((k, v) # ms, r3)) (parseMembers n d r2)
                              else None))))))"

text \<open>\<open>json.Unmarshal\<close> of the whole text; the fuel, one more than the text's length, is never used up because every
  call consumes a byte.\<close>

definition parseJSON :: "string \<Rightarrow> json option" where
  "parseJSON s = (case parseValue (length s + 1) 0 s of
     Some (j, r) \<Rightarrow> if skipWS r = [] then Some j else None | None \<Rightarrow> None)"

section \<open>Round trip\<close>

fun jdepth :: "json \<Rightarrow> nat" where
  "jdepth (JList xs) = Suc (foldr max (map jdepth xs) 0)"
| "jdepth (JObj ms) = Suc (foldr max (map (\<lambda>m. jdepth (snd m)) ms) 0)"
| "jdepth j = 0"

fun jsonOk :: "json \<Rightarrow> bool" where
  "jsonOk (JNum n) = False"
| "jsonOk (JStr s) = validUTF8 s"
| "jsonOk (JList xs) = list_all jsonOk xs"
| "jsonOk (JObj ms) = list_all (\<lambda>m. validUTF8 (fst m) \<and> jsonOk (snd m)) ms"
| "jsonOk j = True"

lemma skipWS_Cons [simp]: "\<not> isWS c \<Longrightarrow> skipWS (c # s) = c # s"
  by (simp add: skipWS_def)

lemma notWS [simp]: "\<not> isWS (CHR ''{'')" "\<not> isWS (CHR ''['')" "\<not> isWS dquote" "\<not> isWS (CHR ''t'')" "\<not> isWS (CHR ''f'')"
  "\<not> isWS (CHR ''n'')" "\<not> isWS (CHR '']'')" "\<not> isWS (CHR ''}'')" "\<not> isWS (CHR '','')" "\<not> isWS (CHR '':'')"
  by (simp_all add: isWS_def)

lemma printJSON_first:
  assumes "jsonOk j" shows "\<exists>c t. printJSON j = c # t \<and> \<not> isWS c \<and> c \<noteq> CHR '']'' \<and> c \<noteq> CHR ''}''"
  using assms by (cases j) (auto simp: quoteString_def)

lemma foldr_max_le: "x \<in> set xs \<Longrightarrow> f x \<le> foldr max (map f xs) (0::nat)"
  by (induction xs) auto

lemma parse_quoteString: "validUTF8 s \<Longrightarrow> parseString (escapeString s @ dquote # r) = Some (s, r)"
  by (rule parse_escapeString)

text \<open>The induction hypothesis of one value: it is parsed with enough fuel in a permitted depth.\<close>

definition reads :: "json \<Rightarrow> bool" where
  "reads j = (\<forall>n d r. length (printJSON j) \<le> n \<longrightarrow> d + jdepth j \<le> maxNestingDepth
     \<longrightarrow> parseValue n d (printJSON j @ r) = Some (j, r))"

lemma reads_elems:
  assumes "xs \<noteq> []" "\<forall>x \<in> set xs. reads x \<and> d + jdepth x \<le> maxNestingDepth"
    "length (Join (map printJSON xs) '','') + 1 \<le> n"
  shows "parseElems n d (Join (map printJSON xs) '','' @ '']'' @ r) = Some (xs, r)"
  using assms
proof (induction xs arbitrary: n)
  case (Cons x xs)
  obtain m where n: "n = Suc m" using Cons.prems(3) by (cases n) auto
  show ?case
  proof (cases "xs = []")
    case True
    have "parseValue m d (printJSON x @ '']'' @ r) = Some (x, '']'' @ r)"
      using Cons.prems n True by (simp add: reads_def)
    then show ?thesis using n True by simp
  next
    case False
    let ?rest = "Join (map printJSON xs) '','' @ '']'' @ r"
    have j: "Join (map printJSON (x # xs)) '','' = printJSON x @ '','' @ Join (map printJSON xs) '',''"
      using False by (simp add: Join_Cons)
    have "parseValue m d (printJSON x @ '','' @ ?rest) = Some (x, '','' @ ?rest)"
      using Cons.prems n j by (simp add: reads_def)
    moreover have "parseElems m d ?rest = Some (xs, r)"
      using Cons.IH[of m] Cons.prems n j False by simp
    ultimately show ?thesis using n j by simp
  qed
qed simp

lemma reads_members:
  assumes "ms \<noteq> []" "\<forall>m \<in> set ms. validUTF8 (fst m) \<and> reads (snd m) \<and> d + jdepth (snd m) \<le> maxNestingDepth"
    "length (Join (map (\<lambda>m. quoteString (fst m) @ '':'' @ printJSON (snd m)) ms) '','') + 1 \<le> n"
  shows "parseMembers n d (Join (map (\<lambda>m. quoteString (fst m) @ '':'' @ printJSON (snd m)) ms) '','' @ ''}'' @ r) = Some (ms, r)"
  using assms
proof (induction ms arbitrary: n)
  case (Cons x xs)
  let ?pr = "\<lambda>m. quoteString (fst m) @ '':'' @ printJSON (snd m)"
  obtain m where n: "n = Suc m" using Cons.prems(3) by (cases n) auto
  obtain k v where x: "x = (k, v)" by (cases x)
  have k: "parseString (escapeString k @ dquote # t) = Some (k, t)" for t
    using Cons.prems(2) x by (simp add: parse_escapeString)
  show ?case
  proof (cases "xs = []")
    case True
    have "parseValue m d (printJSON v @ ''}'' @ r) = Some (v, ''}'' @ r)"
      using Cons.prems n True x by (simp add: reads_def)
    then show ?thesis using n True x k by (simp add: quoteString_def)
  next
    case False
    let ?rest = "Join (map ?pr xs) '','' @ ''}'' @ r"
    have j: "Join (map ?pr (x # xs)) '','' = quoteString k @ '':'' @ printJSON v @ '','' @ Join (map ?pr xs) '',''"
      using False x by (simp add: Join_Cons)
    have "parseValue m d (printJSON v @ '','' @ ?rest) = Some (v, '','' @ ?rest)"
      using Cons.prems n j x by (simp add: reads_def)
    moreover have "parseMembers m d ?rest = Some (xs, r)"
      using Cons.IH[of m] Cons.prems n j False by simp
    ultimately show ?thesis using n j k x by (simp add: quoteString_def)
  qed
qed simp

lemma Join_first:
  assumes "xs \<noteq> []" "hd xs = c # t"
  shows "\<exists>u. Join xs sep = c # u"
proof (cases xs)
  case (Cons y ys)
  then show ?thesis using assms by (cases ys) auto
qed (use assms in simp)

lemma reads_list:
  assumes "\<forall>x \<in> set xs. jsonOk x \<and> reads x" shows "reads (JList xs)"
  unfolding reads_def
proof (intro allI impI)
  fix n d r
  assume len: "length (printJSON (JList xs)) \<le> n" and d: "d + jdepth (JList xs) \<le> maxNestingDepth"
  obtain m where n: "n = Suc m" using len by (cases n) auto
  have dx: "Suc d + jdepth x \<le> maxNestingDepth" if "x \<in> set xs" for x
    using d foldr_max_le[OF that, of jdepth] by simp
  show "parseValue n d (printJSON (JList xs) @ r) = Some (JList xs, r)"
  proof (cases "xs = []")
    case True
    then show ?thesis using n d by simp
  next
    case False
    have p: "parseElems m (Suc d) (Join (map printJSON xs) '','' @ '']'' @ r) = Some (xs, r)"
      using reads_elems[OF False, of "Suc d" m r] assms dx len n by auto
    have "jsonOk (hd xs)" using assms False by simp
    then obtain c t where c: "printJSON (hd xs) = c # t" "\<not> isWS c" "c \<noteq> CHR '']''" using printJSON_first by blast
    then obtain u where u: "Join (map printJSON xs) '','' = c # u"
      using Join_first[of "map printJSON xs" c t "'',''"] False by (auto simp: hd_map)
    show ?thesis using p n d u c by simp
  qed
qed

lemma reads_obj:
  assumes "\<forall>m \<in> set ms. validUTF8 (fst m) \<and> reads (snd m)" shows "reads (JObj ms)"
  unfolding reads_def
proof (intro allI impI)
  fix n d r
  let ?pr = "\<lambda>m. quoteString (fst m) @ '':'' @ printJSON (snd m)"
  assume len: "length (printJSON (JObj ms)) \<le> n" and d: "d + jdepth (JObj ms) \<le> maxNestingDepth"
  obtain m where n: "n = Suc m" using len by (cases n) auto
  have dx: "Suc d + jdepth (snd x) \<le> maxNestingDepth" if "x \<in> set ms" for x
    using d foldr_max_le[OF that, of "\<lambda>m. jdepth (snd m)"] by simp
  show "parseValue n d (printJSON (JObj ms) @ r) = Some (JObj ms, r)"
  proof (cases "ms = []")
    case True
    then show ?thesis using n d by simp
  next
    case False
    have p: "parseMembers m (Suc d) (Join (map ?pr ms) '','' @ ''}'' @ r) = Some (ms, r)"
      using reads_members[OF False, of "Suc d" m r] assms dx len n by auto
    obtain u where u: "Join (map ?pr ms) '','' = dquote # u"
      using Join_first[of "map ?pr ms" dquote _ "'',''"] False by (force simp: hd_map quoteString_def)
    show ?thesis using p n d u by simp
  qed
qed

lemma jsonOk_reads: "jsonOk j \<Longrightarrow> reads j"
proof (induction j)
  case (JList xs)
  then show ?case by (intro reads_list) (simp add: list_all_iff)
next
  case (JObj ms)
  have "reads (snd m)" if "m \<in> set ms" for m
    using JObj that by (cases m) (auto simp: list_all_iff)
  then show ?case using JObj.prems by (intro reads_obj) (simp add: list_all_iff)
next
  case (JStr s)
  show ?case unfolding reads_def
  proof (intro allI impI)
    fix n d r assume "length (printJSON (JStr s)) \<le> n"
    then obtain m where "n = Suc m" by (cases n) (auto simp: quoteString_def)
    then show "parseValue n d (printJSON (JStr s) @ r) = Some (JStr s, r)"
      using JStr parse_escapeString[of s r] by (simp add: quoteString_def)
  qed
next
  case (JBool b)
  show ?case unfolding reads_def
  proof (intro allI impI)
    fix n d r assume "length (printJSON (JBool b)) \<le> n"
    then obtain m where "n = Suc m" by (cases n) (auto split: if_splits)
    then show "parseValue n d (printJSON (JBool b) @ r) = Some (JBool b, r)"
      by (cases b) (simp_all add: parseLiteral_def)
  qed
next
  case JNull
  show ?case unfolding reads_def
  proof (intro allI impI)
    fix n d r assume "length (printJSON JNull) \<le> n"
    then obtain m where "n = Suc m" by (cases n) auto
    then show "parseValue n d (printJSON JNull @ r) = Some (JNull, r)" by (simp add: parseLiteral_def)
  qed
qed simp

lemma parse_print:
  assumes "jsonOk j" "jdepth j \<le> maxNestingDepth"
  shows "parseJSON (printJSON j) = Some j"
proof -
  have "parseValue (length (printJSON j) + 1) 0 (printJSON j @ []) = Some (j, [])"
    using jsonOk_reads[OF assms(1)] assms(2) unfolding reads_def by (metis add_0 le_add1)
  then show ?thesis by (simp add: parseJSON_def skipWS_def)
qed

end
