(* ===== verification/Base64.thy ===== *)
theory Base64
  imports GoStrings
begin

text \<open>
  The interface of an encoding and its decoding, and the first provider: package \<open>encoding/base64\<close> with padding, in
  the standard and the URL alphabet, as the program uses it for binary attributes and for cursors.  The
  decoder skips carriage returns and newlines, requires complete quanta and padding at the end only, and ignores the
  unused bits of the last quantum, as Go's non-strict decoder does.
\<close>

section \<open>Codecs\<close>

text \<open>What a client of an encoding relies on: on its valid values, decoding the encoded text gives the value back.\<close>

locale codec =
  fixes enc :: "'a \<Rightarrow> 'b" and dec :: "'b \<Rightarrow> 'a option" and ok :: "'a \<Rightarrow> bool"
  assumes dec_enc: "ok x \<Longrightarrow> dec (enc x) = Some x"
begin

lemma enc_inj: "ok x \<Longrightarrow> ok y \<Longrightarrow> enc x = enc y \<Longrightarrow> x = y"
  by (metis dec_enc option.inject)

text \<open>A list of encoded values, decoded one by one.\<close>

definition decAll :: "'b list \<Rightarrow> 'a list option" where
  "decAll ys = (if list_all (\<lambda>y. dec y \<noteq> None) ys then Some (map (the \<circ> dec) ys) else None)"

lemma decAll_enc: "list_all ok xs \<Longrightarrow> decAll (map enc xs) = Some xs"
  by (auto simp: decAll_def dec_enc list_all_iff intro!: map_idI)

end

text \<open>Two codecs in a row.\<close>

locale codec_chain = outer: codec enc2 dec2 ok2 + inner: codec enc1 dec1 ok1
  for enc2 :: "'b \<Rightarrow> 'c" and dec2 ok2 and enc1 :: "'a \<Rightarrow> 'b" and dec1 ok1 +
  assumes chained: "ok1 x \<Longrightarrow> ok2 (enc1 x)"

sublocale codec_chain \<subseteq> chain: codec "\<lambda>x. enc2 (enc1 x)" "\<lambda>y. Option.bind (dec2 y) dec1" ok1
  by unfold_locales (simp add: outer.dec_enc inner.dec_enc chained)

section \<open>Base64\<close>

definition stdAlphabet :: string where
  "stdAlphabet = ''ABCDEFGHIJKLMNOPQRSTUVWXYZabcdefghijklmnopqrstuvwxyz0123456789+/''"

definition urlAlphabet :: string where
  "urlAlphabet = ''ABCDEFGHIJKLMNOPQRSTUVWXYZabcdefghijklmnopqrstuvwxyz0123456789-_''"

fun encodeQuanta :: "string \<Rightarrow> string \<Rightarrow> string" where
  "encodeQuanta al [] = []"
| "encodeQuanta al [a] =
     [al ! (byteOf a div 4), al ! (byteOf a mod 4 * 16), CHR ''='', CHR ''='']"
| "encodeQuanta al [a, b] =
     [al ! (byteOf a div 4), al ! (byteOf a mod 4 * 16 + byteOf b div 16), al ! (byteOf b mod 16 * 4), CHR ''='']"
| "encodeQuanta al (a # b # c # s) =
     al ! (byteOf a div 4) # al ! (byteOf a mod 4 * 16 + byteOf b div 16)
       # al ! (byteOf b mod 16 * 4 + byteOf c div 64) # al ! (byteOf c mod 64) # encodeQuanta al s"

definition bytes1 :: "nat \<Rightarrow> nat \<Rightarrow> char" where "bytes1 w x = char_of (w * 4 + x div 16)"
definition bytes2 :: "nat \<Rightarrow> nat \<Rightarrow> char" where "bytes2 x y = char_of (x mod 16 * 16 + y div 4)"
definition bytes3 :: "nat \<Rightarrow> nat \<Rightarrow> char" where "bytes3 y z = char_of (y mod 4 * 64 + z)"

fun decodeQuanta :: "string \<Rightarrow> string \<Rightarrow> string option" where
  "decodeQuanta al [] = Some []"
| "decodeQuanta al (p # q # r # s # t) =
     (case (IndexByte al p, IndexByte al q, IndexByte al r, IndexByte al s) of
        (Some w, Some x, Some y, Some z) \<Rightarrow>
          map_option (\<lambda>u. bytes1 w x # bytes2 x y # bytes3 y z # u) (decodeQuanta al t)
      | (Some w, Some x, Some y, None) \<Rightarrow>
          (if s = CHR ''='' \<and> t = [] then Some [bytes1 w x, bytes2 x y] else None)
      | (Some w, Some x, None, None) \<Rightarrow>
          (if r = CHR ''='' \<and> s = CHR ''='' \<and> t = [] then Some [bytes1 w x] else None)
      | _ \<Rightarrow> None)"
| "decodeQuanta al _ = None"

definition base64Encode :: "string \<Rightarrow> string \<Rightarrow> string" where
  "base64Encode al s = encodeQuanta al s"

definition base64Decode :: "string \<Rightarrow> string \<Rightarrow> string option" where
  "base64Decode al s = decodeQuanta al (filter (\<lambda>c. c \<noteq> CHR 0x0A \<and> c \<noteq> CHR 0x0D) s)"

definition goodAlphabet :: "string \<Rightarrow> bool" where
  "goodAlphabet al = (distinct al \<and> length al = 64 \<and> CHR ''='' \<notin> set al \<and> CHR 0x0A \<notin> set al \<and> CHR 0x0D \<notin> set al)"

lemma IndexByte_nth: "distinct al \<Longrightarrow> i < length al \<Longrightarrow> IndexByte al (al ! i) = Some i"
proof (induction al arbitrary: i)
  case (Cons c al)
  then show ?case by (cases i) auto
qed simp

lemma byte_lt: "byteOf c < 256"
proof -
  have "byteOf c = byteOf c mod 256" using of_char_of[of "byteOf c"] by simp
  then show ?thesis by (metis mod_less_divisor zero_less_numeral)
qed

lemma sextet_lt [simp]:
  "byteOf a div 4 < 64" "byteOf a mod 4 * 16 < 64" "byteOf a mod 4 * 16 + byteOf b div 16 < 64"
  "byteOf b mod 16 * 4 < 64" "byteOf b mod 16 * 4 + byteOf c div 64 < 64" "byteOf c mod 64 < 64"
proof -
  have *: "byteOf a mod 4 \<le> 3" "byteOf b div 16 \<le> 15" "byteOf b mod 16 \<le> 15" "byteOf c div 64 \<le> 3"
    using byte_lt[of b] byte_lt[of c] mod_less_divisor[of 4 "byteOf a"] mod_less_divisor[of 16 "byteOf b"] by linarith+
  show "byteOf a div 4 < 64" using byte_lt[of a] by linarith
  show "byteOf a mod 4 * 16 < 64" "byteOf a mod 4 * 16 + byteOf b div 16 < 64"
    "byteOf b mod 16 * 4 < 64" "byteOf b mod 16 * 4 + byteOf c div 64 < 64" using * by linarith+
qed simp

lemma alphabet_nth:
  assumes "goodAlphabet al" "i < 64"
  shows "IndexByte al (al ! i) = Some i" "al ! i \<noteq> CHR 0x0A" "al ! i \<noteq> CHR 0x0D"
proof -
  have "al ! i \<in> set al" using assms by (simp add: goodAlphabet_def)
  then show "al ! i \<noteq> CHR 0x0A" "al ! i \<noteq> CHR 0x0D" using assms(1) unfolding goodAlphabet_def by metis+
  show "IndexByte al (al ! i) = Some i" using assms by (simp add: goodAlphabet_def IndexByte_nth)
qed

lemma alphabet_pad: "goodAlphabet al \<Longrightarrow> IndexByte al (CHR ''='') = None"
  by (simp add: goodAlphabet_def IndexByte_None)

lemma quanta_chars:
  "goodAlphabet al \<Longrightarrow> filter (\<lambda>c. c \<noteq> CHR 0x0A \<and> c \<noteq> CHR 0x0D) (encodeQuanta al s) = encodeQuanta al s"
  by (induction al s rule: encodeQuanta.induct) (simp_all add: alphabet_nth)

lemma digit_split: "y < (16::nat) \<Longrightarrow> (x * 16 + y) div 16 = x" "y < (16::nat) \<Longrightarrow> (x * 16 + y) mod 16 = y"
  "w < (4::nat) \<Longrightarrow> (x * 4 + w) div 4 = x" "w < (4::nat) \<Longrightarrow> (x * 4 + w) mod 4 = w"
  by simp_all

lemma bytes_back:
  "bytes1 (byteOf a div 4) (byteOf a mod 4 * 16 + byteOf b div 16) = a"
  "bytes1 (byteOf a div 4) (byteOf a mod 4 * 16) = a"
  "bytes2 (byteOf a mod 4 * 16 + byteOf b div 16) (byteOf b mod 16 * 4 + byteOf c div 64) = b"
  "bytes2 (byteOf a mod 4 * 16 + byteOf b div 16) (byteOf b mod 16 * 4) = b"
  "bytes3 (byteOf b mod 16 * 4 + byteOf c div 64) (byteOf c mod 64) = c"
proof -
  have lt: "byteOf b div 16 < 16" "byteOf c div 64 < 4" using byte_lt[of b] byte_lt[of c] by linarith+
  show "bytes1 (byteOf a div 4) (byteOf a mod 4 * 16 + byteOf b div 16) = a"
    unfolding bytes1_def digit_split(1)[OF lt(1)] div_mult_mod_eq by simp
  show "bytes1 (byteOf a div 4) (byteOf a mod 4 * 16) = a"
    by (simp add: bytes1_def div_mult_mod_eq)
  show "bytes2 (byteOf a mod 4 * 16 + byteOf b div 16) (byteOf b mod 16 * 4 + byteOf c div 64) = b"
    unfolding bytes2_def digit_split(2)[OF lt(1)] digit_split(3)[OF lt(2)] div_mult_mod_eq by simp
  show "bytes2 (byteOf a mod 4 * 16 + byteOf b div 16) (byteOf b mod 16 * 4) = b"
    unfolding bytes2_def digit_split(2)[OF lt(1)] by (simp add: div_mult_mod_eq)
  show "bytes3 (byteOf b mod 16 * 4 + byteOf c div 64) (byteOf c mod 64) = c"
    unfolding bytes3_def digit_split(4)[OF lt(2)] div_mult_mod_eq by simp
qed

lemma decode_encode_quanta:
  "goodAlphabet al \<Longrightarrow> decodeQuanta al (encodeQuanta al s) = Some s"
  by (induction al s rule: encodeQuanta.induct) (simp_all add: alphabet_nth(1) alphabet_pad bytes_back)

lemma goodAlphabets: "goodAlphabet stdAlphabet" "goodAlphabet urlAlphabet"
  by (simp_all add: goodAlphabet_def stdAlphabet_def urlAlphabet_def)

lemma base64_roundtrip: "goodAlphabet al \<Longrightarrow> base64Decode al (base64Encode al s) = Some s"
  by (simp add: base64Decode_def base64Encode_def quanta_chars decode_encode_quanta)

interpretation std64: codec "base64Encode stdAlphabet" "base64Decode stdAlphabet" "\<lambda>s. True"
  by unfold_locales (simp add: base64_roundtrip goodAlphabets)

interpretation url64: codec "base64Encode urlAlphabet" "base64Decode urlAlphabet" "\<lambda>s. True"
  by unfold_locales (simp add: base64_roundtrip goodAlphabets)

end
