(* ===== verification/Cursor.thy ===== *)
theory Cursor
  imports GoReflect GoJSON Base64 "HOL-Library.List_Lexorder" "HOL-Library.Char_ord"
begin

text \<open>
  \<open>pkg/query/cursor.go\<close>: pagination cursors.  The last evaluated key is turned into typed JSON
  (\<open>{"S": ...}\<close>, \<open>{"B": base64}\<close>, ...), printed by \<open>encoding/json\<close> (which sorts map keys) and
  encoded in URL base64; decoding goes the other way.  A Go map has no order, and the
  lemmas represent it by its list in key order.  A nil set (\<open>SS\<close>, \<open>NS\<close>), which \<open>encoding/json\<close> prints as null, is the empty one here; keys of
  DynamoDB hold no sets.
\<close>

record Cursor =
  LastEvaluatedKey :: "(string \<times> json) list"
  IndexName :: string
  SortDirection :: string

section \<open>Attribute values as JSON\<close>

text \<open>A map handed to \<open>json.Marshal\<close>.\<close>

definition mapJSON :: "(string \<times> json) list \<Rightarrow> json" where
  "mapJSON m = JObj (sort_key fst m)"

fun attributeValueToJSON :: "attrval \<Rightarrow> json" where
  "attributeValueToJSON (AVS s) = mapJSON [(''S'', JStr s)]"
| "attributeValueToJSON (AVN n) = mapJSON [(''N'', JStr n)]"
| "attributeValueToJSON (AVB b) = mapJSON [(''B'', JStr (base64Encode stdAlphabet b))]"
| "attributeValueToJSON (AVBOOL b) = mapJSON [(''BOOL'', JBool b)]"
| "attributeValueToJSON (AVNULL _) = mapJSON [(''NULL'', JBool True)]"
| "attributeValueToJSON (AVL l) = mapJSON [(''L'', JList (map attributeValueToJSON l))]"
| "attributeValueToJSON (AVM m) = mapJSON [(''M'', mapJSON (map (\<lambda>p. (fst p, attributeValueToJSON (snd p))) m))]"
| "attributeValueToJSON (AVSS ss) = mapJSON [(''SS'', JList (map JStr ss))]"
| "attributeValueToJSON (AVNS ns) = mapJSON [(''NS'', JList (map JStr ns))]"
| "attributeValueToJSON (AVBS bs) = mapJSON [(''BS'', JList (map (\<lambda>b. JStr (base64Encode stdAlphabet b)) bs))]"

definition jsonStringItems :: "string \<Rightarrow> json \<Rightarrow> (string, string list) result" where
  "jsonStringItems kind val = (case val of
     JList l \<Rightarrow> mapE (\<lambda>item. case item of JStr s \<Rightarrow> Inr s | _ \<Rightarrow> Inl (kind @ '' items must be strings'')) l
   | _ \<Rightarrow> Inl (kind @ '' value must be []any''))"

definition decodeBinary :: "string \<Rightarrow> (string, string) result" where
  "decodeBinary s = (case base64Decode stdAlphabet s of Some b \<Rightarrow> Inr b | None \<Rightarrow> Inl ''failed to decode binary'')"

definition jsonBinaryItems :: "json \<Rightarrow> (string, string list) result" where
  "jsonBinaryItems val = (case val of
     JList l \<Rightarrow> mapE (\<lambda>item. case item of JStr s \<Rightarrow> decodeBinary s | _ \<Rightarrow> Inl ''bs items must be strings'') l
   | _ \<Rightarrow> Inl ''bs value must be []any'')"

fun jsonToAttributeValue :: "json \<Rightarrow> (string, attrval) result" where
  "jsonToAttributeValue (JObj [(key, val)]) =
     (if key = ''S'' then (case val of JStr s \<Rightarrow> Inr (AVS s) | _ \<Rightarrow> Inl ''s value must be string'')
      else if key = ''N'' then (case val of JStr s \<Rightarrow> Inr (AVN s) | _ \<Rightarrow> Inl ''n value must be string'')
      else if key = ''B'' then
        (case val of JStr s \<Rightarrow> (case decodeBinary s of Inl e \<Rightarrow> Inl e | Inr b \<Rightarrow> Inr (AVB b)) | _ \<Rightarrow> Inl ''b value must be string'')
      else if key = ''BOOL'' then (case val of JBool b \<Rightarrow> Inr (AVBOOL b) | _ \<Rightarrow> Inl ''bool value must be bool'')
      else if key = ''NULL'' then Inr (AVNULL True)
      else if key = ''L'' then
        (case val of JList l \<Rightarrow> (case mapE (\<lambda>x. jsonToAttributeValue x) l of Inl e \<Rightarrow> Inl e | Inr avs \<Rightarrow> Inr (AVL avs))
         | _ \<Rightarrow> Inl ''l value must be []any'')
      else if key = ''M'' then
        (case val of JObj m \<Rightarrow> (case mapVals (\<lambda>x. jsonToAttributeValue x) m of Inl e \<Rightarrow> Inl e | Inr avs \<Rightarrow> Inr (AVM avs))
         | _ \<Rightarrow> Inl ''m value must be map[string]any'')
      else if key = ''SS'' then (case jsonStringItems ''ss'' val of Inl e \<Rightarrow> Inl e | Inr ss \<Rightarrow> Inr (AVSS ss))
      else if key = ''NS'' then (case jsonStringItems ''ns'' val of Inl e \<Rightarrow> Inl e | Inr ns \<Rightarrow> Inr (AVNS ns))
      else if key = ''BS'' then
        (case jsonBinaryItems val of Inl e \<Rightarrow> Inl e | Inr bs \<Rightarrow> Inr (AVBS bs))
      else Inl ''unknown attribute value format'')"
| "jsonToAttributeValue (JObj _) = Inl ''invalid attribute value format''"
| "jsonToAttributeValue _ = Inl ''expected map[string]any''"

section \<open>Cursors\<close>

definition cursorJSON :: "Cursor \<Rightarrow> json" where
  "cursorJSON c = JObj ([(''lastKey'', mapJSON (LastEvaluatedKey c))]
     @ (if IndexName c \<noteq> [] then [(''index'', JStr (IndexName c))] else [])
     @ (if SortDirection c \<noteq> [] then [(''sort'', JStr (SortDirection c))] else []))"

definition EncodeCursor :: "item \<Rightarrow> string \<Rightarrow> string \<Rightarrow> string" where
  "EncodeCursor lastKey indexName sortDirection =
     (if lastKey = [] then []
      else base64Encode urlAlphabet (printJSON (cursorJSON
        \<lparr> LastEvaluatedKey = map (\<lambda>p. (fst p, attributeValueToJSON (snd p))) lastKey,
          IndexName = indexName, SortDirection = sortDirection \<rparr>)))"

text \<open>A JSON object as a Go map: a later member replaces an earlier one of the same name.\<close>

definition goMap :: "(string \<times> 'a) list \<Rightarrow> (string \<times> 'a) list \<Rightarrow> (string \<times> 'a) list" where
  "goMap old ms = fold (\<lambda>(k, v) m. AList.update k v m) ms old"

text \<open>The \<open>any\<close> value that decoding builds.\<close>

fun anyOfJSON :: "json \<Rightarrow> json" where
  "anyOfJSON (JList xs) = JList (map anyOfJSON xs)"
| "anyOfJSON (JObj ms) = JObj (goMap [] (map (\<lambda>m. (fst m, anyOfJSON (snd m))) ms))"
| "anyOfJSON j = j"

text \<open>Decoding one member into the struct; field names match up to case folding, unknown ones are skipped.\<close>

definition setCursorField :: "string \<Rightarrow> json \<Rightarrow> Cursor \<Rightarrow> Cursor option" where
  "setCursorField k v c =
     (if foldCase k = ''lastkey'' then
        (case v of JObj ms \<Rightarrow> Some (c \<lparr> LastEvaluatedKey := goMap (LastEvaluatedKey c) (map (\<lambda>m. (fst m, anyOfJSON (snd m))) ms) \<rparr>)
         | JNull \<Rightarrow> Some (c \<lparr> LastEvaluatedKey := [] \<rparr>) | _ \<Rightarrow> None)
      else if foldCase k = ''index'' then
        (case v of JStr s \<Rightarrow> Some (c \<lparr> IndexName := s \<rparr>) | JNull \<Rightarrow> Some c | _ \<Rightarrow> None)
      else if foldCase k = ''sort'' then
        (case v of JStr s \<Rightarrow> Some (c \<lparr> SortDirection := s \<rparr>) | JNull \<Rightarrow> Some c | _ \<Rightarrow> None)
      else Some c)"

fun setCursorFields :: "(string \<times> json) list \<Rightarrow> Cursor \<Rightarrow> Cursor option" where
  "setCursorFields [] c = Some c"
| "setCursorFields ((k, v) # ms) c = (case setCursorField k v c of None \<Rightarrow> None | Some c' \<Rightarrow> setCursorFields ms c')"

definition emptyCursor :: Cursor where
  "emptyCursor = \<lparr> LastEvaluatedKey = [], IndexName = [], SortDirection = [] \<rparr>"

definition unmarshalCursor :: "string \<Rightarrow> Cursor option" where
  "unmarshalCursor text = (case parseJSON text of
     Some (JObj ms) \<Rightarrow> setCursorFields ms emptyCursor
   | Some JNull \<Rightarrow> Some emptyCursor
   | _ \<Rightarrow> None)"

text \<open>\<open>Inr None\<close> is the nil cursor of an empty string.\<close>

definition DecodeCursor :: "string \<Rightarrow> (string, Cursor option) result" where
  "DecodeCursor encoded =
     (if encoded = [] then Inr None
      else case base64Decode urlAlphabet encoded of
        None \<Rightarrow> Inl ''failed to decode cursor''
      | Some data \<Rightarrow> (case unmarshalCursor data of None \<Rightarrow> Inl ''failed to unmarshal cursor'' | Some c \<Rightarrow> Inr (Some c)))"

definition ToAttributeValues :: "Cursor option \<Rightarrow> (string, item) result" where
  "ToAttributeValues oc =
     (case oc of None \<Rightarrow> Inr []
      | Some c \<Rightarrow> (if LastEvaluatedKey c = [] then Inr [] else mapVals jsonToAttributeValue (LastEvaluatedKey c)))"

section \<open>Round trip\<close>

text \<open>Attribute values as DynamoDB returns them: strings in UTF-8, NULL true, and maps in key order.\<close>

fun avOk :: "attrval \<Rightarrow> bool" where
  "avOk (AVS s) = validUTF8 s"
| "avOk (AVN n) = validUTF8 n"
| "avOk (AVB b) = True"
| "avOk (AVBOOL b) = True"
| "avOk (AVNULL b) = b"
| "avOk (AVL l) = list_all avOk l"
| "avOk (AVM m) = (sorted (map fst m) \<and> distinct (map fst m) \<and> list_all (\<lambda>p. validUTF8 (fst p) \<and> avOk (snd p)) m)"
| "avOk (AVSS ss) = list_all validUTF8 ss"
| "avOk (AVNS ns) = list_all validUTF8 ns"
| "avOk (AVBS bs) = True"

definition itemOk :: "item \<Rightarrow> bool" where
  "itemOk m = avOk (AVM m)"

lemma sort_sorted: "sorted (map fst m) \<Longrightarrow> sort_key fst m = m"
  by (rule sort_key_id_if_sorted)

lemma mapJSON_single [simp]: "mapJSON [p] = JObj [p]"
  by (simp add: mapJSON_def)

lemma mapJSON_sorted: "sorted (map fst m) \<Longrightarrow> mapJSON (map (\<lambda>p. (fst p, h (snd p))) m) = JObj (map (\<lambda>p. (fst p, h (snd p))) m)"
  by (simp add: mapJSON_def sort_key_id_if_sorted comp_def)

lemma ascii_valid: "isASCII s \<Longrightarrow> validUTF8 s"
proof (induction s)
  case (Cons c s)
  then show ?case by (subst validUTF8.simps) (simp add: runeLen_def)
qed (simp add: validUTF8.simps)

lemma base64_ascii:
  assumes "goodAlphabet al" "isASCII al" shows "isASCII (base64Encode al s)"
proof -
  have nth: "byteOf (al ! i) < 128" if "i < 64" for i
    using assms that by (auto simp: goodAlphabet_def list_all_length)
  have "isASCII (encodeQuanta al' s)" if "al' = al" for al'
    using that by (induction al' s rule: encodeQuanta.induct) (simp_all add: nth)
  then show ?thesis by (simp add: base64Encode_def)
qed

lemma base64_valid: "validUTF8 (base64Encode stdAlphabet s)"
  by (intro ascii_valid base64_ascii goodAlphabets) (simp add: stdAlphabet_def)

lemma decodeBinary_encode [simp]: "decodeBinary (base64Encode stdAlphabet b) = Inr b"
  by (simp add: decodeBinary_def std64.dec_enc)

lemma jsonStringItems_map: "jsonStringItems k (JList (map JStr ss)) = Inr ss"
proof -
  have "mapE (\<lambda>item. case item of JStr s \<Rightarrow> Inr s | _ \<Rightarrow> Inl e) (map JStr ss) = Inr ss" for e :: string
    by (induction ss) auto
  then show ?thesis by (simp add: jsonStringItems_def)
qed

lemma jsonBinaryItems_map: "jsonBinaryItems (JList (map (\<lambda>b. JStr (base64Encode stdAlphabet b)) bs)) = Inr bs"
  unfolding jsonBinaryItems_def json.simps by (induction bs) auto

lemma mapE_inverse: "\<forall>x \<in> set xs. f (h x) = Inr x \<Longrightarrow> mapE f (map h xs) = Inr xs"
  by (induction xs) auto

lemma av_json_roundtrip: "avOk av \<Longrightarrow> jsonToAttributeValue (attributeValueToJSON av) = Inr av"
proof (induction av)
  case (AVL l)
  then have "mapE (\<lambda>x. jsonToAttributeValue x) (map attributeValueToJSON l) = Inr l"
    by (intro mapE_inverse) (simp add: list_all_iff)
  then show ?case by simp
next
  case (AVM m)
  have "\<forall>p \<in> set m. jsonToAttributeValue (attributeValueToJSON (snd p)) = Inr (snd p)"
    using AVM by (fastforce simp: list_all_iff)
  then have "mapVals (\<lambda>x. jsonToAttributeValue x) (map (\<lambda>p. (fst p, attributeValueToJSON (snd p))) m) = Inr m"
    by (rule mapVals_total)
  then show ?case using AVM.prems by (simp add: mapJSON_sorted)
qed (simp_all add: jsonStringItems_map jsonBinaryItems_map)

interpretation av_json: codec attributeValueToJSON "\<lambda>j. case jsonToAttributeValue j of Inr av \<Rightarrow> Some av | Inl _ \<Rightarrow> None" avOk
  by unfold_locales (simp add: av_json_roundtrip)

text \<open>The text of a cursor: JSON, then URL base64.\<close>

abbreviation jsonTextOk :: "json \<Rightarrow> bool" where
  "jsonTextOk j \<equiv> jsonOk j \<and> jdepth j \<le> maxNestingDepth"

interpretation cursor_text: codec_chain "base64Encode urlAlphabet" "base64Decode urlAlphabet" "\<lambda>s. True" printJSON parseJSON jsonTextOk
  by unfold_locales (simp_all add: parse_print)

lemma av_jsonOk: "avOk av \<Longrightarrow> jsonOk (attributeValueToJSON av)"
proof (induction av)
  case (AVM m)
  then have "list_all (\<lambda>p. validUTF8 (fst p) \<and> jsonOk (attributeValueToJSON (snd p))) m"
    by (fastforce simp: list_all_iff)
  then show ?case using AVM.prems by (simp add: mapJSON_sorted list_all_iff ascii_valid)
qed (auto simp: list_all_iff ascii_valid base64_valid)

lemma goMap_distinct: "distinct (map fst (old @ ms)) \<Longrightarrow> goMap old ms = old @ ms"
proof (induction ms arbitrary: old)
  case (Cons m ms)
  have "AList.update (fst m) (snd m) old = old @ [m]" if "fst m \<notin> fst ` set old" for old
    using that by (induction old) auto
  then show ?case using Cons.IH[of "old @ [m]"] Cons.prems by (simp add: goMap_def case_prod_unfold)
qed (simp add: goMap_def)

lemma goMap_members:
  assumes "distinct (map fst m)" "\<forall>p \<in> set m. h (g (snd p)) = g (snd p)"
  shows "goMap [] (map (\<lambda>p. (fst p, h (snd p))) (map (\<lambda>p. (fst p, g (snd p))) m)) = map (\<lambda>p. (fst p, g (snd p))) m"
  using assms by (subst goMap_distinct) (auto simp: comp_def)

lemma av_anyOfJSON: "avOk av \<Longrightarrow> anyOfJSON (attributeValueToJSON av) = attributeValueToJSON av"
proof (induction av)
  case (AVM m)
  then have "\<forall>p \<in> set m. anyOfJSON (attributeValueToJSON (snd p)) = attributeValueToJSON (snd p)"
    by (fastforce simp: list_all_iff)
  then show ?case using AVM.prems goMap_members[of m anyOfJSON attributeValueToJSON] by (simp add: mapJSON_sorted goMap_distinct)
qed (auto simp: list_all_iff goMap_distinct)

definition cursorOf :: "item \<Rightarrow> string \<Rightarrow> string \<Rightarrow> Cursor" where
  "cursorOf lastKey indexName sortDirection =
     \<lparr> LastEvaluatedKey = map (\<lambda>p. (fst p, attributeValueToJSON (snd p))) lastKey,
       IndexName = indexName, SortDirection = sortDirection \<rparr>"

lemma cursorJSON_ok:
  assumes "itemOk k" "validUTF8 i" "validUTF8 s"
  shows "jsonOk (cursorJSON (cursorOf k i s))"
proof -
  have "list_all (\<lambda>p. validUTF8 (fst p) \<and> jsonOk (attributeValueToJSON (snd p))) k"
    using assms(1) av_jsonOk by (auto simp: itemOk_def list_all_iff)
  then show ?thesis using assms
    by (auto simp: cursorJSON_def cursorOf_def mapJSON_sorted itemOk_def list_all_iff ascii_valid)
qed

lemma cursor_fields_decode:
  assumes "itemOk k"
  shows "(case cursorJSON (cursorOf k i s) of JObj ms \<Rightarrow> setCursorFields ms emptyCursor | _ \<Rightarrow> None) = Some (cursorOf k i s)"
proof -
  have "\<forall>p \<in> set k. anyOfJSON (attributeValueToJSON (snd p)) = attributeValueToJSON (snd p)"
    using assms av_anyOfJSON by (auto simp: itemOk_def list_all_iff)
  then show ?thesis using assms goMap_members[of k anyOfJSON attributeValueToJSON]
    by (simp add: cursorJSON_def cursorOf_def itemOk_def mapJSON_sorted setCursorField_def emptyCursor_def lowerByte_def isUpper_def char_eval)
qed

lemma base64_nonempty: "s \<noteq> [] \<Longrightarrow> base64Encode al s \<noteq> []"
  by (cases "(al, s)" rule: encodeQuanta.cases) (auto simp: base64Encode_def)

text \<open>C8.  A pagination cursor survives its encoding: decoding the opaque text that \<open>EncodeCursor\<close> hands out gives a
  cursor with the same index and sort direction, and \<open>ToAttributeValues\<close> gives the same last evaluated key, for every
  attribute type, nested lists and maps included.\<close>

theorem cursor_roundtrip:
  assumes "lastKey \<noteq> []" "itemOk lastKey" "validUTF8 indexName" "validUTF8 sortDirection"
    and "jdepth (cursorJSON (cursorOf lastKey indexName sortDirection)) \<le> maxNestingDepth"
  shows "\<exists>c. DecodeCursor (EncodeCursor lastKey indexName sortDirection) = Inr (Some c)
     \<and> ToAttributeValues (Some c) = Inr lastKey \<and> IndexName c = indexName \<and> SortDirection c = sortDirection"
proof -
  let ?c = "cursorOf lastKey indexName sortDirection"
  let ?text = "printJSON (cursorJSON ?c)"
  have enc: "EncodeCursor lastKey indexName sortDirection = base64Encode urlAlphabet ?text"
    using assms(1) by (simp add: EncodeCursor_def cursorOf_def)
  have "Option.bind (base64Decode urlAlphabet (base64Encode urlAlphabet ?text)) parseJSON = Some (cursorJSON ?c)"
    using assms cursorJSON_ok by (intro cursor_text.chain.dec_enc) simp
  then have "parseJSON ?text = Some (cursorJSON ?c)" by (simp add: url64.dec_enc)
  then have "unmarshalCursor ?text = Some ?c"
    using cursor_fields_decode[OF assms(2)] by (simp add: unmarshalCursor_def cursorJSON_def)
  moreover have "?text \<noteq> []" by (simp add: cursorJSON_def)
  ultimately have "DecodeCursor (EncodeCursor lastKey indexName sortDirection) = Inr (Some ?c)"
    using enc base64_nonempty by (simp add: DecodeCursor_def url64.dec_enc)
  moreover have "\<forall>p \<in> set lastKey. jsonToAttributeValue (attributeValueToJSON (snd p)) = Inr (snd p)"
    using assms(2) av_json_roundtrip by (auto simp: itemOk_def list_all_iff)
  then have "ToAttributeValues (Some ?c) = Inr lastKey"
    using assms(1) mapVals_total by (simp add: ToAttributeValues_def cursorOf_def)
  ultimately show ?thesis by (auto simp: cursorOf_def)
qed

theorem cursor_roundtrip_witness:
  "\<exists>c. DecodeCursor (EncodeCursor [(''pk'', AVS ''u#1''), (''sk'', AVL [AVN ''7'', AVB ''x''])] ''gsi1'' ''DESC'') = Inr (Some c)
     \<and> ToAttributeValues (Some c) = Inr [(''pk'', AVS ''u#1''), (''sk'', AVL [AVN ''7'', AVB ''x''])] \<and> IndexName c = ''gsi1'' \<and> SortDirection c = ''DESC''"
proof (rule cursor_roundtrip)
  show "itemOk [(''pk'', AVS ''u#1''), (''sk'', AVL [AVN ''7'', AVB ''x''])]"
    by (simp add: itemOk_def ascii_valid list_le_def)
  show "jdepth (cursorJSON (cursorOf [(''pk'', AVS ''u#1''), (''sk'', AVL [AVN ''7'', AVB ''x''])] ''gsi1'' ''DESC'')) \<le> maxNestingDepth"
    by (simp add: cursorJSON_def cursorOf_def mapJSON_sorted maxNestingDepth_def list_le_def mapJSON_def)
qed (simp_all add: ascii_valid)

end
