(* ===== verification/Envelope.thy ===== *)
theory Envelope
  imports Cursor Registry
begin

text \<open>
  \<open>internal/encryption/service.go\<close>, \<open>attribute_value_json.go\<close> and \<open>tag.go\<close>: envelope encryption of attribute values.  A value is
  written as tagged JSON (the Go struct \<open>avJSON\<close>, printed field by field with \<open>omitempty\<close>), sealed with AES-GCM
  under a fresh KMS data key with the attribute name as associated data, and stored as a map of version, encrypted
  data key, nonce and ciphertext.  KMS, AES-GCM and the random source are parameters; what the code relies on is stated by
  the predicates \<open>kmsLaw\<close>, \<open>gcmLaw\<close> and \<open>randLaw\<close>.  The \<open>i\<close>-th call to a service may return another key and another nonce, so
  these parameters take the call's number.
\<close>

section \<open>Attribute values as tagged JSON\<close>

datatype avJSON = AvJSON
  (avType: string) (avS: "string option") (avN: "string option") (avB: "string option") (avBOOL: "bool option")
  (avL: "avJSON list") (avM: "(string \<times> avJSON) list") (avSS: "string list") (avNS: "string list") (avBS: "string list")
  (avNULL: bool)

definition zeroAv :: avJSON where
  "zeroAv = AvJSON [] None None None None [] [] [] [] [] False"

fun marshalAVJSON :: "attrval \<Rightarrow> avJSON" where
  "marshalAVJSON (AVS s) = AvJSON ''S'' (Some s) None None None [] [] [] [] [] False"
| "marshalAVJSON (AVN n) = AvJSON ''N'' None (Some n) None None [] [] [] [] [] False"
| "marshalAVJSON (AVB b) = AvJSON ''B'' None None (Some (base64Encode stdAlphabet b)) None [] [] [] [] [] False"
| "marshalAVJSON (AVBOOL b) = AvJSON ''BOOL'' None None None (Some b) [] [] [] [] [] False"
| "marshalAVJSON (AVNULL _) = AvJSON ''NULL'' None None None None [] [] [] [] [] True"
| "marshalAVJSON (AVL l) = AvJSON ''L'' None None None None (map marshalAVJSON l) [] [] [] [] False"
| "marshalAVJSON (AVM m) = AvJSON ''M'' None None None None [] (map (\<lambda>p. (fst p, marshalAVJSON (snd p))) m) [] [] [] False"
| "marshalAVJSON (AVSS ss) = AvJSON ''SS'' None None None None [] [] ss [] [] False"
| "marshalAVJSON (AVNS ns) = AvJSON ''NS'' None None None None [] [] [] ns [] False"
| "marshalAVJSON (AVBS bs) = AvJSON ''BS'' None None None None [] [] [] [] (map (base64Encode stdAlphabet) bs) False"

text \<open>\<open>json.Marshal\<close> of the struct: fields in order, empty ones left out.\<close>

definition omitNil :: "string \<Rightarrow> json option \<Rightarrow> (string \<times> json) list" where
  "omitNil k v = (case v of None \<Rightarrow> [] | Some j \<Rightarrow> [(k, j)])"

definition omitEmptyList :: "string \<Rightarrow> json list \<Rightarrow> (string \<times> json) list" where
  "omitEmptyList k l = (if l = [] then [] else [(k, JList l)])"

definition omitEmptyMap :: "string \<Rightarrow> (string \<times> json) list \<Rightarrow> (string \<times> json) list" where
  "omitEmptyMap k m = (if m = [] then [] else [(k, mapJSON m)])"

fun avStructJSON :: "avJSON \<Rightarrow> json" where
  "avStructJSON (AvJSON t s n b bo l m ss ns bs nu) = JObj (
     [(''t'', JStr t)] @ omitNil ''s'' (map_option JStr s) @ omitNil ''n'' (map_option JStr n) @ omitNil ''b'' (map_option JStr b)
     @ omitNil ''bool'' (map_option JBool bo)
     @ omitEmptyList ''l'' (map avStructJSON l)
     @ omitEmptyMap ''m'' (map (\<lambda>p. (fst p, avStructJSON (snd p))) m)
     @ omitEmptyList ''ss'' (map JStr ss) @ omitEmptyList ''ns'' (map JStr ns) @ omitEmptyList ''bs'' (map JStr bs)
     @ (if nu then [(''null'', JBool True)] else []))"

section \<open>Decoding\<close>

definition typeError :: "(string, 'a) result" where
  "typeError = Inl ''json: cannot unmarshal''"

definition intoString :: "json \<Rightarrow> string \<Rightarrow> (string, string) result" where
  "intoString j old = (case j of JStr s \<Rightarrow> Inr s | JNull \<Rightarrow> Inr old | _ \<Rightarrow> typeError)"

definition intoStringPtr :: "json \<Rightarrow> (string, string option) result" where
  "intoStringPtr j = (case j of JStr s \<Rightarrow> Inr (Some s) | JNull \<Rightarrow> Inr None | _ \<Rightarrow> typeError)"

definition intoStrings :: "json \<Rightarrow> (string, string list) result" where
  "intoStrings j = (case j of JList l \<Rightarrow> mapE (\<lambda>x. intoString x []) l | JNull \<Rightarrow> Inr [] | _ \<Rightarrow> typeError)"

definition intoBoolPtr :: "json \<Rightarrow> (string, bool option) result" where
  "intoBoolPtr j = (case j of JBool b \<Rightarrow> Inr (Some b) | JNull \<Rightarrow> Inr None | _ \<Rightarrow> typeError)"

definition intoBool :: "json \<Rightarrow> bool \<Rightarrow> (string, bool) result" where
  "intoBool j old = (case j of JBool b \<Rightarrow> Inr b | JNull \<Rightarrow> Inr old | _ \<Rightarrow> typeError)"

text \<open>One member of an object into the struct; \<open>dec\<close> decodes a nested struct.  Names match up to case folding, others
  are skipped; a map is merged into the one that is there.\<close>

definition setAvField :: "(json \<Rightarrow> (string, avJSON) result) \<Rightarrow> string \<times> json \<Rightarrow> avJSON \<Rightarrow> (string, avJSON) result" where
  "setAvField dec p a = (case a of AvJSON t s n b bo l m ss ns bs nu \<Rightarrow>
     (let k = foldCase (fst p); v = snd p in
      if k = ''t'' then bindE (intoString v t) (\<lambda>x. Inr (AvJSON x s n b bo l m ss ns bs nu))
      else if k = ''s'' then bindE (intoStringPtr v) (\<lambda>x. Inr (AvJSON t x n b bo l m ss ns bs nu))
      else if k = ''n'' then bindE (intoStringPtr v) (\<lambda>x. Inr (AvJSON t s x b bo l m ss ns bs nu))
      else if k = ''b'' then bindE (intoStringPtr v) (\<lambda>x. Inr (AvJSON t s n x bo l m ss ns bs nu))
      else if k = ''bool'' then bindE (intoBoolPtr v) (\<lambda>x. Inr (AvJSON t s n b x l m ss ns bs nu))
      else if k = ''l'' then
        (case v of JList xs \<Rightarrow> bindE (mapE dec xs) (\<lambda>x. Inr (AvJSON t s n b bo x m ss ns bs nu))
         | JNull \<Rightarrow> Inr (AvJSON t s n b bo [] m ss ns bs nu) | _ \<Rightarrow> typeError)
      else if k = ''m'' then
        (case v of JObj ms \<Rightarrow> bindE (mapVals dec ms) (\<lambda>x. Inr (AvJSON t s n b bo l (goMap m x) ss ns bs nu))
         | JNull \<Rightarrow> Inr (AvJSON t s n b bo l [] ss ns bs nu) | _ \<Rightarrow> typeError)
      else if k = ''ss'' then bindE (intoStrings v) (\<lambda>x. Inr (AvJSON t s n b bo l m x ns bs nu))
      else if k = ''ns'' then bindE (intoStrings v) (\<lambda>x. Inr (AvJSON t s n b bo l m ss x bs nu))
      else if k = ''bs'' then bindE (intoStrings v) (\<lambda>x. Inr (AvJSON t s n b bo l m ss ns x nu))
      else if k = ''null'' then bindE (intoBool v nu) (\<lambda>x. Inr (AvJSON t s n b bo l m ss ns bs x))
      else Inr a))"

lemma size_member_less [termination_simp]: "x \<in> set ms \<Longrightarrow> size (snd x) < size (JObj ms)"
proof (induction ms)
  case (Cons m ms)
  then show ?case by (cases m) auto
qed simp

lemma setAvField_cong [fundef_cong]:
  assumes "p = p'" "a = a'" "\<And>j. size j < size (snd p') \<Longrightarrow> f j = g j"
  shows "setAvField f p a = setAvField g p' a'"
proof -
  have "mapE f xs = mapE g xs" if "snd p' = JList xs" for xs
    using that assms(3) by (intro mapE_cong) (auto simp: size_list_mem_less)
  moreover have "mapVals f ms = mapVals g ms" if "snd p' = JObj ms" for ms
    using that assms(3) size_member_less by (intro mapVals_cong) auto
  ultimately show ?thesis unfolding assms(1,2) setAvField_def
    by (simp split: avJSON.split json.split add: Let_def)
qed

fun decodeAvJSON :: "json \<Rightarrow> (string, avJSON) result" where
  "decodeAvJSON (JObj ms) = foldE (\<lambda>p a. setAvField (\<lambda>j. decodeAvJSON j) p a) ms zeroAv"
| "decodeAvJSON JNull = Inr zeroAv"
| "decodeAvJSON j = typeError"

fun unmarshalAVJSON :: "avJSON \<Rightarrow> (string, attrval) result" where
  "unmarshalAVJSON (AvJSON t s n b bo l m ss ns bs nu) =
     (if t = ''S'' then Inr (AVS (case s of None \<Rightarrow> [] | Some x \<Rightarrow> x))
      else if t = ''N'' then Inr (AVN (case n of None \<Rightarrow> ''0'' | Some x \<Rightarrow> x))
      else if t = ''B'' then (case b of None \<Rightarrow> Inr (AVB []) | Some x \<Rightarrow> bindE (decodeBinary x) (\<lambda>d. Inr (AVB d)))
      else if t = ''BOOL'' then Inr (AVBOOL (case bo of None \<Rightarrow> False | Some x \<Rightarrow> x))
      else if t = ''NULL'' then Inr (AVNULL True)
      else if t = ''L'' then (case mapE (\<lambda>x. unmarshalAVJSON x) l of Inl e \<Rightarrow> Inl e | Inr x \<Rightarrow> Inr (AVL x))
      else if t = ''M'' then (case mapVals (\<lambda>x. unmarshalAVJSON x) m of Inl e \<Rightarrow> Inl e | Inr x \<Rightarrow> Inr (AVM x))
      else if t = ''SS'' then Inr (AVSS ss)
      else if t = ''NS'' then Inr (AVNS ns)
      else if t = ''BS'' then bindE (mapE (\<lambda>x. mapErr (\<lambda>_. ''failed to decode binary set'') (decodeBinary x)) bs) (\<lambda>x. Inr (AVBS x))
      else Inl ''unsupported encoded attribute value type'')"

definition encodeAttributeValue :: "attrval \<Rightarrow> string" where
  "encodeAttributeValue av = printJSON (avStructJSON (marshalAVJSON av))"

definition decodeAttributeValue :: "string \<Rightarrow> (string, attrval) result" where
  "decodeAttributeValue data =
     (case parseJSON data of
        None \<Rightarrow> Inl ''failed to decode attribute value''
      | Some j \<Rightarrow> (case decodeAvJSON j of Inl e \<Rightarrow> Inl ''failed to decode attribute value'' | Inr enc \<Rightarrow> unmarshalAVJSON enc))"

section \<open>The service\<close>

datatype encerror = EncError string | ErrInvalidEncryptedEnvelope string | EncPanic string

record kmsClient =
  GenerateDataKey :: "nat \<Rightarrow> string \<Rightarrow> (string, string \<times> string) result"  \<comment> \<open>plaintext key and its encrypted form\<close>
  KMSDecrypt :: "string \<Rightarrow> string \<Rightarrow> (string, string) result"

record aead =
  Seal :: "string \<Rightarrow> string \<Rightarrow> string \<Rightarrow> string \<Rightarrow> string"  \<comment> \<open>key, nonce, plaintext, associated data\<close>
  Open :: "string \<Rightarrow> string \<Rightarrow> string \<Rightarrow> string \<Rightarrow> string option"

record Service =
  svcKms :: "kmsClient option"
  svcRand :: "nat \<Rightarrow> nat \<Rightarrow> (string, string) result"  \<comment> \<open>\<open>io.ReadFull\<close> of so many bytes\<close>
  svcGcm :: aead
  keyARN :: string

definition gcmNonceSize :: nat where "gcmNonceSize = 12"

definition validateDecryptInputs :: "Service option \<Rightarrow> string \<Rightarrow> (encerror, Service \<times> kmsClient) result" where
  "validateDecryptInputs s attributeName =
     (case s of None \<Rightarrow> Inl (EncError ''encryption service is nil'')
      | Some svc \<Rightarrow> (case svcKms svc of None \<Rightarrow> Inl (EncError ''kms client is nil'')
          | Some kms \<Rightarrow>
             (if keyARN svc = [] then Inl (EncError ''kms key ARN is empty'')
              else if attributeName = [] then Inl (EncError ''attribute name is empty'')
              else Inr (svc, kms))))"

definition aadForAttribute :: "string \<Rightarrow> string" where
  "aadForAttribute attributeName = ''theorydb:encrypted:v1|attr='' @ attributeName"

definition newGCM :: "string \<Rightarrow> (encerror, unit) result" where
  "newGCM key = (if length key \<in> {16, 24, 32} then Inr () else Inl (EncError ''aes cipher init failed''))"

definition EncryptAttributeValue :: "nat \<Rightarrow> Service option \<Rightarrow> string \<Rightarrow> attrval \<Rightarrow> (encerror, attrval) result" where
  "EncryptAttributeValue i s attributeName av =
     bindE (validateDecryptInputs s attributeName) (\<lambda>(svc, kms).
       let plaintext = encodeAttributeValue av in
       case GenerateDataKey kms i (keyARN svc) of
         Inl e \<Rightarrow> Inl (EncError ''kms GenerateDataKey failed'')
       | Inr (key, edk) \<Rightarrow>
          (if length key \<noteq> 32 then Inl (EncError ''unexpected data key plaintext length'')
           else if edk = [] then Inl (EncError ''kms returned empty ciphertext data key'')
           else bindE (newGCM key) (\<lambda>_.
             case svcRand svc i gcmNonceSize of
               Inl e \<Rightarrow> Inl (EncError ''nonce generation failed'')
             | Inr nonce \<Rightarrow>
                Inr (AVM [(''v'', AVN ''1''), (''edk'', AVB edk), (''nonce'', AVB nonce),
                          (''ct'', AVB (Seal (svcGcm svc) key nonce plaintext (aadForAttribute attributeName)))]))))"

definition validateEncryptedEnvelopeVersion :: "item \<Rightarrow> (encerror, unit) result" where
  "validateEncryptedEnvelopeVersion values =
     (case map_of values ''v'' of
        Some (AVN n) \<Rightarrow> (if n = ''1'' then Inr () else Inl (ErrInvalidEncryptedEnvelope ''unsupported encrypted envelope version''))
      | _ \<Rightarrow> Inl (ErrInvalidEncryptedEnvelope ''unsupported encrypted envelope version''))"

text \<open>The parts are the encrypted data key, the nonce and the ciphertext.\<close>

definition parseEncryptedEnvelope :: "attrval \<Rightarrow> (encerror, string \<times> string \<times> string) result" where
  "parseEncryptedEnvelope envelope =
     (case envelope of
        AVM values \<Rightarrow>
          bindE (validateEncryptedEnvelopeVersion values) (\<lambda>_.
            case map_of values ''edk'' of
              Some (AVB edk) \<Rightarrow>
                (if edk = [] then Inl (ErrInvalidEncryptedEnvelope ''missing encrypted data key'')
                 else case map_of values ''nonce'' of
                   Some (AVB nonce) \<Rightarrow>
                     (if nonce = [] then Inl (ErrInvalidEncryptedEnvelope ''missing nonce'')
                      else case map_of values ''ct'' of
                        Some (AVB ct) \<Rightarrow> Inr (edk, nonce, ct)
                      | _ \<Rightarrow> Inl (ErrInvalidEncryptedEnvelope ''missing ciphertext''))
                 | _ \<Rightarrow> Inl (ErrInvalidEncryptedEnvelope ''missing nonce''))
            | _ \<Rightarrow> Inl (ErrInvalidEncryptedEnvelope ''missing encrypted data key''))
      | _ \<Rightarrow> Inl (ErrInvalidEncryptedEnvelope ''expected encrypted envelope map''))"

definition decryptDataKey :: "kmsClient \<Rightarrow> string \<Rightarrow> string \<Rightarrow> (encerror, string) result" where
  "decryptDataKey kms arn edk =
     (case KMSDecrypt kms arn edk of
        Inl e \<Rightarrow> Inl (EncError ''kms Decrypt failed'')
      | Inr key \<Rightarrow> (if length key \<noteq> 32 then Inl (EncError ''unexpected data key plaintext length'') else Inr key))"

text \<open>\<open>gcm.Open\<close> panics on a nonce that is not 12 bytes long.\<close>

definition gcmOpen :: "aead \<Rightarrow> string \<Rightarrow> string \<Rightarrow> string \<Rightarrow> string \<Rightarrow> (encerror, string) result" where
  "gcmOpen g key nonce ct aad =
     (if length nonce \<noteq> gcmNonceSize then Inl (EncPanic ''incorrect nonce length given to GCM'')
      else case Open g key nonce ct aad of None \<Rightarrow> Inl (EncError ''aes-gcm decrypt failed'') | Some p \<Rightarrow> Inr p)"

definition DecryptAttributeValue :: "Service option \<Rightarrow> string \<Rightarrow> attrval \<Rightarrow> (encerror, attrval) result" where
  "DecryptAttributeValue s attributeName envelope =
     bindE (validateDecryptInputs s attributeName) (\<lambda>(svc, kms).
     bindE (parseEncryptedEnvelope envelope) (\<lambda>(edk, nonce, ct).
     bindE (decryptDataKey kms (keyARN svc) edk) (\<lambda>dataKey.
     bindE (newGCM dataKey) (\<lambda>_.
     bindE (gcmOpen (svcGcm svc) dataKey nonce ct (aadForAttribute attributeName)) (\<lambda>plaintext.
     mapErr EncError (decodeAttributeValue plaintext))))))"

section \<open>Models with encrypted fields\<close>

definition isEncryptedField :: "FieldMetadata \<Rightarrow> bool" where
  "isEncryptedField fm = (IsEncrypted fm \<or> map_of (Tags fm) ''encrypted'' \<noteq> None)"

definition MetadataHasEncryptedFields :: "Metadata option \<Rightarrow> bool" where
  "MetadataHasEncryptedFields metadata =
     (case metadata of None \<Rightarrow> False | Some md \<Rightarrow> list_ex (\<lambda>p. isEncryptedField (snd p)) (Fields md))"

text \<open>The argument for the session is its configured key, \<open>None\<close> for a nil session or configuration.\<close>

definition FailClosedIfEncryptedWithoutKMSKeyARN :: "string option \<Rightarrow> Metadata option \<Rightarrow> (encerror, unit) result" where
  "FailClosedIfEncryptedWithoutKMSKeyARN sess metadata =
     (if metadata = None \<or> \<not> MetadataHasEncryptedFields metadata then Inr ()
      else let keyARN = (case sess of None \<Rightarrow> [] | Some k \<Rightarrow> k) in
      if keyARN \<noteq> [] then Inr () else Inl (EncError ''encryption not configured''))"

section \<open>Encoding round trip\<close>

lemma foldCase_names:
  "foldCase ''t'' = ''t''" "foldCase ''s'' = ''s''" "foldCase ''n'' = ''n''" "foldCase ''b'' = ''b''" "foldCase ''bool'' = ''bool''"
  "foldCase ''l'' = ''l''" "foldCase ''m'' = ''m''" "foldCase ''ss'' = ''ss''" "foldCase ''ns'' = ''ns''" "foldCase ''bs'' = ''bs''"
  "foldCase ''null'' = ''null''"
  by code_simp+

lemmas av_decode = Let_def setAvField_def zeroAv_def omitNil_def omitEmptyList_def omitEmptyMap_def foldCase_names
  intoString_def intoStringPtr_def intoBool_def intoBoolPtr_def

lemma intoStrings_map: "intoStrings (JList (map JStr ss)) = Inr ss"
proof -
  have "mapE (\<lambda>x. intoString x []) (map JStr ss) = Inr ss" by (induction ss) (auto simp: intoString_def)
  then show ?thesis by (simp add: intoStrings_def)
qed

lemma mapVals_ok:
  "\<forall>p \<in> set m. f (h (snd p)) = Inr (g (snd p)) \<Longrightarrow> mapVals f (map (\<lambda>p. (fst p, h (snd p))) m) = Inr (map (\<lambda>p. (fst p, g (snd p))) m)"
  by (induction m) auto

lemma av_struct_roundtrip: "avOk av \<Longrightarrow> decodeAvJSON (avStructJSON (marshalAVJSON av)) = Inr (marshalAVJSON av)"
proof (induction av)
  case (AVL l)
  then have "mapE (\<lambda>x. decodeAvJSON x) (map (\<lambda>x. avStructJSON (marshalAVJSON x)) l) = Inr (map marshalAVJSON l)"
    by (induction l) auto
  then show ?case by (simp add: av_decode comp_def del: foldCase.simps)
next
  case (AVM m)
  have "\<forall>p \<in> set m. decodeAvJSON (avStructJSON (marshalAVJSON (snd p))) = Inr (marshalAVJSON (snd p))"
    using AVM by (fastforce simp: list_all_iff)
  then have "mapVals (\<lambda>x. decodeAvJSON x) (map (\<lambda>p. (fst p, avStructJSON (marshalAVJSON (snd p)))) m) = Inr (map (\<lambda>p. (fst p, marshalAVJSON (snd p))) m)"
    by (rule mapVals_ok)
  moreover have "mapJSON (map (\<lambda>p. (fst p, avStructJSON (marshalAVJSON (snd p)))) m) = JObj (map (\<lambda>p. (fst p, avStructJSON (marshalAVJSON (snd p)))) m)"
    using AVM.prems by (intro mapJSON_sorted[where h = "\<lambda>x. avStructJSON (marshalAVJSON x)"]) simp
  moreover have "goMap [] (map (\<lambda>p. (fst p, marshalAVJSON (snd p))) m) = map (\<lambda>p. (fst p, marshalAVJSON (snd p))) m"
    using AVM.prems by (subst goMap_distinct) (simp_all add: comp_def)
  ultimately show ?case by (simp add: av_decode comp_def del: foldCase.simps)
qed (simp_all add: av_decode intoStrings_map intoStrings_map[of "map _ _", simplified] del: foldCase.simps)

lemma av_unmarshal_roundtrip: "avOk av \<Longrightarrow> unmarshalAVJSON (marshalAVJSON av) = Inr av"
proof (induction av)
  case (AVL l)
  then have "mapE (\<lambda>x. unmarshalAVJSON x) (map marshalAVJSON l) = Inr l"
    by (intro mapE_inverse) (simp add: list_all_iff)
  then show ?case by simp
next
  case (AVM m)
  have "\<forall>p \<in> set m. unmarshalAVJSON (marshalAVJSON (snd p)) = Inr (snd p)"
    using AVM by (fastforce simp: list_all_iff)
  then have "mapVals (\<lambda>x. unmarshalAVJSON x) (map (\<lambda>p. (fst p, marshalAVJSON (snd p))) m) = Inr m"
    by (rule mapVals_total)
  then show ?case by simp
next
  case (AVBS bs)
  have "mapE (\<lambda>x. mapErr (\<lambda>_. ''failed to decode binary set'') (decodeBinary x)) (map (base64Encode stdAlphabet) bs) = Inr bs"
    by (rule mapE_inverse) simp
  then show ?case by simp
qed simp_all

lemma av_struct_jsonOk: "avOk av \<Longrightarrow> jsonOk (avStructJSON (marshalAVJSON av))"
proof (induction av)
  case (AVM m)
  have "\<forall>p \<in> set m. validUTF8 (fst p) \<and> jsonOk (avStructJSON (marshalAVJSON (snd p)))"
    using AVM by (fastforce simp: list_all_iff)
  moreover have "mapJSON (map (\<lambda>p. (fst p, avStructJSON (marshalAVJSON (snd p)))) m) = JObj (map (\<lambda>p. (fst p, avStructJSON (marshalAVJSON (snd p)))) m)"
    using AVM.prems by (intro mapJSON_sorted[where h = "\<lambda>x. avStructJSON (marshalAVJSON x)"]) simp
  ultimately show ?case by (simp add: omitNil_def omitEmptyList_def omitEmptyMap_def list_all_iff ascii_valid comp_def)
qed (auto simp: omitNil_def omitEmptyList_def omitEmptyMap_def list_all_iff ascii_valid base64_valid)

text \<open>Values the text of which can be parsed back.\<close>

definition encodable :: "attrval \<Rightarrow> bool" where
  "encodable av = (avOk av \<and> jdepth (avStructJSON (marshalAVJSON av)) \<le> maxNestingDepth)"

lemma decode_encode: "encodable av \<Longrightarrow> decodeAttributeValue (encodeAttributeValue av) = Inr av"
  by (simp add: encodable_def decodeAttributeValue_def encodeAttributeValue_def parse_print av_struct_jsonOk
      av_struct_roundtrip av_unmarshal_roundtrip)

interpretation av_text: codec encodeAttributeValue "\<lambda>t. case decodeAttributeValue t of Inr av \<Rightarrow> Some av | Inl _ \<Rightarrow> None" encodable
  by unfold_locales (simp add: decode_encode)

section \<open>Encryption round trip\<close>

text \<open>What the code relies on: \<open>Decrypt\<close> under the same key gives back the data key of \<open>GenerateDataKey\<close>,
  \<open>io.ReadFull\<close> fills the buffer, and \<open>Open\<close> accepts exactly what \<open>Seal\<close> produced under the same key, nonce and data.\<close>

definition kmsLaw :: "kmsClient \<Rightarrow> bool" where
  "kmsLaw kms = (\<forall>i arn key edk. GenerateDataKey kms i arn = Inr (key, edk) \<longrightarrow> KMSDecrypt kms arn edk = Inr key)"

definition randLaw :: "Service \<Rightarrow> bool" where
  "randLaw svc = (\<forall>i n b. svcRand svc i n = Inr b \<longrightarrow> length b = n)"

definition gcmLaw :: "aead \<Rightarrow> bool" where
  "gcmLaw g = (\<forall>key nonce ct aad p. Open g key nonce ct aad = Some p \<longleftrightarrow> ct = Seal g key nonce p aad)"

lemma EncryptAttributeValue_Inr:
  assumes "EncryptAttributeValue i (Some svc) attr av = Inr env" "randLaw svc"
  shows "\<exists>kms key edk nonce. svcKms svc = Some kms \<and> keyARN svc \<noteq> [] \<and> attr \<noteq> []
     \<and> GenerateDataKey kms i (keyARN svc) = Inr (key, edk) \<and> length key = 32 \<and> edk \<noteq> [] \<and> length nonce = gcmNonceSize
     \<and> env = AVM [(''v'', AVN ''1''), (''edk'', AVB edk), (''nonce'', AVB nonce),
                  (''ct'', AVB (Seal (svcGcm svc) key nonce (encodeAttributeValue av) (aadForAttribute attr)))]"
  using assms
  by (auto simp: EncryptAttributeValue_def validateDecryptInputs_def bindE_eq_Inr Let_def randLaw_def
      split: option.splits if_splits sum.splits)

lemma opens_sealed:
  assumes "EncryptAttributeValue i (Some svc) attr av = Inr env" "encodable av"
    and "svcKms svc = Some kms" "kmsLaw kms" "randLaw svc" "gcmLaw (svcGcm svc)"
  shows "DecryptAttributeValue (Some svc) attr env = Inr av"
proof -
  obtain key edk nonce where e: "keyARN svc \<noteq> []" "attr \<noteq> []"
    "GenerateDataKey kms i (keyARN svc) = Inr (key, edk)" "length key = 32" "edk \<noteq> []" "length nonce = gcmNonceSize"
    "env = AVM [(''v'', AVN ''1''), (''edk'', AVB edk), (''nonce'', AVB nonce),
        (''ct'', AVB (Seal (svcGcm svc) key nonce (encodeAttributeValue av) (aadForAttribute attr)))]"
    using EncryptAttributeValue_Inr[OF assms(1,5)] assms(3) by auto
  have "KMSDecrypt kms (keyARN svc) edk = Inr key" using assms(4) e(3) by (auto simp: kmsLaw_def)
  moreover have "Open (svcGcm svc) key nonce (Seal (svcGcm svc) key nonce p a) a = Some p" for p a
    using assms(6) by (auto simp: gcmLaw_def)
  moreover have "nonce \<noteq> []" using e(6) by (auto simp: gcmNonceSize_def)
  ultimately show ?thesis using e assms(2,3)
    by (simp add: DecryptAttributeValue_def validateDecryptInputs_def parseEncryptedEnvelope_def
        validateEncryptedEnvelopeVersion_def decryptDataKey_def newGCM_def gcmOpen_def decode_encode)
qed

text \<open>C15. What \<open>EncryptAttributeValue\<close> stores, \<open>DecryptAttributeValue\<close> reads back: for every attribute value (nested lists and
  maps, sets and binary values included) and every attribute name.\<close>

theorem decrypt_encrypt:
  assumes "EncryptAttributeValue i (Some svc) attr av = Inr env" "encodable av"
    and "svcKms svc = Some kms" "kmsLaw kms" "randLaw svc" "gcmLaw (svcGcm svc)"
  shows "DecryptAttributeValue (Some svc) attr env = Inr av"
  by (rule opens_sealed[OF assms])

text \<open>A toy cipher and key service that satisfy the laws.\<close>

definition toyService :: Service where
  "toyService = \<lparr> svcKms = Some \<lparr> GenerateDataKey = (\<lambda>i arn. Inr (replicate 32 (CHR ''k''), ''edk'')),
                                  KMSDecrypt = (\<lambda>arn edk. Inr (replicate 32 (CHR ''k''))) \<rparr>,
     svcRand = (\<lambda>i n. Inr (replicate n (CHR ''n''))),
     svcGcm = \<lparr> Seal = (\<lambda>key nonce p aad. aad @ p),
                Open = (\<lambda>key nonce ct aad. if prefix aad ct then Some (drop (length aad) ct) else None) \<rparr>,
     keyARN = ''arn'' \<rparr>"

lemma toy_laws: "kmsLaw (the (svcKms toyService))" "randLaw toyService" "gcmLaw (svcGcm toyService)"
  by (auto simp: kmsLaw_def randLaw_def gcmLaw_def toyService_def prefix_def)

theorem decrypt_encrypt_witness:
  "DecryptAttributeValue (Some toyService) ''ssn'' (projr (EncryptAttributeValue 0 (Some toyService) ''ssn'' (AVL [AVS ''x'', AVB ''y'']))) = Inr (AVL [AVS ''x'', AVB ''y''])"
proof (rule decrypt_encrypt[where i = 0 and kms = "the (svcKms toyService)"])
  show "EncryptAttributeValue 0 (Some toyService) ''ssn'' (AVL [AVS ''x'', AVB ''y'']) =
      Inr (projr (EncryptAttributeValue 0 (Some toyService) ''ssn'' (AVL [AVS ''x'', AVB ''y''])))"
    by (simp add: EncryptAttributeValue_def validateDecryptInputs_def toyService_def newGCM_def Let_def)
  show "encodable (AVL [AVS ''x'', AVB ''y''])"
    by (simp add: encodable_def ascii_valid omitNil_def omitEmptyList_def omitEmptyMap_def maxNestingDepth_def)
qed (simp_all add: toy_laws, simp add: toyService_def)

text \<open>C16. A value is only ever returned for an authentic envelope: when \<open>DecryptAttributeValue\<close> succeeds, the envelope has version 1, and
  its ciphertext is the seal, under the data key that KMS decrypts and with the associated data of this attribute's
  name, of a text that decodes to the value.  Associated data of different attributes differ.\<close>

theorem decrypt_authentic:
  assumes "DecryptAttributeValue (Some svc) attr (AVM m) = Inr av" "gcmLaw (svcGcm svc)"
  shows "\<exists>kms edk nonce key pt. svcKms svc = Some kms \<and> map_of m ''v'' = Some (AVN ''1'')
     \<and> map_of m ''edk'' = Some (AVB edk) \<and> map_of m ''nonce'' = Some (AVB nonce) \<and> length nonce = gcmNonceSize
     \<and> KMSDecrypt kms (keyARN svc) edk = Inr key \<and> length key = 32
     \<and> map_of m ''ct'' = Some (AVB (Seal (svcGcm svc) key nonce pt (aadForAttribute attr)))
     \<and> decodeAttributeValue pt = Inr av \<and> (\<forall>b. aadForAttribute b = aadForAttribute attr \<longleftrightarrow> b = attr)"
proof -
  obtain kms edk nonce ct key pt where p: "svcKms svc = Some kms" "parseEncryptedEnvelope (AVM m) = Inr (edk, nonce, ct)"
    "decryptDataKey kms (keyARN svc) edk = Inr key" "gcmOpen (svcGcm svc) key nonce ct (aadForAttribute attr) = Inr pt"
    "decodeAttributeValue pt = Inr av"
    using assms(1) by (auto simp: DecryptAttributeValue_def bindE_eq_Inr validateDecryptInputs_def split: option.splits if_splits)
  have v: "map_of m ''v'' = Some (AVN ''1'')"
    using p(2) by (auto simp: parseEncryptedEnvelope_def validateEncryptedEnvelopeVersion_def bindE_eq_Inr
        split: option.splits attrval.splits if_splits)
  have "map_of m ''edk'' = Some (AVB edk) \<and> map_of m ''nonce'' = Some (AVB nonce) \<and> map_of m ''ct'' = Some (AVB ct)"
    using p(2) by (auto simp: parseEncryptedEnvelope_def bindE_eq_Inr split: option.splits attrval.splits if_splits)
  moreover have "KMSDecrypt kms (keyARN svc) edk = Inr key \<and> length key = 32"
    using p(3) by (auto simp: decryptDataKey_def split: sum.splits if_splits)
  moreover have "length nonce = gcmNonceSize \<and> ct = Seal (svcGcm svc) key nonce pt (aadForAttribute attr)"
    using p(4) assms(2) by (auto simp: gcmOpen_def gcmLaw_def split: if_splits option.splits)
  ultimately show ?thesis using p(1,5) v by (auto simp: aadForAttribute_def)
qed

theorem decrypt_authentic_witness:
  "map_of [(''v'', AVN ''1''), (''edk'', AVB ''edk''), (''nonce'', AVB ''nnnnnnnnnnnn''), (''ct'', AVB (aadForAttribute ''ssn'' @ encodeAttributeValue (AVS ''x'')))] ''v'' = Some (AVN ''1'')"
proof -
  let ?m = "[(''v'', AVN ''1''), (''edk'', AVB ''edk''), (''nonce'', AVB ''nnnnnnnnnnnn''), (''ct'', AVB (aadForAttribute ''ssn'' @ encodeAttributeValue (AVS ''x'')))]"
  have "encodable (AVS ''x'')" by (simp add: encodable_def ascii_valid omitNil_def omitEmptyList_def omitEmptyMap_def maxNestingDepth_def)
  then have "DecryptAttributeValue (Some toyService) ''ssn'' (AVM ?m) = Inr (AVS ''x'')"
    using decode_encode[of "AVS ''x''"]
    by (simp add: DecryptAttributeValue_def validateDecryptInputs_def parseEncryptedEnvelope_def toyService_def
        validateEncryptedEnvelopeVersion_def decryptDataKey_def newGCM_def gcmOpen_def gcmNonceSize_def)
  from decrypt_authentic[OF this toy_laws(3)] show ?thesis by blast
qed

text \<open>A stored envelope with a nonce of the wrong length is not rejected: decrypting it panics.\<close>

lemma decrypt_short_nonce_panics:
  assumes "svcKms svc = Some kms" "keyARN svc \<noteq> []" "attr \<noteq> []" "KMSDecrypt kms (keyARN svc) ''e'' = Inr (replicate 32 (CHR ''k''))"
  shows "DecryptAttributeValue (Some svc) attr (AVM [(''v'', AVN ''1''), (''edk'', AVB ''e''), (''nonce'', AVB ''n''), (''ct'', AVB ct)])
    = Inl (EncPanic ''incorrect nonce length given to GCM'')"
  using assms by (simp add: DecryptAttributeValue_def validateDecryptInputs_def parseEncryptedEnvelope_def
        validateEncryptedEnvelopeVersion_def decryptDataKey_def newGCM_def gcmOpen_def gcmNonceSize_def)

end
