(* ===== verification/EncryptUpdate.thy ===== *)
theory EncryptUpdate
  imports Envelope
begin

text \<open>
  \<open>internal/encryption/update_expression.go\<close>: before an update is sent, the values it assigns to encrypted fields are
  replaced by their envelopes.  The expression text is split into sections and assignments; an assignment to an encrypted field
  must be a value placeholder or an \<open>if_not_exists\<close> default, everything else is rejected.  The expression values are a map
  that is changed in place, so it is returned with errors too; the counter numbers the calls to the encryption service.
\<close>

section \<open>Text\<close>

definition startsSpace :: "string \<Rightarrow> string option" where
  "startsSpace s = find (\<lambda>p. prefix p s) spaceSeqs"

lemma startsSpace_shorter: "startsSpace s = Some p \<Longrightarrow> length s - length p < length s"
proof -
  assume "startsSpace s = Some p"
  then have p: "p \<in> set spaceSeqs" "prefix p s" by (auto simp: startsSpace_def find_Some_iff)
  moreover have "[] \<notin> set spaceSeqs" by (simp add: spaceSeqs_def)
  ultimately have "p \<noteq> []" by auto
  then show ?thesis using prefix_length_le[OF p(2)] by (cases p; cases s) auto
qed

text \<open>\<open>strings.Fields\<close>; \<open>cur\<close> is the token being read.\<close>

function fieldsLoop :: "string \<Rightarrow> string \<Rightarrow> string list" where
  "fieldsLoop cur s =
     (case startsSpace s of
        Some p \<Rightarrow> (if cur = [] then fieldsLoop [] (drop (length p) s) else cur # fieldsLoop [] (drop (length p) s))
      | None \<Rightarrow> (case s of [] \<Rightarrow> (if cur = [] then [] else [cur]) | c # t \<Rightarrow> fieldsLoop (cur @ [c]) t))"
  by pat_completeness auto
termination by (relation "measure (\<lambda>(cur, s). length s)") (auto intro: startsSpace_shorter)

declare fieldsLoop.simps [simp del]

definition strFields :: "string \<Rightarrow> string list" where
  "strFields s = fieldsLoop [] s"

definition TrimSuffix :: "string \<Rightarrow> string \<Rightarrow> string" where
  "TrimSuffix s p = (if HasSuffix s p then take (length s - length p) s else s)"

definition isAction :: "string \<Rightarrow> bool" where
  "isAction tok = (tok \<in> {''SET'', ''REMOVE'', ''ADD'', ''DELETE''})"

definition flushSection :: "(string \<times> string) list \<Rightarrow> string \<Rightarrow> string list \<Rightarrow> (string \<times> string) list" where
  "flushSection sections action buf = (if action = [] then sections else AList.update action (Join buf '' '') sections)"

fun sectionsLoop :: "string list \<Rightarrow> (string \<times> string) list \<Rightarrow> string \<Rightarrow> string list \<Rightarrow> (string \<times> string) list" where
  "sectionsLoop [] sections action buf = flushSection sections action buf"
| "sectionsLoop (tok # toks) sections action buf =
     (if isAction tok then sectionsLoop toks (flushSection sections action buf) tok (if action = [] then buf else [])
      else if action \<noteq> [] then sectionsLoop toks sections action (buf @ [tok])
      else sectionsLoop toks sections action buf)"

definition splitUpdateExpressionSections :: "string \<Rightarrow> (string \<times> string) list" where
  "splitUpdateExpressionSections expr = sectionsLoop (strFields expr) [] [] []"

definition sectionOf :: "(string \<times> string) list \<Rightarrow> string \<Rightarrow> string" where
  "sectionOf sections action = (case map_of sections action of None \<Rightarrow> [] | Some s \<Rightarrow> s)"

definition addPart :: "string \<Rightarrow> string list" where
  "addPart s = (if TrimSpace s = [] then [] else [TrimSpace s])"

text \<open>The scan for commas outside parentheses: the depth and the bytes since the last split.\<close>

fun splitTopLoop :: "nat \<Rightarrow> string \<Rightarrow> string \<Rightarrow> string list" where
  "splitTopLoop depth cur [] = addPart cur"
| "splitTopLoop depth cur (c # s) =
     (if c = CHR ''('' then splitTopLoop (depth + 1) (cur @ [c]) s
      else if c = CHR '')'' then splitTopLoop (depth - 1) (cur @ [c]) s
      else if c = CHR '','' \<and> depth = 0 then addPart cur @ splitTopLoop depth [] s
      else splitTopLoop depth (cur @ [c]) s)"

definition splitTopLevelCommaSeparated :: "string \<Rightarrow> string list" where
  "splitTopLevelCommaSeparated s = (if TrimSpace s = [] then [] else splitTopLoop 0 [] (TrimSpace s))"

definition splitAssignment :: "string \<Rightarrow> (string \<times> string) option" where
  "splitAssignment expr = (case IndexByte expr (CHR ''='') of
     None \<Rightarrow> None
   | Some idx \<Rightarrow> Some (TrimSpace (take idx expr), TrimSpace (drop (idx + 1) expr)))"

definition stopAt :: "string \<Rightarrow> nat" where
  "stopAt lhs =
     (let stop = length lhs;
          stop1 = (case IndexByte lhs (CHR ''.'') of Some idx \<Rightarrow> if idx < stop then idx else stop | None \<Rightarrow> stop)
      in case IndexByte lhs (CHR ''['') of Some idx \<Rightarrow> if idx < stop1 then idx else stop1 | None \<Rightarrow> stop1)"

definition baseNamePlaceholder :: "string \<Rightarrow> string \<times> bool" where
  "baseNamePlaceholder lhs =
     (let lhs = TrimSpace lhs in
      (TrimSpace (take (stopAt lhs) lhs), Contains lhs ''.'' \<or> Contains lhs ''[''))"

definition isValuePlaceholder :: "string \<Rightarrow> bool" where
  "isValuePlaceholder s = (let s = TrimSpace s in HasPrefix s '':'' \<and> length s > 1)"

definition ifNotExistsDefaultValueRef :: "string \<Rightarrow> string option" where
  "ifNotExistsDefaultValueRef rhs =
     (let rhs = TrimSpace rhs in
      if \<not> HasPrefix rhs ''if_not_exists('' \<or> \<not> HasSuffix rhs '')'' then None
      else let inner = TrimSuffix (TrimPrefix rhs ''if_not_exists('') '')'';
               args = splitTopLevelCommaSeparated inner in
           if length args \<noteq> 2 then None
           else let val = TrimSpace (args ! 1) in if isValuePlaceholder val then Some val else None)"

section \<open>Encrypting assigned values\<close>

definition encryptedAttributeNameSet :: "Metadata option \<Rightarrow> string list" where
  "encryptedAttributeNameSet metadata =
     (case metadata of None \<Rightarrow> [] | Some md \<Rightarrow> map (\<lambda>p. DBName (snd p)) (filter (\<lambda>p. isEncryptedField (snd p)) (Fields md)))"

definition lookupName :: "(string \<times> string) list \<Rightarrow> string \<Rightarrow> string" where
  "lookupName names n = (case map_of names n of None \<Rightarrow> [] | Some a \<Rightarrow> a)"

type_synonym evals = "item \<times> nat"  \<comment> \<open>the expression values and the number of service calls so far\<close>

definition encryptValueRef :: "Service option \<Rightarrow> string \<Rightarrow> string \<Rightarrow> evals \<Rightarrow> (encerror, unit) result \<times> evals" where
  "encryptValueRef svc attrName valueRef = (\<lambda>(values, i).
     (case map_of values valueRef of
        None \<Rightarrow> (Inl (EncError ''missing expression attribute value''), values, i)
      | Some plaintext \<Rightarrow>
         (case EncryptAttributeValue i svc attrName plaintext of
            Inl e \<Rightarrow> (Inl e, values, i + 1)
          | Inr encrypted \<Rightarrow> (Inr (), AList.update valueRef encrypted values, i + 1))))"

definition encryptSetAssignment :: "Service option \<Rightarrow> string list \<Rightarrow> string \<Rightarrow> (string \<times> string) list \<Rightarrow> evals \<Rightarrow> (encerror, unit) result \<times> evals" where
  "encryptSetAssignment svc encrypted assignment names st =
     (case splitAssignment assignment of
        None \<Rightarrow> (Inr (), st)
      | Some (lhs, rhs) \<Rightarrow>
         (let (baseName, hasIndexOrNested) = baseNamePlaceholder lhs; attrName = lookupName names baseName in
          if attrName = [] then (Inr (), st)
          else if attrName \<notin> set encrypted then (Inr (), st)
          else if hasIndexOrNested then (Inl (EncError ''encrypted field does not support nested or indexed updates''), st)
          else let rhs = TrimSpace rhs in
          if HasPrefix rhs ''if_not_exists('' then
            (case ifNotExistsDefaultValueRef rhs of
               None \<Rightarrow> (Inl (EncError ''unsupported if_not_exists expression for encrypted field''), st)
             | Some valueRef \<Rightarrow> encryptValueRef svc attrName valueRef st)
          else if isValuePlaceholder rhs then encryptValueRef svc attrName rhs st
          else (Inl (EncError ''unsupported update expression for encrypted field''), st)))"

fun encryptAssignments :: "Service option \<Rightarrow> string list \<Rightarrow> string list \<Rightarrow> (string \<times> string) list \<Rightarrow> evals \<Rightarrow> (encerror, unit) result \<times> evals" where
  "encryptAssignments svc encrypted [] names st = (Inr (), st)"
| "encryptAssignments svc encrypted (a # as) names st =
     (case encryptSetAssignment svc encrypted a names st of
        (Inl e, st') \<Rightarrow> (Inl e, st')
      | (Inr _, st') \<Rightarrow> encryptAssignments svc encrypted as names st')"

definition encryptSetUpdateExpressionSection :: "Service option \<Rightarrow> string list \<Rightarrow> string \<Rightarrow> (string \<times> string) list \<Rightarrow> evals \<Rightarrow> (encerror, unit) result \<times> evals" where
  "encryptSetUpdateExpressionSection svc encrypted setExpr names st =
     (let setExpr = TrimSpace setExpr in
      if setExpr = [] then (Inr (), st)
      else encryptAssignments svc encrypted (splitTopLevelCommaSeparated setExpr) names st)"

definition rejectPart :: "string list \<Rightarrow> (string \<times> string) list \<Rightarrow> string \<Rightarrow> (encerror, unit) result" where
  "rejectPart encrypted names part =
     (case strFields part of
        [] \<Rightarrow> Inr ()
      | base # _ \<Rightarrow>
         (let attrName = lookupName names base in
          if attrName \<noteq> [] \<and> attrName \<in> set encrypted then Inl (EncError ''encrypted field does not support this update'') else Inr ()))"

definition rejectEncryptedAddDeleteUpdateExpressionSections :: "(string \<times> string) list \<Rightarrow> string list \<Rightarrow> (string \<times> string) list \<Rightarrow> (encerror, unit) result" where
  "rejectEncryptedAddDeleteUpdateExpressionSections sections encrypted names =
     checkAll (\<lambda>action. checkAll (rejectPart encrypted names) (splitTopLevelCommaSeparated (TrimSpace (sectionOf sections action))))
       [''ADD'', ''DELETE'']"

definition EncryptUpdateExpressionValues :: "Service option \<Rightarrow> Metadata option \<Rightarrow> string \<Rightarrow> (string \<times> string) list \<Rightarrow> evals \<Rightarrow> (encerror, unit) result \<times> evals" where
  "EncryptUpdateExpressionValues svc metadata updateExpression names st =
     (if updateExpression = [] \<or> fst st = [] then (Inr (), st)
      else let encrypted = encryptedAttributeNameSet metadata in
      if encrypted = [] then (Inr (), st)
      else let sections = splitUpdateExpressionSections updateExpression in
      case encryptSetUpdateExpressionSection svc encrypted (sectionOf sections ''SET'') names st of
        (Inl e, st') \<Rightarrow> (Inl e, st')
      | (Inr _, st') \<Rightarrow> (rejectEncryptedAddDeleteUpdateExpressionSections sections encrypted names, st'))"

section \<open>No plaintext in an encrypted field\<close>

text \<open>The assignments of a SET section to encrypted fields: the attribute, whether the path is nested, and the placeholder
  of the assigned value where the right side has one of the two supported forms.\<close>

definition refOf :: "string \<Rightarrow> string option" where
  "refOf rhs = (let rhs = TrimSpace rhs in
     if HasPrefix rhs ''if_not_exists('' then ifNotExistsDefaultValueRef rhs
     else if isValuePlaceholder rhs then Some rhs else None)"

definition encAssign :: "string list \<Rightarrow> (string \<times> string) list \<Rightarrow> string \<Rightarrow> (string \<times> bool \<times> string option) option" where
  "encAssign encrypted names assignment =
     (case splitAssignment assignment of None \<Rightarrow> None
      | Some (lhs, rhs) \<Rightarrow>
         (let attr = lookupName names (fst (baseNamePlaceholder lhs)) in
          if attr \<noteq> [] \<and> attr \<in> set encrypted then Some (attr, snd (baseNamePlaceholder lhs), refOf rhs) else None))"

definition encAssigns :: "string list \<Rightarrow> (string \<times> string) list \<Rightarrow> string list \<Rightarrow> (string \<times> bool \<times> string option) list" where
  "encAssigns encrypted names as = List.map_filter (encAssign encrypted names) as"

definition encRefs :: "(string \<times> bool \<times> string option) list \<Rightarrow> string list" where
  "encRefs ts = List.map_filter (\<lambda>t. snd (snd t)) ts"

lemma encryptSetAssignment_cases:
  "encryptSetAssignment svc encrypted a names st =
     (case encAssign encrypted names a of
        None \<Rightarrow> (Inr (), st)
      | Some (attr, nested, r) \<Rightarrow>
         (if nested then (Inl (EncError ''encrypted field does not support nested or indexed updates''), st)
          else case r of Some ref \<Rightarrow> encryptValueRef svc attr ref st
            | None \<Rightarrow> (Inl (EncError (if HasPrefix (TrimSpace (snd (the (splitAssignment a)))) ''if_not_exists(''
                       then ''unsupported if_not_exists expression for encrypted field''
                       else ''unsupported update expression for encrypted field'')), st)))"
  unfolding encryptSetAssignment_def encAssign_def refOf_def Let_def
  by (cases "splitAssignment a") (simp_all split: prod.split option.split)

definition envelopeFor :: "Service option \<Rightarrow> string \<Rightarrow> attrval \<Rightarrow> attrval \<Rightarrow> bool" where
  "envelopeFor svc attr v env = (\<exists>j. EncryptAttributeValue j svc attr v = Inr env)"

lemma encryptAssignments_frame:
  "encryptAssignments svc encrypted as names st = (Inr (), st') \<Longrightarrow> ref \<notin> set (encRefs (encAssigns encrypted names as))
   \<Longrightarrow> map_of (fst st') ref = map_of (fst st) ref"
proof (induction as arbitrary: st)
  case (Cons a as)
  obtain st1 where s: "encryptSetAssignment svc encrypted a names st = (Inr (), st1)" "encryptAssignments svc encrypted as names st1 = (Inr (), st')"
    using Cons.prems(1) by (auto split: prod.splits sum.splits)
  have "ref \<notin> set (encRefs (encAssigns encrypted names as))" using Cons.prems(2)
    by (auto simp: encAssigns_def encRefs_def map_filter_simps split: option.splits)
  then have "map_of (fst st') ref = map_of (fst st1) ref" using Cons.IH[OF s(2)] by blast
  moreover have "map_of (fst st1) ref = map_of (fst st) ref"
    using s(1) Cons.prems(2)
    by (auto simp: encryptSetAssignment_cases encAssigns_def encRefs_def map_filter_simps encryptValueRef_def
        split: option.splits prod.splits if_splits sum.splits)
  ultimately show ?case by simp
qed auto

lemma encryptAssignments_ok:
  assumes "encryptAssignments svc encrypted as names st = (Inr (), st')" "distinct (encRefs (encAssigns encrypted names as))"
    "(attr, nested, r) \<in> set (encAssigns encrypted names as)"
  shows "\<not> nested \<and> (\<exists>ref v env. r = Some ref \<and> map_of (fst st) ref = Some v \<and> map_of (fst st') ref = Some env \<and> envelopeFor svc attr v env)"
  using assms
proof (induction as arbitrary: st)
  case (Cons a as)
  obtain st1 where s: "encryptSetAssignment svc encrypted a names st = (Inr (), st1)" "encryptAssignments svc encrypted as names st1 = (Inr (), st')"
    using Cons.prems(1) by (auto split: prod.splits sum.splits)
  have d: "distinct (encRefs (encAssigns encrypted names as))"
    using Cons.prems(2) by (auto simp: encAssigns_def encRefs_def map_filter_simps split: option.splits)
  show ?case
  proof (cases "encAssign encrypted names a = Some (attr, nested, r)")
    case True
    then obtain ref where r: "\<not> nested" "r = Some ref" "encryptValueRef svc attr ref st = (Inr (), st1)"
      using s(1) by (auto simp: encryptSetAssignment_cases split: if_splits option.splits)
    then obtain v env where v: "map_of (fst st) ref = Some v" "envelopeFor svc attr v env" "map_of (fst st1) ref = Some env"
      unfolding encryptValueRef_def envelopeFor_def by (fastforce split: prod.splits option.splits sum.splits)
    have "ref \<notin> set (encRefs (encAssigns encrypted names as))"
      using Cons.prems(2) True r(2) by (simp add: encAssigns_def encRefs_def map_filter_simps)
    then have "map_of (fst st') ref = Some env" using encryptAssignments_frame[OF s(2)] v(3) by simp
    then show ?thesis using r v by blast
  next
    case False
    then have mem: "(attr, nested, r) \<in> set (encAssigns encrypted names as)"
      using Cons.prems(3) by (auto simp: encAssigns_def map_filter_simps split: option.splits)
    then obtain ref v env where i: "\<not> nested" "r = Some ref" "map_of (fst st1) ref = Some v" "map_of (fst st') ref = Some env" "envelopeFor svc attr v env"
      using Cons.IH[OF s(2) d] by blast
    have "ref \<in> set (encRefs (encAssigns encrypted names as))"
      using mem i(2) by (force simp: encRefs_def map_filter_def)
    then have "encAssign encrypted names a = None \<or> (\<exists>at n rf. encAssign encrypted names a = Some (at, n, rf) \<and> rf \<noteq> Some ref)"
      using Cons.prems(2) by (cases "encAssign encrypted names a") (auto simp: encAssigns_def encRefs_def map_filter_simps)
    then have "map_of (fst st1) ref = map_of (fst st) ref"
      using s(1) by (auto simp: encryptSetAssignment_cases encryptValueRef_def split: option.splits prod.splits if_splits sum.splits)
    then show ?thesis using i by metis
  qed
qed (simp add: encAssigns_def map_filter_simps)

text \<open>C17. No plaintext reaches an encrypted field through a value: when \<open>EncryptUpdateExpressionValues\<close> succeeds on a non-empty expression
  with at least one value, in which no two assignments to encrypted attributes share a value placeholder, every
  top-level SET assignment to an encrypted attribute is a direct one whose value placeholder now holds an envelope made from
  the value the caller supplied, for that attribute; all other expression values are as they were; and no ADD or
  DELETE clause starts with a placeholder that stands for an encrypted attribute.  Without any value nothing is checked
  (\<open>copy_into_encrypted_accepted\<close>), and nested paths in ADD and DELETE are not recognised (\<open>nested_add_not_rejected\<close>).\<close>

theorem update_values_encrypted:
  assumes "EncryptUpdateExpressionValues svc (Some md) expr names (values, i) = (Inr (), values', i')"
    and "expr \<noteq> []" "values \<noteq> []"
    and "encrypted = encryptedAttributeNameSet (Some md)" "sections = splitUpdateExpressionSections expr"
    and "targets = encAssigns encrypted names (splitTopLevelCommaSeparated (TrimSpace (sectionOf sections ''SET'')))"
    and "distinct (encRefs targets)"
  shows "(\<forall>(attr, nested, r) \<in> set targets. \<not> nested \<and>
           (\<exists>ref v env. r = Some ref \<and> map_of values ref = Some v \<and> map_of values' ref = Some env \<and> envelopeFor svc attr v env))
    \<and> (\<forall>ref. ref \<notin> set (encRefs targets) \<longrightarrow> map_of values' ref = map_of values ref)
    \<and> (\<forall>action \<in> {''ADD'', ''DELETE''}. \<forall>part \<in> set (splitTopLevelCommaSeparated (TrimSpace (sectionOf sections action))).
         case strFields part of [] \<Rightarrow> True | name # _ \<Rightarrow> lookupName names name \<notin> set encrypted - {[]})"
proof (cases "encrypted = []")
  case True
  then have "targets = []" using assms(6) by (auto simp: encAssigns_def map_filter_def encAssign_def split: option.splits prod.splits)
  then show ?thesis using assms True by (auto simp: EncryptUpdateExpressionValues_def encRefs_def map_filter_simps split: list.split)
next
  case False
  let ?set = "TrimSpace (sectionOf sections ''SET'')"
  obtain st where st: "encryptSetUpdateExpressionSection svc encrypted (sectionOf sections ''SET'') names (values, i) = (Inr (), st)"
    "st = (values', i')" "rejectEncryptedAddDeleteUpdateExpressionSections sections encrypted names = Inr ()"
    using assms(1-5) False by (auto simp: EncryptUpdateExpressionValues_def Let_def split: prod.splits sum.splits)
  have "splitTopLevelCommaSeparated [] = []" by (simp add: splitTopLevelCommaSeparated_def TrimSpace_def trimSeqs.simps spaceSeqs_def)
  then have run: "encryptAssignments svc encrypted (splitTopLevelCommaSeparated ?set) names (values, i) = (Inr (), st)"
    using st(1) by (auto simp: encryptSetUpdateExpressionSection_def Let_def split: if_splits)
  have 1: "\<forall>(attr, nested, r) \<in> set targets. \<not> nested \<and>
           (\<exists>ref v env. r = Some ref \<and> map_of values ref = Some v \<and> map_of values' ref = Some env \<and> envelopeFor svc attr v env)"
    using encryptAssignments_ok[OF run] assms(6,7) st(2) by fastforce
  have 2: "\<forall>ref. ref \<notin> set (encRefs targets) \<longrightarrow> map_of values' ref = map_of values ref"
    using encryptAssignments_frame[OF run] assms(6) st(2) by simp
  have 3: "rejectPart encrypted names part = Inr ()"
    if "action \<in> {''ADD'', ''DELETE''}" "part \<in> set (splitTopLevelCommaSeparated (TrimSpace (sectionOf sections action)))" for action part
    using that st(3) unfolding rejectEncryptedAddDeleteUpdateExpressionSections_def checkAll_ok by auto
  have 4: "case strFields part of [] \<Rightarrow> True | name # _ \<Rightarrow> lookupName names name \<notin> set encrypted - {[]}"
    if "rejectPart encrypted names part = Inr ()" for part
    using that by (auto simp: rejectPart_def Let_def split: list.splits if_splits)
  show ?thesis using 1 2 3 4 by blast
qed

definition secretModel :: Metadata where
  "secretModel = projr (parseMetadata noMethods exampleUser)"

lemma secretModel_encrypted: "encryptedAttributeNameSet (Some secretModel) = [''secret'']"
  by code_simp

theorem update_values_encrypted_witness:
  "\<exists>env. map_of (fst (snd (EncryptUpdateExpressionValues (Some toyService) (Some secretModel) ''SET #n1 = :v1, #n2 = :v2''
     [(''#n1'', ''secret''), (''#n2'', ''email'')] ([('':v1'', AVS ''x''), ('':v2'', AVS ''y'')], 0)))) '':v1'' = Some env
     \<and> envelopeFor (Some toyService) ''secret'' (AVS ''x'') env"
proof -
  let ?n = "[(''#n1'', ''secret''), (''#n2'', ''email'')]" and ?v = "[('':v1'', AVS ''x''), ('':v2'', AVS ''y'')]"
  let ?e = "''SET #n1 = :v1, #n2 = :v2''"
  let ?r = "EncryptUpdateExpressionValues (Some toyService) (Some secretModel) ?e ?n (?v, 0)"
  let ?enc = "encryptedAttributeNameSet (Some secretModel)"
  let ?t = "encAssigns ?enc ?n (splitTopLevelCommaSeparated (TrimSpace (sectionOf (splitUpdateExpressionSections ?e) ''SET'')))"
  have toks: "strFields ?e = [''SET'', ''#n1'', ''='', '':v1,'', ''#n2'', ''='', '':v2'']" by code_simp
  have split: "splitUpdateExpressionSections ?e = [(''SET'', ''#n1 = :v1, #n2 = :v2'')]"
    unfolding splitUpdateExpressionSections_def toks by (simp add: isAction_def flushSection_def)
  have none: "splitTopLevelCommaSeparated (TrimSpace []) = []" by code_simp
  have sec: "sectionOf (splitUpdateExpressionSections ?e) ''SET'' = ''#n1 = :v1, #n2 = :v2''"
    "rejectEncryptedAddDeleteUpdateExpressionSections (splitUpdateExpressionSections ?e) [''secret''] ?n = Inr ()"
    by (simp_all add: split sectionOf_def rejectEncryptedAddDeleteUpdateExpressionSections_def none)
  have txts: "TrimSpace ''#n1 = :v1, #n2 = :v2'' = ''#n1 = :v1, #n2 = :v2''"
    "splitTopLevelCommaSeparated ''#n1 = :v1, #n2 = :v2'' = [''#n1 = :v1'', ''#n2 = :v2'']"
    by code_simp+
  have a: "encAssign [''secret''] ?n ''#n1 = :v1'' = Some (''secret'', False, Some '':v1'')" "encAssign [''secret''] ?n ''#n2 = :v2'' = None"
    by code_simp+
  have t: "?t = [(''secret'', False, Some '':v1'')]"
    unfolding secretModel_encrypted sec txts encAssigns_def map_filter_simps a by simp
  have "fst ?r = Inr ()"
    by (simp add: EncryptUpdateExpressionValues_def secretModel_encrypted sec txts encryptSetUpdateExpressionSection_def
        encryptSetAssignment_cases a encryptValueRef_def EncryptAttributeValue_def validateDecryptInputs_def toyService_def newGCM_def Let_def)
  then have r: "?r = (Inr (), fst (snd ?r), snd (snd ?r))" by (simp add: prod_eq_iff)
  have "distinct (encRefs ?t)" by (simp add: t encRefs_def map_filter_simps)
  from update_values_encrypted[OF r _ _ refl refl refl this] show ?thesis by (auto simp: t)
qed

section \<open>Splitting what the builder joins\<close>

text \<open>The depth after a piece of text, \<open>None\<close> if it has a comma outside parentheses or closes one it did not open.\<close>

fun topScan :: "nat \<Rightarrow> string \<Rightarrow> nat option" where
  "topScan d [] = Some d"
| "topScan d (c # s) =
     (if c = CHR ''('' then topScan (d + 1) s
      else if c = CHR '')'' then (if d = 0 then None else topScan (d - 1) s)
      else if c = CHR '','' \<and> d = 0 then None
      else topScan d s)"

lemma splitTopLoop_scan: "topScan d p = Some d' \<Longrightarrow> splitTopLoop d cur (p @ rest) = splitTopLoop d' (cur @ p) rest"
  by (induction d p arbitrary: cur rule: topScan.induct) (auto split: if_splits)

lemma TrimSpace_space: "TrimSpace (CHR '' '' # s) = TrimSpace s"
  by (simp add: TrimSpace_def trimSeqs.simps[of _ "CHR '' '' # s"] spaceSeqs_def)

lemma splitTopLoop_Join:
  assumes "\<forall>p \<in> set ps. topScan 0 p = Some 0 \<and> p \<noteq> [] \<and> TrimSpace p = p" "ps \<noteq> []"
    "cur = [] \<or> cur = '' ''"
  shows "splitTopLoop 0 cur (Join ps '', '') = ps"
  using assms
proof (induction ps arbitrary: cur)
  case (Cons p ps)
  have part: "addPart (cur @ p) = [p]" using Cons.prems by (auto simp: addPart_def TrimSpace_space)
  show ?case
  proof (cases "ps = []")
    case True
    then show ?thesis using splitTopLoop_scan[of 0 p 0 cur "[]"] Cons.prems part by simp
  next
    case False
    have "splitTopLoop 0 cur (Join (p # ps) '', '') = splitTopLoop 0 (cur @ p) ('', '' @ Join ps '', '')"
      using splitTopLoop_scan[of 0 p 0 cur "'', '' @ Join ps '', ''"] Cons.prems(1) False by (simp add: Join_Cons)
    then show ?thesis using part Cons.IH[of "'' ''"] Cons.prems False by simp
  qed
qed simp

text \<open>The splitter reads back what the builder joins: a list of clauses with balanced parentheses (such as
  \<open>#n1 = if_not_exists(#n1, :v1)\<close>) that was joined with commas is split into exactly those clauses; commas inside
  parentheses do not split.\<close>

theorem splitTop_of_Join:
  assumes "\<forall>p \<in> set ps. topScan 0 p = Some 0 \<and> p \<noteq> [] \<and> TrimSpace p = p" "TrimSpace (Join ps '', '') = Join ps '', ''"
  shows "splitTopLevelCommaSeparated (Join ps '', '') = ps"
proof (cases "ps = []")
  case True
  then show ?thesis using assms(2) by (simp add: splitTopLevelCommaSeparated_def)
next
  case False
  moreover have "Join ps '', '' \<noteq> []" using False assms(1) by (intro Join_ne) auto
  ultimately show ?thesis using assms splitTopLoop_Join[of ps "[]"] by (simp add: splitTopLevelCommaSeparated_def)
qed

theorem splitTop_of_Join_witness:
  "splitTopLevelCommaSeparated ''#n1 = if_not_exists(#n1, :v1), #n2 = :v2'' = [''#n1 = if_not_exists(#n1, :v1)'', ''#n2 = :v2'']"
proof -
  let ?ps = "[''#n1 = if_not_exists(#n1, :v1)'', ''#n2 = :v2'']"
  have "\<forall>p \<in> set ?ps. topScan 0 p = Some 0 \<and> p \<noteq> [] \<and> TrimSpace p = p" "TrimSpace (Join ?ps '', '') = Join ?ps '', ''"
    by code_simp+
  from splitTop_of_Join[OF this] show ?thesis by simp
qed

section \<open>Gaps\<close>

text \<open>ADD on an element of an encrypted field is not rejected: the whole path is looked up, not its base.\<close>

lemma nested_add_not_rejected:
  "fst (EncryptUpdateExpressionValues (Some toyService) (Some secretModel) ''ADD #n1.#n2 :v1''
     [(''#n1'', ''secret''), (''#n2'', ''count'')] ([('':v1'', AVN ''1'')], 0)) = Inr ()"
proof -
  let ?n = "[(''#n1'', ''secret''), (''#n2'', ''count'')]"
  have toks: "strFields ''ADD #n1.#n2 :v1'' = [''ADD'', ''#n1.#n2'', '':v1'']" by code_simp
  have split: "splitUpdateExpressionSections ''ADD #n1.#n2 :v1'' = [(''ADD'', ''#n1.#n2 :v1'')]"
    unfolding splitUpdateExpressionSections_def toks by (simp add: isAction_def flushSection_def)
  have txts: "TrimSpace [] = []" "TrimSpace ''#n1.#n2 :v1'' = ''#n1.#n2 :v1''" "splitTopLevelCommaSeparated [] = []"
    "splitTopLevelCommaSeparated ''#n1.#n2 :v1'' = [''#n1.#n2 :v1'']" "strFields ''#n1.#n2 :v1'' = [''#n1.#n2'', '':v1'']"
    by code_simp+
  show ?thesis
    by (simp add: EncryptUpdateExpressionValues_def secretModel_encrypted encryptSetUpdateExpressionSection_def Let_def
        split sectionOf_def txts rejectEncryptedAddDeleteUpdateExpressionSections_def rejectPart_def lookupName_def)
qed

text \<open>Without expression values nothing is checked: copying another attribute into an encrypted field is accepted.\<close>

lemma copy_into_encrypted_accepted:
  "fst (EncryptUpdateExpressionValues svc (Some md) ''SET #n1 = #n2'' names ([], i)) = Inr ()"
  by (simp add: EncryptUpdateExpressionValues_def)

end
