(* ===== verification/DBExecutor.thy ===== *)
theory DBExecutor
  imports Executor PkgConverter EncryptUpdate
begin

text \<open>
  \<open>internal/theorydb/query_executor.go\<close>: the executor behind the database facade.  It sends the same requests as the main executor, encrypts
  the encrypted fields of what it writes, decrypts them in what it reads, refuses to work when such fields have no key, and stops before
  the deadline of a Lambda function.  The SDK's client and its paginators are parameters; \<open>dxNow\<close> reads the clock in the world \<open>'w\<close>.  Writes
  also count the calls of the encryption service, which number its random bytes and data keys.  The metadata that the executor is
  created with is an option (nil), and so is its converter.  \<open>encryptItem\<close> replaces attributes in the map it is given; here it returns the new item,
  which is what the callers send, and the caller's own map, which they do not read again, is left out.
\<close>

section \<open>The client and the executor\<close>

text \<open>Requests with the kind of selection, and answers with the counter DynamoDB reports.\<close>

record DBQueryInput = QueryInput +
  qiSelect :: string

record DBScanInput = ScanInput +
  siSelect :: string

record PageOutput = ReadOutput +
  roCount :: int

text \<open>A paginator is an object of the SDK with a state \<open>'p\<close>.\<close>

record ('w, 'p) dbClient =
  dcQuery :: "DBQueryInput \<Rightarrow> 'w \<Rightarrow> (sdkError, PageOutput) result \<times> 'w"
  dcScan :: "DBScanInput \<Rightarrow> 'w \<Rightarrow> (sdkError, PageOutput) result \<times> 'w"
  dcQueryPaginator :: "DBQueryInput \<Rightarrow> 'p"
  dcScanPaginator :: "DBScanInput \<Rightarrow> 'p"
  dcHasMorePages :: "'p \<Rightarrow> bool"
  dcNextPage :: "'p \<Rightarrow> 'w \<Rightarrow> (sdkError, PageOutput) result \<times> 'p \<times> 'w"
  dcGetItem :: "GetItemInput \<Rightarrow> 'w \<Rightarrow> (sdkError, item option) result \<times> 'w"
  dcPutItem :: "WriteInput \<Rightarrow> 'w \<Rightarrow> (sdkError, unit) result \<times> 'w"
  dcDeleteItem :: "WriteInput \<Rightarrow> 'w \<Rightarrow> (sdkError, unit) result \<times> 'w"
  dcUpdateItem :: "UpdateItemInput \<Rightarrow> 'w \<Rightarrow> (sdkError, item) result \<times> 'w"
  dcBatchGetItem :: "(string \<times> KeysAndAttributes) list \<Rightarrow> 'w \<Rightarrow> (sdkError, BatchGetItemOutput) result \<times> 'w"
  dcBatchWriteItem :: "(string \<times> WriteRequest list) list \<Rightarrow> 'w \<Rightarrow> (sdkError, (string \<times> WriteRequest list) list) result \<times> 'w"

datatype dberror =
    DBError string
  | DBWrapped string dberror
  | DBConvert cerror
  | DBEncryption encerror
  | DBEncryptedField string encerror
  | DBTimeoutImminent int
  | DBItemNotFound
  | DBConditionFailed
  | DBPanic

text \<open>\<open>dxKeyARN\<close> is the key of the session's configuration (\<open>None\<close>: no session), \<open>dxService\<close> the encryption service made from that
  configuration, \<open>dxClient\<close> what \<open>session.Client()\<close> returns.  Times are in nanoseconds.\<close>

record ('w, 'p) queryExecutor =
  dxKeyARN :: "string option"
  dxService :: Service
  dxClient :: "(string, ('w, 'p) dbClient) result"
  dxMetadata :: "Metadata option"
  dxConverter :: "pkgConverter option"
  dxDeadline :: "int option"
  dxBuffer :: int
  dxNow :: "'w \<Rightarrow> int"

definition checkLambdaTimeout :: "('w, 'p) queryExecutor \<Rightarrow> 'w \<Rightarrow> (dberror, unit) result" where
  "checkLambdaTimeout qe w =
     (case dxDeadline qe of
        None \<Rightarrow> Inr ()
      | Some deadline \<Rightarrow>
          (let remaining = deadline - dxNow qe w; buffer = (if dxBuffer qe = 0 then 100000000 else dxBuffer qe) in
           if remaining \<le> 0 then Inl (DBError ''lambda timeout exceeded'')
           else if remaining < buffer then Inl (DBTimeoutImminent remaining) else Inr ()))"

definition encryptionService :: "('w, 'p) queryExecutor \<Rightarrow> (dberror, Service) result" where
  "encryptionService qe =
     (case dxKeyARN qe of
        None \<Rightarrow> Inl (DBEncryption (EncError ''session is nil''))
      | Some arn \<Rightarrow> (if arn = [] then Inl (DBEncryption (EncError ''session.Config.KMSKeyARN is empty'')) else Inr (dxService qe)))"

definition failClosedIfEncrypted :: "('w, 'p) queryExecutor \<Rightarrow> (dberror, unit) result" where
  "failClosedIfEncrypted qe = mapErr DBEncryption (FailClosedIfEncryptedWithoutKMSKeyARN (dxKeyARN qe) (dxMetadata qe))"

definition encryptedModel :: "('w, 'p) queryExecutor \<Rightarrow> bool" where
  "encryptedModel qe = MetadataHasEncryptedFields (dxMetadata qe)"

text \<open>\<open>session.Client()\<close>, with the operation in the text of its error; without a session it is a nil dereference.\<close>

definition clientFor :: "('w, 'p) queryExecutor \<Rightarrow> string \<Rightarrow> (dberror, ('w, 'p) dbClient) result" where
  "clientFor qe operation = mapErr (\<lambda>e. DBWrapped (''failed to get client for '' @ operation) (DBError e)) (dxClient qe)"

definition callFailed :: "string \<Rightarrow> sdkError \<Rightarrow> dberror" where
  "callFailed what e = DBWrapped what (DBError (errText e))"

section \<open>Encryption of items\<close>

definition decryptAttribute :: "Service \<Rightarrow> Metadata \<Rightarrow> string \<times> attrval \<Rightarrow> (dberror, string \<times> attrval) result" where
  "decryptAttribute svc md = (\<lambda>(attrName, av).
     case map_of (FieldsByDBName md) attrName of
       None \<Rightarrow> Inr (attrName, av)
     | Some fm \<Rightarrow>
         (if \<not> IsEncrypted fm then Inr (attrName, av)
          else case DecryptAttributeValue (Some svc) (DBName fm) av of
            Inl e \<Rightarrow> Inl (DBEncryptedField (fmName fm) e)
          | Inr v \<Rightarrow> Inr (attrName, v)))"

definition decryptItem :: "('w, 'p) queryExecutor \<Rightarrow> item \<Rightarrow> (dberror, item) result" where
  "decryptItem qe itm =
     (case dxMetadata qe of
        None \<Rightarrow> Inr itm
      | Some md \<Rightarrow>
          (if itm = [] \<or> \<not> encryptedModel qe then Inr itm
           else bindE (failClosedIfEncrypted qe) (\<lambda>_.
                bindE (encryptionService qe) (\<lambda>svc. mapE (decryptAttribute svc md) itm))))"

fun encryptFields :: "Service \<Rightarrow> FieldMetadata list \<Rightarrow> item \<Rightarrow> nat \<Rightarrow> (dberror, item) result \<times> nat" where
  "encryptFields svc [] itm n = (Inr itm, n)"
| "encryptFields svc (fm # fms) itm n =
     (if \<not> IsEncrypted fm then encryptFields svc fms itm n
      else case map_of itm (DBName fm) of
        None \<Rightarrow> encryptFields svc fms itm n
      | Some av \<Rightarrow>
          (case EncryptAttributeValue n (Some svc) (DBName fm) av of
             Inl e \<Rightarrow> (Inl (DBWrapped (''failed to encrypt field '' @ DBName fm) (DBEncryption e)), n + 1)
           | Inr enc \<Rightarrow> encryptFields svc fms (AList.update (DBName fm) enc itm) (n + 1)))"

definition encryptItem :: "('w, 'p) queryExecutor \<Rightarrow> item \<Rightarrow> nat \<Rightarrow> (dberror, item) result \<times> nat" where
  "encryptItem qe itm n =
     (case dxMetadata qe of
        None \<Rightarrow> (Inr itm, n)
      | Some md \<Rightarrow>
          (if itm = [] \<or> \<not> encryptedModel qe then (Inr itm, n)
           else case bindE (failClosedIfEncrypted qe) (\<lambda>_. encryptionService qe) of
             Inl e \<Rightarrow> (Inl e, n)
           | Inr svc \<Rightarrow> encryptFields svc (map snd (Fields md)) itm n))"

section \<open>Decoding items\<close>

definition parseNumberToInterface :: "convenv \<Rightarrow> string \<Rightarrow> (dberror, goany) result" where
  "parseNumberToInterface env s =
     (case ParseInt64 s of
        Some i \<Rightarrow> Inr (Some (TInt Int64, VInt i))
      | None \<Rightarrow> (case parseFloat env s of
           Some f \<Rightarrow> Inr (Some (TFloat64, VFloat f))
         | None \<Rightarrow> Inl (DBError (''invalid number format: '' @ s))))"

definition attributeValueNumberSetToFloat64 :: "convenv \<Rightarrow> string list \<Rightarrow> (dberror, gval list) result" where
  "attributeValueNumberSetToFloat64 env ns =
     mapE (\<lambda>n. case parseFloat env n of None \<Rightarrow> Inl (DBConvert ParseError) | Some f \<Rightarrow> Inr (VFloat f)) ns"

fun attributeValueToInterface :: "convenv \<Rightarrow> attrval \<Rightarrow> (dberror, goany) result" where
  "attributeValueToInterface env (AVS s) = Inr (Some (TString, VString s))"
| "attributeValueToInterface env (AVN n) = parseNumberToInterface env n"
| "attributeValueToInterface env (AVBOOL b) = Inr (Some (TBool, VBool b))"
| "attributeValueToInterface env (AVNULL _) = Inr None"
| "attributeValueToInterface env (AVL l) =
     (case mapE (\<lambda>x. attributeValueToInterface env x) l of Inl e \<Rightarrow> Inl e | Inr vs \<Rightarrow> Inr (Some (TSlice TAny, VSlice (map VIface vs))))"
| "attributeValueToInterface env (AVM m) =
     (case mapE (\<lambda>kv. case attributeValueToInterface env (snd kv) of Inl e \<Rightarrow> Inl e | Inr v \<Rightarrow> Inr (VString (fst kv), VIface v)) m of
        Inl e \<Rightarrow> Inl e | Inr vs \<Rightarrow> Inr (Some (TMap TString TAny, VMap vs)))"
| "attributeValueToInterface env (AVSS ss) = Inr (Some (TSlice TString, VSlice (map VString ss)))"
| "attributeValueToInterface env (AVNS ns) =
     (case attributeValueNumberSetToFloat64 env ns of Inl e \<Rightarrow> Inl e | Inr vs \<Rightarrow> Inr (Some (TSlice TFloat64, VSlice vs)))"
| "attributeValueToInterface env (AVBS bs) = Inr (Some (TSlice (TSlice (TUint Uint8)), VSlice (map VBytes bs)))"
| "attributeValueToInterface env (AVB b) = Inr (Some (TSlice (TUint Uint8), VBytes b))"

definition failedField :: "string \<Rightarrow> dberror \<Rightarrow> dberror" where
  "failedField name e = DBWrapped (''failed to unmarshal field '' @ name) e"

text \<open>The value stored for an attribute in a map with values of type \<open>t\<close>.\<close>

definition mapElement :: "pkgConverter \<Rightarrow> gtype \<Rightarrow> attrval \<Rightarrow> (dberror, gval) result" where
  "mapElement c t av =
     (if underlying t = TAny then bindE (attributeValueToInterface (parsers c) av) (\<lambda>d. Inr (VIface d))
      else mapErr DBConvert (FromAttributeValue c av (Some (TPtr t, VPtr (Some (zeroOf t))))))"

text \<open>The names of the attributes are of type \<open>string\<close>: \<open>SetMapIndex\<close> panics when the keys have a defined type.\<close>

definition unmarshalItemToMap :: "pkgConverter \<Rightarrow> item \<Rightarrow> gtype \<Rightarrow> gval \<Rightarrow> (dberror, gval) result" where
  "unmarshalItemToMap c itm t old =
     (if kindOf (keyTypeOf t) \<noteq> KString then Inl (DBError ''destination map key must be a string'')
      else bindE (foldE (\<lambda>(attrName, av) m.
             bindE (mapErr (failedField attrName) (mapElement c (elemOf t) av)) (\<lambda>v.
               if keyTypeOf t \<noteq> TString then Inl DBPanic else Inr (AList.update (VString attrName) v m)))
             itm (case old of VMap m \<Rightarrow> m | _ \<Rightarrow> [])) (\<lambda>m. Inr (VMap m)))"

text \<open>\<open>CanSet\<close> of the field at a path: it is exported, and the structs on the way are exported or embedded.\<close>

fun settableAt :: "nat list \<Rightarrow> gtype \<Rightarrow> bool" where
  "settableAt [] t = True"
| "settableAt (i # path) t =
     (let f = structFields t ! i in if path = [] then sfExported f else (sfExported f \<or> sfAnonymous f) \<and> settableAt path (sfType f))"

definition structAttribute :: "pkgConverter \<Rightarrow> Metadata \<Rightarrow> gtype \<Rightarrow> string \<times> attrval \<Rightarrow> gval \<Rightarrow> (dberror, gval) result" where
  "structAttribute c md t = (\<lambda>(attrName, av) dest.
     case map_of (FieldsByDBName md) attrName of
       None \<Rightarrow> Inr dest
     | Some fm \<Rightarrow>
         (case fieldByIndex (IndexPath fm) t dest of
            None \<Rightarrow> Inl DBPanic
          | Some (ft, old) \<Rightarrow>
              (if \<not> settableAt (IndexPath fm) t then Inr dest
               else bindE (mapErr (\<lambda>e. failedField (fmName fm) (DBConvert e)) (FromAttributeValue c av (Some (TPtr ft, VPtr (Some old))))) (\<lambda>v.
                 Inr (setByIndex (IndexPath fm) v dest)))))"

definition unmarshalItemToStruct :: "pkgConverter \<Rightarrow> Metadata option \<Rightarrow> item \<Rightarrow> gtype \<Rightarrow> gval \<Rightarrow> (dberror, gval) result" where
  "unmarshalItemToStruct c meta itm t old =
     (case meta of
        None \<Rightarrow> Inl (DBError ''model metadata is required for unmarshal'')
      | Some md \<Rightarrow> foldE (structAttribute c md t) itm old)"

definition derefNonNilPointer :: "goany \<Rightarrow> (dberror, gtype \<times> gval) result" where
  "derefNonNilPointer dest =
     (case dest of
        None \<Rightarrow> Inl (DBError ''destination must be a pointer to a struct or map'')
      | Some (t, v) \<Rightarrow>
          (case v of
             VPtr (Some old) \<Rightarrow> (if kindOf t \<noteq> KPointer then Inl (DBError ''destination must be a pointer'') else Inr (elemOf t, old))
           | _ \<Rightarrow> Inl (DBError ''destination must be a pointer'')))"

definition unmarshalItem :: "('w, 'p) queryExecutor \<Rightarrow> item \<Rightarrow> goany \<Rightarrow> (dberror, gval) result" where
  "unmarshalItem qe itm dest =
     (case dxConverter qe of
        None \<Rightarrow> Inl (DBError ''converter is required for unmarshal'')
      | Some c \<Rightarrow>
          bindE (derefNonNilPointer dest) (\<lambda>(t, old).
            if kindOf t = KMap then unmarshalItemToMap c itm t old
            else if kindOf t = KStruct then unmarshalItemToStruct c (dxMetadata qe) itm t old
            else Inl (DBError ''destination must be a pointer to a struct or map'')))"

definition unmarshalElement :: "('w, 'p) queryExecutor \<Rightarrow> gtype \<Rightarrow> nat \<times> item \<Rightarrow> (dberror, gval) result" where
  "unmarshalElement qe et = (\<lambda>(i, itm).
     let base = (if kindOf et = KPointer then elemOf et else et) in
     bindE (mapErr (DBWrapped (''failed to unmarshal item '' @ showNat i)) (unmarshalItem qe itm (Some (TPtr base, VPtr (Some (zeroOf base)))))) (\<lambda>v.
       Inr (if kindOf et = KPointer then VPtr (Some v) else v)))"

definition unmarshalItems :: "('w, 'p) queryExecutor \<Rightarrow> item list \<Rightarrow> goany \<Rightarrow> (dberror, gval) result" where
  "unmarshalItems qe items dest =
     (case dest of
        Some (t, VPtr (Some old)) \<Rightarrow>
          (if kindOf t \<noteq> KPointer \<or> kindOf (elemOf t) \<noteq> KSlice then Inl (DBError ''destination must be a pointer to slice'')
           else let et = elemOf (elemOf t) in bindE (mapE (unmarshalElement qe et) (enumerate 0 items)) (\<lambda>vs. Inr (makeSlice et vs)))
      | _ \<Rightarrow> Inl (DBError ''destination must be a pointer to slice''))"

text \<open>What a read leaves in its destination: the items as they are, or a decoded value.\<close>

datatype readResult = RawItems "item list" | Decoded gval

definition writeItemsToDest :: "('w, 'p) queryExecutor \<Rightarrow> item list \<Rightarrow> readDest \<Rightarrow> (dberror, item list \<times> readResult) result" where
  "writeItemsToDest qe items dest =
     bindE (mapE (decryptItem qe) items) (\<lambda>decrypted.
       case dest of
         RawDest \<Rightarrow> Inr (decrypted, RawItems decrypted)
       | GoDest d \<Rightarrow> bindE (unmarshalItems qe decrypted d) (\<lambda>v. Inr (decrypted, Decoded v)))"

section \<open>Reads\<close>

definition buildDynamoQueryInput :: "CompiledQuery \<Rightarrow> DBQueryInput" where
  "buildDynamoQueryInput c =
     \<lparr> riTableName = cqTableName c, riIndexName = nonEmpty (cqIndexName c), riFilterExpression = nonEmpty (cqFilterExpression c),
       riProjectionExpression = nonEmpty (cqProjectionExpression c), riNames = cqExpressionAttributeNames c,
       riValues = cqExpressionAttributeValues c, riLimit = cqLimit c, riExclusiveStartKey = cqExclusiveStartKey c,
       riConsistentRead = cqConsistentRead c, qiKeyConditionExpression = nonEmpty (cqKeyConditionExpression c),
       qiScanIndexForward = cqScanIndexForward c, qiSelect = [] \<rparr>"

definition buildDynamoScanInput :: "CompiledQuery \<Rightarrow> DBScanInput" where
  "buildDynamoScanInput c =
     \<lparr> riTableName = cqTableName c, riIndexName = nonEmpty (cqIndexName c), riFilterExpression = nonEmpty (cqFilterExpression c),
       riProjectionExpression = nonEmpty (cqProjectionExpression c), riNames = cqExpressionAttributeNames c,
       riValues = cqExpressionAttributeValues c, riLimit = cqLimit c, riExclusiveStartKey = cqExclusiveStartKey c,
       riConsistentRead = cqConsistentRead c, siSegment = cqSegment c, siTotalSegments = cqTotalSegments c, siSelect = [] \<rparr>"

definition configureQueryCountInput :: "DBQueryInput \<Rightarrow> DBQueryInput" where
  "configureQueryCountInput r = r \<lparr> qiSelect := ''COUNT'', riLimit := None \<rparr>"

definition configureScanCountInput :: "DBScanInput \<Rightarrow> DBScanInput" where
  "configureScanCountInput r = r \<lparr> siSelect := ''COUNT'', riLimit := None \<rparr>"

definition compiledQueryLimit :: "CompiledQuery \<Rightarrow> nat option" where
  "compiledQueryLimit c = map_option (\<lambda>l. if l \<le> 0 then 0 else nat l) (cqLimit c)"

text \<open>The loops over the pages; a paginator can go on for ever.  The counters are \<open>int64\<close>.\<close>

partial_function (option) collectPaginatedCounts ::
  "('w, 'p) dbClient \<Rightarrow> int \<Rightarrow> int \<Rightarrow> 'p \<Rightarrow> 'w \<Rightarrow> ((dberror, int \<times> int) result \<times> 'w) option" where
  "collectPaginatedCounts client totalCount scannedCount p w =
     (if \<not> dcHasMorePages client p then Some (Inr (totalCount, scannedCount), w)
      else case dcNextPage client p w of
        (Inl e, p', w') \<Rightarrow> Some (Inl (callFailed ''failed to count items'' e), w')
      | (Inr page, p', w') \<Rightarrow>
          collectPaginatedCounts client (wrapInt 64 (totalCount + roCount page)) (wrapInt 64 (scannedCount + roScannedCount page)) p' w')"

partial_function (option) collectPaginatedItems ::
  "('w, 'p) dbClient \<Rightarrow> string \<Rightarrow> nat option \<Rightarrow> bool \<Rightarrow> item list \<Rightarrow> 'p \<Rightarrow> 'w \<Rightarrow> ((dberror, item list) result \<times> 'w) option" where
  "collectPaginatedItems client what maxItems trim items p w =
     (if \<not> dcHasMorePages client p then Some (Inr items, w)
      else case dcNextPage client p w of
        (Inl e, p', w') \<Rightarrow> Some (Inl (callFailed what e), w')
      | (Inr page, p', w') \<Rightarrow>
          (let items' = items @ roItems page in
           case maxItems of
             None \<Rightarrow> collectPaginatedItems client what maxItems trim items' p' w'
           | Some l \<Rightarrow>
               (if length items' \<ge> l then Some (Inr (if trim then take l items' else items'), w')
                else collectPaginatedItems client what maxItems trim items' p' w')))"

text \<open>\<open>SetInt\<close> and \<open>SetUint\<close> keep the low bits; a value of another kind is left as it is.\<close>

definition setIntLike :: "gtype \<Rightarrow> int \<Rightarrow> gval \<Rightarrow> gval" where
  "setIntLike t i old =
     (case underlying t of
        TInt s \<Rightarrow> VInt (wrapInt (intBits s) i)
      | TUint s \<Rightarrow> (if i \<ge> 0 then VUint (wrapUint (uintBits s) (nat i)) else old)
      | _ \<Rightarrow> old)"

definition setCountField :: "gtype \<Rightarrow> string \<Rightarrow> int \<Rightarrow> gval \<Rightarrow> gval" where
  "setCountField t name i v =
     (case fieldPath name t of
        None \<Rightarrow> v
      | Some (p, f) \<Rightarrow> (if \<not> sfExported f then v else case fieldByIndex p t v of None \<Rightarrow> v | Some (ft, old) \<Rightarrow> setByIndex p (setIntLike ft i old) v))"

definition writeCountResult :: "goany \<Rightarrow> int \<Rightarrow> int \<Rightarrow> (dberror, gval) result" where
  "writeCountResult dest cnt scannedCount =
     (case dest of
        Some (pt, VPtr (Some old)) \<Rightarrow>
          (if kindOf pt \<noteq> KPointer then Inl (DBError ''destination must be a pointer'')
           else let t = elemOf pt in
             case underlying t of
               TInt s \<Rightarrow> Inr (setIntLike t cnt old)
             | TUint s \<Rightarrow> (if cnt < 0 then Inl (DBError ''count is negative'') else Inr (setIntLike t cnt old))
             | _ \<Rightarrow>
                 (if kindOf t = KStruct then Inr (setCountField t ''ScannedCount'' scannedCount (setCountField t ''Count'' cnt old))
                  else Inl (DBError ''destination must be a pointer to an integer or struct'')))
      | _ \<Rightarrow> Inl (DBError ''destination must be a pointer''))"

definition isCountSelect :: "string \<Rightarrow> bool" where
  "isCountSelect s = (s = ''COUNT'')"

text \<open>\<open>readPagerSpec\<close>: the texts of the errors and the paginators of the two kinds of reads.\<close>

record ('w, 'p) readPagerSpec =
  rsNilErr :: string
  rsOperation :: string
  rsCountPager :: "('w, 'p) dbClient \<Rightarrow> CompiledQuery \<Rightarrow> 'p"
  rsItemPager :: "('w, 'p) dbClient \<Rightarrow> CompiledQuery \<Rightarrow> 'p"

definition queryReadPagerSpec :: "('w, 'p) readPagerSpec" where
  "queryReadPagerSpec = \<lparr> rsNilErr = ''compiled query cannot be nil'', rsOperation = ''query'',
     rsCountPager = (\<lambda>client c. dcQueryPaginator client (configureQueryCountInput (buildDynamoQueryInput c))),
     rsItemPager = (\<lambda>client c. dcQueryPaginator client (buildDynamoQueryInput c)) \<rparr>"

definition scanReadPagerSpec :: "('w, 'p) readPagerSpec" where
  "scanReadPagerSpec = \<lparr> rsNilErr = ''compiled scan cannot be nil'', rsOperation = ''scan'',
     rsCountPager = (\<lambda>client c. dcScanPaginator client (configureScanCountInput (buildDynamoScanInput c))),
     rsItemPager = (\<lambda>client c. dcScanPaginator client (buildDynamoScanInput c)) \<rparr>"

definition readClient :: "('w, 'p) queryExecutor \<Rightarrow> CompiledQuery option \<Rightarrow> string \<Rightarrow> string \<Rightarrow> 'w \<Rightarrow> (dberror, CompiledQuery \<times> ('w, 'p) dbClient) result" where
  "readClient qe input nilErr operation w =
     (case input of
        None \<Rightarrow> Inl (DBError nilErr)
      | Some c \<Rightarrow>
          bindE (checkLambdaTimeout qe w) (\<lambda>_.
          bindE (failClosedIfEncrypted qe) (\<lambda>_.
          bindE (clientFor qe operation) (\<lambda>client. Inr (c, client)))))"

text \<open>A destination for raw items is not an integer or a struct.\<close>

definition countDest :: "readDest \<Rightarrow> int \<times> int \<Rightarrow> (dberror, readResult) result" where
  "countDest dest = (\<lambda>(cnt, scannedCount).
     case dest of
       RawDest \<Rightarrow> Inl (DBError ''destination must be a pointer to an integer or struct'')
     | GoDest d \<Rightarrow> bindE (writeCountResult d cnt scannedCount) (\<lambda>v. Inr (Decoded v)))"

definition executeRead :: "('w, 'p) queryExecutor \<Rightarrow> CompiledQuery option \<Rightarrow> readDest \<Rightarrow> ('w, 'p) readPagerSpec \<Rightarrow> 'w \<Rightarrow> ((dberror, readResult) result \<times> 'w) option" where
  "executeRead qe input dest spec w =
     (case readClient qe input (rsNilErr spec) (rsOperation spec) w of
        Inl e \<Rightarrow> Some (Inl e, w)
      | Inr (c, client) \<Rightarrow>
          (if isCountSelect (cqSelect c) then
             map_option (\<lambda>(r, w'). (bindE r (countDest dest), w')) (collectPaginatedCounts client 0 0 (rsCountPager spec client c) w)
           else
             map_option (\<lambda>(r, w'). (bindE r (\<lambda>items. bindE (writeItemsToDest qe items dest) (\<lambda>(_, v). Inr v)), w'))
               (collectPaginatedItems client (''failed to '' @ rsOperation spec @ '' items'') (compiledQueryLimit c) True [] (rsItemPager spec client c) w)))"

definition ExecuteQuery :: "('w, 'p) queryExecutor \<Rightarrow> CompiledQuery option \<Rightarrow> readDest \<Rightarrow> 'w \<Rightarrow> ((dberror, readResult) result \<times> 'w) option" where
  "ExecuteQuery qe input dest w = executeRead qe input dest queryReadPagerSpec w"

definition ExecuteScan :: "('w, 'p) queryExecutor \<Rightarrow> CompiledQuery option \<Rightarrow> readDest \<Rightarrow> 'w \<Rightarrow> ((dberror, readResult) result \<times> 'w) option" where
  "ExecuteScan qe input dest w = executeRead qe input dest scanReadPagerSpec w"

text \<open>Single pages: the answer with its items decrypted, since they are decrypted in place.\<close>

record ('w, 'p) singlePageSpec =
  spNilErr :: string
  spOperation :: string
  spExecute :: "('w, 'p) dbClient \<Rightarrow> CompiledQuery \<Rightarrow> 'w \<Rightarrow> (dberror, PageOutput) result \<times> 'w"

definition executeQuerySinglePage :: "('w, 'p) dbClient \<Rightarrow> CompiledQuery \<Rightarrow> 'w \<Rightarrow> (dberror, PageOutput) result \<times> 'w" where
  "executeQuerySinglePage client c w =
     (case dcQuery client (buildDynamoQueryInput c) w of (r, w') \<Rightarrow> (mapErr (callFailed ''failed to execute query'') r, w'))"

definition executeScanSinglePage :: "('w, 'p) dbClient \<Rightarrow> CompiledQuery \<Rightarrow> 'w \<Rightarrow> (dberror, PageOutput) result \<times> 'w" where
  "executeScanSinglePage client c w =
     (case dcScan client (buildDynamoScanInput c) w of (r, w') \<Rightarrow> (mapErr (callFailed ''failed to execute scan'') r, w'))"

definition querySinglePageSpec :: "('w, 'p) singlePageSpec" where
  "querySinglePageSpec = \<lparr> spNilErr = ''compiled query cannot be nil'', spOperation = ''query'', spExecute = executeQuerySinglePage \<rparr>"

definition scanSinglePageSpec :: "('w, 'p) singlePageSpec" where
  "scanSinglePageSpec = \<lparr> spNilErr = ''compiled scan cannot be nil'', spOperation = ''scan'', spExecute = executeScanSinglePage \<rparr>"

definition executeReadWithPagination :: "('w, 'p) queryExecutor \<Rightarrow> CompiledQuery option \<Rightarrow> readDest \<Rightarrow> ('w, 'p) singlePageSpec \<Rightarrow> 'w
    \<Rightarrow> (dberror, PageOutput \<times> readResult) result \<times> 'w" where
  "executeReadWithPagination qe input dest spec w =
     (case readClient qe input (spNilErr spec) (spOperation spec) w of
        Inl e \<Rightarrow> (Inl e, w)
      | Inr (c, client) \<Rightarrow>
          (case spExecute spec client c w of
             (Inl e, w') \<Rightarrow> (Inl e, w')
           | (Inr page, w') \<Rightarrow> (bindE (writeItemsToDest qe (roItems page) dest) (\<lambda>(items, v). Inr (page \<lparr> roItems := items \<rparr>, v)), w')))"

definition ExecuteQueryWithPagination :: "('w, 'p) queryExecutor \<Rightarrow> CompiledQuery option \<Rightarrow> readDest \<Rightarrow> 'w \<Rightarrow> (dberror, PageOutput \<times> readResult) result \<times> 'w" where
  "ExecuteQueryWithPagination qe input dest w = executeReadWithPagination qe input dest querySinglePageSpec w"

definition ExecuteScanWithPagination :: "('w, 'p) queryExecutor \<Rightarrow> CompiledQuery option \<Rightarrow> readDest \<Rightarrow> 'w \<Rightarrow> (dberror, PageOutput \<times> readResult) result \<times> 'w" where
  "ExecuteScanWithPagination qe input dest w = executeReadWithPagination qe input dest scanSinglePageSpec w"

definition readyFor :: "('w, 'p) queryExecutor \<Rightarrow> 'w \<Rightarrow> (dberror, unit) result" where
  "readyFor qe w = bindE (checkLambdaTimeout qe w) (\<lambda>_. failClosedIfEncrypted qe)"

text \<open>The guards that the operations on single items share.\<close>

definition guarded :: "('w, 'p) queryExecutor \<Rightarrow> CompiledQuery option \<Rightarrow> item \<Rightarrow> string \<Rightarrow> 'w \<Rightarrow> (dberror, CompiledQuery) result" where
  "guarded qe input attributes emptyWhat w =
     (case input of
        None \<Rightarrow> Inl (DBError ''compiled query cannot be nil'')
      | Some c \<Rightarrow> (if attributes = [] then Inl (DBError (emptyWhat @ '' cannot be empty'')) else bindE (readyFor qe w) (\<lambda>_. Inr c)))"

definition getItemInput :: "CompiledQuery \<Rightarrow> item \<Rightarrow> GetItemInput" where
  "getItemInput c key = \<lparr> giTableName = cqTableName c, giKey = key, giProjectionExpression = nonEmpty (cqProjectionExpression c),
     giNames = cqExpressionAttributeNames c, giConsistentRead = cqConsistentRead c \<rparr>"

definition ExecuteGetItem :: "('w, 'p) queryExecutor \<Rightarrow> CompiledQuery option \<Rightarrow> item \<Rightarrow> readDest \<Rightarrow> 'w \<Rightarrow> (dberror, readValue) result \<times> 'w" where
  "ExecuteGetItem qe input key dest w =
     (case bindE (guarded qe input key ''key'' w) (\<lambda>c. bindE (clientFor qe ''get item'') (\<lambda>client. Inr (c, client))) of
        Inl e \<Rightarrow> (Inl e, w)
      | Inr (c, client) \<Rightarrow>
          (case dcGetItem client (getItemInput c key) w of
             (Inl e, w') \<Rightarrow> (Inl (callFailed ''failed to get item'' e), w')
           | (Inr None, w') \<Rightarrow> (Inl DBItemNotFound, w')
           | (Inr (Some itm), w') \<Rightarrow>
               (bindE (decryptItem qe itm) (\<lambda>decrypted.
                  case dest of
                    RawDest \<Rightarrow> Inr (RawValue decrypted)
                  | GoDest d \<Rightarrow> bindE (unmarshalItem qe decrypted d) (\<lambda>v. Inr (GoValue v))), w')))"

section \<open>Writes\<close>

definition isConditionalCheckFailedException :: "sdkError \<Rightarrow> bool" where
  "isConditionalCheckFailedException e = (case e of ConditionalCheckFailedException _ \<Rightarrow> True | OtherError _ \<Rightarrow> False)"

definition writeFailed :: "string \<Rightarrow> sdkError \<Rightarrow> dberror" where
  "writeFailed operation e =
     (if isConditionalCheckFailedException e then DBConditionFailed else callFailed (''failed to '' @ operation @ '' item'') e)"

definition writeInput :: "CompiledQuery \<Rightarrow> item \<Rightarrow> WriteInput" where
  "writeInput c attributes = \<lparr> wiTableName = cqTableName c, wiAttributes = attributes, wiConditionExpression = nonEmpty (cqConditionExpression c),
     wiNames = cqExpressionAttributeNames c, wiValues = cqExpressionAttributeValues c \<rparr>"

definition ExecutePutItem :: "('w, 'p) queryExecutor \<Rightarrow> CompiledQuery option \<Rightarrow> item \<Rightarrow> nat \<times> 'w \<Rightarrow> (dberror, unit) result \<times> nat \<times> 'w" where
  "ExecutePutItem qe input itm = (\<lambda>(n, w).
     case guarded qe input itm ''item'' w of
       Inl e \<Rightarrow> (Inl e, n, w)
     | Inr c \<Rightarrow>
         (case encryptItem qe itm n of
            (Inl e, n') \<Rightarrow> (Inl e, n', w)
          | (Inr enc, n') \<Rightarrow>
              (case clientFor qe ''put item'' of
                 Inl e \<Rightarrow> (Inl e, n', w)
               | Inr client \<Rightarrow> (case dcPutItem client (writeInput c enc) w of (r, w') \<Rightarrow> (mapErr (writeFailed ''put'') r, n', w')))))"

definition buildUpdateItemInput :: "('w, 'p) queryExecutor \<Rightarrow> CompiledQuery \<Rightarrow> item \<Rightarrow> nat \<Rightarrow> (dberror, UpdateItemInput) result \<times> nat" where
  "buildUpdateItemInput qe c key n =
     (let input = (\<lambda>values. \<lparr> uiTableName = cqTableName c, uiKey = key, uiUpdateExpression = Some (cqUpdateExpression c),
                     uiConditionExpression = nonEmpty (cqConditionExpression c), uiNames = cqExpressionAttributeNames c, uiValues = values,
                     uiReturnValues = cqReturnValues c \<rparr>) in
      if \<not> encryptedModel qe then (Inr (input (cqExpressionAttributeValues c)), n)
      else case encryptionService qe of
        Inl e \<Rightarrow> (Inl e, n)
      | Inr svc \<Rightarrow>
          (case EncryptUpdateExpressionValues (Some svc) (dxMetadata qe) (cqUpdateExpression c) (cqExpressionAttributeNames c) (cqExpressionAttributeValues c, n) of
             (Inl e, _, n') \<Rightarrow> (Inl (DBEncryption e), n')
           | (Inr _, values, n') \<Rightarrow> (Inr (input values), n')))"

definition updateCall :: "('w, 'p) queryExecutor \<Rightarrow> CompiledQuery option \<Rightarrow> item \<Rightarrow> nat \<times> 'w \<Rightarrow> (dberror, item) result \<times> nat \<times> 'w" where
  "updateCall qe input key = (\<lambda>(n, w).
     case bindE (guarded qe input key ''key'' w) (\<lambda>c. bindE (clientFor qe ''update item'') (\<lambda>client. Inr (c, client))) of
       Inl e \<Rightarrow> (Inl e, n, w)
     | Inr (c, client) \<Rightarrow>
         (case buildUpdateItemInput qe c key n of
            (Inl e, n') \<Rightarrow> (Inl e, n', w)
          | (Inr ui, n') \<Rightarrow> (case dcUpdateItem client ui w of (r, w') \<Rightarrow> (mapErr (writeFailed ''update'') r, n', w'))))"

definition ExecuteUpdateItem :: "('w, 'p) queryExecutor \<Rightarrow> CompiledQuery option \<Rightarrow> item \<Rightarrow> nat \<times> 'w \<Rightarrow> (dberror, unit) result \<times> nat \<times> 'w" where
  "ExecuteUpdateItem qe input key st = (case updateCall qe input key st of (r, st') \<Rightarrow> (bindE r (\<lambda>_. Inr ()), st'))"

definition ExecuteUpdateItemWithResult :: "('w, 'p) queryExecutor \<Rightarrow> CompiledQuery option \<Rightarrow> item \<Rightarrow> nat \<times> 'w \<Rightarrow> (dberror, item) result \<times> nat \<times> 'w" where
  "ExecuteUpdateItemWithResult qe input key st = (case updateCall qe input key st of (r, st') \<Rightarrow> (bindE r (decryptItem qe), st'))"

definition ExecuteDeleteItem :: "('w, 'p) queryExecutor \<Rightarrow> CompiledQuery option \<Rightarrow> item \<Rightarrow> 'w \<Rightarrow> (dberror, unit) result \<times> 'w" where
  "ExecuteDeleteItem qe input key w =
     (case bindE (guarded qe input key ''key'' w) (\<lambda>c. bindE (clientFor qe ''delete item'') (\<lambda>client. Inr (c, client))) of
        Inl e \<Rightarrow> (Inl e, w)
      | Inr (c, client) \<Rightarrow> (case dcDeleteItem client (writeInput c key) w of (r, w') \<Rightarrow> (mapErr (writeFailed ''delete'') r, w')))"

section \<open>Batches\<close>

definition buildKeysAndAttributes :: "CompiledBatchGet \<Rightarrow> KeysAndAttributes" where
  "buildKeysAndAttributes input =
     \<lparr> kaKeys = cbKeys input, kaProjectionExpression = nonEmpty (cbProjectionExpression input), kaNames = cbExpressionAttributeNames input,
       kaConsistentRead = (if cbConsistentRead input then Some True else None) \<rparr>"

definition countUnprocessedKeys :: "(string \<times> KeysAndAttributes) list \<Rightarrow> nat" where
  "countUnprocessedKeys unprocessed = sum_list (map (\<lambda>(_, entry). length (kaKeys entry)) unprocessed)"

definition cryptoFloat64 :: "64 word \<Rightarrow> rat" where
  "cryptoFloat64 b = of_nat (unat (drop_bit 11 b)) / 2 ^ 53"

definition calculateBatchRetryDelay :: "RetryPolicy option \<Rightarrow> nat \<Rightarrow> 64 word option \<Rightarrow> int" where
  "calculateBatchRetryDelay policy attempt rnd =
     (case policy of
        None \<Rightarrow> 0
      | Some p \<Rightarrow>
          (let d0 = (if InitialDelay p \<le> 0 then 50000000 else InitialDelay p);
               d1 = (if attempt > 0 then truncRat (of_int d0 * BackoffFactor p ^ attempt) else d0);
               d2 = (if MaxDelay p > 0 \<and> d1 > MaxDelay p then MaxDelay p else d1) in
           if Jitter p > 0 then
             (let d3 = (case rnd of None \<Rightarrow> d2 | Some b \<Rightarrow> d2 + truncRat ((cryptoFloat64 b * 2 - 1) * Jitter p * of_int d2)) in
              if d3 < 0 then (if InitialDelay p \<le> 0 then 50000000 else InitialDelay p) else d3)
           else d2))"

text \<open>The items of an answer, decrypted one after the other onto those collected before.\<close>

fun collectDecrypted :: "('w, 'p) queryExecutor \<Rightarrow> item list \<Rightarrow> item list \<Rightarrow> item list \<times> dberror option" where
  "collectDecrypted qe [] collected = (collected, None)"
| "collectDecrypted qe (itm # items) collected =
     (case decryptItem qe itm of Inl e \<Rightarrow> (collected, Some e) | Inr d \<Rightarrow> collectDecrypted qe items (collected @ [d]))"

text \<open>As in the main executor, \<open>sleep\<close> is the pause and \<open>rnds\<close> are the random bytes of each attempt.\<close>

function executeBatchGetWithRetry ::
  "('w, 'p) queryExecutor \<Rightarrow> ('w, 'p) dbClient \<Rightarrow> (int \<Rightarrow> 'w \<Rightarrow> 'w) \<Rightarrow> (nat \<Rightarrow> 64 word option) \<Rightarrow> string \<Rightarrow> RetryPolicy option \<Rightarrow> nat
     \<Rightarrow> (string \<times> KeysAndAttributes) list \<Rightarrow> item list \<Rightarrow> 'w \<Rightarrow> (item list \<times> dberror option) \<times> 'w" where
  "executeBatchGetWithRetry qe client sleep rnds tn policy retryAttempt requestItems collected w =
     (if requestItems = [] then ((collected, None), w)
      else case dcBatchGetItem client requestItems w of
        (Inl e, w1) \<Rightarrow> ((collected, Some (callFailed ''failed to batch get items'' e)), w1)
      | (Inr out, w1) \<Rightarrow>
          (case collectDecrypted qe (case map_of (bgoResponses out) tn of None \<Rightarrow> [] | Some items \<Rightarrow> items) collected of
             (collected', Some e) \<Rightarrow> ((collected', Some e), w1)
           | (collected', None) \<Rightarrow>
               (let unprocessed = bgoUnprocessedKeys out; remaining = countUnprocessedKeys unprocessed;
                    exhausted = ((collected', Some (DBError (''batch get exhausted retries with '' @ showNat remaining @ '' unprocessed keys''))), w1) in
                if remaining = 0 then ((collected', None), w1)
                else case policy of
                  None \<Rightarrow> exhausted
                | Some p \<Rightarrow>
                    (if int retryAttempt \<ge> MaxRetries p then exhausted
                     else executeBatchGetWithRetry qe client sleep rnds tn policy (retryAttempt + 1) unprocessed collected'
                            (sleep (calculateBatchRetryDelay (Some p) retryAttempt (rnds retryAttempt)) w1)))))"
  by pat_completeness auto
termination
  by (relation "measure (\<lambda>(qe, client, sleep, rnds, tn, policy, a, reqs, acc, w). case policy of None \<Rightarrow> 0 | Some p \<Rightarrow> nat (MaxRetries p - int a))") auto

declare executeBatchGetWithRetry.simps [simp del]

text \<open>Options that are given are used as they are.\<close>

definition normalizeBatchGetOptions :: "'w BatchGetOptions option \<Rightarrow> 'w BatchGetOptions" where
  "normalizeBatchGetOptions given = (case given of None \<Rightarrow> DefaultBatchGetOptions | Some opts \<Rightarrow> opts)"

definition ExecuteBatchGet :: "('w, 'p) queryExecutor \<Rightarrow> (int \<Rightarrow> 'w \<Rightarrow> 'w) \<Rightarrow> (nat \<Rightarrow> 64 word option) \<Rightarrow> CompiledBatchGet option
    \<Rightarrow> 'w BatchGetOptions option \<Rightarrow> 'w \<Rightarrow> (item list \<times> dberror option) \<times> 'w" where
  "ExecuteBatchGet qe sleep rnds input given w =
     (case input of
        None \<Rightarrow> (([], Some (DBError ''compiled batch get cannot be nil'')), w)
      | Some c \<Rightarrow>
          (if cbKeys c = [] then (([], None), w)
           else case bindE (readyFor qe w) (\<lambda>_. clientFor qe ''batch get'') of
             Inl e \<Rightarrow> (([], Some e), w)
           | Inr client \<Rightarrow>
               executeBatchGetWithRetry qe client sleep rnds (cbTableName c) (bgRetryPolicy (normalizeBatchGetOptions given)) 0 [(cbTableName c, buildKeysAndAttributes c)] [] w))"

text \<open>The items of the puts are encrypted in place, one after the other.\<close>

fun encryptRequests :: "('w, 'p) queryExecutor \<Rightarrow> WriteRequest list \<Rightarrow> nat \<Rightarrow> (dberror, WriteRequest list) result \<times> nat" where
  "encryptRequests qe [] n = (Inr [], n)"
| "encryptRequests qe (DeleteRequest key # reqs) n =
     (case encryptRequests qe reqs n of (r, n') \<Rightarrow> (bindE r (\<lambda>rs. Inr (DeleteRequest key # rs)), n'))"
| "encryptRequests qe (PutRequest itm # reqs) n =
     (case (if itm = [] then (Inr itm, n) else encryptItem qe itm n) of
        (Inl e, n1) \<Rightarrow> (Inl e, n1)
      | (Inr enc, n1) \<Rightarrow> (case encryptRequests qe reqs n1 of (r, n') \<Rightarrow> (bindE r (\<lambda>rs. Inr (PutRequest enc # rs)), n')))"

definition ExecuteBatchWriteItem :: "('w, 'p) queryExecutor \<Rightarrow> string \<Rightarrow> WriteRequest list \<Rightarrow> nat \<times> 'w
    \<Rightarrow> (dberror, (string \<times> WriteRequest list) list) result \<times> nat \<times> 'w" where
  "ExecuteBatchWriteItem qe tn reqs = (\<lambda>(n, w).
     case checkLambdaTimeout qe w of
       Inl e \<Rightarrow> (Inl e, n, w)
     | Inr _ \<Rightarrow>
         (if reqs = [] then (Inr [], n, w)
          else if length reqs > 25 then (Inl (DBError (''batch write supports maximum 25 items per request, got '' @ showNat (length reqs))), n, w)
          else case failClosedIfEncrypted qe of
            Inl e \<Rightarrow> (Inl e, n, w)
          | Inr _ \<Rightarrow>
              (case (if encryptedModel qe then encryptRequests qe reqs n else (Inr reqs, n)) of
                 (Inl e, n') \<Rightarrow> (Inl e, n', w)
               | (Inr sealed, n') \<Rightarrow>
                   (case clientFor qe ''batch write'' of
                      Inl e \<Rightarrow> (Inl e, n', w)
                    | Inr client \<Rightarrow> (case dcBatchWriteItem client [(tn, sealed)] w of (r, w') \<Rightarrow> (mapErr (callFailed ''batch write failed'') r, n', w'))))))"

text \<open>What is left unprocessed is sent again, without a bound.\<close>

partial_function (option) batchWriteLoop ::
  "('w, 'p) queryExecutor \<Rightarrow> string \<Rightarrow> WriteRequest list \<Rightarrow> nat \<times> 'w \<Rightarrow> ((dberror, unit) result \<times> nat \<times> 'w) option" where
  "batchWriteLoop qe tn reqs st =
     (case ExecuteBatchWriteItem qe tn reqs st of
        (Inl e, st') \<Rightarrow> Some (Inl e, st')
      | (Inr unprocessed, st') \<Rightarrow>
          (let rest = concat (map snd unprocessed) in if rest = [] then Some (Inr (), st') else batchWriteLoop qe tn rest st'))"

fun batchWriteAll :: "('w, 'p) queryExecutor \<Rightarrow> string \<Rightarrow> item list list \<Rightarrow> nat \<times> 'w \<Rightarrow> ((dberror, unit) result \<times> nat \<times> 'w) option" where
  "batchWriteAll qe tn [] st = Some (Inr (), st)"
| "batchWriteAll qe tn (batch # batches) st =
     (case batchWriteLoop qe tn (map PutRequest batch) st of
        None \<Rightarrow> None
      | Some (Inl e, st') \<Rightarrow> Some (Inl e, st')
      | Some (Inr _, st') \<Rightarrow> batchWriteAll qe tn batches st')"

definition ExecuteBatchWrite :: "('w, 'p) queryExecutor \<Rightarrow> (string \<times> item list) option \<Rightarrow> nat \<times> 'w \<Rightarrow> ((dberror, unit) result \<times> nat \<times> 'w) option" where
  "ExecuteBatchWrite qe input st =
     (case input of
        None \<Rightarrow> Some (Inl (DBError ''compiled batch write cannot be nil''), st)
      | Some (tn, items) \<Rightarrow>
          (if items = [] then Some (Inr (), st)
           else case readyFor qe (snd st) of
             Inl e \<Rightarrow> Some (Inl e, st)
           | Inr _ \<Rightarrow> batchWriteAll qe tn (windows 25 items) st))"

section \<open>Agreement with the main executor\<close>

text \<open>The two executors have their own copies of several functions, which agree.\<close>

lemma same_read_inputs:
  "QueryInput.truncate (buildDynamoQueryInput c) = Executor.buildDynamoQueryInput c"
  "ScanInput.truncate (buildDynamoScanInput c) = Executor.buildDynamoScanInput c"
  by (simp_all add: paginated_inputs[symmetric] paginatedQueryInput_def paginatedScanInput_def buildDynamoQueryInput_def buildDynamoScanInput_def
      QueryInput.defs ScanInput.defs)

lemma same_batch_helpers:
  "buildKeysAndAttributes input = Executor.buildKeysAndAttributes input" "countUnprocessedKeys u = Executor.countUnprocessedKeys u"
  "calculateBatchRetryDelay policy attempt rnd = Executor.calculateBatchRetryDelay policy attempt rnd"
  unfolding buildKeysAndAttributes_def Executor.buildKeysAndAttributes_def countUnprocessedKeys_def Executor.countUnprocessedKeys_def
    calculateBatchRetryDelay_def Executor.calculateBatchRetryDelay_def cryptoFloat64_def Executor.cryptoFloat64_def baseDelay_def
  by (rule refl)+

section \<open>Encrypted items\<close>

text \<open>The maps of fields by Go name and by attribute agree on the encrypted fields, and no two fields share an attribute.\<close>

definition encryptedNames :: "FieldMetadata list \<Rightarrow> string set" where
  "encryptedNames fms = DBName ` set (filter IsEncrypted fms)"

definition namesAgree :: "Metadata \<Rightarrow> bool" where
  "namesAgree md = (distinct (map (\<lambda>p. DBName (snd p)) (Fields md))
     \<and> (\<forall>a. (\<exists>fm. map_of (FieldsByDBName md) a = Some fm \<and> IsEncrypted fm) \<longleftrightarrow> a \<in> encryptedNames (map snd (Fields md)))
     \<and> (\<forall>a fm. map_of (FieldsByDBName md) a = Some fm \<longrightarrow> DBName fm = a))"

text \<open>The item that is sent: envelopes in the place of the encrypted attributes, the other attributes as they are, in the same order.\<close>

definition sealedPair :: "Service \<Rightarrow> string set \<Rightarrow> string \<times> attrval \<Rightarrow> string \<times> attrval \<Rightarrow> bool" where
  "sealedPair svc encrypted p q =
     (fst q = fst p \<and> (if fst p \<in> encrypted then envelopeFor (Some svc) (fst p) (snd p) (snd q) else snd q = snd p))"

definition sealedItem :: "Service \<Rightarrow> string set \<Rightarrow> item \<Rightarrow> item \<Rightarrow> bool" where
  "sealedItem svc encrypted = list_all2 (sealedPair svc encrypted)"

lemma sealedItem_same: "\<forall>p \<in> set itm. fst p \<notin> encs \<Longrightarrow> sealedItem svc encs itm itm"
  unfolding sealedItem_def by (rule list.rel_refl_strong) (simp add: sealedPair_def)

lemma sealedItem_absent: "sealedItem svc encs itm out \<Longrightarrow> a \<notin> fst ` set itm \<Longrightarrow> sealedItem svc (insert a encs) itm out"
  unfolding sealedItem_def by (erule list.rel_mono_strong) (auto simp: sealedPair_def)

lemma sealedItem_step: "sealedItem svc {a} itm mid \<Longrightarrow> sealedItem svc encs mid out \<Longrightarrow> a \<notin> encs \<Longrightarrow> sealedItem svc (insert a encs) itm out"
  unfolding sealedItem_def by (rule list_all2_trans[of "sealedPair svc {a}"]) (auto simp: sealedPair_def split: if_splits)

lemma sealedItem_update:
  "distinct (map fst itm) \<Longrightarrow> map_of itm a = Some v \<Longrightarrow> envelopeFor (Some svc) a v enc \<Longrightarrow> sealedItem svc {a} itm (AList.update a enc itm)"
proof (induction itm)
  case (Cons p itm)
  show ?case
  proof (cases "fst p = a")
    case True
    then have "sealedItem svc {a} itm itm" using Cons.prems(1) by (intro sealedItem_same) (auto simp: image_iff)
    then show ?thesis using True Cons.prems by (cases p) (simp add: sealedItem_def sealedPair_def)
  next
    case False
    then show ?thesis using Cons by (cases p) (simp add: sealedItem_def sealedPair_def)
  qed
qed simp

lemma sealed_by_encryptFields:
  "encryptFields svc fms itm n = (Inr out, n') \<Longrightarrow> distinct (map DBName fms) \<Longrightarrow> distinct (map fst itm)
   \<Longrightarrow> sealedItem svc (encryptedNames fms) itm out"
proof (induction fms arbitrary: itm n)
  case Nil
  then show ?case using sealedItem_same[of itm "{}"] by (simp add: encryptedNames_def)
next
  case (Cons fm fms)
  have names: "encryptedNames (fm # fms) = (if IsEncrypted fm then insert (DBName fm) (encryptedNames fms) else encryptedNames fms)"
    by (simp add: encryptedNames_def)
  have new: "DBName fm \<notin> encryptedNames fms" using Cons.prems(2) by (auto simp: encryptedNames_def)
  consider "\<not> IsEncrypted fm" | "IsEncrypted fm" "map_of itm (DBName fm) = None" | v where "IsEncrypted fm" "map_of itm (DBName fm) = Some v"
    by (cases "map_of itm (DBName fm)") auto
  then show ?case
  proof cases
    case 2
    then have "sealedItem svc (encryptedNames fms) itm out" using Cons by simp
    from sealedItem_absent[OF this, of "DBName fm"] show ?thesis using 2 by (simp add: names map_of_eq_None_iff)
  next
    case 3
    then obtain e where e: "EncryptAttributeValue n (Some svc) (DBName fm) v = Inr e"
        "encryptFields svc fms (AList.update (DBName fm) e itm) (n + 1) = (Inr out, n')"
      using Cons.prems(1) by (auto split: sum.splits)
    have rest: "sealedItem svc (encryptedNames fms) (AList.update (DBName fm) e itm) out"
      by (rule Cons.IH[OF e(2)]) (use Cons.prems in \<open>simp_all add: distinct_update\<close>)
    have "sealedItem svc {DBName fm} itm (AList.update (DBName fm) e itm)"
      by (rule sealedItem_update[OF Cons.prems(3) 3(2)]) (use e(1) in \<open>auto simp: envelopeFor_def\<close>)
    from sealedItem_step[OF this rest new] show ?thesis using 3(1) by (simp add: names)
  qed (use Cons in \<open>simp add: names\<close>)
qed

text \<open>Decryption gives back what was sealed.\<close>

lemma decryptAttribute_sealed:
  assumes "sealedPair svc (encryptedNames (map snd (Fields md))) p q" "namesAgree md" "encodable (snd p)"
    and "svcKms svc = Some kms" "kmsLaw kms" "randLaw svc" "gcmLaw (svcGcm svc)"
  shows "decryptAttribute svc md q = Inr p"
proof (cases "fst p \<in> encryptedNames (map snd (Fields md))")
  case True
  then obtain fm where fm: "map_of (FieldsByDBName md) (fst p) = Some fm" "IsEncrypted fm" "DBName fm = fst p"
    using assms(2) unfolding namesAgree_def by blast
  obtain j where "EncryptAttributeValue j (Some svc) (fst p) (snd p) = Inr (snd q)" "fst q = fst p"
    using assms(1) True by (auto simp: sealedPair_def envelopeFor_def)
  then show ?thesis using fm opens_sealed[OF _ assms(3-7)] by (cases p; cases q) (simp add: decryptAttribute_def)
next
  case False
  then have "q = p" using assms(1) by (auto simp: sealedPair_def prod_eq_iff)
  moreover have "\<not> IsEncrypted fm" if "map_of (FieldsByDBName md) (fst p) = Some fm" for fm
    using False that assms(2) by (auto simp: namesAgree_def)
  ultimately show ?thesis by (cases p) (auto simp: decryptAttribute_def split: option.split)
qed

lemma decrypt_sealedItem:
  assumes "sealedItem svc (encryptedNames (map snd (Fields md))) itm enc" "namesAgree md" "\<forall>p \<in> set itm. encodable (snd p)"
    and "svcKms svc = Some kms" "kmsLaw kms" "randLaw svc" "gcmLaw (svcGcm svc)"
  shows "mapE (decryptAttribute svc md) enc = Inr itm"
proof -
  have "list_all2 (\<lambda>q p. decryptAttribute svc md q = Inr p) enc itm"
    using assms(1,3) unfolding sealedItem_def list_all2_conv_all_nth
    by (auto intro: decryptAttribute_sealed[OF _ assms(2) _ assms(4-7)])
  then show ?thesis by (simp add: mapE_Inr)
qed

lemma sealedItem_plain: "sealedItem svc encs itm enc \<Longrightarrow> a \<notin> encs \<Longrightarrow> map_of enc a = map_of itm a"
  unfolding sealedItem_def by (induction rule: list_all2_induct) (auto simp: sealedPair_def split: if_splits)

lemma no_encrypted_names: "\<not> MetadataHasEncryptedFields (Some md) \<Longrightarrow> encryptedNames (map snd (Fields md)) = {}"
  by (auto simp: MetadataHasEncryptedFields_def isEncryptedField_def encryptedNames_def list_ex_iff)

lemma encryptItem_sealed:
  assumes "encryptItem qe itm n = (Inr enc, n')" "dxMetadata qe = Some md" "namesAgree md" "distinct (map fst itm)"
  shows "sealedItem (dxService qe) (encryptedNames (map snd (Fields md))) itm enc"
proof (cases "itm = [] \<or> \<not> encryptedModel qe")
  case True
  then have "enc = itm" "itm = [] \<or> encryptedNames (map snd (Fields md)) = {}"
    using assms(1,2) no_encrypted_names[of md] by (auto simp: encryptItem_def encryptedModel_def)
  then show ?thesis by (auto intro: sealedItem_same)
next
  case False
  then have "encryptFields (dxService qe) (map snd (Fields md)) itm n = (Inr enc, n')"
    using assms(1,2) by (auto simp: encryptItem_def encryptionService_def bindE_eq_Inr split: sum.splits option.splits if_splits)
  then show ?thesis by (rule sealed_by_encryptFields) (use assms(3,4) in \<open>simp_all add: namesAgree_def comp_def\<close>)
qed

lemma decryptItem_sealed:
  assumes "sealedItem (dxService qe) (encryptedNames (map snd (Fields md))) itm enc" "dxMetadata qe = Some md" "namesAgree md"
    and "failClosedIfEncrypted qe = Inr ()" "\<forall>p \<in> set itm. encodable (snd p)"
    and "svcKms (dxService qe) = Some kms" "kmsLaw kms" "randLaw (dxService qe)" "gcmLaw (svcGcm (dxService qe))"
  shows "decryptItem qe enc = Inr itm"
proof (cases "enc = [] \<or> \<not> encryptedModel qe")
  case True
  then have "enc = itm"
    using assms(1,2) no_encrypted_names[of md] sealedItem_same[of itm "{}" "dxService qe"]
    by (auto simp: sealedItem_def encryptedModel_def sealedPair_def list_all2_conv_all_nth prod_eq_iff intro: nth_equalityI)
  then show ?thesis using True assms(2) by (auto simp: decryptItem_def)
next
  case False
  then have "encryptionService qe = Inr (dxService qe)"
    using assms(2,4) by (auto simp: failClosedIfEncrypted_def FailClosedIfEncryptedWithoutKMSKeyARN_def encryptedModel_def encryptionService_def
        Let_def split: if_splits option.splits)
  then show ?thesis using False assms(2,4) decrypt_sealedItem[OF assms(1,3,5-9)] by (simp add: decryptItem_def)
qed

section \<open>A read returns what was written\<close>

text \<open>What the code relies on: a strongly consistent read of the whole item under the key of an item that was just put, when it is
  answered, finds the item as it was sent.\<close>

definition storedLaw :: "('w, 'p) dbClient \<Rightarrow> bool" where
  "storedLaw client = (\<forall>wi w w' gi found w''. dcPutItem client wi w = (Inr (), w') \<and> giTableName gi = wiTableName wi
     \<and> giProjectionExpression gi = None \<and> giConsistentRead gi = Some True \<and> giKey gi \<noteq> [] \<and> keyMatchesItem (giKey gi) (wiAttributes wi)
     \<and> dcGetItem client gi w' = (Inr found, w'') \<longrightarrow> found = Some (wiAttributes wi))"

text \<open>C12. Encryption between the application and the table is transparent and complete.  When \<open>ExecutePutItem\<close> succeeds, the item that
  DynamoDB got has an envelope of the value in the place of every encrypted attribute and the other attributes as they were; and a following
  strongly consistent \<open>ExecuteGetItem\<close> under the item's key gives the item that was put: as it is, or decoded into the destination; unless
  the client fails or the deadline of the Lambda function is reached.\<close>

theorem put_then_get:
  assumes "ExecutePutItem qe (Some c) itm (n, w) = (Inr (), n', w')" "dxClient qe = Inr client" "storedLaw client"
    and "dxMetadata qe = Some md" "namesAgree md" "distinct (map fst itm)" "\<forall>p \<in> set itm. encodable (snd p)"
    and "svcKms (dxService qe) = Some kms" "kmsLaw kms" "randLaw (dxService qe)" "gcmLaw (svcGcm (dxService qe))"
    and "key \<noteq> []" "keyMatchesItem key itm" "fst ` set key \<inter> encryptedNames (map snd (Fields md)) = {}"
    and "cqTableName r = cqTableName c" "cqProjectionExpression r = []" "cqConsistentRead r = Some True"
  shows "(\<exists>enc. dcPutItem client (writeInput c enc) w = (Inr (), w') \<and> sealedItem (dxService qe) (encryptedNames (map snd (Fields md))) itm enc)
     \<and> fst (ExecuteGetItem qe (Some r) key dest w') =
         (case readyFor qe w' of
            Inl e \<Rightarrow> Inl e
          | Inr _ \<Rightarrow>
              (case fst (dcGetItem client (getItemInput r key) w') of
                 Inl e \<Rightarrow> Inl (callFailed ''failed to get item'' e)
               | Inr _ \<Rightarrow> (case dest of RawDest \<Rightarrow> Inr (RawValue itm) | GoDest d \<Rightarrow> bindE (unmarshalItem qe itm d) (\<lambda>v. Inr (GoValue v)))))"
proof -
  obtain enc where enc: "encryptItem qe itm n = (Inr enc, n')" "dcPutItem client (writeInput c enc) w = (Inr (), w')" "readyFor qe w = Inr ()"
    using assms(1,2) by (auto simp: ExecutePutItem_def guarded_def clientFor_def bindE_eq_Inr split: sum.splits prod.splits if_splits)
  note sealed = encryptItem_sealed[OF enc(1) assms(4,5,6)]
  have closed: "failClosedIfEncrypted qe = Inr ()" using enc(3) by (auto simp: readyFor_def bindE_eq_Inr)
  note plain = decryptItem_sealed[OF sealed assms(4,5) closed assms(7-11)]
  have "keyMatchesItem key enc"
    using assms(13,14) sealedItem_plain[OF sealed] by (fastforce simp: keyMatchesItem_def list_all_iff)
  then have found: "found = Some enc" if "dcGetItem client (getItemInput r key) w' = (Inr found, w2)" for found w2
    using assms(3)[unfolded storedLaw_def, rule_format, of "writeInput c enc" w w' "getItemInput r key" found w2] enc(2) that assms(12,15-17)
    by (simp add: writeInput_def getItemInput_def nonEmpty_def)
  have "fst (ExecuteGetItem qe (Some r) key dest w') =
         (case readyFor qe w' of
            Inl e \<Rightarrow> Inl e
          | Inr _ \<Rightarrow>
              (case fst (dcGetItem client (getItemInput r key) w') of
                 Inl e \<Rightarrow> Inl (callFailed ''failed to get item'' e)
               | Inr _ \<Rightarrow> (case dest of RawDest \<Rightarrow> Inr (RawValue itm) | GoDest d \<Rightarrow> bindE (unmarshalItem qe itm d) (\<lambda>v. Inr (GoValue v)))))"
  proof (cases "readyFor qe w'")
    case (Inr u)
    obtain res w2 where call: "dcGetItem client (getItemInput r key) w' = (res, w2)" by (cases "dcGetItem client (getItemInput r key) w'")
    then show ?thesis using Inr assms(2,12) plain found
      by (cases res) (auto simp: ExecuteGetItem_def guarded_def clientFor_def)
  qed (use assms(12) in \<open>simp add: ExecuteGetItem_def guarded_def\<close>)
  then show ?thesis using enc(2) sealed by blast
qed

text \<open>A table that keeps the items put into it, the last first.\<close>

definition demoTable :: "((string \<times> item) list, unit) dbClient" where
  "demoTable = \<lparr> dcQuery = (\<lambda>_ w. (Inl (OtherError ''unused''), w)), dcScan = (\<lambda>_ w. (Inl (OtherError ''unused''), w)),
     dcQueryPaginator = (\<lambda>_. ()), dcScanPaginator = (\<lambda>_. ()), dcHasMorePages = (\<lambda>_. False), dcNextPage = (\<lambda>p w. (Inl (OtherError ''unused''), p, w)),
     dcGetItem = (\<lambda>gi w. (Inr (map_option snd (find (\<lambda>e. fst e = giTableName gi \<and> keyMatchesItem (giKey gi) (snd e)) w)), w)),
     dcPutItem = (\<lambda>wi w. (Inr (), (wiTableName wi, wiAttributes wi) # w)), dcDeleteItem = (\<lambda>_ w. (Inl (OtherError ''unused''), w)),
     dcUpdateItem = (\<lambda>_ w. (Inl (OtherError ''unused''), w)), dcBatchGetItem = (\<lambda>_ w. (Inl (OtherError ''unused''), w)),
     dcBatchWriteItem = (\<lambda>_ w. (Inl (OtherError ''unused''), w)) \<rparr>"

definition userField :: "string \<Rightarrow> string \<Rightarrow> nat \<Rightarrow> bool \<Rightarrow> FieldMetadata" where
  "userField name attr i enc = \<lparr> fmType = TString, IndexInfo = [], Tags = [], DBName = attr, fmName = name, IndexPath = [i], fmIndex = i,
     IsPK = (i = 0), IsEncrypted = enc, IsVersion = False, IsTTL = False, IsCreatedAt = False, IsUpdatedAt = False, IsSet = False,
     OmitEmpty = False, IsSK = False \<rparr>"

definition userMetadata :: Metadata where
  "userMetadata = (newMetadata exampleUser ''users'' CamelCase)
     \<lparr> Fields := [(''ID'', userField ''ID'' ''id'' 0 False), (''Secret'', userField ''Secret'' ''secret'' 2 True)],
       FieldsByDBName := [(''id'', userField ''ID'' ''id'' 0 False), (''secret'', userField ''Secret'' ''secret'' 2 True)] \<rparr>"

definition demoExecutor :: "string option \<Rightarrow> ((string \<times> item) list, unit) queryExecutor" where
  "demoExecutor arn = \<lparr> dxKeyARN = arn, dxService = toyService, dxClient = Inr demoTable, dxMetadata = Some userMetadata,
     dxConverter = Some plainConverter, dxDeadline = None, dxBuffer = 0, dxNow = (\<lambda>_. 0) \<rparr>"

definition demoItem :: item where
  "demoItem = [(''id'', AVS ''u1''), (''secret'', AVS ''x'')]"

lemma userMetadata_names: "encryptedNames (map snd (Fields userMetadata)) = {''secret''}" "namesAgree userMetadata"
  by (auto simp: namesAgree_def encryptedNames_def userMetadata_def userField_def newMetadata_def)

lemma demoTable_law: "storedLaw demoTable"
  by (auto simp: storedLaw_def demoTable_def)

lemma demoItem_encodable: "\<forall>p \<in> set demoItem. encodable (snd p)"
  by (simp add: demoItem_def encodable_def ascii_valid omitNil_def omitEmptyList_def omitEmptyMap_def maxNestingDepth_def)

theorem put_then_get_witness:
  "fst (ExecuteGetItem (demoExecutor (Some ''arn'')) (Some (emptyCompiled \<lparr> cqTableName := ''users'', cqConsistentRead := Some True \<rparr>)) [(''id'', AVS ''u1'')] RawDest
     (snd (snd (ExecutePutItem (demoExecutor (Some ''arn'')) (Some (emptyCompiled \<lparr> cqTableName := ''users'' \<rparr>)) demoItem (0, [])))))
   = Inr (RawValue demoItem)"
proof -
  let ?qe = "demoExecutor (Some ''arn'')" and ?c = "emptyCompiled \<lparr> cqTableName := ''users'' \<rparr>"
  let ?r = "emptyCompiled \<lparr> cqTableName := ''users'', cqConsistentRead := Some True \<rparr>"
  let ?p = "ExecutePutItem ?qe (Some ?c) demoItem (0, [])"
  have "fst ?p = Inr ()" by code_simp
  then have put: "?p = (Inr (), fst (snd ?p), snd (snd ?p))" by (simp add: prod_eq_iff)
  have qe: "dxClient ?qe = Inr demoTable" "dxMetadata ?qe = Some userMetadata" "dxService ?qe = toyService" "readyFor ?qe w = Inr ()" for w
    by (auto simp: demoExecutor_def readyFor_def checkLambdaTimeout_def failClosedIfEncrypted_def FailClosedIfEncryptedWithoutKMSKeyARN_def)
  obtain f where get: "fst (dcGetItem demoTable (getItemInput ?r [(''id'', AVS ''u1'')]) (snd (snd ?p))) = Inr f" by (simp add: demoTable_def)
  have "fst (ExecuteGetItem ?qe (Some ?r) [(''id'', AVS ''u1'')] RawDest (snd (snd ?p))) =
         (case readyFor ?qe (snd (snd ?p)) of
            Inl e \<Rightarrow> Inl e
          | Inr _ \<Rightarrow>
              (case fst (dcGetItem demoTable (getItemInput ?r [(''id'', AVS ''u1'')]) (snd (snd ?p))) of
                 Inl e \<Rightarrow> Inl (callFailed ''failed to get item'' e)
               | Inr _ \<Rightarrow> (case RawDest of RawDest \<Rightarrow> Inr (RawValue demoItem) | GoDest d \<Rightarrow> bindE (unmarshalItem ?qe demoItem d) (\<lambda>v. Inr (GoValue v)))))"
    by (rule put_then_get[OF put qe(1) demoTable_law qe(2) userMetadata_names(2) _ demoItem_encodable, unfolded qe(3) userMetadata_names(1),
          OF _ _ toy_laws, THEN conjunct2])
      (simp_all add: demoItem_def keyMatchesItem_def emptyCompiled_def toyService_def)
  then show ?thesis by (simp add: qe(4) get)
qed

section \<open>Nothing is sent without a key\<close>

lemma refusal:
  assumes "encryptedModel qe" "dxKeyARN qe = None \<or> dxKeyARN qe = Some []"
  shows "\<exists>e. failClosedIfEncrypted qe = Inl e" "\<exists>e. readyFor qe w = Inl e"
proof -
  show "\<exists>e. failClosedIfEncrypted qe = Inl e"
    using assms by (auto simp: failClosedIfEncrypted_def FailClosedIfEncryptedWithoutKMSKeyARN_def encryptedModel_def Let_def
        MetadataHasEncryptedFields_def split: option.splits)
  then show "\<exists>e. readyFor qe w = Inl e" by (cases "checkLambdaTimeout qe w") (auto simp: readyFor_def)
qed

text \<open>C14. A model with encrypted fields is not touched when no key is configured: every operation of the executor returns an error and
  sends no request, so that the world is as it was and the encryption service was not called.\<close>

theorem encrypted_fails_closed:
  assumes "encryptedModel qe" "dxKeyARN qe = None \<or> dxKeyARN qe = Some []" "cbKeys b \<noteq> []"
  shows "(\<exists>e. ExecuteQuery qe input dest w = Some (Inl e, w)) \<and> (\<exists>e. ExecuteScan qe input dest w = Some (Inl e, w))
     \<and> (\<exists>e. ExecuteQueryWithPagination qe input dest w = (Inl e, w)) \<and> (\<exists>e. ExecuteScanWithPagination qe input dest w = (Inl e, w))
     \<and> (\<exists>e. ExecuteGetItem qe input attrs dest w = (Inl e, w)) \<and> (\<exists>e. ExecutePutItem qe input attrs (n, w) = (Inl e, n, w))
     \<and> (\<exists>e. ExecuteUpdateItem qe input attrs (n, w) = (Inl e, n, w)) \<and> (\<exists>e. ExecuteUpdateItemWithResult qe input attrs (n, w) = (Inl e, n, w))
     \<and> (\<exists>e. ExecuteDeleteItem qe input attrs w = (Inl e, w)) \<and> (\<exists>e. ExecuteBatchGet qe sleep rnds (Some b) opts w = (([], Some e), w))
     \<and> (\<exists>e. ExecuteBatchWriteItem qe tn (req # reqs) (n, w) = (Inl e, n, w))
     \<and> (\<exists>e. ExecuteBatchWrite qe (Some (tn, itm # items)) (n, w) = Some (Inl e, n, w))"
proof -
  obtain e where e: "failClosedIfEncrypted qe = Inl e" using refusal(1)[OF assms(1,2)] by blast
  obtain e' where e': "readyFor qe w = Inl e'" using refusal(2)[OF assms(1,2)] by blast
  have rc: "\<exists>e. readClient qe input nilErr operation w = Inl e" for nilErr operation
    using e by (cases "checkLambdaTimeout qe w") (auto simp: readClient_def split: option.split)
  have g: "\<exists>e. guarded qe input attrs what w = Inl e" for what using e' by (auto simp: guarded_def split: option.split)
  have pages: "\<exists>e. executeRead qe input dest spec w = Some (Inl e, w)" for spec
    using rc[of "rsNilErr spec" "rsOperation spec"] by (auto simp: executeRead_def)
  have page: "\<exists>e. executeReadWithPagination qe input dest spec w = (Inl e, w)" for spec
    using rc[of "spNilErr spec" "spOperation spec"] by (auto simp: executeReadWithPagination_def)
  have "\<exists>e. ExecuteBatchWriteItem qe tn (req # reqs) (n, w) = (Inl e, n, w)"
    using e by (cases "checkLambdaTimeout qe w") (auto simp: ExecuteBatchWriteItem_def)
  then show ?thesis using pages page g[of "''key''"] g[of "''item''"] e' assms(3)
    by (auto simp: ExecuteQuery_def ExecuteScan_def ExecuteQueryWithPagination_def ExecuteScanWithPagination_def ExecuteGetItem_def
        ExecutePutItem_def ExecuteUpdateItem_def ExecuteUpdateItemWithResult_def updateCall_def ExecuteDeleteItem_def ExecuteBatchGet_def
        ExecuteBatchWrite_def)
qed

theorem encrypted_fails_closed_witness:
  "\<exists>e. ExecutePutItem (demoExecutor (Some [])) (Some emptyCompiled) demoItem (0, []) = (Inl e, 0, [])"
proof -
  let ?b = "\<lparr> cbTableName = ''users'', cbKeys = [[]], cbProjectionExpression = [], cbExpressionAttributeNames = [], cbConsistentRead = False \<rparr>"
  have "encryptedModel (demoExecutor (Some []))" by code_simp
  moreover have "dxKeyARN (demoExecutor (Some [])) = Some []" by (simp add: demoExecutor_def)
  ultimately show ?thesis using encrypted_fails_closed[of "demoExecutor (Some [])" ?b "Some emptyCompiled" _ "[]" demoItem 0] by auto
qed

section \<open>Reads follow the pages up to the limit\<close>

inductive pagesOf :: "('w, 'p) dbClient \<Rightarrow> 'p \<Rightarrow> 'w \<Rightarrow> item list list \<Rightarrow> bool" where
  pages_end: "\<not> dcHasMorePages client p \<Longrightarrow> pagesOf client p w []"
| pages_next: "dcHasMorePages client p \<Longrightarrow> dcNextPage client p w = (Inr page, p', w') \<Longrightarrow> pagesOf client p' w' ps
    \<Longrightarrow> pagesOf client p w (roItems page # ps)"

definition firstItems :: "nat option \<Rightarrow> item list \<Rightarrow> item list" where
  "firstItems maxItems items = (case maxItems of None \<Rightarrow> items | Some l \<Rightarrow> take l items)"

lemma collectItems_pages:
  "pagesOf client p w ps \<Longrightarrow> (case mx of None \<Rightarrow> True | Some l \<Rightarrow> length acc \<le> l)
   \<Longrightarrow> \<exists>w'. collectPaginatedItems client what mx True acc p w = Some (Inr (firstItems mx (acc @ concat ps)), w')"
proof (induction arbitrary: acc rule: pagesOf.induct)
  case (pages_end client p w)
  then show ?case by (subst collectPaginatedItems.simps) (auto simp: firstItems_def split: option.splits)
next
  case (pages_next client p w page p' w' ps)
  have step: "collectPaginatedItems client what mx True acc p w =
      (case mx of None \<Rightarrow> collectPaginatedItems client what mx True (acc @ roItems page) p' w'
       | Some l \<Rightarrow> if length (acc @ roItems page) \<ge> l then Some (Inr (take l (acc @ roItems page)), w')
                  else collectPaginatedItems client what mx True (acc @ roItems page) p' w')"
    using pages_next.hyps(1,2) by (subst collectPaginatedItems.simps) (simp add: Let_def split: option.split)
  show ?case
  proof (cases "\<exists>l. mx = Some l \<and> length (acc @ roItems page) \<ge> l")
    case True
    then show ?thesis unfolding step by (auto simp: firstItems_def)
  next
    case False
    then have "collectPaginatedItems client what mx True acc p w = collectPaginatedItems client what mx True (acc @ roItems page) p' w'"
      unfolding step by (auto split: option.split)
    moreover have "case mx of None \<Rightarrow> True | Some l \<Rightarrow> length (acc @ roItems page) \<le> l" using False by (auto split: option.split)
    ultimately show ?thesis using pages_next.IH[of "acc @ roItems page"] by simp
  qed
qed

text \<open>A query that is not a count returns, if its paginator comes to an end, and its result is the decrypted and decoded items of the pages
  in order, exactly the first ones up to the limit.\<close>

theorem ExecuteQuery_first_items:
  assumes "readyFor qe w = Inr ()" "dxClient qe = Inr client" "cqSelect c \<noteq> ''COUNT''"
    and "pagesOf client (dcQueryPaginator client (buildDynamoQueryInput c)) w ps"
  shows "\<exists>w'. ExecuteQuery qe (Some c) dest w
     = Some (bindE (writeItemsToDest qe (firstItems (compiledQueryLimit c) (concat ps)) dest) (\<lambda>(_, v). Inr v), w')"
proof -
  have rc: "readClient qe (Some c) nilErr operation w = Inr (c, client)" for nilErr operation
    using assms(1,2) by (auto simp: readClient_def readyFor_def clientFor_def bindE_eq_Inr)
  have "case compiledQueryLimit c of None \<Rightarrow> True | Some l \<Rightarrow> length ([] :: item list) \<le> l" by (simp split: option.split)
  from collectItems_pages[OF assms(4) this] show ?thesis
    using rc assms(3) by (fastforce simp: ExecuteQuery_def executeRead_def isCountSelect_def queryReadPagerSpec_def)
qed

section \<open>Corners\<close>

text \<open>\<open>ExecuteBatchWrite\<close> sends what DynamoDB left unprocessed through \<open>ExecuteBatchWriteItem\<close> again, which encrypts it a second time: the
  table finally holds the item \<open>twice\<close>, whose encrypted attributes are envelopes of envelopes.\<close>

lemma ExecuteBatchWriteItem_one:
  assumes "readyFor qe w = Inr ()" "dxClient qe = Inr client" "encryptedModel qe" "itm \<noteq> []" "encryptItem qe itm n = (Inr enc, n1)"
    and "dcBatchWriteItem client [(tn, [PutRequest enc])] w = (Inr unprocessed, w1)"
  shows "ExecuteBatchWriteItem qe tn [PutRequest itm] (n, w) = (Inr unprocessed, n1, w1)"
  using assms by (auto simp: ExecuteBatchWriteItem_def readyFor_def clientFor_def bindE_eq_Inr)

theorem resent_items_sealed_twice:
  assumes "readyFor qe w = Inr ()" "readyFor qe w1 = Inr ()" "dxClient qe = Inr client" "encryptedModel qe" "itm \<noteq> []" "enc \<noteq> []"
    and "encryptItem qe itm n = (Inr enc, n1)" "encryptItem qe enc n1 = (Inr twice, n2)"
    and "dcBatchWriteItem client [(tn, [PutRequest enc])] w = (Inr [(tn, [PutRequest enc])], w1)"
    and "dcBatchWriteItem client [(tn, [PutRequest twice])] w1 = (Inr [], w2)"
  shows "ExecuteBatchWrite qe (Some (tn, [itm])) (n, w) = Some (Inr (), n2, w2)"
proof -
  have "batchWriteLoop qe tn [PutRequest enc] (n1, w1) = Some (Inr (), n2, w2)"
    by (subst batchWriteLoop.simps) (simp add: ExecuteBatchWriteItem_one[OF assms(2,3,4,6,8,10)])
  then have "batchWriteLoop qe tn [PutRequest itm] (n, w) = Some (Inr (), n2, w2)"
    by (subst batchWriteLoop.simps) (simp add: ExecuteBatchWriteItem_one[OF assms(1,3,4,5,7,9)])
  then show ?thesis using assms(1) by (simp add: ExecuteBatchWrite_def windows.simps)
qed

text \<open>A destination map whose keys have a defined string type passes the check of the kind and panics on the first attribute.\<close>

theorem named_map_key_panics:
  "unmarshalItemToMap plainConverter demoItem (TMap (TNamed ''Name'' TString) TString) (VMap []) = Inl DBPanic"
  by code_simp

end
