(* ===== verification/DMS.thy ===== *)
theory DMS
  imports Registry Converter "HOL-Library.List_Lexorder" "HOL-Library.Char_ord" "HOL-Library.Multiset"
begin

text \<open>
  \<open>pkg/dms/dms.go\<close>: documents that specify models, their validation, the specification of a registered Go model, and the comparison of
  two specifications.  The YAML parser, which gives a tree of \<open>any\<close> values, and the decoding of a normalised tree into a document are parameters.
  Slices are sorted by names in the order of their bytes.
\<close>

section \<open>Documents\<close>

record KeyAttribute =
  kaAttribute :: string
  kaType :: string

record Keys =
  ksSort :: "KeyAttribute option"
  ksPartition :: KeyAttribute

record Attribute =
  atAttribute :: string
  atType :: string
  atFormat :: string
  atEncryption :: goany
  atRoles :: "string list"
  atRequired :: bool
  atOptional :: bool
  atOmitEmpty :: bool
  atJSON :: bool
  atBinary :: bool

record Projection =
  pjType :: string
  pjFields :: "string list"

record DMSIndex =
  diName :: string
  diType :: string
  diPartition :: KeyAttribute
  diSort :: "KeyAttribute option"
  diProjection :: Projection

record DMSModel =
  dmName :: string
  dmTable :: string
  dmConvention :: string
  dmKeys :: Keys
  dmAttributes :: "Attribute list"
  dmIndexes :: "DMSIndex list"

record Document =
  docVersion :: string
  docNamespace :: string
  docModels :: "DMSModel list"

definition FindModel :: "Document option \<Rightarrow> string \<Rightarrow> DMSModel option" where
  "FindModel doc name = (case doc of None \<Rightarrow> None | Some d \<Rightarrow> find (\<lambda>m. dmName m = name) (docModels d))"

section \<open>Validation\<close>

definition isBlank :: "string \<Rightarrow> bool" where
  "isBlank s = (TrimSpace s = [])"

definition validateModelKeys :: "DMSModel \<Rightarrow> (string, unit) result" where
  "validateModelKeys m =
     (let p = ksPartition (dmKeys m) in
      if isBlank (kaAttribute p) \<or> isBlank (kaType p) then Inl (''DMS model '' @ dmName m @ '': missing keys.partition'')
      else case ksSort (dmKeys m) of
        None \<Rightarrow> Inr ()
      | Some k \<Rightarrow> (if isBlank (kaAttribute k) \<or> isBlank (kaType k) then Inl (''DMS model '' @ dmName m @ '': invalid keys.sort'') else Inr ()))"

definition validateAttribute :: "string \<Rightarrow> Attribute \<Rightarrow> string list \<Rightarrow> (string, string list) result" where
  "validateAttribute name a seen =
     (let at = '': attribute '' @ atAttribute a in
      if isBlank (atAttribute a) \<or> isBlank (atType a) then Inl (''DMS model '' @ name @ '': attribute missing attribute/type'')
      else if atAttribute a \<in> set seen then Inl (''DMS model '' @ name @ '': duplicate attribute '' @ atAttribute a)
      else if atRequired a \<and> atOptional a then Inl (''DMS model '' @ name @ at @ '' cannot be both required and optional'')
      else if atJSON a \<and> atType a \<noteq> ''S'' then Inl (''DMS model '' @ name @ at @ '' json requires type S (got '' @ atType a @ '')'')
      else if atBinary a \<and> atType a \<noteq> ''B'' then Inl (''DMS model '' @ name @ at @ '' binary requires type B (got '' @ atType a @ '')'')
      else if atJSON a \<and> atBinary a then Inl (''DMS model '' @ name @ at @ '' cannot be both json and binary'')
      else Inr (seen @ [atAttribute a]))"

definition validateModelAttributes :: "DMSModel \<Rightarrow> (string, string list) result" where
  "validateModelAttributes m = foldE (validateAttribute (dmName m)) (dmAttributes m) []"

definition validateModelKeyAttributesPresent :: "DMSModel \<Rightarrow> string list \<Rightarrow> (string, unit) result" where
  "validateModelKeyAttributesPresent m seen =
     (let p = kaAttribute (ksPartition (dmKeys m)) in
      if p \<notin> set seen then Inl (''DMS model '' @ dmName m @ '': missing partition key attribute '' @ p)
      else case ksSort (dmKeys m) of
        None \<Rightarrow> Inr ()
      | Some k \<Rightarrow> (if kaAttribute k \<notin> set seen then Inl (''DMS model '' @ dmName m @ '': missing sort key attribute '' @ kaAttribute k) else Inr ()))"

definition validateModel :: "DMSModel \<Rightarrow> (string, unit) result" where
  "validateModel m =
     (if isBlank (dmName m) then Inl ''DMS model missing name''
      else if isBlank (dmTable m) then Inl (''DMS model '' @ dmName m @ '': missing table.name'')
      else bindE (validateModelKeys m) (\<lambda>_.
        if dmAttributes m = [] then Inl (''DMS model '' @ dmName m @ '': missing attributes[]'')
        else bindE (validateModelAttributes m) (validateModelKeyAttributesPresent m)))"

definition validateDocument :: "Document option \<Rightarrow> (string, unit) result" where
  "validateDocument doc =
     (case doc of
        None \<Rightarrow> Inl ''DMS document is nil''
      | Some d \<Rightarrow>
          (if docVersion d \<noteq> ''0.1'' then Inl (''unsupported dms_version: '' @ docVersion d)
           else if docModels d = [] then Inl ''DMS document must include models[]''
           else checkAll validateModel (docModels d)))"

section \<open>JSON-compatible trees\<close>

text \<open>The values are those of an interface, \<open>VIface\<close>; a float is non-finite when its text is one of the three.\<close>

definition nonFinite :: "string \<Rightarrow> bool" where
  "nonFinite f = (f \<in> set [''NaN'', ''+Inf'', ''-Inf''])"

definition stringKey :: "gval \<Rightarrow> string option" where
  "stringKey k = (case k of VString s \<Rightarrow> Some s | VIface (Some (TString, VString s)) \<Rightarrow> Some s | _ \<Rightarrow> None)"

lemma enumerate_size_less: "p \<in> set (enumerate n vs) \<Longrightarrow> size (snd p) < Suc (size_list size vs)"
proof -
  assume "p \<in> set (enumerate n vs)"
  then have "snd p \<in> set vs" by (metis enumerate_eq_zip prod.collapse set_zip_rightD)
  then show ?thesis by (rule size_list_mem_less)
qed

lemma entry_size_less: "p \<in> set es \<Longrightarrow> size (snd p) < Suc (size_list (size_prod size size) es)"
proof (induction es)
  case (Cons q es)
  then show ?case by (cases q) auto
qed simp

function normalizeJSONCompatible :: "gval \<Rightarrow> string \<Rightarrow> (string, gval) result" where
  "normalizeJSONCompatible value path =
     (case value of
        VIface None \<Rightarrow> Inr value
      | VIface (Some (t, v)) \<Rightarrow>
          (case t of
             TString \<Rightarrow> Inr value
           | TBool \<Rightarrow> Inr value
           | TInt _ \<Rightarrow> Inr value
           | TUint _ \<Rightarrow> Inr value
           | TFloat64 \<Rightarrow> (case v of VFloat f \<Rightarrow> (if nonFinite f then Inl (''DMS contains non-finite number at '' @ path) else Inr value) | _ \<Rightarrow> Inr value)
           | TSlice e \<Rightarrow>
               (case v of
                  VSlice vs \<Rightarrow>
                    (if e \<noteq> TAny then Inl (''DMS contains non-JSON value at '' @ path)
                     else bindE (mapE (\<lambda>p. normalizeJSONCompatible (snd p) (path @ ''['' @ showNat (fst p) @ '']'')) (enumerate 0 vs)) (\<lambda>ws.
                       Inr (VIface (Some (TSlice TAny, VSlice ws)))))
                | _ \<Rightarrow> Inl (''DMS contains non-JSON value at '' @ path))
           | TMap k e \<Rightarrow>
               (case v of
                  VMap es \<Rightarrow>
                    (if e \<noteq> TAny \<or> (k \<noteq> TString \<and> k \<noteq> TAny) then Inl (''DMS contains non-JSON value at '' @ path)
                     else bindE (mapE (\<lambda>p. case stringKey (fst p) of
                             None \<Rightarrow> Inl (''DMS contains non-string key at '' @ path)
                           | Some key \<Rightarrow> bindE (normalizeJSONCompatible (snd p) (path @ ''.'' @ key)) (\<lambda>w. Inr (VString key, w))) es) (\<lambda>ws.
                       Inr (VIface (Some (TMap TString TAny, VMap ws)))))
                | _ \<Rightarrow> Inl (''DMS contains non-JSON value at '' @ path))
           | _ \<Rightarrow> Inl (''DMS contains non-JSON value at '' @ path))
      | _ \<Rightarrow> Inl (''DMS contains non-JSON value at '' @ path))"
  by pat_completeness auto
termination
  by (relation "measure (\<lambda>(v, p). size v)") (auto dest: enumerate_size_less, auto dest: entry_size_less)

declare normalizeJSONCompatible.simps [simp del]

definition ParseDocument :: "(string \<Rightarrow> (string, gval) result) \<Rightarrow> (gval \<Rightarrow> (string, Document) result) \<Rightarrow> string \<Rightarrow> (string, Document) result" where
  "ParseDocument yaml decode data =
     bindE (mapErr (\<lambda>e. ''parse DMS YAML/JSON: '' @ e) (yaml data)) (\<lambda>raw.
     bindE (normalizeJSONCompatible raw ''dms'') (\<lambda>normalized.
     bindE (mapErr (\<lambda>e. ''decode DMS document: '' @ e) (decode normalized)) (\<lambda>doc.
     bindE (validateDocument (Some doc)) (\<lambda>_. Inr doc))))"

section \<open>The specification of a Go model\<close>

definition namingConventionString :: "Convention \<Rightarrow> string" where
  "namingConventionString c = (case c of SnakeCase \<Rightarrow> ''snake_case'' | CamelCase \<Rightarrow> ''camelCase'')"

function derefType :: "gtype \<Rightarrow> gtype" where
  "derefType t = (case ptrElem t of Some e \<Rightarrow> derefType e | None \<Rightarrow> t)"
  by pat_completeness auto
termination by (relation "measure size") (auto simp: ptrElem_size)

declare derefType.simps [simp del]

definition numberKind :: "gtype \<Rightarrow> bool" where
  "numberKind t = (kindOf t \<in> set [KInt, KUint, KUint8, KFloat])"

definition scalarKeyTypeFromField :: "gtype \<Rightarrow> string" where
  "scalarKeyTypeFromField t0 =
     (let t = derefType t0 in
      if kindOf t = KString then ''S'' else if numberKind t then ''N'' else if kindOf t = KSlice then ''B'' else ''S'')"

definition attributeTypeFromTags :: "(string \<times> string) list \<Rightarrow> string option" where
  "attributeTypeFromTags tags =
     (if map_of tags ''binary'' \<noteq> None then Some ''B'' else if map_of tags ''json'' \<noteq> None then Some ''S'' else None)"

definition hasModifierTag :: "(string \<times> string) list \<Rightarrow> string \<Rightarrow> bool" where
  "hasModifierTag tags key = (map_of tags key \<noteq> None)"

definition attributeTypeFromSetField :: "gtype \<Rightarrow> (string, string) result" where
  "attributeTypeFromSetField t =
     (if kindOf t \<noteq> KSlice \<and> kindOf t \<noteq> KArray then Inl ''set fields must be slice/array''
      else let e = derefType (elemOf t) in
        if kindOf e = KString then Inr ''SS''
        else if numberKind e then Inr ''NS''
        else if kindOf e = KSlice \<and> kindOf (elemOf e) = KUint8 then Inr ''BS''
        else Inl ''unsupported set element kind'')"

definition attributeTypeFromKind :: "gtype \<Rightarrow> string" where
  "attributeTypeFromKind t =
     (if kindOf t = KString then ''S''
      else if kindOf t = KBool then ''BOOL''
      else if numberKind t then ''N''
      else if kindOf t = KSlice then (if kindOf (elemOf t) = KUint8 then ''B'' else ''L'')
      else if kindOf t = KMap \<or> kindOf t = KStruct then ''M''
      else ''S'')"

definition attributeTypeFromField :: "gtype \<Rightarrow> bool \<Rightarrow> (string \<times> string) list \<Rightarrow> (string, string) result" where
  "attributeTypeFromField t0 isSet tags =
     (let t = derefType t0 in
      if isSet then attributeTypeFromSetField t
      else case attributeTypeFromTags tags of Some a \<Rightarrow> Inr a | None \<Rightarrow> Inr (attributeTypeFromKind t))"

definition rolesFromField :: "FieldMetadata \<Rightarrow> string list" where
  "rolesFromField f = sort ((if IsPK f then [''pk''] else []) @ (if IsSK f then [''sk''] else []) @ (if IsCreatedAt f then [''created_at''] else [])
     @ (if IsUpdatedAt f then [''updated_at''] else []) @ (if IsVersion f then [''version''] else []) @ (if IsTTL f then [''ttl''] else []))"

definition encryptionMarker :: goany where
  "encryptionMarker = Some (TMap TString TAny, VMap [(VString ''v'', VIface (Some (TInt IntN, VInt 1)))])"

definition attributeOf :: "FieldMetadata \<Rightarrow> (string, Attribute) result" where
  "attributeOf f =
     bindE (mapErr (\<lambda>e. ''attribute '' @ DBName f @ '': '' @ e) (attributeTypeFromField (fmType f) (IsSet f) (Tags f))) (\<lambda>attrType.
       Inr \<lparr> atAttribute = DBName f, atType = attrType, atFormat = [], atEncryption = (if IsEncrypted f then encryptionMarker else None),
             atRoles = rolesFromField f, atRequired = (IsPK f \<or> IsSK f), atOptional = (\<not> IsPK f \<and> \<not> IsSK f), atOmitEmpty = OmitEmpty f,
             atJSON = hasModifierTag (Tags f) ''json'', atBinary = hasModifierTag (Tags f) ''binary'' \<rparr>)"

definition keyOfField :: "FieldMetadata \<Rightarrow> KeyAttribute" where
  "keyOfField f = \<lparr> kaAttribute = DBName f, kaType = scalarKeyTypeFromField (fmType f) \<rparr>"

definition indexOf :: "ModelIndex \<Rightarrow> (string, DMSIndex) result" where
  "indexOf idx =
     (case ixPartitionKey idx of
        None \<Rightarrow> Inl (''index '' @ ixName idx @ '' missing partition key'')
      | Some pk \<Rightarrow>
          Inr \<lparr> diName = ixName idx, diType = (case ixType idx of GlobalSecondaryIndex \<Rightarrow> ''GSI'' | LocalSecondaryIndex \<Rightarrow> ''LSI''),
                diPartition = keyOfField pk, diSort = map_option keyOfField (ixSortKey idx),
                diProjection = \<lparr> pjType = (if ixProjectionType idx = [] then ''ALL'' else ixProjectionType idx), pjFields = ixProjectedFields idx \<rparr> \<rparr>)"

definition FromMetadata :: "Metadata option \<Rightarrow> (string, DMSModel) result" where
  "FromMetadata meta =
     (case meta of
        None \<Rightarrow> Inl ''metadata missing primary key''
      | Some md \<Rightarrow>
          (case PrimaryKey md of
             None \<Rightarrow> Inl ''metadata missing primary key''
           | Some ks \<Rightarrow>
               (case PartitionKey ks of
                  None \<Rightarrow> Inl ''metadata missing primary key''
                | Some pk \<Rightarrow>
                    bindE (mapE (\<lambda>p. attributeOf (snd p)) (FieldsByDBName md)) (\<lambda>attrs.
                    bindE (mapE indexOf (Indexes md)) (\<lambda>idxs.
                      Inr \<lparr> dmName = typeName (mdType md), dmTable = TableName md, dmConvention = namingConventionString (NamingConvention md),
                            dmKeys = \<lparr> ksSort = map_option keyOfField (SortKey ks), ksPartition = keyOfField pk \<rparr>,
                            dmAttributes = sort_key atAttribute attrs, dmIndexes = sort_key diName idxs \<rparr>)))))"

section \<open>Comparison\<close>

record normalizedAttr =
  naAttribute :: string
  naType :: string
  naRoles :: "string list"
  naOmitEmpty :: bool
  naRequired :: bool
  naOptional :: bool
  naEncrypted :: bool
  naJSON :: bool
  naBinary :: bool

record normalizedModel =
  nmName :: string
  nmTableName :: string
  nmNaming :: string
  nmKeys :: Keys
  nmAttributes :: "normalizedAttr list"
  nmIndexes :: "DMSIndex list"

definition normalizeAttr :: "Attribute \<Rightarrow> normalizedAttr" where
  "normalizeAttr a = \<lparr> naAttribute = atAttribute a, naType = atType a, naRoles = sort (atRoles a), naOmitEmpty = atOmitEmpty a,
     naRequired = atRequired a, naOptional = atOptional a, naEncrypted = (atEncryption a \<noteq> None), naJSON = atJSON a, naBinary = atBinary a \<rparr>"

definition normalizeIndex :: "DMSIndex \<Rightarrow> DMSIndex" where
  "normalizeIndex i = i \<lparr> diProjection := (diProjection i) \<lparr> pjFields := sort (pjFields (diProjection i)) \<rparr> \<rparr>"

definition normalizeForCompare :: "bool \<Rightarrow> DMSModel \<Rightarrow> normalizedModel" where
  "normalizeForCompare ignoreTableName m =
     \<lparr> nmName = dmName m, nmTableName = (if ignoreTableName then [] else dmTable m),
       nmNaming = (if dmConvention m = [] then ''camelCase'' else dmConvention m), nmKeys = dmKeys m,
       nmAttributes = sort_key naAttribute (map normalizeAttr (dmAttributes m)), nmIndexes = sort_key diName (map normalizeIndex (dmIndexes m)) \<rparr>"

text \<open>The error shows the two normalised models.\<close>

definition AssertModelsEquivalent :: "DMSModel \<Rightarrow> DMSModel \<Rightarrow> bool \<Rightarrow> (normalizedModel \<times> normalizedModel, unit) result" where
  "AssertModelsEquivalent got want ignoreTableName =
     (let ng = normalizeForCompare ignoreTableName got; nw = normalizeForCompare ignoreTableName want in
      if ng \<noteq> nw then Inl (nw, ng) else Inr ())"

section \<open>The order of a map does not matter\<close>

lemma mapE_mem: "mapE f xs = Inr ys \<Longrightarrow> y \<in> set ys \<Longrightarrow> \<exists>x \<in> set xs. f x = Inr y"
  by (induction xs arbitrary: ys) (auto split: sum.splits)

lemma mapE_perm:
  assumes "mapE f xs = Inr ys" "mset xs' = mset xs"
  shows "\<exists>ys'. mapE f xs' = Inr ys' \<and> mset ys' = mset ys"
proof -
  have f: "\<forall>x \<in> set xs. f x = Inr (projr (f x))" and ys: "ys = map (\<lambda>x. projr (f x)) xs"
    using assms(1) unfolding mapE_Inr by (auto simp: list_all2_conv_all_nth in_set_conv_nth intro!: nth_equalityI)
  have "\<forall>x \<in> set xs'. f x = Inr (projr (f x))" using f mset_eq_setD[OF assms(2)] by blast
  then have "mapE f xs' = Inr (map (\<lambda>x. projr (f x)) xs')" by (intro mapE_total) blast
  then show ?thesis using assms(2) ys by (metis mset_map)
qed

lemma sort_key_perm: "mset xs = mset ys \<Longrightarrow> inj_on f (set ys) \<Longrightarrow> sort_key f xs = sort_key f ys"
  by (rule sort_key_inj_key_eq) (auto dest: mset_eq_setD)

lemma attributeOf_name: "attributeOf f = Inr a \<Longrightarrow> atAttribute a = DBName f"
  by (auto simp: attributeOf_def bindE_eq_Inr)

lemma attributes_names: "mapE (\<lambda>p. attributeOf (snd p)) fs = Inr attrs \<Longrightarrow> map atAttribute attrs = map (\<lambda>p. DBName (snd p)) fs"
  unfolding mapE_Inr by (induction rule: list_all2_induct) (auto simp: attributeOf_name)

text \<open>Go ranges over a map in no fixed order: the specification of a model does not depend on it.\<close>

theorem FromMetadata_deterministic:
  assumes "FromMetadata (Some md) = Inr m" "mset fs = mset (FieldsByDBName md)" "distinct (map (\<lambda>p. DBName (snd p)) (FieldsByDBName md))"
  shows "FromMetadata (Some (md \<lparr> FieldsByDBName := fs \<rparr>)) = Inr m"
proof -
  obtain ks pk attrs idxs where s: "PrimaryKey md = Some ks" "PartitionKey ks = Some pk" "mapE (\<lambda>p. attributeOf (snd p)) (FieldsByDBName md) = Inr attrs"
      "mapE indexOf (Indexes md) = Inr idxs"
    using assms(1) by (auto simp: FromMetadata_def bindE_eq_Inr split: option.splits)
  obtain attrs' where a: "mapE (\<lambda>p. attributeOf (snd p)) fs = Inr attrs'" "mset attrs' = mset attrs" using mapE_perm[OF s(3) assms(2)] by blast
  have "inj_on atAttribute (set attrs)" using assms(3) unfolding attributes_names[OF s(3), symmetric] distinct_map by blast
  then have "sort_key atAttribute attrs' = sort_key atAttribute attrs" using sort_key_perm[OF a(2)] by blast
  then show ?thesis using assms(1) s a(1) by (simp add: FromMetadata_def)
qed

text \<open>The order of the attributes and indexes of a document does not matter for the comparison, when their names are distinct.\<close>

theorem equivalent_up_to_order:
  assumes "mset as = mset (dmAttributes m)" "mset is = mset (dmIndexes m)" "distinct (map atAttribute (dmAttributes m))" "distinct (map diName (dmIndexes m))"
  shows "AssertModelsEquivalent (m \<lparr> dmAttributes := as, dmIndexes := is \<rparr>) m ignoreTableName = Inr ()"
proof -
  have "inj_on naAttribute (set (map normalizeAttr (dmAttributes m)))"
    using assms(3) by (auto simp: inj_on_def normalizeAttr_def distinct_map)
  then have "sort_key naAttribute (map normalizeAttr as) = sort_key naAttribute (map normalizeAttr (dmAttributes m))"
    by (rule sort_key_perm[rotated]) (simp add: assms(1))
  moreover have "inj_on diName (set (map normalizeIndex (dmIndexes m)))"
    using assms(4) by (auto simp: inj_on_def normalizeIndex_def distinct_map)
  then have "sort_key diName (map normalizeIndex is) = sort_key diName (map normalizeIndex (dmIndexes m))"
    by (rule sort_key_perm[rotated]) (simp add: assms(2))
  ultimately show ?thesis by (simp add: AssertModelsEquivalent_def normalizeForCompare_def)
qed

section \<open>The specification of a registered model is valid\<close>

text \<open>The attributes of the keys are among the attributes, and these have distinct names.\<close>

definition keysListed :: "Metadata \<times> indexMap \<Rightarrow> bool" where
  "keysListed st = (distinct (map fst (FieldsByDBName (fst st)))
     \<and> pred_option (\<lambda>fm. DBName fm \<in> fst ` set (FieldsByDBName (fst st))) (PartitionKey (keySchema (fst st)))
     \<and> pred_option (\<lambda>fm. DBName fm \<in> fst ` set (FieldsByDBName (fst st))) (SortKey (keySchema (fst st))))"

lemma keysListed_field:
  assumes "keysListed (md, im)" "applyKeyFields (registerField md fm) fm = Inr md1"
  shows "keysListed (applySpecialFields md1 fm, im1)"
proof -
  have fs: "FieldsByDBName md1 = AList.update (DBName fm) fm (FieldsByDBName md)" using applyKeyFields_frame[OF assms(2)] by (simp add: registerField_def)
  have old: "keySchema (registerField md fm) = keySchema md" by (simp add: keySchema_def registerField_def)
  have "PartitionKey (keySchema md1) \<in> {PartitionKey (keySchema md), Some fm} \<and> SortKey (keySchema md1) \<in> {SortKey (keySchema md), Some fm}"
    using assms(2) old by (auto simp: applyKeyFields_def keySchema_def split: if_splits)
  then show ?thesis using assms(1) applySpecialFields_frame[of md1 fm] fs
    by (auto simp: keysListed_def keySchema_def distinct_update dom_update pred_option_def)
qed

lemma parseField_listed:
  assumes sub: "\<And>p s s'. isEmbeddedStruct field \<Longrightarrow> sub p s = Inr s' \<Longrightarrow> keysListed s \<Longrightarrow> keysListed s'"
    and st: "keysListed st" and ok: "parseFieldWith sub field path st = Inr st'"
  shows "keysListed st'"
proof -
  obtain md im where [simp]: "st = (md, im)" by (cases st)
  show ?thesis
  proof (cases "\<not> sfExported field \<or> isEmbeddedStruct field \<or> parseFieldMetadata field path (NamingConvention md) = Inr None")
    case True
    then show ?thesis using sub st ok by (auto simp: parseFieldWith_def split: if_splits)
  next
    case False
    then obtain fm md1 im1 where "applyKeyFields (registerField md fm) fm = Inr md1" "st' = (applySpecialFields md1 fm, im1)"
      using ok by (auto simp: parseFieldWith_def split: if_splits sum.splits option.splits)
    then show ?thesis using keysListed_field st by simp
  qed
qed

lemma parseFields_listed: "parseFields t path st = Inr st' \<Longrightarrow> keysListed st \<Longrightarrow> keysListed st'"
proof (induction t path st arbitrary: st' rule: parseFields.induct)
  case (2 n fs path st)
  show ?case
    by (rule foldE_inv[OF 2(2)[unfolded parseFields.simps]])
      (use 2 in \<open>auto split: prod.splits intro: parseField_listed[rotated 1]\<close>)
qed auto

lemma registerIndexes_listed: "registerIndexes md im = Inr md' \<Longrightarrow> keysListed (md, im0) \<Longrightarrow> keysListed (md', im0)"
proof (induction im arbitrary: md)
  case (Cons p im)
  then obtain md1 where s: "registerIndex p md = Inr md1" "registerIndexes md1 im = Inr md'"
    by (auto simp: registerIndexes_def split: sum.splits)
  have "keysListed (md1, im0)" using registerIndex_frame[OF s(1)] Cons.prems(2) by (simp add: keysListed_def keySchema_def)
  then show ?case using Cons.IH[OF s(2)] by blast
qed (simp add: registerIndexes_def)

lemma parseMetadata_listed:
  assumes "parseMetadata methods t = Inr md" shows "keysListed (md, [])"
proof -
  let ?st = "(newMetadata t (resolveTableName methods t) (detectNamingConvention t), [])"
  have "keysListed ?st" by (simp add: keysListed_def newMetadata_def keySchema_def)
  moreover obtain md0 im where p: "parseFields t [] ?st = Inr (md0, im)" "registerIndexes md0 im = Inr md"
    using assms by (auto simp: parseMetadata_def split: sum.splits if_splits)
  ultimately have "keysListed (md0, im)" using parseFields_listed by blast
  then have "keysListed (md0, [])" by (simp add: keysListed_def)
  then show ?thesis by (rule registerIndexes_listed[OF p(2)])
qed

text \<open>An attribute that passes the checks which do not depend on the others.\<close>

definition attributeOk :: "Attribute \<Rightarrow> bool" where
  "attributeOk a = (\<not> isBlank (atAttribute a) \<and> \<not> isBlank (atType a) \<and> \<not> (atRequired a \<and> atOptional a)
     \<and> (atJSON a \<longrightarrow> atType a = ''S'') \<and> (atBinary a \<longrightarrow> atType a = ''B'') \<and> \<not> (atJSON a \<and> atBinary a))"

lemma validateAttribute_ok: "attributeOk a \<Longrightarrow> atAttribute a \<notin> set seen \<Longrightarrow> validateAttribute name a seen = Inr (seen @ [atAttribute a])"
  by (auto simp: validateAttribute_def attributeOk_def Let_def)

lemma validateAttributes_ok:
  "\<forall>a \<in> set attrs. attributeOk a \<Longrightarrow> distinct (seen @ map atAttribute attrs)
   \<Longrightarrow> foldE (validateAttribute name) attrs seen = Inr (seen @ map atAttribute attrs)"
proof (induction attrs arbitrary: seen)
  case (Cons a attrs)
  have "validateAttribute name a seen = Inr (seen @ [atAttribute a])" using Cons.prems by (intro validateAttribute_ok) auto
  then show ?case using Cons.IH[of "seen @ [atAttribute a]"] Cons.prems by simp
qed simp

lemma type_names_not_blank: "s \<in> set [''S'', ''N'', ''B'', ''SS'', ''NS'', ''BS'', ''BOOL'', ''L'', ''M''] \<Longrightarrow> \<not> isBlank s"
proof -
  have "list_all (\<lambda>s. \<not> isBlank s) [''S'', ''N'', ''B'', ''SS'', ''NS'', ''BS'', ''BOOL'', ''L'', ''M'']" by code_simp
  then show "s \<in> set [''S'', ''N'', ''B'', ''SS'', ''NS'', ''BS'', ''BOOL'', ''L'', ''M''] \<Longrightarrow> \<not> isBlank s" unfolding list_all_iff by blast
qed

lemma attributeTypeFromField_known:
  "attributeTypeFromField t isSet tags = Inr a \<Longrightarrow> a \<in> set [''S'', ''N'', ''B'', ''SS'', ''NS'', ''BS'', ''BOOL'', ''L'', ''M'']"
  by (auto simp: attributeTypeFromField_def attributeTypeFromSetField_def attributeTypeFromTags_def attributeTypeFromKind_def Let_def
      split: if_splits option.splits)

lemma scalarKeyType_known: "scalarKeyTypeFromField t \<in> set [''S'', ''N'', ''B'']"
  by (simp add: scalarKeyTypeFromField_def Let_def)

definition modifiersOk :: "FieldMetadata \<Rightarrow> bool" where
  "modifiersOk fm = (\<not> isBlank (DBName fm) \<and> \<not> (hasModifierTag (Tags fm) ''json'' \<and> hasModifierTag (Tags fm) ''binary'')
     \<and> (IsSet fm \<longrightarrow> \<not> hasModifierTag (Tags fm) ''json'' \<and> \<not> hasModifierTag (Tags fm) ''binary''))"

lemma attributeOf_ok:
  assumes "attributeOf fm = Inr a" "modifiersOk fm" shows "attributeOk a"
proof -
  obtain ty where ty: "attributeTypeFromField (fmType fm) (IsSet fm) (Tags fm) = Inr ty" "atType a = ty" "atAttribute a = DBName fm"
      "atJSON a = hasModifierTag (Tags fm) ''json''" "atBinary a = hasModifierTag (Tags fm) ''binary''" "atRequired a = (\<not> atOptional a)"
    using assms(1) by (auto simp: attributeOf_def bindE_eq_Inr)
  have "\<not> isBlank ty" by (rule type_names_not_blank) (rule attributeTypeFromField_known[OF ty(1)])
  moreover have "atJSON a \<Longrightarrow> ty = ''S''" "atBinary a \<Longrightarrow> ty = ''B''"
    using ty assms(2) by (auto simp: attributeTypeFromField_def attributeTypeFromTags_def hasModifierTag_def modifiersOk_def Let_def split: if_splits)
  ultimately show ?thesis using ty assms(2) by (auto simp: attributeOk_def modifiersOk_def)
qed

text \<open>The specification made of a registered model passes the validation of documents, when the model and its table have names, no
  attribute name is blank, and the modifiers \<open>json\<close>, \<open>binary\<close> and \<open>set\<close> are not combined on a field.\<close>

theorem FromMetadata_valid:
  assumes "parseMetadata methods t = Inr md" "FromMetadata (Some md) = Inr m" "\<not> isBlank (typeName (mdType md))" "\<not> isBlank (TableName md)"
    and "\<forall>p \<in> set (FieldsByDBName md). modifiersOk (snd p)"
  shows "validateModel m = Inr ()"
proof -
  obtain ks pk attrs idxs where s: "PrimaryKey md = Some ks" "PartitionKey ks = Some pk" "mapE (\<lambda>p. attributeOf (snd p)) (FieldsByDBName md) = Inr attrs"
      "mapE indexOf (Indexes md) = Inr idxs" and m: "dmName m = typeName (mdType md)" "dmTable m = TableName md"
      "dmKeys m = \<lparr> ksSort = map_option keyOfField (SortKey ks), ksPartition = keyOfField pk \<rparr>" "dmAttributes m = sort_key atAttribute attrs"
    using assms(2) by (auto simp: FromMetadata_def bindE_eq_Inr split: option.splits)
  have wf: "\<forall>p \<in> set (FieldsByDBName md). DBName (snd p) = fst p" using parseMetadata_wf[OF assms(1)] by (auto simp: wellFormedModel_def fieldsInv_def)
  then have names: "map atAttribute attrs = map fst (FieldsByDBName md)" using attributes_names[OF s(3)] by simp
  have listed: "distinct (map fst (FieldsByDBName md))" "DBName pk \<in> fst ` set (FieldsByDBName md)"
      "pred_option (\<lambda>fm. DBName fm \<in> fst ` set (FieldsByDBName md)) (SortKey ks)"
    using parseMetadata_listed[OF assms(1)] s(1,2) by (auto simp: keysListed_def keySchema_def)
  have blank: "\<not> isBlank a" if "a \<in> fst ` set (FieldsByDBName md)" for a using that assms(5) wf by (force simp: modifiersOk_def)
  have "\<forall>a \<in> set attrs. attributeOk a"
    using mapE_mem[OF s(3)] assms(5) attributeOf_ok by blast
  moreover have "distinct (map atAttribute (sort_key atAttribute attrs))" using listed(1) names by (metis distinct_map distinct_sort set_sort)
  ultimately have run: "validateModelAttributes m = Inr (map atAttribute (sort_key atAttribute attrs))"
    using validateAttributes_ok[of "sort_key atAttribute attrs" "[]"] m(4) by (simp add: validateModelAttributes_def)
  have all: "set (map atAttribute (sort_key atAttribute attrs)) = fst ` set (FieldsByDBName md)" using names by (metis list.set_map set_sort)
  have key: "\<not> isBlank (kaType (keyOfField fm))" for fm
    using type_names_not_blank[of "kaType (keyOfField fm)"] scalarKeyType_known[of "fmType fm"] by (auto simp: keyOfField_def)
  have sk: "\<not> isBlank (DBName sk)" if "SortKey ks = Some sk" for sk using that listed(3) blank[of "DBName sk"] by simp
  have ks: "validateModelKeys m = Inr ()"
    using m(3) blank[OF listed(2)] sk key by (auto simp: validateModelKeys_def keyOfField_def Let_def split: option.split)
  have "validateModelKeyAttributesPresent m (map atAttribute (sort_key atAttribute attrs)) = Inr ()"
    using m(3) listed(2,3) all by (auto simp: validateModelKeyAttributesPresent_def keyOfField_def Let_def split: option.split)
  moreover have "set (map atAttribute (dmAttributes m)) \<noteq> {}" unfolding m(4) all using listed(2) by force
  then have "dmAttributes m \<noteq> []" by auto
  ultimately show ?thesis using m(1,2) assms(3,4) ks run by (simp add: validateModel_def)
qed

section \<open>Corners\<close>

text \<open>A \<open>time.Time\<close> is specified as a map, although the converters store it as a string.\<close>

theorem time_specified_as_map: "attributeTypeFromField TTime False [] = Inr ''M''"
  by (simp add: attributeTypeFromField_def attributeTypeFromTags_def attributeTypeFromKind_def derefType.simps ptrElem_def kindOf_def numberKind_def)

end
