(* ===== verification/BatchCreate.thy ===== *)
theory BatchCreate
  imports BatchWrite
begin

text \<open>
  \<open>BatchCreate\<close> of \<open>pkg/query/query.go\<close> and \<open>BatchCreateWithResult\<close> of \<open>pkg/query/batch_operations.go\<close>: puts in batches of 25 through
  the executor's batch write, or through the older interface that takes all items at once.  \<open>clocks\<close> gives the clock readings for
  the marshalling of each item.  The source passes no batch options, which like the default ones report no progress.
\<close>

section \<open>Operations\<close>

text \<open>The items of a slice; \<open>None\<close> when the argument is not one.\<close>

definition sliceItems :: "goany \<Rightarrow> goany list option" where
  "sliceItems items =
     (case items of
        None \<Rightarrow> None
      | Some (t, v) \<Rightarrow>
          (if kindOf t \<noteq> KSlice then None
           else Some (map (toInterface (elemOf t)) (case v of VSlice vs \<Rightarrow> vs | VBytes b \<Rightarrow> map (\<lambda>ch. VUint (of_char ch)) b | _ \<Rightarrow> []))))"

definition createRequest :: "convenv \<Rightarrow> Query \<Rightarrow> (nat \<Rightarrow> clockenv) \<Rightarrow> string \<Rightarrow> nat \<times> goany \<Rightarrow> (qerror, WriteRequest) result" where
  "createRequest env q clocks failed = (\<lambda>(j, itm). mapErr (Wrapped (failed @ showNat j)) (putRequestOf env q (itm, clocks j)))"

fun createBatches :: "convenv \<Rightarrow> Query \<Rightarrow> (nat \<Rightarrow> clockenv) \<Rightarrow> 'w batchWriter \<Rightarrow> string \<Rightarrow> (nat \<times> goany) list list \<Rightarrow> 'w \<Rightarrow> (qerror, unit) result \<times> 'w" where
  "createBatches env q clocks bw tn [] w = (Inr (), w)"
| "createBatches env q clocks bw tn (batch # batches) w =
     (case mapE (createRequest env q clocks ''failed to marshal item '') batch of
        Inl e \<Rightarrow> (Inl e, w)
      | Inr reqs \<Rightarrow>
          (case executeBatchWriteWithRetries (Some bw) tn reqs DefaultBatchOptions w of
             (Inl e, w') \<Rightarrow> (Inl e, w')
           | (Inr _, w') \<Rightarrow> createBatches env q clocks bw tn batches w'))"

definition putItem :: "WriteRequest \<Rightarrow> item" where
  "putItem r = (case r of PutRequest itm \<Rightarrow> itm | DeleteRequest key \<Rightarrow> key)"

definition BatchCreate ::
  "convenv \<Rightarrow> 'w batchWriter option \<Rightarrow> (string \<Rightarrow> item list \<Rightarrow> 'w \<Rightarrow> (qerror, unit) result \<times> 'w) option \<Rightarrow> Query \<Rightarrow> goany \<Rightarrow> (nat \<Rightarrow> clockenv) \<Rightarrow> 'w
     \<Rightarrow> (qerror, unit) result \<times> 'w" where
  "BatchCreate env batchWriter batchExecutor q items clocks w =
     (case checkBuilderError q of
        Inl e \<Rightarrow> (Inl e, w)
      | Inr _ \<Rightarrow>
          (case sliceItems items of
             None \<Rightarrow> (Inl (QueryError ''items must be a slice''), w)
           | Some itms \<Rightarrow>
               (if itms = [] then (Inr (), w)
                else case batchWriter of
                  Some bw \<Rightarrow> onTable q (\<lambda>tn. createBatches env q clocks bw tn (windows 25 (enumerate 0 itms))) w
                | None \<Rightarrow>
                    (case batchExecutor of
                       None \<Rightarrow> (Inl (QueryError ''executor does not support batch operations''), w)
                     | Some exec \<Rightarrow>
                         onTable q (\<lambda>tn w. case mapE (createRequest env q clocks ''failed to convert item '') (enumerate 0 itms) of
                             Inl e \<Rightarrow> (Inl e, w)
                           | Inr reqs \<Rightarrow> exec tn (map putItem reqs) w) w))))"

text \<open>The options with the handlers that would count are made and not used.\<close>

record BatchResult =
  brUnprocessedKeys :: "goany list"
  brErrors :: "qerror list"
  brSucceeded :: int
  brFailed :: int

definition BatchCreateWithResult ::
  "convenv \<Rightarrow> 'w batchWriter option \<Rightarrow> (string \<Rightarrow> item list \<Rightarrow> 'w \<Rightarrow> (qerror, unit) result \<times> 'w) option \<Rightarrow> Query \<Rightarrow> goany \<Rightarrow> (nat \<Rightarrow> clockenv) \<Rightarrow> 'w
     \<Rightarrow> (BatchResult \<times> (qerror, unit) result) \<times> 'w" where
  "BatchCreateWithResult env batchWriter batchExecutor q items clocks w =
     (case BatchCreate env batchWriter batchExecutor q items clocks w of
        (r, w') \<Rightarrow> ((\<lparr> brUnprocessedKeys = [], brErrors = [], brSucceeded = 0, brFailed = 0 \<rparr>, r), w'))"

section \<open>Each item is written once\<close>

lemma quietDefault: "quietProgress applied DefaultBatchOptions"
  by (simp add: quietProgress_def reportProgress_def DefaultBatchOptions_def)

lemma mapE_append: "mapE f xs = Inr ys \<Longrightarrow> mapE f xs' = Inr ys' \<Longrightarrow> mapE f (xs @ xs') = Inr (ys @ ys')"
  unfolding mapE_Inr by (rule list_all2_appendI)

lemma createBatches_once:
  assumes "batch_writer bw applied" "createBatches env q clocks bw tn bs w = (r, w')"
  shows "\<exists>n reqs. n \<le> length bs \<and> mapE (createRequest env q clocks ''failed to marshal item '') (concat (take n bs)) = Inr reqs
     \<and> partialWrite applied reqs w w' \<and> (r = Inr () \<longrightarrow> n = length bs \<and> applied w' = applied w + mset reqs)"
  using assms(2)
proof (induction bs arbitrary: w)
  case Nil
  then show ?case by (auto simp: partialWrite_def)
next
  case (Cons b bs)
  let ?f = "createRequest env q clocks ''failed to marshal item ''"
  show ?case
  proof (cases "mapE ?f b")
    case (Inl e)
    then show ?thesis using Cons.prems by (intro exI[of _ 0]) (auto simp: partialWrite_def)
  next
    case (Inr reqs)
    obtain r1 w1 where run: "executeBatchWriteWithRetries (Some bw) tn reqs DefaultBatchOptions w = (r1, w1)"
      by (cases "executeBatchWriteWithRetries (Some bw) tn reqs DefaultBatchOptions w")
    have one: "partialWrite applied reqs w w1 \<and> (r1 = Inr () \<longrightarrow> applied w1 = applied w + mset reqs)"
      by (rule batch_writer.retries[OF assms(1) run quietDefault])
    show ?thesis
    proof (cases r1)
      case e: (Inl e)
      then show ?thesis using Cons.prems Inr run one by (intro exI[of _ 1] exI[of _ reqs]) auto
    next
      case ok: (Inr u)
      then have "createBatches env q clocks bw tn bs w1 = (r, w')" using Cons.prems Inr run by simp
      from Cons.IH[OF this] obtain n rest where rest: "n \<le> length bs" "mapE ?f (concat (take n bs)) = Inr rest"
          "partialWrite applied rest w1 w'" "r = Inr () \<longrightarrow> n = length bs \<and> applied w' = applied w1 + mset rest" by blast
      have w1: "applied w1 = applied w + mset reqs" using one ok by simp
      have "mapE ?f (concat (take (Suc n) (b # bs))) = Inr (reqs @ rest)" using mapE_append[OF Inr rest(2)] by simp
      then show ?thesis using rest partialWrite_step[of applied, OF w1 rest(3)] w1 by (intro exI[of _ "Suc n"] exI[of _ "reqs @ rest"]) (auto simp: ac_simps)
    qed
  qed
qed

text \<open>Creating a batch of items writes the items in their order, each at most once, and when it reports success all of them exactly once;
  after an error, nothing beyond a leading part of the items was written.\<close>

theorem BatchCreate_writes_once:
  assumes "batchWriteLaw client applied" "BatchCreate env (Some (ExecuteBatchWriteItem client)) old q items clocks w = (r, w')"
    and "sliceItems items = Some itms"
  shows "\<exists>given reqs. prefix given (enumerate 0 itms) \<and> mapE (createRequest env q clocks ''failed to marshal item '') given = Inr reqs
     \<and> partialWrite applied reqs w w' \<and> (r = Inr () \<longrightarrow> given = enumerate 0 itms \<and> applied w' = applied w + mset reqs)"
proof (cases "isOk (checkBuilderError q) \<and> itms \<noteq> [] \<and> metadata q \<noteq> None")
  case True
  then obtain md where md: "metadata q = Some md" by blast
  then have "createBatches env q clocks (ExecuteBatchWriteItem client) (mmTableName md) (windows 25 (enumerate 0 itms)) w = (r, w')"
    using True assms(2,3) by (auto simp: BatchCreate_def onTable_def isOk_iff)
  from createBatches_once[OF ExecuteBatchWriteItem_contract[OF assms(1)] this]
  obtain n reqs where n: "n \<le> length (windows 25 (enumerate 0 itms))" "mapE (createRequest env q clocks ''failed to marshal item '') (concat (take n (windows 25 (enumerate 0 itms)))) = Inr reqs"
      "partialWrite applied reqs w w'" "r = Inr () \<longrightarrow> n = length (windows 25 (enumerate 0 itms)) \<and> applied w' = applied w + mset reqs" by blast
  have all: "concat (windows 25 (enumerate 0 itms)) = enumerate 0 itms" by (rule windows_concat) simp
  then have "prefix (concat (take n (windows 25 (enumerate 0 itms)))) (enumerate 0 itms)"
    by (metis append_take_drop_id concat_append prefix_def)
  then show ?thesis using n all by (intro exI[of _ "concat (take n (windows 25 (enumerate 0 itms)))"] exI[of _ reqs]) auto
next
  case False
  then have "w' = w \<and> (r = Inr () \<longrightarrow> itms = [])"
    using assms(2,3) by (auto simp: BatchCreate_def onTable_def isOk_def split: sum.splits if_splits)
  then show ?thesis by (intro exI[of _ "[]"]) (auto simp: partialWrite_def)
qed

section \<open>Corners\<close>

text \<open>The counters of the result are zero, whatever was written.\<close>

theorem create_result_always_zero: "brSucceeded (fst (fst (BatchCreateWithResult env bw old q items clocks w))) = 0"
  by (simp add: BatchCreateWithResult_def split: prod.split)

end
