(* ===== verification/Schema.thy ===== *)
theory Schema
  imports BatchWrite
begin

text \<open>
  \<open>pkg/schema/manager.go\<close>: creating, updating, describing and deleting tables.  The DynamoDB client is a parameter, a record of its calls on a
  world \<open>'w\<close>; \<open>session\<close> is what \<open>session.Client()\<close> returns.  Stream and encryption specifications are kept as their texts, a Go map is an
  association list in the order of its iteration.
\<close>

section \<open>Requests and descriptions\<close>

datatype keyElement = HashKey string | RangeKey string

fun keyAttrName :: "keyElement \<Rightarrow> string" where
  "keyAttrName (HashKey a) = a"
| "keyAttrName (RangeKey a) = a"

record Projection =
  prType :: string
  prNonKeyAttributes :: "string list"

record SecondaryIndex =
  siName :: string
  siKeySchema :: "keyElement list"
  siProjection :: Projection
  siThroughput :: "(int \<times> int) option"

record CreateTableInput =
  ctTableName :: string
  ctBillingMode :: string
  ctKeySchema :: "keyElement list"
  ctAttributeDefinitions :: "(string \<times> string) list"
  ctGlobalSecondaryIndexes :: "SecondaryIndex list"
  ctLocalSecondaryIndexes :: "SecondaryIndex list"
  ctThroughput :: "(int \<times> int) option"
  ctStream :: "string option"
  ctSSE :: "string option"

datatype gsiUpdate = CreateGSI SecondaryIndex | DeleteGSI string

record UpdateTableInput =
  utTableName :: string
  utBillingMode :: string
  utThroughput :: "(int \<times> int) option"
  utStream :: "string option"
  utSSE :: "string option"
  utGSIUpdates :: "gsiUpdate list"

text \<open>\<open>tdBillingMode\<close> is \<open>None\<close> when the description has no billing summary.\<close>

record TableDescription =
  tdKeySchema :: "keyElement list"
  tdAttributeDefinitions :: "(string \<times> string) list"
  tdBillingMode :: "string option"
  tdGSIs :: "SecondaryIndex list"
  tdLSIs :: "SecondaryIndex list"
  tdThroughput :: "(int \<times> int) option"

definition emptyCreateInput :: CreateTableInput where
  "emptyCreateInput = \<lparr> ctTableName = [], ctBillingMode = [], ctKeySchema = [], ctAttributeDefinitions = [], ctGlobalSecondaryIndexes = [],
     ctLocalSecondaryIndexes = [], ctThroughput = None, ctStream = None, ctSSE = None \<rparr>"

datatype awsError = ResourceInUse | ResourceNotFound | OtherAws string

datatype serror = SchemaError string | SWrapped string serror | SAws awsError | SRegistry regerror | SConvert cerror | SPanic

record 'w schemaClient =
  scDescribeTable :: "string \<Rightarrow> 'w \<Rightarrow> (awsError, TableDescription) result \<times> 'w"
  scCreateTable :: "CreateTableInput \<Rightarrow> 'w \<Rightarrow> (awsError, unit) result \<times> 'w"
  scUpdateTable :: "UpdateTableInput \<Rightarrow> 'w \<Rightarrow> (awsError, unit) result \<times> 'w"
  scDeleteTable :: "string \<Rightarrow> 'w \<Rightarrow> (awsError, unit) result \<times> 'w"
  scWaitExists :: "string \<Rightarrow> 'w \<Rightarrow> (awsError, unit) result \<times> 'w"
  scWaitNotExists :: "string \<Rightarrow> 'w \<Rightarrow> (awsError, unit) result \<times> 'w"

type_synonym 'w schemaSession = "(serror, 'w schemaClient) result"

section \<open>Options\<close>

datatype TableOption =
    WithBillingMode string
  | WithThroughput int int
  | WithStreamSpecification string
  | WithSSESpecification string
  | WithGSICreate string string string string
  | WithGSIDelete string

fun applyOption :: "TableOption \<Rightarrow> CreateTableInput \<Rightarrow> CreateTableInput" where
  "applyOption (WithBillingMode mode) i =
     (if mode = ''PAY_PER_REQUEST'' then i \<lparr> ctBillingMode := mode, ctThroughput := None \<rparr> else i \<lparr> ctBillingMode := mode \<rparr>)"
| "applyOption (WithThroughput rcu wcu) i = i \<lparr> ctBillingMode := ''PROVISIONED'', ctThroughput := Some (rcu, wcu) \<rparr>"
| "applyOption (WithStreamSpecification spec) i = i \<lparr> ctStream := Some spec \<rparr>"
| "applyOption (WithSSESpecification spec) i = i \<lparr> ctSSE := Some spec \<rparr>"
| "applyOption (WithGSICreate n pk sk proj) i = i"
| "applyOption (WithGSIDelete n) i = i"

section \<open>The request for a model\<close>

text \<open>Reading a missing key is a nil dereference.\<close>

definition keyField :: "FieldMetadata option \<Rightarrow> (serror, FieldMetadata) result" where
  "keyField f = (case f of None \<Rightarrow> Inl SPanic | Some fm \<Rightarrow> Inr fm)"

definition primaryKeyOf :: "Metadata \<Rightarrow> (serror, KeySchema) result" where
  "primaryKeyOf md = (case PrimaryKey md of None \<Rightarrow> Inl SPanic | Some ks \<Rightarrow> Inr ks)"

definition keySchemaOf :: "FieldMetadata \<Rightarrow> FieldMetadata option \<Rightarrow> keyElement list" where
  "keySchemaOf pk sk = HashKey (DBName pk) # (case sk of None \<Rightarrow> [] | Some s \<Rightarrow> [RangeKey (DBName s)])"

definition buildKeySchema :: "Metadata \<Rightarrow> (serror, keyElement list) result" where
  "buildKeySchema md = bindE (primaryKeyOf md) (\<lambda>ks. bindE (keyField (PartitionKey ks)) (\<lambda>pk. Inr (keySchemaOf pk (SortKey ks))))"

definition getAttributeType :: "gkind \<Rightarrow> string" where
  "getAttributeType k =
     (case k of KString \<Rightarrow> ''S'' | KInt \<Rightarrow> ''N'' | KUint \<Rightarrow> ''N'' | KUint8 \<Rightarrow> ''N'' | KFloat \<Rightarrow> ''N'' | KSlice \<Rightarrow> ''B'' | _ \<Rightarrow> ''S'')"

definition defineAttr :: "FieldMetadata option \<Rightarrow> (string \<times> string) list \<Rightarrow> (string \<times> string) list" where
  "defineAttr f attrs = (case f of None \<Rightarrow> attrs | Some fm \<Rightarrow> AList.update (DBName fm) (getAttributeType (kindOf (fmType fm))) attrs)"

definition buildAttributeDefinitions :: "Metadata \<Rightarrow> (serror, (string \<times> string) list) result" where
  "buildAttributeDefinitions md =
     bindE (primaryKeyOf md) (\<lambda>ks. bindE (keyField (PartitionKey ks)) (\<lambda>pk.
       Inr (fold (\<lambda>idx attrs. defineAttr (ixSortKey idx) (defineAttr (ixPartitionKey idx) attrs)) (Indexes md)
              (defineAttr (SortKey ks) (defineAttr (Some pk) [])))))"

definition projectionOf :: "ModelIndex \<Rightarrow> Projection" where
  "projectionOf idx =
     (if ixProjectionType idx = [] then \<lparr> prType = ''ALL'', prNonKeyAttributes = [] \<rparr>
      else \<lparr> prType = ixProjectionType idx, prNonKeyAttributes = (if ixProjectionType idx = ''INCLUDE'' then ixProjectedFields idx else []) \<rparr>)"

definition secondaryIndex :: "ModelIndex \<Rightarrow> FieldMetadata \<Rightarrow> SecondaryIndex" where
  "secondaryIndex idx pk =
     \<lparr> siName = ixName idx, siKeySchema = keySchemaOf pk (ixSortKey idx), siProjection = projectionOf idx, siThroughput = None \<rparr>"

definition buildIndex :: "Metadata \<Rightarrow> ModelIndex \<Rightarrow> SecondaryIndex list \<times> SecondaryIndex list \<Rightarrow> (serror, SecondaryIndex list \<times> SecondaryIndex list) result" where
  "buildIndex md idx = (\<lambda>(gsis, lsis).
     (case ixType idx of
        GlobalSecondaryIndex \<Rightarrow> bindE (keyField (ixPartitionKey idx)) (\<lambda>pk. Inr (gsis @ [secondaryIndex idx pk], lsis))
      | LocalSecondaryIndex \<Rightarrow>
          bindE (primaryKeyOf md) (\<lambda>ks. bindE (keyField (PartitionKey ks)) (\<lambda>pk. Inr (gsis, lsis @ [secondaryIndex idx pk])))))"

definition buildIndexes :: "Metadata \<Rightarrow> (serror, SecondaryIndex list \<times> SecondaryIndex list) result" where
  "buildIndexes md = foldE (buildIndex md) (Indexes md) ([], [])"

definition createInput :: "Metadata \<Rightarrow> TableOption list \<Rightarrow> (serror, CreateTableInput) result" where
  "createInput md opts =
     bindE (buildKeySchema md) (\<lambda>keys. bindE (buildAttributeDefinitions md) (\<lambda>attrs. bindE (buildIndexes md) (\<lambda>(gsis, lsis).
       Inr (fold applyOption opts
         (emptyCreateInput \<lparr> ctTableName := TableName md, ctBillingMode := ''PAY_PER_REQUEST'', ctKeySchema := keys,
            ctAttributeDefinitions := attrs, ctGlobalSecondaryIndexes := gsis, ctLocalSecondaryIndexes := lsis \<rparr>)))))"

section \<open>Operations\<close>

definition metadataFor :: "Registry \<Rightarrow> goany \<Rightarrow> (serror, Metadata) result" where
  "metadataFor reg mdl = mapErr (\<lambda>e. SWrapped ''failed to get model metadata'' (SRegistry e)) (GetMetadata mdl reg)"

definition awsCall :: "string \<Rightarrow> (awsError, 'a) result \<times> 'w \<Rightarrow> (serror, 'a) result \<times> 'w" where
  "awsCall what rw = (mapErr (\<lambda>e. SWrapped what (SAws e)) (fst rw), snd rw)"

definition withClient :: "'w schemaSession \<Rightarrow> string \<Rightarrow> ('w schemaClient \<Rightarrow> 'w \<Rightarrow> (serror, 'a) result \<times> 'w) \<Rightarrow> 'w \<Rightarrow> (serror, 'a) result \<times> 'w" where
  "withClient session what f w = (case session of Inl e \<Rightarrow> (Inl (SWrapped what e), w) | Inr cl \<Rightarrow> f cl w)"

definition CreateTable :: "'w schemaSession \<Rightarrow> Registry \<Rightarrow> goany \<Rightarrow> TableOption list \<Rightarrow> 'w \<Rightarrow> (serror, unit) result \<times> 'w" where
  "CreateTable session reg mdl opts w =
     (case bindE (metadataFor reg mdl) (\<lambda>md. bindE (createInput md opts) (\<lambda>i. Inr (md, i))) of
        Inl e \<Rightarrow> (Inl e, w)
      | Inr (md, i) \<Rightarrow>
          withClient session ''failed to get client for table creation'' (\<lambda>cl w.
            case scCreateTable cl i w of
              (Inl ResourceInUse, w') \<Rightarrow> (Inr (), w')
            | (Inl e, w') \<Rightarrow> (Inl (SWrapped (''failed to create table '' @ TableName md) (SAws e)), w')
            | (Inr _, w') \<Rightarrow> (case scWaitExists cl (TableName md) w' of (r, w'') \<Rightarrow> (mapErr SAws r, w''))) w)"

definition waitForTableActive :: "'w schemaSession \<Rightarrow> string \<Rightarrow> 'w \<Rightarrow> (serror, unit) result \<times> 'w" where
  "waitForTableActive session tableName =
     withClient session ''failed to get client for table waiter''
       (\<lambda>cl w. awsCall (''failed waiting for table '' @ tableName @ '' to be active'') (scWaitExists cl tableName w))"

definition TableExists :: "'w schemaSession \<Rightarrow> string \<Rightarrow> 'w \<Rightarrow> (serror, bool) result \<times> 'w" where
  "TableExists session tableName =
     withClient session ''failed to get client for table exists check'' (\<lambda>cl w.
       case scDescribeTable cl tableName w of
         (Inl ResourceNotFound, w') \<Rightarrow> (Inr False, w')
       | (Inl e, w') \<Rightarrow> (Inl (SAws e), w')
       | (Inr _, w') \<Rightarrow> (Inr True, w'))"

definition DeleteTable :: "'w schemaSession \<Rightarrow> string \<Rightarrow> 'w \<Rightarrow> (serror, unit) result \<times> 'w" where
  "DeleteTable session tableName =
     withClient session ''failed to get client for table deletion'' (\<lambda>cl w.
       case scDeleteTable cl tableName w of
         (Inl e, w') \<Rightarrow> (Inl (SWrapped (''failed to delete table '' @ tableName) (SAws e)), w')
       | (Inr _, w') \<Rightarrow> (case scWaitNotExists cl tableName w' of (r, w'') \<Rightarrow> (mapErr SAws r, w'')))"

definition DescribeTable :: "'w schemaSession \<Rightarrow> Registry \<Rightarrow> goany \<Rightarrow> 'w \<Rightarrow> (serror, TableDescription) result \<times> 'w" where
  "DescribeTable session reg mdl w =
     (case metadataFor reg mdl of
        Inl e \<Rightarrow> (Inl e, w)
      | Inr md \<Rightarrow> withClient session ''failed to get client for table description''
          (\<lambda>cl w. awsCall (''failed to describe table '' @ TableName md) (scDescribeTable cl (TableName md) w)) w)"

section \<open>Updates\<close>

definition buildCreateTableInput :: "TableOption list \<Rightarrow> CreateTableInput" where
  "buildCreateTableInput opts = fold applyOption opts emptyCreateInput"

definition applyBillingModeUpdate :: "CreateTableInput \<Rightarrow> TableDescription \<Rightarrow> UpdateTableInput \<Rightarrow> UpdateTableInput" where
  "applyBillingModeUpdate ci current i =
     (if ctBillingMode ci = [] \<or> tdBillingMode current = None \<or> tdBillingMode current = Some (ctBillingMode ci) then i
      else if ctBillingMode ci = ''PROVISIONED'' \<and> ctThroughput ci \<noteq> None
        then i \<lparr> utBillingMode := ctBillingMode ci, utThroughput := ctThroughput ci \<rparr>
      else i \<lparr> utBillingMode := ctBillingMode ci \<rparr>)"

definition applyStreamUpdate :: "CreateTableInput \<Rightarrow> UpdateTableInput \<Rightarrow> UpdateTableInput" where
  "applyStreamUpdate ci i = (if ctStream ci \<noteq> None then i \<lparr> utStream := ctStream ci \<rparr> else i)"

definition applySSEUpdate :: "CreateTableInput \<Rightarrow> UpdateTableInput \<Rightarrow> UpdateTableInput" where
  "applySSEUpdate ci i = (if ctSSE ci \<noteq> None then i \<lparr> utSSE := ctSSE ci \<rparr> else i)"

record GSIUpdatePlan =
  ToCreate :: "SecondaryIndex list"
  ToDelete :: "string list"

definition indexMapOf :: "SecondaryIndex list \<Rightarrow> (string \<times> SecondaryIndex) list" where
  "indexMapOf idxs = fold (\<lambda>g. AList.update (siName g) g) idxs []"

definition withDefaultThroughput :: "TableDescription \<Rightarrow> SecondaryIndex \<Rightarrow> SecondaryIndex" where
  "withDefaultThroughput current g =
     (if tdBillingMode current = Some ''PROVISIONED'' \<and> siThroughput g = None then g \<lparr> siThroughput := Some (5, 5) \<rparr> else g)"

definition calculateGSIUpdates :: "Metadata \<Rightarrow> TableDescription \<Rightarrow> (serror, GSIUpdatePlan) result" where
  "calculateGSIUpdates md current =
     bindE (buildIndexes md) (\<lambda>(desired, _).
       let cur = indexMapOf (tdGSIs current); want = indexMapOf desired in
       Inr \<lparr> ToCreate = map (\<lambda>e. withDefaultThroughput current (snd e)) (filter (\<lambda>e. map_of cur (fst e) = None) want),
             ToDelete = map fst (filter (\<lambda>e. map_of want (fst e) = None) cur) \<rparr>)"

definition applyGSIUpdates :: "Metadata \<Rightarrow> TableDescription \<Rightarrow> UpdateTableInput \<Rightarrow> (serror, UpdateTableInput) result" where
  "applyGSIUpdates md current i =
     bindE (mapErr (SWrapped ''failed to calculate GSI updates'') (calculateGSIUpdates md current)) (\<lambda>plan.
       case (ToCreate plan, ToDelete plan) of
         ([], []) \<Rightarrow> Inr i
       | ([g], []) \<Rightarrow> Inr (i \<lparr> utGSIUpdates := [CreateGSI g] \<rparr>)
       | ([], [n]) \<Rightarrow> Inr (i \<lparr> utGSIUpdates := [DeleteGSI n] \<rparr>)
       | _ \<Rightarrow> Inl (SchemaError ''multiple GSI changes detected''))"

definition updateInput :: "Metadata \<Rightarrow> TableDescription \<Rightarrow> TableOption list \<Rightarrow> (serror, UpdateTableInput) result" where
  "updateInput md current opts =
     (let ci = buildCreateTableInput opts in
      applyGSIUpdates md current (applySSEUpdate ci (applyStreamUpdate ci (applyBillingModeUpdate ci current
        \<lparr> utTableName = TableName md, utBillingMode = [], utThroughput = None, utStream = None, utSSE = None, utGSIUpdates = [] \<rparr>))))"

definition UpdateTable :: "'w schemaSession \<Rightarrow> Registry \<Rightarrow> goany \<Rightarrow> TableOption list \<Rightarrow> 'w \<Rightarrow> (serror, unit) result \<times> 'w" where
  "UpdateTable session reg mdl opts w =
     (case metadataFor reg mdl of
        Inl e \<Rightarrow> (Inl e, w)
      | Inr md \<Rightarrow>
          (case DescribeTable session reg mdl w of
             (Inl e, w1) \<Rightarrow> (Inl e, w1)
           | (Inr current, w1) \<Rightarrow>
               (case updateInput md current opts of
                  Inl e \<Rightarrow> (Inl e, w1)
                | Inr i \<Rightarrow>
                    withClient session ''failed to get client for table update'' (\<lambda>cl w.
                      case awsCall (''failed to update table '' @ TableName md) (scUpdateTable cl i w) of
                        (Inl e, w') \<Rightarrow> (Inl e, w')
                      | (Inr _, w') \<Rightarrow> waitForTableActive session (TableName md) w') w1)))"

fun batchUpdateFrom :: "'w schemaSession \<Rightarrow> Registry \<Rightarrow> goany \<Rightarrow> nat \<Rightarrow> TableOption list \<Rightarrow> 'w \<Rightarrow> (serror, unit) result \<times> 'w" where
  "batchUpdateFrom session reg mdl n [] w = (Inr (), w)"
| "batchUpdateFrom session reg mdl n (u # us) w =
     (case UpdateTable session reg mdl [u] w of
        (Inl e, w') \<Rightarrow> (Inl (SWrapped (''batch update failed at step '' @ showNat (n + 1)) e), w')
      | (Inr _, w') \<Rightarrow> batchUpdateFrom session reg mdl (n + 1) us w')"

definition BatchUpdateTable :: "'w schemaSession \<Rightarrow> Registry \<Rightarrow> goany \<Rightarrow> TableOption list \<Rightarrow> 'w \<Rightarrow> (serror, unit) result \<times> 'w" where
  "BatchUpdateTable session reg mdl updates w = batchUpdateFrom session reg mdl 0 updates w"

section \<open>The request is one DynamoDB accepts\<close>

text \<open>These of DynamoDB's rules for a new table: exactly the attributes of the keys of the table and its indexes are defined, once each; index names are
  distinct; a local index has the partition key of the table; on-demand tables have no throughput.  The rule that every global index of a provisioned table needs
  a throughput is not among them, because the code breaks it (\<open>provisioned_index_without_throughput\<close>).\<close>

definition usedKeys :: "CreateTableInput \<Rightarrow> string list" where
  "usedKeys i = map keyAttrName (ctKeySchema i @ concat (map siKeySchema (ctGlobalSecondaryIndexes i @ ctLocalSecondaryIndexes i)))"

definition validCreateInput :: "CreateTableInput \<Rightarrow> bool" where
  "validCreateInput i =
     (distinct (map fst (ctAttributeDefinitions i)) \<and> set (map fst (ctAttributeDefinitions i)) = set (usedKeys i)
      \<and> list_all (\<lambda>(a, ty). ty \<in> set [''S'', ''N'', ''B'']) (ctAttributeDefinitions i)
      \<and> distinct (map siName (ctGlobalSecondaryIndexes i @ ctLocalSecondaryIndexes i))
      \<and> list_all (\<lambda>g. hd (siKeySchema g) = hd (ctKeySchema i)) (ctLocalSecondaryIndexes i)
      \<and> (ctBillingMode i = ''PAY_PER_REQUEST'' \<longrightarrow> ctThroughput i = None))"

definition ixKeyNames :: "ModelIndex \<Rightarrow> string set" where
  "ixKeyNames ix = DBName ` (set_option (ixPartitionKey ix) \<union> set_option (ixSortKey ix))"

lemma keySchemaOf_names: "keyAttrName ` set (keySchemaOf pk sk) = insert (DBName pk) (DBName ` set_option sk)"
  by (cases sk) (auto simp: keySchemaOf_def)

lemma defineAttr_keys: "fst ` set (defineAttr f attrs) = fst ` set attrs \<union> DBName ` set_option f"
  by (cases f) (auto simp: defineAttr_def)

lemma defineAttr_distinct: "distinct (map fst attrs) \<Longrightarrow> distinct (map fst (defineAttr f attrs))"
  by (cases f) (auto simp: defineAttr_def distinct_update)

definition scalarTypes :: "(string \<times> string) list \<Rightarrow> bool" where
  "scalarTypes attrs = list_all (\<lambda>(a, ty). ty \<in> set [''S'', ''N'', ''B'']) attrs"

lemma scalarTypes_update: "scalarTypes attrs \<Longrightarrow> t \<in> set [''S'', ''N'', ''B''] \<Longrightarrow> scalarTypes (AList.update a t attrs)"
  by (induction attrs) (auto simp: scalarTypes_def)

lemma defineAttr_types: "scalarTypes attrs \<Longrightarrow> scalarTypes (defineAttr f attrs)"
  by (cases f) (auto simp: defineAttr_def getAttributeType_def intro!: scalarTypes_update split: gkind.splits)

lemma defineIndexes:
  fixes idxs :: "ModelIndex list"
  defines "run \<equiv> fold (\<lambda>idx attrs. defineAttr (ixSortKey idx) (defineAttr (ixPartitionKey idx) attrs)) idxs"
  shows "fst ` set (run attrs) = fst ` set attrs \<union> \<Union> (ixKeyNames ` set idxs)"
    "distinct (map fst attrs) \<Longrightarrow> distinct (map fst (run attrs))" "scalarTypes attrs \<Longrightarrow> scalarTypes (run attrs)"
  unfolding run_def by (induction idxs arbitrary: attrs) (auto simp: defineAttr_keys ixKeyNames_def defineAttr_distinct defineAttr_types image_Un)

lemma buildIndexes_value:
  assumes "PrimaryKey md = Some ks" "PartitionKey ks = Some pk"
    and "\<forall>ix \<in> set idxs. ixPartitionKey ix \<noteq> None \<and> (ixType ix = LocalSecondaryIndex \<longrightarrow> ixPartitionKey ix = Some pk)"
  shows "foldE (buildIndex md) idxs (gs, ls) =
    Inr (gs @ map (\<lambda>ix. secondaryIndex ix (the (ixPartitionKey ix))) (filter (\<lambda>ix. ixType ix = GlobalSecondaryIndex) idxs),
         ls @ map (\<lambda>ix. secondaryIndex ix pk) (filter (\<lambda>ix. ixType ix = LocalSecondaryIndex) idxs))"
  using assms(3)
proof (induction idxs arbitrary: gs ls)
  case (Cons ix idxs)
  then show ?case using assms(1,2)
    by (cases "ixType ix") (auto simp: buildIndex_def keyField_def primaryKeyOf_def)
qed simp

lemma fold_options:
  "ctTableName (fold applyOption opts i) = ctTableName i" "ctKeySchema (fold applyOption opts i) = ctKeySchema i"
  "ctAttributeDefinitions (fold applyOption opts i) = ctAttributeDefinitions i"
  "ctGlobalSecondaryIndexes (fold applyOption opts i) = ctGlobalSecondaryIndexes i"
  "ctLocalSecondaryIndexes (fold applyOption opts i) = ctLocalSecondaryIndexes i"
proof (induction opts arbitrary: i)
  case (Cons opt opts)
  { case 1 show ?case using Cons by (cases opt) auto }
  { case 2 show ?case using Cons by (cases opt) auto }
  { case 3 show ?case using Cons by (cases opt) auto }
  { case 4 show ?case using Cons by (cases opt) auto }
  { case 5 show ?case using Cons by (cases opt) auto }
qed simp_all

lemma fold_options_billing:
  "(ctBillingMode i = ''PAY_PER_REQUEST'' \<longrightarrow> ctThroughput i = None)
   \<Longrightarrow> ctBillingMode (fold applyOption opts i) = ''PAY_PER_REQUEST'' \<longrightarrow> ctThroughput (fold applyOption opts i) = None"
proof (induction opts arbitrary: i)
  case (Cons opt opts)
  show ?case unfolding fold_simps by (rule Cons.IH) (use Cons.prems in \<open>cases opt; simp\<close>)
qed simp

lemma wellFormed_keys:
  assumes "wellFormedModel md"
  obtains ks pk where "PrimaryKey md = Some ks" "PartitionKey ks = Some pk"
    "\<forall>ix \<in> set (Indexes md). ixPartitionKey ix \<noteq> None \<and> (ixType ix = LocalSecondaryIndex \<longrightarrow> ixPartitionKey ix = Some pk)"
    "distinct (map ixName (Indexes md))"
  using assms unfolding wellFormedModel_def keySchema_def by (cases "PrimaryKey md") auto

lemma secondaryIndex_keys:
  "ixPartitionKey ix = Some pk \<Longrightarrow> keyAttrName ` set (siKeySchema (secondaryIndex ix pk)) = ixKeyNames ix"
  by (simp add: secondaryIndex_def keySchemaOf_names ixKeyNames_def)

lemma index_type_cases: "ixType ix = GlobalSecondaryIndex \<or> ixType ix = LocalSecondaryIndex"
  by (cases "ixType ix") auto

lemma distinct_two_filters:
  "distinct (map f xs) \<Longrightarrow> (\<And>x. P x \<Longrightarrow> \<not> Q x) \<Longrightarrow> distinct (map f (filter P xs @ filter Q xs))"
  by (induction xs) auto

lemma createInput_valid:
  assumes "wellFormedModel md"
  shows "\<exists>i. createInput md opts = Inr i \<and> ctTableName i = TableName md \<and> Inr (ctKeySchema i) = buildKeySchema md
     \<and> map siName (ctGlobalSecondaryIndexes i) = map ixName (filter (\<lambda>ix. ixType ix = GlobalSecondaryIndex) (Indexes md))
     \<and> validCreateInput i"
proof -
  obtain ks pk where k: "PrimaryKey md = Some ks" "PartitionKey ks = Some pk"
      "\<forall>ix \<in> set (Indexes md). ixPartitionKey ix \<noteq> None \<and> (ixType ix = LocalSecondaryIndex \<longrightarrow> ixPartitionKey ix = Some pk)"
      "distinct (map ixName (Indexes md))" using wellFormed_keys[OF assms] by blast
  define gs where "gs = map (\<lambda>ix. secondaryIndex ix (the (ixPartitionKey ix))) (filter (\<lambda>ix. ixType ix = GlobalSecondaryIndex) (Indexes md))"
  define ls where "ls = map (\<lambda>ix. secondaryIndex ix pk) (filter (\<lambda>ix. ixType ix = LocalSecondaryIndex) (Indexes md))"
  define attrs where "attrs = fold (\<lambda>idx attrs. defineAttr (ixSortKey idx) (defineAttr (ixPartitionKey idx) attrs)) (Indexes md)
     (defineAttr (SortKey ks) (defineAttr (Some pk) []))"
  define i where "i = fold applyOption opts (emptyCreateInput \<lparr> ctTableName := TableName md, ctBillingMode := ''PAY_PER_REQUEST'',
     ctKeySchema := keySchemaOf pk (SortKey ks), ctAttributeDefinitions := attrs, ctGlobalSecondaryIndexes := gs, ctLocalSecondaryIndexes := ls \<rparr>)"
  have "createInput md opts = Inr i"
    using buildIndexes_value[OF k(1-3), of "[]" "[]"] k(1,2)
    by (simp add: createInput_def buildKeySchema_def buildAttributeDefinitions_def buildIndexes_def primaryKeyOf_def keyField_def i_def gs_def ls_def attrs_def)
  moreover have parts: "ctTableName i = TableName md" "ctKeySchema i = keySchemaOf pk (SortKey ks)" "ctAttributeDefinitions i = attrs"
      "ctGlobalSecondaryIndexes i = gs" "ctLocalSecondaryIndexes i = ls" by (simp_all add: i_def fold_options)
  moreover have "Inr (ctKeySchema i) = buildKeySchema md" using k(1,2) parts by (simp add: buildKeySchema_def primaryKeyOf_def keyField_def)
  moreover have "validCreateInput i"
  proof -
    have "distinct (map fst attrs)" "scalarTypes attrs"
      unfolding attrs_def by (intro defineIndexes defineAttr_distinct defineAttr_types; simp add: scalarTypes_def)+
    moreover have "fst ` set attrs = insert (DBName pk) (DBName ` set_option (SortKey ks)) \<union> \<Union> (ixKeyNames ` set (Indexes md))"
      unfolding attrs_def defineIndexes(1) by (simp add: defineAttr_keys)
    moreover have "(\<Union>g \<in> set (gs @ ls). keyAttrName ` set (siKeySchema g)) = \<Union> (ixKeyNames ` set (Indexes md))"
    proof -
      have "keyAttrName ` set (siKeySchema (secondaryIndex ix (the (ixPartitionKey ix)))) = ixKeyNames ix" if "ix \<in> set (Indexes md)" for ix
        using k(3) that by (auto intro!: secondaryIndex_keys)
      moreover have "keyAttrName ` set (siKeySchema (secondaryIndex ix pk)) = ixKeyNames ix"
        if "ix \<in> set (Indexes md)" "ixType ix = LocalSecondaryIndex" for ix
        using k(3) that by (auto intro!: secondaryIndex_keys)
      ultimately have "(\<Union>g \<in> set gs. keyAttrName ` set (siKeySchema g)) = \<Union> (ixKeyNames ` {ix \<in> set (Indexes md). ixType ix = GlobalSecondaryIndex})"
          "(\<Union>g \<in> set ls. keyAttrName ` set (siKeySchema g)) = \<Union> (ixKeyNames ` {ix \<in> set (Indexes md). ixType ix = LocalSecondaryIndex})"
        by (simp_all add: gs_def ls_def)
      moreover have "\<Union> (ixKeyNames ` set (Indexes md)) = \<Union> (ixKeyNames ` {ix \<in> set (Indexes md). ixType ix = GlobalSecondaryIndex})
          \<union> \<Union> (ixKeyNames ` {ix \<in> set (Indexes md). ixType ix = LocalSecondaryIndex})" using index_type_cases by blast
      ultimately show ?thesis by (simp add: UN_Un)
    qed
    then have "set (usedKeys i) = insert (DBName pk) (DBName ` set_option (SortKey ks)) \<union> \<Union> (ixKeyNames ` set (Indexes md))"
      by (simp add: usedKeys_def parts image_Un keySchemaOf_names image_UN)
    moreover have "distinct (map siName (gs @ ls))"
    proof -
      have "map siName (gs @ ls) = map ixName (filter (\<lambda>ix. ixType ix = GlobalSecondaryIndex) (Indexes md) @ filter (\<lambda>ix. ixType ix = LocalSecondaryIndex) (Indexes md))"
        by (simp add: gs_def ls_def secondaryIndex_def)
      moreover have "distinct (map ixName (filter (\<lambda>ix. ixType ix = GlobalSecondaryIndex) (Indexes md) @ filter (\<lambda>ix. ixType ix = LocalSecondaryIndex) (Indexes md)))"
        by (rule distinct_two_filters[OF k(4)]) simp
      ultimately show ?thesis by (simp only:)
    qed
    moreover have "list_all (\<lambda>g. hd (siKeySchema g) = hd (ctKeySchema i)) ls"
      by (simp add: parts ls_def list_all_iff secondaryIndex_def keySchemaOf_def)
    moreover have "ctBillingMode i = ''PAY_PER_REQUEST'' \<longrightarrow> ctThroughput i = None"
      unfolding i_def by (rule fold_options_billing) (simp add: emptyCreateInput_def)
    ultimately show ?thesis by (simp add: validCreateInput_def parts scalarTypes_def)
  qed
  moreover have "map siName gs = map ixName (filter (\<lambda>ix. ixType ix = GlobalSecondaryIndex) (Indexes md))"
    by (simp add: gs_def secondaryIndex_def)
  ultimately show ?thesis by auto
qed

lemma registered_wellFormed: "GetMetadata m (registerAll methods ms NewRegistry) = Inr md \<Longrightarrow> wellFormedModel md"
  using registerAll_inv[OF NewRegistry_inv, of methods ms] parseMetadata_wf
  by (simp add: GetMetadata_def registryInv_def split: option.splits prod.splits) blast

text \<open>C37. Creating the table of any registered model with any options sends one request, which names the model's table and key, has its global
  indexes and keeps these of DynamoDB's rules: exactly the key attributes are defined, once each and with scalar types, index names are distinct, local
  indexes share the partition key, and on-demand tables have no throughput.  A table that exists already is no error.\<close>

theorem CreateTable_valid:
  assumes "GetMetadata mdl (registerAll methods ms NewRegistry) = Inr md"
  shows "\<exists>i. validCreateInput i \<and> ctTableName i = TableName md \<and> Inr (ctKeySchema i) = buildKeySchema md
     \<and> map siName (ctGlobalSecondaryIndexes i) = map ixName (filter (\<lambda>ix. ixType ix = GlobalSecondaryIndex) (Indexes md))
     \<and> CreateTable (Inr cl) (registerAll methods ms NewRegistry) mdl opts w =
         (case scCreateTable cl i w of
            (Inl e, w') \<Rightarrow> (if e = ResourceInUse then Inr () else Inl (SWrapped (''failed to create table '' @ TableName md) (SAws e)), w')
          | (Inr _, w') \<Rightarrow> (mapErr SAws (fst (scWaitExists cl (TableName md) w')), snd (scWaitExists cl (TableName md) w')))"
proof -
  obtain i where i: "createInput md opts = Inr i" "ctTableName i = TableName md" "Inr (ctKeySchema i) = buildKeySchema md"
      "map siName (ctGlobalSecondaryIndexes i) = map ixName (filter (\<lambda>ix. ixType ix = GlobalSecondaryIndex) (Indexes md))" "validCreateInput i"
    using createInput_valid[OF registered_wellFormed[OF assms]] by blast
  then show ?thesis using assms
    by (intro exI[of _ i]) (auto simp: CreateTable_def metadataFor_def withClient_def split: prod.splits sum.splits awsError.splits)
qed

text \<open>A client that records the requests.\<close>

definition recordingClient :: "CreateTableInput list schemaClient" where
  "recordingClient =
     \<lparr> scDescribeTable = (\<lambda>t w. (Inl ResourceNotFound, w)), scCreateTable = (\<lambda>i w. (Inr (), w @ [i])), scUpdateTable = (\<lambda>i w. (Inr (), w)),
       scDeleteTable = (\<lambda>t w. (Inr (), w)), scWaitExists = (\<lambda>t w. (Inr (), w)), scWaitNotExists = (\<lambda>t w. (Inr (), w)) \<rparr>"

theorem CreateTable_valid_witness:
  "\<exists>i. validCreateInput i \<and> map siName (ctGlobalSecondaryIndexes i) = [''gsi-email'']
     \<and> CreateTable (Inr recordingClient) (registerAll noMethods [Some (exampleUser, VStruct [])] NewRegistry) (Some (exampleUser, VStruct [])) [WithStreamSpecification ''NEW_IMAGE''] []
         = (Inr (), [i])"
proof -
  let ?g = "GetMetadata (Some (exampleUser, VStruct [])) (registerAll noMethods [Some (exampleUser, VStruct [])] NewRegistry)"
  have "isOk ?g" by code_simp
  then have "?g = Inr (projr ?g)" by (auto simp: isOk_iff)
  moreover have "map ixName (filter (\<lambda>ix. ixType ix = GlobalSecondaryIndex) (Indexes (projr ?g))) = [''gsi-email'']" by code_simp
  ultimately show ?thesis using CreateTable_valid[where md = "projr ?g" and cl = recordingClient and opts = "[WithStreamSpecification ''NEW_IMAGE'']" and w = "[]"]
    by (fastforce simp: recordingClient_def)
qed

section \<open>Updates of indexes\<close>

lemma indexMapOf_keys: "fst ` set (indexMapOf idxs) = siName ` set idxs" "distinct (map fst (indexMapOf idxs))"
  "\<forall>e \<in> set (indexMapOf idxs). siName (snd e) = fst e"
proof -
  have "fst ` set (fold (\<lambda>g. AList.update (siName g) g) idxs m) = fst ` set m \<union> siName ` set idxs" for m
    by (induction idxs arbitrary: m) auto
  then show "fst ` set (indexMapOf idxs) = siName ` set idxs" by (simp add: indexMapOf_def)
  have "distinct (map fst m) \<Longrightarrow> distinct (map fst (fold (\<lambda>g. AList.update (siName g) g) idxs m))" for m
    by (induction idxs arbitrary: m) (auto simp: distinct_update)
  then show "distinct (map fst (indexMapOf idxs))" by (simp add: indexMapOf_def)
  have up: "\<forall>e \<in> set m. siName (snd e) = fst e \<Longrightarrow> \<forall>e \<in> set (AList.update (siName g) g m). siName (snd e) = fst e" for g m
    by (induction m) auto
  have "\<forall>e \<in> set m. siName (snd e) = fst e \<Longrightarrow> \<forall>e \<in> set (fold (\<lambda>g. AList.update (siName g) g) idxs m). siName (snd e) = fst e" for m
  proof (induction idxs arbitrary: m)
    case (Cons g idxs)
    show ?case unfolding fold_simps by (rule Cons.IH) (rule up[OF Cons.prems])
  qed simp
  from this[of "[]"] show "\<forall>e \<in> set (indexMapOf idxs). siName (snd e) = fst e" by (simp add: indexMapOf_def)
qed

text \<open>The plan turns the indexes the table has into those of the model: by name, exactly the missing ones are created and exactly the
  superfluous ones deleted, each once.\<close>

theorem gsi_plan_exact:
  assumes "calculateGSIUpdates md current = Inr plan" "buildIndexes md = Inr (desired, lsis)"
  shows "set (ToDelete plan) = siName ` set (tdGSIs current) - siName ` set desired"
    "siName ` set (ToCreate plan) = siName ` set desired - siName ` set (tdGSIs current)"
    "distinct (ToDelete plan)" "distinct (map siName (ToCreate plan))"
proof -
  let ?cur = "indexMapOf (tdGSIs current)" and ?want = "indexMapOf desired"
  have plan: "ToDelete plan = map fst (filter (\<lambda>e. map_of ?want (fst e) = None) ?cur)"
      "ToCreate plan = map (\<lambda>e. withDefaultThroughput current (snd e)) (filter (\<lambda>e. map_of ?cur (fst e) = None) ?want)"
    using assms by (auto simp: calculateGSIUpdates_def Let_def)
  have names: "map siName (ToCreate plan) = map fst (filter (\<lambda>e. map_of ?cur (fst e) = None) ?want)"
    unfolding plan using indexMapOf_keys(3)[of desired] by (auto simp: withDefaultThroughput_def)
  show "distinct (ToDelete plan)" unfolding plan by (simp add: distinct_map_filter indexMapOf_keys(2))
  show "distinct (map siName (ToCreate plan))" unfolding names by (simp add: distinct_map_filter indexMapOf_keys(2))
  have "set (ToDelete plan) = fst ` set ?cur - fst ` set ?want" unfolding plan by (auto simp: map_of_eq_None_iff)
  then show "set (ToDelete plan) = siName ` set (tdGSIs current) - siName ` set desired" by (simp add: indexMapOf_keys(1))
  have "set (map siName (ToCreate plan)) = fst ` set ?want - fst ` set ?cur" unfolding names by (auto simp: map_of_eq_None_iff)
  then show "siName ` set (ToCreate plan) = siName ` set desired - siName ` set (tdGSIs current)" by (simp add: indexMapOf_keys(1))
qed

section \<open>Corners\<close>

text \<open>When the model and the table differ in more than one index, \<open>BatchUpdateTable\<close>, which is meant for such changes, fails at its first
  step and changes nothing: every step compares all indexes again.\<close>

lemma showNat_one: "showNat (Suc 0) = ''1''"
  by code_simp

theorem batch_update_many_indexes:
  assumes "GetMetadata mdl reg = Inr md" "scDescribeTable cl (TableName md) w = (Inr current, w1)" "calculateGSIUpdates md current = Inr plan"
    and "length (ToCreate plan) + length (ToDelete plan) > 1" "updates \<noteq> []"
  shows "BatchUpdateTable (Inr cl) reg mdl updates w = (Inl (SWrapped ''batch update failed at step 1'' (SchemaError ''multiple GSI changes detected'')), w1)"
proof -
  have "applyGSIUpdates md current i = Inl (SchemaError ''multiple GSI changes detected'')" for i
    using assms(3,4) by (auto simp: applyGSIUpdates_def split: list.splits)
  then show ?thesis using assms
    by (cases updates) (simp_all add: BatchUpdateTable_def UpdateTable_def metadataFor_def DescribeTable_def withClient_def awsCall_def updateInput_def Let_def showNat_one)
qed

text \<open>A provisioned table is requested without throughput for its global index, which DynamoDB requires.\<close>

theorem provisioned_index_without_throughput:
  "case CreateTable (Inr recordingClient) (registerAll noMethods [Some (exampleUser, VStruct [])] NewRegistry) (Some (exampleUser, VStruct [])) [WithThroughput 5 5] [] of
     (r, sent) \<Rightarrow> r = Inr () \<and> map ctBillingMode sent = [''PROVISIONED''] \<and> map (\<lambda>i. map siThroughput (ctGlobalSecondaryIndexes i)) sent = [[None]]"
  by code_simp

text \<open>A new throughput for a table that is provisioned already is dropped.\<close>

theorem throughput_change_dropped:
  assumes "tdBillingMode current = Some ''PROVISIONED''"
  shows "applyBillingModeUpdate (buildCreateTableInput [WithThroughput r v]) current i = i"
  using assms by (simp add: applyBillingModeUpdate_def buildCreateTableInput_def)

end
