(* ===== verification/Marshal.thy ===== *)
theory Marshal
  imports PkgConverter Unmarshal
begin

text \<open>
  \<open>pkg/marshal\<close>: the two implementations of \<open>MarshalItem\<close> and the factory that chooses one.  \<open>SafeMarshaler\<close> (\<open>safe_marshaler.go\<close>) reads
  fields by reflection; \<open>Marshaler\<close> (\<open>marshaler.go\<close>) builds a function per field once and reads memory at the field's offset, which is
  here the value at the field's index path.  Both keep what they build in a cache by type.  Both branch on \<open>IsNil\<close> and \<open>IsZero\<close>, so here,
  unlike in the other theories, a nil slice or map is a value of its own: \<open>VPtr None\<close> at a type of that kind, where \<open>VSlice []\<close>,
  \<open>VBytes []\<close> and \<open>VMap []\<close> are empty and not nil (\<open>wtn\<close> says which values a type has).  \<open>marshalEnv\<close> has the converter and what the standard library computes: \<open>FormatFloat\<close> of a float of
  a type with a bit size, \<open>Time.Unix\<close>, and what \<open>%v\<close> prints of a map key.
\<close>

section \<open>Nil and empty\<close>

fun wtn :: "gtype \<Rightarrow> gval \<Rightarrow> bool" where
  "wtn (TNamed n t) v = wtn t v"
| "wtn (TIface n) v = (case v of VIface None \<Rightarrow> True | VIface (Some (t, w)) \<Rightarrow> kindOf t \<noteq> KInterface \<and> wtn t w | _ \<Rightarrow> False)"
| "wtn (TStruct n fs) v = (case v of VStruct vs \<Rightarrow> list_all2 (\<lambda>f w. wtn (sfType f) w) fs vs | _ \<Rightarrow> False)"
| "wtn (TSlice e) v =
     (case v of VPtr None \<Rightarrow> True | VBytes _ \<Rightarrow> kindOf e = KUint8 | VSlice vs \<Rightarrow> kindOf e \<noteq> KUint8 \<and> list_all (wtn e) vs | _ \<Rightarrow> False)"
| "wtn (TArray n e) v = (case v of VArray vs \<Rightarrow> length vs = n \<and> list_all (wtn e) vs | _ \<Rightarrow> False)"
| "wtn (TMap k e) v =
     (case v of VPtr None \<Rightarrow> True | VMap m \<Rightarrow> list_all (\<lambda>p. wtn k (fst p) \<and> wtn e (snd p)) m \<and> distinct (map fst m) | _ \<Rightarrow> False)"
| "wtn (TPtr e) v = (case v of VPtr None \<Rightarrow> True | VPtr (Some w) \<Rightarrow> wtn e w | _ \<Rightarrow> False)"
| "wtn t v = wt t v"

lemma wt_wtn: "wt t v \<Longrightarrow> wtn t v"
  by (induction t v rule: wt.induct) (auto simp: list_all_iff list_all2_conv_all_nth split: gval.splits option.splits if_splits)

text \<open>\<open>Value.IsZero\<close>: a slice or map is zero exactly when it is nil.\<close>

fun isZero :: "gval \<Rightarrow> bool" where
  "isZero (VStruct vs) = list_all isZero vs"
| "isZero (VArray vs) = list_all isZero vs"
| "isZero (VSlice vs) = False"
| "isZero (VBytes b) = False"
| "isZero (VMap m) = False"
| "isZero v = goIsZero v"

definition nilPointer :: "gtype \<Rightarrow> gval \<Rightarrow> bool" where
  "nilPointer t v = (v = VPtr None \<and> kindOf t = KPointer)"

text \<open>The value as theory \<open>PkgConverter\<close> has it, with a nil slice or map taken for an empty one.\<close>

function forgetNil :: "gtype \<Rightarrow> gval \<Rightarrow> gval" where
  "forgetNil t v =
     (case v of
        VPtr None \<Rightarrow>
          (if kindOf t = KMap then VMap [] else if kindOf t \<noteq> KSlice then VPtr None else if kindOf (elemOf t) = KUint8 then VBytes [] else VSlice [])
      | VPtr (Some w) \<Rightarrow> VPtr (Some (forgetNil (elemOf t) w))
      | VSlice vs \<Rightarrow> VSlice (map (\<lambda>x. forgetNil (elemOf t) x) vs)
      | VArray vs \<Rightarrow> VArray (map (\<lambda>x. forgetNil (elemOf t) x) vs)
      | VMap m \<Rightarrow> VMap (map (\<lambda>(k, x). (k, forgetNil (elemOf t) x)) m)
      | VStruct vs \<Rightarrow> VStruct (map (\<lambda>(f, x). forgetNil (sfType f) x) (zip (structFields t) vs))
      | VIface (Some (u, w)) \<Rightarrow> VIface (Some (u, forgetNil u w))
      | _ \<Rightarrow> v)"
  by pat_completeness auto
termination
  by (relation "measure (\<lambda>(t, v). size v)")
     (auto intro: size_entry_less dest: size_list_mem_less[where f = "size :: gval \<Rightarrow> nat"] dest!: set_zip_rightD)

declare forgetNil.simps [simp del]

text \<open>\<open>Converter.ToAttributeValue\<close> of such a value, for a type with a registered converter: the converter gets the value itself; the default
  conversion is reached only when the converter is registered for a pointer type.\<close>

definition customConvert :: "pkgConverter \<Rightarrow> goany \<Rightarrow> (cerror, attrval) result" where
  "customConvert c val =
     (case val of
        None \<Rightarrow> Inr (AVNULL True)
      | Some (t0, v0) \<Rightarrow>
          (if nilPointer t0 v0 then Inr (AVNULL True)
           else case derefOnce t0 v0 of (t, v) \<Rightarrow>
             (case lookupConverter c t of
                Some cc \<Rightarrow> mapErr CustomError (customTo cc (toInterface t v))
              | None \<Rightarrow> toAttributeValue c t0 (forgetNil t0 v0))))"

section \<open>What both share\<close>

record marshalEnv =
  menvConverter :: "pkgConverter option"
  menvFormat :: "gtype \<Rightarrow> nat \<Rightarrow> string \<Rightarrow> string"
  menvUnix :: "string \<Rightarrow> int"
  menvSprint :: "gtype \<Rightarrow> gval \<Rightarrow> string"

definition derefStructValue :: "goany \<Rightarrow> (cerror, gtype \<times> gval) result" where
  "derefStructValue mdl =
     (case mdl of
        None \<Rightarrow> Inl (CustomError ''model must be a struct or pointer to struct'')
      | Some (t, v) \<Rightarrow>
          (if nilPointer t v then Inl (CustomError ''cannot marshal nil pointer'')
           else case derefOnce t v of (t', v') \<Rightarrow>
             (if kindOf t' = KStruct then Inr (t', v') else Inl (CustomError ''model must be a struct or pointer to struct''))))"

definition versionNumberFromValue :: "gval \<Rightarrow> (cerror, int) result" where
  "versionNumberFromValue v =
     (case v of
        VInt i \<Rightarrow> Inr i
      | VUint n \<Rightarrow> (if n > 2 ^ 63 - 1 then Inl (CustomError ''version value overflows int64'') else Inr (int n))
      | _ \<Rightarrow> Inl (CustomError ''unsupported version kind''))"

definition marshalVersionNumber :: "int \<Rightarrow> attrval" where
  "marshalVersionNumber i = (if i = 0 then AVN ''0'' else AVN (showInt i))"

text \<open>\<open>None\<close>: no converter is registered for the type.\<close>

definition marshalCustomValue :: "marshalEnv \<Rightarrow> gtype \<Rightarrow> gval \<Rightarrow> (cerror, attrval) result option" where
  "marshalCustomValue env t v =
     (case menvConverter env of
        None \<Rightarrow> None
      | Some c \<Rightarrow> (if pkgHasCustomConverter c t then Some (customConvert c (toInterface t v)) else None))"

text \<open>The loop of \<open>marshalMap\<close> and \<open>marshalMapComplex\<close>.\<close>

fun sprintEntries :: "(gval \<Rightarrow> string) \<Rightarrow> (gval \<Rightarrow> (cerror, attrval) result) \<Rightarrow> (gval \<times> gval) list \<Rightarrow> item \<Rightarrow> (cerror, item) result" where
  "sprintEntries sp conv [] m = Inr m"
| "sprintEntries sp conv ((k, v) # es) m =
     (case conv v of Inl e \<Rightarrow> Inl (KeyError (sp k) e) | Inr av \<Rightarrow> sprintEntries sp conv es (AList.update (sp k) av m))"

lemma sprintEntries_cong [fundef_cong]:
  assumes "sp = sp'" "es = es'" "m = m'" "\<And>e. e \<in> set es' \<Longrightarrow> conv (snd e) = conv' (snd e)"
  shows "sprintEntries sp conv es m = sprintEntries sp' conv' es' m'"
proof -
  have "\<forall>e \<in> set es'. conv (snd e) = conv' (snd e) \<Longrightarrow> sprintEntries sp' conv es' m' = sprintEntries sp' conv' es' m'"
    by (induction sp' conv es' m' rule: sprintEntries.induct) (auto split: sum.splits)
  then show ?thesis using assms by blast
qed

section \<open>The safe marshaler\<close>

record safeFieldMarshaler =
  smTyp :: gtype
  smDbName :: string
  smFieldIndex :: "nat list"
  smOmitEmpty :: bool
  smIsSet :: bool
  smIsCreatedAt :: bool
  smIsUpdatedAt :: bool
  smIsVersion :: bool
  smIsTTL :: bool

record safeStructMarshaler =
  ssFields :: "safeFieldMarshaler list"
  ssMinFields :: nat

text \<open>\<open>&safeFieldMarshaler{}\<close>, the options for values inside values.\<close>

definition noField :: safeFieldMarshaler where
  "noField = \<lparr> smTyp = TAny, smDbName = [], smFieldIndex = [], smOmitEmpty = False, smIsSet = False, smIsCreatedAt = False, smIsUpdatedAt = False,
     smIsVersion = False, smIsTTL = False \<rparr>"

definition marshalTime :: "marshalEnv \<Rightarrow> bool \<Rightarrow> string \<Rightarrow> attrval" where
  "marshalTime env ttl s = (if ttl then AVN (showInt (menvUnix env s)) else AVS s)"

text \<open>The loop of \<open>marshalStruct\<close>: unexported and zero fields are left out, the others stored under the name of the Go field.\<close>

fun marshalStructWith :: "(gtype \<Rightarrow> gval \<Rightarrow> (cerror, attrval) result) \<Rightarrow> gtype sfield list \<Rightarrow> gval list \<Rightarrow> item \<Rightarrow> (cerror, item) result" where
  "marshalStructWith conv (f # fs) (v # vs) m =
     (if \<not> sfExported f then marshalStructWith conv fs vs m
      else if isZero v then marshalStructWith conv fs vs m
      else case conv (sfType f) v of
        Inl e \<Rightarrow> Inl (cerror.FieldError (sfName f) e)
      | Inr av \<Rightarrow> marshalStructWith conv fs vs (AList.update (sfName f) av m))"
| "marshalStructWith conv _ _ m = Inr m"

lemma marshalStructWith_cong [fundef_cong]:
  "fs = fs' \<Longrightarrow> vs = vs' \<Longrightarrow> m = m' \<Longrightarrow> (\<And>t v. v \<in> set vs' \<Longrightarrow> conv t v = conv' t v)
   \<Longrightarrow> marshalStructWith conv fs vs m = marshalStructWith conv' fs' vs' m'"
  by (induction conv fs vs m arbitrary: fs' vs' m' rule: marshalStructWith.induct) (auto split: sum.splits)

text \<open>A byte of a slice of bytes, as an element.\<close>

definition marshalByte :: "marshalEnv \<Rightarrow> gtype \<Rightarrow> char \<Rightarrow> (cerror, attrval) result" where
  "marshalByte env e ch =
     (case marshalCustomValue env e (VUint (of_char ch)) of Some r \<Rightarrow> r | None \<Rightarrow> Inr (AVN (showNat (of_char ch))))"

function safeMarshalValue :: "marshalEnv \<Rightarrow> safeFieldMarshaler \<Rightarrow> gtype \<Rightarrow> gval \<Rightarrow> (cerror, attrval) result" where
  "safeMarshalValue env fm t0 v0 =
     (if nilPointer t0 v0 then Inr (AVNULL True)
      else case derefOnce t0 v0 of (t, v) \<Rightarrow>
        (if smOmitEmpty fm \<and> isZero v then Inr (AVNULL True)
         else if t = TTime then (case v of VTime s \<Rightarrow> Inr (marshalTime env (smIsTTL fm) s) | _ \<Rightarrow> Inl (CustomError ''expected time.Time''))
         else case marshalCustomValue env t0 v0 of
           Some r \<Rightarrow> r
         | None \<Rightarrow>
             (case v of
                VString s \<Rightarrow> Inr (AVS s)
              | VInt i \<Rightarrow> Inr (AVN (showInt i))
              | VUint n \<Rightarrow> Inr (AVN (showNat n))
              | VFloat f \<Rightarrow> Inr (AVN (menvFormat env t 64 f))
              | VBool b \<Rightarrow> Inr (AVBOOL b)
              | VTime s \<Rightarrow> Inr (AVM [])
              | VStruct vs \<Rightarrow> bindE (marshalStructWith (\<lambda>u x. safeMarshalValue env noField u x) (structFields t) vs []) (\<lambda>m. Inr (AVM m))
              | VPtr None \<Rightarrow> (if kindOf t = KSlice \<or> kindOf t = KMap then Inr (AVNULL True) else Inl UnsupportedType)
              | VBytes b \<Rightarrow> bindE (mapEIdx 0 (marshalByte env (elemOf t)) b) (\<lambda>l. Inr (AVL l))
              | VSlice xs \<Rightarrow>
                  (if kindOf (elemOf t) = KString \<and> smIsSet fm then Inr (if xs = [] then AVNULL True else AVSS (map keyText xs))
                   else bindE (mapEIdx 0 (\<lambda>x. safeMarshalValue env noField (elemOf t) x) xs) (\<lambda>l. Inr (AVL l)))
              | VMap es \<Rightarrow>
                  bindE (sprintEntries (menvSprint env (keyTypeOf t)) (\<lambda>x. safeMarshalValue env noField (elemOf t) x) es []) (\<lambda>m. Inr (AVM m))
              | VIface None \<Rightarrow> Inr (AVNULL True)
              | VIface (Some (u, w)) \<Rightarrow> safeMarshalValue env fm u w
              | _ \<Rightarrow> Inl UnsupportedType)))"
  by pat_completeness auto
termination
  by (relation "measure (\<lambda>(env, fm, t, v). size v)")
     (auto dest!: derefOnce_size[OF sym] size_list_mem_less[where f = "size :: gval \<Rightarrow> nat"] size_entry_less)

declare safeMarshalValue.simps [simp del]

text \<open>A field that is neither found by name nor by its index is skipped.\<close>

definition buildSafeField :: "gtype \<Rightarrow> FieldMetadata \<Rightarrow> safeFieldMarshaler option" where
  "buildSafeField t fm =
     (case (case fieldPath (fmName fm) t of
              Some (p, f) \<Rightarrow> Some f
            | None \<Rightarrow> (if fmIndex fm < length (structFields t) then Some (structFields t ! fmIndex fm) else None)) of
        None \<Rightarrow> None
      | Some f \<Rightarrow> Some \<lparr> smTyp = sfType f, smDbName = DBName fm, smFieldIndex = IndexPath fm, smOmitEmpty = OmitEmpty fm, smIsSet = IsSet fm,
          smIsCreatedAt = IsCreatedAt fm, smIsUpdatedAt = IsUpdatedAt fm, smIsVersion = IsVersion fm, smIsTTL = IsTTL fm \<rparr>)"

definition alwaysWritten :: "FieldMetadata \<Rightarrow> bool" where
  "alwaysWritten fm = (\<not> OmitEmpty fm \<or> IsCreatedAt fm \<or> IsUpdatedAt fm \<or> IsVersion fm)"

definition buildSafeStructMarshaler :: "gtype \<Rightarrow> Metadata \<Rightarrow> safeStructMarshaler" where
  "buildSafeStructMarshaler t md =
     \<lparr> ssFields = List.map_filter (\<lambda>e. buildSafeField t (snd e)) (Fields md),
       ssMinFields = length (filter (\<lambda>e. alwaysWritten (snd e)) (Fields md)) \<rparr>"

text \<open>\<open>getOrBuild\<close>: the cached entry, or a new one that is stored.  Both marshalers do the same.\<close>

definition getOrBuild :: "(gtype \<Rightarrow> 'm) \<Rightarrow> gtype \<Rightarrow> (gtype \<times> 'm) list \<Rightarrow> 'm \<times> (gtype \<times> 'm) list" where
  "getOrBuild build t cache = (case map_of cache t of Some sm \<Rightarrow> (sm, cache) | None \<Rightarrow> (build t, (t, build t) # cache))"

definition safeNow :: "string \<Rightarrow> safeFieldMarshaler list \<Rightarrow> string" where
  "safeNow now fms = (if \<exists>fm \<in> set fms. smIsCreatedAt fm \<or> smIsUpdatedAt fm then now else [])"

definition storeField :: "string \<Rightarrow> bool \<Rightarrow> attrval \<Rightarrow> item \<Rightarrow> item" where
  "storeField db omit av itm = (if isNullMember av \<and> omit then itm else AList.update db av itm)"

definition safeFieldStep :: "marshalEnv \<Rightarrow> gtype \<times> gval \<Rightarrow> string \<Rightarrow> safeFieldMarshaler \<Rightarrow> item \<Rightarrow> (cerror, item) result" where
  "safeFieldStep env tv nowStr fm itm =
     (if smIsCreatedAt fm \<or> smIsUpdatedAt fm then Inr (AList.update (smDbName fm) (AVS nowStr) itm)
      else case fieldByIndex (smFieldIndex fm) (fst tv) (snd tv) of
        None \<Rightarrow> Inl Panic
      | Some (t, v) \<Rightarrow>
          (if smIsVersion fm then
             (case versionNumberFromValue v of
                Inl e \<Rightarrow> Inl (cerror.FieldError (smDbName fm) e)
              | Inr i \<Rightarrow> Inr (AList.update (smDbName fm) (marshalVersionNumber i) itm))
           else case safeMarshalValue env fm t v of
             Inl e \<Rightarrow> Inl (cerror.FieldError (smDbName fm) e)
           | Inr av \<Rightarrow> Inr (storeField (smDbName fm) (smOmitEmpty fm) av itm)))"

definition marshalSafeStructFields :: "marshalEnv \<Rightarrow> gtype \<times> gval \<Rightarrow> safeFieldMarshaler list \<Rightarrow> string \<Rightarrow> (cerror, item) result" where
  "marshalSafeStructFields env tv fms nowStr = foldE (safeFieldStep env tv nowStr) fms []"

type_synonym safeCache = "(gtype \<times> safeStructMarshaler) list"

definition safeMarshalItem :: "marshalEnv \<Rightarrow> string \<Rightarrow> goany \<Rightarrow> Metadata \<Rightarrow> safeCache \<Rightarrow> (cerror, item) result \<times> safeCache" where
  "safeMarshalItem env now mdl md cache =
     (case derefStructValue mdl of
        Inl e \<Rightarrow> (Inl e, cache)
      | Inr tv \<Rightarrow>
          (case getOrBuild (\<lambda>t. buildSafeStructMarshaler t md) (fst tv) cache of (sm, cache') \<Rightarrow>
             (marshalSafeStructFields env tv (ssFields sm) (safeNow now (ssFields sm)), cache')))"

section \<open>The marshaler that reads memory\<close>

text \<open>\<open>marshalUsingCustomConverter\<close>: when the converter fails, the second result is false, which callers take for "no converter".\<close>

definition marshalUsingCustomConverter :: "marshalEnv \<Rightarrow> gtype \<Rightarrow> gval \<Rightarrow> attrval option" where
  "marshalUsingCustomConverter env t v = (case marshalCustomValue env t v of Some (Inr av) \<Rightarrow> Some av | _ \<Rightarrow> None)"

definition jsonTagName :: "string \<Rightarrow> string" where
  "jsonTagName tag = (let name = takeWhile (\<lambda>ch. ch \<noteq> CHR '','') tag in if name = [] then tag else name)"

definition nestedName :: "Convention \<Rightarrow> gtype sfield \<Rightarrow> string" where
  "nestedName nc f = (if sfJson f \<noteq> [] \<and> sfJson f \<noteq> ''-'' then jsonTagName (sfJson f) else ConvertAttrName (sfName f) nc)"

text \<open>The loop of \<open>marshalStructAsMap\<close>.\<close>

fun structAsMapWith :: "Convention \<Rightarrow> (gtype \<Rightarrow> gval \<Rightarrow> (cerror, attrval) result) \<Rightarrow> gtype sfield list \<Rightarrow> gval list \<Rightarrow> item \<Rightarrow> (cerror, item) result" where
  "structAsMapWith nc conv (f # fs) (v # vs) m =
     (if \<not> sfExported f then structAsMapWith nc conv fs vs m
      else if Contains (sfJson f) ''omitempty'' \<and> isZero v then structAsMapWith nc conv fs vs m
      else case conv (sfType f) v of
        Inl e \<Rightarrow> Inl (cerror.FieldError (sfName f) e)
      | Inr av \<Rightarrow> structAsMapWith nc conv fs vs (AList.update (nestedName nc f) av m))"
| "structAsMapWith nc conv _ _ m = Inr m"

lemma structAsMapWith_cong [fundef_cong]:
  "nc = nc' \<Longrightarrow> fs = fs' \<Longrightarrow> vs = vs' \<Longrightarrow> m = m' \<Longrightarrow> (\<And>t v. v \<in> set vs' \<Longrightarrow> conv t v = conv' t v)
   \<Longrightarrow> structAsMapWith nc conv fs vs m = structAsMapWith nc' conv' fs' vs' m'"
  by (induction nc conv fs vs m arbitrary: nc' fs' vs' m' rule: structAsMapWith.induct) (auto split: sum.splits)

definition floatBits :: "gtype \<Rightarrow> nat" where
  "floatBits t = (if underlying t = TFloat32 then 32 else 64)"

text \<open>\<open>marshalValue\<close> with the cases of \<open>marshalComplexValue\<close>, which it reaches for structs, slices and maps when no converter applies.\<close>

function fastMarshalValue :: "marshalEnv \<Rightarrow> Convention \<Rightarrow> gtype \<Rightarrow> gval \<Rightarrow> (cerror, attrval) result" where
  "fastMarshalValue env nc t v =
     (if nilPointer t v then Inr (AVNULL True)
      else case marshalUsingCustomConverter env t v of
        Some av \<Rightarrow> Inr av
      | None \<Rightarrow>
          (case v of
             VPtr (Some w) \<Rightarrow> fastMarshalValue env nc (elemOf t) w
           | VPtr None \<Rightarrow> (if kindOf t = KSlice \<or> kindOf t = KMap then Inr (AVNULL True) else Inl UnsupportedType)
           | VString s \<Rightarrow> Inr (AVS s)
           | VInt i \<Rightarrow> Inr (AVN (showInt i))
           | VUint n \<Rightarrow> Inr (AVN (showNat n))
           | VFloat f \<Rightarrow> Inr (AVN (menvFormat env t (floatBits t) f))
           | VBool b \<Rightarrow> Inr (AVBOOL b)
           | VTime s \<Rightarrow> Inr (if t \<noteq> TTime then AVM [] else if s = zeroTime then AVNULL True else AVS s)
           | VStruct vs \<Rightarrow> bindE (structAsMapWith nc (\<lambda>u x. fastMarshalValue env nc u x) (structFields t) vs []) (\<lambda>m. Inr (AVM m))
           | VBytes b \<Rightarrow> Inr (AVL (map (\<lambda>ch. case marshalUsingCustomConverter env (elemOf t) (VUint (of_char ch)) of
                       Some av \<Rightarrow> av | None \<Rightarrow> AVN (showNat (of_char ch))) b))
           | VSlice xs \<Rightarrow> bindE (mapEIdx 0 (\<lambda>x. fastMarshalValue env nc (elemOf t) x) xs) (\<lambda>l. Inr (AVL l))
           | VMap es \<Rightarrow> bindE (sprintEntries (menvSprint env (keyTypeOf t)) (\<lambda>x. fastMarshalValue env nc (elemOf t) x) es []) (\<lambda>m. Inr (AVM m))
           | VIface None \<Rightarrow> Inr (AVNULL True)
           | VIface (Some (u, w)) \<Rightarrow>
               (case marshalUsingCustomConverter env u w of Some av \<Rightarrow> Inr av | None \<Rightarrow> fastMarshalValue env nc u w)
           | _ \<Rightarrow> Inl UnsupportedType))"
  by pat_completeness auto
termination
  by (relation "measure (\<lambda>(env, nc, t, v). size v)")
     (auto dest!: size_list_mem_less[where f = "size :: gval \<Rightarrow> nat"] size_entry_less)

declare fastMarshalValue.simps [simp del]

definition marshalComplexValue :: "marshalEnv \<Rightarrow> Convention \<Rightarrow> gtype \<Rightarrow> gval \<Rightarrow> (cerror, attrval) result" where
  "marshalComplexValue env nc t v = (case marshalUsingCustomConverter env t v of Some av \<Rightarrow> Inr av | None \<Rightarrow> fastMarshalValue env nc t v)"

definition reflectMarshal :: "marshalEnv \<Rightarrow> Convention \<Rightarrow> FieldMetadata \<Rightarrow> gtype \<Rightarrow> gval \<Rightarrow> (cerror, attrval) result" where
  "reflectMarshal env nc fm t v = (if OmitEmpty fm \<and> isZero v then Inr (AVNULL True) else marshalComplexValue env nc t v)"

text \<open>\<open>None\<close>: no function for the kind.\<close>

definition scalarMarshal :: "marshalEnv \<Rightarrow> FieldMetadata \<Rightarrow> gtype \<Rightarrow> gval \<Rightarrow> attrval option" where
  "scalarMarshal env fm t v =
     (case v of
        VString s \<Rightarrow> Some (if s = [] \<and> OmitEmpty fm then AVNULL True else AVS s)
      | VInt i \<Rightarrow> (if underlying t = TInt IntN \<or> underlying t = TInt Int64
           then Some (if i = 0 \<and> OmitEmpty fm then AVNULL True else AVN (showInt i)) else None)
      | VFloat f \<Rightarrow> (if underlying t = TFloat64
           then Some (if f \<in> set [''0'', ''-0''] \<and> OmitEmpty fm then AVNULL True else AVN (menvFormat env t 64 f)) else None)
      | VBool b \<Rightarrow> Some (AVBOOL b)
      | _ \<Rightarrow> None)"

text \<open>The elements of a slice and the entries of a map; of a nil one there are none.\<close>

definition sliceElems :: "gval \<Rightarrow> gval list" where
  "sliceElems v = (case v of VSlice xs \<Rightarrow> xs | _ \<Rightarrow> [])"

definition mapEntries :: "gval \<Rightarrow> (gval \<times> gval) list" where
  "mapEntries v = (case v of VMap es \<Rightarrow> es | _ \<Rightarrow> [])"

text \<open>The function for a slice of strings looks at the length, the one for a map of strings at \<open>IsNil\<close>.\<close>

definition sliceMarshal :: "marshalEnv \<Rightarrow> Convention \<Rightarrow> FieldMetadata \<Rightarrow> gtype \<Rightarrow> gval \<Rightarrow> (cerror, attrval) result" where
  "sliceMarshal env nc fm t v =
     (let xs = sliceElems v in
      if kindOf (elemOf t) = KString then
        (if IsSet fm then Inr (if xs = [] then AVNULL True else AVSS (map keyText xs))
         else Inr (if xs = [] \<and> OmitEmpty fm then AVNULL True else AVL (map (\<lambda>x. AVS (keyText x)) xs)))
      else reflectMarshal env nc fm t v)"

definition mapMarshal :: "marshalEnv \<Rightarrow> Convention \<Rightarrow> FieldMetadata \<Rightarrow> gtype \<Rightarrow> gval \<Rightarrow> (cerror, attrval) result" where
  "mapMarshal env nc fm t v =
     (if kindOf (keyTypeOf t) = KString \<and> kindOf (elemOf t) = KString
      then Inr (if v = VPtr None \<and> OmitEmpty fm then AVNULL True else AVM (map (\<lambda>(k, x). (keyText k, AVS (keyText x))) (mapEntries v)))
      else reflectMarshal env nc fm t v)"

text \<open>What the function built for a type does with a value of it.\<close>

function builtMarshal :: "marshalEnv \<Rightarrow> Convention \<Rightarrow> FieldMetadata \<Rightarrow> gtype \<Rightarrow> gval \<Rightarrow> (cerror, attrval) result" where
  "builtMarshal env nc fm t v =
     (case v of
        VPtr None \<Rightarrow>
          (if kindOf t = KSlice then sliceMarshal env nc fm t v else if kindOf t = KMap then mapMarshal env nc fm t v else Inr (AVNULL True))
      | VPtr (Some w) \<Rightarrow> builtMarshal env nc fm (elemOf t) w
      | _ \<Rightarrow>
          (case scalarMarshal env fm t v of
             Some av \<Rightarrow> Inr av
           | None \<Rightarrow>
               (case v of
                  VTime s \<Rightarrow>
                    (if t = TTime then Inr (if s = zeroTime \<and> OmitEmpty fm then AVNULL True else marshalTime env (IsTTL fm) s)
                     else reflectMarshal env nc fm t v)
                | VSlice xs \<Rightarrow> sliceMarshal env nc fm t v
                | VMap es \<Rightarrow> mapMarshal env nc fm t v
                | _ \<Rightarrow> reflectMarshal env nc fm t v)))"
  by pat_completeness auto
termination by (relation "measure (\<lambda>(env, nc, fm, t, v). size v)") auto

declare builtMarshal.simps [simp del]

text \<open>The function of a field is chosen when the struct is first seen: the converter's, or one built for the type.\<close>

datatype marshalFunc = CustomFunc | BuiltFunc

record fieldMarshaler =
  ffTyp :: gtype
  ffFunc :: marshalFunc
  ffMeta :: FieldMetadata

record structMarshaler =
  fsFields :: "fieldMarshaler list"
  fsMinFields :: nat

text \<open>\<open>Type.FieldByIndex\<close>.\<close>

fun typeByIndex :: "nat list \<Rightarrow> gtype \<Rightarrow> gtype option" where
  "typeByIndex [] t = Some t"
| "typeByIndex (i # p) t = (if i < length (structFields t) then typeByIndex p (sfType (structFields t ! i)) else None)"

definition hasCustomConverter :: "marshalEnv \<Rightarrow> gtype \<Rightarrow> bool" where
  "hasCustomConverter env t = (case menvConverter env of None \<Rightarrow> False | Some c \<Rightarrow> pkgHasCustomConverter c t)"

text \<open>\<open>None\<close>: the path of a field does not fit the type, and \<open>reflect\<close> panics.\<close>

definition buildField :: "marshalEnv \<Rightarrow> gtype \<Rightarrow> FieldMetadata \<Rightarrow> (cerror, fieldMarshaler) result" where
  "buildField env t fm =
     (case typeByIndex (IndexPath fm) t of
        None \<Rightarrow> Inl Panic
      | Some ft \<Rightarrow> Inr \<lparr> ffTyp = ft, ffFunc = (if hasCustomConverter env ft then CustomFunc else BuiltFunc), ffMeta = fm \<rparr>)"

definition buildStructMarshaler :: "marshalEnv \<Rightarrow> Metadata \<Rightarrow> gtype \<Rightarrow> (cerror, structMarshaler) result" where
  "buildStructMarshaler env md t =
     bindE (mapE (\<lambda>e. buildField env t (snd e)) (Fields md)) (\<lambda>fms.
       Inr \<lparr> fsFields = fms, fsMinFields = length (filter (\<lambda>e. alwaysWritten (snd e)) (Fields md)) \<rparr>)"

definition callMarshalFunc :: "marshalEnv \<Rightarrow> Convention \<Rightarrow> fieldMarshaler \<Rightarrow> gval \<Rightarrow> (cerror, attrval) result" where
  "callMarshalFunc env nc ff v =
     (case ffFunc ff of
        BuiltFunc \<Rightarrow> builtMarshal env nc (ffMeta ff) (ffTyp ff) v
      | CustomFunc \<Rightarrow>
          (case menvConverter env of
             None \<Rightarrow> Inl (CustomError ''no converter configured'')
           | Some c \<Rightarrow> customConvert c (toInterface (ffTyp ff) v)))"

definition fastFieldStep :: "marshalEnv \<Rightarrow> Convention \<Rightarrow> gtype \<times> gval \<Rightarrow> string \<Rightarrow> fieldMarshaler \<Rightarrow> item \<Rightarrow> (cerror, item) result" where
  "fastFieldStep env nc tv nowStr ff itm =
     (let fm = ffMeta ff in
      if IsCreatedAt fm \<or> IsUpdatedAt fm then Inr (AList.update (DBName fm) (AVS nowStr) itm)
      else case fieldByIndex (IndexPath fm) (fst tv) (snd tv) of
        None \<Rightarrow> Inl Panic
      | Some (_, v) \<Rightarrow>
          (if IsVersion fm then
             (case versionNumberFromValue v of
                Inl e \<Rightarrow> Inl (cerror.FieldError (DBName fm) e)
              | Inr i \<Rightarrow> Inr (AList.update (DBName fm) (marshalVersionNumber i) itm))
           else case callMarshalFunc env nc ff v of
             Inl e \<Rightarrow> Inl (cerror.FieldError (DBName fm) e)
           | Inr av \<Rightarrow> Inr (storeField (DBName fm) (OmitEmpty fm) av itm)))"

definition fastNow :: "string \<Rightarrow> fieldMarshaler list \<Rightarrow> string" where
  "fastNow now ffs = (if \<exists>ff \<in> set ffs. IsCreatedAt (ffMeta ff) \<or> IsUpdatedAt (ffMeta ff) then now else [])"

record Marshaler =
  mCache :: "(gtype \<times> structMarshaler) list"
  mNaming :: Convention

definition ClearCache :: "Marshaler \<Rightarrow> Marshaler" where
  "ClearCache m = m \<lparr> mCache := [] \<rparr>"

definition MarshalItem :: "marshalEnv \<Rightarrow> string \<Rightarrow> goany \<Rightarrow> Metadata \<Rightarrow> Marshaler \<Rightarrow> (cerror, item) result \<times> Marshaler" where
  "MarshalItem env now mdl md m =
     (case derefStructValue mdl of
        Inl e \<Rightarrow> (Inl e, m)
      | Inr tv \<Rightarrow>
          (let nc = NamingConvention md; m1 = m \<lparr> mNaming := nc \<rparr> in
           case (case map_of (mCache m) (fst tv) of Some sm \<Rightarrow> Inr sm | None \<Rightarrow> buildStructMarshaler env md (fst tv)) of
             Inl e \<Rightarrow> (Inl e, m1)
           | Inr sm \<Rightarrow>
               (foldE (fastFieldStep env nc tv (fastNow now (fsFields sm))) (fsFields sm) [],
                m1 \<lparr> mCache := snd (getOrBuild (\<lambda>_. sm) (fst tv) (mCache m)) \<rparr>)))"

section \<open>The factory\<close>

record marshalConfig =
  cfgMarshalerType :: string
  cfgAllowUnsafeMarshaler :: bool
  cfgRequireExplicitUnsafeAck :: bool
  cfgWarnOnUnsafeUsage :: bool

record SecurityAcknowledgment =
  ackDeveloperSignature :: string
  ackTimestamp :: int
  ackMemoryCorruptionRisk :: bool
  ackSecurityVulnerable :: bool
  ackDeprecationWarning :: bool

definition DefaultConfig :: marshalConfig where
  "DefaultConfig = \<lparr> cfgMarshalerType = ''safe'', cfgAllowUnsafeMarshaler = False, cfgRequireExplicitUnsafeAck = True, cfgWarnOnUnsafeUsage = True \<rparr>"

text \<open>\<open>init\<close>: the global configuration, from \<open>DYNAMORM_MARSHALER_TYPE\<close>.\<close>

definition initialConfig :: "string \<Rightarrow> marshalConfig" where
  "initialConfig envType =
     (if envType = ''unsafe'' then DefaultConfig \<lparr> cfgMarshalerType := ''unsafe'', cfgAllowUnsafeMarshaler := True \<rparr> else DefaultConfig)"

definition ValidateConfig :: "marshalConfig \<Rightarrow> (string, unit) result" where
  "ValidateConfig cfg =
     (if cfgMarshalerType cfg = ''unsafe'' \<and> \<not> cfgAllowUnsafeMarshaler cfg
      then Inl ''unsafe marshaler type specified but not explicitly allowed'' else Inr ())"

definition CreateSecurityAcknowledgment :: "int \<Rightarrow> string \<Rightarrow> SecurityAcknowledgment" where
  "CreateSecurityAcknowledgment now signature =
     \<lparr> ackDeveloperSignature = signature, ackTimestamp = now, ackMemoryCorruptionRisk = True, ackSecurityVulnerable = True,
       ackDeprecationWarning = True \<rparr>"

text \<open>A new marshaler with its converter, and the two counters of the package.\<close>

datatype newMarshaler = NewSafe "pkgConverter option" | NewUnsafe pkgConverter

record securityCounters =
  unsafeUsageCounter :: int
  securityWarnings :: int

definition checkAcknowledgment :: "SecurityAcknowledgment option \<Rightarrow> (string, unit) result" where
  "checkAcknowledgment ack =
     (case ack of
        None \<Rightarrow> Inl ''unsafe marshaler requires explicit security acknowledgment''
      | Some a \<Rightarrow>
          (if \<not> ackMemoryCorruptionRisk a \<or> \<not> ackSecurityVulnerable a \<or> \<not> ackDeprecationWarning a
           then Inl ''incomplete security acknowledgment for unsafe marshaler''
           else if ackDeveloperSignature a = [] then Inl ''developer signature required for unsafe marshaler acknowledgment''
           else Inr ()))"

text \<open>\<open>fresh\<close> is the converter \<open>pkgTypes.NewConverter()\<close> makes, \<open>forceSafe\<close> says that \<open>DYNAMORM_FORCE_SAFE_MARSHALER\<close> is set.\<close>

definition createUnsafeMarshaler ::
  "bool \<Rightarrow> pkgConverter \<Rightarrow> marshalConfig \<Rightarrow> pkgConverter option \<Rightarrow> SecurityAcknowledgment option \<Rightarrow> securityCounters
     \<Rightarrow> (string, newMarshaler) result \<times> securityCounters" where
  "createUnsafeMarshaler forceSafe fresh cfg conv ack s =
     (if \<not> cfgAllowUnsafeMarshaler cfg then (Inl ''unsafe marshaler not allowed: set AllowUnsafeMarshaler=true to enable'', s)
      else case (if cfgRequireExplicitUnsafeAck cfg then checkAcknowledgment ack else Inr ()) of
        Inl e \<Rightarrow> (Inl e, s)
      | Inr _ \<Rightarrow>
          (let s' = (if cfgWarnOnUnsafeUsage cfg
                     then \<lparr> unsafeUsageCounter = wrapInt 64 (unsafeUsageCounter s + 1), securityWarnings = wrapInt 64 (securityWarnings s + 1) \<rparr>
                     else s) in
           if forceSafe then (Inr (NewSafe None), s')
           else (Inr (NewUnsafe (case conv of None \<Rightarrow> fresh | Some c \<Rightarrow> c)), s')))"

definition NewMarshalerWithAcknowledgment ::
  "bool \<Rightarrow> pkgConverter \<Rightarrow> marshalConfig \<Rightarrow> pkgConverter option \<Rightarrow> SecurityAcknowledgment option \<Rightarrow> securityCounters
     \<Rightarrow> (string, newMarshaler) result \<times> securityCounters" where
  "NewMarshalerWithAcknowledgment forceSafe fresh cfg conv ack s =
     (if cfgMarshalerType cfg = ''safe'' \<or> cfgMarshalerType cfg = [] then (Inr (NewSafe conv), s)
      else if cfgMarshalerType cfg = ''unsafe'' then createUnsafeMarshaler forceSafe fresh cfg conv ack s
      else (Inl (''unknown marshaler type: '' @ cfgMarshalerType cfg), s))"

definition NewMarshaler ::
  "bool \<Rightarrow> pkgConverter \<Rightarrow> marshalConfig \<Rightarrow> pkgConverter option \<Rightarrow> securityCounters \<Rightarrow> (string, newMarshaler) result \<times> securityCounters" where
  "NewMarshaler forceSafe fresh cfg conv s = NewMarshalerWithAcknowledgment forceSafe fresh cfg conv None s"

section \<open>The two marshalers agree\<close>

definition noCustom :: "marshalEnv \<Rightarrow> bool" where
  "noCustom env = (case menvConverter env of None \<Rightarrow> True | Some c \<Rightarrow> customConverters c = [])"

text \<open>Types of nested values that both write alike: structs differ in names, zero times and 32-bit floats in values, pointers to pointers
  are an error for one.\<close>

fun sameNested :: "gtype \<Rightarrow> bool" where
  "sameNested (TNamed n t) = sameNested t"
| "sameNested (TPtr e) = (sameNested e \<and> kindOf e \<noteq> KPointer)"
| "sameNested (TSlice e) = sameNested e"
| "sameNested (TMap k e) = sameNested e"
| "sameNested TString = True"
| "sameNested (TInt i) = True"
| "sameNested (TUint u) = True"
| "sameNested TFloat64 = True"
| "sameNested TBool = True"
| "sameNested t = False"

text \<open>\<open>%v\<close> prints a string as it is.\<close>

definition sprintLaw :: "marshalEnv \<Rightarrow> bool" where
  "sprintLaw env = (\<forall>s. menvSprint env TString (VString s) = s)"

text \<open>The values of a field that both write alike.  Written differently are, with \<open>omitempty\<close>, a false, a negative zero and an empty
  \<open>[]string\<close> that is not nil, and, without it, a nil \<open>[]string\<close> or \<open>map[string]string\<close>; sets are written alike.\<close>

fun sameField :: "FieldMetadata \<Rightarrow> gtype \<Rightarrow> gval \<Rightarrow> bool" where
  "sameField fm t (VPtr None) =
     ((kindOf t = KSlice \<and> kindOf (elemOf t) = KString \<longrightarrow> OmitEmpty fm \<or> IsSet fm) \<and>
      (kindOf t = KMap \<and> kindOf (keyTypeOf t) = KString \<and> kindOf (elemOf t) = KString \<longrightarrow> OmitEmpty fm))"
| "sameField fm t (VPtr (Some w)) = (kindOf (elemOf t) \<noteq> KPointer \<and> sameField fm (elemOf t) w)"
| "sameField fm t (VBool b) = (OmitEmpty fm \<longrightarrow> b)"
| "sameField fm t (VFloat f) = (underlying t = TFloat64 \<and> (OmitEmpty fm \<longrightarrow> f \<noteq> ''-0''))"
| "sameField fm t (VTime s) = True"
| "sameField fm t (VSlice xs) = (sameNested t \<and> (xs = [] \<and> kindOf (elemOf t) = KString \<longrightarrow> IsSet fm \<or> \<not> OmitEmpty fm))"
| "sameField fm t (VMap es) =
     (sameNested t \<and> (kindOf (keyTypeOf t) = KString \<and> kindOf (elemOf t) = KString \<longrightarrow> keyTypeOf t = TString))"
| "sameField fm t v = sameNested t"

lemma noCustom_custom: "noCustom env \<Longrightarrow> marshalCustomValue env t v = None"
  by (auto simp: noCustom_def marshalCustomValue_def pkgHasCustomConverter_def split: option.splits)

lemma noCustom_using: "noCustom env \<Longrightarrow> marshalUsingCustomConverter env t v = None"
  by (simp add: marshalUsingCustomConverter_def noCustom_custom)

lemma noCustom_has: "noCustom env \<Longrightarrow> \<not> hasCustomConverter env t"
  by (auto simp: noCustom_def hasCustomConverter_def pkgHasCustomConverter_def split: option.splits)

lemma underlying_not_named: "underlying t \<noteq> TNamed n u"
  by (induction t rule: underlying.induct) auto

lemma wtn_underlying: "wtn (underlying t) v = wtn t v"
  by (induction t rule: underlying.induct) auto

lemma sameNested_underlying: "sameNested (underlying t) = sameNested t"
  by (induction t rule: underlying.induct) auto

lemma underlying_ne_time: "underlying t \<noteq> TTime \<Longrightarrow> t \<noteq> TTime"
  by auto

lemma mapEIdx_Inr: "mapEIdx i (\<lambda>x. Inr (f x)) xs = Inr (map f xs)"
  by (induction xs arbitrary: i) auto

lemma marshalByte_plain: "noCustom env \<Longrightarrow> marshalByte env e = (\<lambda>ch. Inr (AVN (showNat (of_char ch))))"
  by (auto simp: marshalByte_def noCustom_custom)

lemma noField_flags: "\<not> smOmitEmpty noField" "\<not> smIsSet noField" "\<not> smIsTTL noField"
  by (simp_all add: noField_def)

lemma safe_deref:
  assumes "noCustom env" "\<And>p. w \<noteq> VPtr (Some p)" "kindOf (elemOf t) \<noteq> KPointer"
  shows "safeMarshalValue env fm t (VPtr (Some w)) = safeMarshalValue env fm (elemOf t) w"
proof -
  have "derefOnce (elemOf t) w = (elemOf t, w)" using assms(2) by (cases "(elemOf t, w)" rule: derefOnce.cases) auto
  then show ?thesis using assms(2,3)
    unfolding safeMarshalValue.simps[of env fm t "VPtr (Some w)"] safeMarshalValue.simps[of env fm "elemOf t" w]
    by (simp add: noCustom_custom[OF assms(1)] nilPointer_def)
qed

lemma fast_deref: "noCustom env \<Longrightarrow> fastMarshalValue env nc t (VPtr (Some w)) = fastMarshalValue env nc (elemOf t) w"
  by (subst fastMarshalValue.simps) (simp add: noCustom_using nilPointer_def)

lemma wtn_not_ptr: "wtn t w \<Longrightarrow> kindOf t \<noteq> KPointer \<Longrightarrow> w \<noteq> VPtr (Some p)"
  using wtn_underlying[of t w] underlying_not_named[of t]
  by (cases "underlying t") (auto simp: kindOf_def split: if_splits option.splits)

text \<open>A nil slice or map.\<close>

lemma nil_collection:
  assumes "kindOf t = KSlice \<or> kindOf t = KMap" "noCustom env"
  shows "fastMarshalValue env nc t (VPtr None) = Inr (AVNULL True)" "safeMarshalValue env fm t (VPtr None) = Inr (AVNULL True)"
proof -
  have "t \<noteq> TTime" using assms(1) by (auto simp: kindOf_def)
  then show "fastMarshalValue env nc t (VPtr None) = Inr (AVNULL True)" "safeMarshalValue env fm t (VPtr None) = Inr (AVNULL True)"
    using assms by (auto simp: fastMarshalValue.simps[of env nc t] safeMarshalValue.simps[of env fm t] noCustom_using noCustom_custom nilPointer_def)
qed

theorem nested_same:
  assumes "noCustom env" "wtn t v" "sameNested t"
  shows "fastMarshalValue env nc t v = safeMarshalValue env noField t v"
  using assms(2,3)
proof (induction "size v" arbitrary: t v rule: less_induct)
  case less
  note wtv = less.prems(1)[folded wtn_underlying[of t]] and same = less.prems(2)[folded sameNested_underlying[of t]]
  note evals = fastMarshalValue.simps[of env nc t] safeMarshalValue.simps[of env noField t] noCustom_using[OF assms(1)] noCustom_custom[OF assms(1)]
  note empty = noField_flags
  show ?case
  proof (cases "underlying t")
    case (TPtr e)
    then have e: "elemOf t = e" "kindOf t = KPointer" by (simp_all add: elemOf_def kindOf_def)
    show ?thesis
    proof (cases "v = VPtr None")
      case False
      then obtain w where w: "v = VPtr (Some w)" "wtn e w" using wtv TPtr by (auto split: gval.splits option.splits)
      have k: "kindOf e \<noteq> KPointer" and ne: "w \<noteq> VPtr (Some p)" for p using wtn_not_ptr[OF w(2)] same TPtr by auto
      show ?thesis using less.hyps[of w e] w same TPtr e k safe_deref[OF assms(1) ne] fast_deref[OF assms(1)] by auto
    qed (simp add: evals e nilPointer_def)
  next
    case (TSlice e)
    then have e: "elemOf t = e" "t \<noteq> TTime" "kindOf t = KSlice" by (auto simp: elemOf_def kindOf_def)
    consider "v = VPtr None" | b where "v = VBytes b" | xs where "v = VSlice xs" "\<forall>x \<in> set xs. wtn e x"
      using wtv TSlice by (auto simp: list_all_iff split: gval.splits option.splits)
    then show ?thesis
    proof cases
      case 1
      then show ?thesis using nil_collection[OF _ assms(1)] e(3) by simp
    next
      case 2
      then show ?thesis using e by (simp add: evals empty nilPointer_def marshalByte_plain[OF assms(1)] mapEIdx_Inr)
    next
      case xs: (3 xs)
      have "mapEIdx 0 (fastMarshalValue env nc e) xs = mapEIdx 0 (safeMarshalValue env noField e) xs"
        using xs same TSlice by (intro mapEIdx_cong refl less.hyps) (auto dest: size_list_mem_less[where f = "size :: gval \<Rightarrow> nat"])
      then show ?thesis using e xs by (simp add: evals empty nilPointer_def)
    qed
  next
    case (TMap k e)
    then have e: "elemOf t = e" "t \<noteq> TTime" "kindOf t = KMap" by (auto simp: elemOf_def kindOf_def)
    consider "v = VPtr None" | es where "v = VMap es" "\<forall>p \<in> set es. wtn e (snd p)"
      using wtv TMap by (auto simp: list_all_iff split: gval.splits option.splits)
    then show ?thesis
    proof cases
      case 1
      then show ?thesis using nil_collection[OF _ assms(1)] e(3) by simp
    next
      case es: (2 es)
      have "sprintEntries sp (fastMarshalValue env nc e) es [] = sprintEntries sp (safeMarshalValue env noField e) es []" for sp
        using es same TMap by (intro sprintEntries_cong refl less.hyps) (auto dest: size_entry_less)
      then show ?thesis using e es by (simp add: evals empty nilPointer_def)
    qed
  next
    case (TNamed n u)
    then show ?thesis using underlying_not_named[of t] by simp
  qed (use wtv same underlying_ne_time[of t] in \<open>auto simp: evals empty floatBits_def nilPointer_def split: gval.splits\<close>)
qed

definition sameFlags :: "safeFieldMarshaler \<Rightarrow> FieldMetadata \<Rightarrow> bool" where
  "sameFlags sm fm = (smOmitEmpty sm = OmitEmpty fm \<and> smIsSet sm = IsSet fm \<and> smIsTTL sm = IsTTL fm)"

text \<open>The options of the field do not matter below it.\<close>

lemma safe_options:
  assumes "\<not> (smOmitEmpty sm \<and> isZero v)" "t \<noteq> TTime" "\<And>p. v \<noteq> VPtr p" "\<And>d. v \<noteq> VIface d" "smIsSet sm \<longrightarrow> kindOf (elemOf t) \<noteq> KString \<or> (\<forall>xs. v \<noteq> VSlice xs)"
  shows "safeMarshalValue env sm t v = safeMarshalValue env noField t v"
proof -
  have "derefOnce t v = (t, v)" using assms(3) by (cases v) auto
  then show ?thesis using assms unfolding safeMarshalValue.simps[of env sm t v] safeMarshalValue.simps[of env noField t v]
    by (cases v) (auto simp: noField_flags nilPointer_def split: option.split)
qed

lemma safe_zero: "smOmitEmpty sm \<Longrightarrow> isZero v \<Longrightarrow> safeMarshalValue env sm t v = Inr (AVNULL True)"
  by (subst safeMarshalValue.simps) (cases "(t, v)" rule: derefOnce.cases; auto)

lemma fast_complex: "noCustom env \<Longrightarrow> marshalComplexValue env nc t v = fastMarshalValue env nc t v"
  by (simp add: marshalComplexValue_def noCustom_using)

text \<open>Fields that go through reflection in both.\<close>

lemma reflect_same:
  assumes "noCustom env" "wtn t v" "sameNested t" "sameFlags sm fm" "\<And>p. v \<noteq> VPtr p" "IsSet fm \<longrightarrow> kindOf (elemOf t) \<noteq> KString \<or> (\<forall>xs. v \<noteq> VSlice xs)"
  shows "reflectMarshal env nc fm t v = safeMarshalValue env sm t v"
proof (cases "OmitEmpty fm \<and> isZero v")
  case True
  then show ?thesis using assms(4) by (simp add: reflectMarshal_def sameFlags_def safe_zero)
next
  case False
  have t: "t \<noteq> TTime" using assms(3) by auto
  have "v \<noteq> VIface d" for d using wtn_underlying[of t v] sameNested_underlying[of t] underlying_not_named[of t] assms(2,3) by (cases "underlying t") (auto split: if_splits)
  then show ?thesis using False assms t safe_options[of sm v t env] nested_same[OF assms(1-3)]
    by (auto simp: reflectMarshal_def fast_complex sameFlags_def)
qed

lemma strings_of: "kindOf e = KString \<Longrightarrow> wtn e x \<Longrightarrow> x = VString (keyText x)"
  using wtn_underlying[of e x] underlying_not_named[of e]
  by (cases "underlying e") (auto simp: kindOf_def keyText_def split: gval.splits if_splits)

lemma safe_string: "noCustom env \<Longrightarrow> kindOf e = KString \<Longrightarrow> wtn e x \<Longrightarrow> safeMarshalValue env noField e x = Inr (AVS (keyText x))"
proof -
  assume *: "noCustom env" "kindOf e = KString" "wtn e x"
  obtain s where "x = VString s" using strings_of[OF *(2,3)] by blast
  moreover have "e \<noteq> TTime" using *(2) by (auto simp: kindOf_def)
  ultimately show ?thesis by (subst safeMarshalValue.simps) (simp add: noCustom_custom[OF *(1)] nilPointer_def noField_flags keyText_def)
qed

lemma slice_same:
  assumes "noCustom env" "wtn t (VSlice xs)" "sameField fm t (VSlice xs)" "sameFlags sm fm"
  shows "sliceMarshal env nc fm t (VSlice xs) = safeMarshalValue env sm t (VSlice xs)"
proof (cases "kindOf (elemOf t) = KString")
  case False
  then show ?thesis using assms by (auto simp: sliceMarshal_def intro: reflect_same)
next
  case True
  have u: "underlying t = TSlice (elemOf t) \<and> (\<forall>x \<in> set xs. wtn (elemOf t) x)"
    using assms(2)[folded wtn_underlying[of t]] underlying_not_named[of t]
    by (cases "underlying t") (auto simp: elemOf_def list_all_iff split: if_splits)
  then have "mapEIdx 0 (safeMarshalValue env noField (elemOf t)) xs = mapEIdx 0 (\<lambda>x. Inr (AVS (keyText x))) xs"
    using True by (intro mapEIdx_cong refl) (auto intro: safe_string[OF assms(1)])
  moreover have "t \<noteq> TTime" using u by auto
  ultimately show ?thesis using assms True
    by (auto simp: safeMarshalValue.simps[of env sm t] sliceMarshal_def sliceElems_def nilPointer_def sameFlags_def noCustom_custom mapEIdx_Inr)
qed

lemma sprintEntries_strings:
  assumes "\<forall>p \<in> set es. conv (snd p) = Inr (g (snd p))" "distinct (map (\<lambda>p. sp (fst p)) es)"
    "\<forall>p \<in> set es. sp (fst p) \<notin> fst ` set m"
  shows "sprintEntries sp conv es m = Inr (m @ map (\<lambda>(k, x). (sp k, g x)) es)"
  using assms
proof (induction sp conv es m rule: sprintEntries.induct)
  case (2 sp conv k v es m)
  have "sp k \<notin> fst ` set m" using "2.prems"(3) by simp
  then have up: "AList.update (sp k) (g v) m = m @ [(sp k, g v)]" by (induction m) auto
  moreover have ok: "conv v = Inr (g v)" using "2.prems"(1) by simp
  moreover have "\<forall>p \<in> set es. sp (fst p) \<notin> fst ` set (m @ [(sp k, g v)])" using "2.prems"(2,3) by force
  ultimately show ?case using "2.IH"[OF ok] "2.prems" by simp
qed simp

lemma map_same:
  assumes "noCustom env" "sprintLaw env" "wtn t (VMap es)" "sameField fm t (VMap es)" "sameFlags sm fm"
  shows "mapMarshal env nc fm t (VMap es) = safeMarshalValue env sm t (VMap es)"
proof (cases "kindOf (keyTypeOf t) = KString \<and> kindOf (elemOf t) = KString")
  case False
  then show ?thesis using assms reflect_same[of env t "VMap es" sm fm nc] by (auto simp: mapMarshal_def)
next
  case True
  then have k: "keyTypeOf t = TString" using assms(4) by auto
  have u: "underlying t = TMap TString (elemOf t) \<and> (\<forall>p \<in> set es. wtn TString (fst p) \<and> wtn (elemOf t) (snd p)) \<and> distinct (map fst es)"
    using assms(3)[folded wtn_underlying[of t]] underlying_not_named[of t] k
    by (cases "underlying t") (auto simp: elemOf_def keyTypeOf_def list_all_iff split: if_splits)
  have key: "menvSprint env TString x = keyText x" if "wtn TString x" for x
    using that assms(2) by (auto simp: sprintLaw_def keyText_def split: gval.splits)
  have keys: "map (\<lambda>p. menvSprint env TString (fst p)) es = map (\<lambda>p. keyText (fst p)) es" using u key by simp
  have "inj_on keyText (fst ` set es)" using u by (auto simp: inj_on_def keyText_def split: gval.splits)
  then have "distinct (map (\<lambda>p. menvSprint env TString (fst p)) es)"
    unfolding keys using u by (simp add: distinct_map comp_inj_on_iff[symmetric] flip: map_map[of keyText fst, unfolded comp_def])
  then have "sprintEntries (menvSprint env TString) (safeMarshalValue env noField (elemOf t)) es []
      = Inr ([] @ map (\<lambda>(k, x). (menvSprint env TString k, AVS (keyText x))) es)"
    using u True safe_string[OF assms(1)] by (intro sprintEntries_strings) auto
  moreover have "map (\<lambda>(k, x). (menvSprint env TString k, AVS (keyText x))) es = map (\<lambda>(k, x). (keyText k, AVS (keyText x))) es"
    using u key by auto
  moreover have "t \<noteq> TTime" using u by auto
  ultimately show ?thesis using assms True k
    by (simp add: safeMarshalValue.simps[of env sm t] mapMarshal_def mapEntries_def nilPointer_def sameFlags_def noCustom_custom)
qed

lemma wtn_scalar:
  assumes "wtn t v"
  shows "v = VInt i \<Longrightarrow> \<exists>k. underlying t = TInt k" "v = VUint n \<Longrightarrow> \<exists>k. underlying t = TUint k"
    "v = VString s \<Longrightarrow> underlying t = TString" "v = VBool b \<Longrightarrow> underlying t = TBool"
  using assms[folded wtn_underlying[of t]] underlying_not_named[of t]
  by (cases "underlying t"; simp split: if_splits)+

lemma sameNested_scalar: "underlying t \<in> {TString, TBool, TFloat64} \<union> range TInt \<union> range TUint \<Longrightarrow> sameNested t"
  using sameNested_underlying[of t] by auto

lemma value_same:
  assumes "noCustom env" "sprintLaw env" "wtn t v" "sameField fm t v" "sameFlags sm fm" "\<And>p. v \<noteq> VPtr p"
  shows "builtMarshal env nc fm t v = safeMarshalValue env sm t v"
proof -
  note reflect = reflect_same[OF assms(1,3) _ assms(5,6), of nc]
  note evals = builtMarshal.simps[of env nc fm t] safeMarshalValue.simps[of env sm t] scalarMarshal_def noCustom_custom[OF assms(1)] nilPointer_def
  note flags = assms(5)[unfolded sameFlags_def]
  show ?thesis
  proof (cases v)
    case (VString s)
    then show ?thesis using flags wtn_scalar(3)[OF assms(3)] by (auto simp: evals)
  next
    case (VInt i)
    then have "sameNested t" "t \<noteq> TTime" using wtn_scalar(1)[OF assms(3)] by (auto intro: sameNested_scalar)
    then show ?thesis using VInt reflect flags by (auto simp: evals)
  next
    case (VUint n)
    then have "sameNested t" using wtn_scalar(2)[OF assms(3)] by (auto intro: sameNested_scalar)
    then show ?thesis using VUint reflect by (simp add: evals(1,3))
  next
    case (VFloat f)
    then have "t \<noteq> TTime" using assms(4) by auto
    then show ?thesis using VFloat assms(4) flags by (auto simp: evals)
  next
    case (VBool b)
    then show ?thesis using flags wtn_scalar(4)[OF assms(3)] assms(4) by (auto simp: evals)
  next
    case (VTime s)
    then show ?thesis using flags by (auto simp: evals reflectMarshal_def fast_complex[OF assms(1)] fastMarshalValue.simps[of env nc t] noCustom_using[OF assms(1)])
  next
    case (VSlice xs)
    then show ?thesis using slice_same[of env t xs fm sm nc] assms by (simp add: evals(1,3))
  next
    case (VMap es)
    then show ?thesis using map_same[of env t es fm sm nc] assms by (simp add: evals(1,3))
  qed (use assms(4,6) reflect in \<open>simp_all add: evals(1,3)\<close>)
qed

text \<open>A nil pointer, slice or map.\<close>

lemma nil_same:
  assumes "noCustom env" "wtn t (VPtr None)" "sameField fm t (VPtr None)"
  shows "builtMarshal env nc fm t (VPtr None) = safeMarshalValue env sm t (VPtr None)"
proof (cases "kindOf t = KSlice \<or> kindOf t = KMap")
  case True
  note nil = nil_collection[OF True assms(1)]
  have "reflectMarshal env nc fm t (VPtr None) = Inr (AVNULL True)" by (simp add: reflectMarshal_def fast_complex[OF assms(1)] nil)
  then show ?thesis using True assms(3) by (auto simp: builtMarshal.simps[of env nc fm t] sliceMarshal_def sliceElems_def mapMarshal_def nil)
next
  case False
  then have "kindOf t = KPointer" using assms(2)[folded wtn_underlying[of t]] underlying_not_named[of t]
    by (cases "underlying t") (auto simp: kindOf_def)
  then show ?thesis by (simp add: builtMarshal.simps[of env nc fm t] safeMarshalValue.simps[of env sm t] nilPointer_def)
qed

lemma flat_same:
  assumes "noCustom env" "sprintLaw env" "wtn t v" "sameField fm t v" "sameFlags sm fm" "\<And>w. v \<noteq> VPtr (Some w)"
  shows "builtMarshal env nc fm t v = safeMarshalValue env sm t v"
proof (cases "v = VPtr None")
  case True
  then show ?thesis using nil_same[OF assms(1)] assms(3,4) by simp
next
  case False
  then have "v \<noteq> VPtr p" for p using assms(6) by (cases p) auto
  then show ?thesis by (rule value_same[OF assms(1-5)])
qed

lemma field_same:
  assumes "noCustom env" "sprintLaw env" "wtn t v" "sameField fm t v" "sameFlags sm fm"
  shows "builtMarshal env nc fm t v = safeMarshalValue env sm t v"
proof (cases "\<exists>w. v = VPtr (Some w)")
  case False
  then show ?thesis using flat_same[OF assms] by blast
next
  case True
  then obtain w where p: "v = VPtr (Some w)" by blast
  have w: "wtn (elemOf t) w" using assms(3) p wtn_underlying[of t v] underlying_not_named[of t]
    by (cases "underlying t") (auto simp: elemOf_def split: if_splits)
  have k: "kindOf (elemOf t) \<noteq> KPointer" "sameField fm (elemOf t) w" using assms(4) p by auto
  have ne: "w \<noteq> VPtr (Some p)" for p using wtn_not_ptr[OF w k(1)] .
  have "builtMarshal env nc fm t v = builtMarshal env nc fm (elemOf t) w" using p by (subst builtMarshal.simps) simp
  then show ?thesis using flat_same[OF assms(1,2) w k(2) assms(5) ne] safe_deref[OF assms(1) ne k(1)] p by simp
qed

subsection \<open>Whole items\<close>

text \<open>\<open>mds\<close> gives the one metadata of each type.  A cache is sound when its entries were built from it.\<close>

definition safeCacheOK :: "(gtype \<Rightarrow> Metadata) \<Rightarrow> safeCache \<Rightarrow> bool" where
  "safeCacheOK mds cache = list_all (\<lambda>(t, sm). sm = buildSafeStructMarshaler t (mds t)) cache"

definition fastCacheOK :: "marshalEnv \<Rightarrow> (gtype \<Rightarrow> Metadata) \<Rightarrow> Marshaler \<Rightarrow> bool" where
  "fastCacheOK env mds m = list_all (\<lambda>(t, sm). buildStructMarshaler env (mds t) t = Inr sm) (mCache m)"

definition agrees :: "gtype \<Rightarrow> gval \<Rightarrow> FieldMetadata \<Rightarrow> bool" where
  "agrees t v fm =
     (buildSafeField t fm \<noteq> None \<and>
      (case fieldByIndex (IndexPath fm) t v of
         None \<Rightarrow> False
       | Some (ft, fv) \<Rightarrow> IsCreatedAt fm \<or> IsUpdatedAt fm \<or> IsVersion fm \<or> sameField fm ft fv))"

lemma safeCache_entry: "safeCacheOK mds cache \<Longrightarrow> map_of cache t = Some sm \<Longrightarrow> sm = buildSafeStructMarshaler t (mds t)"
  by (auto simp: safeCacheOK_def list_all_iff dest: map_of_SomeD)

lemma fastCache_entry: "fastCacheOK env mds m \<Longrightarrow> map_of (mCache m) t = Some sm \<Longrightarrow> buildStructMarshaler env (mds t) t = Inr sm"
  by (auto simp: fastCacheOK_def list_all_iff dest: map_of_SomeD)

lemma safeMarshalItem_value:
  assumes "safeCacheOK mds cache" "derefStructValue mdl = Inr (t, v)"
  shows "safeMarshalItem env now mdl (mds t) cache =
     (let fms = ssFields (buildSafeStructMarshaler t (mds t)) in marshalSafeStructFields env (t, v) fms (safeNow now fms),
      snd (getOrBuild (\<lambda>t. buildSafeStructMarshaler t (mds t)) t cache))"
  using safeCache_entry[OF assms(1), of t] assms(2) by (auto simp: safeMarshalItem_def getOrBuild_def Let_def split: option.splits)

lemma MarshalItem_value:
  assumes "fastCacheOK env mds m" "derefStructValue mdl = Inr (t, v)"
  shows "fst (MarshalItem env now mdl (mds t) m) =
     bindE (buildStructMarshaler env (mds t) t) (\<lambda>sm. foldE (fastFieldStep env (NamingConvention (mds t)) (t, v) (fastNow now (fsFields sm))) (fsFields sm) [])"
  using fastCache_entry[OF assms(1), of t] assms(2)
  by (auto simp: MarshalItem_def Let_def bindE_def split: option.splits sum.splits)

lemma safeMarshalItem_cache:
  assumes "safeCacheOK mds cache" "\<And>t v. derefStructValue mdl = Inr (t, v) \<Longrightarrow> md = mds t"
  shows "safeCacheOK mds (snd (safeMarshalItem env now mdl md cache))"
  using assms by (auto simp: safeMarshalItem_def getOrBuild_def safeCacheOK_def split: sum.splits option.splits)

lemma MarshalItem_cache:
  assumes "fastCacheOK env mds m" "\<And>t v. derefStructValue mdl = Inr (t, v) \<Longrightarrow> md = mds t"
  shows "fastCacheOK env mds (snd (MarshalItem env now mdl md m))"
  using assms by (auto simp: MarshalItem_def getOrBuild_def fastCacheOK_def Let_def split: sum.splits option.splits)

lemma field_wtn: "wtn t v \<Longrightarrow> fieldByIndex p t v = Some (ft, fv) \<Longrightarrow> wtn ft fv \<and> typeByIndex p t = Some ft"
proof (induction p t v rule: fieldByIndex.induct)
  case (2 i p t v)
  then obtain vs where vs: "v = VStruct vs" "i < length vs" "i < length (structFields t)"
      "fieldByIndex p (sfType (structFields t ! i)) (vs ! i) = Some (ft, fv)" by (auto split: gval.splits if_splits)
  have "list_all2 (\<lambda>f w. wtn (sfType f) w) (structFields t) vs"
    using "2.prems"(1)[folded wtn_underlying[of t]] vs(1) underlying_not_named[of t]
    by (cases "underlying t") (auto simp: structFields_def split: if_splits)
  then have "wtn (sfType (structFields t ! i)) (vs ! i)" using vs(2,3) by (simp add: list_all2_conv_all_nth)
  then show ?case using "2.IH"[of vs] vs by auto
qed simp

lemma map_filter_total: "\<forall>x \<in> set xs. f x \<noteq> None \<Longrightarrow> List.map_filter f xs = map (\<lambda>x. the (f x)) xs"
  by (induction xs) (auto simp: List.map_filter_simps)

lemma step_same:
  assumes "noCustom env" "sprintLaw env" "wtn t v" "agrees t v fm"
  shows "\<exists>sm ff. buildSafeField t fm = Some sm \<and> buildField env t fm = Inr ff \<and> smIsCreatedAt sm = IsCreatedAt (ffMeta ff)
     \<and> smIsUpdatedAt sm = IsUpdatedAt (ffMeta ff) \<and> (\<forall>now itm. fastFieldStep env nc (t, v) now ff itm = safeFieldStep env (t, v) now sm itm)"
proof -
  obtain sm where sm: "buildSafeField t fm = Some sm" using assms(4) by (auto simp: agrees_def)
  obtain ft fv where f: "fieldByIndex (IndexPath fm) t v = Some (ft, fv)"
      "IsCreatedAt fm \<or> IsUpdatedAt fm \<or> IsVersion fm \<or> sameField fm ft fv"
    using assms(4) by (auto simp: agrees_def split: option.splits)
  let ?ff = "\<lparr> ffTyp = ft, ffFunc = BuiltFunc, ffMeta = fm \<rparr>"
  have ff: "buildField env t fm = Inr ?ff" using field_wtn[OF assms(3) f(1)] noCustom_has[OF assms(1)] by (simp add: buildField_def)
  have flags: "sameFlags sm fm" "smDbName sm = DBName fm" "smFieldIndex sm = IndexPath fm" "smIsCreatedAt sm = IsCreatedAt fm"
      "smIsUpdatedAt sm = IsUpdatedAt fm" "smIsVersion sm = IsVersion fm" "smOmitEmpty sm = OmitEmpty fm"
    using sm by (auto simp: buildSafeField_def sameFlags_def split: option.splits if_splits)
  have "sameField fm ft fv \<Longrightarrow> builtMarshal env nc fm ft fv = safeMarshalValue env sm ft fv"
    using field_same[OF assms(1,2) _ _ flags(1)] field_wtn[OF assms(3) f(1)] by blast
  then have "fastFieldStep env nc (t, v) now ?ff itm = safeFieldStep env (t, v) now sm itm" for now itm
    using f flags by (auto simp: fastFieldStep_def safeFieldStep_def callMarshalFunc_def Let_def split: sum.splits)
  then show ?thesis using sm ff flags by (intro exI[of _ sm] exI[of _ ?ff]) simp
qed


text \<open>A model with a set, an omitted pointer, a version, a creation time, an empty list and an omitted nil map.\<close>

definition demoMField :: "string \<Rightarrow> string \<Rightarrow> nat \<Rightarrow> gtype \<Rightarrow> FieldMetadata" where
  "demoMField name db i t = \<lparr> fmType = t, IndexInfo = [], Tags = [], DBName = db, fmName = name, IndexPath = [i], fmIndex = i, IsPK = (i = 0),
     IsEncrypted = False, IsVersion = False, IsTTL = False, IsCreatedAt = False, IsUpdatedAt = False, IsSet = False, OmitEmpty = False, IsSK = False \<rparr>"

definition demoMType :: gtype where
  "demoMType = TStruct ''Note'' [SField ''ID'' True False [] [] TString, SField ''Tags'' True False [] [] (TSlice TString),
     SField ''Done'' True False [] [] (TPtr TBool), SField ''Version'' True False [] [] (TInt Int64), SField ''CreatedAt'' True False [] [] TTime,
     SField ''Links'' True False [] [] (TSlice TString), SField ''Meta'' True False [] [] (TMap TString TString)]"

definition demoMMeta :: Metadata where
  "demoMMeta = (newMetadata demoMType ''notes'' CamelCase) \<lparr> Fields :=
     [(''ID'', demoMField ''ID'' ''id'' 0 TString),
      (''Tags'', (demoMField ''Tags'' ''tags'' 1 (TSlice TString)) \<lparr> IsSet := True \<rparr>),
      (''Done'', (demoMField ''Done'' ''done'' 2 (TPtr TBool)) \<lparr> OmitEmpty := True \<rparr>),
      (''Version'', (demoMField ''Version'' ''version'' 3 (TInt Int64)) \<lparr> IsVersion := True \<rparr>),
      (''CreatedAt'', (demoMField ''CreatedAt'' ''createdAt'' 4 TTime) \<lparr> IsCreatedAt := True \<rparr>),
      (''Links'', demoMField ''Links'' ''links'' 5 (TSlice TString)),
      (''Meta'', (demoMField ''Meta'' ''meta'' 6 (TMap TString TString)) \<lparr> OmitEmpty := True \<rparr>)] \<rparr>"

definition demoMEnv :: marshalEnv where
  "demoMEnv = \<lparr> menvConverter = None, menvFormat = (\<lambda>t n f. f), menvUnix = (\<lambda>s. 0), menvSprint = (\<lambda>t v. keyText v) \<rparr>"

definition demoMVal :: gval where
  "demoMVal = VStruct [VString ''n1'', VSlice [VString ''a'', VString ''b''], VPtr None, VInt 3, VTime zeroTime, VSlice [], VPtr None]"


section \<open>Choosing a marshaler\<close>

text \<open>The unsafe marshaler is made exactly when it is configured, allowed, not overridden by the environment and, where that is required,
  acknowledged in full with a signature; then the use is counted once if warnings are on, and no other call changes the counters except one that
  the environment overrides.\<close>

theorem unsafe_needs_consent:
  "(\<exists>c. fst (NewMarshalerWithAcknowledgment forceSafe fresh cfg conv ack s) = Inr (NewUnsafe c)) \<longleftrightarrow>
     cfgMarshalerType cfg = ''unsafe'' \<and> cfgAllowUnsafeMarshaler cfg \<and> \<not> forceSafe \<and>
     (cfgRequireExplicitUnsafeAck cfg \<longrightarrow>
        (\<exists>a. ack = Some a \<and> ackMemoryCorruptionRisk a \<and> ackSecurityVulnerable a \<and> ackDeprecationWarning a \<and> ackDeveloperSignature a \<noteq> []))"
  by (cases ack) (auto simp: NewMarshalerWithAcknowledgment_def createUnsafeMarshaler_def checkAcknowledgment_def Let_def split: sum.splits if_splits)

lemma NewMarshaler_default_safe: "fst (NewMarshaler forceSafe fresh (initialConfig envType) conv s) = Inr (NewSafe conv) \<longleftrightarrow> envType \<noteq> ''unsafe''"
  by (auto simp: NewMarshaler_def NewMarshalerWithAcknowledgment_def createUnsafeMarshaler_def checkAcknowledgment_def initialConfig_def DefaultConfig_def)

section \<open>Corners\<close>

text \<open>Forcing the safe marshaler by the environment also takes away the custom converters.\<close>

theorem forced_safe_drops_converter:
  "NewMarshalerWithAcknowledgment True fresh (initialConfig ''unsafe'') (Some c) (Some (CreateSecurityAcknowledgment now ''dev'')) s
     = (Inr (NewSafe None), \<lparr> unsafeUsageCounter = wrapInt 64 (unsafeUsageCounter s + 1), securityWarnings = wrapInt 64 (securityWarnings s + 1) \<rparr>)"
  by (simp add: NewMarshalerWithAcknowledgment_def createUnsafeMarshaler_def checkAcknowledgment_def initialConfig_def DefaultConfig_def
      CreateSecurityAcknowledgment_def)

text \<open>An error of a custom converter on a nested value is dropped and the value written as if there were no converter.\<close>

theorem converter_error_dropped:
  assumes "marshalCustomValue env t (VString s) = Some (Inl e)"
  shows "fastMarshalValue env nc t (VString s) = Inr (AVS s)" "t \<noteq> TTime \<Longrightarrow> safeMarshalValue env noField t (VString s) = Inl e"
  using assms by (simp_all add: fastMarshalValue.simps safeMarshalValue.simps marshalUsingCustomConverter_def noField_flags nilPointer_def)

text \<open>A nested field with the tag \<open>json:",omitempty"\<close> is written under that text, one with \<open>json:"-"\<close> is written.\<close>

theorem json_tag_as_name:
  "nestedName nc (SField n True False tag '',omitempty'' t) = '',omitempty''" "nestedName nc (SField n True False tag ''-'' t) = ConvertAttrName n nc"
  by (simp_all add: nestedName_def jsonTagName_def)

text \<open>A false flag with \<open>omitempty\<close> is written by one marshaler and left out by the other.\<close>

theorem false_not_omitted:
  assumes "OmitEmpty fm" "smOmitEmpty sm"
  shows "builtMarshal env nc fm TBool (VBool False) = Inr (AVBOOL False)" "safeMarshalValue env sm TBool (VBool False) = Inr (AVNULL True)"
  using assms by (simp_all add: builtMarshal.simps scalarMarshal_def safe_zero)

text \<open>An empty list of strings that is not nil is left out by one marshaler and written by the other; with a nil one, and without \<open>omitempty\<close>,
  one writes an empty list and the other NULL.\<close>

theorem empty_strings_differ:
  assumes "noCustom env" "sameFlags sm fm" "\<not> IsSet fm"
  shows "OmitEmpty fm \<Longrightarrow> builtMarshal env nc fm (TSlice TString) (VSlice []) = Inr (AVNULL True)"
    "safeMarshalValue env sm (TSlice TString) (VSlice []) = Inr (AVL [])"
    "\<not> OmitEmpty fm \<Longrightarrow> builtMarshal env nc fm (TSlice TString) (VPtr None) = Inr (AVL [])"
    "safeMarshalValue env sm (TSlice TString) (VPtr None) = Inr (AVNULL True)"
  using assms nil_collection[of "TSlice TString" env]
  by (auto simp: builtMarshal.simps scalarMarshal_def sliceMarshal_def sliceElems_def safeMarshalValue.simps nilPointer_def sameFlags_def
      noCustom_custom kindOf_def elemOf_def)

text \<open>Bytes become a list of numbers, where the converter writes a binary.\<close>

theorem bytes_as_list:
  assumes "noCustom env" "b \<noteq> []"
  shows "safeMarshalValue env noField (TSlice (TUint Uint8)) (VBytes b) = Inr (AVL (map (\<lambda>ch. AVN (showNat (of_char ch))) b))"
    "lookupConverter c (TSlice (TUint Uint8)) = None \<Longrightarrow> toAttributeValue c (TSlice (TUint Uint8)) (VBytes b) = Inr (AVB b)"
  using assms by (simp_all add: safeMarshalValue.simps toAttributeValue.simps noCustom_custom noField_flags nilPointer_def marshalByte_plain mapEIdx_Inr)

end
