(* ===== verification/Migrate.thy ===== *)
theory Migrate
  imports Schema Marshal
begin

text \<open>
  \<open>pkg/schema/transform.go\<close> and \<open>automigrate.go\<close>: transformations of items, backups, and the copying of a table into another.  A transform
  argument of type \<open>any\<close> is one of the kinds the code tells apart by its signature; calling a function through \<open>reflect\<close> with an argument of
  another type panics.  The clock reading for an item and the marshaler's environment are parameters.  The cache of the marshaler is empty for each
  item: by \<open>safeMarshalItem_value\<close> this makes no difference.
\<close>

section \<open>Transforms\<close>

type_synonym TransformFunc = "item \<Rightarrow> (serror, item) result"

datatype transformArg =
    NotAFunction
  | ItemTransform "item \<Rightarrow> item \<times> string option"       \<comment> \<open>func(map[string]types.AttributeValue) (map[string]types.AttributeValue, error)\<close>
  | ModelTransform gtype gtype "gval \<Rightarrow> gval"            \<comment> \<open>func(In) Out\<close>
  | OtherFunction

definition validateModelType :: "gtype \<Rightarrow> string \<Rightarrow> (serror, unit) result" where
  "validateModelType t role =
     (let t' = (if kindOf t = KPointer then elemOf t else t) in
      if kindOf t' = KStruct then Inr () else Inl (SchemaError (role @ '' model must be a struct or pointer to struct'')))"

fun ValidateTransform :: "transformArg option \<Rightarrow> (serror, unit) result" where
  "ValidateTransform None = Inr ()"
| "ValidateTransform (Some NotAFunction) = Inl (SchemaError ''transform must be a function'')"
| "ValidateTransform (Some (ModelTransform a b f)) = bindE (validateModelType a ''source'') (\<lambda>_. validateModelType b ''target'')"
| "ValidateTransform (Some (ItemTransform f)) = Inr ()"
| "ValidateTransform (Some OtherFunction) = Inl (SchemaError ''invalid transform function signature'')"

text \<open>Each attribute also under the name of its Go field, unless something is stored there already.\<close>

definition augmentStep :: "Metadata \<Rightarrow> string \<times> attrval \<Rightarrow> item \<Rightarrow> item" where
  "augmentStep md e out =
     (let out1 = AList.update (fst e) (snd e) out in
      case map_of (FieldsByDBName md) (fst e) of
        None \<Rightarrow> out1
      | Some fm \<Rightarrow> (if map_of out1 (fmName fm) = None then AList.update (fmName fm) (snd e) out1 else out1))"

definition augmentAttributeMapForTransform :: "item \<Rightarrow> Metadata option \<Rightarrow> item" where
  "augmentAttributeMapForTransform itm md =
     (case md of
        None \<Rightarrow> itm
      | Some m \<Rightarrow> (if FieldsByDBName m = [] then itm else fold (augmentStep m) itm []))"

definition callAttributeValueTransform :: "(item \<Rightarrow> item \<times> string option) \<Rightarrow> TransformFunc" where
  "callAttributeValueTransform f source = (case f source of (out, None) \<Rightarrow> Inr out | (out, Some e) \<Rightarrow> Inl (SchemaError e))"

definition wrapAttributeValueTransform :: "(item \<Rightarrow> item \<times> string option) \<Rightarrow> Metadata \<Rightarrow> TransformFunc" where
  "wrapAttributeValueTransform f md source = callAttributeValueTransform f (augmentAttributeMapForTransform source (Some md))"

definition sourceFieldStep :: "pkgConverter \<Rightarrow> gtype \<Rightarrow> Metadata \<Rightarrow> string \<times> attrval \<Rightarrow> gval \<Rightarrow> (serror, gval) result" where
  "sourceFieldStep c t md e v =
     (case map_of (FieldsByDBName md) (fst e) of
        None \<Rightarrow> Inr v
      | Some fm \<Rightarrow>
          (case fieldByIndex (IndexPath fm) t v of
             None \<Rightarrow> Inl SPanic
           | Some (ft, old) \<Rightarrow>
               (case fromAttributeValue c (snd e) ft old of
                  Inl err \<Rightarrow> Inl (SWrapped (''failed to unmarshal field '' @ fmName fm) (SConvert err))
                | Inr new \<Rightarrow> Inr (Unmarshal.setByIndex (IndexPath fm) new v))))"

definition buildSourceModel :: "pkgConverter \<Rightarrow> gtype \<Rightarrow> item \<Rightarrow> Metadata \<Rightarrow> (serror, gval) result" where
  "buildSourceModel c inType itm md =
     (let t = (if kindOf inType = KPointer then elemOf inType else inType) in foldE (sourceFieldStep c t md) itm (zeroOf t))"

text \<open>The function gets the struct itself; one that takes a pointer cannot be called with it.\<close>

definition wrapModelTransform ::
  "marshalEnv \<Rightarrow> pkgConverter \<Rightarrow> (item \<Rightarrow> string) \<Rightarrow> gtype \<Rightarrow> gtype \<Rightarrow> (gval \<Rightarrow> gval) \<Rightarrow> Metadata \<Rightarrow> Metadata \<Rightarrow> TransformFunc" where
  "wrapModelTransform env c now inType outType f sourceMd targetMd itm =
     bindE (buildSourceModel c inType itm sourceMd) (\<lambda>src.
       if kindOf inType = KPointer then Inl SPanic
       else case fst (safeMarshalItem (env \<lparr> menvConverter := Some c \<rparr>) (now itm) (toInterface outType (f src)) targetMd []) of
         Inl e \<Rightarrow> Inl (SWrapped ''failed to marshal target item'' (SConvert e))
       | Inr out \<Rightarrow> Inr out)"

definition CreateModelTransform ::
  "marshalEnv \<Rightarrow> pkgConverter \<Rightarrow> (item \<Rightarrow> string) \<Rightarrow> transformArg option \<Rightarrow> Metadata \<Rightarrow> Metadata \<Rightarrow> (serror, TransformFunc option) result" where
  "CreateModelTransform env c now arg sourceMd targetMd =
     (case arg of
        None \<Rightarrow> Inr None
      | Some a \<Rightarrow>
          bindE (ValidateTransform arg) (\<lambda>_.
            Inr (Some (case a of
              ItemTransform f \<Rightarrow> wrapAttributeValueTransform f sourceMd
            | ModelTransform i out f \<Rightarrow> wrapModelTransform env c now i out f sourceMd targetMd
            | _ \<Rightarrow> (\<lambda>_. Inl SPanic)))))"

definition validateRequiredFields :: "item \<Rightarrow> Metadata \<Rightarrow> (serror, unit) result" where
  "validateRequiredFields itm md =
     bindE (primaryKeyOf md) (\<lambda>ks.
       bindE (case PartitionKey ks of
                Some pk \<Rightarrow> (if map_of itm (DBName pk) = None then Inl (SchemaError (''missing required partition key field: '' @ DBName pk)) else Inr ())
              | None \<Rightarrow> Inr ()) (\<lambda>_.
         case SortKey ks of
           Some sk \<Rightarrow> (if map_of itm (DBName sk) = None then Inl (SchemaError (''missing required sort key field: '' @ DBName sk)) else Inr ())
         | None \<Rightarrow> Inr ()))"

definition TransformWithValidation :: "TransformFunc option \<Rightarrow> Metadata \<Rightarrow> TransformFunc" where
  "TransformWithValidation transform targetMd itm =
     (case transform of
        None \<Rightarrow> Inr itm
      | Some tr \<Rightarrow>
          bindE (mapErr (SWrapped ''transform function failed'') (tr itm)) (\<lambda>out.
            bindE (mapErr (SWrapped ''transform validation failed'') (validateRequiredFields out targetMd)) (\<lambda>_. Inr out)))"

text \<open>The transforms the package offers.\<close>

definition CopyAllFields :: TransformFunc where
  "CopyAllFields source = Inr (fold (\<lambda>(k, v). AList.update k v) source [])"

definition RenameField :: "string \<Rightarrow> string \<Rightarrow> TransformFunc" where
  "RenameField oldName newName source = Inr (fold (\<lambda>(k, v). AList.update (if k = oldName then newName else k) v) source [])"

definition AddField :: "string \<Rightarrow> attrval \<Rightarrow> TransformFunc" where
  "AddField fieldName defaultValue source = Inr (AList.update fieldName defaultValue (fold (\<lambda>(k, v). AList.update k v) source []))"

definition RemoveField :: "string \<Rightarrow> TransformFunc" where
  "RemoveField fieldName source = Inr (fold (\<lambda>(k, v) out. if k \<noteq> fieldName then AList.update k v out else out) source [])"

fun chainFrom :: "nat \<Rightarrow> TransformFunc option list \<Rightarrow> TransformFunc" where
  "chainFrom i [] current = Inr current"
| "chainFrom i (None # trs) current = chainFrom (i + 1) trs current"
| "chainFrom i (Some tr # trs) current =
     (case tr current of
        Inl e \<Rightarrow> Inl (SWrapped (''transform '' @ showNat i @ '' failed'') e)
      | Inr next \<Rightarrow> chainFrom (i + 1) trs next)"

definition ChainTransforms :: "TransformFunc option list \<Rightarrow> TransformFunc" where
  "ChainTransforms trs = chainFrom 0 trs"

section \<open>Writing items\<close>

text \<open>\<open>mcScan\<close> gives a page and the key to go on from, \<open>None\<close> for nil; \<open>mcSleep\<close> fails when the context is done.\<close>

record 'w migrateClient =
  mcTables :: "'w schemaClient"
  mcScan :: "string \<Rightarrow> int \<Rightarrow> item option \<Rightarrow> 'w \<Rightarrow> (awsError, item list \<times> item option) result \<times> 'w"
  mcBatchWrite :: "string \<Rightarrow> WriteRequest list \<Rightarrow> 'w \<Rightarrow> (awsError, (string \<times> WriteRequest list) list) result \<times> 'w"
  mcPutItem :: "string \<Rightarrow> item \<Rightarrow> 'w \<Rightarrow> (awsError, unit) result \<times> 'w"
  mcCreateBackup :: "string \<Rightarrow> string \<Rightarrow> 'w \<Rightarrow> (awsError, unit) result \<times> 'w"
  mcSleep :: "nat \<Rightarrow> 'w \<Rightarrow> (string, unit) result \<times> 'w"

type_synonym 'w migrateSession = "(serror, 'w migrateClient) result"

definition tableSession :: "'w migrateSession \<Rightarrow> 'w schemaSession" where
  "tableSession session = (case session of Inl e \<Rightarrow> Inl e | Inr cl \<Rightarrow> Inr (mcTables cl))"

definition unprocessedRequestsForTable :: "(string \<times> WriteRequest list) list \<Rightarrow> string \<Rightarrow> WriteRequest list" where
  "unprocessedRequestsForTable unp tableName = (case map_of unp tableName of None \<Rightarrow> [] | Some rs \<Rightarrow> rs)"

text \<open>Milliseconds before the next attempt.\<close>

definition migrateBackoff :: "nat \<Rightarrow> nat" where
  "migrateBackoff retryCount = retryCount * retryCount * 100"

text \<open>The loop over the attempts; the first number counts those that are left.\<close>

fun batchWriteAttempts :: "'w migrateClient \<Rightarrow> string \<Rightarrow> nat \<Rightarrow> nat \<Rightarrow> WriteRequest list \<Rightarrow> 'w \<Rightarrow> (serror, WriteRequest list) result \<times> 'w" where
  "batchWriteAttempts cl tn 0 attempt reqs w = (Inr reqs, w)"
| "batchWriteAttempts cl tn (Suc n) attempt reqs w =
     (case mcBatchWrite cl tn reqs w of
        (Inl e, w1) \<Rightarrow> (Inl (SWrapped ''failed to write batch'' (SAws e)), w1)
      | (Inr unp, w1) \<Rightarrow>
          (let rest = unprocessedRequestsForTable unp tn in
           if rest = [] then (Inr [], w1)
           else if n = 0 then (Inr rest, w1)
           else case mcSleep cl (migrateBackoff attempt) w1 of
             (Inl e, w2) \<Rightarrow> (Inl (SWrapped ''context canceled during retry'' (SchemaError e)), w2)
           | (Inr _, w2) \<Rightarrow> batchWriteAttempts cl tn n (attempt + 1) rest w2))"

definition batchWriteWithRetries :: "'w migrateClient \<Rightarrow> string \<Rightarrow> WriteRequest list \<Rightarrow> int \<Rightarrow> 'w \<Rightarrow> (serror, WriteRequest list) result \<times> 'w" where
  "batchWriteWithRetries cl tn reqs maxRetries w =
     (if reqs = [] then (Inr [], w) else batchWriteAttempts cl tn (nat maxRetries) 1 reqs w)"

fun putWriteRequestsIndividually :: "'w migrateClient \<Rightarrow> string \<Rightarrow> WriteRequest list \<Rightarrow> 'w \<Rightarrow> (serror, unit) result \<times> 'w" where
  "putWriteRequestsIndividually cl tn [] w = (Inr (), w)"
| "putWriteRequestsIndividually cl tn (DeleteRequest k # rs) w = putWriteRequestsIndividually cl tn rs w"
| "putWriteRequestsIndividually cl tn (PutRequest itm # rs) w =
     (case mcPutItem cl tn itm w of
        (Inl e, w1) \<Rightarrow> (Inl (SWrapped ''failed to put individual item after batch failures'' (SAws e)), w1)
      | (Inr _, w1) \<Rightarrow> putWriteRequestsIndividually cl tn rs w1)"

fun writeBatches :: "'w migrateClient \<Rightarrow> string \<Rightarrow> int \<Rightarrow> WriteRequest list list \<Rightarrow> 'w \<Rightarrow> (serror, unit) result \<times> 'w" where
  "writeBatches cl tn maxRetries [] w = (Inr (), w)"
| "writeBatches cl tn maxRetries (batch # batches) w =
     (case batchWriteWithRetries cl tn batch maxRetries w of
        (Inl e, w1) \<Rightarrow> (Inl e, w1)
      | (Inr rest, w1) \<Rightarrow>
          (case (if rest = [] then (Inr (), w1) else putWriteRequestsIndividually cl tn rest w1) of
             (Inl e, w2) \<Rightarrow> (Inl e, w2)
           | (Inr _, w2) \<Rightarrow> writeBatches cl tn maxRetries batches w2))"

definition writeRequestsBatched :: "'w migrateClient \<Rightarrow> string \<Rightarrow> WriteRequest list \<Rightarrow> int \<Rightarrow> int \<Rightarrow> 'w \<Rightarrow> (serror, unit) result \<times> 'w" where
  "writeRequestsBatched cl tn reqs maxBatchSize maxRetries w =
     (if reqs = [] then (Inr (), w)
      else writeBatches cl tn maxRetries (windows (if maxBatchSize \<le> 0 then length reqs else nat maxBatchSize) reqs) w)"

definition buildPutWriteRequests :: "item list \<Rightarrow> WriteRequest list" where
  "buildPutWriteRequests items = map PutRequest items"

definition buildPutWriteRequestsWithTransform :: "item list \<Rightarrow> TransformFunc option \<Rightarrow> Metadata \<Rightarrow> (serror, WriteRequest list) result" where
  "buildPutWriteRequestsWithTransform items transform targetMd =
     (case transform of
        None \<Rightarrow> Inr (buildPutWriteRequests items)
      | Some _ \<Rightarrow> mapE (\<lambda>itm. bindE (mapErr (SWrapped ''failed to transform item'') (TransformWithValidation transform targetMd itm)) (\<lambda>out. Inr (PutRequest out))) items)"

section \<open>Copying tables\<close>

text \<open>Scan a page, process it, go on from its last key.\<close>

partial_function (option) copyPages ::
  "'w migrateClient \<Rightarrow> string \<Rightarrow> int \<Rightarrow> (item list \<Rightarrow> 'w \<Rightarrow> (serror, unit) result \<times> 'w) \<Rightarrow> item option \<Rightarrow> 'w \<Rightarrow> ((serror, unit) result \<times> 'w) option" where
  "copyPages cl source pageSize process start w =
     (case mcScan cl source pageSize start w of
        (Inl e, w1) \<Rightarrow> Some (Inl (SWrapped ''failed to scan source table'' (SAws e)), w1)
      | (Inr (items, next), w1) \<Rightarrow>
          (case process items w1 of
             (Inl e, w2) \<Rightarrow> Some (Inl e, w2)
           | (Inr _, w2) \<Rightarrow> (if next = None then Some (Inr (), w2) else copyPages cl source pageSize process next w2)))"

definition processItems :: "'w migrateClient \<Rightarrow> string \<Rightarrow> TransformFunc option \<Rightarrow> Metadata \<Rightarrow> item list \<Rightarrow> 'w \<Rightarrow> (serror, unit) result \<times> 'w" where
  "processItems cl target transform targetMd items w =
     (case buildPutWriteRequestsWithTransform items transform targetMd of
        Inl e \<Rightarrow> (Inl e, w)
      | Inr reqs \<Rightarrow> writeRequestsBatched cl target reqs 25 5 w)"

definition copyData ::
  "'w migrateSession \<Rightarrow> int \<Rightarrow> Metadata \<Rightarrow> Metadata \<Rightarrow> TransformFunc option \<Rightarrow> 'w \<Rightarrow> ((serror, unit) result \<times> 'w) option" where
  "copyData session batchSize sourceMd targetMd transform w =
     (case session of
        Inl e \<Rightarrow> Some (Inl (SWrapped ''failed to get client for data copy'' e), w)
      | Inr cl \<Rightarrow>
          copyPages cl (TableName sourceMd) (ClampIntToInt32 batchSize)
            (\<lambda>items w. if items = [] then (Inr (), w)
               else case processItems cl (TableName targetMd) transform targetMd items w of
                 (r, w') \<Rightarrow> (mapErr (SWrapped ''failed to process items'') r, w')) None w)"

definition resolveDataCopyBatchSize :: "int \<Rightarrow> int" where
  "resolveDataCopyBatchSize batchSize = (if batchSize \<le> 0 then 10 else if batchSize < 10 then batchSize else 10)"

definition writeItemsToTable :: "'w migrateClient \<Rightarrow> string \<Rightarrow> int \<Rightarrow> item list \<Rightarrow> 'w \<Rightarrow> (serror, unit) result \<times> 'w" where
  "writeItemsToTable cl target maxBatchSize items w =
     (if items = [] then (Inr (), w) else writeRequestsBatched cl target (buildPutWriteRequests items) maxBatchSize 5 w)"

definition copyTableData :: "'w migrateSession \<Rightarrow> string \<Rightarrow> string \<Rightarrow> int \<Rightarrow> 'w \<Rightarrow> ((serror, unit) result \<times> 'w) option" where
  "copyTableData session source target batchSize w =
     (case session of
        Inl e \<Rightarrow> Some (Inl (SWrapped ''failed to get client for table data copy'' e), w)
      | Inr cl \<Rightarrow>
          copyPages cl source (ClampIntToInt32 batchSize) (writeItemsToTable cl target (resolveDataCopyBatchSize batchSize)) None w)"

text \<open>The copy has the schema and the throughput of the source.  A missing billing summary is a nil dereference.\<close>

definition copyCreateInput :: "string \<Rightarrow> TableDescription \<Rightarrow> (serror, CreateTableInput) result" where
  "copyCreateInput target desc =
     (case tdBillingMode desc of
        None \<Rightarrow> Inl SPanic
      | Some mode \<Rightarrow> Inr (emptyCreateInput \<lparr> ctTableName := target, ctKeySchema := tdKeySchema desc, ctAttributeDefinitions := tdAttributeDefinitions desc,
          ctBillingMode := mode, ctGlobalSecondaryIndexes := tdGSIs desc,
          ctLocalSecondaryIndexes := map (\<lambda>l. l \<lparr> siThroughput := None \<rparr>) (tdLSIs desc), ctThroughput := tdThroughput desc \<rparr>))"

definition removeOldCopy :: "'w migrateSession \<Rightarrow> 'w migrateClient \<Rightarrow> string \<Rightarrow> 'w \<Rightarrow> (serror, unit) result \<times> 'w" where
  "removeOldCopy session cl target w =
     (case TableExists (tableSession session) target w of
        (Inl e, w1) \<Rightarrow> (Inl (SWrapped ''failed to check if backup table exists'' e), w1)
      | (Inr False, w1) \<Rightarrow> (Inr (), w1)
      | (Inr True, w1) \<Rightarrow>
          (case awsCall ''failed to delete existing backup table'' (scDeleteTable (mcTables cl) target w1) of
             (Inl e, w2) \<Rightarrow> (Inl e, w2)
           | (Inr _, w2) \<Rightarrow> awsCall ''timeout waiting for table deletion'' (scWaitNotExists (mcTables cl) target w2)))"

definition createCopy :: "'w migrateClient \<Rightarrow> string \<Rightarrow> string \<Rightarrow> 'w \<Rightarrow> (serror, unit) result \<times> 'w" where
  "createCopy cl source target w =
     (case awsCall ''failed to describe source table'' (scDescribeTable (mcTables cl) source w) of
        (Inl e, w1) \<Rightarrow> (Inl e, w1)
      | (Inr desc, w1) \<Rightarrow>
          (case copyCreateInput target desc of
             Inl e \<Rightarrow> (Inl e, w1)
           | Inr i \<Rightarrow>
               (case awsCall ''failed to create target table'' (scCreateTable (mcTables cl) i w1) of
                  (Inl e, w2) \<Rightarrow> (Inl e, w2)
                | (Inr _, w2) \<Rightarrow> awsCall ''timeout waiting for table creation'' (scWaitExists (mcTables cl) target w2))))"

definition copyTable :: "'w migrateSession \<Rightarrow> string \<Rightarrow> string \<Rightarrow> 'w \<Rightarrow> ((serror, unit) result \<times> 'w) option" where
  "copyTable session source target w =
     (case session of
        Inl e \<Rightarrow> Some (Inl (SWrapped ''failed to get client for table description'' e), w)
      | Inr cl \<Rightarrow>
          (case removeOldCopy session cl target w of
             (Inl e, w1) \<Rightarrow> Some (Inl e, w1)
           | (Inr _, w1) \<Rightarrow>
               (case createCopy cl source target w1 of
                  (Inl e, w2) \<Rightarrow> Some (Inl e, w2)
                | (Inr _, w2) \<Rightarrow> copyTableData session source target 25 w2)))"

definition createBackup :: "'w migrateSession \<Rightarrow> string \<Rightarrow> string \<Rightarrow> 'w \<Rightarrow> ((serror, unit) result \<times> 'w) option" where
  "createBackup session source backupName w =
     (case TableExists (tableSession session) source w of
        (Inl e, w1) \<Rightarrow> Some (Inl e, w1)
      | (Inr False, w1) \<Rightarrow> Some (Inl (SchemaError (''source table '' @ source @ '' does not exist'')), w1)
      | (Inr True, w1) \<Rightarrow>
          (case session of
             Inl e \<Rightarrow> Some (Inl (SWrapped ''failed to get client for backup creation'' e), w1)
           | Inr cl \<Rightarrow>
               (case mcCreateBackup cl source backupName w1 of
                  (Inl _, w2) \<Rightarrow> copyTable session source backupName w2
                | (Inr _, w2) \<Rightarrow> Some (Inr (), w2))))"

section \<open>Migrations\<close>

record AutoMigrateOptions =
  amTargetModel :: "goany option"
  amTransform :: "transformArg option"
  amBackupTable :: string
  amBatchSize :: int
  amDataCopy :: bool

datatype AutoMigrateOption =
    WithBackupTable string
  | WithDataCopy bool
  | WithTargetModel "goany option"
  | WithTransform "transformArg option"
  | WithBatchSize int

fun applyMigrateOption :: "AutoMigrateOption \<Rightarrow> AutoMigrateOptions \<Rightarrow> AutoMigrateOptions" where
  "applyMigrateOption (WithBackupTable n) o' = o' \<lparr> amBackupTable := n \<rparr>"
| "applyMigrateOption (WithDataCopy b) o' = o' \<lparr> amDataCopy := b \<rparr>"
| "applyMigrateOption (WithTargetModel m) o' = o' \<lparr> amTargetModel := m \<rparr>"
| "applyMigrateOption (WithTransform t) o' = o' \<lparr> amTransform := t \<rparr>"
| "applyMigrateOption (WithBatchSize n) o' = o' \<lparr> amBatchSize := n \<rparr>"

definition newAutoMigrateOptions :: "AutoMigrateOption list \<Rightarrow> AutoMigrateOptions" where
  "newAutoMigrateOptions options =
     fold applyMigrateOption options \<lparr> amTargetModel = None, amTransform = None, amBackupTable = [], amBatchSize = 25, amDataCopy = False \<rparr>"

definition registerAs :: "string \<Rightarrow> (gtype \<Rightarrow> bool \<Rightarrow> string option) \<Rightarrow> goany \<Rightarrow> Registry \<Rightarrow> (serror, Metadata) result \<times> Registry" where
  "registerAs role methods mdl reg =
     (case Register methods mdl reg of
        (Inl e, reg1) \<Rightarrow> (Inl (SWrapped (''failed to register '' @ role @ '' model'') (SRegistry e)), reg1)
      | (Inr _, reg1) \<Rightarrow> (mapErr (\<lambda>e. SWrapped (''failed to get '' @ role @ '' metadata'') (SRegistry e)) (GetMetadata mdl reg1), reg1))"

definition resolveAutoMigrateModels ::
  "(gtype \<Rightarrow> bool \<Rightarrow> string option) \<Rightarrow> goany \<Rightarrow> goany option \<Rightarrow> Registry \<Rightarrow> (serror, Metadata \<times> goany \<times> Metadata) result \<times> Registry" where
  "resolveAutoMigrateModels methods sourceModel targetOverride reg =
     (case registerAs ''source'' methods sourceModel reg of
        (Inl e, reg1) \<Rightarrow> (Inl e, reg1)
      | (Inr sourceMd, reg1) \<Rightarrow>
          (case targetOverride of
             None \<Rightarrow> (Inr (sourceMd, sourceModel, sourceMd), reg1)
           | Some target \<Rightarrow>
               (case registerAs ''target'' methods target reg1 of
                  (Inl e, reg2) \<Rightarrow> (Inl e, reg2)
                | (Inr targetMd, reg2) \<Rightarrow> (Inr (sourceMd, target, targetMd), reg2))))"

definition createBackupIfRequested :: "'w migrateSession \<Rightarrow> string \<Rightarrow> string \<Rightarrow> 'w \<Rightarrow> ((serror, unit) result \<times> 'w) option" where
  "createBackupIfRequested session source backupTable w =
     (if backupTable = [] then Some (Inr (), w)
      else map_option (\<lambda>(r, w'). (mapErr (SWrapped ''failed to create backup'') r, w')) (createBackup session source backupTable w))"

definition ensureTargetTable :: "'w migrateSession \<Rightarrow> Registry \<Rightarrow> goany \<Rightarrow> string \<Rightarrow> 'w \<Rightarrow> (serror, unit) result \<times> 'w" where
  "ensureTargetTable session reg target tableName w =
     (case TableExists (tableSession session) tableName w of
        (Inl e, w1) \<Rightarrow> (Inl (SWrapped ''failed to check target table existence'' e), w1)
      | (Inr True, w1) \<Rightarrow> (Inr (), w1)
      | (Inr False, w1) \<Rightarrow>
          (case CreateTable (tableSession session) reg target [] w1 of (r, w2) \<Rightarrow> (mapErr (SWrapped ''failed to create target table'') r, w2)))"

definition copyDataIfRequested ::
  "marshalEnv \<Rightarrow> pkgConverter \<Rightarrow> (item \<Rightarrow> string) \<Rightarrow> 'w migrateSession \<Rightarrow> AutoMigrateOptions \<Rightarrow> Metadata \<Rightarrow> Metadata \<Rightarrow> 'w
     \<Rightarrow> ((serror, unit) result \<times> 'w) option" where
  "copyDataIfRequested env c now session opts sourceMd targetMd w =
     (if \<not> amDataCopy opts \<or> TableName sourceMd = TableName targetMd then Some (Inr (), w)
      else case CreateModelTransform env c now (amTransform opts) sourceMd targetMd of
        Inl e \<Rightarrow> Some (Inl (SWrapped ''invalid transform function'' e), w)
      | Inr transform \<Rightarrow>
          map_option (\<lambda>(r, w'). (mapErr (SWrapped ''failed to copy data'') r, w')) (copyData session (amBatchSize opts) sourceMd targetMd transform w))"

definition AutoMigrateWithOptions ::
  "marshalEnv \<Rightarrow> pkgConverter \<Rightarrow> (item \<Rightarrow> string) \<Rightarrow> (gtype \<Rightarrow> bool \<Rightarrow> string option) \<Rightarrow> 'w migrateSession \<Rightarrow> goany \<Rightarrow> AutoMigrateOption list
     \<Rightarrow> Registry \<Rightarrow> 'w \<Rightarrow> ((serror, unit) result \<times> Registry \<times> 'w) option" where
  "AutoMigrateWithOptions env c now methods session sourceModel options reg w =
     (let opts = newAutoMigrateOptions options in
      case resolveAutoMigrateModels methods sourceModel (amTargetModel opts) reg of
        (Inl e, reg1) \<Rightarrow> Some (Inl e, reg1, w)
      | (Inr (sourceMd, target, targetMd), reg1) \<Rightarrow>
          (case createBackupIfRequested session (TableName sourceMd) (amBackupTable opts) w of
             None \<Rightarrow> None
           | Some (Inl e, w1) \<Rightarrow> Some (Inl e, reg1, w1)
           | Some (Inr _, w1) \<Rightarrow>
               (case ensureTargetTable session reg1 target (TableName targetMd) w1 of
                  (Inl e, w2) \<Rightarrow> Some (Inl e, reg1, w2)
                | (Inr _, w2) \<Rightarrow>
                    (case copyDataIfRequested env c now session opts sourceMd targetMd w2 of
                       None \<Rightarrow> None
                     | Some (r, w3) \<Rightarrow> Some (r, reg1, w3)))))"

section \<open>Every item arrives once\<close>

text \<open>What the client is documented to do: a batch write applies what it does not report as unprocessed, a put its item, a scan reads the pages of
  the source, which does not change meanwhile; after an error a part of a request may have been applied.\<close>

definition writeLaw :: "'w migrateClient \<Rightarrow> string \<Rightarrow> ('w \<Rightarrow> WriteRequest multiset) \<Rightarrow> bool" where
  "writeLaw cl tn applied =
     ((\<forall>reqs w. case mcBatchWrite cl tn reqs w of
         (Inr unp, w') \<Rightarrow> applied w' + mset (unprocessedRequestsForTable unp tn) = applied w + mset reqs \<and> applied w \<subseteq># applied w'
       | (Inl _, w') \<Rightarrow> partialWrite applied reqs w w')
      \<and> (\<forall>itm w. case mcPutItem cl tn itm w of
         (Inr _, w') \<Rightarrow> applied w' = applied w + {#PutRequest itm#}
       | (Inl _, w') \<Rightarrow> partialWrite applied [PutRequest itm] w w')
      \<and> (\<forall>n w. applied (snd (mcSleep cl n w)) = applied w))"

definition scanLaw :: "'w migrateClient \<Rightarrow> string \<Rightarrow> int \<Rightarrow> (item option \<Rightarrow> item list \<times> item option) \<Rightarrow> ('w \<Rightarrow> WriteRequest multiset) \<Rightarrow> bool" where
  "scanLaw cl source pageSize pageOf applied =
     (\<forall>start w. case mcScan cl source pageSize start w of (r, w') \<Rightarrow> applied w' = applied w \<and> (\<forall>page. r = Inr page \<longrightarrow> page = pageOf start))"

text \<open>The items of the pages from a key on, when at most \<open>n\<close> pages follow.\<close>

fun pagesItems :: "nat \<Rightarrow> (item option \<Rightarrow> item list \<times> item option) \<Rightarrow> item option \<Rightarrow> item list option" where
  "pagesItems 0 pageOf start = None"
| "pagesItems (Suc n) pageOf start =
     (case pageOf start of
        (items, None) \<Rightarrow> Some items
      | (items, Some k) \<Rightarrow> (case pagesItems n pageOf (Some k) of None \<Rightarrow> None | Some rest \<Rightarrow> Some (items @ rest)))"

text \<open>Of the requests, \<open>allDone\<close> says that all were applied; otherwise only some of them, each at most once.\<close>

definition wrote :: "('w \<Rightarrow> WriteRequest multiset) \<Rightarrow> WriteRequest list \<Rightarrow> bool \<Rightarrow> 'w \<Rightarrow> 'w \<Rightarrow> bool" where
  "wrote applied reqs allDone w w' = (partialWrite applied reqs w w' \<and> (allDone \<longrightarrow> applied w' = applied w + mset reqs))"

lemma wrote_nothing: "applied w' = applied w \<Longrightarrow> wrote applied [] b w w'"
  by (simp add: wrote_def partialWrite_def)

lemma wrote_append:
  assumes "applied w1 = applied w + mset a" "wrote applied b d w1 w'"
  shows "wrote applied (a @ b) d w w'"
  using partialWrite_step[of applied, OF assms(1)] assms unfolding wrote_def by (auto simp: ac_simps)

lemma partialWrite_part: "partialWrite applied a w w' \<Longrightarrow> mset a \<subseteq># mset b \<Longrightarrow> partialWrite applied b w w'"
  unfolding partialWrite_def by (meson subset_mset.add_left_mono subset_mset.order_trans)

lemma batchWriteAttempts_left:
  assumes "writeLaw cl tn applied" "batchWriteAttempts cl tn n a reqs w = (r, w')"
  shows "partialWrite applied reqs w w' \<and> (\<forall>rest. r = Inr rest \<longrightarrow> applied w' + mset rest = applied w + mset reqs)"
  using assms(2)
proof (induction n arbitrary: a reqs w)
  case 0
  then show ?case by (auto simp: partialWrite_def)
next
  case (Suc n)
  obtain q w1 where q: "mcBatchWrite cl tn reqs w = (q, w1)" by (cases "mcBatchWrite cl tn reqs w")
  have law: "case (q, w1) of
         (Inr unp, w') \<Rightarrow> applied w' + mset (unprocessedRequestsForTable unp tn) = applied w + mset reqs \<and> applied w \<subseteq># applied w'
       | (Inl _, w') \<Rightarrow> partialWrite applied reqs w w'" using assms(1) unfolding writeLaw_def q[symmetric] by simp
  show ?case
  proof (cases q)
    case (Inl e)
    then show ?thesis using Suc.prems q law by auto
  next
    case (Inr unp)
    let ?rest = "unprocessedRequestsForTable unp tn"
    have law: "applied w1 + mset ?rest = applied w + mset reqs" "applied w \<subseteq># applied w1" using law Inr by auto
    have part: "partialWrite applied reqs w w1" using law unfolding partialWrite_def by (metis mset_subset_eq_add_left)
    obtain s w2 where s: "mcSleep cl (migrateBackoff a) w1 = (s, w2)" by (cases "mcSleep cl (migrateBackoff a) w1")
    have same: "applied w2 = applied w1" using assms(1) s unfolding writeLaw_def by (metis snd_conv)
    show ?thesis
    proof (cases "?rest = [] \<or> n = 0 \<or> (\<exists>e. s = Inl e)")
      case True
      have "partialWrite applied reqs w w2" using part same by (simp add: partialWrite_def)
      then show ?thesis using True Suc.prems q Inr law part s same by (auto simp: Let_def split: if_splits)
    next
      case False
      then have rec: "batchWriteAttempts cl tn n (a + 1) ?rest w2 = (r, w')" using Suc.prems q Inr s by (auto simp: Let_def split: sum.splits)
      have IH: "partialWrite applied ?rest w2 w' \<and> (\<forall>rest. r = Inr rest \<longrightarrow> applied w' + mset rest = applied w2 + mset ?rest)" by (rule Suc.IH[OF rec])
      then have "partialWrite applied reqs w w'" using law same unfolding partialWrite_def by (metis subset_mset.order_trans)
      then show ?thesis using IH same law by simp
    qed
  qed
qed

lemma putIndividually_all:
  assumes "writeLaw cl tn applied" "putWriteRequestsIndividually cl tn (map PutRequest itms) w = (r, w')"
  shows "wrote applied (map PutRequest itms) (r = Inr ()) w w'"
  using assms(2)
proof (induction itms arbitrary: w)
  case Nil
  then show ?case by (simp add: wrote_nothing)
next
  case (Cons itm itms)
  obtain q w1 where q: "mcPutItem cl tn itm w = (q, w1)" by (cases "mcPutItem cl tn itm w")
  have law: "case mcPutItem cl tn itm w of (Inr _, w') \<Rightarrow> applied w' = applied w + {#PutRequest itm#}
       | (Inl _, w') \<Rightarrow> partialWrite applied [PutRequest itm] w w'" using assms(1) by (simp add: writeLaw_def)
  show ?case
  proof (cases q)
    case (Inl e)
    then have "partialWrite applied [PutRequest itm] w w1" "r \<noteq> Inr ()" "w' = w1" using law q Cons.prems by auto
    then show ?thesis using partialWrite_part[of applied "[PutRequest itm]" w w1 "map PutRequest (itm # itms)"] by (simp add: wrote_def)
  next
    case (Inr u)
    then have "applied w1 = applied w + mset [PutRequest itm]" "putWriteRequestsIndividually cl tn (map PutRequest itms) w1 = (r, w')"
      using law q Cons.prems by auto
    from wrote_append[OF this(1) Cons.IH[OF this(2)]] show ?thesis by simp
  qed
qed

text \<open>What is left of puts are puts.\<close>

lemma left_puts: "mset rest \<subseteq># mset (map PutRequest itms) \<Longrightarrow> \<exists>js. rest = map PutRequest js"
proof -
  assume "mset rest \<subseteq># mset (map PutRequest itms)"
  then have "set rest \<subseteq> range PutRequest" using set_mset_mono by fastforce
  then show ?thesis by (metis ex_map_conv image_iff subset_iff)
qed

lemma batch_all:
  assumes "writeLaw cl tn applied" "batchWriteWithRetries cl tn (map PutRequest itms) maxRetries w = (Inr rest, w1)"
    and "(if rest = [] then (Inr (), w1) else putWriteRequestsIndividually cl tn rest w1) = (r, w')"
  shows "wrote applied (map PutRequest itms) (r = Inr ()) w w'"
proof -
  have first: "partialWrite applied (map PutRequest itms) w w1" "applied w1 + mset rest = applied w + mset (map PutRequest itms)"
    using assms(1,2) batchWriteAttempts_left[OF assms(1), of "nat maxRetries" 1 "map PutRequest itms" w "Inr rest" w1]
    by (auto simp: batchWriteWithRetries_def partialWrite_def split: if_splits)
  have "mset rest \<subseteq># mset (map PutRequest itms)"
    using first unfolding partialWrite_def by (metis mset_subset_eq_mono_add_left_cancel subset_mset.add_right_mono)
  then obtain js where js: "rest = map PutRequest js" using left_puts by blast
  have "wrote applied rest (r = Inr ()) w1 w'" using assms(3) putIndividually_all[OF assms(1), of js w1 r w'] js by (auto simp: wrote_nothing split: if_splits)
  then show ?thesis using first unfolding wrote_def partialWrite_def by (metis subset_mset.order_trans)
qed

lemma writeBatches_all:
  assumes "writeLaw cl tn applied" "writeBatches cl tn maxRetries (map (map PutRequest) bs) w = (r, w')"
  shows "wrote applied (map PutRequest (concat bs)) (r = Inr ()) w w'"
  using assms(2)
proof (induction bs arbitrary: w)
  case Nil
  then show ?case by (simp add: wrote_nothing)
next
  case (Cons b bs)
  obtain q w1 where q: "batchWriteWithRetries cl tn (map PutRequest b) maxRetries w = (q, w1)" by (cases "batchWriteWithRetries cl tn (map PutRequest b) maxRetries w")
  show ?case
  proof (cases q)
    case (Inl e)
    have "partialWrite applied (map PutRequest b) w w1"
      using q Inl batchWriteAttempts_left[OF assms(1), of "nat maxRetries" 1 "map PutRequest b" w q w1] by (auto simp: batchWriteWithRetries_def split: if_splits)
    then show ?thesis using Cons.prems q Inl partialWrite_part[of applied "map PutRequest b" w w1 "map PutRequest (concat (b # bs))"]
      by (auto simp: wrote_def)
  next
    case (Inr rest)
    obtain p w2 where p: "(if rest = [] then (Inr (), w1) else putWriteRequestsIndividually cl tn rest w1) = (p, w2)" by fastforce
    have one: "wrote applied (map PutRequest b) (p = Inr ()) w w2" using batch_all[OF assms(1) _ p] q Inr by simp
    show ?thesis
    proof (cases p)
      case e: (Inl e)
      then show ?thesis using Cons.prems q Inr p one partialWrite_part[of applied "map PutRequest b" w w2 "map PutRequest (concat (b # bs))"]
        by (auto simp: wrote_def)
    next
      case ok: (Inr u)
      then have "writeBatches cl tn maxRetries (map (map PutRequest) bs) w2 = (r, w')" using Cons.prems q Inr p by simp
      from wrote_append[OF _ Cons.IH[OF this], of w "map PutRequest b"] show ?thesis using one ok by (simp add: wrote_def)
    qed
  qed
qed

lemma concat_eq_map: "concat bs = map f xs \<Longrightarrow> \<exists>cs. bs = map (map f) cs \<and> concat cs = xs"
proof (induction bs arbitrary: xs)
  case (Cons b bs)
  then obtain us vs where "xs = us @ vs" "b = map f us" "concat bs = map f vs" by (auto simp: append_eq_map_conv)
  moreover then obtain cs where "bs = map (map f) cs" "concat cs = vs" using Cons.IH by blast
  ultimately show ?case by (intro exI[of _ "us # cs"]) simp
qed simp

lemma writeRequestsBatched_all:
  assumes "writeLaw cl tn applied" "writeRequestsBatched cl tn (map PutRequest itms) maxBatchSize maxRetries w = (r, w')"
  shows "wrote applied (map PutRequest itms) (r = Inr ()) w w'"
proof (cases "itms = []")
  case True
  then show ?thesis using assms(2) by (simp add: writeRequestsBatched_def wrote_nothing)
next
  case False
  let ?n = "if maxBatchSize \<le> 0 then length itms else nat maxBatchSize"
  have "concat (windows ?n (map PutRequest itms)) = map PutRequest itms" using False by (intro windows_concat) auto
  then obtain cs where cs: "windows ?n (map PutRequest itms) = map (map PutRequest) cs" "concat cs = itms" using concat_eq_map by blast
  have "writeBatches cl tn maxRetries (map (map PutRequest) cs) w = (r, w')"
    using assms(2) False unfolding writeRequestsBatched_def length_map cs(1)[symmetric] by simp
  from writeBatches_all[OF assms(1) this] show ?thesis using cs(2) by simp
qed

text \<open>A page: its items, transformed in order, are written; on an error nothing else is.\<close>

definition copied ::
  "('w \<Rightarrow> WriteRequest multiset) \<Rightarrow> TransformFunc \<Rightarrow> item list \<Rightarrow> bool \<Rightarrow> 'w \<Rightarrow> 'w \<Rightarrow> bool" where
  "copied applied tr items allDone w w' =
     (\<exists>given outs. prefix given items \<and> mapE tr given = Inr outs \<and> wrote applied (map PutRequest outs) allDone w w' \<and> (allDone \<longrightarrow> given = items))"

lemma requests_of_outputs:
  "buildPutWriteRequestsWithTransform items transform md = Inr reqs
   \<Longrightarrow> \<exists>outs. mapE (TransformWithValidation transform md) items = Inr outs \<and> reqs = map PutRequest outs"
proof (cases transform)
  case None
  assume "buildPutWriteRequestsWithTransform items transform md = Inr reqs"
  then show ?thesis using None mapE_total[of items "TransformWithValidation None md" "\<lambda>x. x"]
    by (simp add: buildPutWriteRequestsWithTransform_def buildPutWriteRequests_def TransformWithValidation_def)
next
  case (Some tr)
  assume "buildPutWriteRequestsWithTransform items transform md = Inr reqs"
  then have "mapE (\<lambda>itm. bindE (mapErr (SWrapped ''failed to transform item'') (TransformWithValidation transform md itm)) (\<lambda>out. Inr (PutRequest out))) items = Inr reqs"
    using Some by (simp add: buildPutWriteRequestsWithTransform_def)
  then show ?thesis
  proof (induction items arbitrary: reqs)
    case (Cons itm items)
    then show ?case by (cases "TransformWithValidation transform md itm") (auto split: sum.splits)
  qed simp
qed

lemma processItems_copied:
  assumes "writeLaw cl tn applied" "processItems cl tn transform md items w = (r, w')"
  shows "copied applied (TransformWithValidation transform md) items (r = Inr ()) w w'"
proof (cases "buildPutWriteRequestsWithTransform items transform md")
  case (Inl e)
  then show ?thesis using assms(2) by (auto simp: copied_def processItems_def wrote_nothing intro: exI[of _ "[]"])
next
  case (Inr reqs)
  then obtain outs where "mapE (TransformWithValidation transform md) items = Inr outs" "reqs = map PutRequest outs" using requests_of_outputs by blast
  then show ?thesis using writeRequestsBatched_all[OF assms(1)] assms(2) Inr by (auto simp: copied_def processItems_def)
qed

lemma copied_append:
  assumes "copied applied tr a True w w1" "copied applied tr b allDone w1 w'"
  shows "copied applied tr (a @ b) allDone w w'"
proof -
  obtain outs where a: "mapE tr a = Inr outs" "applied w1 = applied w + mset (map PutRequest outs)" using assms(1) by (auto simp: copied_def wrote_def)
  obtain given outs' where b: "prefix given b" "mapE tr given = Inr outs'" "wrote applied (map PutRequest outs') allDone w1 w'" "allDone \<longrightarrow> given = b"
    using assms(2) by (auto simp: copied_def)
  have "mapE tr (a @ given) = Inr (outs @ outs')" using a(1) b(2) unfolding mapE_Inr by (rule list_all2_appendI)
  then show ?thesis using b wrote_append[OF a(2) b(3)] unfolding copied_def
    by (intro exI[of _ "a @ given"] exI[of _ "outs @ outs'"]) simp
qed

lemma copied_prefix: "copied applied tr a False w w' \<Longrightarrow> copied applied tr (a @ b) False w w'"
  by (auto simp: copied_def intro: prefix_prefix)

lemma copied_partly: "copied applied tr a d w w' \<Longrightarrow> copied applied tr a False w w'"
  by (auto simp: copied_def wrote_def)

lemma copied_nothing: "applied w' = applied w \<Longrightarrow> copied applied tr [] d w w'"
  by (simp add: copied_def wrote_nothing)

lemma copied_shift: "applied w1 = applied w \<Longrightarrow> copied applied tr a d w1 w' \<Longrightarrow> copied applied tr a d w w'"
  by (auto simp: copied_def wrote_def partialWrite_def)

lemma copyPages_all:
  assumes "scanLaw cl source pageSize pageOf applied" "pagesItems n pageOf start = Some items"
    and "\<And>items w r w'. process items w = (r, w') \<Longrightarrow> copied applied tr items (r = Inr ()) w w'"
  shows "\<exists>r w'. copyPages cl source pageSize process start w = Some (r, w') \<and> copied applied tr items (r = Inr ()) w w'"
  using assms(2)
proof (induction n arbitrary: start items w)
  case (Suc n)
  obtain q w1 where q: "mcScan cl source pageSize start w = (q, w1)" by (cases "mcScan cl source pageSize start w")
  have same: "applied w1 = applied w" and page: "\<And>p. q = Inr p \<Longrightarrow> p = pageOf start"
    using assms(1) q unfolding scanLaw_def by (metis (mono_tags, lifting) case_prod_conv)+
  show ?case
  proof (cases q)
    case (Inl e)
    then show ?thesis using q copied_prefix[OF copied_nothing[of applied w1 w, OF same], of tr items] by (simp add: copyPages.simps)
  next
    case (Inr p)
    obtain its nxt where p: "p = (its, nxt)" by (cases p)
    have pg: "pageOf start = (its, nxt)" and scan: "mcScan cl source pageSize start w = (Inr (its, nxt), w1)" using page[OF Inr] p q Inr by simp_all
    obtain s w2 where s: "process its w1 = (s, w2)" by (cases "process its w1")
    note step = copied_shift[of applied w1 w, OF same assms(3)[OF s]]
    show ?thesis
    proof (cases nxt)
      case None
      then show ?thesis using Suc.prems pg scan s step by (subst copyPages.simps) (auto split: sum.splits)
    next
      case (Some k)
      then obtain rest where rest: "pagesItems n pageOf (Some k) = Some rest" "items = its @ rest"
        using Suc.prems pg by (auto split: option.splits)
      show ?thesis
      proof (cases s)
        case e: (Inl e)
        then show ?thesis using rest scan s copied_prefix[of applied tr its w w2 rest] step by (subst copyPages.simps) auto
      next
        case ok: (Inr u)
        obtain r w' where run: "copyPages cl source pageSize process (Some k) w2 = Some (r, w')" "copied applied tr rest (r = Inr ()) w2 w'"
          using Suc.IH[OF rest(1)] by blast
        then show ?thesis using rest scan s ok Some copied_append[OF _ run(2)] step by (subst copyPages.simps) auto
      qed
    qed
  qed
qed simp

text \<open>C36. When the pages of the source come to an end, copying returns; each item of the source, transformed, is written to the target exactly once
  if it succeeds, through any number of unprocessed requests and the fallback to single puts, and after an error nothing is written but the
  transformed items of a leading part of the source, each at most once.\<close>

theorem copyData_copies_all:
  assumes "writeLaw cl (TableName targetMd) applied" "scanLaw cl (TableName sourceMd) (ClampIntToInt32 batchSize) pageOf applied"
    and "pagesItems n pageOf None = Some items"
  shows "\<exists>r w' given outs. copyData (Inr cl) batchSize sourceMd targetMd transform w = Some (r, w')
     \<and> prefix given items \<and> mapE (TransformWithValidation transform targetMd) given = Inr outs \<and> partialWrite applied (map PutRequest outs) w w'
     \<and> (r = Inr () \<longrightarrow> given = items \<and> applied w' = applied w + mset (map PutRequest outs))"
proof -
  let ?process = "\<lambda>items w. if items = [] then (Inr (), w)
      else case processItems cl (TableName targetMd) transform targetMd items w of (r, w') \<Rightarrow> (mapErr (SWrapped ''failed to process items'') r, w')"
  have "copied applied (TransformWithValidation transform targetMd) its (r = Inr ()) v v'" if "?process its v = (r, v')" for its v r v'
  proof (cases "its = []")
    case True
    then show ?thesis using that by (auto intro: copied_nothing)
  next
    case False
    obtain q u where q: "processItems cl (TableName targetMd) transform targetMd its v = (q, u)"
      by (cases "processItems cl (TableName targetMd) transform targetMd its v")
    then show ?thesis using that False processItems_copied[OF assms(1) q] by (cases q) auto
  qed
  from copyPages_all[OF assms(2,3) this, where w = w] show ?thesis by (fastforce simp: copyData_def copied_def wrote_def)
qed

text \<open>The same for the copy that stands in for a backup.\<close>

theorem copyTableData_copies_all:
  assumes "writeLaw cl target applied" "scanLaw cl source (ClampIntToInt32 batchSize) pageOf applied" "pagesItems n pageOf None = Some items"
  shows "\<exists>r w'. copyTableData (Inr cl) source target batchSize w = Some (r, w')
     \<and> copied applied (TransformWithValidation None md) items (r = Inr ()) w w'"
proof -
  have "copied applied (TransformWithValidation None md) its (r = Inr ()) v v'"
    if "writeItemsToTable cl target (resolveDataCopyBatchSize batchSize) its v = (r, v')" for its v r v'
  proof -
    have "mapE (TransformWithValidation None md) its = Inr its" using mapE_total[of its "TransformWithValidation None md" "\<lambda>x. x"] by (simp add: TransformWithValidation_def)
    then show ?thesis using that writeRequestsBatched_all[OF assms(1), of its]
      by (auto simp: writeItemsToTable_def buildPutWriteRequests_def copied_def wrote_nothing split: if_splits)
  qed
  from copyPages_all[OF assms(2,3) this, where w = w] show ?thesis by (simp add: copyTableData_def)
qed

text \<open>A source with two pages, and a target that leaves some requests unprocessed.\<close>

definition demoNote :: "string \<Rightarrow> item" where
  "demoNote i = [(''id'', AVS i)]"

definition demoPages :: "item option \<Rightarrow> item list \<times> item option" where
  "demoPages start = (if start = None then ([demoNote ''a'', demoNote ''b''], Some (demoNote ''b'')) else ([demoNote ''c''], None))"

definition demoMigrateClient :: "(WriteRequest multiset \<times> nat list) migrateClient" where
  "demoMigrateClient =
     \<lparr> mcTables = \<lparr> scDescribeTable = (\<lambda>t w. (Inl ResourceNotFound, w)), scCreateTable = (\<lambda>i w. (Inr (), w)), scUpdateTable = (\<lambda>i w. (Inr (), w)),
         scDeleteTable = (\<lambda>t w. (Inr (), w)), scWaitExists = (\<lambda>t w. (Inr (), w)), scWaitNotExists = (\<lambda>t w. (Inr (), w)) \<rparr>,
       mcScan = (\<lambda>t l start w. (Inr (demoPages start), w)),
       mcBatchWrite = (\<lambda>t reqs w. case throttledTable t reqs w of (r, w') \<Rightarrow> (mapErr OtherAws r, w')),
       mcPutItem = (\<lambda>t itm w. (Inr (), (fst w + {#PutRequest itm#}, snd w))),
       mcCreateBackup = (\<lambda>a b w. (Inr (), w)), mcSleep = (\<lambda>n w. (Inr (), w)) \<rparr>"

lemma demoMigrate_laws: "writeLaw demoMigrateClient tn fst" "scanLaw demoMigrateClient src l demoPages fst"
proof -
  have "mset (take n reqs) + mset (drop n reqs) = mset reqs" for n :: nat and reqs :: "WriteRequest list"
    by (metis append_take_drop_id mset_append)
  then show "writeLaw demoMigrateClient tn fst"
    by (auto simp: writeLaw_def demoMigrateClient_def throttledTable_def unprocessedRequestsForTable_def ac_simps split: list.splits)
qed (auto simp: scanLaw_def demoMigrateClient_def)

theorem copyData_copies_all_witness:
  "\<exists>r w' given outs. copyData (Inr demoMigrateClient) 25 (newMetadata TTime ''old'' CamelCase) (newMetadata TTime ''new'' CamelCase) None ({#}, [1, 0]) = Some (r, w')
     \<and> prefix given [demoNote ''a'', demoNote ''b'', demoNote ''c''] \<and> mapE (TransformWithValidation None (newMetadata TTime ''new'' CamelCase)) given = Inr outs
     \<and> partialWrite fst (map PutRequest outs) ({#}, [1, 0]) w'
     \<and> (r = Inr () \<longrightarrow> given = [demoNote ''a'', demoNote ''b'', demoNote ''c''] \<and> fst w' = {#} + mset (map PutRequest outs))"
proof -
  have "pagesItems 2 demoPages None = Some [demoNote ''a'', demoNote ''b'', demoNote ''c'']" by (simp add: demoPages_def numeral_2_eq_2)
  from copyData_copies_all[OF demoMigrate_laws this, where batchSize = 25 and transform = None and w = "({#}, [1, 0])"
      and sourceMd = "newMetadata TTime ''old'' CamelCase" and targetMd = "newMetadata TTime ''new'' CamelCase"]
  show ?thesis by simp
qed

section \<open>Transforms of the package\<close>

lemma map_add_new: "k \<notin> fst ` set xs \<Longrightarrow> [k \<mapsto> v] ++ map_of xs = (map_of xs)(k \<mapsto> v)"
  by (auto simp: fun_eq_iff map_add_def simp flip: map_of_eq_None_iff split: option.splits)

text \<open>Renaming to a new name moves the value and keeps the rest; removing forgets one name.\<close>

theorem RenameField_map:
  assumes "RenameField old new source = Inr out" "distinct (map fst source)" "new \<notin> fst ` set source"
  shows "map_of out = (\<lambda>k. if k = new then map_of source old else if k = old then None else map_of source k)"
proof -
  have "map_of (fold (\<lambda>(k, v). AList.update (if k = old then new else k) v) source []) =
      (\<lambda>k. if k = new then map_of source old else if k = old then None else map_of source k)"
    using assms(2,3)
  proof (induction source rule: rev_induct)
    case (snoc e source)
    obtain k v where e: "e = (k, v)" by (cases e)
    then have "k \<notin> fst ` set source" "k \<noteq> new" using snoc.prems by auto
    then show ?case using snoc e by (auto simp: map_add_new fun_eq_iff)
  qed (simp add: fun_eq_iff)
  then show ?thesis using assms(1) by (simp add: RenameField_def)
qed

theorem RemoveField_map:
  assumes "RemoveField f source = Inr out" "distinct (map fst source)"
  shows "map_of out = (map_of source)(f := None)"
proof -
  have "map_of (fold (\<lambda>(k, v) out. if k \<noteq> f then AList.update k v out else out) source []) = (map_of source)(f := None)"
    using assms(2)
  proof (induction source rule: rev_induct)
    case (snoc e source)
    obtain k v where e: "e = (k, v)" by (cases e)
    then have "k \<notin> fst ` set source" using snoc.prems by auto
    then show ?case using snoc e by (auto simp: map_add_new fun_eq_iff)
  qed (simp add: fun_eq_iff)
  then show ?thesis using assms(1) by (simp add: RemoveField_def)
qed

section \<open>Corners\<close>

text \<open>When the service refuses a backup whose name is that of the table itself, the table is deleted to make room for its copy.\<close>

theorem backup_deletes_source:
  assumes "scDescribeTable (mcTables cl) src w = (Inr d, w1)" "mcCreateBackup cl src src w1 = (Inl e, w2)"
    and "scDescribeTable (mcTables cl) src w2 = (Inr d', w3)" "scDeleteTable (mcTables cl) src w3 = (Inr (), w4)"
    and "scWaitNotExists (mcTables cl) src w4 = (Inr (), w5)" "scDescribeTable (mcTables cl) src w5 = (Inl ResourceNotFound, w6)"
  shows "createBackup (Inr cl) src src w = Some (Inl (SWrapped ''failed to describe source table'' (SAws ResourceNotFound)), w6)"
  using assms by (simp add: createBackup_def TableExists_def tableSession_def withClient_def copyTable_def removeOldCopy_def createCopy_def awsCall_def)

text \<open>A table that was always provisioned has no billing summary, and its copy panics after an older copy was deleted.\<close>

theorem copy_panics_without_billing:
  assumes "removeOldCopy (Inr cl) cl target w = (Inr (), w1)" "scDescribeTable (mcTables cl) source w1 = (Inr desc, w2)" "tdBillingMode desc = None"
  shows "copyTable (Inr cl) source target w = Some (Inl SPanic, w2)"
  using assms by (simp add: copyTable_def createCopy_def copyCreateInput_def awsCall_def)

text \<open>A transform that takes a pointer to the model is accepted and panics on the first item.\<close>

theorem pointer_transform_panics:
  assumes "kindOf s = KStruct" "kindOf t = KStruct" "buildSourceModel c (TPtr s) itm sourceMd = Inr v"
  shows "\<exists>tr. CreateModelTransform env c now (Some (ModelTransform (TPtr s) t f)) sourceMd targetMd = Inr (Some tr) \<and> tr itm = Inl SPanic"
  using assms by (simp add: CreateModelTransform_def validateModelType_def Let_def kindOf_def[of "TPtr s"] elemOf_def wrapModelTransform_def)

end
