(* ===== verification/Aggregates.thy ===== *)
theory Aggregates
  imports QueryOps
begin

text \<open>
  \<open>pkg/query/aggregates.go\<close>: sums, averages, extremes and grouping, computed over the items a query returns.  The machine's \<open>float64\<close>
  is a parameter, a record of its operations on a type \<open>'f\<close>, as is \<open>sprint\<close>, what \<open>fmt.Sprintf("%v", ...)\<close> prints of a value.  An
  iteration over a Go map is in the order in which its keys were added.  A call of \<open>reflect\<close> that panics ends the operation with
  \<open>QueryPanic\<close>.
\<close>

section \<open>Data\<close>

record 'f float64 =
  fZero :: 'f
  fAdd :: "'f \<Rightarrow> 'f \<Rightarrow> 'f"
  fDiv :: "'f \<Rightarrow> 'f \<Rightarrow> 'f"
  fLess :: "'f \<Rightarrow> 'f \<Rightarrow> bool"
  fLessEq :: "'f \<Rightarrow> 'f \<Rightarrow> bool"
  fEq :: "'f \<Rightarrow> 'f \<Rightarrow> bool"
  fOfInt :: "int \<Rightarrow> 'f"
  fOfText :: "string \<Rightarrow> 'f"

record 'f AggregateResult =
  arMin :: goany
  arMax :: goany
  arCount :: int
  arSum :: 'f
  arAverage :: 'f

record 'f GroupedResult =
  grKey :: goany
  grAggregates :: "(string \<times> 'f AggregateResult) list"
  grItems :: "goany list"
  grCount :: int

record aggregateOp =
  aoFunction :: string
  aoField :: string
  aoAlias :: string

record havingClause =
  hcValue :: goany
  hcAggregate :: string
  hcOperator :: string

record 'f GroupByQuery =
  gbErr :: "qerror option"
  gbGroups :: "(string \<times> 'f GroupedResult) list"
  gbGroupBy :: string
  gbItems :: "goany list"
  gbAggregates :: "aggregateOp list"
  gbHaving :: "havingClause list"

section \<open>Items and their values\<close>

definition getAllItems :: "convenv \<Rightarrow> 'w Executor \<Rightarrow> Query \<Rightarrow> 'w \<Rightarrow> (qerror, goany list) result \<times> 'w" where
  "getAllItems env ex q w =
     (case model q of
        None \<Rightarrow> (Inl QueryPanic, w)
      | Some (t, _) \<Rightarrow>
          (let modelType = (if kindOf t = KPointer then elemOf t else t); sliceType = TSlice modelType in
           case All env ex q (Some (TPtr sliceType, VPtr (Some (zeroOf sliceType)))) w of
             (Inl e, w') \<Rightarrow> (Inl e, w')
           | (Inr vs, w') \<Rightarrow> (Inr (map (toInterface modelType) vs), w')))"

text \<open>\<open>Inr None\<close> is the error of a value that the callers skip.\<close>

definition extractNumericValue :: "'f float64 \<Rightarrow> goany \<Rightarrow> string \<Rightarrow> (qerror, 'f option) result" where
  "extractNumericValue fo item field =
     (case structValue item of
        None \<Rightarrow> Inl QueryPanic
      | Some tv \<Rightarrow>
          (case fieldByName field (fst tv) (snd tv) of
             None \<Rightarrow> Inr None
           | Some (f, v) \<Rightarrow>
               Inr (case v of
                      VInt i \<Rightarrow> Some (fOfInt fo i)
                    | VUint n \<Rightarrow> Some (fOfInt fo (int n))
                    | VFloat x \<Rightarrow> Some (fOfText fo x)
                    | _ \<Rightarrow> None)))"

definition extractFieldValue :: "goany \<Rightarrow> string \<Rightarrow> (qerror, goany) result" where
  "extractFieldValue item field =
     (case structValue item of
        None \<Rightarrow> Inl QueryPanic
      | Some tv \<Rightarrow>
          (case fieldByName field (fst tv) (snd tv) of
             None \<Rightarrow> Inr None
           | Some fv \<Rightarrow> (if goIsZero (snd fv) then Inr None else case fieldInterface fv of None \<Rightarrow> Inl QueryPanic | Some x \<Rightarrow> Inr x)))"

text \<open>The type switch names the predeclared types: values of defined types are not converted.\<close>

definition toFloat64 :: "'f float64 \<Rightarrow> goany \<Rightarrow> 'f option" where
  "toFloat64 fo x =
     (case x of
        Some (TInt s, VInt i) \<Rightarrow> Some (fOfInt fo i)
      | Some (TUint s, VUint n) \<Rightarrow> Some (fOfInt fo (int n))
      | Some (TFloat32, VFloat f) \<Rightarrow> Some (fOfText fo f)
      | Some (TFloat64, VFloat f) \<Rightarrow> Some (fOfText fo f)
      | _ \<Rightarrow> None)"

text \<open>The order of Go strings, byte by byte.\<close>

fun strLess :: "string \<Rightarrow> string \<Rightarrow> bool" where
  "strLess [] [] = False"
| "strLess [] (c # t) = True"
| "strLess (c # s) [] = False"
| "strLess (c # s) (d # t) = (byteOf c < byteOf d \<or> (c = d \<and> strLess s t))"

definition strCompare :: "string \<Rightarrow> string \<Rightarrow> int" where
  "strCompare s t = (if strLess s t then -1 else if strLess t s then 1 else 0)"

definition compareValues :: "'f float64 \<Rightarrow> (goany \<Rightarrow> string) \<Rightarrow> goany \<Rightarrow> goany \<Rightarrow> int" where
  "compareValues fo sprint a b =
     (case (toFloat64 fo a, toFloat64 fo b) of
        (Some x, Some y) \<Rightarrow> (if fLess fo x y then -1 else if fLess fo y x then 1 else 0)
      | _ \<Rightarrow>
          (case (a, b) of
             (Some (TString, VString s), Some (TString, VString t)) \<Rightarrow> strCompare s t
           | _ \<Rightarrow> strCompare (sprint a) (sprint b)))"

section \<open>Aggregates of all items\<close>

definition numStep :: "'f float64 \<Rightarrow> string \<Rightarrow> goany \<Rightarrow> 'f \<times> nat \<Rightarrow> (qerror, 'f \<times> nat) result" where
  "numStep fo field item = (\<lambda>(sum, count).
     bindE (extractNumericValue fo item field) (\<lambda>r. Inr (case r of None \<Rightarrow> (sum, count) | Some x \<Rightarrow> (fAdd fo sum x, count + 1))))"

definition sumAndCountNumeric :: "'f float64 \<Rightarrow> goany list \<Rightarrow> string \<Rightarrow> (qerror, 'f \<times> nat) result" where
  "sumAndCountNumeric fo items field = foldE (numStep fo field) items (fZero fo, 0)"

text \<open>The value so far is nil as long as none was seen.\<close>

definition pickStep :: "'f float64 \<Rightarrow> (goany \<Rightarrow> string) \<Rightarrow> bool \<Rightarrow> goany \<Rightarrow> goany \<Rightarrow> goany" where
  "pickStep fo sprint pickMax val selected =
     (if val = None then selected
      else if selected = None then val
      else let cmp = compareValues fo sprint val selected in
        if (pickMax \<and> cmp > 0) \<or> (\<not> pickMax \<and> cmp < 0) then val else selected)"

definition extremeFieldValue :: "'f float64 \<Rightarrow> (goany \<Rightarrow> string) \<Rightarrow> goany list \<Rightarrow> string \<Rightarrow> bool \<Rightarrow> (qerror, goany) result" where
  "extremeFieldValue fo sprint items field pickMax =
     foldE (\<lambda>item selected. bindE (extractFieldValue item field) (\<lambda>val. Inr (pickStep fo sprint pickMax val selected))) items None"

definition qSum :: "'f float64 \<Rightarrow> convenv \<Rightarrow> 'w Executor \<Rightarrow> Query \<Rightarrow> string \<Rightarrow> 'w \<Rightarrow> (qerror, 'f) result \<times> 'w" where
  "qSum fo env ex q field w =
     (case getAllItems env ex q w of
        (Inl e, w') \<Rightarrow> (Inl e, w')
      | (Inr items, w') \<Rightarrow> (bindE (sumAndCountNumeric fo items field) (\<lambda>(sum, _). Inr sum), w'))"

definition average :: "'f float64 \<Rightarrow> 'f \<times> nat \<Rightarrow> 'f" where
  "average fo = (\<lambda>(sum, count). if count = 0 then fZero fo else fDiv fo sum (fOfInt fo (int count)))"

definition qAverage :: "'f float64 \<Rightarrow> convenv \<Rightarrow> 'w Executor \<Rightarrow> Query \<Rightarrow> string \<Rightarrow> 'w \<Rightarrow> (qerror, 'f) result \<times> 'w" where
  "qAverage fo env ex q field w =
     (case getAllItems env ex q w of
        (Inl e, w') \<Rightarrow> (Inl e, w')
      | (Inr items, w') \<Rightarrow>
          (if items = [] then (Inr (fZero fo), w') else (bindE (sumAndCountNumeric fo items field) (\<lambda>sc. Inr (average fo sc)), w')))"

definition extremeValue :: "'f float64 \<Rightarrow> (goany \<Rightarrow> string) \<Rightarrow> convenv \<Rightarrow> 'w Executor \<Rightarrow> Query \<Rightarrow> string \<Rightarrow> bool \<Rightarrow> 'w \<Rightarrow> (qerror, goany) result \<times> 'w" where
  "extremeValue fo sprint env ex q field pickMax w =
     (case getAllItems env ex q w of
        (Inl e, w') \<Rightarrow> (Inl e, w')
      | (Inr items, w') \<Rightarrow>
          (if items = [] then (Inl (QueryError ''no items found''), w')
           else (bindE (extremeFieldValue fo sprint items field pickMax) (\<lambda>x.
             if x = None then Inl (QueryError (''no valid values found for field '' @ field)) else Inr x), w')))"

definition qMin :: "'f float64 \<Rightarrow> (goany \<Rightarrow> string) \<Rightarrow> convenv \<Rightarrow> 'w Executor \<Rightarrow> Query \<Rightarrow> string \<Rightarrow> 'w \<Rightarrow> (qerror, goany) result \<times> 'w" where
  "qMin fo sprint env ex q field w = extremeValue fo sprint env ex q field False w"

definition qMax :: "'f float64 \<Rightarrow> (goany \<Rightarrow> string) \<Rightarrow> convenv \<Rightarrow> 'w Executor \<Rightarrow> Query \<Rightarrow> string \<Rightarrow> 'w \<Rightarrow> (qerror, goany) result \<times> 'w" where
  "qMax fo sprint env ex q field w = extremeValue fo sprint env ex q field True w"

text \<open>The single pass of \<open>Aggregate\<close>: sum, count, minimum and maximum together.\<close>

definition aggregateStep :: "'f float64 \<Rightarrow> (goany \<Rightarrow> string) \<Rightarrow> string \<Rightarrow> goany \<Rightarrow> ('f \<times> nat) \<times> goany \<times> goany \<Rightarrow> (qerror, ('f \<times> nat) \<times> goany \<times> goany) result" where
  "aggregateStep fo sprint field item = (\<lambda>(sc, minValue, maxValue).
     bindE (numStep fo field item sc) (\<lambda>sc'.
     bindE (extractFieldValue item field) (\<lambda>val.
       Inr (sc', pickStep fo sprint False val minValue, pickStep fo sprint True val maxValue))))"

definition Aggregate :: "'f float64 \<Rightarrow> (goany \<Rightarrow> string) \<Rightarrow> convenv \<Rightarrow> 'w Executor \<Rightarrow> Query \<Rightarrow> string list \<Rightarrow> 'w \<Rightarrow> (qerror, 'f AggregateResult) result \<times> 'w" where
  "Aggregate fo sprint env ex q fs w =
     (case getAllItems env ex q w of
        (Inl e, w') \<Rightarrow> (Inl e, w')
      | (Inr items, w') \<Rightarrow>
          (case fs of
             [] \<Rightarrow> (Inr \<lparr> arMin = None, arMax = None, arCount = int (length items), arSum = fZero fo, arAverage = fZero fo \<rparr>, w')
           | field # _ \<Rightarrow>
               (bindE (foldE (aggregateStep fo sprint field) items ((fZero fo, 0), None, None)) (\<lambda>(sc, minValue, maxValue).
                  Inr \<lparr> arMin = minValue, arMax = maxValue, arCount = int (length items), arSum = fst sc, arAverage = average fo sc \<rparr>), w')))"

definition CountDistinct :: "(goany \<Rightarrow> string) \<Rightarrow> convenv \<Rightarrow> 'w Executor \<Rightarrow> Query \<Rightarrow> string \<Rightarrow> 'w \<Rightarrow> (qerror, int) result \<times> 'w" where
  "CountDistinct sprint env ex q field w =
     (case getAllItems env ex q w of
        (Inl e, w') \<Rightarrow> (Inl e, w')
      | (Inr items, w') \<Rightarrow>
          (bindE (foldE (\<lambda>item seen. bindE (extractFieldValue item field) (\<lambda>val. Inr (if val = None then seen else List.insert (sprint val) seen))) items [])
             (\<lambda>seen. Inr (int (length seen))), w'))"

section \<open>Grouping\<close>

definition GroupBy :: "convenv \<Rightarrow> 'w Executor \<Rightarrow> Query \<Rightarrow> string \<Rightarrow> 'w \<Rightarrow> 'f GroupByQuery \<times> 'w" where
  "GroupBy env ex q field w =
     (case getAllItems env ex q w of
        (Inl e, w') \<Rightarrow> (\<lparr> gbErr = Some e, gbGroups = [], gbGroupBy = [], gbItems = [], gbAggregates = [], gbHaving = [] \<rparr>, w')
      | (Inr items, w') \<Rightarrow> (\<lparr> gbErr = None, gbGroups = [], gbGroupBy = field, gbItems = items, gbAggregates = [], gbHaving = [] \<rparr>, w'))"

definition addAggregate :: "string \<Rightarrow> string \<Rightarrow> string \<Rightarrow> 'f GroupByQuery \<Rightarrow> 'f GroupByQuery" where
  "addAggregate fn field alias g =
     (if gbErr g \<noteq> None then g
      else g \<lparr> gbAggregates := gbAggregates g @ [\<lparr> aoFunction = fn, aoField = field, aoAlias = alias \<rparr>] \<rparr>)"

definition gbCount :: "string \<Rightarrow> 'f GroupByQuery \<Rightarrow> 'f GroupByQuery" where
  "gbCount alias g = addAggregate ''COUNT'' ''*'' alias g"

definition gbSum :: "string \<Rightarrow> string \<Rightarrow> 'f GroupByQuery \<Rightarrow> 'f GroupByQuery" where
  "gbSum field alias g = addAggregate ''SUM'' field alias g"

definition gbAvg :: "string \<Rightarrow> string \<Rightarrow> 'f GroupByQuery \<Rightarrow> 'f GroupByQuery" where
  "gbAvg field alias g = addAggregate ''AVG'' field alias g"

definition gbMin :: "string \<Rightarrow> string \<Rightarrow> 'f GroupByQuery \<Rightarrow> 'f GroupByQuery" where
  "gbMin field alias g = addAggregate ''MIN'' field alias g"

definition gbMax :: "string \<Rightarrow> string \<Rightarrow> 'f GroupByQuery \<Rightarrow> 'f GroupByQuery" where
  "gbMax field alias g = addAggregate ''MAX'' field alias g"

definition Having :: "string \<Rightarrow> string \<Rightarrow> goany \<Rightarrow> 'f GroupByQuery \<Rightarrow> 'f GroupByQuery" where
  "Having aggr operator val g =
     (if gbErr g \<noteq> None then g
      else g \<lparr> gbHaving := gbHaving g @ [\<lparr> hcValue = val, hcAggregate = aggr, hcOperator = operator \<rparr>] \<rparr>)"

definition emptyResult :: "'f float64 \<Rightarrow> 'f AggregateResult" where
  "emptyResult fo = \<lparr> arMin = None, arMax = None, arCount = 0, arSum = fZero fo, arAverage = fZero fo \<rparr>"

definition calculateAggregate :: "'f float64 \<Rightarrow> (goany \<Rightarrow> string) \<Rightarrow> goany list \<Rightarrow> aggregateOp \<Rightarrow> (qerror, 'f AggregateResult) result" where
  "calculateAggregate fo sprint items agg =
     (let fn = aoFunction agg; r = emptyResult fo in
      if fn = ''COUNT'' then Inr (r \<lparr> arCount := int (length items) \<rparr>)
      else if fn = ''SUM'' then bindE (sumAndCountNumeric fo items (aoField agg)) (\<lambda>(sum, _). Inr (r \<lparr> arSum := sum \<rparr>))
      else if fn = ''AVG'' then bindE (sumAndCountNumeric fo items (aoField agg)) (\<lambda>sc. Inr (r \<lparr> arAverage := average fo sc \<rparr>))
      else if fn = ''MIN'' then bindE (extremeFieldValue fo sprint items (aoField agg) False) (\<lambda>x. Inr (r \<lparr> arMin := x \<rparr>))
      else if fn = ''MAX'' then bindE (extremeFieldValue fo sprint items (aoField agg) True) (\<lambda>x. Inr (r \<lparr> arMax := x \<rparr>))
      else Inr r)"

definition aggregateResultValue :: "'f float64 \<Rightarrow> 'f AggregateResult \<Rightarrow> 'f option" where
  "aggregateResultValue fo r =
     (if arMin r \<noteq> None then toFloat64 fo (arMin r)
      else if arMax r \<noteq> None then toFloat64 fo (arMax r)
      else if arCount r \<noteq> 0 then Some (fOfInt fo (arCount r))
      else if \<not> fEq fo (arSum r) (fZero fo) then Some (arSum r)
      else if \<not> fEq fo (arAverage r) (fZero fo) then Some (arAverage r)
      else Some (fZero fo))"

definition aggregateValue :: "'f float64 \<Rightarrow> 'f GroupedResult \<Rightarrow> string \<Rightarrow> 'f option" where
  "aggregateValue fo grp aggr =
     (if aggr = ''COUNT(*)'' then Some (fOfInt fo (grCount grp))
      else case map_of (grAggregates grp) aggr of None \<Rightarrow> None | Some r \<Rightarrow> aggregateResultValue fo r)"

definition compareHaving :: "'f float64 \<Rightarrow> 'f \<Rightarrow> string \<Rightarrow> 'f \<Rightarrow> bool" where
  "compareHaving fo aggValue operator compareValue =
     (if operator = ''='' then fEq fo aggValue compareValue
      else if operator = ''>'' then fLess fo compareValue aggValue
      else if operator = ''>='' then fLessEq fo compareValue aggValue
      else if operator = ''<'' then fLess fo aggValue compareValue
      else if operator = ''<='' then fLessEq fo aggValue compareValue
      else if operator = ''!='' then \<not> fEq fo aggValue compareValue
      else True)"

definition evaluateHaving :: "'f float64 \<Rightarrow> havingClause list \<Rightarrow> 'f GroupedResult \<Rightarrow> bool" where
  "evaluateHaving fo clauses grp =
     list_all (\<lambda>h. case aggregateValue fo grp (hcAggregate h) of
         None \<Rightarrow> False
       | Some aggValue \<Rightarrow> (case toFloat64 fo (hcValue h) of None \<Rightarrow> False | Some cv \<Rightarrow> compareHaving fo aggValue (hcOperator h) cv)) clauses"

definition groupStep :: "(goany \<Rightarrow> string) \<Rightarrow> string \<Rightarrow> goany \<Rightarrow> (string \<times> 'f GroupedResult) list \<Rightarrow> (qerror, (string \<times> 'f GroupedResult) list) result" where
  "groupStep sprint field item groups =
     bindE (extractFieldValue item field) (\<lambda>key.
       if key = None then Inr groups
       else let keyStr = sprint key in
         Inr (case map_of groups keyStr of
                Some grp \<Rightarrow> AList.update keyStr (grp \<lparr> grCount := grCount grp + 1, grItems := grItems grp @ [item] \<rparr>) groups
              | None \<Rightarrow> AList.update keyStr \<lparr> grKey = key, grAggregates = [], grItems = [item], grCount = 1 \<rparr> groups))"

definition aggregateGroup :: "'f float64 \<Rightarrow> (goany \<Rightarrow> string) \<Rightarrow> aggregateOp list \<Rightarrow> string \<times> 'f GroupedResult \<Rightarrow> (qerror, string \<times> 'f GroupedResult) result" where
  "aggregateGroup fo sprint aggs = (\<lambda>(k, grp).
     bindE (foldE (\<lambda>agg m. bindE (calculateAggregate fo sprint (grItems grp) agg) (\<lambda>r. Inr (AList.update (aoAlias agg) r m))) aggs (grAggregates grp)) (\<lambda>m.
       Inr (k, grp \<lparr> grAggregates := m \<rparr>)))"

text \<open>The groups stay in the query, so that it is returned too.\<close>

definition gbExecute :: "'f float64 \<Rightarrow> (goany \<Rightarrow> string) \<Rightarrow> 'f GroupByQuery \<Rightarrow> (qerror, 'f GroupedResult list) result \<times> 'f GroupByQuery" where
  "gbExecute fo sprint g =
     (case gbErr g of
        Some e \<Rightarrow> (Inl e, g)
      | None \<Rightarrow>
          (case foldE (groupStep sprint (gbGroupBy g)) (gbItems g) (gbGroups g) of
             Inl e \<Rightarrow> (Inl e, g)
           | Inr groups \<Rightarrow>
               (case mapE (aggregateGroup fo sprint (gbAggregates g)) groups of
                  Inl e \<Rightarrow> (Inl e, g)
                | Inr groups' \<Rightarrow> (Inr (filter (evaluateHaving fo (gbHaving g)) (map snd groups')), g \<lparr> gbGroups := groups' \<rparr>))))"

section \<open>Groups partition the items\<close>

text \<open>The group of a key text: the items whose value of the field is not nil and prints as that text, in their order.\<close>

definition valueOf :: "string \<Rightarrow> goany \<Rightarrow> goany" where
  "valueOf field item = projr (extractFieldValue item field)"

definition membersOf :: "(goany \<Rightarrow> string) \<Rightarrow> string \<Rightarrow> goany list \<Rightarrow> string \<Rightarrow> goany list" where
  "membersOf sprint field items k = filter (\<lambda>item. valueOf field item \<noteq> None \<and> sprint (valueOf field item) = k) items"

definition groupOf :: "(goany \<Rightarrow> string) \<Rightarrow> string \<Rightarrow> goany list \<Rightarrow> string \<Rightarrow> 'f GroupedResult option" where
  "groupOf sprint field items k =
     (case membersOf sprint field items k of
        [] \<Rightarrow> None
      | item # rest \<Rightarrow> Some \<lparr> grKey = valueOf field item, grAggregates = [], grItems = item # rest, grCount = int (length (item # rest)) \<rparr>)"

lemma membersOf_snoc:
  "membersOf sprint field (items @ [item]) k = membersOf sprint field items k @
     (if valueOf field item \<noteq> None \<and> sprint (valueOf field item) = k then [item] else [])"
  by (simp add: membersOf_def)

lemma groupLoop:
  "foldE (groupStep sprint field) items [] = Inr groups \<Longrightarrow> distinct (map fst groups) \<and> map_of groups = groupOf sprint field items"
proof (induction items arbitrary: groups rule: rev_induct)
  case Nil
  then show ?case by (auto simp: groupOf_def membersOf_def)
next
  case (snoc item items)
  obtain old where old: "foldE (groupStep sprint field) items [] = Inr old" "groupStep sprint field item old = Inr groups"
  proof -
    obtain old where "foldE (groupStep sprint field) items [] = Inr old" "foldE (groupStep sprint field) [item] old = Inr groups"
      using snoc.prems unfolding foldE_append bindE_eq_Inr by blast
    then show thesis using that by (cases "groupStep sprint field item old") auto
  qed
  note IH = snoc.IH[OF old(1)]
  obtain key where key: "extractFieldValue item field = Inr key" using old(2) by (auto simp: groupStep_def bindE_eq_Inr)
  then have v: "valueOf field item = key" by (simp add: valueOf_def)
  show ?case
  proof (cases "key = None")
    case True
    then have "groups = old" using old(2) key by (simp add: groupStep_def)
    then show ?thesis using IH True v by (simp add: groupOf_def membersOf_snoc fun_eq_iff)
  next
    case False
    have same: "groupOf sprint field (items @ [item]) k = groupOf sprint field items k" if "k \<noteq> sprint key" for k
      using that v by (simp add: groupOf_def membersOf_snoc)
    show ?thesis
    proof (cases "membersOf sprint field items (sprint key)")
      case Nil
      then have g: "groups = AList.update (sprint key) \<lparr> grKey = key, grAggregates = [], grItems = [item], grCount = 1 \<rparr> old"
        using old(2) key False IH by (simp add: groupStep_def groupOf_def Let_def)
      then show ?thesis using IH same v False Nil by (auto simp: groupOf_def membersOf_snoc)
    next
      case (Cons first rest)
      then have g: "groups = AList.update (sprint key)
          \<lparr> grKey = valueOf field first, grAggregates = [], grItems = first # rest @ [item], grCount = 2 + int (length rest) \<rparr> old"
        using old(2) key False IH by (simp add: groupStep_def groupOf_def Let_def add.commute)
      then show ?thesis using IH same v False Cons by (auto simp: groupOf_def membersOf_snoc)
    qed
  qed
qed

lemma aggregates_of_group:
  assumes "foldE (\<lambda>agg m. bindE (calculateAggregate fo sprint items agg) (\<lambda>r. Inr (AList.update (aoAlias agg) r m))) aggs m0 = Inr m"
    and "distinct (map aoAlias aggs)"
  shows "list_all (\<lambda>agg. \<exists>r. calculateAggregate fo sprint items agg = Inr r \<and> map_of m (aoAlias agg) = Some r) aggs
     \<and> (\<forall>a. a \<notin> aoAlias ` set aggs \<longrightarrow> map_of m a = map_of m0 a)"
  using assms
proof (induction aggs arbitrary: m0)
  case (Cons agg aggs)
  then obtain r where r: "calculateAggregate fo sprint items agg = Inr r"
      "foldE (\<lambda>agg m. bindE (calculateAggregate fo sprint items agg) (\<lambda>r. Inr (AList.update (aoAlias agg) r m))) aggs (AList.update (aoAlias agg) r m0) = Inr m"
    by (cases "calculateAggregate fo sprint items agg") auto
  then show ?case using Cons.IH[OF r(2)] Cons.prems(2) by (auto simp: list_all_iff)
qed simp

lemma aggregateGroups_map:
  assumes "list_all2 (\<lambda>p p'. aggregateGroup fo sprint aggs p = Inr p') groups groups'"
  shows "map fst groups' = map fst groups \<and> (\<forall>k. case map_of groups k of
      None \<Rightarrow> map_of groups' k = None
    | Some gr \<Rightarrow> \<exists>m. map_of groups' k = Some (gr \<lparr> grAggregates := m \<rparr>)
        \<and> foldE (\<lambda>agg m. bindE (calculateAggregate fo sprint (grItems gr) agg) (\<lambda>r. Inr (AList.update (aoAlias agg) r m))) aggs (grAggregates gr) = Inr m)"
  using assms
proof (induction rule: list_all2_induct)
  case (Cons p groups p' groups')
  obtain k gr where p: "p = (k, gr)" by (cases p)
  obtain m where m: "p' = (k, gr \<lparr> grAggregates := m \<rparr>)"
      "foldE (\<lambda>agg m. bindE (calculateAggregate fo sprint (grItems gr) agg) (\<lambda>r. Inr (AList.update (aoAlias agg) r m))) aggs (grAggregates gr) = Inr m"
    using Cons.hyps(1) unfolding aggregateGroup_def p by (auto simp: bindE_eq_Inr)
  show ?case
  proof (intro conjI allI)
    fix k'
    show "case map_of (p # groups) k' of
      None \<Rightarrow> map_of (p' # groups') k' = None
    | Some gr \<Rightarrow> \<exists>m. map_of (p' # groups') k' = Some (gr \<lparr> grAggregates := m \<rparr>)
        \<and> foldE (\<lambda>agg m. bindE (calculateAggregate fo sprint (grItems gr) agg) (\<lambda>r. Inr (AList.update (aoAlias agg) r m))) aggs (grAggregates gr) = Inr m"
    proof (cases "k' = k")
      case True
      then show ?thesis using p m by simp
    next
      case False
      then have tail: "map_of (p # groups) k' = map_of groups k'" "map_of (p' # groups') k' = map_of groups' k'" using p m(1) by simp_all
      show ?thesis unfolding tail by (rule Cons.IH[THEN conjunct2, rule_format])
    qed
  qed (use Cons.IH p m in simp)
qed simp

text \<open>C18. Executing a fresh grouped query: the groups have distinct key texts, and the group of a text holds exactly the items whose value
  of the field is set and prints as that text, in their order, with their number and the value of the first of them; each requested
  aggregate of a group is the one calculated over its items; the result is the groups that satisfy the having clauses.\<close>

theorem GroupBy_partitions:
  assumes "gbExecute fo sprint g = (Inr out, g')" "gbGroups g = []" "distinct (map aoAlias (gbAggregates g))"
  shows "distinct (map fst (gbGroups g')) \<and> out = filter (evaluateHaving fo (gbHaving g)) (map snd (gbGroups g'))
     \<and> (\<forall>k. case groupOf sprint (gbGroupBy g) (gbItems g) k of
          None \<Rightarrow> map_of (gbGroups g') k = None
        | Some gr \<Rightarrow> \<exists>m. map_of (gbGroups g') k = Some (gr \<lparr> grAggregates := m \<rparr>)
            \<and> list_all (\<lambda>agg. \<exists>r. calculateAggregate fo sprint (grItems gr) agg = Inr r \<and> map_of m (aoAlias agg) = Some r) (gbAggregates g))"
proof -
  obtain groups groups' where s: "foldE (groupStep sprint (gbGroupBy g)) (gbItems g) [] = Inr groups"
      "mapE (aggregateGroup fo sprint (gbAggregates g)) groups = Inr groups'" "g' = g \<lparr> gbGroups := groups' \<rparr>"
      "out = filter (evaluateHaving fo (gbHaving g)) (map snd groups')"
    using assms(1,2) by (auto simp: gbExecute_def split: option.splits sum.splits)
  note loop = groupLoop[OF s(1)]
  have keyed: "groupOf sprint (gbGroupBy g) (gbItems g) = map_of groups" using loop by simp
  note agg = aggregateGroups_map[OF s(2)[unfolded mapE_Inr]]
  show ?thesis
  proof (intro conjI allI)
    fix k
    show "case groupOf sprint (gbGroupBy g) (gbItems g) k of
          None \<Rightarrow> map_of (gbGroups g') k = None
        | Some gr \<Rightarrow> \<exists>m. map_of (gbGroups g') k = Some (gr \<lparr> grAggregates := m \<rparr>)
            \<and> list_all (\<lambda>agg. \<exists>r. calculateAggregate fo sprint (grItems gr) agg = Inr r \<and> map_of m (aoAlias agg) = Some r) (gbAggregates g)"
    proof (cases "map_of groups k")
      case None
      then show ?thesis using agg[THEN conjunct2, rule_format, of k] s(3) unfolding keyed by simp
    next
      case (Some gr)
      obtain m where m: "map_of groups' k = Some (gr \<lparr> grAggregates := m \<rparr>)"
          "foldE (\<lambda>agg m. bindE (calculateAggregate fo sprint (grItems gr) agg) (\<lambda>r. Inr (AList.update (aoAlias agg) r m))) (gbAggregates g) (grAggregates gr) = Inr m"
        using agg[THEN conjunct2, rule_format, of k] Some by auto
      then show ?thesis using aggregates_of_group[OF m(2) assms(3)] Some s(3) unfolding keyed by auto
    qed
  qed (use loop agg s in simp_all)
qed

definition intFloat :: "int float64" where
  "intFloat = \<lparr> fZero = 0, fAdd = (+), fDiv = (div), fLess = (<), fLessEq = (\<le>), fEq = (=), fOfInt = id, fOfText = (\<lambda>_. 0) \<rparr>"

definition plainText :: "goany \<Rightarrow> string" where
  "plainText x = (case x of Some (_, VString s) \<Rightarrow> s | Some (_, VInt i) \<Rightarrow> showInt i | _ \<Rightarrow> [])"

definition sale :: "string \<Rightarrow> int \<Rightarrow> goany" where
  "sale shop amount = Some (TStruct ''Sale'' [SField ''Shop'' True False [] [] TString, SField ''Amount'' True False [] [] (TInt Int64)],
     VStruct [VString shop, VInt amount])"

definition demoGroups :: "int GroupByQuery" where
  "demoGroups = Having ''COUNT(*)'' ''>'' (Some (TInt Int64, VInt 1)) (gbSum ''Amount'' ''sum''
     \<lparr> gbErr = None, gbGroups = [], gbGroupBy = ''Shop'', gbItems = [sale ''A'' 2, sale ''B'' 5, sale [] 1, sale ''A'' 4],
       gbAggregates = [], gbHaving = [] \<rparr>)"

theorem GroupBy_partitions_witness:
  "\<exists>m r. map_of (gbGroups (snd (gbExecute intFloat plainText demoGroups))) ''A''
       = Some \<lparr> grKey = Some (TString, VString ''A''), grAggregates = m, grItems = [sale ''A'' 2, sale ''A'' 4], grCount = 2 \<rparr>
     \<and> map_of m ''sum'' = Some r \<and> arSum r = 6"
proof -
  let ?x = "gbExecute intFloat plainText demoGroups" and ?op = "\<lparr> aoFunction = ''SUM'', aoField = ''Amount'', aoAlias = ''sum'' \<rparr>"
  have "isOk (fst ?x)" by code_simp
  then obtain out where run: "?x = (Inr out, snd ?x)" by (cases ?x) (auto simp: isOk_iff)
  have ops: "gbAggregates demoGroups = [?op]" "gbGroups demoGroups = []" by code_simp+
  then have d: "distinct (map aoAlias (gbAggregates demoGroups))" by simp
  have grp: "groupOf plainText (gbGroupBy demoGroups) (gbItems demoGroups) ''A''
      = (Some \<lparr> grKey = Some (TString, VString ''A''), grAggregates = [], grItems = [sale ''A'' 2, sale ''A'' 4], grCount = 2 \<rparr> :: int GroupedResult option)"
    by code_simp
  have calc: "calculateAggregate intFloat plainText [sale ''A'' 2, sale ''A'' 4] ?op
      = Inr \<lparr> arMin = None, arMax = None, arCount = 0, arSum = 6, arAverage = 0 \<rparr>" by code_simp
  show ?thesis
    using GroupBy_partitions[OF run ops(2) d, THEN conjunct2, THEN conjunct2, rule_format, of "''A''"] ops(1) calc by (auto simp: grp)
qed

section \<open>One pass and several\<close>

text \<open>The single pass of \<open>Aggregate\<close> computes what \<open>Sum\<close>, \<open>Average\<close>, \<open>Min\<close> and \<open>Max\<close> compute separately.\<close>

lemma aggregateStep_step:
  "aggregateStep fo sprint field item (sc, mn, mx) = Inr s \<longleftrightarrow>
     (\<exists>sc1 val. numStep fo field item sc = Inr sc1 \<and> extractFieldValue item field = Inr val
        \<and> s = (sc1, pickStep fo sprint False val mn, pickStep fo sprint True val mx))"
  by (auto simp: aggregateStep_def bindE_eq_Inr)

lemma aggregatePass:
  "foldE (aggregateStep fo sprint field) items (sc, mn, mx) = Inr (sc', mn', mx')
   \<Longrightarrow> foldE (numStep fo field) items sc = Inr sc'
     \<and> foldE (\<lambda>item selected. bindE (extractFieldValue item field) (\<lambda>val. Inr (pickStep fo sprint False val selected))) items mn = Inr mn'
     \<and> foldE (\<lambda>item selected. bindE (extractFieldValue item field) (\<lambda>val. Inr (pickStep fo sprint True val selected))) items mx = Inr mx'"
proof (induction items arbitrary: sc mn mx)
  case (Cons item items)
  obtain sc1 val where "numStep fo field item sc = Inr sc1" "extractFieldValue item field = Inr val"
    "foldE (aggregateStep fo sprint field) items (sc1, pickStep fo sprint False val mn, pickStep fo sprint True val mx) = Inr (sc', mn', mx')"
    using Cons.prems by (cases "aggregateStep fo sprint field item (sc, mn, mx)") (auto simp: aggregateStep_step)
  then show ?case using Cons.IH by simp
qed simp

theorem Aggregate_is_one_pass:
  assumes "Aggregate fo sprint env ex q (field # rest) w = (Inr r, w')"
  shows "qSum fo env ex q field w = (Inr (arSum r), w') \<and> qAverage fo env ex q field w = (Inr (arAverage r), w')
     \<and> (arMin r \<noteq> None \<longrightarrow> qMin fo sprint env ex q field w = (Inr (arMin r), w'))
     \<and> (arMax r \<noteq> None \<longrightarrow> qMax fo sprint env ex q field w = (Inr (arMax r), w'))"
proof -
  obtain items sc where s: "getAllItems env ex q w = (Inr items, w')"
      "foldE (aggregateStep fo sprint field) items ((fZero fo, 0), None, None) = Inr (sc, arMin r, arMax r)"
      "arSum r = fst sc" "arAverage r = average fo sc"
    using assms by (auto simp: Aggregate_def bindE_eq_Inr split: prod.splits sum.splits)
  have "items = [] \<Longrightarrow> arAverage r = fZero fo \<and> arMin r = None \<and> arMax r = None" using s by (auto simp: average_def)
  then show ?thesis using s(1,3,4) aggregatePass[OF s(2)]
    by (auto simp: qSum_def qAverage_def qMin_def qMax_def extremeValue_def sumAndCountNumeric_def extremeFieldValue_def split: prod.splits)
qed

section \<open>Corners\<close>

text \<open>A value that is the zero of its type counts as absent: the minimum of 0 and 5 is 5, and items with the key 0 or the empty string
  belong to no group.\<close>

theorem zero_values_ignored:
  "extremeFieldValue intFloat plainText [sale ''A'' 0, sale ''A'' 5] ''Amount'' False = Inr (Some (TInt Int64, VInt 5))
     \<and> foldE (groupStep plainText ''Amount'') [sale ''A'' 0] ([] :: (string \<times> int GroupedResult) list) = Inr []"
  by code_simp

text \<open>The groups stay in the query: executing it again counts every item again.\<close>

theorem execute_twice_doubles:
  "map grCount (projr (fst (gbExecute intFloat plainText (snd (gbExecute intFloat plainText demoGroups))))) = [4, 2]"
  by code_simp

text \<open>An operator the code does not know keeps every group.\<close>

theorem unknown_having_operator: "compareHaving fo a ''=='' b"
  by (simp add: compareHaving_def)

end
