(* ===== verification/Transaction.thy ===== *)
theory Transaction
  imports UpdateBuilder EncryptUpdate PkgConverter
begin

text \<open>
  Package \<open>transaction\<close>: the fluent \<open>Builder\<close> (\<open>builder.go\<close>), which collects up to 25 operations and sends them as one
  \<open>TransactWriteItems\<close> request, and the older \<open>Transaction\<close> (\<open>transaction.go\<close>).  The state of each is the record of the Go struct's fields that
  change; \<open>txenv\<close> holds what they are built over: the registry's method lookup, the attribute value converter (that of theory \<open>PkgConverter\<close> in the examples), the conversion
  environment of the expression builder, and the session's key and encryption service.  The number threaded through the construction of requests
  counts the calls of the encryption service.  The SDK is a parameter on a world \<open>'w\<close>.
\<close>

section \<open>Data\<close>

datatype txError =
    TransactionCanceled "(string option \<times> string option) list" string  \<comment> \<open>code and message of each cancellation reason, text\<close>
  | OtherTxError string

datatype terror =
    TError string
  | TWrapped string terror
  | TReg regerror
  | TQuery qerror
  | TEnc encerror
  | TConv string
  | TBuilder berror
  | TSdk txError
  | TransactionError nat string string string terror  \<comment> \<open>index, operation, model, reason, base error\<close>
  | TErrTransactionFailed
  | TErrConditionFailed
  | TContextDone
  | TPanic

record txenv =
  txMethods :: "gtype \<Rightarrow> bool \<Rightarrow> string option"
  txConverter :: AttributeValueConverter
  txConv :: convenv
  txKeyARN :: string
  txService :: Service
  txTypeString :: "gtype \<Rightarrow> string"

record TransactCondition =
  tcKind :: string
  tcField :: string
  tcOperator :: string
  tcValue :: goany
  tcExpression :: string
  tcValues :: "(string \<times> goany) list"

definition emptyCondition :: TransactCondition where
  "emptyCondition = \<lparr> tcKind = [], tcField = [], tcOperator = [], tcValue = None, tcExpression = [], tcValues = [] \<rparr>"

datatype operationType = OpPut | OpCreate | OpUpdate | OpUpdateWithBuilder | OpDelete | OpConditionCheck

text \<open>What the capturing executor has seen, and a callback that works on an update builder over that executor.\<close>

type_synonym capture = "(CompiledQuery \<times> item) option"
type_synonym updateFn = "UpdateBuilder \<Rightarrow> capture \<Rightarrow> qerror option \<times> UpdateBuilder \<times> capture"

record transactOperation =
  toModel :: goany
  toMetadata :: Metadata
  toUpdateFn :: "updateFn option"
  toFields :: "string list"
  toConditions :: "TransactCondition list"
  toType :: operationType

record txBuilder =
  tbErr :: "terror option"
  tbRegistry :: Registry
  tbOperations :: "transactOperation list"

text \<open>The parts a write of the request has: table, item or key, update expression (updates only), condition, names and values.\<close>

record txWrite =
  twTable :: string
  twAttributes :: item
  twUpdateExpression :: "string option"
  twCondition :: "string option"
  twNames :: "(string \<times> string) list"
  twValues :: item

datatype TransactWriteItem = TxPut txWrite | TxUpdate txWrite | TxDelete txWrite | TxConditionCheck txWrite

definition maxTransactOperations :: nat where
  "maxTransactOperations = 25"

definition retrySchedule :: "int list" where
  "retrySchedule = [100000000, 200000000, 400000000, 800000000]"

section \<open>Collecting operations\<close>

definition newTxBuilder :: "Registry \<Rightarrow> txBuilder" where
  "newTxBuilder r = \<lparr> tbErr = None, tbRegistry = r, tbOperations = [] \<rparr>"

definition recordError :: "terror \<Rightarrow> txBuilder \<Rightarrow> txBuilder" where
  "recordError e b = (if tbErr b = None then b \<lparr> tbErr := Some e \<rparr> else b)"

definition addOperation ::
  "txenv \<Rightarrow> operationType \<Rightarrow> goany \<Rightarrow> string list \<Rightarrow> updateFn option \<Rightarrow> TransactCondition list \<Rightarrow> txBuilder \<Rightarrow> txBuilder" where
  "addOperation env opType mdl fs fn conds b =
     (if tbErr b \<noteq> None then b
      else if mdl = None then recordError (TError ''model cannot be nil'') b
      else if length (tbOperations b) \<ge> maxTransactOperations then
        recordError (TError (''dynamodb transactions support up to '' @ showNat maxTransactOperations @ '' operations'')) b
      else case Register (txMethods env) mdl (tbRegistry b) of
        (Inl e, r) \<Rightarrow> recordError (TReg e) (b \<lparr> tbRegistry := r \<rparr>)
      | (Inr _, r) \<Rightarrow>
          (case GetMetadata mdl r of
             Inl e \<Rightarrow> recordError (TReg e) (b \<lparr> tbRegistry := r \<rparr>)
           | Inr md \<Rightarrow> b \<lparr> tbRegistry := r, tbOperations := tbOperations b @
               [\<lparr> toModel = mdl, toMetadata = md, toUpdateFn = fn, toFields = fs, toConditions = conds, toType = opType \<rparr>] \<rparr>))"

definition txPut :: "txenv \<Rightarrow> goany \<Rightarrow> TransactCondition list \<Rightarrow> txBuilder \<Rightarrow> txBuilder" where
  "txPut env mdl conds b = addOperation env OpPut mdl [] None conds b"

definition pkNotExists :: TransactCondition where
  "pkNotExists = emptyCondition \<lparr> tcKind := ''pk_not_exists'' \<rparr>"

definition txCreate :: "txenv \<Rightarrow> goany \<Rightarrow> TransactCondition list \<Rightarrow> txBuilder \<Rightarrow> txBuilder" where
  "txCreate env mdl conds b = addOperation env OpCreate mdl [] None (pkNotExists # conds) b"

definition txUpdate :: "txenv \<Rightarrow> goany \<Rightarrow> string list \<Rightarrow> TransactCondition list \<Rightarrow> txBuilder \<Rightarrow> txBuilder" where
  "txUpdate env mdl fs conds b =
     (if fs = [] then recordError (TError ''transaction update requires at least one field'') b
      else addOperation env OpUpdate mdl fs None conds b)"

definition txUpdateWithBuilder :: "txenv \<Rightarrow> goany \<Rightarrow> updateFn option \<Rightarrow> TransactCondition list \<Rightarrow> txBuilder \<Rightarrow> txBuilder" where
  "txUpdateWithBuilder env mdl fn conds b =
     (if fn = None then recordError (TError ''update builder function cannot be nil'') b
      else addOperation env OpUpdateWithBuilder mdl [] fn conds b)"

definition txDelete :: "txenv \<Rightarrow> goany \<Rightarrow> TransactCondition list \<Rightarrow> txBuilder \<Rightarrow> txBuilder" where
  "txDelete env mdl conds b = addOperation env OpDelete mdl [] None conds b"

definition txConditionCheck :: "txenv \<Rightarrow> goany \<Rightarrow> TransactCondition list \<Rightarrow> txBuilder \<Rightarrow> txBuilder" where
  "txConditionCheck env mdl conds b =
     (if conds = [] then recordError (TError ''condition check requires at least one condition'') b
      else addOperation env OpConditionCheck mdl [] None conds b)"

section \<open>Items and keys\<close>

text \<open>\<open>FailClosedIfEncryptedWithoutKMSKeyARN(session, metadata)\<close>.\<close>

definition failClosed :: "txenv \<Rightarrow> Metadata \<Rightarrow> (terror, unit) result" where
  "failClosed env md = mapErr TEnc (FailClosedIfEncryptedWithoutKMSKeyARN (Some (txKeyARN env)) (Some md))"

text \<open>\<open>Value.Field\<close> of the model, or of what it points to, at the field's index; \<open>None\<close> is a panic.\<close>

definition modelField :: "goany \<Rightarrow> FieldMetadata \<Rightarrow> (gtype \<times> gval) option" where
  "modelField mdl fm = (case structValue mdl of None \<Rightarrow> None | Some tv \<Rightarrow> fieldByIndex [fmIndex fm] (fst tv) (snd tv))"

text \<open>\<open>tx.converter.ToAttributeValue\<close>.\<close>

definition txToAttributeValue :: "txenv \<Rightarrow> gtype \<times> gval \<Rightarrow> (terror, attrval) result" where
  "txToAttributeValue env tv = mapErr TConv (ToAttributeValue (txConverter env) (toInterface (fst tv) (snd tv)))"

definition marshalPlainItem :: "txenv \<Rightarrow> goany \<Rightarrow> Metadata \<Rightarrow> (terror, item) result" where
  "marshalPlainItem env mdl md =
     foldE (\<lambda>(fieldName, fm) itm.
       case modelField mdl fm of
         None \<Rightarrow> Inl TPanic
       | Some tv \<Rightarrow>
           (if OmitEmpty fm \<and> goIsZero (snd tv) then Inr itm
            else bindE (mapErr (TWrapped (''failed to convert field '' @ fieldName)) (txToAttributeValue env tv)) (\<lambda>av.
              Inr (AList.update (DBName fm) av itm)))) (Fields md) []"

text \<open>Each encrypted field of the item is replaced by its envelope.\<close>

definition encryptField :: "txenv \<Rightarrow> FieldMetadata \<Rightarrow> item \<times> nat \<Rightarrow> (terror, item \<times> nat) result" where
  "encryptField env fm = (\<lambda>(itm, n).
     if \<not> IsEncrypted fm then Inr (itm, n)
     else case map_of itm (DBName fm) of
       None \<Rightarrow> Inr (itm, n)
     | Some av \<Rightarrow>
         bindE (mapErr (\<lambda>e. TWrapped (''failed to encrypt field '' @ DBName fm) (TEnc e)) (EncryptAttributeValue n (Some (txService env)) (DBName fm) av)) (\<lambda>enc.
           Inr (AList.update (DBName fm) enc itm, n + 1)))"

definition encryptItemIfNeeded :: "txenv \<Rightarrow> Metadata \<Rightarrow> item \<Rightarrow> nat \<Rightarrow> (terror, item \<times> nat) result" where
  "encryptItemIfNeeded env md itm n =
     (if \<not> MetadataHasEncryptedFields (Some md) \<or> itm = [] then Inr (itm, n)
      else foldE (\<lambda>(_, fm). encryptField env fm) (Fields md) (itm, n))"

definition txMarshalItem :: "txenv \<Rightarrow> goany \<Rightarrow> Metadata \<Rightarrow> nat \<Rightarrow> (terror, item \<times> nat) result" where
  "txMarshalItem env mdl md n =
     bindE (failClosed env md) (\<lambda>_.
     bindE (marshalPlainItem env mdl md) (\<lambda>itm. encryptItemIfNeeded env md itm n))"

definition keyAttribute :: "txenv \<Rightarrow> goany \<Rightarrow> string \<Rightarrow> FieldMetadata \<Rightarrow> item \<Rightarrow> (terror, item) result" where
  "keyAttribute env mdl what fm key =
     (case modelField mdl fm of
        None \<Rightarrow> Inl TPanic
      | Some tv \<Rightarrow>
          (if goIsZero (snd tv) then Inl (TError (what @ '' key '' @ fmName fm @ '' is empty''))
           else bindE (mapErr (TWrapped (''failed to convert '' @ what @ '' key'')) (txToAttributeValue env tv)) (\<lambda>av.
             Inr (AList.update (DBName fm) av key))))"

text \<open>A model without a partition key is a nil dereference.\<close>

definition extractPrimaryKey :: "txenv \<Rightarrow> goany \<Rightarrow> Metadata \<Rightarrow> (terror, item) result" where
  "extractPrimaryKey env mdl md =
     (case PrimaryKey md of
        None \<Rightarrow> Inl TPanic
      | Some ks \<Rightarrow>
          (case PartitionKey ks of
             None \<Rightarrow> Inl TPanic
           | Some pk \<Rightarrow>
               bindE (keyAttribute env mdl ''partition'' pk []) (\<lambda>key.
                 case SortKey ks of None \<Rightarrow> Inr key | Some sk \<Rightarrow> keyAttribute env mdl ''sort'' sk key)))"

section \<open>Conditions\<close>

definition kindOfCondition :: "TransactCondition \<Rightarrow> string" where
  "kindOfCondition c = (if tcKind c = [] then ''field'' else tcKind c)"

definition txResolveAttributeName :: "Metadata \<Rightarrow> string \<Rightarrow> (terror, string) result" where
  "txResolveAttributeName md field =
     (if field = [] then Inl (TError ''condition field cannot be empty'')
      else case map_of (Fields md) field of
        Some fm \<Rightarrow>
          (if DBName fm \<noteq> [] then Inr (DBName fm)
           else case map_of (FieldsByDBName md) field of Some fm' \<Rightarrow> Inr (DBName fm') | None \<Rightarrow> Inr field)
      | None \<Rightarrow> (case map_of (FieldsByDBName md) field of Some fm' \<Rightarrow> Inr (DBName fm') | None \<Rightarrow> Inr field))"

definition noVersionField :: terror where
  "noVersionField = TError ''model does not define a version field''"

definition versionAttributeName :: "Metadata \<Rightarrow> (terror, string) result" where
  "versionAttributeName md =
     (case VersionField md of
        Some fm \<Rightarrow> Inr (if DBName fm \<noteq> [] then DBName fm else fmName fm)
      | None \<Rightarrow>
          (case map_of (Fields md) ''Version'' of
             Some fm \<Rightarrow> (if DBName fm \<noteq> [] then Inr (DBName fm) else Inl noVersionField)
           | None \<Rightarrow> Inl noVersionField))"

definition txAddCondition :: "txenv \<Rightarrow> string \<Rightarrow> string \<Rightarrow> goany \<Rightarrow> Builder \<Rightarrow> (terror, Builder) result" where
  "txAddCondition env field operator val eb =
     (case AddConditionExpression (txConv env) field operator val eb of (Inl e, _) \<Rightarrow> Inl (TBuilder e) | (Inr _, eb') \<Rightarrow> Inr eb')"

definition missingKey :: terror where
  "missingKey = TError ''model is missing primary key metadata''"

definition addPrimaryKeyCondition :: "txenv \<Rightarrow> Metadata \<Rightarrow> string \<Rightarrow> Builder \<Rightarrow> (terror, Builder) result" where
  "addPrimaryKeyCondition env md operator eb =
     (case PrimaryKey md of
        None \<Rightarrow> Inl missingKey
      | Some ks \<Rightarrow>
          (case PartitionKey ks of
             None \<Rightarrow> Inl missingKey
           | Some pk \<Rightarrow>
               bindE (txAddCondition env (DBName pk) operator None eb) (\<lambda>eb'.
                 case SortKey ks of None \<Rightarrow> Inr eb' | Some sk \<Rightarrow> txAddCondition env (DBName sk) operator None eb')))"

type_synonym rawCondition = "string \<times> item"

definition buildRawCondition :: "txenv \<Rightarrow> TransactCondition \<Rightarrow> (terror, rawCondition) result" where
  "buildRawCondition env c =
     (let expression = TrimSpace (tcExpression c) in
      if expression = [] then Inl (TError ''condition expression cannot be empty'')
      else bindE (foldE (\<lambda>(key, val) vs.
             bindE (mapErr (\<lambda>e. TWrapped (''failed to convert condition value for '' @ key) (TConv e)) (ToAttributeValue (txConverter env) val)) (\<lambda>av.
               Inr (AList.update key av vs))) (tcValues c) []) (\<lambda>vs. Inr (expression, vs)))"

definition applyCondition :: "txenv \<Rightarrow> Metadata \<Rightarrow> TransactCondition \<Rightarrow> Builder \<times> rawCondition list \<Rightarrow> (terror, Builder \<times> rawCondition list) result" where
  "applyCondition env md c = (\<lambda>(eb, raw).
     let kind = kindOfCondition c in
     if kind = ''field'' then
       bindE (txResolveAttributeName md (tcField c)) (\<lambda>attrName.
         if tcOperator c = [] then Inl (TError (''operator required for condition on '' @ tcField c))
         else bindE (txAddCondition env attrName (tcOperator c) (tcValue c) eb) (\<lambda>eb'. Inr (eb', raw)))
     else if kind = ''pk_exists'' then bindE (addPrimaryKeyCondition env md ''attribute_exists'' eb) (\<lambda>eb'. Inr (eb', raw))
     else if kind = ''pk_not_exists'' then bindE (addPrimaryKeyCondition env md ''attribute_not_exists'' eb) (\<lambda>eb'. Inr (eb', raw))
     else if kind = ''version'' then
       bindE (versionAttributeName md) (\<lambda>fieldName. bindE (txAddCondition env fieldName ''='' (tcValue c) eb) (\<lambda>eb'. Inr (eb', raw)))
     else if kind = ''expression'' then bindE (buildRawCondition env c) (\<lambda>rc. Inr (eb, raw @ [rc]))
     else Inl (TError (''unsupported transaction condition type '' @ tcKind c)))"

definition applyConditionsToBuilder :: "txenv \<Rightarrow> Metadata \<Rightarrow> TransactCondition list \<Rightarrow> Builder \<Rightarrow> (terror, Builder \<times> rawCondition list) result" where
  "applyConditionsToBuilder env md conds eb = foldE (applyCondition env md) conds (eb, [])"

definition addFreshValue :: "string \<times> attrval \<Rightarrow> item \<Rightarrow> (terror, item) result" where
  "addFreshValue = (\<lambda>(k, v) vs.
     if map_of vs k \<noteq> None then Inl (TError (''duplicate condition value placeholder: '' @ k)) else Inr (AList.update k v vs))"

definition mergeRawCondition :: "rawCondition \<Rightarrow> string \<times> item \<Rightarrow> (terror, string \<times> item) result" where
  "mergeRawCondition = (\<lambda>(e, new) (expression, vs).
     bindE (foldE addFreshValue new vs) (\<lambda>vs'.
       Inr (if expression = [] then e else ''('' @ expression @ '') AND ('' @ e @ '')'', vs')))"

definition mergeRawConditions :: "string \<Rightarrow> item \<Rightarrow> rawCondition list \<Rightarrow> (terror, string \<times> item) result" where
  "mergeRawConditions expression vs raw = foldE mergeRawCondition raw (expression, vs)"

section \<open>Requests\<close>

text \<open>The expression builder of an operation, with the conversions of \<open>b.converter\<close>.\<close>

definition newExprBuilder :: "txenv \<Rightarrow> Builder" where
  "newExprBuilder env = NewBuilderWithConverter (Some (asCustomConverter (txConverter env)))"

text \<open>The condition, names and values of an operation whose request is built by \<open>eb\<close>.\<close>

definition conditionParts :: "txenv \<Rightarrow> transactOperation \<Rightarrow> Builder \<Rightarrow> (terror, ExpressionComponents \<times> rawCondition list \<times> string \<times> item) result" where
  "conditionParts env op eb =
     bindE (applyConditionsToBuilder env (toMetadata op) (toConditions op) eb) (\<lambda>(eb', raw).
       case Build eb' of
         None \<Rightarrow> Inl TPanic
       | Some comps \<Rightarrow>
           bindE (mergeRawConditions (ConditionExpression comps) (ExpressionAttributeValues comps) raw) (\<lambda>(cond, vs). Inr (comps, raw, cond, vs)))"

definition writeOf :: "Metadata \<Rightarrow> item \<Rightarrow> string option \<Rightarrow> string \<Rightarrow> (string \<times> string) list \<Rightarrow> item \<Rightarrow> txWrite" where
  "writeOf md attrs upd cond ns vs =
     \<lparr> twTable = TableName md, twAttributes = attrs, twUpdateExpression = upd, twCondition = nonEmpty cond, twNames = ns, twValues = vs \<rparr>"

definition failedKey :: "(terror, item) result \<Rightarrow> (terror, item) result" where
  "failedKey r = mapErr (TWrapped ''failed to extract primary key'') r"

definition buildPut :: "txenv \<Rightarrow> transactOperation \<Rightarrow> nat \<Rightarrow> (terror, txWrite \<times> nat) result" where
  "buildPut env op n =
     bindE (mapErr (TWrapped ''failed to marshal item for put'') (txMarshalItem env (toModel op) (toMetadata op) n)) (\<lambda>(itm, n').
     bindE (conditionParts env op (newExprBuilder env)) (\<lambda>(comps, raw, cond, vs).
       Inr (writeOf (toMetadata op) itm None cond (ExpressionAttributeNames comps) vs, n')))"

text \<open>\<open>EncryptUpdateExpressionValues\<close> on the values of an update.\<close>

definition encryptUpdate :: "txenv \<Rightarrow> Metadata \<Rightarrow> string \<Rightarrow> (string \<times> string) list \<Rightarrow> item \<Rightarrow> nat \<Rightarrow> (terror, item \<times> nat) result" where
  "encryptUpdate env md upd ns vs n =
     bindE (failClosed env md) (\<lambda>_.
       case EncryptUpdateExpressionValues (Some (txService env)) (Some md) upd ns (vs, n) of (Inl e, _) \<Rightarrow> Inl (TEnc e) | (Inr _, vs') \<Rightarrow> Inr vs')"

definition setField :: "txenv \<Rightarrow> transactOperation \<Rightarrow> string \<Rightarrow> Builder \<Rightarrow> (terror, Builder) result" where
  "setField env op field eb =
     (case map_of (Fields (toMetadata op)) field of
        None \<Rightarrow> Inl (TError (''unknown field '' @ field @ '' for update''))
      | Some fm \<Rightarrow>
          (case modelField (toModel op) fm of
             None \<Rightarrow> Inl TPanic
           | Some tv \<Rightarrow>
               (case AddUpdateSet (txConv env) (DBName fm) (toInterface (fst tv) (snd tv)) eb of
                  (Inl e, _) \<Rightarrow> Inl (TWrapped (''failed to build update for '' @ field) (TBuilder e))
                | (Inr _, eb') \<Rightarrow> Inr eb')))"

text \<open>The update expression of the builder's state before the conditions are merged is checked after they were applied.\<close>

definition buildFieldUpdate :: "txenv \<Rightarrow> transactOperation \<Rightarrow> nat \<Rightarrow> (terror, txWrite \<times> nat) result" where
  "buildFieldUpdate env op n =
     bindE (failedKey (extractPrimaryKey env (toModel op) (toMetadata op))) (\<lambda>key.
     bindE (foldE (setField env op) (toFields op) (newExprBuilder env)) (\<lambda>eb.
     bindE (applyConditionsToBuilder env (toMetadata op) (toConditions op) eb) (\<lambda>(eb', raw).
       case Build eb' of
         None \<Rightarrow> Inl TPanic
       | Some comps \<Rightarrow>
           (let upd = UpdateExpression comps; ns = ExpressionAttributeNames comps in
            if upd = [] then Inl (TError ''update expression cannot be empty'')
            else bindE (mergeRawConditions (ConditionExpression comps) (ExpressionAttributeValues comps) raw) (\<lambda>(cond, vs).
              bindE (if MetadataHasEncryptedFields (Some (toMetadata op)) then encryptUpdate env (toMetadata op) upd ns vs n else Inr (vs, n)) (\<lambda>(vs', n').
                Inr (writeOf (toMetadata op) key (Some upd) cond ns vs', n')))))))"

definition buildDelete :: "txenv \<Rightarrow> transactOperation \<Rightarrow> (terror, txWrite) result" where
  "buildDelete env op =
     bindE (failedKey (extractPrimaryKey env (toModel op) (toMetadata op))) (\<lambda>key.
     bindE (conditionParts env op (newExprBuilder env)) (\<lambda>(comps, raw, cond, vs).
       Inr (writeOf (toMetadata op) key None cond (ExpressionAttributeNames comps) vs)))"

definition buildConditionCheck :: "txenv \<Rightarrow> transactOperation \<Rightarrow> (terror, txWrite) result" where
  "buildConditionCheck env op =
     bindE (failedKey (extractPrimaryKey env (toModel op) (toMetadata op))) (\<lambda>key.
     bindE (applyConditionsToBuilder env (toMetadata op) (toConditions op) (newExprBuilder env)) (\<lambda>(eb', raw).
       case Build eb' of
         None \<Rightarrow> Inl TPanic
       | Some comps \<Rightarrow>
           (if ConditionExpression comps = [] \<and> raw = [] then Inl (TError ''condition check requires at least one condition'')
            else bindE (mergeRawConditions (ConditionExpression comps) (ExpressionAttributeValues comps) raw) (\<lambda>(cond, vs).
              Inr (writeOf (toMetadata op) key None cond (ExpressionAttributeNames comps) vs)))))"

section \<open>Updates through an update builder\<close>

text \<open>The adapter of \<open>builder.go\<close> presents the metadata as the one of \<open>query_support.go\<close> does.\<close>

definition adaptMetadata :: "Metadata \<Rightarrow> ModelMetadata" where
  "adaptMetadata md =
     \<lparr> mmTableName = TableName md, mmPrimaryKey = adapterPrimaryKey md, mmIndexes = adapterIndexes md,
       mmAttribute = (\<lambda>field. map_option toAttributeMetadata (lookupField md field)),
       mmVersionFieldName = adapterVersionFieldName md \<rparr>"

lemma adaptMetadata_same: "adaptMetadata md = metadataAdapter md"
  by (simp add: adaptMetadata_def metadataAdapter_def)

text \<open>The executor that keeps the compiled request instead of sending it.\<close>

definition capturingUpdateExecutor :: "capture Executor" where
  "capturingUpdateExecutor =
     \<lparr> exQuery = (\<lambda>_ w. (Inl (QueryError ''query execution not supported in transaction builder''), w)),
       exScan = (\<lambda>_ w. (Inl (QueryError ''scan execution not supported in transaction builder''), w)),
       exCount = (\<lambda>_ w. (Inl (QueryError ''query execution not supported in transaction builder''), w)),
       exGetItem = None, exPutItem = None, exUpdateItem = Some (\<lambda>c key w. (Inr (), Some (c, key))), exDeleteItem = None \<rparr>"

definition keyCondition :: "goany \<Rightarrow> string \<Rightarrow> FieldMetadata \<Rightarrow> Query \<Rightarrow> (terror, Query) result" where
  "keyCondition mdl what fm q =
     (case modelField mdl fm of
        None \<Rightarrow> Inl TPanic
      | Some tv \<Rightarrow>
          (if goIsZero (snd tv) then Inl (TError (what @ '' key '' @ fmName fm @ '' is required''))
           else Inr (Where (fmName fm) ''='' (toInterface (fst tv) (snd tv)) q)))"

definition populateKeyConditions :: "Metadata \<Rightarrow> goany \<Rightarrow> Query \<Rightarrow> (terror, Query) result" where
  "populateKeyConditions md mdl q =
     (case PrimaryKey md of
        None \<Rightarrow> Inl missingKey
      | Some ks \<Rightarrow>
          (case PartitionKey ks of
             None \<Rightarrow> Inl missingKey
           | Some pk \<Rightarrow>
               bindE (keyCondition mdl ''partition'' pk q) (\<lambda>q1. case SortKey ks of None \<Rightarrow> Inr q1 | Some sk \<Rightarrow> keyCondition mdl ''sort'' sk q1)))"

definition partitionBuilderConditions :: "txenv \<Rightarrow> TransactCondition list \<Rightarrow> (terror, TransactCondition list \<times> rawCondition list) result" where
  "partitionBuilderConditions env conds =
     bindE (mapE (buildRawCondition env) (filter (\<lambda>c. kindOfCondition c = ''expression'') conds)) (\<lambda>raw.
       Inr (filter (\<lambda>c. kindOfCondition c \<noteq> ''expression'') conds, raw))"

definition resolveFieldName :: "Metadata \<Rightarrow> string \<Rightarrow> (terror, string) result" where
  "resolveFieldName md field =
     (if field = [] then Inl (TError ''condition field cannot be empty'')
      else case lookupField md field of Some fm \<Rightarrow> Inr (fmName fm) | None \<Rightarrow> Inr field)"

definition resolveVersionFieldName :: "Metadata \<Rightarrow> (terror, string) result" where
  "resolveVersionFieldName md =
     (case VersionField md of
        Some fm \<Rightarrow> Inr (fmName fm)
      | None \<Rightarrow> (case map_of (Fields md) ''Version'' of Some fm \<Rightarrow> Inr (fmName fm) | None \<Rightarrow> Inl noVersionField))"

definition addBuilderPrimaryKeyCondition :: "Metadata \<Rightarrow> string \<Rightarrow> UpdateBuilder \<Rightarrow> (terror, UpdateBuilder) result" where
  "addBuilderPrimaryKeyCondition md operator ub =
     (case PrimaryKey md of
        None \<Rightarrow> Inl missingKey
      | Some ks \<Rightarrow>
          (case PartitionKey ks of
             None \<Rightarrow> Inl missingKey
           | Some pk \<Rightarrow>
               (let ub1 = ubCondition (fmName pk) operator None ub in
                Inr (case SortKey ks of None \<Rightarrow> ub1 | Some sk \<Rightarrow> ubCondition (fmName sk) operator None ub1))))"

definition applyBuilderCondition :: "Metadata \<Rightarrow> TransactCondition \<Rightarrow> UpdateBuilder \<Rightarrow> (terror, UpdateBuilder) result" where
  "applyBuilderCondition md c ub =
     (let kind = kindOfCondition c in
      if kind = ''field'' then
        bindE (resolveFieldName md (tcField c)) (\<lambda>fieldName.
          if tcOperator c = [] then Inl (TError (''operator required for condition on '' @ fieldName))
          else Inr (ubCondition fieldName (tcOperator c) (tcValue c) ub))
      else if kind = ''pk_exists'' then addBuilderPrimaryKeyCondition md ''attribute_exists'' ub
      else if kind = ''pk_not_exists'' then addBuilderPrimaryKeyCondition md ''attribute_not_exists'' ub
      else if kind = ''version'' then bindE (resolveVersionFieldName md) (\<lambda>fieldName. Inr (ubCondition fieldName ''='' (tcValue c) ub))
      else Inl (TError (''unsupported condition type '' @ kind @ '' for update builder'')))"

definition applyConditionsToUpdateBuilder :: "Metadata \<Rightarrow> TransactCondition list \<Rightarrow> UpdateBuilder \<Rightarrow> (terror, UpdateBuilder) result" where
  "applyConditionsToUpdateBuilder md conds ub = foldE (applyBuilderCondition md) conds ub"

text \<open>The request the callback or, if it did not execute, the builder itself has captured.\<close>

definition capturedUpdate :: "txenv \<Rightarrow> updateFn \<Rightarrow> nat \<Rightarrow> UpdateBuilder \<Rightarrow> (terror, CompiledQuery \<times> item) result" where
  "capturedUpdate env fn i ub =
     (case fn ub None of
        (Some e, _, _) \<Rightarrow> Inl (TQuery e)
      | (None, ub1, Some seen) \<Rightarrow> Inr seen
      | (None, ub1, None) \<Rightarrow>
          (case Execute (txConv env) capturingUpdateExecutor ub1 None of
             (Inl e, _, _) \<Rightarrow> Inl (TQuery e)
           | (Inr _, _, None) \<Rightarrow> Inl (TError (''update builder for operation '' @ showNat i @ '' did not produce an expression''))
           | (Inr _, _, Some seen) \<Rightarrow> Inr seen))"

definition buildBuilderUpdate :: "txenv \<Rightarrow> transactOperation \<Rightarrow> nat \<Rightarrow> nat \<Rightarrow> (terror, txWrite \<times> nat) result" where
  "buildBuilderUpdate env op i n =
     (let md = toMetadata op in
      bindE (populateKeyConditions md (toModel op) (New (toModel op) (Some (adaptMetadata md)) None)) (\<lambda>q.
      bindE (partitionBuilderConditions env (toConditions op)) (\<lambda>(builderConds, raw).
      bindE (applyConditionsToUpdateBuilder md builderConds (NewUpdateBuilder q)) (\<lambda>ub.
      case toUpdateFn op of
        None \<Rightarrow> Inl TPanic
      | Some fn \<Rightarrow>
          bindE (capturedUpdate env fn i ub) (\<lambda>(c, key).
            if cqUpdateExpression c = [] then Inl (TError ''update builder produced empty update expression'')
            else bindE (if raw = [] then Inr (cqConditionExpression c, cqExpressionAttributeValues c)
                        else mergeRawConditions (cqConditionExpression c) (cqExpressionAttributeValues c) raw) (\<lambda>(cond, vs).
              bindE (if MetadataHasEncryptedFields (Some md) \<and> vs \<noteq> []
                     then encryptUpdate env md (cqUpdateExpression c) (cqExpressionAttributeNames c) vs n else Inr (vs, n)) (\<lambda>(vs', n').
                Inr (writeOf md key (Some (cqUpdateExpression c)) cond (cqExpressionAttributeNames c) vs', n'))))))))"

section \<open>Execution\<close>

definition buildWriteItem :: "txenv \<Rightarrow> nat \<Rightarrow> transactOperation \<Rightarrow> nat \<Rightarrow> (terror, TransactWriteItem \<times> nat) result" where
  "buildWriteItem env i op n =
     (case toType op of
        OpPut \<Rightarrow> bindE (buildPut env op n) (\<lambda>(w, n'). Inr (TxPut w, n'))
      | OpCreate \<Rightarrow> bindE (buildPut env op n) (\<lambda>(w, n'). Inr (TxPut w, n'))
      | OpUpdate \<Rightarrow> bindE (buildFieldUpdate env op n) (\<lambda>(w, n'). Inr (TxUpdate w, n'))
      | OpUpdateWithBuilder \<Rightarrow> bindE (buildBuilderUpdate env op i n) (\<lambda>(w, n'). Inr (TxUpdate w, n'))
      | OpDelete \<Rightarrow> bindE (buildDelete env op) (\<lambda>w. Inr (TxDelete w, n))
      | OpConditionCheck \<Rightarrow> bindE (buildConditionCheck env op) (\<lambda>w. Inr (TxConditionCheck w, n)))"

fun materializeFrom :: "txenv \<Rightarrow> nat \<Rightarrow> transactOperation list \<Rightarrow> nat \<Rightarrow> (terror, TransactWriteItem list) result" where
  "materializeFrom env i [] n = Inr []"
| "materializeFrom env i (op # ops) n =
     bindE (buildWriteItem env i op n) (\<lambda>(itm, n'). bindE (materializeFrom env (i + 1) ops n') (\<lambda>items. Inr (itm # items)))"

definition materializeOperations :: "txenv \<Rightarrow> txBuilder \<Rightarrow> (terror, TransactWriteItem list) result" where
  "materializeOperations env b = materializeFrom env 0 (tbOperations b) 0"

definition isRetryableReason :: "string \<Rightarrow> bool" where
  "isRetryableReason code = (code \<in> set [''TransactionConflict'', ''ProvisionedThroughputExceeded'', ''ThrottlingError'', ''InternalServerError''])"

definition operationName :: "operationType \<Rightarrow> string" where
  "operationName t = (case t of OpPut \<Rightarrow> ''Put'' | OpCreate \<Rightarrow> ''Create'' | OpUpdate \<Rightarrow> ''Update'' | OpUpdateWithBuilder \<Rightarrow> ''UpdateWithBuilder''
     | OpDelete \<Rightarrow> ''Delete'' | OpConditionCheck \<Rightarrow> ''ConditionCheck'')"

text \<open>The first reason that has a code is reported.\<close>

definition buildTransactionError :: "txenv \<Rightarrow> transactOperation list \<Rightarrow> (string option \<times> string option) list \<Rightarrow> txError \<Rightarrow> terror" where
  "buildTransactionError env ops reasons original =
     (case find (\<lambda>i. fst (reasons ! i) \<noteq> None) [0..<length reasons] of
        None \<Rightarrow> TWrapped ''transaction canceled'' (TSdk original)
      | Some i \<Rightarrow>
          TransactionError i
            (if i < length ops then operationName (toType (ops ! i)) else ''unknown'')
            (if i < length ops then (case toModel (ops ! i) of Some (t, _) \<Rightarrow> txTypeString env t | None \<Rightarrow> ''unknown'') else ''unknown'')
            (case snd (reasons ! i) of None \<Rightarrow> [] | Some m \<Rightarrow> m)
            (if fst (reasons ! i) = Some ''ConditionalCheckFailed'' then TErrConditionFailed else TErrTransactionFailed))"

definition translateError :: "txenv \<Rightarrow> transactOperation list \<Rightarrow> txError \<Rightarrow> bool \<times> terror" where
  "translateError env ops e =
     (case e of
        TransactionCanceled reasons _ \<Rightarrow>
          (list_all (\<lambda>r. case fst r of None \<Rightarrow> True | Some code \<Rightarrow> isRetryableReason code) reasons, buildTransactionError env ops reasons e)
      | OtherTxError _ \<Rightarrow> (False, TSdk e))"

text \<open>The client, which gets the request token and the items: every attempt sends the same request.  \<open>delays\<close> is what is left of the
  schedule, \<open>cancelled\<close> says of which attempts' delays the context ends first.\<close>

type_synonym 'w txClient = "string \<Rightarrow> TransactWriteItem list \<Rightarrow> 'w \<Rightarrow> (txError, unit) result \<times> 'w"

fun txRetry :: "txenv \<Rightarrow> 'w txClient \<Rightarrow> (int \<Rightarrow> bool) \<Rightarrow> transactOperation list \<Rightarrow> string \<Rightarrow> TransactWriteItem list \<Rightarrow> int list \<Rightarrow> 'w \<Rightarrow> (terror, unit) result \<times> 'w" where
  "txRetry env client cancelled ops token items [] w =
     (case client token items w of (Inr _, w') \<Rightarrow> (Inr (), w') | (Inl e, w') \<Rightarrow> (Inl (snd (translateError env ops e)), w'))"
| "txRetry env client cancelled ops token items (d # delays) w =
     (case client token items w of
        (Inr _, w') \<Rightarrow> (Inr (), w')
      | (Inl e, w') \<Rightarrow>
          (case translateError env ops e of (retryable, translated) \<Rightarrow>
             (if \<not> retryable then (Inl translated, w')
              else if cancelled d then (Inl TContextDone, w')
              else txRetry env client cancelled ops token items delays w')))"

text \<open>\<open>conn\<close> is the client of the session, or the error of getting it; \<open>token\<close> is the result of \<open>uuid.NewString\<close>.\<close>

definition txExecute :: "txenv \<Rightarrow> (terror, 'w txClient) result \<Rightarrow> (int \<Rightarrow> bool) \<Rightarrow> string \<Rightarrow> txBuilder \<Rightarrow> 'w \<Rightarrow> (terror, unit) result \<times> txBuilder \<times> 'w" where
  "txExecute env conn cancelled token b w =
     (case tbErr b of
        Some e \<Rightarrow> (Inl e, b, w)
      | None \<Rightarrow>
          (if tbOperations b = [] then (Inl (TError ''transaction has no operations''), b, w)
           else case materializeOperations env b of
             Inl e \<Rightarrow> (Inl e, b, w)
           | Inr items \<Rightarrow>
               (case conn of
                  Inl e \<Rightarrow> (Inl e, b, w)
                | Inr client \<Rightarrow>
                    (case txRetry env client cancelled (tbOperations b) token items retrySchedule w of
                       (Inl e, w') \<Rightarrow> (Inl e, b, w')
                     | (Inr _, w') \<Rightarrow> (Inr (), b \<lparr> tbOperations := [] \<rparr>, w')))))"

section \<open>The builder over its life\<close>

datatype txCall =
    CallPut goany "TransactCondition list"
  | CallCreate goany "TransactCondition list"
  | CallUpdate goany "string list" "TransactCondition list"
  | CallUpdateWithBuilder goany "updateFn option" "TransactCondition list"
  | CallDelete goany "TransactCondition list"
  | CallConditionCheck goany "TransactCondition list"

fun applyCall :: "txenv \<Rightarrow> txCall \<Rightarrow> txBuilder \<Rightarrow> txBuilder" where
  "applyCall env (CallPut m cs) b = txPut env m cs b"
| "applyCall env (CallCreate m cs) b = txCreate env m cs b"
| "applyCall env (CallUpdate m fs cs) b = txUpdate env m fs cs b"
| "applyCall env (CallUpdateWithBuilder m fn cs) b = txUpdateWithBuilder env m fn cs b"
| "applyCall env (CallDelete m cs) b = txDelete env m cs b"
| "applyCall env (CallConditionCheck m cs) b = txConditionCheck env m cs b"

text \<open>The registry is shared: \<open>earlier\<close> are the models registered before the builder is made, and each call comes with the models others
  register between the call before it and itself.\<close>

type_synonym sharedTxCall = "goany list \<times> txCall"

definition applyShared :: "txenv \<Rightarrow> sharedTxCall \<Rightarrow> txBuilder \<Rightarrow> txBuilder" where
  "applyShared env call b = applyCall env (snd call) (b \<lparr> tbRegistry := registerAll (txMethods env) (fst call) (tbRegistry b) \<rparr>)"

definition runCalls :: "txenv \<Rightarrow> goany list \<Rightarrow> sharedTxCall list \<Rightarrow> txBuilder" where
  "runCalls env earlier calls = fold (applyShared env) calls (newTxBuilder (registerAll (txMethods env) earlier NewRegistry))"

text \<open>What a call asks for, and what an operation records.\<close>

fun callRequest :: "txCall \<Rightarrow> operationType \<times> goany \<times> string list \<times> updateFn option \<times> TransactCondition list" where
  "callRequest (CallPut m cs) = (OpPut, m, [], None, cs)"
| "callRequest (CallCreate m cs) = (OpCreate, m, [], None, pkNotExists # cs)"
| "callRequest (CallUpdate m fs cs) = (OpUpdate, m, fs, None, cs)"
| "callRequest (CallUpdateWithBuilder m fn cs) = (OpUpdateWithBuilder, m, [], fn, cs)"
| "callRequest (CallDelete m cs) = (OpDelete, m, [], None, cs)"
| "callRequest (CallConditionCheck m cs) = (OpConditionCheck, m, [], None, cs)"

definition opRequest :: "transactOperation \<Rightarrow> operationType \<times> goany \<times> string list \<times> updateFn option \<times> TransactCondition list" where
  "opRequest op = (toType op, toModel op, toFields op, toUpdateFn op, toConditions op)"

definition opOk :: "transactOperation \<Rightarrow> bool" where
  "opOk op = (wellFormedModel (toMetadata op) \<and> toModel op \<noteq> None
     \<and> (case toType op of
          OpUpdate \<Rightarrow> toFields op \<noteq> []
        | OpUpdateWithBuilder \<Rightarrow> toUpdateFn op \<noteq> None
        | OpConditionCheck \<Rightarrow> toConditions op \<noteq> []
        | OpCreate \<Rightarrow> pkNotExists \<in> set (toConditions op)
        | _ \<Rightarrow> True))"

definition builderInv :: "txenv \<Rightarrow> txBuilder \<Rightarrow> bool" where
  "builderInv env b = (registryInv (txMethods env) (tbRegistry b) \<and> length (tbOperations b) \<le> maxTransactOperations \<and> list_all opOk (tbOperations b))"

lemma recordError_latched: "tbErr b = Some e \<Longrightarrow> recordError e' b = b"
  by (simp add: recordError_def)

lemma applyCall_latched: "tbErr b = Some e \<Longrightarrow> applyCall env call b = b"
  by (cases call) (simp_all add: txPut_def txCreate_def txUpdate_def txUpdateWithBuilder_def txDelete_def txConditionCheck_def
      addOperation_def recordError_latched)

definition stepOk :: "txenv \<Rightarrow> txBuilder \<Rightarrow> txBuilder \<Rightarrow> operationType \<times> goany \<times> string list \<times> updateFn option \<times> TransactCondition list \<Rightarrow> bool" where
  "stepOk env b b' req = (builderInv env b' \<and> (tbErr b' \<noteq> None \<and> tbOperations b' = tbOperations b
     \<or> tbErr b' = None \<and> map opRequest (tbOperations b') = map opRequest (tbOperations b) @ [req]))"

lemma addOperation_step:
  assumes "tbErr b = None" "builderInv env b"
    and "\<And>md. wellFormedModel md \<Longrightarrow> mdl \<noteq> None \<Longrightarrow>
           opOk \<lparr> toModel = mdl, toMetadata = md, toUpdateFn = fn, toFields = fs, toConditions = conds, toType = opType \<rparr>"
  shows "stepOk env b (addOperation env opType mdl fs fn conds b) (opType, mdl, fs, fn, conds)"
proof -
  note reg = Register_inv[of "txMethods env" "tbRegistry b" mdl]
  have wf: "wellFormedModel md" if "GetMetadata mdl r = Inr md" "registryInv (txMethods env) r" for md r
    using that parseMetadata_wf by (fastforce simp: GetMetadata_def registryInv_def split: option.splits)
  show ?thesis
    using assms(1,2) reg
    by (auto simp: stepOk_def addOperation_def builderInv_def recordError_def opRequest_def split: prod.splits sum.splits dest!: wf dest: assms(3))
qed

lemma applyCall_step:
  assumes "tbErr b = None" "builderInv env b"
  shows "stepOk env b (applyCall env call b) (callRequest call)"
proof -
  have err: "stepOk env b (recordError e b) req" for e req
    using assms by (simp add: stepOk_def recordError_def builderInv_def)
  show ?thesis
    by (cases call) (auto simp: txPut_def txCreate_def txUpdate_def txUpdateWithBuilder_def txDelete_def txConditionCheck_def opOk_def
        intro!: addOperation_step[OF assms] err)
qed

lemma applyShared_latched:
  assumes "tbErr b = Some e" "builderInv env b"
  shows "tbErr (applyShared env call b) = Some e \<and> tbOperations (applyShared env call b) = tbOperations b \<and> builderInv env (applyShared env call b)"
  using assms applyCall_latched[of "b \<lparr> tbRegistry := registerAll (txMethods env) (fst call) (tbRegistry b) \<rparr>" e env "snd call"]
  by (simp add: applyShared_def builderInv_def registerAll_inv)

lemma applyShared_step:
  assumes "tbErr b = None" "builderInv env b"
  shows "stepOk env b (applyShared env call b) (callRequest (snd call))"
  using applyCall_step[of "b \<lparr> tbRegistry := registerAll (txMethods env) (fst call) (tbRegistry b) \<rparr>" env "snd call"] assms
  by (simp add: applyShared_def stepOk_def builderInv_def registerAll_inv)

lemma runCalls_snoc: "runCalls env earlier (calls @ [call]) = applyShared env call (runCalls env earlier calls)"
  by (simp add: runCalls_def)

text \<open>The calls up to the first that failed are recorded.\<close>

definition recorded :: "txenv \<Rightarrow> goany list \<Rightarrow> sharedTxCall list \<Rightarrow> bool" where
  "recorded env earlier calls =
     (case tbErr (runCalls env earlier calls) of
        None \<Rightarrow> map opRequest (tbOperations (runCalls env earlier calls)) = map (\<lambda>c. callRequest (snd c)) calls
      | Some e \<Rightarrow> (\<exists>pre call post. calls = pre @ call # post \<and> tbErr (runCalls env earlier pre) = None
          \<and> tbErr (runCalls env earlier (pre @ [call])) = Some e
          \<and> map opRequest (tbOperations (runCalls env earlier calls)) = map (\<lambda>c. callRequest (snd c)) pre))"

lemma recorded_errI:
  assumes "tbErr (runCalls env earlier calls) = Some e" "calls = pre @ call # post" "tbErr (runCalls env earlier pre) = None"
    and "tbErr (runCalls env earlier (pre @ [call])) = Some e"
    and "map opRequest (tbOperations (runCalls env earlier calls)) = map (\<lambda>c. callRequest (snd c)) pre"
  shows "recorded env earlier calls"
  unfolding recorded_def assms(1) option.case using assms(2-5) by blast

lemma runCalls_recorded: "builderInv env (runCalls env earlier calls) \<and> recorded env earlier calls"
proof (induction calls rule: rev_induct)
  case Nil
  then show ?case by (simp add: runCalls_def newTxBuilder_def builderInv_def recorded_def NewRegistry_inv registerAll_inv)
next
  case (snoc call calls)
  let ?b = "runCalls env earlier calls" and ?b' = "runCalls env earlier (calls @ [call])"
  show ?case
  proof (cases "tbErr ?b")
    case None
    note step = applyShared_step[OF None, of env call, folded runCalls_snoc, unfolded stepOk_def]
    have same: "map opRequest (tbOperations ?b) = map (\<lambda>c. callRequest (snd c)) calls" using snoc None by (simp add: recorded_def)
    show ?thesis
    proof (cases "tbErr ?b'")
      case (Some e)
      then have "map opRequest (tbOperations ?b') = map (\<lambda>c. callRequest (snd c)) calls" using step snoc same by auto
      then have "recorded env earlier (calls @ [call])" using None Some by (intro recorded_errI[of env earlier _ e calls call "[]"]) simp_all
      then show ?thesis using step snoc by simp
    qed (use step snoc same in \<open>auto simp: recorded_def\<close>)
  next
    case (Some e)
    have eq: "tbErr ?b' = Some e" "tbOperations ?b' = tbOperations ?b" "builderInv env ?b'"
      using applyShared_latched[OF Some, of env call] snoc by (simp_all add: runCalls_snoc)
    have "\<exists>pre c post. calls = pre @ c # post \<and> tbErr (runCalls env earlier pre) = None
          \<and> tbErr (runCalls env earlier (pre @ [c])) = Some e \<and> map opRequest (tbOperations ?b) = map (\<lambda>c. callRequest (snd c)) pre"
      using snoc Some by (simp add: recorded_def)
    then obtain pre c post where "calls = pre @ c # post" "tbErr (runCalls env earlier pre) = None"
      "tbErr (runCalls env earlier (pre @ [c])) = Some e" "map opRequest (tbOperations ?b) = map (\<lambda>c. callRequest (snd c)) pre" by blast
    moreover from this have "calls @ [call] = pre @ c # (post @ [call])" by simp
    ultimately have "recorded env earlier (calls @ [call])" using eq(1,2) by (intro recorded_errI[of env earlier _ e pre c "post @ [call]"]) simp_all
    then show ?thesis using eq(3) by blast
  qed
qed

text \<open>C38. Whatever sequence of calls is made on a new transaction builder, over a registry that others fill before and between the calls: it holds at
  most 25 operations, each with the metadata of a well-formed model and with what its kind needs (fields to update, an update callback, a condition to check,
  the guard that the primary key does not exist for a create); without an error they are the calls made, in order; after an error they are the
  calls before the one that failed, and executing the builder returns that first error and sends nothing.  (The documentation promises 100 operations;
  \<open>maxTransactOperations\<close> is 25.)\<close>

theorem tx_builder_ok:
  "length (tbOperations (runCalls env earlier calls)) \<le> 25 \<and> list_all opOk (tbOperations (runCalls env earlier calls)) \<and> recorded env earlier calls
   \<and> (case tbErr (runCalls env earlier calls) of None \<Rightarrow> True
      | Some e \<Rightarrow> txExecute env conn cancelled token (runCalls env earlier calls) w = (Inl e, runCalls env earlier calls, w))"
  using runCalls_recorded[of env earlier calls] by (auto simp: builderInv_def maxTransactOperations_def txExecute_def split: option.split)

text \<open>The limit is reached at 25: one more call records an error, where the documentation allows 100.\<close>

lemma twenty_sixth_refused:
  assumes "tbErr b = None" "length (tbOperations b) = 25"
  shows "\<exists>e. tbErr (addOperation env opType mdl fs fn conds b) = Some e"
  using assms by (auto simp: addOperation_def recordError_def maxTransactOperations_def split: prod.splits sum.splits option.splits)

section \<open>All or nothing\<close>

text \<open>The documented contract of \<open>TransactWriteItems\<close>, on the log of the transactions that took effect: a success has applied all
  items once per request token, a cancelled transaction has applied none, and after any other error (such as a lost response) the
  transaction may or may not have been applied.\<close>

definition appliedOnce :: "string \<Rightarrow> TransactWriteItem list \<Rightarrow> (string \<times> TransactWriteItem list) list \<Rightarrow> (string \<times> TransactWriteItem list) list" where
  "appliedOnce token items txs = (if token \<in> fst ` set txs then txs else txs @ [(token, items)])"

definition transactLaw :: "'w txClient \<Rightarrow> ('w \<Rightarrow> (string \<times> TransactWriteItem list) list) \<Rightarrow> bool" where
  "transactLaw client applied = (\<forall>token items w. case client token items w of (r, w') \<Rightarrow>
     (case r of
        Inr _ \<Rightarrow> applied w' = appliedOnce token items (applied w)
      | Inl (TransactionCanceled _ _) \<Rightarrow> applied w' = applied w
      | Inl (OtherTxError _) \<Rightarrow> applied w' = applied w \<or> applied w' = appliedOnce token items (applied w)))"

text \<open>What a run with retries leaves in the log.\<close>

definition settled :: "('w \<Rightarrow> (string \<times> TransactWriteItem list) list) \<Rightarrow> string \<Rightarrow> TransactWriteItem list \<Rightarrow> 'w \<Rightarrow> (terror, unit) result \<Rightarrow> 'w \<Rightarrow> bool" where
  "settled applied token items w r w' =
     (case r of
        Inr _ \<Rightarrow> applied w' = applied w @ [(token, items)]
      | Inl e \<Rightarrow> applied w' = applied w \<or> (\<exists>m. e = TSdk (OtherTxError m)) \<and> applied w' = applied w @ [(token, items)])"

locale transact_service =
  fixes client :: "'w txClient" and applied :: "'w \<Rightarrow> (string \<times> TransactWriteItem list) list"
  assumes law: "transactLaw client applied"
begin

lemma outcome:
  "client token items w = (Inr u, w') \<Longrightarrow> applied w' = appliedOnce token items (applied w)"
  "client token items w = (Inl (TransactionCanceled rs m), w') \<Longrightarrow> applied w' = applied w"
  "client token items w = (Inl (OtherTxError m), w') \<Longrightarrow> applied w' = applied w \<or> applied w' = appliedOnce token items (applied w)"
  using law unfolding transactLaw_def by (metis (mono_tags, lifting) old.prod.case sum.case txError.case)+

lemma attempt:
  assumes "token \<notin> fst ` set (applied w)" "client token items w = (r, w')"
  shows "case r of
      Inr _ \<Rightarrow> settled applied token items w (Inr ()) w'
    | Inl e \<Rightarrow> settled applied token items w (Inl (snd (translateError env ops e))) w'
        \<and> (fst (translateError env ops e) \<longrightarrow> applied w' = applied w)"
proof (cases r)
  case (Inr u)
  then show ?thesis using assms outcome(1) by (simp add: settled_def appliedOnce_def)
next
  case (Inl e)
  show ?thesis
  proof (cases e)
    case (TransactionCanceled rs m)
    then show ?thesis using assms(2) Inl outcome(2) by (simp add: settled_def)
  next
    case (OtherTxError m)
    then show ?thesis using assms Inl outcome(3)[of token items w m w'] by (auto simp: settled_def translateError_def appliedOnce_def)
  qed
qed

lemma retry_settles:
  "txRetry env client cancelled ops token items delays w = (r, w') \<Longrightarrow> token \<notin> fst ` set (applied w) \<Longrightarrow> settled applied token items w r w'"
proof (induction delays arbitrary: w)
  case Nil
  obtain r1 w1 where c: "client token items w = (r1, w1)" by (cases "client token items w")
  then show ?case using attempt[OF Nil.prems(2) c, of env ops] Nil.prems(1) by (auto split: sum.splits)
next
  case (Cons d delays)
  obtain r1 w1 where c: "client token items w = (r1, w1)" by (cases "client token items w")
  note one = attempt[OF Cons.prems(2) c, of env ops]
  show ?case
  proof (cases r1)
    case (Inr u)
    then show ?thesis using one c Cons.prems(1) by auto
  next
    case (Inl e)
    obtain retryable translated where t: "translateError env ops e = (retryable, translated)" by (cases "translateError env ops e")
    show ?thesis
    proof (cases "retryable \<and> \<not> cancelled d")
      case True
      then have run: "txRetry env client cancelled ops token items delays w1 = (r, w')" using Cons.prems(1) c Inl t by simp
      have same: "applied w1 = applied w" using one Inl t True by simp
      then have "settled applied token items w1 r w'" using Cons.IH[OF run] Cons.prems(2) by simp
      then show ?thesis unfolding settled_def same .
    next
      case False
      then show ?thesis using one c Inl t Cons.prems(1) by (auto simp: settled_def split: if_splits)
    qed
  qed
qed

end

lemma materializeFrom_all:
  "materializeFrom env i ops n = Inr items \<Longrightarrow>
     length items = length ops \<and> (\<forall>j < length ops. \<exists>m m'. buildWriteItem env (i + j) (ops ! j) m = Inr (items ! j, m'))"
proof (induction ops arbitrary: i n items)
  case (Cons op ops)
  obtain itm n' rest where s: "buildWriteItem env i op n = Inr (itm, n')" "materializeFrom env (i + 1) ops n' = Inr rest" "items = itm # rest"
    using Cons.prems by (auto simp: bindE_eq_Inr)
  show ?case
  proof (intro conjI allI impI)
    fix j assume "j < length (op # ops)"
    then show "\<exists>m m'. buildWriteItem env (i + j) ((op # ops) ! j) m = Inr (items ! j, m')"
      using s Cons.IH[OF s(2)] by (cases j) auto
  qed (use s Cons.IH[OF s(2)] in simp)
qed simp

text \<open>The items of a request are those of the operations, in order.\<close>

definition itemsOf :: "txenv \<Rightarrow> transactOperation list \<Rightarrow> TransactWriteItem list \<Rightarrow> bool" where
  "itemsOf env ops items = (length items = length ops \<and> (\<forall>j < length ops. \<exists>m m'. buildWriteItem env j (ops ! j) m = Inr (items ! j, m')))"

text \<open>C39. All or nothing. Let the service apply the items of a request together, once per request token. If \<open>Execute\<close> succeeds, exactly
  one transaction was applied, with one item for each operation in order, however many attempts were needed, and the builder is empty
  again. If it fails, the builder is unchanged and nothing was applied, except that the error of the SDK other than a cancellation is
  passed on when the transaction may have been applied as a whole.\<close>

theorem transaction_atomic:
  assumes "transactLaw client applied" "txExecute env (Inr client) cancelled token b w = (r, b', w')" "token \<notin> fst ` set (applied w)"
  shows "case r of
      Inr _ \<Rightarrow> b' = b \<lparr> tbOperations := [] \<rparr> \<and> (\<exists>items. itemsOf env (tbOperations b) items \<and> applied w' = applied w @ [(token, items)])
    | Inl e \<Rightarrow> b' = b \<and> (applied w' = applied w
        \<or> (\<exists>m items. e = TSdk (OtherTxError m) \<and> itemsOf env (tbOperations b) items \<and> applied w' = applied w @ [(token, items)]))"
proof -
  note svc = transact_service.intro[OF assms(1)]
  show ?thesis
  proof (cases "tbErr b = None \<and> tbOperations b \<noteq> [] \<and> isOk (materializeOperations env b)")
    case False
    then show ?thesis using assms(2) by (auto simp: txExecute_def isOk_iff split: option.splits if_splits sum.splits)
  next
    case True
    then obtain items where items: "materializeOperations env b = Inr items" by (auto simp: isOk_iff)
    then have of_ops: "itemsOf env (tbOperations b) items"
      using materializeFrom_all[of env 0 "tbOperations b" 0 items] by (simp add: materializeOperations_def itemsOf_def)
    obtain r1 w1 where run: "txRetry env client cancelled (tbOperations b) token items retrySchedule w = (r1, w1)"
      by (cases "txRetry env client cancelled (tbOperations b) token items retrySchedule w")
    have "r = r1 \<and> w' = w1 \<and> b' = (if isOk r1 then b \<lparr> tbOperations := [] \<rparr> else b)"
      using assms(2) True items run by (cases r1) (auto simp: txExecute_def isOk_def)
    then show ?thesis
      using transact_service.retry_settles[OF svc run assms(3), unfolded settled_def] of_ops
      by (auto simp: isOk_def split: sum.splits)
  qed
qed

text \<open>A service that answers from a script (an error for the next request, or none) and logs what it applies.\<close>

definition scriptedClient :: "(txError option list \<times> (string \<times> TransactWriteItem list) list) txClient" where
  "scriptedClient token items = (\<lambda>(script, txs).
     case script of
       Some e # rest \<Rightarrow> (Inl e, rest, txs)
     | None # rest \<Rightarrow> (Inr (), rest, appliedOnce token items txs)
     | [] \<Rightarrow> (Inr (), [], appliedOnce token items txs))"

lemma scriptedClient_law: "transactLaw scriptedClient snd"
  by (auto simp: transactLaw_def scriptedClient_def split: list.splits option.splits txError.splits)

interpretation scripted: transact_service scriptedClient snd
  by unfold_locales (rule scriptedClient_law)

definition demoTxEnv :: txenv where
  "demoTxEnv = \<lparr> txMethods = noMethods, txConverter = asAttributeValueConverter (\<lambda>_. ''conversion failed'') plainConverter, txConv = plainEnv,
     txKeyARN = ''arn'', txService = toyService, txTypeString = typeName \<rparr>"

definition demoUser :: goany where
  "demoUser = Some (exampleUser, VStruct [VString ''u1'', VString ''u1@example.org'', VString ''s3cret''])"

definition demoCalls :: "sharedTxCall list" where
  "demoCalls = [([], CallDelete demoUser []), ([], CallPut demoUser [])]"

definition conflict :: txError where
  "conflict = TransactionCanceled [(Some ''TransactionConflict'', None)] ''canceled''"


theorem transaction_atomic_witness:
  "\<exists>items. itemsOf demoTxEnv (tbOperations (runCalls demoTxEnv [] demoCalls)) items \<and> length items = 2
     \<and> snd (snd (snd (txExecute demoTxEnv (Inr scriptedClient) (\<lambda>_. False) ''token'' (runCalls demoTxEnv [] demoCalls) ([Some conflict], []))))
       = [(''token'', items)]"
proof -
  let ?run = "txExecute demoTxEnv (Inr scriptedClient) (\<lambda>_. False) ''token'' (runCalls demoTxEnv [] demoCalls) ([Some conflict], [])"
  have ok: "fst ?run = Inr ()" by code_simp
  have two: "length (tbOperations (runCalls demoTxEnv [] demoCalls)) = 2" by code_simp
  have run: "?run = (fst ?run, fst (snd ?run), snd (snd ?run))" by simp
  show ?thesis using transaction_atomic[OF scriptedClient_law run] ok two by (auto simp: itemsOf_def)
qed

section \<open>Encrypted fields of a put\<close>

text \<open>What becomes of the attribute of a field: an encrypted one is replaced by an envelope of its plain value.\<close>

definition sealedAs :: "txenv \<Rightarrow> FieldMetadata \<Rightarrow> attrval option \<Rightarrow> attrval option \<Rightarrow> bool" where
  "sealedAs env fm before after =
     (case before of
        None \<Rightarrow> after = None
      | Some v \<Rightarrow> (if IsEncrypted fm then \<exists>sealed. after = Some sealed \<and> envelopeFor (Some (txService env)) (DBName fm) v sealed
                  else after = Some v))"

lemma encryptField_Inr:
  assumes "encryptField env fm (itm, n) = Inr (itm', n')"
  shows "sealedAs env fm (map_of itm (DBName fm)) (map_of itm' (DBName fm)) \<and> (\<forall>a. a \<noteq> DBName fm \<longrightarrow> map_of itm' a = map_of itm a)
     \<and> fst ` set itm' = fst ` set itm"
proof (cases "IsEncrypted fm \<and> map_of itm (DBName fm) \<noteq> None")
  case False
  then show ?thesis using assms by (auto simp: encryptField_def sealedAs_def split: option.splits if_splits)
next
  case True
  then obtain av where av: "map_of itm (DBName fm) = Some av" by blast
  then obtain enc where "EncryptAttributeValue n (Some (txService env)) (DBName fm) av = Inr enc" "itm' = AList.update (DBName fm) enc itm"
    using assms True by (auto simp: encryptField_def bindE_eq_Inr mapErr_eq_Inr)
  moreover have "DBName fm \<in> fst ` set itm" using map_of_SomeD[OF av] by force
  ultimately show ?thesis using True av by (auto simp: sealedAs_def envelopeFor_def)
qed

lemma encryptFields_sealed:
  assumes "foldE (\<lambda>(_, fm). encryptField env fm) fs (itm, n) = Inr (itm', n')" "distinct (map (\<lambda>p. DBName (snd p)) fs)"
  shows "(\<forall>p \<in> set fs. sealedAs env (snd p) (map_of itm (DBName (snd p))) (map_of itm' (DBName (snd p))))
     \<and> (\<forall>a. a \<notin> (\<lambda>p. DBName (snd p)) ` set fs \<longrightarrow> map_of itm' a = map_of itm a) \<and> fst ` set itm' = fst ` set itm"
  using assms
proof (induction fs arbitrary: itm n)
  case (Cons p fs)
  obtain name fm where p: "p = (name, fm)" by (cases p)
  obtain itm1 n1 where one: "encryptField env fm (itm, n) = Inr (itm1, n1)"
      "foldE (\<lambda>(_, fm). encryptField env fm) fs (itm1, n1) = Inr (itm', n')"
    using Cons.prems(1) p by (auto split: sum.splits)
  note first = encryptField_Inr[OF one(1)]
  note rest = Cons.IH[OF one(2)]
  have "DBName fm \<notin> (\<lambda>p. DBName (snd p)) ` set fs" using Cons.prems(2) p by auto
  then have other: "DBName (snd q) \<noteq> DBName fm" if "q \<in> set fs" for q using that by (metis (no_types, lifting) image_eqI)
  have "sealedAs env (snd q) (map_of itm (DBName (snd q))) (map_of itm' (DBName (snd q)))" if "q \<in> set fs" for q
    using first rest Cons.prems(2) other[OF that] that by auto
  then show ?case using first rest Cons.prems(2) p by auto
qed simp

text \<open>C40. In the item of a put or create of a transaction, every encrypted field that is present is replaced by an envelope the
  encryption service made of its plain value for that attribute; the other attributes are those of the plain item, none is added or
  dropped; and a model with an encrypted field is only written when a key is configured. (The attribute names of the model are distinct.)\<close>

theorem put_fields_sealed:
  assumes "buildPut env op n = Inr (w, n')" "distinct (map (\<lambda>p. DBName (snd p)) (Fields (toMetadata op)))"
  shows "\<exists>itm. marshalPlainItem env (toModel op) (toMetadata op) = Inr itm \<and> fst ` set (twAttributes w) = fst ` set itm
     \<and> list_all (\<lambda>p. sealedAs env (snd p) (map_of itm (DBName (snd p))) (map_of (twAttributes w) (DBName (snd p)))) (Fields (toMetadata op))
     \<and> (list_ex (\<lambda>p. IsEncrypted (snd p)) (Fields (toMetadata op)) \<longrightarrow> txKeyARN env \<noteq> [])"
proof -
  let ?md = "toMetadata op"
  obtain itm where itm: "failClosed env ?md = Inr ()" "marshalPlainItem env (toModel op) ?md = Inr itm"
      "encryptItemIfNeeded env ?md itm n = Inr (twAttributes w, n')"
    using assms(1) by (auto simp: buildPut_def txMarshalItem_def bindE_eq_Inr mapErr_eq_Inr writeOf_def split: prod.splits)
  have key: "txKeyARN env \<noteq> []" if "list_ex (\<lambda>p. IsEncrypted (snd p)) (Fields ?md)"
    using itm(1) that by (auto simp: failClosed_def FailClosedIfEncryptedWithoutKMSKeyARN_def MetadataHasEncryptedFields_def isEncryptedField_def
        list_ex_iff mapErr_eq_Inr Let_def split: if_splits)
  show ?thesis
  proof (cases "\<not> MetadataHasEncryptedFields (Some ?md) \<or> itm = []")
    case True
    then have same: "twAttributes w = itm" using itm(3) by (simp add: encryptItemIfNeeded_def)
    have "sealedAs env (snd p) (map_of itm a) (map_of itm a)" if "p \<in> set (Fields ?md)" for p a
      using True that by (auto simp: sealedAs_def MetadataHasEncryptedFields_def isEncryptedField_def list_ex_iff split: option.split)
    then show ?thesis using itm(2) key same by (auto simp: list_all_iff)
  next
    case False
    then have "foldE (\<lambda>(_, fm). encryptField env fm) (Fields ?md) (itm, n) = Inr (twAttributes w, n')"
      using itm(3) by (simp add: encryptItemIfNeeded_def)
    from encryptFields_sealed[OF this assms(2)] show ?thesis using itm(2) key by (auto simp: list_all_iff)
  qed
qed

definition demoField :: "string \<Rightarrow> string \<Rightarrow> nat \<Rightarrow> bool \<Rightarrow> FieldMetadata" where
  "demoField name attr i enc = \<lparr> fmType = TString, IndexInfo = [], Tags = [], DBName = attr, fmName = name, IndexPath = [i], fmIndex = i,
     IsPK = (i = 0), IsEncrypted = enc, IsVersion = False, IsTTL = False, IsCreatedAt = False, IsUpdatedAt = False, IsSet = False,
     OmitEmpty = False, IsSK = False \<rparr>"

definition demoPut :: transactOperation where
  "demoPut = \<lparr> toModel = demoUser,
     toMetadata = (newMetadata exampleUser ''users'' CamelCase)
       \<lparr> Fields := [(''ID'', demoField ''ID'' ''id'' 0 False), (''Secret'', demoField ''Secret'' ''secret'' 2 True)] \<rparr>,
     toUpdateFn = None, toFields = [], toConditions = [], toType = OpPut \<rparr>"

lemma demoPut_ok: "isOk (buildPut demoTxEnv demoPut 0)"
  by code_simp

lemma demoPut_plain:
  "marshalPlainItem demoTxEnv (toModel demoPut) (toMetadata demoPut) = Inr [(''id'', AVS ''u1''), (''secret'', AVS ''s3cret'')]"
  by code_simp

theorem put_fields_sealed_witness:
  "\<exists>sealed. map_of (twAttributes (fst (projr (buildPut demoTxEnv demoPut 0)))) ''secret'' = Some sealed
     \<and> envelopeFor (Some toyService) ''secret'' (AVS ''s3cret'') sealed
     \<and> map_of (twAttributes (fst (projr (buildPut demoTxEnv demoPut 0)))) ''id'' = Some (AVS ''u1'')"
proof -
  let ?r = "projr (buildPut demoTxEnv demoPut 0)"
  have run: "buildPut demoTxEnv demoPut 0 = Inr (fst ?r, snd ?r)" using demoPut_ok by (auto simp: isOk_iff)
  have d: "distinct (map (\<lambda>p. DBName (snd p)) (Fields (toMetadata demoPut)))" by (simp add: demoPut_def demoField_def)
  show ?thesis using put_fields_sealed[OF run d] by (simp add: demoPut_plain) (auto simp: demoPut_def demoField_def sealedAs_def demoTxEnv_def)
qed

section \<open>Corners\<close>

text \<open>DynamoDB reports the code \<open>None\<close> for the items of a cancelled transaction that were not at fault.  The code takes it for the
  reason: a conflict on a later item is not retried, and the failed condition of a later item is reported as an unspecific failure of
  the first operation.\<close>

theorem none_code_masks_reason:
  "fst (translateError env ops (TransactionCanceled [(Some ''None'', None), (Some ''TransactionConflict'', None)] t)) = False"
  "snd (translateError env (op # ops) (TransactionCanceled [(Some ''None'', None), (Some ''ConditionalCheckFailed'', Some m)] t))
     = TransactionError 0 (operationName (toType op)) (case toModel op of Some (ty, _) \<Rightarrow> txTypeString env ty | None \<Rightarrow> ''unknown'') [] TErrTransactionFailed"
  by (simp_all add: translateError_def isRetryableReason_def buildTransactionError_def upt_rec)

text \<open>A cancellation without any code is retried.\<close>

theorem unexplained_cancellation_retried:
  "list_all (\<lambda>r. fst r = None) reasons \<Longrightarrow> fst (translateError env ops (TransactionCanceled reasons t))"
  by (simp add: translateError_def list_all_iff)

text \<open>A field promoted from an embedded struct has its index within that struct; the transaction reads it in the outer one, here the name
  instead of the promoted key.\<close>

theorem embedded_key_misread:
  "modelField (Some (TStruct ''User'' [SField ''Name'' True False [] [] TString, SField ''Base'' True True [] [] (TStruct ''Base'' [SField ''ID'' True False ''pk'' [] TString])],
       VStruct [VString ''Ann'', VStruct [VString ''u1'']])) ((demoField ''ID'' ''id'' 0 False) \<lparr> IndexPath := [1, 0] \<rparr>)
     = Some (TString, VString ''Ann'')"
  by (simp add: modelField_def structValue_def demoField_def structFields_def kindOf_def)

end
