(* ===== verification/LegacyTransaction.thy ===== *)
theory LegacyTransaction
  imports Transaction
begin

text \<open>
  The older \<open>Transaction\<close> of \<open>pkg/transaction/transaction.go\<close>: each call builds its request at once and appends it to the writes or
  reads, \<open>Commit\<close> sends the writes, then the reads, and \<open>Rollback\<close> forgets them.  The registry is only read.  The client's errors are the
  text that \<open>Error()\<close> gives; \<open>now\<close> is the reading of the clock.
\<close>

section \<open>State\<close>

text \<open>A read is a table and a key; a nil map of results is \<open>None\<close>.\<close>

record legacyTx =
  ltWrites :: "TransactWriteItem list"
  ltReads :: "(string \<times> item) list"
  ltResults :: "(string \<times> item) list option"

definition NewTransaction :: legacyTx where
  "NewTransaction = \<lparr> ltWrites = [], ltReads = [], ltResults = Some [] \<rparr>"

definition ltMetadata :: "goany \<Rightarrow> Registry \<Rightarrow> (terror, Metadata) result" where
  "ltMetadata mdl r = mapErr (\<lambda>e. TWrapped ''failed to get model metadata'' (TReg e)) (GetMetadata mdl r)"

definition addWrite :: "TransactWriteItem \<Rightarrow> legacyTx \<Rightarrow> legacyTx" where
  "addWrite wi tx = tx \<lparr> ltWrites := ltWrites tx @ [wi] \<rparr>"

section \<open>Building writes\<close>

definition partitionKeyName :: "Metadata \<Rightarrow> (terror, string) result" where
  "partitionKeyName md = (case PartitionKey (keySchema md) of None \<Rightarrow> Inl TPanic | Some pk \<Rightarrow> Inr (DBName pk))"

definition createWrite :: "txenv \<Rightarrow> Registry \<Rightarrow> goany \<Rightarrow> nat \<Rightarrow> (terror, TransactWriteItem \<times> nat) result" where
  "createWrite env r mdl n =
     bindE (ltMetadata mdl r) (\<lambda>md.
     bindE (mapErr (TWrapped ''failed to marshal item'') (txMarshalItem env mdl md n)) (\<lambda>(itm, n').
     bindE (partitionKeyName md) (\<lambda>pk.
       Inr (TxPut (writeOf md itm None ''attribute_not_exists(#pk)'' [(''#pk'', pk)] []), n'))))"

text \<open>The update expression and the maps it refers to.\<close>

record updateParts =
  upExpression :: string
  upNames :: "(string \<times> string) list"
  upValues :: item

definition fieldAt :: "goany \<Rightarrow> FieldMetadata \<Rightarrow> (terror, gtype \<times> gval) result" where
  "fieldAt mdl fm =
     (case structValue mdl of
        None \<Rightarrow> Inl TPanic
      | Some tv \<Rightarrow> (case fieldByIndex (IndexPath fm) (fst tv) (snd tv) of None \<Rightarrow> Inl TPanic | Some fv \<Rightarrow> Inr fv))"

definition assignField :: "txenv \<Rightarrow> goany \<Rightarrow> string \<times> FieldMetadata \<Rightarrow> updateParts \<times> nat \<Rightarrow> (terror, updateParts \<times> nat) result" where
  "assignField env mdl = (\<lambda>(fieldName, fm) (up, updateCount).
     if IsPK fm \<or> IsSK fm then Inr (up, updateCount)
     else bindE (fieldAt mdl fm) (\<lambda>fv.
       if OmitEmpty fm \<and> IsEmpty (snd fv) then Inr (up, updateCount)
       else let attrName = ''#f'' @ showNat updateCount; attrValue = '':v'' @ showNat updateCount in
         bindE (mapErr (TWrapped (''failed to convert field '' @ fieldName)) (txToAttributeValue env fv)) (\<lambda>av.
           Inr (\<lparr> upExpression = upExpression up @ (if updateCount > 0 then '', '' else []) @ attrName @ '' = '' @ attrValue,
                  upNames = AList.update attrName (DBName fm) (upNames up), upValues = AList.update attrValue av (upValues up) \<rparr>, updateCount + 1))))"

definition ltBuildUpdateExpression :: "txenv \<Rightarrow> goany \<Rightarrow> Metadata \<Rightarrow> (terror, updateParts) result" where
  "ltBuildUpdateExpression env mdl md =
     bindE (foldE (assignField env mdl) (Fields md) (\<lparr> upExpression = ''SET '', upNames = [], upValues = [] \<rparr>, 0)) (\<lambda>(up, _). Inr up)"

definition int64Value :: "txenv \<Rightarrow> string \<Rightarrow> int \<Rightarrow> (terror, attrval) result" where
  "int64Value env what i = mapErr (\<lambda>e. TWrapped (''failed to convert '' @ what @ '' version'') (TConv e)) (ToAttributeValue (txConverter env) (Some (TInt Int64, VInt i)))"

text \<open>The condition on the current version and the parts with the increment; \<open>Value.Int\<close> panics for a version field that is not a
  signed integer, and the increment wraps.\<close>

definition applyVersionUpdate :: "txenv \<Rightarrow> goany \<Rightarrow> Metadata \<Rightarrow> updateParts \<Rightarrow> (terror, string \<times> updateParts) result" where
  "applyVersionUpdate env mdl md up =
     (case VersionField md of
        None \<Rightarrow> Inr ([], up)
      | Some vf \<Rightarrow>
          bindE (fieldAt mdl vf) (\<lambda>fv.
            if goIsZero (snd fv) then Inr ([], up)
            else case snd fv of
              VInt current \<Rightarrow>
                bindE (int64Value env ''current'' current) (\<lambda>av.
                bindE (int64Value env ''new'' (wrapInt 64 (current + 1))) (\<lambda>newAv.
                  Inr (''#ver = :currentVer'',
                       \<lparr> upExpression = upExpression up @ '', #ver = :newVer'', upNames = AList.update ''#ver'' (DBName vf) (upNames up),
                         upValues = AList.update '':newVer'' newAv (AList.update '':currentVer'' av (upValues up)) \<rparr>)))
            | _ \<Rightarrow> Inl TPanic))"

text \<open>Whether the model has a value for the attribute: the loop stops at the first field with that name that is not empty.\<close>

fun updatedAtSet :: "goany \<Rightarrow> string \<Rightarrow> (string \<times> FieldMetadata) list \<Rightarrow> (terror, bool) result" where
  "updatedAtSet mdl db [] = Inr False"
| "updatedAtSet mdl db (p # fs) =
     (if DBName (snd p) \<noteq> db then updatedAtSet mdl db fs
      else bindE (fieldAt mdl (snd p)) (\<lambda>fv. if \<not> IsEmpty (snd fv) then Inr True else updatedAtSet mdl db fs))"

definition applyUpdatedAtUpdate :: "txenv \<Rightarrow> string \<Rightarrow> goany \<Rightarrow> Metadata \<Rightarrow> updateParts \<Rightarrow> (terror, updateParts) result" where
  "applyUpdatedAtUpdate env now mdl md up =
     (case UpdatedAtField md of
        None \<Rightarrow> Inr up
      | Some uf \<Rightarrow>
          bindE (updatedAtSet mdl (DBName uf) (Fields md)) (\<lambda>present.
            if present then Inr up
            else bindE (mapErr (\<lambda>e. TWrapped ''failed to convert updated_at timestamp'' (TConv e)) (ToAttributeValue (txConverter env) (Some (TTime, VTime now)))) (\<lambda>av.
              Inr \<lparr> upExpression = upExpression up @ '', #upd = :updTime'', upNames = AList.update ''#upd'' (DBName uf) (upNames up),
                    upValues = AList.update '':updTime'' av (upValues up) \<rparr>)))"

definition updateWrite :: "txenv \<Rightarrow> string \<Rightarrow> Registry \<Rightarrow> goany \<Rightarrow> nat \<Rightarrow> (terror, TransactWriteItem \<times> nat) result" where
  "updateWrite env now r mdl n =
     bindE (ltMetadata mdl r) (\<lambda>md.
     bindE (failClosed env md) (\<lambda>_.
     bindE (failedKey (extractPrimaryKey env mdl md)) (\<lambda>key.
     bindE (ltBuildUpdateExpression env mdl md) (\<lambda>up.
     bindE (applyVersionUpdate env mdl md up) (\<lambda>(cond, up1).
     bindE (applyUpdatedAtUpdate env now mdl md up1) (\<lambda>up2.
     bindE (if MetadataHasEncryptedFields (Some md) \<and> upValues up2 \<noteq> []
            then (case EncryptUpdateExpressionValues (Some (txService env)) (Some md) (upExpression up2) (upNames up2) (upValues up2, n) of
                    (Inl e, _) \<Rightarrow> Inl (TEnc e) | (Inr _, vs) \<Rightarrow> Inr vs)
            else Inr (upValues up2, n)) (\<lambda>(vs, n').
       Inr (TxUpdate (writeOf md key (Some (upExpression up2)) cond (upNames up2) vs), n'))))))))"

definition deleteWrite :: "txenv \<Rightarrow> Registry \<Rightarrow> goany \<Rightarrow> (terror, TransactWriteItem) result" where
  "deleteWrite env r mdl =
     bindE (ltMetadata mdl r) (\<lambda>md.
     bindE (failedKey (extractPrimaryKey env mdl md)) (\<lambda>key.
       case VersionField md of
         None \<Rightarrow> Inr (TxDelete (writeOf md key None [] [] []))
       | Some vf \<Rightarrow>
           (case modelField mdl vf of
              None \<Rightarrow> Inl TPanic
            | Some fv \<Rightarrow>
                (if goIsZero (snd fv) then Inr (TxDelete (writeOf md key None [] [] []))
                 else bindE (mapErr (TWrapped ''failed to convert version for delete condition'') (txToAttributeValue env fv)) (\<lambda>av.
                   Inr (TxDelete (writeOf md key None ''#ver = :ver'' [(''#ver'', DBName vf)] [('':ver'', av)])))))))"

section \<open>The calls\<close>

text \<open>A call that fails leaves the transaction as it was.\<close>

definition ltCreate :: "txenv \<Rightarrow> Registry \<Rightarrow> goany \<Rightarrow> nat \<Rightarrow> legacyTx \<Rightarrow> (terror, nat) result \<times> legacyTx" where
  "ltCreate env r mdl n tx = (case createWrite env r mdl n of Inl e \<Rightarrow> (Inl e, tx) | Inr (wi, n') \<Rightarrow> (Inr n', addWrite wi tx))"

definition ltUpdate :: "txenv \<Rightarrow> string \<Rightarrow> Registry \<Rightarrow> goany \<Rightarrow> nat \<Rightarrow> legacyTx \<Rightarrow> (terror, nat) result \<times> legacyTx" where
  "ltUpdate env now r mdl n tx = (case updateWrite env now r mdl n of Inl e \<Rightarrow> (Inl e, tx) | Inr (wi, n') \<Rightarrow> (Inr n', addWrite wi tx))"

definition ltDelete :: "txenv \<Rightarrow> Registry \<Rightarrow> goany \<Rightarrow> legacyTx \<Rightarrow> (terror, unit) result \<times> legacyTx" where
  "ltDelete env r mdl tx = (case deleteWrite env r mdl of Inl e \<Rightarrow> (Inl e, tx) | Inr wi \<Rightarrow> (Inr (), addWrite wi tx))"

definition ltGet :: "txenv \<Rightarrow> Registry \<Rightarrow> goany \<Rightarrow> legacyTx \<Rightarrow> (terror, unit) result \<times> legacyTx" where
  "ltGet env r mdl tx =
     (case bindE (ltMetadata mdl r) (\<lambda>md. bindE (failedKey (extractPrimaryKey env mdl md)) (\<lambda>key. Inr (TableName md, key))) of
        Inl e \<Rightarrow> (Inl e, tx)
      | Inr rd \<Rightarrow> (Inr (), tx \<lparr> ltReads := ltReads tx @ [rd] \<rparr>))"

definition Rollback :: "legacyTx \<Rightarrow> legacyTx" where
  "Rollback tx = \<lparr> ltWrites = [], ltReads = [], ltResults = None \<rparr>"

section \<open>Commit\<close>

fun txContains :: "string \<Rightarrow> string \<Rightarrow> bool" where
  "txContains [] substr = (substr = [])"
| "txContains (ch # s) substr =
     (length (ch # s) \<ge> length substr \<and> (ch # s = substr \<or> take (length substr) (ch # s) = substr \<or> txContains s substr))"

datatype commitError =
    CommitClient string terror | CommitConditionFailed | CommitCanceled string | CommitValidation string | CommitOther string | CommitPanic

definition handleTransactionError :: "string \<Rightarrow> commitError" where
  "handleTransactionError errStr =
     (if txContains errStr ''ConditionalCheckFailed'' then CommitConditionFailed
      else if txContains errStr ''TransactionCanceled'' then CommitCanceled errStr
      else if txContains errStr ''ValidationException'' then CommitValidation errStr
      else CommitOther errStr)"

text \<open>The client: transactional writes, and reads that answer each key with an item or none.\<close>

record 'w legacyClient =
  lcWrite :: "TransactWriteItem list \<Rightarrow> 'w \<Rightarrow> (string, unit) result \<times> 'w"
  lcGet :: "(string \<times> item) list \<Rightarrow> 'w \<Rightarrow> (string, item option list) result \<times> 'w"

text \<open>The items read are stored under the decimal text of their position; storing into a nil map panics.\<close>

fun storeResults :: "nat \<Rightarrow> nat \<Rightarrow> item option list \<Rightarrow> (string \<times> item) list option \<Rightarrow> (commitError, (string \<times> item) list option) result" where
  "storeResults i n [] res = Inr res"
| "storeResults i n (response # rest) res =
     (case response of
        Some itm \<Rightarrow>
          (if i < n then (case res of None \<Rightarrow> Inl CommitPanic | Some m \<Rightarrow> storeResults (i + 1) n rest (Some (AList.update (showNat i) itm m)))
           else storeResults (i + 1) n rest res)
      | None \<Rightarrow> storeResults (i + 1) n rest res)"

definition commitWrites :: "(terror, 'w legacyClient) result \<Rightarrow> legacyTx \<Rightarrow> 'w \<Rightarrow> (commitError, unit) result \<times> 'w" where
  "commitWrites conn tx w =
     (if ltWrites tx = [] then (Inr (), w)
      else case conn of
        Inl e \<Rightarrow> (Inl (CommitClient ''commit'' e), w)
      | Inr client \<Rightarrow> (case lcWrite client (ltWrites tx) w of (Inl e, w') \<Rightarrow> (Inl (handleTransactionError e), w') | (Inr _, w') \<Rightarrow> (Inr (), w')))"

definition commitReads :: "(terror, 'w legacyClient) result \<Rightarrow> legacyTx \<Rightarrow> 'w \<Rightarrow> (commitError, unit) result \<times> legacyTx \<times> 'w" where
  "commitReads conn tx w =
     (if ltReads tx = [] then (Inr (), tx, w)
      else case conn of
        Inl e \<Rightarrow> (Inl (CommitClient ''reads'' e), tx, w)
      | Inr client \<Rightarrow>
          (case lcGet client (ltReads tx) w of
             (Inl e, w') \<Rightarrow> (Inl (handleTransactionError e), tx, w')
           | (Inr responses, w') \<Rightarrow>
               (case storeResults 0 (length (ltReads tx)) responses (ltResults tx) of
                  Inl e \<Rightarrow> (Inl e, tx, w')
                | Inr res \<Rightarrow> (Inr (), tx \<lparr> ltResults := res \<rparr>, w'))))"

definition Commit :: "(terror, 'w legacyClient) result \<Rightarrow> legacyTx \<Rightarrow> 'w \<Rightarrow> (commitError, unit) result \<times> legacyTx \<times> 'w" where
  "Commit conn tx w =
     (case commitWrites conn tx w of
        (Inl e, w') \<Rightarrow> (Inl e, tx, w')
      | (Inr _, w') \<Rightarrow> commitReads conn tx w')"

section \<open>What the calls guarantee\<close>

lemma txContains_Contains: "txContains s p = Contains s p"
proof (induction s)
  case Nil
  then show ?case by (simp add: Contains_sublist)
next
  case (Cons ch s)
  have "take (length p) (ch # s) = p \<longleftrightarrow> prefix p (ch # s)"
    by (metis append_eq_conv_conj prefix_def append_take_drop_id)
  moreover have "sublist p (ch # s) \<longleftrightarrow> prefix p (ch # s) \<or> sublist p s" by (cases p) (auto simp: sublist_Cons_right)
  moreover have "sublist p (ch # s) \<Longrightarrow> length p \<le> length (ch # s)" by (rule sublist_length_le)
  ultimately show ?case using Cons by (auto simp: Contains_sublist simp del: take.simps)
qed

text \<open>The write of an update whose model has a version in memory is conditional on that version being the stored one.\<close>

lemma applyUpdatedAt_keeps:
  assumes "applyUpdatedAtUpdate env now mdl md up = Inr up'" "k \<noteq> ''#upd''" "v \<noteq> '':updTime''"
  shows "map_of (upNames up') k = map_of (upNames up) k \<and> map_of (upValues up') v = map_of (upValues up) v"
  using assms by (auto simp: applyUpdatedAtUpdate_def bindE_eq_Inr split: option.splits if_splits)

lemma updateWrite_checks_version:
  assumes "updateWrite env now r mdl n = Inr (wi, n')" "GetMetadata mdl r = Inr md" "\<not> MetadataHasEncryptedFields (Some md)"
    and "VersionField md = Some vf" "fieldAt mdl vf = Inr (t, VInt i)" "i \<noteq> 0"
  shows "\<exists>w av. wi = TxUpdate w \<and> twCondition w = Some ''#ver = :currentVer'' \<and> map_of (twNames w) ''#ver'' = Some (DBName vf)
     \<and> ToAttributeValue (txConverter env) (Some (TInt Int64, VInt i)) = Inr av \<and> map_of (twValues w) '':currentVer'' = Some av"
proof -
  obtain key up cond up1 up2 where s: "applyVersionUpdate env mdl md up = Inr (cond, up1)" "applyUpdatedAtUpdate env now mdl md up1 = Inr up2"
      "wi = TxUpdate (writeOf md key (Some (upExpression up2)) cond (upNames up2) (upValues up2))"
    using assms(1-3) by (auto simp: updateWrite_def ltMetadata_def bindE_eq_Inr mapErr_eq_Inr)
  have "cond = ''#ver = :currentVer'' \<and> map_of (upNames up1) ''#ver'' = Some (DBName vf)
     \<and> (\<exists>av. ToAttributeValue (txConverter env) (Some (TInt Int64, VInt i)) = Inr av \<and> map_of (upValues up1) '':currentVer'' = Some av)"
    using s(1) assms(4-6) by (auto simp: applyVersionUpdate_def int64Value_def bindE_eq_Inr mapErr_eq_Inr)
  then show ?thesis using s(3) applyUpdatedAt_keeps[OF s(2), of "''#ver''" "'':currentVer''"] by (auto simp: writeOf_def nonEmpty_def)
qed

text \<open>The items read are found under their positions.\<close>

lemma storeResults_at:
  assumes "storeResults i n responses (Some m) = Inr res" "\<forall>j \<ge> i. map_of m (showNat j) = None"
  shows "\<exists>m'. res = Some m' \<and> (\<forall>j < length responses. i + j < n \<longrightarrow> map_of m' (showNat (i + j)) = responses ! j)
     \<and> (\<forall>k. k \<notin> showNat ` {i..<i + length responses} \<longrightarrow> map_of m' k = map_of m k)"
  using assms
proof (induction responses arbitrary: i m)
  case (Cons response rest)
  define m1 where "m1 = (case response of Some itm \<Rightarrow> if i < n then AList.update (showNat i) itm m else m | None \<Rightarrow> m)"
  have run: "storeResults (i + 1) n rest (Some m1) = Inr res" using Cons.prems(1) by (auto simp: m1_def split: option.splits if_splits)
  have fresh: "\<forall>j \<ge> i + 1. map_of m1 (showNat j) = None" using Cons.prems(2) by (auto simp: m1_def showNat_inj split: option.splits)
  note Cons.IH[OF run fresh]
  then obtain m' where m': "res = Some m'" "\<forall>j < length rest. i + 1 + j < n \<longrightarrow> map_of m' (showNat (i + 1 + j)) = rest ! j"
      "\<forall>k. k \<notin> showNat ` {i + 1..<i + 1 + length rest} \<longrightarrow> map_of m' k = map_of m1 k" by blast
  have "showNat i \<notin> showNat ` {i + 1..<i + 1 + length rest}" by (auto simp: showNat_inj)
  then have here: "map_of m' (showNat i) = map_of m1 (showNat i)" using m'(3) by blast
  have "map_of m1 (showNat i) = response" if "i < n" using that Cons.prems(2) by (auto simp: m1_def split: option.splits)
  then have "\<forall>j < length (response # rest). i + j < n \<longrightarrow> map_of m' (showNat (i + j)) = (response # rest) ! j"
    using m'(2) here by (auto simp: nth_Cons split: nat.splits)
  moreover have "map_of m' k = map_of m k" if "k \<notin> showNat ` {i..<i + length (response # rest)}" for k
  proof -
    have "k \<noteq> showNat i" "k \<notin> showNat ` {i + 1..<i + 1 + length rest}" using that by auto
    then show ?thesis using m'(3) by (auto simp: m1_def split: option.splits)
  qed
  ultimately show ?case using m'(1) by blast
qed auto

section \<open>Corners\<close>

text \<open>The version is one of the fields: an update assigns its attribute twice, under two names, which DynamoDB rejects as overlapping
  paths.\<close>

definition demoDoc :: goany where
  "demoDoc = Some (TStruct ''Doc'' [SField ''ID'' True False [] [] TString, SField ''Ver'' True False [] [] (TInt Int64)], VStruct [VString ''d1'', VInt 3])"

definition demoDocMetadata :: Metadata where
  "demoDocMetadata =
     (let ver = (demoField ''Ver'' ''ver'' 1 False) \<lparr> fmType := TInt Int64, IsVersion := True \<rparr> in
      (newMetadata exampleUser ''docs'' CamelCase) \<lparr> Fields := [(''ID'', demoField ''ID'' ''id'' 0 False), (''Ver'', ver)], VersionField := Some ver \<rparr>)"

theorem version_assigned_twice:
  "bindE (ltBuildUpdateExpression demoTxEnv demoDoc demoDocMetadata) (applyVersionUpdate demoTxEnv demoDoc demoDocMetadata)
     = Inr (''#ver = :currentVer'',
         \<lparr> upExpression = ''SET #f0 = :v0, #ver = :newVer'', upNames = [(''#f0'', ''ver''), (''#ver'', ''ver'')],
           upValues = [('':v0'', AVN ''3''), ('':currentVer'', AVN ''3''), ('':newVer'', AVN ''4'')] \<rparr>)"
  by code_simp

text \<open>A commit keeps the writes, so that a second one sends them again.\<close>

theorem commit_keeps_writes: "Commit conn tx w = (r, tx', w') \<Longrightarrow> ltWrites tx' = ltWrites tx \<and> ltReads tx' = ltReads tx"
  by (auto simp: Commit_def commitReads_def split: prod.splits sum.splits if_splits)

text \<open>After a rollback the map of results is nil: a transaction that is used again panics when a read finds an item.\<close>

theorem rolled_back_reads_panic:
  assumes "lcGet client [rd] w = (Inr [Some itm], w')"
  shows "fst (Commit (Inr client) ((Rollback tx) \<lparr> ltReads := [rd] \<rparr>) w) = Inl CommitPanic"
  using assms by (simp add: Commit_def commitWrites_def commitReads_def Rollback_def)

end
