(* ===== verification/Lease.thy ===== *)
theory Lease
  imports GoReflect
begin

text \<open>
  \<open>pkg/lease\<close>: a lease (lock) in a DynamoDB table, taken with a conditional put, refreshed with a conditional
  update and given up with a conditional delete.  The DynamoDB client is a parameter: \<open>cl\<close> answers a request on a
  table and returns the table after it; \<open>serves\<close> states what DynamoDB documents of conditional writes (a write is applied
  exactly when its condition holds, atomically), and leaves room for transport errors after which the write may or may not have
  happened.  The clock reading and the token a call uses are its arguments (\<open>m.now()\<close>, \<open>m.token()\<close>); times are
  nanoseconds, and \<open>ttlBuffer.Seconds()\<close>, a 64-bit float that the code cuts to an integer, is an integer division by a second, which differs
  only where that float is rounded up to the next second.  The main results: of all leases handed out for a key, at most one is unexpired at any time, whatever the
  interleaving of contenders, failures and TTL deletions, provided that they share one clock and that a contender takes a refresh of unknown
  outcome for done where it asked for less time; and an expired lease can be taken over.
\<close>

section \<open>Requests\<close>

record Key =
  PK :: string
  SK :: string

record Lease =
  leaseKey :: Key
  Token :: string
  ExpiresAt :: int

datatype request =
    PutItem string item string "(string \<times> string) list" item
    \<comment> \<open>table, item, condition, names, values\<close>
  | UpdateItem string item string string "(string \<times> string) list" item
    \<comment> \<open>table, key, update, condition, names, values\<close>
  | DeleteItem string item string "(string \<times> string) list" item

datatype dberror = ConditionalCheckFailed | OtherError

datatype leaseerror = LeaseError string | LeaseHeldError Key | LeaseNotOwnedError Key

definition IsLeaseHeld :: "leaseerror \<Rightarrow> bool" where
  "IsLeaseHeld err = (case err of LeaseHeldError _ \<Rightarrow> True | _ \<Rightarrow> False)"

definition IsLeaseNotOwned :: "leaseerror \<Rightarrow> bool" where
  "IsLeaseNotOwned err = (case err of LeaseNotOwnedError _ \<Rightarrow> True | _ \<Rightarrow> False)"

text \<open>A table: its items by the values of their two key attributes.\<close>

type_synonym table = "attrval \<times> attrval \<Rightarrow> item option"

type_synonym client = "request \<Rightarrow> table \<Rightarrow> (dberror, unit) result \<times> table"

section \<open>The manager\<close>

record Manager =
  tableName :: string
  pkAttr :: string
  skAttr :: string
  tokenAttr :: string
  expiresAtAttr :: string
  ttlAttr :: string
  lockSortKey :: string
  ttlBuffer :: int
  includeTTL :: bool
  validateInput :: bool

datatype leaseOption =
    WithTTLBuffer int
  | WithLockSortKey string
  | WithKeyAttributeNames string string
  | WithLeaseAttributeNames string string string
  | WithIncludeTTL bool
  | WithValidateInput bool

definition orElse :: "string \<Rightarrow> string \<Rightarrow> string" where
  "orElse new old = (if new \<noteq> [] then new else old)"

fun applyOption :: "leaseOption \<Rightarrow> Manager \<Rightarrow> Manager" where
  "applyOption (WithTTLBuffer b) m = m \<lparr> ttlBuffer := b \<rparr>"
| "applyOption (WithLockSortKey k) m = m \<lparr> lockSortKey := orElse k (lockSortKey m) \<rparr>"
| "applyOption (WithKeyAttributeNames p s) m = m \<lparr> pkAttr := orElse p (pkAttr m), skAttr := orElse s (skAttr m) \<rparr>"
| "applyOption (WithLeaseAttributeNames t e l) m =
     m \<lparr> tokenAttr := orElse t (tokenAttr m), expiresAtAttr := orElse e (expiresAtAttr m), ttlAttr := orElse l (ttlAttr m) \<rparr>"
| "applyOption (WithIncludeTTL b) m = m \<lparr> includeTTL := b \<rparr>"
| "applyOption (WithValidateInput b) m = m \<lparr> validateInput := b \<rparr>"

definition NewManager :: "client option \<Rightarrow> string \<Rightarrow> leaseOption list \<Rightarrow> (leaseerror, Manager) result" where
  "NewManager cl name opts =
     (if cl = None then Inl (LeaseError ''client is required'')
      else if name = [] then Inl (LeaseError ''tableName is required'')
      else Inr (fold applyOption opts
        \<lparr> tableName = name, pkAttr = ''pk'', skAttr = ''sk'', tokenAttr = ''lease_token'', expiresAtAttr = ''lease_expires_at'',
          ttlAttr = ''ttl'', lockSortKey = ''LOCK'', ttlBuffer = 3600 * 10 ^ 9, includeTTL = True, validateInput = True \<rparr>))"

text \<open>\<open>Time.Unix()\<close> of a time in nanoseconds.\<close>

definition unix :: "int \<Rightarrow> int" where
  "unix t = t div 10 ^ 9"

definition keyItem :: "Manager \<Rightarrow> Key \<Rightarrow> item" where
  "keyItem m key = AList.update (skAttr m) (AVS (SK key)) (AList.update (pkAttr m) (AVS (PK key)) [])"

definition writesTTL :: "Manager \<Rightarrow> bool" where
  "writesTTL m = (includeTTL m \<and> ttlBuffer m > 0 \<and> ttlAttr m \<noteq> [])"

definition ttlOf :: "Manager \<Rightarrow> int \<Rightarrow> int" where
  "ttlOf m expiresAt = expiresAt + ttlBuffer m div 10 ^ 9"

definition leaseItem :: "Manager \<Rightarrow> Key \<Rightarrow> string \<Rightarrow> int \<Rightarrow> item" where
  "leaseItem m key token expiresAt =
     (let item = AList.update (expiresAtAttr m) (AVN (showInt expiresAt))
                   (AList.update (tokenAttr m) (AVS token) (keyItem m key))
      in if writesTTL m then AList.update (ttlAttr m) (AVN (showInt (ttlOf m expiresAt))) item else item)"

definition acquireCondition :: string where
  "acquireCondition = ''attribute_not_exists(#pk) OR #lease_expires_at <= :now''"

definition refreshCondition :: string where
  "refreshCondition = ''#lease_token = :token AND #lease_expires_at > :now''"

definition releaseCondition :: string where
  "releaseCondition = ''#lease_token = :token''"

definition acquireRequest :: "Manager \<Rightarrow> Key \<Rightarrow> int \<Rightarrow> int \<Rightarrow> string \<Rightarrow> request" where
  "acquireRequest m key now expiresAt token =
     PutItem (tableName m) (leaseItem m key token expiresAt) acquireCondition
       [(''#pk'', pkAttr m), (''#lease_expires_at'', expiresAtAttr m)]
       [('':now'', AVN (showInt (unix now)))]"

definition AcquireKey :: "Manager option \<Rightarrow> client option \<Rightarrow> Key \<Rightarrow> int \<Rightarrow> int \<Rightarrow> string \<Rightarrow> table \<Rightarrow> (leaseerror, Lease) result \<times> table" where
  "AcquireKey mo co key duration now token tbl =
     (case mo of None \<Rightarrow> (Inl (LeaseError ''nil receiver''), tbl)
      | Some m \<Rightarrow> (case co of None \<Rightarrow> (Inl (LeaseError ''client is nil''), tbl)
         | Some cl \<Rightarrow>
            (if validateInput m \<and> (PK key = [] \<or> SK key = []) then (Inl (LeaseError ''PK and SK are required''), tbl)
             else if validateInput m \<and> duration \<le> 0 then (Inl (LeaseError ''duration must be > 0''), tbl)
             else let expiresAt = unix (now + duration) in
             (case cl (acquireRequest m key now expiresAt token) tbl of
                (Inl ConditionalCheckFailed, tbl') \<Rightarrow> (Inl (LeaseHeldError key), tbl')
              | (Inl OtherError, tbl') \<Rightarrow> (Inl (LeaseError ''acquire failed''), tbl')
              | (Inr _, tbl') \<Rightarrow> (Inr \<lparr> leaseKey = key, Token = token, ExpiresAt = expiresAt \<rparr>, tbl')))))"

definition Acquire :: "Manager option \<Rightarrow> client option \<Rightarrow> string \<Rightarrow> int \<Rightarrow> int \<Rightarrow> string \<Rightarrow> table \<Rightarrow> (leaseerror, Lease) result \<times> table" where
  "Acquire mo co pk duration now token tbl =
     (case mo of None \<Rightarrow> (Inl (LeaseError ''nil receiver''), tbl)
      | Some m \<Rightarrow> AcquireKey mo co \<lparr> PK = pk, SK = lockSortKey m \<rparr> duration now token tbl)"

definition refreshUpdate :: "Manager \<Rightarrow> string" where
  "refreshUpdate m = ''SET #lease_expires_at = :exp'' @ (if writesTTL m then '', #ttl = :ttl'' else [])"

definition refreshRequest :: "Manager \<Rightarrow> Lease \<Rightarrow> int \<Rightarrow> int \<Rightarrow> request" where
  "refreshRequest m lease now expiresAt =
     UpdateItem (tableName m) (keyItem m (leaseKey lease)) (refreshUpdate m) refreshCondition
       ([(''#lease_token'', tokenAttr m), (''#lease_expires_at'', expiresAtAttr m)] @ (if writesTTL m then [(''#ttl'', ttlAttr m)] else []))
       ([('':token'', AVS (Token lease)), ('':now'', AVN (showInt (unix now))), ('':exp'', AVN (showInt expiresAt))]
        @ (if writesTTL m then [('':ttl'', AVN (showInt (ttlOf m expiresAt)))] else []))"

definition Refresh :: "Manager option \<Rightarrow> client option \<Rightarrow> Lease \<Rightarrow> int \<Rightarrow> int \<Rightarrow> table \<Rightarrow> (leaseerror, Lease) result \<times> table" where
  "Refresh mo co lease duration now tbl =
     (case mo of None \<Rightarrow> (Inl (LeaseError ''nil receiver''), tbl)
      | Some m \<Rightarrow> (case co of None \<Rightarrow> (Inl (LeaseError ''client is nil''), tbl)
         | Some cl \<Rightarrow>
            (if validateInput m \<and> (PK (leaseKey lease) = [] \<or> SK (leaseKey lease) = []) then (Inl (LeaseError ''PK and SK are required''), tbl)
             else if validateInput m \<and> Token lease = [] then (Inl (LeaseError ''token is required''), tbl)
             else if validateInput m \<and> duration \<le> 0 then (Inl (LeaseError ''duration must be > 0''), tbl)
             else let expiresAt = unix (now + duration) in
             (case cl (refreshRequest m lease now expiresAt) tbl of
                (Inl ConditionalCheckFailed, tbl') \<Rightarrow> (Inl (LeaseNotOwnedError (leaseKey lease)), tbl')
              | (Inl OtherError, tbl') \<Rightarrow> (Inl (LeaseError ''refresh failed''), tbl')
              | (Inr _, tbl') \<Rightarrow> (Inr (lease \<lparr> ExpiresAt := expiresAt \<rparr>), tbl')))))"

definition releaseRequest :: "Manager \<Rightarrow> Lease \<Rightarrow> request" where
  "releaseRequest m lease =
     DeleteItem (tableName m) (keyItem m (leaseKey lease)) releaseCondition
       [(''#lease_token'', tokenAttr m)] [('':token'', AVS (Token lease))]"

definition Release :: "Manager option \<Rightarrow> client option \<Rightarrow> Lease \<Rightarrow> table \<Rightarrow> (leaseerror, unit) result \<times> table" where
  "Release mo co lease tbl =
     (case mo of None \<Rightarrow> (Inl (LeaseError ''nil receiver''), tbl)
      | Some m \<Rightarrow> (case co of None \<Rightarrow> (Inl (LeaseError ''client is nil''), tbl)
         | Some cl \<Rightarrow>
            (if validateInput m \<and> (PK (leaseKey lease) = [] \<or> SK (leaseKey lease) = []) then (Inl (LeaseError ''PK and SK are required''), tbl)
             else if validateInput m \<and> Token lease = [] then (Inl (LeaseError ''token is required''), tbl)
             else (case cl (releaseRequest m lease) tbl of
                (Inl ConditionalCheckFailed, tbl') \<Rightarrow> (Inr (), tbl')
              | (Inl OtherError, tbl') \<Rightarrow> (Inl (LeaseError ''release failed''), tbl')
              | (Inr _, tbl') \<Rightarrow> (Inr (), tbl')))))"

section \<open>Conditional writes\<close>

text \<open>The value of an integer number text, of any size.\<close>

definition numText :: "string \<Rightarrow> int option" where
  "numText s = (case s of c # t \<Rightarrow> if c = CHR ''-'' then map_option (\<lambda>n. - int n) (parseDigits t) else map_option int (parseDigits s) | [] \<Rightarrow> None)"

text \<open>An attribute named by a placeholder, and an expression value.\<close>

definition attrRef :: "(string \<times> string) list \<Rightarrow> item option \<Rightarrow> string \<Rightarrow> attrval option" where
  "attrRef names it n = (case it of None \<Rightarrow> None | Some i \<Rightarrow> (case map_of names n of None \<Rightarrow> None | Some a \<Rightarrow> map_of i a))"

definition numCmp :: "(int \<Rightarrow> int \<Rightarrow> bool) \<Rightarrow> attrval option \<Rightarrow> attrval option \<Rightarrow> bool" where
  "numCmp r a b = (case (a, b) of
     (Some (AVN x), Some (AVN y)) \<Rightarrow> (case (numText x, numText y) of (Some i, Some j) \<Rightarrow> r i j | _ \<Rightarrow> False)
   | _ \<Rightarrow> False)"

text \<open>DynamoDB's meaning of the three conditions on the stored item.\<close>

definition condHolds :: "string \<Rightarrow> (string \<times> string) list \<Rightarrow> item \<Rightarrow> item option \<Rightarrow> bool" where
  "condHolds cond names vals it =
     (if cond = acquireCondition then attrRef names it ''#pk'' = None
        \<or> numCmp (\<le>) (attrRef names it ''#lease_expires_at'') (map_of vals '':now'')
      else if cond = refreshCondition then attrRef names it ''#lease_token'' \<noteq> None \<and> attrRef names it ''#lease_token'' = map_of vals '':token''
        \<and> numCmp (>) (attrRef names it ''#lease_expires_at'') (map_of vals '':now'')
      else if cond = releaseCondition then attrRef names it ''#lease_token'' \<noteq> None \<and> attrRef names it ''#lease_token'' = map_of vals '':token''
      else False)"

definition setRef :: "(string \<times> string) list \<Rightarrow> item \<Rightarrow> string \<Rightarrow> string \<Rightarrow> item \<Rightarrow> item" where
  "setRef names vals n v it = AList.update (the (map_of names n)) (the (map_of vals v)) it"

definition applyUpdateText :: "string \<Rightarrow> (string \<times> string) list \<Rightarrow> item \<Rightarrow> item \<Rightarrow> item" where
  "applyUpdateText upd names vals it =
     (let it1 = setRef names vals ''#lease_expires_at'' '':exp'' it in
      if upd = ''SET #lease_expires_at = :exp, #ttl = :ttl'' then setRef names vals ''#ttl'' '':ttl'' it1 else it1)"

text \<open>The key of the item a request is about, for key attributes \<open>p\<close> and \<open>s\<close>.\<close>

definition keyOfItem :: "string \<Rightarrow> string \<Rightarrow> item \<Rightarrow> attrval \<times> attrval" where
  "keyOfItem p s it = (the (map_of it p), the (map_of it s))"

definition requestHolds :: "string \<Rightarrow> string \<Rightarrow> request \<Rightarrow> table \<Rightarrow> bool" where
  "requestHolds p s r tbl = (case r of
     PutItem t it c n v \<Rightarrow> condHolds c n v (tbl (keyOfItem p s it))
   | UpdateItem t k u c n v \<Rightarrow> condHolds c n v (tbl (keyOfItem p s k))
   | DeleteItem t k c n v \<Rightarrow> condHolds c n v (tbl (keyOfItem p s k)))"

definition requestApply :: "string \<Rightarrow> string \<Rightarrow> request \<Rightarrow> table \<Rightarrow> table" where
  "requestApply p s r tbl = (case r of
     PutItem t it c n v \<Rightarrow> tbl(keyOfItem p s it := Some it)
   | UpdateItem t k u c n v \<Rightarrow> tbl(keyOfItem p s k := Some (applyUpdateText u n v (case tbl (keyOfItem p s k) of None \<Rightarrow> k | Some it \<Rightarrow> it)))
   | DeleteItem t k c n v \<Rightarrow> tbl(keyOfItem p s k := None))"

text \<open>What DynamoDB promises: success means the condition held and the write was applied; a failed check means that it did not
  hold and nothing changed; after any other error the write was applied, if its condition held, or was not.\<close>

definition serves :: "string \<Rightarrow> string \<Rightarrow> client \<Rightarrow> bool" where
  "serves p s cl = (\<forall>r tbl. case cl r tbl of
     (Inr _, tbl') \<Rightarrow> requestHolds p s r tbl \<and> tbl' = requestApply p s r tbl
   | (Inl ConditionalCheckFailed, tbl') \<Rightarrow> \<not> requestHolds p s r tbl \<and> tbl' = tbl
   | (Inl OtherError, tbl') \<Rightarrow> tbl' = tbl \<or> requestHolds p s r tbl \<and> tbl' = requestApply p s r tbl)"

section \<open>The lock a table stands for\<close>

text \<open>The abstract state: who holds a key, and until when.\<close>

type_synonym lock = "Key \<Rightarrow> (string \<times> int) option"

definition tblKey :: "Key \<Rightarrow> attrval \<times> attrval" where
  "tblKey k = (AVS (PK k), AVS (SK k))"

definition absLock :: "Manager \<Rightarrow> table \<Rightarrow> lock" where
  "absLock m tbl k = (case tbl (tblKey k) of None \<Rightarrow> None
     | Some it \<Rightarrow> (case (map_of it (tokenAttr m), map_of it (expiresAtAttr m)) of
         (Some (AVS tk), Some (AVN x)) \<Rightarrow> map_option (\<lambda>e. (tk, e)) (numText x)
       | _ \<Rightarrow> None))"

definition free :: "(string \<times> int) option \<Rightarrow> int \<Rightarrow> bool" where
  "free l now = (case l of None \<Rightarrow> True | Some (tk, e) \<Rightarrow> e \<le> unix now)"

definition ownedBy :: "string \<Rightarrow> (string \<times> int) option \<Rightarrow> bool" where
  "ownedBy tk l = (case l of None \<Rightarrow> False | Some (tk', e) \<Rightarrow> tk' = tk)"

definition distinctAttrs :: "Manager \<Rightarrow> bool" where
  "distinctAttrs m = distinct [pkAttr m, skAttr m, tokenAttr m, expiresAtAttr m, ttlAttr m]"

text \<open>Items as the manager writes them.\<close>

definition itemOkFor :: "Manager \<Rightarrow> item \<Rightarrow> bool" where
  "itemOkFor m it = (map_of it (pkAttr m) \<noteq> None
     \<and> (\<exists>tk e. map_of it (tokenAttr m) = Some (AVS tk) \<and> map_of it (expiresAtAttr m) = Some (AVN (showInt e))
          \<and> (\<forall>x t. map_of it (ttlAttr m) = Some (AVN x) \<longrightarrow> numText x = Some t \<longrightarrow> e \<le> t)))"

definition tableOk :: "Manager \<Rightarrow> table \<Rightarrow> bool" where
  "tableOk m tbl = (\<forall>k it. tbl (tblKey k) = Some it \<longrightarrow> itemOkFor m it)"

lemma tblKey_inj [simp]: "tblKey k = tblKey k' \<longleftrightarrow> k = k'"
  by (auto simp: tblKey_def intro: Key.equality)

lemma numText_showInt [simp]: "numText (showInt i) = Some i"
proof (cases "i < 0")
  case False
  obtain c t where s: "showNat (nat i) = c # t" by (cases "showNat (nat i)") auto
  then have "isDigit c" by (rule showNat_hd_digit)
  then have "c \<noteq> CHR ''-''" by (auto simp: isDigit_def)
  moreover have "parseDigits (c # t) = Some (nat i)" using parseDigits_showNat[of "nat i"] s by simp
  ultimately show ?thesis using False s by (simp add: numText_def showInt_def)
qed (simp add: numText_def showInt_def)

lemma showInt_inj [simp]: "showInt i = showInt j \<longleftrightarrow> i = j"
  by (metis numText_showInt option.inject)

lemma keyOf_key: "distinctAttrs m \<Longrightarrow> keyOfItem (pkAttr m) (skAttr m) (keyItem m k) = tblKey k"
  by (auto simp: keyOfItem_def keyItem_def tblKey_def distinctAttrs_def)

lemma leaseItem_attrs:
  assumes "distinctAttrs m"
  shows "map_of (leaseItem m k tk e) (pkAttr m) = Some (AVS (PK k))" "map_of (leaseItem m k tk e) (skAttr m) = Some (AVS (SK k))"
    "map_of (leaseItem m k tk e) (tokenAttr m) = Some (AVS tk)" "map_of (leaseItem m k tk e) (expiresAtAttr m) = Some (AVN (showInt e))"
    "map_of (leaseItem m k tk e) (ttlAttr m) = (if writesTTL m then Some (AVN (showInt (ttlOf m e))) else None)"
  using assms by (auto simp: leaseItem_def keyItem_def distinctAttrs_def Let_def)

lemma keyOf_leaseItem: "distinctAttrs m \<Longrightarrow> keyOfItem (pkAttr m) (skAttr m) (leaseItem m k tk e) = tblKey k"
  by (simp add: keyOfItem_def leaseItem_attrs tblKey_def)

lemma ttlOf_ge: "writesTTL m \<Longrightarrow> e \<le> ttlOf m e"
  by (simp add: ttlOf_def writesTTL_def pos_imp_zdiv_nonneg_iff)

lemma leaseItem_ok: "distinctAttrs m \<Longrightarrow> itemOkFor m (leaseItem m k tk e)"
  using ttlOf_ge[of m e] by (auto simp: itemOkFor_def leaseItem_attrs)

lemma conditions_distinct [simp]: "refreshCondition \<noteq> acquireCondition" "releaseCondition \<noteq> acquireCondition" "releaseCondition \<noteq> refreshCondition"
  by (simp_all add: refreshCondition_def acquireCondition_def releaseCondition_def)

lemma absLock_item:
  assumes "tableOk m tbl"
  shows "(tbl (tblKey k) = None \<and> absLock m tbl k = None) \<or>
    (\<exists>it tk e. tbl (tblKey k) = Some it \<and> itemOkFor m it \<and> map_of it (tokenAttr m) = Some (AVS tk)
       \<and> map_of it (expiresAtAttr m) = Some (AVN (showInt e)) \<and> absLock m tbl k = Some (tk, e))"
proof (cases "tbl (tblKey k)")
  case (Some it)
  then have ok: "itemOkFor m it" using assms by (auto simp: tableOk_def)
  then obtain tk e where "map_of it (tokenAttr m) = Some (AVS tk)" "map_of it (expiresAtAttr m) = Some (AVN (showInt e))"
    by (auto simp: itemOkFor_def)
  then show ?thesis using Some ok by (simp add: absLock_def)
qed (simp add: absLock_def)

abbreviation holdsOn :: "Manager \<Rightarrow> request \<Rightarrow> table \<Rightarrow> bool" where
  "holdsOn m r tbl \<equiv> requestHolds (pkAttr m) (skAttr m) r tbl"

abbreviation applyOn :: "Manager \<Rightarrow> request \<Rightarrow> table \<Rightarrow> table" where
  "applyOn m r tbl \<equiv> requestApply (pkAttr m) (skAttr m) r tbl"

lemma acquire_holds:
  assumes "distinctAttrs m" "tableOk m tbl"
  shows "holdsOn m (acquireRequest m k now e tk) tbl \<longleftrightarrow> free (absLock m tbl k) now"
  using absLock_item[OF assms(2), of k] assms(1)
  by (auto simp: requestHolds_def acquireRequest_def condHolds_def keyOf_leaseItem attrRef_def numCmp_def free_def itemOkFor_def)

lemma acquire_apply:
  assumes "distinctAttrs m" "tableOk m tbl" "tbl' = applyOn m (acquireRequest m k now e tk) tbl"
  shows "absLock m tbl' = (absLock m tbl)(k \<mapsto> (tk, e)) \<and> tableOk m tbl'"
proof -
  have t: "tbl' = tbl(tblKey k := Some (leaseItem m k tk e))"
    using assms(1,3) by (simp add: requestApply_def acquireRequest_def keyOf_leaseItem)
  have "absLock m tbl' k' = ((absLock m tbl)(k \<mapsto> (tk, e))) k'" for k'
    using assms(1) by (simp add: t absLock_def leaseItem_attrs)
  moreover have "tableOk m tbl'" using assms(2) leaseItem_ok[OF assms(1)] by (auto simp: t tableOk_def)
  ultimately show ?thesis by blast
qed

lemma refresh_holds:
  assumes "distinctAttrs m" "tableOk m tbl"
  shows "holdsOn m (refreshRequest m l now e) tbl \<longleftrightarrow> ownedBy (Token l) (absLock m tbl (leaseKey l)) \<and> \<not> free (absLock m tbl (leaseKey l)) now"
  using absLock_item[OF assms(2), of "leaseKey l"] assms(1)
  by (auto simp: requestHolds_def refreshRequest_def condHolds_def keyOf_key attrRef_def numCmp_def free_def ownedBy_def)

lemma refreshed_item:
  assumes "distinctAttrs m" "itemOkFor m it" "map_of it (tokenAttr m) = Some (AVS tk)"
    "refreshRequest m l now e = UpdateItem t k u c n v" "it' = applyUpdateText u n v it"
  shows "map_of it' (tokenAttr m) = Some (AVS tk) \<and> map_of it' (expiresAtAttr m) = Some (AVN (showInt e))
     \<and> map_of it' (pkAttr m) \<noteq> None \<and> map_of it' (ttlAttr m) = (if writesTTL m then Some (AVN (showInt (ttlOf m e))) else map_of it (ttlAttr m))"
proof -
  have r: "u = refreshUpdate m"
    "n = [(''#lease_token'', tokenAttr m), (''#lease_expires_at'', expiresAtAttr m)] @ (if writesTTL m then [(''#ttl'', ttlAttr m)] else [])"
    "v = [('':token'', AVS (Token l)), ('':now'', AVN (showInt (unix now))), ('':exp'', AVN (showInt e))]
        @ (if writesTTL m then [('':ttl'', AVN (showInt (ttlOf m e)))] else [])"
    using assms(4) by (simp_all add: refreshRequest_def)
  show ?thesis using assms(1-3)
    by (cases "writesTTL m") (simp_all add: assms(5) r applyUpdateText_def refreshUpdate_def setRef_def Let_def itemOkFor_def distinctAttrs_def eq_commute[of "ttlAttr m"])
qed

text \<open>Without the TTL option no item has the attribute; with it every write renews it.\<close>

definition ttlConsistent :: "Manager \<Rightarrow> table \<Rightarrow> bool" where
  "ttlConsistent m tbl = (\<forall>k it. tbl (tblKey k) = Some it \<longrightarrow> \<not> writesTTL m \<longrightarrow> map_of it (ttlAttr m) = None)"

lemma acquire_ttl: "distinctAttrs m \<Longrightarrow> ttlConsistent m tbl \<Longrightarrow> ttlConsistent m (applyOn m (acquireRequest m k now e tk) tbl)"
  by (simp add: ttlConsistent_def requestApply_def acquireRequest_def keyOf_leaseItem leaseItem_attrs)

lemma refresh_apply:
  assumes "distinctAttrs m" "tableOk m tbl" "ttlConsistent m tbl" "holdsOn m (refreshRequest m l now e) tbl"
    "tbl' = applyOn m (refreshRequest m l now e) tbl"
  shows "absLock m tbl' = (absLock m tbl)(leaseKey l \<mapsto> (Token l, e)) \<and> tableOk m tbl' \<and> ttlConsistent m tbl'"
proof -
  obtain it e0 where it: "tbl (tblKey (leaseKey l)) = Some it" "itemOkFor m it" "map_of it (tokenAttr m) = Some (AVS (Token l))"
    "absLock m tbl (leaseKey l) = Some (Token l, e0)"
    using absLock_item[OF assms(2), of "leaseKey l"] assms(4) refresh_holds[OF assms(1,2)] by (auto simp: ownedBy_def)
  obtain t k u c n v where r: "refreshRequest m l now e = UpdateItem t k u c n v" "k = keyItem m (leaseKey l)"
    by (simp add: refreshRequest_def)
  let ?it = "applyUpdateText u n v it"
  have tbl': "tbl' = tbl(tblKey (leaseKey l) := Some ?it)"
    using assms(1,5) r it(1) by (simp add: requestApply_def keyOf_key)
  note new = refreshed_item[OF assms(1) it(2,3) r(1) refl]
  have ttl: "\<not> writesTTL m \<Longrightarrow> map_of ?it (ttlAttr m) = None" using new assms(3) it(1) by (auto simp: ttlConsistent_def)
  have "itemOkFor m ?it" using new ttlOf_ge[of m e] ttl by (auto simp: itemOkFor_def split: if_splits)
  then have "tableOk m tbl'" using assms(2) tbl' by (auto simp: tableOk_def)
  moreover have "absLock m tbl' k' = ((absLock m tbl)(leaseKey l \<mapsto> (Token l, e))) k'" for k'
    using new by (simp add: tbl' absLock_def)
  moreover have "ttlConsistent m tbl'" using ttl assms(3) tbl' by (auto simp: ttlConsistent_def)
  ultimately show ?thesis by (auto simp: fun_eq_iff)
qed

lemma release_holds:
  assumes "distinctAttrs m" "tableOk m tbl"
  shows "holdsOn m (releaseRequest m l) tbl \<longleftrightarrow> ownedBy (Token l) (absLock m tbl (leaseKey l))"
  using absLock_item[OF assms(2), of "leaseKey l"] assms(1)
  by (auto simp: requestHolds_def releaseRequest_def condHolds_def keyOf_key attrRef_def ownedBy_def)

lemma release_apply:
  assumes "distinctAttrs m" "tableOk m tbl" "ttlConsistent m tbl" "tbl' = applyOn m (releaseRequest m l) tbl"
  shows "absLock m tbl' = (absLock m tbl)(leaseKey l := None) \<and> tableOk m tbl' \<and> ttlConsistent m tbl'"
proof -
  have t: "tbl' = tbl(tblKey (leaseKey l) := None)" using assms(1,4) by (simp add: requestApply_def releaseRequest_def keyOf_key)
  have "absLock m tbl' k' = ((absLock m tbl)(leaseKey l := None)) k'" for k' by (simp add: t absLock_def)
  then show ?thesis using assms(2,3) by (auto simp: t tableOk_def ttlConsistent_def)
qed

section \<open>Refinement\<close>

text \<open>C19. The lease operations implement an abstract lock.  A successful \<open>AcquireKey\<close> found the key free or expired
  and made the caller its holder until the returned expiry; a held error means that it was neither and nothing changed.  A
  successful \<open>Refresh\<close> found the caller holding an unexpired lease and extended it; a successful \<open>Release\<close> removed the lease if the
  caller held it and nothing otherwise.  After any other error the operation took effect completely or not at all.\<close>

theorem lease_refines_lock:
  assumes "distinctAttrs m" "tableOk m tbl" "ttlConsistent m tbl" "serves (pkAttr m) (skAttr m) cl"
  shows "(case AcquireKey (Some m) (Some cl) k d now tk tbl of
       (Inr l, tbl') \<Rightarrow> l = \<lparr> leaseKey = k, Token = tk, ExpiresAt = unix (now + d) \<rparr> \<and> free (absLock m tbl k) now
          \<and> absLock m tbl' = (absLock m tbl)(k \<mapsto> (tk, ExpiresAt l))
     | (Inl (LeaseHeldError k'), tbl') \<Rightarrow> k' = k \<and> \<not> free (absLock m tbl k) now \<and> tbl' = tbl
     | (Inl e, tbl') \<Rightarrow> tbl' = tbl \<or> free (absLock m tbl k) now \<and> absLock m tbl' = (absLock m tbl)(k \<mapsto> (tk, unix (now + d))))
   \<and> (case Refresh (Some m) (Some cl) l d now tbl of
       (Inr l', tbl') \<Rightarrow> l' = l \<lparr> ExpiresAt := unix (now + d) \<rparr>
          \<and> ownedBy (Token l) (absLock m tbl (leaseKey l)) \<and> \<not> free (absLock m tbl (leaseKey l)) now
          \<and> absLock m tbl' = (absLock m tbl)(leaseKey l \<mapsto> (Token l, ExpiresAt l'))
     | (Inl (LeaseNotOwnedError k'), tbl') \<Rightarrow> k' = leaseKey l \<and> tbl' = tbl
          \<and> \<not> (ownedBy (Token l) (absLock m tbl (leaseKey l)) \<and> \<not> free (absLock m tbl (leaseKey l)) now)
     | (Inl e, tbl') \<Rightarrow> tbl' = tbl \<or> ownedBy (Token l) (absLock m tbl (leaseKey l))
          \<and> absLock m tbl' = (absLock m tbl)(leaseKey l \<mapsto> (Token l, unix (now + d))))
   \<and> (case Release (Some m) (Some cl) l tbl of
       (Inr _, tbl') \<Rightarrow> absLock m tbl' = (if ownedBy (Token l) (absLock m tbl (leaseKey l)) then (absLock m tbl)(leaseKey l := None) else absLock m tbl)
     | (Inl e, tbl') \<Rightarrow> tbl' = tbl \<or> absLock m tbl' = (absLock m tbl)(leaseKey l := None))"
proof -
  have law: "case cl r tbl of
       (Inr _, tbl') \<Rightarrow> holdsOn m r tbl \<and> tbl' = applyOn m r tbl
     | (Inl ConditionalCheckFailed, tbl') \<Rightarrow> \<not> holdsOn m r tbl \<and> tbl' = tbl
     | (Inl OtherError, tbl') \<Rightarrow> tbl' = tbl \<or> holdsOn m r tbl \<and> tbl' = applyOn m r tbl" for r
    using assms(4) by (simp add: serves_def)
  note a = acquire_holds[OF assms(1,2)] and b = refresh_holds[OF assms(1,2)] and c = release_holds[OF assms(1,2)]
  have aa: "absLock m (applyOn m (acquireRequest m k now e tk) tbl) = (absLock m tbl)(k \<mapsto> (tk, e))" for e
    using acquire_apply[OF assms(1,2) refl] by simp
  have bb: "holdsOn m (refreshRequest m l now e) tbl \<Longrightarrow>
      absLock m (applyOn m (refreshRequest m l now e) tbl) = (absLock m tbl)(leaseKey l \<mapsto> (Token l, e))" for e
    using refresh_apply[OF assms(1-3) _ refl] by simp
  have cc: "absLock m (applyOn m (releaseRequest m l) tbl) = (absLock m tbl)(leaseKey l := None)"
    using release_apply[OF assms(1-3) refl] by simp
  show ?thesis
  proof (intro conjI, goal_cases)
    case 1
    show ?case using law[of "acquireRequest m k now (unix (now + d)) tk"]
      by (auto simp: AcquireKey_def Let_def a aa split: prod.splits sum.splits dberror.splits)
  next
    case 2
    show ?case using law[of "refreshRequest m l now (unix (now + d))"] bb[of "unix (now + d)"]
      by (auto simp: Refresh_def Let_def b split: prod.splits sum.splits dberror.splits)
  next
    case 3
    show ?case using law[of "releaseRequest m l"]
      by (auto simp: Release_def c cc split: prod.splits sum.splits dberror.splits)
  qed
qed

section \<open>Mutual exclusion\<close>

lemma serves_cases:
  assumes "serves (pkAttr m) (skAttr m) cl" "cl r tbl = (res, tbl')"
  shows "(tbl' = tbl \<and> (\<exists>e. res = Inl e)) \<or> (holdsOn m r tbl \<and> tbl' = applyOn m r tbl \<and> (res = Inr () \<or> res = Inl OtherError))"
proof -
  have "case cl r tbl of
       (Inr _, tbl') \<Rightarrow> holdsOn m r tbl \<and> tbl' = applyOn m r tbl
     | (Inl ConditionalCheckFailed, tbl') \<Rightarrow> \<not> holdsOn m r tbl \<and> tbl' = tbl
     | (Inl OtherError, tbl') \<Rightarrow> tbl' = tbl \<or> holdsOn m r tbl \<and> tbl' = applyOn m r tbl"
    using assms(1) by (simp add: serves_def)
  then show ?thesis using assms(2) by (cases res) (auto split: dberror.splits)
qed

lemma Refresh_calls:
  assumes "Refresh (Some m) (Some cl) l d now tbl = (res, tbl')"
  shows "(tbl' = tbl \<and> \<not> isOk res) \<or> (\<exists>r1. cl (refreshRequest m l now (unix (now + d))) tbl = (r1, tbl')
     \<and> res = (case r1 of Inr _ \<Rightarrow> Inr (l \<lparr> ExpiresAt := unix (now + d) \<rparr>)
          | Inl ConditionalCheckFailed \<Rightarrow> Inl (LeaseNotOwnedError (leaseKey l)) | Inl OtherError \<Rightarrow> Inl (LeaseError ''refresh failed'')))"
proof -
  obtain r1 t1 where c: "cl (refreshRequest m l now (unix (now + d))) tbl = (r1, t1)" by fastforce
  show ?thesis using assms unfolding Refresh_def option.case Let_def c prod.case
    by (cases r1) (auto split: if_splits dberror.splits)
qed

text \<open>A well-formed table and the effect of one call on it.\<close>

definition leaseTable :: "Manager \<Rightarrow> table \<Rightarrow> bool" where
  "leaseTable m tbl = (tableOk m tbl \<and> ttlConsistent m tbl)"

lemma AcquireKey_outcome:
  assumes "distinctAttrs m" "leaseTable m tbl" "serves (pkAttr m) (skAttr m) cl"
    "AcquireKey (Some m) (Some cl) k d now tk tbl = (res, tbl')"
  shows "(tbl' = tbl \<and> \<not> isOk res) \<or> (free (absLock m tbl k) now \<and> leaseTable m tbl' \<and> absLock m tbl' = (absLock m tbl)(k \<mapsto> (tk, unix (now + d)))
     \<and> (isOk res \<longrightarrow> res = Inr \<lparr> leaseKey = k, Token = tk, ExpiresAt = unix (now + d) \<rparr>))"
proof -
  let ?r = "acquireRequest m k now (unix (now + d)) tk"
  have t: "tableOk m tbl" "ttlConsistent m tbl" using assms(2) by (simp_all add: leaseTable_def)
  obtain r1 t1 where c: "cl ?r tbl = (r1, t1)" by (cases "cl ?r tbl")
  show ?thesis using serves_cases[OF assms(3) c] assms(4) acquire_holds[OF assms(1) t(1)] acquire_apply[OF assms(1) t(1) refl]
      acquire_ttl[OF assms(1) t(2)]
    by (auto simp: AcquireKey_def Let_def c leaseTable_def split: if_splits sum.splits dberror.splits)
qed

lemma Refresh_outcome:
  assumes "distinctAttrs m" "leaseTable m tbl" "serves (pkAttr m) (skAttr m) cl"
    "Refresh (Some m) (Some cl) l d now tbl = (res, tbl')"
  shows "(tbl' = tbl \<and> \<not> isOk res) \<or> (ownedBy (Token l) (absLock m tbl (leaseKey l)) \<and> leaseTable m tbl'
     \<and> absLock m tbl' = (absLock m tbl)(leaseKey l \<mapsto> (Token l, unix (now + d)))
     \<and> (res = Inr (l \<lparr> ExpiresAt := unix (now + d) \<rparr>) \<or> res = Inl (LeaseError ''refresh failed'')))"
proof -
  let ?r = "refreshRequest m l now (unix (now + d))"
  have t: "tableOk m tbl" "ttlConsistent m tbl" using assms(2) by (simp_all add: leaseTable_def)
  from Refresh_calls[OF assms(4)] show ?thesis
  proof
    assume "\<exists>r1. cl ?r tbl = (r1, tbl') \<and> res = (case r1 of Inr _ \<Rightarrow> Inr (l \<lparr> ExpiresAt := unix (now + d) \<rparr>)
          | Inl ConditionalCheckFailed \<Rightarrow> Inl (LeaseNotOwnedError (leaseKey l)) | Inl OtherError \<Rightarrow> Inl (LeaseError ''refresh failed''))"
    then obtain r1 where c: "cl ?r tbl = (r1, tbl')" and r: "res = (case r1 of Inr _ \<Rightarrow> Inr (l \<lparr> ExpiresAt := unix (now + d) \<rparr>)
          | Inl ConditionalCheckFailed \<Rightarrow> Inl (LeaseNotOwnedError (leaseKey l)) | Inl OtherError \<Rightarrow> Inl (LeaseError ''refresh failed''))"
      by blast
    from serves_cases[OF assms(3) c] show ?thesis
    proof
      assume "tbl' = tbl \<and> (\<exists>e. r1 = Inl e)"
      then show ?thesis using r by (auto simp: isOk_def split: dberror.splits)
    next
      assume *: "holdsOn m ?r tbl \<and> tbl' = applyOn m ?r tbl \<and> (r1 = Inr () \<or> r1 = Inl OtherError)"
      then show ?thesis using r refresh_holds[OF assms(1) t(1)] refresh_apply[OF assms(1) t, of l now "unix (now + d)" tbl']
        by (auto simp: leaseTable_def)
    qed
  qed blast
qed

lemma Release_outcome:
  assumes "distinctAttrs m" "leaseTable m tbl" "serves (pkAttr m) (skAttr m) cl" "Release (Some m) (Some cl) l tbl = (res, tbl')"
  shows "tbl' = tbl \<or> (ownedBy (Token l) (absLock m tbl (leaseKey l)) \<and> leaseTable m tbl' \<and> absLock m tbl' = (absLock m tbl)(leaseKey l := None))"
proof -
  let ?r = "releaseRequest m l"
  have t: "tableOk m tbl" "ttlConsistent m tbl" using assms(2) by (simp_all add: leaseTable_def)
  obtain r1 t1 where c: "cl ?r tbl = (r1, t1)" by (cases "cl ?r tbl")
  show ?thesis using serves_cases[OF assms(3) c] assms(4) release_holds[OF assms(1) t(1)] release_apply[OF assms(1) t refl]
    by (auto simp: Release_def c leaseTable_def split: if_splits sum.splits dberror.splits)
qed

text \<open>Any number of contenders with the same manager settings and one clock that all of them read.  \<open>held\<close> has, for each token, the
  lease its contender was handed last and has not given up; contenders act one call at a time in any order, time passes
  between calls, tokens are fresh, and DynamoDB may delete an item whose TTL has passed.  A refresh that fails on the way may have been
  applied: from then on its contender counts on the earlier of its old and the requested expiry.  The code leaves this to the contender, which keeps
  the lease it passed in.\<close>

record lstate =
  ltable :: table
  held :: "string \<Rightarrow> Lease option"
  clock :: int
  used :: "string set"

definition afterRefresh :: "Lease \<Rightarrow> int \<Rightarrow> (leaseerror, Lease) result \<Rightarrow> Lease" where
  "afterRefresh l expiresAt res =
     (case res of
        Inr l' \<Rightarrow> l'
      | Inl e \<Rightarrow> if e = LeaseError ''refresh failed'' then l \<lparr> ExpiresAt := min (ExpiresAt l) expiresAt \<rparr> else l)"

inductive leaseRun :: "Manager \<Rightarrow> lstate \<Rightarrow> bool" for m :: Manager where
  Start: "leaseRun m \<lparr> ltable = (\<lambda>_. None), held = (\<lambda>_. None), clock = t, used = {} \<rparr>"
| AcquireStep: "leaseRun m s \<Longrightarrow> clock s \<le> now \<Longrightarrow> tk \<notin> used s \<Longrightarrow> serves (pkAttr m) (skAttr m) cl
    \<Longrightarrow> AcquireKey (Some m) (Some cl) k d now tk (ltable s) = (res, tbl')
    \<Longrightarrow> leaseRun m \<lparr> ltable = tbl', held = (case res of Inr l \<Rightarrow> (held s)(tk \<mapsto> l) | Inl _ \<Rightarrow> held s),
                     clock = now, used = insert tk (used s) \<rparr>"
| RefreshStep: "leaseRun m s \<Longrightarrow> clock s \<le> now \<Longrightarrow> held s tk = Some l \<Longrightarrow> serves (pkAttr m) (skAttr m) cl
    \<Longrightarrow> Refresh (Some m) (Some cl) l d now (ltable s) = (res, tbl')
    \<Longrightarrow> leaseRun m (s \<lparr> ltable := tbl', held := (held s)(tk \<mapsto> afterRefresh l (unix (now + d)) res), clock := now \<rparr>)"
| ReleaseStep: "leaseRun m s \<Longrightarrow> held s tk = Some l \<Longrightarrow> serves (pkAttr m) (skAttr m) cl
    \<Longrightarrow> Release (Some m) (Some cl) l (ltable s) = (res, tbl')
    \<Longrightarrow> leaseRun m (s \<lparr> ltable := tbl', held := (held s)(tk := None) \<rparr>)"
| TTLStep: "leaseRun m s \<Longrightarrow> clock s \<le> now \<Longrightarrow> ltable s (tblKey k) = Some it \<Longrightarrow> map_of it (ttlAttr m) = Some (AVN x)
    \<Longrightarrow> numText x = Some ttl \<Longrightarrow> ttl < unix now
    \<Longrightarrow> leaseRun m (s \<lparr> ltable := (ltable s)(tblKey k := None), clock := now \<rparr>)"
| TimeStep: "leaseRun m s \<Longrightarrow> clock s \<le> now \<Longrightarrow> leaseRun m (s \<lparr> clock := now \<rparr>)"

text \<open>An unexpired lease is the one in the table.\<close>

definition leaseInv :: "Manager \<Rightarrow> lstate \<Rightarrow> bool" where
  "leaseInv m s = (leaseTable m (ltable s) \<and> (\<forall>tk l. held s tk = Some l \<longrightarrow> Token l = tk \<and> tk \<in> used s
     \<and> (unix (clock s) < ExpiresAt l \<longrightarrow> (\<exists>e. absLock m (ltable s) (leaseKey l) = Some (tk, e) \<and> ExpiresAt l \<le> e))))"

lemma unix_mono: "t \<le> t' \<Longrightarrow> unix t \<le> unix t'"
  by (simp add: unix_def zdiv_mono1)

lemma leaseInv_later: "leaseInv m s \<Longrightarrow> clock s \<le> now \<Longrightarrow> leaseInv m (s \<lparr> clock := now \<rparr>)"
  using unix_mono[of "clock s" now] by (auto simp: leaseInv_def dest: order_le_less_trans)

lemma acquire_inv:
  assumes "leaseInv m s" "clock s \<le> now" "tk \<notin> used s"
    and "(tbl' = ltable s \<and> \<not> isOk res) \<or> (free (absLock m (ltable s) k) now \<and> leaseTable m tbl'
       \<and> absLock m tbl' = (absLock m (ltable s))(k \<mapsto> (tk, unix (now + d)))
       \<and> (isOk res \<longrightarrow> res = Inr \<lparr> leaseKey = k, Token = tk, ExpiresAt = unix (now + d) \<rparr>))"
  shows "leaseInv m \<lparr> ltable = tbl', held = (case res of Inr l \<Rightarrow> (held s)(tk \<mapsto> l) | Inl _ \<Rightarrow> held s), clock = now, used = insert tk (used s) \<rparr>"
proof -
  have inv: "leaseInv m (s \<lparr> clock := now \<rparr>)" using leaseInv_later assms(1,2) by blast
  show ?thesis
  proof (cases "isOk res \<or> tbl' \<noteq> ltable s")
    case False
    then show ?thesis using inv by (auto simp: leaseInv_def isOk_def split: sum.splits)
  next
    case True
    then have fr: "free (absLock m (ltable s) k) now" and t: "leaseTable m tbl'" "absLock m tbl' = (absLock m (ltable s))(k \<mapsto> (tk, unix (now + d)))"
      and r: "isOk res \<longrightarrow> res = Inr \<lparr> leaseKey = k, Token = tk, ExpiresAt = unix (now + d) \<rparr>"
      using assms(4) by auto
    have old: "Token l = tk' \<and> tk' \<in> insert tk (used s) \<and> (unix now < ExpiresAt l \<longrightarrow> (\<exists>e. absLock m tbl' (leaseKey l) = Some (tk', e) \<and> ExpiresAt l \<le> e))"
      if h: "held s tk' = Some l" for tk' l
    proof -
      have o: "Token l = tk'" "tk' \<in> used s" "unix now < ExpiresAt l \<longrightarrow> (\<exists>e. absLock m (ltable s) (leaseKey l) = Some (tk', e) \<and> ExpiresAt l \<le> e)"
        using inv h by (auto simp: leaseInv_def)
      moreover have "\<not> unix now < ExpiresAt l" if "leaseKey l = k" using o(3) fr that by (auto simp: free_def)
      ultimately show ?thesis using t(2) by auto
    qed
    have own: "absLock m tbl' k = Some (tk, unix (now + d))" using t(2) by simp
    show ?thesis
    proof (cases res)
      case (Inl e)
      then show ?thesis using old t(1) by (simp add: leaseInv_def)
    next
      case (Inr l)
      then have "l = \<lparr> leaseKey = k, Token = tk, ExpiresAt = unix (now + d) \<rparr>" using r by simp
      then show ?thesis using Inr old t(1) own by (auto simp: leaseInv_def)
    qed
  qed
qed

lemma refresh_inv:
  assumes "leaseInv m s" "clock s \<le> now" "held s tk = Some l"
    and "(tbl' = ltable s \<and> \<not> isOk res) \<or> (ownedBy (Token l) (absLock m (ltable s) (leaseKey l)) \<and> leaseTable m tbl'
     \<and> absLock m tbl' = (absLock m (ltable s))(leaseKey l \<mapsto> (Token l, unix (now + d)))
     \<and> (res = Inr (l \<lparr> ExpiresAt := unix (now + d) \<rparr>) \<or> res = Inl (LeaseError ''refresh failed'')))"
  shows "leaseInv m (s \<lparr> ltable := tbl', held := (held s)(tk \<mapsto> afterRefresh l (unix (now + d)) res), clock := now \<rparr>)"
proof -
  have inv: "leaseInv m (s \<lparr> clock := now \<rparr>)" using leaseInv_later assms(1,2) by blast
  have l: "Token l = tk" "tk \<in> used s" using assms(1,3) by (auto simp: leaseInv_def)
  from assms(4) show ?thesis
  proof
    assume same: "tbl' = ltable s \<and> \<not> isOk res"
    then have keep: "leaseKey (afterRefresh l e res) = leaseKey l" "Token (afterRefresh l e res) = tk" "ExpiresAt (afterRefresh l e res) \<le> ExpiresAt l" for e
      using l by (auto simp: afterRefresh_def isOk_def split: sum.splits)
    have "unix now < ExpiresAt l \<longrightarrow> (\<exists>e. absLock m (ltable s) (leaseKey l) = Some (tk, e) \<and> ExpiresAt l \<le> e)"
      using inv assms(3) by (simp add: leaseInv_def)
    then have "unix now < ExpiresAt (afterRefresh l e' res) \<longrightarrow> (\<exists>e. absLock m (ltable s) (leaseKey l) = Some (tk, e) \<and> ExpiresAt (afterRefresh l e' res) \<le> e)"
      for e' using keep(3)[of e'] by (meson order.strict_trans2 order.trans)
    then show ?thesis using inv same keep(1,2) l(2) by (simp add: leaseInv_def)
  next
    assume *: "ownedBy (Token l) (absLock m (ltable s) (leaseKey l)) \<and> leaseTable m tbl'
     \<and> absLock m tbl' = (absLock m (ltable s))(leaseKey l \<mapsto> (Token l, unix (now + d)))
     \<and> (res = Inr (l \<lparr> ExpiresAt := unix (now + d) \<rparr>) \<or> res = Inl (LeaseError ''refresh failed''))"
    have others: "unix now < ExpiresAt l' \<longrightarrow> (\<exists>e. absLock m tbl' (leaseKey l') = Some (tk', e) \<and> ExpiresAt l' \<le> e)"
      if h: "held s tk' = Some l'" "tk' \<noteq> tk" for tk' l'
    proof -
      have "unix now < ExpiresAt l' \<longrightarrow> (\<exists>e. absLock m (ltable s) (leaseKey l') = Some (tk', e) \<and> ExpiresAt l' \<le> e)"
        using inv h(1) by (auto simp: leaseInv_def)
      then show ?thesis using * l h(2) by (auto simp: ownedBy_def split: option.splits prod.splits)
    qed
    have own: "absLock m tbl' (leaseKey l) = Some (tk, unix (now + d))" using * l by simp
    have t: "leaseTable m tbl'" using * by simp
    have base: "held s tk' = Some l' \<Longrightarrow> Token l' = tk' \<and> tk' \<in> used s" for tk' l' using inv by (simp add: leaseInv_def)
    from * have "res = Inr (l \<lparr> ExpiresAt := unix (now + d) \<rparr>) \<or> res = Inl (LeaseError ''refresh failed'')" by blast
    then show ?thesis
    proof
      assume "res = Inr (l \<lparr> ExpiresAt := unix (now + d) \<rparr>)"
      then show ?thesis using t base others own l by (auto simp: leaseInv_def afterRefresh_def)
    next
      assume r: "res = Inl (LeaseError ''refresh failed'')"
      then show ?thesis using t base others own l by (auto simp: leaseInv_def afterRefresh_def)
    qed
  qed
qed

lemma release_inv:
  assumes "leaseInv m s" "held s tk = Some l"
    and "tbl' = ltable s \<or> (ownedBy (Token l) (absLock m (ltable s) (leaseKey l)) \<and> leaseTable m tbl' \<and> absLock m tbl' = (absLock m (ltable s))(leaseKey l := None))"
  shows "leaseInv m (s \<lparr> ltable := tbl', held := (held s)(tk := None) \<rparr>)"
proof -
  have tk: "Token l = tk" using assms(1,2) by (simp add: leaseInv_def)
  have "unix (clock s) < ExpiresAt l' \<longrightarrow> (\<exists>e. absLock m tbl' (leaseKey l') = Some (tk', e) \<and> ExpiresAt l' \<le> e)"
    if h: "held s tk' = Some l'" "tk' \<noteq> tk" for tk' l'
  proof -
    have "unix (clock s) < ExpiresAt l' \<longrightarrow> (\<exists>e. absLock m (ltable s) (leaseKey l') = Some (tk', e) \<and> ExpiresAt l' \<le> e)"
      using assms(1) h(1) by (auto simp: leaseInv_def)
    then show ?thesis using assms(3) tk h(2) by (auto simp: ownedBy_def split: option.splits prod.splits)
  qed
  then show ?thesis using assms(1,3) by (auto simp: leaseInv_def)
qed

lemma ttl_inv:
  assumes "leaseInv m s" "clock s \<le> now" "ltable s (tblKey k) = Some it" "map_of it (ttlAttr m) = Some (AVN x)" "numText x = Some ttl" "ttl < unix now"
  shows "leaseInv m (s \<lparr> ltable := (ltable s)(tblKey k := None), clock := now \<rparr>)"
proof -
  let ?tbl = "(ltable s)(tblKey k := None)"
  have inv: "leaseInv m (s \<lparr> clock := now \<rparr>)" using leaseInv_later assms(1,2) by blast
  then have ok: "leaseTable m (ltable s)" by (simp add: leaseInv_def)
  obtain tk e where e: "absLock m (ltable s) k = Some (tk, e)" "map_of it (expiresAtAttr m) = Some (AVN (showInt e))" "itemOkFor m it"
    using absLock_item[of m "ltable s" k] ok assms(3) by (auto simp: leaseTable_def)
  then have "e \<le> ttl" using assms(4,5) by (auto simp: itemOkFor_def)
  then have gone: "e < unix now" using assms(6) by simp
  have abs: "absLock m ?tbl k' = ((absLock m (ltable s))(k := None)) k'" for k' by (simp add: absLock_def)
  have "leaseTable m ?tbl" using ok by (auto simp: leaseTable_def tableOk_def ttlConsistent_def)
  then show ?thesis using inv e(1) gone by (fastforce simp: leaseInv_def abs)
qed

lemma leaseRun_inv:
  assumes "leaseRun m s" "distinctAttrs m" shows "leaseInv m s"
  using assms(1)
proof induction
  case (Start t)
  show ?case by (simp add: leaseInv_def leaseTable_def tableOk_def ttlConsistent_def)
next
  case (AcquireStep s now tk cl k d res tbl')
  then show ?case using acquire_inv AcquireKey_outcome[OF assms(2) _ AcquireStep(4,5)] by (simp add: leaseInv_def)
next
  case (RefreshStep s now tk l cl d res tbl')
  have "leaseTable m (ltable s)" using RefreshStep.IH by (simp add: leaseInv_def)
  from refresh_inv[OF RefreshStep.IH RefreshStep(2,3) Refresh_outcome[OF assms(2) this RefreshStep(4,5)]] show ?case .
next
  case (ReleaseStep s tk l cl res tbl')
  have "leaseTable m (ltable s)" using ReleaseStep.IH by (simp add: leaseInv_def)
  from release_inv[OF ReleaseStep.IH ReleaseStep(2) Release_outcome[OF assms(2) this ReleaseStep(3,4)]] show ?case .
next
  case (TTLStep s now k it x ttl)
  then show ?case by (intro ttl_inv)
qed (rule leaseInv_later)

text \<open>C20. Mutual exclusion.  However many contenders that share one clock and the manager's settings (with pairwise distinct attribute names)
  acquire, refresh and release leases in whatever order, with lost responses, TTL deletions and time passing in between, two contenders never both hold an
  unexpired lease for the same key.  A contender whose refresh failed with an unknown outcome counts on the earlier of its old and the requested expiry
  (\<open>afterRefresh\<close>); one that goes on using the lease it passed in may share the key (\<open>lost_refresh_shortens\<close>).\<close>

theorem lease_mutual_exclusion:
  assumes "leaseRun m s" "distinctAttrs m"
    and "held s tk1 = Some l1" "held s tk2 = Some l2" "leaseKey l1 = leaseKey l2"
    and "unix (clock s) < ExpiresAt l1" "unix (clock s) < ExpiresAt l2"
  shows "tk1 = tk2 \<and> l1 = l2"
proof -
  have "leaseInv m s" using leaseRun_inv assms(1,2) by blast
  then obtain e1 e2 where "absLock m (ltable s) (leaseKey l1) = Some (tk1, e1)" "absLock m (ltable s) (leaseKey l2) = Some (tk2, e2)"
    using assms(3,4,6,7) by (meson leaseInv_def)
  then show ?thesis using assms(3,4,5) by simp
qed

text \<open>C21. An expired or released lease can be taken over: whenever the table shows no holder of the key or one whose time is up,
  an \<open>AcquireKey\<close> with valid arguments that DynamoDB answers returns a lease, and the caller is the holder.\<close>

theorem expired_lease_acquirable:
  assumes "leaseRun m s" "distinctAttrs m" "serves (pkAttr m) (skAttr m) cl"
    and "\<forall>r tbl. fst (cl r tbl) \<noteq> Inl OtherError"
    and "PK k \<noteq> []" "SK k \<noteq> []" "d > 0" "free (absLock m (ltable s) k) now"
  shows "\<exists>l tbl'. AcquireKey (Some m) (Some cl) k d now tk (ltable s) = (Inr l, tbl')
     \<and> absLock m tbl' k = Some (tk, ExpiresAt l) \<and> ExpiresAt l = unix (now + d)"
proof -
  have t: "leaseTable m (ltable s)" using leaseRun_inv[OF assms(1,2)] by (simp add: leaseInv_def)
  let ?r = "acquireRequest m k now (unix (now + d)) tk"
  obtain r1 t1 where c: "cl ?r (ltable s) = (r1, t1)" by fastforce
  have "holdsOn m ?r (ltable s)" using acquire_holds[OF assms(2)] t assms(8) by (simp add: leaseTable_def)
  moreover have "case cl ?r (ltable s) of
       (Inr _, tbl') \<Rightarrow> holdsOn m ?r (ltable s) \<and> tbl' = applyOn m ?r (ltable s)
     | (Inl ConditionalCheckFailed, tbl') \<Rightarrow> \<not> holdsOn m ?r (ltable s) \<and> tbl' = ltable s
     | (Inl OtherError, tbl') \<Rightarrow> tbl' = ltable s \<or> holdsOn m ?r (ltable s) \<and> tbl' = applyOn m ?r (ltable s)"
    using assms(3) by (simp add: serves_def)
  moreover have "r1 \<noteq> Inl OtherError" using assms(4) c by (metis fst_conv)
  ultimately have "r1 = Inr ()" "t1 = applyOn m ?r (ltable s)" using c by (auto split: sum.splits dberror.splits)
  then show ?thesis using c assms(5-7) acquire_apply[OF assms(2) _ refl, of "ltable s"] t
    by (simp add: AcquireKey_def Let_def leaseTable_def)
qed

section \<open>An in-memory table\<close>

definition memoryClient :: client where
  "memoryClient r tbl = (if requestHolds ''pk'' ''sk'' r tbl then (Inr (), requestApply ''pk'' ''sk'' r tbl) else (Inl ConditionalCheckFailed, tbl))"

lemma memoryClient_serves: "serves ''pk'' ''sk'' memoryClient"
  by (simp add: serves_def memoryClient_def)

definition defaultManager :: Manager where
  "defaultManager = projr (NewManager (Some memoryClient) ''locks'' [])"

lemma defaultManager_attrs:
  "pkAttr defaultManager = ''pk''" "skAttr defaultManager = ''sk''" "distinctAttrs defaultManager"
  by (simp_all add: defaultManager_def NewManager_def distinctAttrs_def)

definition lockKey :: Key where
  "lockKey = \<lparr> PK = ''page#1'', SK = ''LOCK'' \<rparr>"

abbreviation noItems :: table where "noItems \<equiv> \<lambda>_. None"

lemma noItems_ok: "tableOk m noItems" "ttlConsistent m noItems" "absLock m noItems k = None"
  by (simp_all add: tableOk_def ttlConsistent_def absLock_def)

lemma memory_acquires:
  "AcquireKey (Some defaultManager) (Some memoryClient) lockKey (5 * 10 ^ 9) (100 * 10 ^ 9) ''a'' noItems
   = (Inr \<lparr> leaseKey = lockKey, Token = ''a'', ExpiresAt = 105 \<rparr>, applyOn defaultManager (acquireRequest defaultManager lockKey (100 * 10 ^ 9) 105 ''a'') noItems)"
proof -
  have "holdsOn defaultManager (acquireRequest defaultManager lockKey (100 * 10 ^ 9) 105 ''a'') noItems"
    using acquire_holds[OF defaultManager_attrs(3) noItems_ok(1)] by (simp add: noItems_ok free_def)
  then show ?thesis
    by (simp add: AcquireKey_def lockKey_def memoryClient_def defaultManager_attrs unix_def Let_def)
qed

section \<open>A corner\<close>

text \<open>A client whose responses are lost: writes are applied, the caller sees a transport error.\<close>

definition lossyClient :: client where
  "lossyClient r tbl = (Inl OtherError, if requestHolds ''pk'' ''sk'' r tbl then requestApply ''pk'' ''sk'' r tbl else tbl)"

lemma lossyClient_serves: "serves ''pk'' ''sk'' lossyClient"
  by (simp add: serves_def lossyClient_def)

text \<open>When the response to a refresh with a shorter duration is lost, the caller keeps a lease that another contender can take: at second 102 the
  lease the first was handed runs to 105, and the second is handed one too.\<close>

theorem lost_refresh_shortens:
  "\<exists>l l' tbl1 tbl2 tbl3.
     AcquireKey (Some defaultManager) (Some memoryClient) lockKey (5 * 10 ^ 9) (100 * 10 ^ 9) ''a'' noItems = (Inr l, tbl1)
   \<and> Refresh (Some defaultManager) (Some lossyClient) l (1 * 10 ^ 9) (100 * 10 ^ 9) tbl1 = (Inl (LeaseError ''refresh failed''), tbl2)
   \<and> AcquireKey (Some defaultManager) (Some memoryClient) lockKey (5 * 10 ^ 9) (102 * 10 ^ 9) ''b'' tbl2 = (Inr l', tbl3)
   \<and> unix (102 * 10 ^ 9) < ExpiresAt l \<and> unix (102 * 10 ^ 9) < ExpiresAt l'"
proof -
  let ?m = defaultManager and ?l = "\<lparr> leaseKey = lockKey, Token = ''a'', ExpiresAt = 105 \<rparr>"
  let ?t1 = "applyOn ?m (acquireRequest ?m lockKey (100 * 10 ^ 9) 105 ''a'') noItems"
  let ?rr = "refreshRequest ?m ?l (100 * 10 ^ 9) 101"
  let ?t2 = "applyOn ?m ?rr ?t1"
  have serv: "serves (pkAttr ?m) (skAttr ?m) memoryClient" using memoryClient_serves by (simp add: defaultManager_attrs)
  have lt0: "leaseTable ?m noItems" by (simp add: leaseTable_def noItems_ok)
  have a1: "absLock ?m ?t1 lockKey = Some (''a'', 105)" using acquire_apply[OF defaultManager_attrs(3) noItems_ok(1) refl] by simp
  have lt1: "leaseTable ?m ?t1" using AcquireKey_outcome[OF defaultManager_attrs(3) lt0 serv memory_acquires] by (simp add: isOk_def)
  have h: "holdsOn ?m ?rr ?t1" using refresh_holds[OF defaultManager_attrs(3)] lt1 a1 by (simp add: leaseTable_def ownedBy_def free_def unix_def)
  have ref: "Refresh (Some ?m) (Some lossyClient) ?l (1 * 10 ^ 9) (100 * 10 ^ 9) ?t1 = (Inl (LeaseError ''refresh failed''), ?t2)"
    using h by (simp add: Refresh_def lossyClient_def defaultManager_attrs lockKey_def unix_def Let_def)
  have t2: "absLock ?m ?t2 lockKey = Some (''a'', 101)" "tableOk ?m ?t2"
    using refresh_apply[OF defaultManager_attrs(3) _ _ h refl] lt1 by (simp_all add: leaseTable_def)
  let ?ar = "acquireRequest ?m lockKey (102 * 10 ^ 9) 107 ''b''"
  have "holdsOn ?m ?ar ?t2" using acquire_holds[OF defaultManager_attrs(3) t2(2)] t2(1) by (simp add: free_def unix_def)
  then have "AcquireKey (Some ?m) (Some memoryClient) lockKey (5 * 10 ^ 9) (102 * 10 ^ 9) ''b'' ?t2
      = (Inr \<lparr> leaseKey = lockKey, Token = ''b'', ExpiresAt = 107 \<rparr>, applyOn ?m ?ar ?t2)"
    by (simp add: AcquireKey_def lockKey_def memoryClient_def defaultManager_attrs unix_def Let_def)
  then show ?thesis using memory_acquires ref by (intro exI conjI) (assumption | simp add: unix_def)+
qed

section \<open>Concrete runs\<close>

theorem lease_refines_lock_witness:
  "\<exists>tbl'. absLock defaultManager tbl' = (absLock defaultManager noItems)(lockKey \<mapsto> (''a'', 105))"
proof -
  have "serves (pkAttr defaultManager) (skAttr defaultManager) memoryClient"
    using memoryClient_serves by (simp add: defaultManager_attrs)
  from lease_refines_lock[OF defaultManager_attrs(3) noItems_ok(1,2) this,
      where k = lockKey and d = "5 * 10 ^ 9" and now = "100 * 10 ^ 9" and tk = "''a''", unfolded memory_acquires prod.case sum.case]
  show ?thesis by auto
qed

lemma memory_run:
  "\<exists>s. leaseRun defaultManager s \<and> held s ''a'' = Some \<lparr> leaseKey = lockKey, Token = ''a'', ExpiresAt = 105 \<rparr> \<and> clock s = 100 * 10 ^ 9
     \<and> absLock defaultManager (ltable s) lockKey = Some (''a'', 105)"
proof -
  let ?s = "\<lparr> ltable = noItems, held = (\<lambda>_. None), clock = 0, used = {} \<rparr>"
  let ?tbl = "applyOn defaultManager (acquireRequest defaultManager lockKey (100 * 10 ^ 9) 105 ''a'') noItems"
  have serv: "serves (pkAttr defaultManager) (skAttr defaultManager) memoryClient"
    using memoryClient_serves by (simp add: defaultManager_attrs)
  have acq: "AcquireKey (Some defaultManager) (Some memoryClient) lockKey (5 * 10 ^ 9) (100 * 10 ^ 9) ''a'' (ltable ?s)
      = (Inr \<lparr> leaseKey = lockKey, Token = ''a'', ExpiresAt = 105 \<rparr>, ?tbl)"
    using memory_acquires by simp
  have "leaseRun defaultManager \<lparr> ltable = ?tbl, held = (held ?s)(''a'' \<mapsto> \<lparr> leaseKey = lockKey, Token = ''a'', ExpiresAt = 105 \<rparr>),
      clock = 100 * 10 ^ 9, used = insert ''a'' (used ?s) \<rparr>"
    using AcquireStep[OF Start _ _ serv acq] by simp
  moreover have "absLock defaultManager ?tbl lockKey = Some (''a'', 105)"
    using acquire_apply[OF defaultManager_attrs(3) noItems_ok(1) refl] by simp
  ultimately show ?thesis by (intro exI conjI) (assumption, simp_all)
qed

theorem lease_mutual_exclusion_witness:
  "\<exists>s l. leaseRun defaultManager s \<and> held s ''a'' = Some l \<and> unix (clock s) < ExpiresAt l
     \<and> (\<forall>tk l'. held s tk = Some l' \<and> leaseKey l = leaseKey l' \<and> unix (clock s) < ExpiresAt l' \<longrightarrow> tk = ''a'')"
proof -
  obtain s where s: "leaseRun defaultManager s" "held s ''a'' = Some \<lparr> leaseKey = lockKey, Token = ''a'', ExpiresAt = 105 \<rparr>" "clock s = 100 * 10 ^ 9"
    using memory_run by blast
  have v: "unix (clock s) < ExpiresAt \<lparr> leaseKey = lockKey, Token = ''a'', ExpiresAt = 105 \<rparr>" using s(3) by (simp add: unix_def)
  show ?thesis using lease_mutual_exclusion[OF s(1) defaultManager_attrs(3) s(2)] s v by blast
qed

theorem expired_lease_acquirable_witness:
  "\<exists>s l tbl'. leaseRun defaultManager s \<and> absLock defaultManager (ltable s) lockKey = Some (''a'', 105)
     \<and> AcquireKey (Some defaultManager) (Some memoryClient) lockKey 1 (106 * 10 ^ 9) ''b'' (ltable s) = (Inr l, tbl')"
proof -
  obtain s where s: "leaseRun defaultManager s" "absLock defaultManager (ltable s) lockKey = Some (''a'', 105)"
    using memory_run by blast
  have serv: "serves (pkAttr defaultManager) (skAttr defaultManager) memoryClient"
    using memoryClient_serves by (simp add: defaultManager_attrs)
  have "\<forall>r tbl. fst (memoryClient r tbl) \<noteq> Inl OtherError" "PK lockKey \<noteq> []" "SK lockKey \<noteq> []" "(0::int) < 1"
    "free (absLock defaultManager (ltable s) lockKey) (106 * 10 ^ 9)"
    by (simp_all add: memoryClient_def lockKey_def free_def unix_def s(2)[unfolded lockKey_def])
  from expired_lease_acquirable[OF s(1) defaultManager_attrs(3) serv this] show ?thesis using s by blast
qed

end
