(* ===== verification/Protection.thy ===== *)
theory Protection
  imports GoStrings Complex_Main
begin

text \<open>
  Package \<open>pkg/protection\<close> and \<open>internal/numutil\<close>: the token bucket of \<open>SimpleLimiter\<close>, the batch and
  request limits of \<open>ResourceProtector\<close> and the memory monitor.  The clock is an explicit input (nanoseconds), the float
  arithmetic of the configuration is exact rational arithmetic.  A request or batch is a goroutine whose
  body is cut at its atomic actions (the limiter's mutex, the channel operations, the atomic
  counters, the compare-and-swap loop), so that the step relation has every interleaving of any
  number of goroutines.
\<close>

section \<open>\<open>numutil\<close>\<close>

definition MaxInt32 :: int where "MaxInt32 = 2147483647"
definition MinInt32 :: int where "MinInt32 = - 2147483648"

definition ClampIntToInt32 :: "int \<Rightarrow> int" where
  "ClampIntToInt32 n = (if n > MaxInt32 then MaxInt32 else if n < MinInt32 then MinInt32 else n)"

section \<open>Token bucket\<close>

record SimpleLimiter =
  lastRefill :: int
  tokens :: int
  maxTokens :: int
  refillRate :: int

definition NewSimpleLimiter :: "rat \<Rightarrow> int \<Rightarrow> int \<Rightarrow> SimpleLimiter" where
  "NewSimpleLimiter rps burst now =
     \<lparr> lastRefill = now, tokens = burst, maxTokens = burst, refillRate = \<lfloor>1000000000 / rps\<rfloor> \<rparr>"

text \<open>\<open>None\<close> is the run-time panic of the integer division by a zero refill interval.\<close>

definition Allow :: "int \<Rightarrow> SimpleLimiter \<Rightarrow> (bool \<times> SimpleLimiter) option" where
  "Allow now l =
     (if refillRate l = 0 then None
      else
        let elapsed = now - lastRefill l;
            tokensToAdd = elapsed div refillRate l;
            l1 = (if tokensToAdd > 0
                  then l \<lparr> tokens := min (tokens l + tokensToAdd) (maxTokens l), lastRefill := now \<rparr>
                  else l)
        in if tokens l1 > 0 then Some (True, l1 \<lparr> tokens := tokens l1 - 1 \<rparr>) else Some (False, l1))"

text \<open>A run of calls at the given times: how many were allowed, and the state after them.\<close>

fun allowRun :: "int list \<Rightarrow> SimpleLimiter \<Rightarrow> (nat \<times> SimpleLimiter) option" where
  "allowRun [] l = Some (0, l)"
| "allowRun (now # ts) l =
     (case Allow now l of None \<Rightarrow> None
      | Some (ok, l1) \<Rightarrow> (case allowRun ts l1 of None \<Rightarrow> None
          | Some (n, l2) \<Rightarrow> Some ((if ok then Suc n else n), l2)))"

definition limiterInv :: "SimpleLimiter \<Rightarrow> bool" where
  "limiterInv l = (0 \<le> tokens l \<and> tokens l \<le> maxTokens l \<and> 0 < refillRate l)"

lemma Allow_total: "limiterInv l \<Longrightarrow> \<exists>ok l'. Allow now l = Some (ok, l') \<and> limiterInv l'
    \<and> maxTokens l' = maxTokens l \<and> refillRate l' = refillRate l"
  by (auto simp: Allow_def limiterInv_def Let_def)

lemma div_add_le: "0 < (r::int) \<Longrightarrow> a div r + b div r \<le> (a + b) div r"
proof -
  assume r: "0 < r"
  have "0 \<le> (a mod r + b mod r) div r" using r by (simp add: pos_imp_zdiv_nonneg_iff)
  then show ?thesis by (simp add: div_add1_eq[of a b r])
qed

text \<open>The potential of the bucket: tokens now, plus what was refilled since the first refill time.\<close>

lemma Allow_potential:
  assumes "limiterInv l" "Allow now l = Some (ok, l')" "t0 \<le> lastRefill l"
  shows "(if ok then 1 else 0) + tokens l' - (lastRefill l' - t0) div refillRate l
           \<le> tokens l - (lastRefill l - t0) div refillRate l \<and> t0 \<le> lastRefill l'"
proof (cases "(now - lastRefill l) div refillRate l > 0")
  case True
  have r: "0 < refillRate l" using assms(1) by (simp add: limiterInv_def)
  have "0 \<le> now - lastRefill l"
    using True r by (smt (verit) div_neg_pos_less0)
  moreover have "(lastRefill l - t0) div refillRate l + (now - lastRefill l) div refillRate l \<le> (now - t0) div refillRate l"
    using div_add_le[OF r, of "lastRefill l - t0" "now - lastRefill l"] by simp
  ultimately show ?thesis using assms True by (auto simp: Allow_def Let_def split: if_splits)
next
  case False
  then show ?thesis using assms by (auto simp: Allow_def Let_def split: if_splits)
qed

lemma allowRun_bound:
  assumes "limiterInv l" "t0 \<le> lastRefill l" "allowRun ts l = Some (n, l')"
  shows "limiterInv l' \<and> t0 \<le> lastRefill l' \<and> refillRate l' = refillRate l \<and> maxTokens l' = maxTokens l
    \<and> int n + tokens l' - (lastRefill l' - t0) div refillRate l \<le> tokens l - (lastRefill l - t0) div refillRate l"
  using assms
proof (induction ts arbitrary: l n)
  case (Cons now ts)
  obtain ok l1 where a: "Allow now l = Some (ok, l1)" "limiterInv l1" "maxTokens l1 = maxTokens l" "refillRate l1 = refillRate l"
    using Allow_total[OF Cons.prems(1)] by blast
  note p = Allow_potential[OF Cons.prems(1) a(1) Cons.prems(2)]
  obtain m where rest: "allowRun ts l1 = Some (m, l')" "n = (if ok then Suc m else m)"
    using Cons.prems(3) a(1) by (auto split: option.splits prod.splits)
  have "limiterInv l' \<and> t0 \<le> lastRefill l' \<and> refillRate l' = refillRate l1 \<and> maxTokens l' = maxTokens l1
    \<and> int m + tokens l' - (lastRefill l' - t0) div refillRate l1 \<le> tokens l1 - (lastRefill l1 - t0) div refillRate l1"
    using Cons.IH[OF a(2) _ rest(1)] p by blast
  then show ?case using p rest(2) a by (auto split: if_splits)
qed simp

lemma allowRun_lastRefill: "allowRun ts l = Some (n, l') \<Longrightarrow> lastRefill l' \<in> insert (lastRefill l) (set ts)"
  by (induction ts arbitrary: l n) (fastforce simp: Allow_def Let_def split: option.splits prod.splits if_splits)+

lemma allowRun_total: "limiterInv l \<Longrightarrow> \<exists>n l'. allowRun ts l = Some (n, l')"
proof (induction ts arbitrary: l)
  case (Cons now ts)
  obtain ok l1 where a: "Allow now l = Some (ok, l1)" "limiterInv l1" using Allow_total[OF Cons.prems] by blast
  then show ?case using Cons.IH[OF a(2)] by auto
qed simp

text \<open>C10. Token bucket. From any state with a positive refill interval, a sequence of calls at times up to
  \<open>T\<close> never panics, keeps the number of tokens between 0 and the burst size, and allows at most the tokens present
  plus one per elapsed refill interval.\<close>

theorem Allow_rate_bound:
  assumes "limiterInv l" "lastRefill l \<le> T" "\<forall>t \<in> set ts. t \<le> T"
  shows "\<exists>n l'. allowRun ts l = Some (n, l') \<and> limiterInv l' \<and> maxTokens l' = maxTokens l
     \<and> int n \<le> tokens l + (T - lastRefill l) div refillRate l"
proof -
  obtain n l' where r: "allowRun ts l = Some (n, l')" using allowRun_total[OF assms(1)] by blast
  have b: "limiterInv l'" "maxTokens l' = maxTokens l"
      "int n + tokens l' - (lastRefill l' - lastRefill l) div refillRate l \<le> tokens l"
    using allowRun_bound[OF assms(1) order_refl r] by auto
  have "lastRefill l' \<le> T" using allowRun_lastRefill[OF r] assms(2,3) by auto
  then have "(lastRefill l' - lastRefill l) div refillRate l \<le> (T - lastRefill l) div refillRate l"
    using assms(1) by (intro zdiv_mono1) (auto simp: limiterInv_def)
  then show ?thesis using r b by (auto simp: limiterInv_def)
qed

theorem Allow_rate_bound_witness:
  "\<exists>n l'. allowRun [5, 12, 13] (NewSimpleLimiter 100000000 1 0) = Some (n, l') \<and> limiterInv l' \<and> maxTokens l' = 1
     \<and> int n \<le> 1 + (20 - 0) div 10"
proof -
  have l: "tokens (NewSimpleLimiter 100000000 1 0) = 1" "maxTokens (NewSimpleLimiter 100000000 1 0) = 1"
    "lastRefill (NewSimpleLimiter 100000000 1 0) = 0" "refillRate (NewSimpleLimiter 100000000 1 0) = 10"
    by (simp_all add: NewSimpleLimiter_def)
  have "limiterInv (NewSimpleLimiter 100000000 1 0)" by (simp add: limiterInv_def l)
  from Allow_rate_bound[OF this, of 20 "[5, 12, 13]"] show ?thesis by (simp only: l) simp
qed

text \<open>A rate above one request per nanosecond has a zero refill interval, and every call panics.\<close>

theorem Allow_panics_above_1GHz:
  assumes "rps > 1000000000"
  shows "Allow now (NewSimpleLimiter rps burst t) = None"
proof -
  have "\<lfloor>1000000000 / rps\<rfloor> = 0" using assms by (intro floor_unique) auto
  then show ?thesis by (simp add: Allow_def NewSimpleLimiter_def)
qed

section \<open>\<open>ResourceProtector\<close>\<close>

record ResourceLimits =
  MaxRequestBodySize :: int
  MaxConcurrentReq :: nat
  MaxBatchSize :: int
  MaxConcurrentBatch :: nat
  BatchRateLimit :: rat
  MaxMemoryMB :: int
  MemoryPanicThreshold :: rat
  RequestsPerSecond :: rat
  BurstSize :: int

definition DefaultResourceLimits :: ResourceLimits where
  "DefaultResourceLimits = \<lparr> MaxRequestBodySize = 10 * 1024 * 1024, MaxConcurrentReq = 100, MaxBatchSize = 25,
     MaxConcurrentBatch = 10, BatchRateLimit = 100, MaxMemoryMB = 500, MemoryPanicThreshold = 9 / 10,
     RequestsPerSecond = 1000, BurstSize = 50 \<rparr>"

text \<open>A channel used as a semaphore (number of buffered elements and capacity) with the atomic counters kept beside
  it: the protector has one for requests and one for batches.\<close>

record gate =
  gsem :: nat
  gcap :: nat
  gconc :: int
  gmax :: int
  gtotal :: int

datatype kind = Request | Batch

record ResourceProtector =
  config :: ResourceLimits
  globalLimiter :: SimpleLimiter
  batchLimiter :: SimpleLimiter
  requestGate :: gate
  batchGate :: gate
  rateLimitHits :: int
  rejectedRequests :: int
  rejectedBatchOps :: int

definition newGate :: "nat \<Rightarrow> gate" where
  "newGate cap = \<lparr> gsem = 0, gcap = cap, gconc = 0, gmax = 0, gtotal = 0 \<rparr>"

definition NewResourceProtector :: "ResourceLimits \<Rightarrow> int \<Rightarrow> ResourceProtector" where
  "NewResourceProtector cfg now =
     \<lparr> config = cfg,
       globalLimiter = NewSimpleLimiter (RequestsPerSecond cfg) (BurstSize cfg) now,
       batchLimiter = NewSimpleLimiter (BatchRateLimit cfg) (max 1 \<lfloor>BatchRateLimit cfg / 10\<rfloor>) now,
       requestGate = newGate (MaxConcurrentReq cfg),
       batchGate = newGate (MaxConcurrentBatch cfg),
       rateLimitHits = 0, rejectedRequests = 0, rejectedBatchOps = 0 \<rparr>"

definition gateOf :: "kind \<Rightarrow> ResourceProtector \<Rightarrow> gate" where
  "gateOf k rp = (case k of Request \<Rightarrow> requestGate rp | Batch \<Rightarrow> batchGate rp)"

definition setGate :: "kind \<Rightarrow> gate \<Rightarrow> ResourceProtector \<Rightarrow> ResourceProtector" where
  "setGate k g rp = (case k of Request \<Rightarrow> rp \<lparr> requestGate := g \<rparr> | Batch \<Rightarrow> rp \<lparr> batchGate := g \<rparr>)"

definition countRejected :: "kind \<Rightarrow> ResourceProtector \<Rightarrow> ResourceProtector" where
  "countRejected k rp = (case k of Request \<Rightarrow> rp \<lparr> rejectedRequests := rejectedRequests rp + 1 \<rparr>
     | Batch \<Rightarrow> rp \<lparr> rejectedBatchOps := rejectedBatchOps rp + 1 \<rparr>)"

text \<open>Where a goroutine stands in \<open>SecureBodyReader\<close>, or in \<open>AcquireBatch\<close> followed by \<open>ReleaseBatch\<close>.\<close>

datatype protection_error = RateLimitExceeded | ConcurrencyLimitExceeded | RequestTimeout
  | BatchSizeExceeded | BatchRateLimitExceeded | BatchConcurrencyExceeded | ContextError

datatype phase =
    PStart int                     \<comment> \<open>called, with the batch size\<close>
  | PSized                         \<comment> \<open>size check passed\<close>
  | PAllowed                       \<comment> \<open>rate limit passed\<close>
  | PSem                           \<comment> \<open>sent to the semaphore\<close>
  | PCounted int                   \<comment> \<open>\<open>current := AddInt64(concurrent, 1)\<close>\<close>
  | PTotal int                     \<comment> \<open>total counted; at the head of the maximum loop\<close>
  | PLoaded int int                \<comment> \<open>\<open>maxConcurrent\<close> loaded, about to compare and swap\<close>
  | PIn                            \<comment> \<open>running: reading the body, or the batch is held\<close>
  | PTimedOut                      \<comment> \<open>request timeout counted\<close>
  | PDec                           \<comment> \<open>concurrent counter decremented, semaphore still held\<close>
  | PDone
  | PRejected protection_error

type_synonym thread = "kind \<times> phase"

definition rateLimited :: "kind \<Rightarrow> ResourceProtector \<Rightarrow> ResourceProtector" where
  "rateLimited k rp = (case k of Request \<Rightarrow> rp \<lparr> rateLimitHits := rateLimitHits rp + 1 \<rparr> | Batch \<Rightarrow> countRejected Batch rp)"

definition limiterOf :: "kind \<Rightarrow> ResourceProtector \<Rightarrow> SimpleLimiter" where
  "limiterOf k rp = (case k of Request \<Rightarrow> globalLimiter rp | Batch \<Rightarrow> batchLimiter rp)"

definition setLimiter :: "kind \<Rightarrow> SimpleLimiter \<Rightarrow> ResourceProtector \<Rightarrow> ResourceProtector" where
  "setLimiter k l rp = (case k of Request \<Rightarrow> rp \<lparr> globalLimiter := l \<rparr> | Batch \<Rightarrow> rp \<lparr> batchLimiter := l \<rparr>)"

text \<open>One atomic action of a goroutine, as a relation because the clock, the context and the scheduler are free.\<close>

inductive act :: "ResourceProtector \<Rightarrow> thread \<Rightarrow> ResourceProtector \<Rightarrow> phase \<Rightarrow> bool" where
  size_ok: "k = Request \<or> n \<le> MaxBatchSize (config rp) \<Longrightarrow> act rp (k, PStart n) rp PSized"
| size_bad: "n > MaxBatchSize (config rp) \<Longrightarrow>
    act rp (Batch, PStart n) (countRejected Batch rp) (PRejected BatchSizeExceeded)"
| rate_ok: "Allow now (limiterOf k rp) = Some (True, l) \<Longrightarrow> act rp (k, PSized) (setLimiter k l rp) PAllowed"
| rate_bad: "Allow now (limiterOf k rp) = Some (False, l) \<Longrightarrow>
    act rp (k, PSized) (rateLimited k (setLimiter k l rp))
      (PRejected (case k of Request \<Rightarrow> RateLimitExceeded | Batch \<Rightarrow> BatchRateLimitExceeded))"
| send: "gsem (gateOf k rp) < gcap (gateOf k rp) \<Longrightarrow>
    act rp (k, PAllowed) (setGate k (gateOf k rp \<lparr> gsem := gsem (gateOf k rp) + 1 \<rparr>) rp) PSem"
| full: "\<not> gsem (gateOf k rp) < gcap (gateOf k rp) \<Longrightarrow>
    act rp (k, PAllowed) (countRejected k rp)
      (PRejected (case k of Request \<Rightarrow> ConcurrencyLimitExceeded | Batch \<Rightarrow> BatchConcurrencyExceeded))"
| ctx_done: "act rp (Batch, PAllowed) (countRejected Batch rp) (PRejected ContextError)"
| add_conc: "act rp (k, PSem) (setGate k (gateOf k rp \<lparr> gconc := gconc (gateOf k rp) + 1 \<rparr>) rp)
    (PCounted (gconc (gateOf k rp) + 1))"
| add_total: "act rp (k, PCounted c) (setGate k (gateOf k rp \<lparr> gtotal := gtotal (gateOf k rp) + 1 \<rparr>) rp) (PTotal c)"
| max_done: "c \<le> gmax (gateOf k rp) \<Longrightarrow> act rp (k, PTotal c) rp PIn"
| max_load: "\<not> c \<le> gmax (gateOf k rp) \<Longrightarrow> act rp (k, PTotal c) rp (PLoaded c (gmax (gateOf k rp)))"
| cas_ok: "gmax (gateOf k rp) = m \<Longrightarrow>
    act rp (k, PLoaded c m) (setGate k (gateOf k rp \<lparr> gmax := c \<rparr>) rp) PIn"
| cas_fail: "gmax (gateOf k rp) \<noteq> m \<Longrightarrow> act rp (k, PLoaded c m) rp (PTotal c)"
| timeout: "act rp (Request, PIn) (countRejected Request rp) PTimedOut"
| sub_conc: "ph = PIn \<or> k = Request \<and> ph = PTimedOut \<Longrightarrow>
    act rp (k, ph) (setGate k (gateOf k rp \<lparr> gconc := gconc (gateOf k rp) - 1 \<rparr>) rp) PDec"
| receive: "gsem (gateOf k rp) > 0 \<Longrightarrow>
    act rp (k, PDec) (setGate k (gateOf k rp \<lparr> gsem := gsem (gateOf k rp) - 1 \<rparr>) rp) PDone"

inductive_cases act_elim: "act rp (k, ph) rp' ph'"

inductive pstep :: "ResourceProtector \<times> thread list \<Rightarrow> ResourceProtector \<times> thread list \<Rightarrow> bool" where
  spawn: "pstep (rp, ts) (rp, ts @ [(k, PStart n)])"
| run: "i < length ts \<Longrightarrow> act rp (ts ! i) rp' ph \<Longrightarrow> pstep (rp, ts) (rp', ts[i := (fst (ts ! i), ph)])"

section \<open>Concurrency stays within the limits\<close>

definition holds :: "phase \<Rightarrow> bool" where
  "holds ph = (case ph of PSem \<Rightarrow> True | PCounted _ \<Rightarrow> True | PTotal _ \<Rightarrow> True | PLoaded _ _ \<Rightarrow> True
     | PIn \<Rightarrow> True | PTimedOut \<Rightarrow> True | PDec \<Rightarrow> True | _ \<Rightarrow> False)"

definition counted :: "phase \<Rightarrow> bool" where
  "counted ph = (holds ph \<and> ph \<noteq> PSem \<and> ph \<noteq> PDec)"

definition phaseMax :: "phase \<Rightarrow> int" where
  "phaseMax ph = (case ph of PCounted c \<Rightarrow> c | PTotal c \<Rightarrow> c | PLoaded c _ \<Rightarrow> c | _ \<Rightarrow> 0)"

definition count :: "(phase \<Rightarrow> bool) \<Rightarrow> kind \<Rightarrow> thread list \<Rightarrow> nat" where
  "count P k ts = length (filter (\<lambda>t. fst t = k \<and> P (snd t)) ts)"

definition gateInv :: "kind \<Rightarrow> ResourceProtector \<Rightarrow> thread list \<Rightarrow> bool" where
  "gateInv k rp ts =
     (gsem (gateOf k rp) = count holds k ts \<and> gconc (gateOf k rp) = int (count counted k ts)
      \<and> gsem (gateOf k rp) \<le> gcap (gateOf k rp) \<and> gmax (gateOf k rp) \<le> int (gcap (gateOf k rp))
      \<and> (\<forall>t \<in> set ts. fst t = k \<longrightarrow> phaseMax (snd t) \<le> int (gcap (gateOf k rp))))"

lemma filter_update_length:
  "i < length xs \<Longrightarrow> length (filter Q (xs[i := y])) + (if Q (xs ! i) then 1 else 0)
     = length (filter Q xs) + (if Q y then 1 else 0)"
proof (induction xs arbitrary: i)
  case (Cons x xs)
  show ?case
  proof (cases i)
    case (Suc m)
    then show ?thesis using Cons.IH[of m] Cons.prems by (cases "Q x") (simp_all split del: if_split)
  qed simp
qed simp

lemma count_update:
  assumes "i < length ts"
  shows "count P k (ts[i := t]) + (if fst (ts ! i) = k \<and> P (snd (ts ! i)) then 1 else 0)
       = count P k ts + (if fst t = k \<and> P (snd t) then 1 else 0)"
  unfolding count_def by (rule filter_update_length[OF assms])

lemma count_le: "(\<And>ph. P ph \<Longrightarrow> Q ph) \<Longrightarrow> count P k ts \<le> count Q k ts"
  by (induction ts) (auto simp: count_def)

lemma count_strict:
  assumes "t \<in> set ts" "fst t = k" "Q (snd t)" "\<not> P (snd t)" "\<And>ph. P ph \<Longrightarrow> Q ph"
  shows "count P k ts < count Q k ts"
  using assms(1)
proof (induction ts)
  case (Cons u ts)
  then show ?case using assms(2-5) count_le[of P Q k ts, OF assms(5)] by (cases "u = t") (auto simp: count_def)
qed simp

lemma gate_simps [simp]:
  "gateOf k (setGate k g rp) = g" "k \<noteq> j \<Longrightarrow> gateOf j (setGate k g rp) = gateOf j rp"
  "gateOf j (countRejected k rp) = gateOf j rp" "gateOf j (setLimiter k l rp) = gateOf j rp"
  "gateOf j (rateLimited k rp) = gateOf j rp"
  by (cases k; cases j; simp add: gateOf_def setGate_def countRejected_def setLimiter_def rateLimited_def)+

lemma holds_simps [simp]: "holds PSem" "holds (PCounted c)" "holds (PTotal c)" "holds (PLoaded c m)" "holds PIn" "holds PTimedOut"
  "holds PDec" "\<not> holds (PStart n)" "\<not> holds PSized" "\<not> holds PAllowed" "\<not> holds PDone" "\<not> holds (PRejected e)"
  by (simp_all add: holds_def)

lemma counted_simps [simp]: "\<not> counted PSem" "counted (PCounted c)" "counted (PTotal c)" "counted (PLoaded c m)" "counted PIn"
  "counted PTimedOut" "\<not> counted PDec" "\<not> counted (PStart n)" "\<not> counted PSized" "\<not> counted PAllowed" "\<not> counted PDone"
  "\<not> counted (PRejected e)"
  by (simp_all add: counted_def)

text \<open>How one action changes the gate of its goroutine, in terms of the phase before and after.\<close>

lemma act_gate:
  assumes "act rp (k, ph) rp' ph'"
  shows "(j \<noteq> k \<longrightarrow> gateOf j rp' = gateOf j rp)
    \<and> gcap (gateOf k rp') = gcap (gateOf k rp)
    \<and> gsem (gateOf k rp') + (if holds ph then 1 else 0) = gsem (gateOf k rp) + (if holds ph' then 1 else 0)
    \<and> gconc (gateOf k rp') + (if counted ph then 1 else 0) = gconc (gateOf k rp) + (if counted ph' then 1 else 0)
    \<and> (gsem (gateOf k rp) \<le> gcap (gateOf k rp) \<longrightarrow> gsem (gateOf k rp') \<le> gcap (gateOf k rp))
    \<and> (gmax (gateOf k rp') = gmax (gateOf k rp) \<or> gmax (gateOf k rp') = phaseMax ph)
    \<and> (phaseMax ph' = 0 \<or> phaseMax ph' = phaseMax ph \<or> ph = PSem \<and> phaseMax ph' = gconc (gateOf k rp) + 1)"
  using assms by cases (auto simp: phaseMax_def)

lemma gateInv_run:
  assumes inv: "gateInv j rp ts" and i: "i < length ts" and act: "act rp (ts ! i) rp' ph'"
  shows "gateInv j rp' (ts[i := (fst (ts ! i), ph')])"
proof -
  obtain k ph where t: "ts ! i = (k, ph)" by (cases "ts ! i")
  note a = act_gate[OF act[unfolded t], of j]
  note c = count_update[OF i, of _ j "(k, ph')"]
  show ?thesis
  proof (cases "j = k")
    case False
    then have "gateOf j rp' = gateOf j rp" using a by blast
    moreover have "count P j (ts[i := (k, ph')]) = count P j ts" for P using c[of P] t False by simp
    ultimately show ?thesis using inv False unfolding gateInv_def t fst_conv
      by (auto dest!: set_update_subset_insert[THEN subsetD])
  next
    case True
    have mem: "(k, ph) \<in> set ts" using i t by (metis nth_mem)
    have "phaseMax ph' \<le> int (gcap (gateOf k rp))"
    proof (cases "ph = PSem")
      case True
      have "count counted k ts < count holds k ts"
        by (rule count_strict[of "(k, ph)"]) (use mem True in \<open>auto simp: counted_def\<close>)
      then have "gconc (gateOf k rp) + 1 \<le> int (gcap (gateOf k rp))"
        using inv \<open>j = k\<close> by (simp add: gateInv_def)
      then show ?thesis using a inv \<open>j = k\<close> mem by (auto simp: gateInv_def)
    next
      case False
      then show ?thesis using a inv \<open>j = k\<close> mem by (auto simp: gateInv_def)
    qed
    moreover have "gmax (gateOf k rp') \<le> int (gcap (gateOf k rp))"
      using a inv True mem by (auto simp: gateInv_def)
    ultimately show ?thesis
      using a c[of holds] c[of counted] inv True unfolding gateInv_def t fst_conv
      by (auto dest!: set_update_subset_insert[THEN subsetD] split: if_splits)
  qed
qed

lemma gateInv_step: "pstep s s' \<Longrightarrow> gateInv k (fst s) (snd s) \<Longrightarrow> gateInv k (fst s') (snd s')"
proof (induction rule: pstep.induct)
  case (spawn rp ts k' n)
  then show ?case by (auto simp: gateInv_def count_def phaseMax_def)
next
  case (run i ts rp rp' ph)
  then show ?case using gateInv_run[of k rp ts i rp' ph] by simp
qed

lemma gcap_step: "pstep s s' \<Longrightarrow> gcap (gateOf k (fst s')) = gcap (gateOf k (fst s))"
proof (induction rule: pstep.induct)
  case (run i ts rp rp' ph)
  obtain j ph0 where t: "ts ! i = (j, ph0)" by (cases "ts ! i")
  show ?case using act_gate[OF run(2)[unfolded t], of k] by (cases "k = j") auto
qed simp

text \<open>C11. Concurrency limits under every interleaving. In every state reachable from a new protector by any interleaving
  of any number of request and batch goroutines, the number of goroutines that are running, the
  published concurrency counter and the recorded maximum are all within the configured limit, for requests and for batches, and the
  counter is exactly the number of goroutines between its increment and its decrement.\<close>

theorem concurrency_within_limits:
  assumes "pstep\<^sup>*\<^sup>* (NewResourceProtector cfg now, []) (rp, ts)"
  shows "count (\<lambda>ph. ph = PIn) k ts \<le> (case k of Request \<Rightarrow> MaxConcurrentReq cfg | Batch \<Rightarrow> MaxConcurrentBatch cfg)
    \<and> gconc (gateOf k rp) = int (count counted k ts)
    \<and> gconc (gateOf k rp) \<le> int (case k of Request \<Rightarrow> MaxConcurrentReq cfg | Batch \<Rightarrow> MaxConcurrentBatch cfg)
    \<and> gmax (gateOf k rp) \<le> int (case k of Request \<Rightarrow> MaxConcurrentReq cfg | Batch \<Rightarrow> MaxConcurrentBatch cfg)"
proof -
  let ?cap = "case k of Request \<Rightarrow> MaxConcurrentReq cfg | Batch \<Rightarrow> MaxConcurrentBatch cfg"
  have "gateInv k rp ts \<and> gcap (gateOf k rp) = ?cap"
    using assms
  proof (induction "(rp, ts)" arbitrary: rp ts rule: rtranclp_induct)
    case base
    then show ?case by (cases k) (simp_all add: gateInv_def count_def gateOf_def NewResourceProtector_def newGate_def)
  next
    case (step s)
    then show ?case using gateInv_step[OF step(2), of k] gcap_step[OF step(2), of k] by (cases s) auto
  qed
  moreover have "count (\<lambda>ph. ph = PIn) k ts \<le> count counted k ts" "count counted k ts \<le> count holds k ts"
    by (auto intro!: count_le simp: counted_def)
  ultimately show ?thesis by (auto simp: gateInv_def)
qed

theorem concurrency_within_limits_witness:
  "\<exists>rp ts. pstep\<^sup>*\<^sup>* (NewResourceProtector DefaultResourceLimits 0, []) (rp, ts) \<and> ts = [(Batch, PStart 5)]
     \<and> gconc (gateOf Batch rp) \<le> 10"
proof -
  have "pstep (NewResourceProtector DefaultResourceLimits 0, []) (NewResourceProtector DefaultResourceLimits 0, [] @ [(Batch, PStart 5)])"
    by (rule pstep.spawn)
  then have r: "pstep\<^sup>*\<^sup>* (NewResourceProtector DefaultResourceLimits 0, []) (NewResourceProtector DefaultResourceLimits 0, [(Batch, PStart 5)])"
    by auto
  have "gconc (gateOf Batch (NewResourceProtector DefaultResourceLimits 0)) \<le> 10"
    using concurrency_within_limits[OF r, of Batch] by (simp add: DefaultResourceLimits_def)
  then show ?thesis using r by blast
qed

section \<open>Memory monitor and health\<close>

record MemoryStats =
  CurrentMemoryMB :: int
  PeakMemoryMB :: int
  MemoryAlerts :: int

text \<open>\<open>float64(current) / float64(limit) \<ge> threshold\<close>; a zero limit gives infinity (true) or NaN (false).\<close>

definition usageAtLeast :: "int \<Rightarrow> int \<Rightarrow> rat \<Rightarrow> bool" where
  "usageAtLeast current limit threshold =
     (if limit = 0 then current > 0 else of_int current / of_int limit \<ge> threshold)"

definition determineSeverity :: "int \<Rightarrow> int \<Rightarrow> string" where
  "determineSeverity current limit =
     (if usageAtLeast current limit (95 / 100) then ''CRITICAL''
      else if usageAtLeast current limit (9 / 10) then ''HIGH''
      else if usageAtLeast current limit (8 / 10) then ''MEDIUM'' else ''LOW'')"

text \<open>One tick of the monitor on \<open>alloc\<close> allocated bytes: the new statistics, the alert's current size, limit and severity when
  one is raised, and whether a garbage collection is forced.\<close>

definition checkMemory :: "ResourceLimits \<Rightarrow> nat \<Rightarrow> MemoryStats \<Rightarrow> MemoryStats \<times> (int \<times> int \<times> string) option \<times> bool" where
  "checkMemory limits alloc st =
     (let currentMB = min (int (alloc div 1024 div 1024)) 9223372036854775807;
          st1 = st \<lparr> CurrentMemoryMB := currentMB,
                     PeakMemoryMB := (if currentMB \<le> PeakMemoryMB st then PeakMemoryMB st else currentMB) \<rparr>
      in if usageAtLeast currentMB (MaxMemoryMB limits) (MemoryPanicThreshold limits)
         then (st1 \<lparr> MemoryAlerts := MemoryAlerts st1 + 1 \<rparr>,
               Some (currentMB, MaxMemoryMB limits, determineSeverity currentMB (MaxMemoryMB limits)),
               usageAtLeast currentMB (MaxMemoryMB limits) (95 / 100))
         else (st1, None, False))"

text \<open>The three states of \<open>HealthCheck\<close>: overall degraded, memory warning, concurrency warning.\<close>

definition HealthCheck :: "ResourceProtector \<Rightarrow> MemoryStats \<Rightarrow> bool \<times> bool \<times> bool" where
  "HealthCheck rp st =
     (let limit = MaxMemoryMB (config rp);
          memoryHigh = (if limit = 0 then CurrentMemoryMB st > 0 else of_int (CurrentMemoryMB st) / of_int limit > (9 / 10 :: rat));
          concurrencyHigh = (gconc (requestGate rp) \<ge> \<lfloor>of_nat (MaxConcurrentReq (config rp)) * (9 / 10 :: rat)\<rfloor>)
      in (memoryHigh \<or> concurrencyHigh, memoryHigh, concurrencyHigh))"

text \<open>The peak never falls and is never below the current value; an alert is raised exactly when the threshold is reached, and its severity
  is never LOW when the threshold is at least 80 per cent.\<close>

lemma checkMemory_peak:
  assumes "checkMemory limits alloc st = (st', alert, gc)"
  shows "PeakMemoryMB st \<le> PeakMemoryMB st' \<and> CurrentMemoryMB st' \<le> PeakMemoryMB st'
    \<and> (alert \<noteq> None \<longleftrightarrow> usageAtLeast (CurrentMemoryMB st') (MaxMemoryMB limits) (MemoryPanicThreshold limits))
    \<and> (gc \<longrightarrow> alert \<noteq> None)"
  using assms by (auto simp: checkMemory_def Let_def split: if_splits)

text \<open>With a limit of one request, the warning level \<open>int64(1 * 0.9)\<close> is 0: an idle protector is reported as degraded.\<close>

theorem HealthCheck_degraded_when_idle:
  "fst (HealthCheck (NewResourceProtector (DefaultResourceLimits \<lparr> MaxConcurrentReq := 1 \<rparr>) now)
     \<lparr> CurrentMemoryMB = 0, PeakMemoryMB = 0, MemoryAlerts = 0 \<rparr>)"
  by (simp add: HealthCheck_def Let_def NewResourceProtector_def newGate_def DefaultResourceLimits_def)

end
