(* ===== verification/Spec2Isabelle.thy ===== *)
theory Spec2Isabelle
  imports DBExecutor DMS BatchCreate Migrate Aggregates LegacyTransaction EncryptUpdate Lease Registry Naming Validation Converter ExprProps Protection IndexSelector Cursor
begin

text \<open>
  TableTheory (Go): an object mapper for Amazon DynamoDB.

  \<^bold>\<open>The program and how its parts interact.\<close>  An application registers Go structs as models; the registry
  (\<open>pkg/model\<close>) reads their tags into metadata, using the naming conventions of \<open>pkg/naming\<close>.  A query (\<open>pkg/query\<close>) collects conditions
  through a fluent interface, chooses an index (\<open>pkg/index\<close>), and compiles a request with the expression builder (\<open>internal/expr\<close>), which
  validates names and values (\<open>pkg/validation\<close>), binds them to placeholders and converts Go values to attribute values
  (\<open>internal/expr/converter.go\<close>, \<open>pkg/types/converter.go\<close>).  Executors send the compiled requests to DynamoDB, follow
  pages and batches, and decode the answers.  Updates go through an update builder, groups of writes through batches or through
  transactions (\<open>pkg/transaction\<close>).  Encrypted fields are sealed in envelopes (\<open>internal/encryption\<close>) before they leave the process and
  refused in conditions.  Cursors (\<open>pkg/query/cursor.go\<close>) carry the position of a paged read through the client.  A lease manager
  (\<open>pkg/lease\<close>) and a resource limiter (\<open>pkg/protection\<close>) stand beside the rest.

  \<^bold>\<open>Conventions.\<close>  Go strings are byte strings.  Go values are pairs of a reflected type and a value (\<open>GoReflect\<close>), \<open>any\<close>
  is an option of such a pair.  Nil and empty slices and maps are one value, except in \<open>Marshal\<close>; Go maps are association lists, so that an iteration has the order
  of the list.  Errors are the left values of a sum, panics are error values, and a method that changes its receiver returns the new state.
  What lies outside the repository is a parameter with named laws: the DynamoDB client, KMS, AES-GCM, clocks, random sources,
  callbacks, the methods of the application's types, the parsers and printers of floats and times.  Concurrency is a step
  relation on atomic actions (\<open>Protection\<close>), a sequence of steps of many processes (\<open>Lease\<close>) or the order in which parallel parts
  arrive (\<open>Batch\<close>, \<open>BatchGet\<close>).

  \<^bold>\<open>Theories, what they model, and what their lemmas show.\<close>

  \<^item> \<open>Prelude\<close>, \<open>GoStrings\<close>, \<open>GoReflect\<close>: results, loops that may fail, association lists; package \<open>strings\<close> and number texts;
    types, values, attribute values.
  \<^item> \<open>Naming\<close> (\<open>pkg/naming/naming.go\<close>): derived attribute names are valid.
  \<^item> \<open>Validation\<close> (\<open>pkg/validation/field_validator.go\<close>): the accepted field names are a grammar; accepted values hold no dangerous text.
  \<^item> \<open>Converter\<close> (\<open>internal/expr/converter.go\<close>) and \<open>PkgConverter\<close> (\<open>pkg/types/converter.go\<close>): the two conversions between Go values and
    attribute values, and their round trips.
  \<^item> \<open>ExprBuilder\<close> and \<open>ExprProps\<close> (\<open>internal/expr/builder.go\<close>): conditions mean what was asked, placeholders keep their bindings over any
    sequence of calls (locale \<open>extending\<close>, interpreted for names and for values), \<open>Build\<close> is total, failed calls record nothing.
  \<^item> \<open>IndexSelector\<close> (\<open>pkg/index/selector.go\<close>): the best index, and the keys a query is planned on.
  \<^item> \<open>GoJSON\<close>, \<open>Base64\<close>, \<open>Cursor\<close> (\<open>pkg/query/cursor.go\<close>): the used parts of \<open>encoding/json\<close> and \<open>encoding/base64\<close>, and the round trip
    of cursors (locales \<open>codec\<close> and \<open>codec_chain\<close>).
  \<^item> \<open>Registry\<close> (\<open>pkg/model/registry.go\<close>): registered metadata is well formed and found again.
  \<^item> \<open>DMS\<close> (\<open>pkg/dms/dms.go\<close>): the specification of a registered model is valid and does not depend on the order of Go maps; the comparison
    of specifications ignores the order of attributes and indexes.
  \<^item> \<open>Envelope\<close> and \<open>EncryptUpdate\<close> (\<open>internal/encryption\<close>): envelopes open to what was sealed and only to that; the values an update assigns
    to encrypted attributes are sealed.
  \<^item> \<open>Lease\<close> (\<open>pkg/lease\<close>): the operations refine an abstract lock; mutual exclusion over all runs of contenders with one clock; an expired lease can be acquired.
  \<^item> \<open>Protection\<close> (\<open>pkg/protection\<close>): the rate of the token bucket; concurrency limits in every reachable state.
  \<^item> \<open>CoreMeta\<close>, \<open>QueryModel\<close>, \<open>QueryOps\<close> (\<open>pkg/query/query.go\<close>, \<open>internal/theorydb/query_support.go\<close>): the fluent interface, planning,
    compilation and operations; \<open>QueryProps\<close> and \<open>QueryPlan\<close>: a compiled request keeps every condition with its meaning (locale \<open>recorder\<close>), a
    Query names its partition key, GetItem keys are exact, updates check the version, conditions on encrypted fields never run.
  \<^item> \<open>UpdateBuilder\<close> (\<open>pkg/query/update_builder.go\<close>): the request carries the recorded clauses and conditions.
  \<^item> \<open>Batch\<close>, \<open>BatchWrite\<close>, \<open>BatchCreate\<close>, \<open>BatchGet\<close> (\<open>pkg/query/batch_operations.go\<close>, \<open>batch_get.go\<close>): batches partition their input (locale \<open>chunking\<close>),
    retries are bounded, batch writes write each request once (locale \<open>batch_writer\<close>), keys have key types, batch reads answer in the order of
    the keys (locale \<open>batch_getter\<close>).
  \<^item> \<open>Marshal\<close> (\<open>pkg/marshal\<close>): the safe marshaler and the one that reads memory, with their caches, write the same items for the
    fields they treat alike, with nil and empty collections told apart; the unsafe one is only made with consent.
  \<^item> \<open>Schema\<close>, \<open>Migrate\<close> (\<open>pkg/schema\<close>): requests for new tables keep the listed rules of DynamoDB, plans for indexes are exact, and a migration
    copies every item of the source once.
  \<^item> \<open>Unmarshal\<close>, \<open>Executor\<close> (\<open>pkg/query/executor.go\<close>): decoding gives back what the converter wrote; paged reads return all pages.
  \<^item> \<open>DBExecutor\<close> (\<open>internal/theorydb/query_executor.go\<close>): the executor with encryption; a read gives back what was put while the table only
    sees envelopes, nothing is sent without a key, reads return the first items up to the limit.
  \<^item> \<open>Transaction\<close> (\<open>pkg/transaction/builder.go\<close> and the item and key functions of \<open>transaction.go\<close>): the builder's invariant and
    error latch, all-or-nothing execution over a service with request tokens (locale \<open>transact_service\<close>), sealed fields;
    \<open>LegacyTransaction\<close> (the older type of \<open>transaction.go\<close>): version conditions, results under their positions.
  \<^item> \<open>Aggregates\<close> (\<open>pkg/query/aggregates.go\<close>): groups partition the items; the single pass of \<open>Aggregate\<close> agrees with the separate aggregates.

  Lemmas at the end of a theory that show a defect state what the code does; the corresponding behaviour is left as it is in the model.

  \<^bold>\<open>Bounds, fuel and termination.\<close>  The JSON parser takes the length of the text plus one as fuel and refuses nesting beyond 10000 as the Go
  decoder does; field lookup by name takes the size of the value, path lookup the size of the type: each level is strictly nested, so this
  is enough, and the round trips are proved with this fuel.  Retry loops recurse on the number of attempts or on the list of delays.  The loops of the
  executors and of migrations that only the service ends (\<open>pagedLoop\<close>, \<open>copyPages\<close>, \<open>batchPutLoop\<close>, \<open>collectPaginatedItems\<close>, \<open>collectPaginatedCounts\<close>,
  \<open>batchWriteLoop\<close>) are partial functions into \<open>option\<close>, and the theorems about paged reads and copies
  show that these return when the pages come to an end.  All other functions are total.  Integers have the width of their Go types where
  they are stored (\<open>wrapInt\<close>, \<open>wrapUint\<close>, 64-bit words for random bytes); durations and counters are unbounded.

  \<^bold>\<open>Not modelled.\<close>  The database facade and the session (\<open>internal/theorydb/theorydb.go\<close>, \<open>pkg/session\<close>): configuration and
  delegation;
  the query optimizer, whose hints the query path does not use; Lambda and multi-account support, which act on the process environment; error types, mocks, examples
  and tools; the TypeScript and Python implementations.  Contexts appear only where they end a delay.
\<close>

end
